(* ===== verification/Prelude.thy ===== *)
theory Prelude
  imports Main "HOL-Library.Word"
begin

text \<open>
  Shared vocabulary of the development: the machine types of a 64-bit user mode build,
  the byte image of a number (little-endian, least significant octet first), the
  collections of rewrite rules the component theories extend, and the few facts on
  lists and words that more than one component needs.
\<close>

section \<open>Machine types\<close>

type_synonym byte = "8 word"
type_synonym u16 = "16 word"
type_synonym u32 = "32 word"
type_synonym u64 = "64 word"
type_synonym size_t = "64 word"

named_theorems run_simps \<open>sequencing with AGS_CS_RUN\<close>
named_theorems flag_simps \<open>tests and updates of flag words\<close>
named_theorems block_simps \<open>reads and writes of storage blocks\<close>
named_theorems bytes_simps \<open>byte images of values\<close>
named_theorems ctx_simps \<open>reads of a context after an update\<close>

section \<open>Words as numbers\<close>

lemma unat_add_wrap:
  fixes a b :: "'a::len word"
  shows "unat (a + b) = (unat a + unat b) mod 2 ^ LENGTH('a)"
  by (simp add: unat_word_ariths)

lemma unat_add_exact:
  fixes a b :: "'a::len word"
  assumes "unat a + unat b < 2 ^ LENGTH('a)"
  shows "unat (a + b) = unat a + unat b"
  using assms by (simp add: unat_word_ariths)

lemma add_wraps_iff:
  fixes a b :: "'a::len word"
  shows "a + b < a \<longleftrightarrow> 2 ^ LENGTH('a) \<le> unat a + unat b"
proof -
  have a: "unat a < 2 ^ LENGTH('a)" and b: "unat b < 2 ^ LENGTH('a)"
    by simp_all
  show ?thesis
  proof (cases "unat a + unat b < 2 ^ LENGTH('a)")
    case True
    then have "unat (a + b) = unat a + unat b" by (rule unat_add_exact)
    then show ?thesis using True unfolding word_less_nat_alt by linarith
  next
    case False
    then have "unat (a + b) = (unat a + unat b - 2 ^ LENGTH('a)) mod 2 ^ LENGTH('a)"
      by (simp add: unat_add_wrap le_mod_geq)
    also have "\<dots> = unat a + unat b - 2 ^ LENGTH('a)"
      using a b by (intro mod_less) linarith
    finally show ?thesis using False a b unfolding word_less_nat_alt by linarith
  qed
qed

lemma unat_of_nat_small:
  assumes "n < 2 ^ LENGTH('a::len)"
  shows "unat (of_nat n :: 'a word) = n"
  using assms by (simp add: unat_of_nat take_bit_nat_eq_self)

lemma unat_add_of_nat:
  fixes a :: "'a::len word"
  assumes "unat a + n < 2 ^ LENGTH('a)"
  shows "unat (a + of_nat n) = unat a + n"
  using assms by (subst unat_add_exact) (simp_all add: unat_of_nat_small)

lemma unat_ucast_up:
  assumes "LENGTH('a) \<le> LENGTH('b)"
  shows "unat (ucast (w :: 'a::len word) :: 'b::len word) = unat w"
proof -
  have "unat w < 2 ^ LENGTH('a)" by (rule unsigned_less)
  also have "(2::nat) ^ LENGTH('a) \<le> 2 ^ LENGTH('b)" using assms by (intro power_increasing) simp_all
  finally show ?thesis by (simp add: unsigned_ucast_eq take_bit_nat_eq_self)
qed

section \<open>Byte images of numbers\<close>

primrec le_bytes :: "nat \<Rightarrow> nat \<Rightarrow> byte list" where
  "le_bytes 0 x = []"
| "le_bytes (Suc k) x = of_nat (x mod 256) # le_bytes k (x div 256)"

primrec le_value :: "byte list \<Rightarrow> nat" where
  "le_value [] = 0"
| "le_value (b # bs) = unat b + 256 * le_value bs"

lemma length_le_bytes [simp]: "length (le_bytes k x) = k"
  by (induction k arbitrary: x) simp_all

lemma unat_byte_less: "unat (b :: byte) < 256"
  by (rule order_less_le_trans [OF unsigned_less]) simp

lemma unat_byte_of_mod [simp]: "unat (of_nat (x mod 256) :: byte) = x mod 256"
  by (rule unat_of_nat_small) simp

lemma le_value_le_bytes: "le_value (le_bytes k x) = x mod 256 ^ k"
proof (induction k arbitrary: x)
  case 0
  then show ?case by simp
next
  case (Suc k)
  have "le_value (le_bytes (Suc k) x) = x mod 256 + 256 * (x div 256 mod 256 ^ k)"
    by (simp add: Suc.IH)
  then show ?case by (simp add: mod_mult2_eq)
qed

lemma le_value_bound: "le_value bs < 256 ^ length bs"
proof (induction bs)
  case Nil
  then show ?case by simp
next
  case (Cons b bs)
  have "unat b < 256" by (rule unat_byte_less)
  then show ?case using Cons by simp
qed

lemma le_bytes_le_value: "length bs = k \<Longrightarrow> le_bytes k (le_value bs) = bs"
proof (induction bs arbitrary: k)
  case Nil
  then show ?case by simp
next
  case (Cons b bs)
  have "unat b < 256" by (rule unat_byte_less)
  then show ?case using Cons by auto
qed

lemma take_drop_append:
  assumes "take (length (xs @ ys)) (drop k bs) = xs @ ys"
  shows "take (length xs) (drop k bs) = xs" "take (length ys) (drop (k + length xs) bs) = ys"
  using arg_cong [OF assms, of "take (length xs)"] arg_cong [OF assms, of "drop (length xs)"]
  by (simp_all add: drop_take add.commute)

lemma nth_le_bytes: "i < k \<Longrightarrow> le_bytes k x ! i = of_nat (x div 256 ^ i)"
proof (induction k arbitrary: x i)
  case 0
  then show ?case by simp
next
  case (Suc k)
  have "(of_nat (y mod 256) :: byte) = of_nat y" for y
    by (rule word_unat_eq_iff [THEN iffD2]) (simp add: unat_of_nat take_bit_eq_mod)
  then show ?case using Suc by (cases i) (simp_all add: div_mult2_eq)
qed

lemma byte_of_word:
  fixes w :: "'a::len word"
  shows "of_nat (unat w div 256 ^ i) = (ucast (drop_bit (8 * i) w) :: byte)"
proof -
  have "unat w div 256 ^ i = unat (drop_bit (8 * i) w)"
    by (simp add: unat_drop_bit_eq drop_bit_eq_div [where 'a = nat] power_mult)
  then show ?thesis by (simp only: of_nat_unat)
qed

section \<open>Object representations\<close>

text \<open>
  The octets of an arithmetic object in memory: least significant first on a
  little-endian platform, most significant first on a big-endian one (\<open>be\<close>).
\<close>

definition obj_bytes :: "bool \<Rightarrow> 'a::len word \<Rightarrow> byte list" where
  "obj_bytes be w =
     (if be then rev (le_bytes (LENGTH('a) div 8) (unat w))
      else le_bytes (LENGTH('a) div 8) (unat w))"

definition obj_value :: "bool \<Rightarrow> byte list \<Rightarrow> 'a::len word" where
  "obj_value be bs = of_nat (le_value (if be then rev bs else bs))"

lemma length_obj_bytes [simp, bytes_simps]:
  "length (obj_bytes be (w :: 'a::len word)) = LENGTH('a) div 8"
  by (simp add: obj_bytes_def)

lemma power_256_div_8: "8 dvd n \<Longrightarrow> (256::nat) ^ (n div 8) = 2 ^ n"
proof (erule dvdE)
  fix m
  assume "n = 8 * m"
  then show ?thesis by (simp add: power_mult)
qed

lemma obj_value_bytes:
  fixes w :: "'a::len word"
  assumes "8 dvd LENGTH('a)"
  shows "obj_value be (obj_bytes be w) = w"
  using assms
  by (simp add: obj_value_def obj_bytes_def le_value_le_bytes power_256_div_8)

lemma obj_bytes_value:
  assumes "8 dvd LENGTH('a::len)" and "length bs = LENGTH('a) div 8"
  shows "obj_bytes be (obj_value be bs :: 'a word) = bs"
proof -
  have "le_value cs < 2 ^ LENGTH('a)" if "length cs = length bs" for cs
    using le_value_bound [of cs] that assms by (simp add: power_256_div_8)
  then show ?thesis
    using assms(2)
    by (auto simp: obj_value_def obj_bytes_def unat_of_nat_small le_bytes_le_value)
qed

lemma obj_bytes_byte [simp]: "obj_bytes be (b :: byte) = [b]"
  by (simp add: obj_bytes_def mod_less [OF unat_byte_less])

lemma obj_value_byte [simp]: "(obj_value be [b] :: byte) = b"
  by (simp add: obj_value_def)

text \<open>Octet \<open>i\<close> of the little-endian image of a word.\<close>

lemma nth_le_bytes_word:
  fixes w :: "'a::len word"
  shows "i < k \<Longrightarrow> le_bytes k (unat w) ! i = ucast (drop_bit (8 * i) w)"
  by (simp add: nth_le_bytes byte_of_word)

end
