(* ===== verification/Status.thy ===== *)
theory Status
  imports Prelude
begin

text \<open>
  \<open>common/Status.h\<close>: the status codes that every procedure returns, the success test and
  the early-return macro \<open>AGS_CS_RUN\<close>. A C++ \<open>enum class\<close> with a fixed underlying type
  holds every 32-bit value, so a code that names no enumerator (it can arrive from the
  wire) is kept as \<open>StatusCode w\<close>.
\<close>

section \<open>Status codes\<close>

datatype status =
    NoError
  | NoFurtherProcessingRequired
  | ErrorNoMemory
  | ErrorOverflow
  | ErrorInvalidArgument
  | ErrorNotSupportedProtocolVersion
  | ErrorNotSupportedInterfaceVersion
  | ErrorInvalidHash
  | ErrorMismatchOfProtocolVersions
  | ErrorMismatchOfInterfaceVersions
  | ErrorMismatchOfStructId
  | ErrorNoSuchHandler
  | ErrorInternal
  | ErrorNotSupportedSerializationSettingsForStruct
  | ErrorInvalidType
  | ErrorDataCorrupted
  | ErrorNotCompatibleCommonFlagsSettings
  | ErrorNotCompatibleDataFlagsSettings
  | ErrorMoreEntires
  | ErrorNotInited
  | ErrorNoSupportedInterfaces
  | ErrorNotSupportedInterface
  | ErrorTypeSizeIsTooBig
  | ErrorValueOverflow
  | ErrorNotAvailible
  | ErrorAlreadyInited
  | StatusCode u32

fun status_code :: "status \<Rightarrow> int" where
  "status_code NoError = 0"
| "status_code NoFurtherProcessingRequired = 1"
| "status_code ErrorNoMemory = - 1"
| "status_code ErrorOverflow = - 2"
| "status_code ErrorInvalidArgument = - 3"
| "status_code ErrorNotSupportedProtocolVersion = - 4"
| "status_code ErrorNotSupportedInterfaceVersion = - 5"
| "status_code ErrorInvalidHash = - 6"
| "status_code ErrorMismatchOfProtocolVersions = - 7"
| "status_code ErrorMismatchOfInterfaceVersions = - 8"
| "status_code ErrorMismatchOfStructId = - 9"
| "status_code ErrorNoSuchHandler = - 10"
| "status_code ErrorInternal = - 11"
| "status_code ErrorNotSupportedSerializationSettingsForStruct = - 12"
| "status_code ErrorInvalidType = - 13"
| "status_code ErrorDataCorrupted = - 14"
| "status_code ErrorNotCompatibleCommonFlagsSettings = - 15"
| "status_code ErrorNotCompatibleDataFlagsSettings = - 16"
| "status_code ErrorMoreEntires = - 17"
| "status_code ErrorNotInited = - 18"
| "status_code ErrorNoSupportedInterfaces = - 19"
| "status_code ErrorNotSupportedInterface = - 20"
| "status_code ErrorTypeSizeIsTooBig = - 21"
| "status_code ErrorValueOverflow = - 22"
| "status_code ErrorNotAvailible = - 23"
| "status_code ErrorAlreadyInited = - 24"
| "status_code (StatusCode w) = sint w"

definition named_statuses :: "status list" where
  "named_statuses =
     [NoError, NoFurtherProcessingRequired, ErrorNoMemory, ErrorOverflow, ErrorInvalidArgument,
      ErrorNotSupportedProtocolVersion, ErrorNotSupportedInterfaceVersion, ErrorInvalidHash,
      ErrorMismatchOfProtocolVersions, ErrorMismatchOfInterfaceVersions, ErrorMismatchOfStructId,
      ErrorNoSuchHandler, ErrorInternal, ErrorNotSupportedSerializationSettingsForStruct,
      ErrorInvalidType, ErrorDataCorrupted, ErrorNotCompatibleCommonFlagsSettings,
      ErrorNotCompatibleDataFlagsSettings, ErrorMoreEntires, ErrorNotInited,
      ErrorNoSupportedInterfaces, ErrorNotSupportedInterface, ErrorTypeSizeIsTooBig,
      ErrorValueOverflow, ErrorNotAvailible, ErrorAlreadyInited]"

text \<open>The 32-bit object of a status, and the status such an object is.\<close>

definition status_word :: "status \<Rightarrow> u32" where
  "status_word s = word_of_int (status_code s)"

definition status_of_word :: "u32 \<Rightarrow> status" where
  "status_of_word w =
     (case find (\<lambda>s. status_word s = w) named_statuses of
        Some s \<Rightarrow> s
      | None \<Rightarrow> StatusCode w)"

definition statusSuccess :: "status \<Rightarrow> bool" where
  "statusSuccess s = (0 \<le> status_code s)"

lemma statusSuccess_simps [simp]:
  "statusSuccess NoError"
  "statusSuccess NoFurtherProcessingRequired"
  "\<not> statusSuccess ErrorNoMemory"
  "\<not> statusSuccess ErrorOverflow"
  "\<not> statusSuccess ErrorInvalidArgument"
  "\<not> statusSuccess ErrorNotSupportedProtocolVersion"
  "\<not> statusSuccess ErrorNotSupportedInterfaceVersion"
  "\<not> statusSuccess ErrorMismatchOfInterfaceVersions"
  "\<not> statusSuccess ErrorMismatchOfStructId"
  "\<not> statusSuccess ErrorNoSuchHandler"
  "\<not> statusSuccess ErrorInternal"
  "\<not> statusSuccess ErrorNotSupportedSerializationSettingsForStruct"
  "\<not> statusSuccess ErrorInvalidType"
  "\<not> statusSuccess ErrorDataCorrupted"
  "\<not> statusSuccess ErrorNotCompatibleCommonFlagsSettings"
  "\<not> statusSuccess ErrorNotCompatibleDataFlagsSettings"
  "\<not> statusSuccess ErrorMoreEntires"
  "\<not> statusSuccess ErrorNotInited"
  "\<not> statusSuccess ErrorNoSupportedInterfaces"
  "\<not> statusSuccess ErrorNotSupportedInterface"
  "\<not> statusSuccess ErrorTypeSizeIsTooBig"
  "\<not> statusSuccess ErrorValueOverflow"
  "\<not> statusSuccess ErrorNotAvailible"
  "\<not> statusSuccess ErrorAlreadyInited"
  by (simp_all add: statusSuccess_def)

lemma status_word_of_word: "status_word (status_of_word w) = w"
proof (cases "find (\<lambda>s. status_word s = w) named_statuses")
  case None
  then show ?thesis by (simp add: status_of_word_def status_word_def)
next
  case (Some s)
  then have "status_word s = w" by (auto simp: find_Some_iff)
  with Some show ?thesis by (simp add: status_of_word_def)
qed

section \<open>Sequencing\<close>

text \<open>
  \<open>AGS_CS_RUN(x)\<close> evaluates \<open>x\<close> and returns its status from the enclosing function
  unless it is a success; a success status other than \<open>NoError\<close> is dropped. A call is the
  pair of its status and the state it leaves. \<open>run\<close> continues from that state; \<open>run_as e\<close>
  is the form for a callee whose state is not the caller's: on an error the caller
  returns the part \<open>e\<close> of it.
\<close>

definition run :: "status \<times> 's \<Rightarrow> ('s \<Rightarrow> status \<times> 's) \<Rightarrow> status \<times> 's" where
  "run r k = (if statusSuccess (fst r) then k (snd r) else r)"

definition run_as :: "('s \<Rightarrow> 't) \<Rightarrow> status \<times> 's \<Rightarrow> ('s \<Rightarrow> status \<times> 't) \<Rightarrow> status \<times> 't" where
  "run_as e r k = (if statusSuccess (fst r) then k (snd r) else (fst r, e (snd r)))"

lemma run_pair [run_simps]:
  "run (st, s) k = (if statusSuccess st then k s else (st, s))"
  by (simp add: run_def)

lemma run_as_pair [run_simps]:
  "run_as e (st, s) k = (if statusSuccess st then k s else (st, e s))"
  by (simp add: run_as_def)

text \<open>\<open>AGS_CS_SET_NEW_ERROR(x)\<close>: the first error wins.\<close>

definition set_new_error :: "status \<Rightarrow> status \<Rightarrow> status" where
  "set_new_error newStatus st =
     (if \<not> statusSuccess newStatus \<and> statusSuccess st then newStatus else st)"

end
