(* ===== verification/Helpers.thy ===== *)
theory Helpers
  imports Status
begin

unbundle bit_operations_syntax

text \<open>
  \<open>common/helpers.h\<close> and \<open>common/Uuid.h\<close>: overlap of memory regions, reversal of the octets
  of a number, the checked and unchecked casts between integer widths, and UUIDs. The
  endianness of the platform a module is compiled for is the argument \<open>be\<close>.
\<close>

section \<open>Memory regions\<close>

definition areRegionsOverlap :: "nat \<Rightarrow> nat \<Rightarrow> nat \<Rightarrow> bool" where
  "areRegionsOverlap pObjs1 pObjs2 n =
     (pObjs1 \<ge> pObjs2 \<and> pObjs1 < pObjs2 + n \<or> pObjs1 \<le> pObjs2 \<and> pObjs1 + n > pObjs2)"

section \<open>Reversal of octets\<close>

definition reverseEndianessUInt64 :: "u64 \<Rightarrow> u64" where
  "reverseEndianessUInt64 input =
     drop_bit 56 input
     OR (drop_bit 40 input AND 0x000000000000ff00)
     OR (drop_bit 24 input AND 0x0000000000ff0000)
     OR (drop_bit 8 input AND 0x00000000ff000000)
     OR (push_bit 8 input AND 0x000000ff00000000)
     OR (push_bit 24 input AND 0x0000ff0000000000)
     OR (push_bit 40 input AND 0x00ff000000000000)
     OR push_bit 56 input"

definition reverseEndianessUInt32 :: "u32 \<Rightarrow> u32" where
  "reverseEndianessUInt32 input =
     drop_bit 24 input
     OR (drop_bit 8 input AND 0x0000ff00)
     OR (push_bit 8 input AND 0x00ff0000)
     OR push_bit 24 input"

definition reverseEndianessUInt16 :: "u16 \<Rightarrow> u16" where
  "reverseEndianessUInt16 input = drop_bit 8 input OR push_bit 8 input"

text \<open>The dispatch on \<open>sizeof(_T)\<close>; an enumeration or a floating-point object is
  reinterpreted as the unsigned integer of its size, so a value is its object's bits.\<close>

definition reverseEndianess :: "'a::len word \<Rightarrow> 'a word" where
  "reverseEndianess input =
     (if LENGTH('a) div 8 = 2 then ucast (reverseEndianessUInt16 (ucast input))
      else if LENGTH('a) div 8 = 4 then ucast (reverseEndianessUInt32 (ucast input))
      else ucast (reverseEndianessUInt64 (ucast input)))"

text \<open>\<open>EndiannessReversable\<close> of \<open>common/concepts.h\<close>, for arithmetic types and enumerations.\<close>

definition EndiannessReversable :: "nat \<Rightarrow> bool" where
  "EndiannessReversable sz = (sz > 1 \<and> sz \<le> 8)"

section \<open>Casts between integer widths\<close>

text \<open>\<open>fixed_width_integer<targetSize, isSigned>::min\<close> and \<open>max\<close>; \<open>None\<close> where the template
  has no specialisation.\<close>

fun fixed_width_min :: "nat \<Rightarrow> bool \<Rightarrow> int option" where
  "fixed_width_min n isSigned =
     (if n = 8 then Some (if isSigned then - 9223372036854775807 - 1 else 0)
      else if n = 4 then Some (if isSigned then - 2147483647 - 1 else 0)
      else if n = 2 then Some (if isSigned then - 32767 - 1 else 0)
      else if n = 1 then Some (if isSigned then - 127 - 1 else 0)
      else None)"

fun fixed_width_max :: "nat \<Rightarrow> bool \<Rightarrow> int option" where
  "fixed_width_max n isSigned =
     (if n = 8 then Some (if isSigned then 9223372036854775807 else 18446744073709551615)
      else if n = 4 then Some (if isSigned then 2147483647 else 4294967295)
      else if n = 2 then Some (if isSigned then 32767 else 65535)
      else if n = 1 then Some (if isSigned then 127 else 255)
      else None)"

text \<open>The number a word stands for in a type of the given signedness.\<close>

definition int_of :: "bool \<Rightarrow> 'a::len word \<Rightarrow> int" where
  "int_of isSigned w = (if isSigned then sint w else uint w)"

definition castToSmallerType :: "bool \<Rightarrow> 'a::len word \<Rightarrow> 'b::len word \<Rightarrow> status \<times> 'b word" where
  "castToSmallerType isSigned input output =
     (if int_of isSigned input > the (fixed_width_max (LENGTH('b) div 8) isSigned)
         \<or> int_of isSigned input < the (fixed_width_min (LENGTH('b) div 8) isSigned)
      then (ErrorValueOverflow, output)
      else (NoError, word_of_int (int_of isSigned input)))"

definition castToBiggerType :: "bool \<Rightarrow> 'a::len word \<Rightarrow> 'b::len word" where
  "castToBiggerType isSigned input = word_of_int (int_of isSigned input)"

section \<open>UUIDs\<close>

datatype uuid = Uuid (m_high: u64) (m_low: u64)

definition kNullUuid :: uuid where
  "kNullUuid = Uuid 0 0"

definition uuid_of_halves :: "bool \<Rightarrow> u64 \<Rightarrow> u64 \<Rightarrow> uuid" where
  "uuid_of_halves be high low =
     (if \<not> be then Uuid (reverseEndianess high) (reverseEndianess low)
      else Uuid high low)"

definition uuid_of_parts :: "bool \<Rightarrow> u32 \<Rightarrow> u16 \<Rightarrow> u16 \<Rightarrow> u16 \<Rightarrow> u64 \<Rightarrow> uuid" where
  "uuid_of_parts be first second third fourth fifth =
     (if \<not> be then
        Uuid (ucast (reverseEndianess first)
              OR push_bit 32 (ucast (reverseEndianess second))
              OR push_bit 48 (ucast (reverseEndianess third)))
             (ucast (reverseEndianess fourth)
              OR (reverseEndianess fifth AND 0xffffffffffff0000))
      else
        Uuid (push_bit 32 (ucast first) OR push_bit 16 (ucast second) OR ucast third)
             (push_bit 48 (ucast fourth) OR fifth))"

definition uuid_less :: "bool \<Rightarrow> uuid \<Rightarrow> uuid \<Rightarrow> bool" where
  "uuid_less be lhs rhs =
     (if \<not> be then m_low lhs < m_low rhs \<or> m_low lhs = m_low rhs \<and> m_high lhs < m_high rhs
      else m_high lhs < m_high rhs \<or> m_high lhs = m_high rhs \<and> m_low lhs < m_low rhs)"

definition uuid_eq :: "uuid \<Rightarrow> uuid \<Rightarrow> bool" where
  "uuid_eq lhs rhs = (m_low lhs = m_low rhs \<and> m_high lhs = m_high rhs)"

text \<open>The 16 octets of the packed struct, in the order of its fields.\<close>

definition uuid_bytes :: "bool \<Rightarrow> uuid \<Rightarrow> byte list" where
  "uuid_bytes be uid = obj_bytes be (m_high uid) @ obj_bytes be (m_low uid)"

definition uuid_of_bytes :: "bool \<Rightarrow> byte list \<Rightarrow> uuid" where
  "uuid_of_bytes be bs = Uuid (obj_value be (take 8 bs)) (obj_value be (drop 8 bs))"

text \<open>\<open>std::hash<Uuid>\<close>: the exclusive or of the hashes of the octets; the hash of one
  octet is the standard library's.\<close>

definition uuid_hash :: "bool \<Rightarrow> (byte \<Rightarrow> size_t) \<Rightarrow> uuid \<Rightarrow> size_t" where
  "uuid_hash be hashFunc uid = foldl (\<lambda>result b. result XOR hashFunc b) 0 (uuid_bytes be uid)"

text \<open>The 16 octets of the textual form, most significant octet of each part first.\<close>

definition uuid_wire :: "u32 \<Rightarrow> u16 \<Rightarrow> u16 \<Rightarrow> u16 \<Rightarrow> u64 \<Rightarrow> byte list" where
  "uuid_wire first second third fourth fifth =
     rev (le_bytes 4 (unat first)) @ rev (le_bytes 2 (unat second)) @ rev (le_bytes 2 (unat third))
     @ rev (le_bytes 2 (unat fourth)) @ rev (le_bytes 6 (unat fifth))"

section \<open>Properties\<close>

lemma areRegionsOverlap_iff:
  "areRegionsOverlap p q n \<longleftrightarrow> {p..<p + n} \<inter> {q..<q + n} \<noteq> {}"
proof
  assume "areRegionsOverlap p q n"
  then have "max p q \<in> {p..<p + n} \<inter> {q..<q + n}"
    by (auto simp: areRegionsOverlap_def max_def)
  then show "{p..<p + n} \<inter> {q..<q + n} \<noteq> {}" by blast
next
  assume "{p..<p + n} \<inter> {q..<q + n} \<noteq> {}"
  then show "areRegionsOverlap p q n"
    by (auto simp: areRegionsOverlap_def)
qed

lemma byte_masks:
  "(0xff00 :: u64) = push_bit 8 (mask 8)"
  "(0xff0000 :: u64) = push_bit 16 (mask 8)"
  "(0xff000000 :: u64) = push_bit 24 (mask 8)"
  "(0xff00000000 :: u64) = push_bit 32 (mask 8)"
  "(0xff0000000000 :: u64) = push_bit 40 (mask 8)"
  "(0xff000000000000 :: u64) = push_bit 48 (mask 8)"
  "(0xffffffffffff0000 :: u64) = push_bit 16 (mask 48)"
  "(0xff00 :: u32) = push_bit 8 (mask 8)"
  "(0xff0000 :: u32) = push_bit 16 (mask 8)"
  by (simp_all add: mask_eq_exp_minus_1 push_bit_eq_mult)

lemma le_bytes_eq_rev_iff:
  fixes v w :: "'a::len word"
  assumes "\<And>i. i < k \<Longrightarrow> (ucast (drop_bit (8 * i) v) :: byte) = ucast (drop_bit (8 * (k - Suc i)) w)"
  shows "le_bytes k (unat v) = rev (le_bytes k (unat w))"
  by (rule nth_equalityI) (simp_all add: nth_le_bytes_word rev_nth assms)

lemma le_bytes_reverse64: "le_bytes 8 (unat (reverseEndianessUInt64 w)) = rev (le_bytes 8 (unat w))"
proof (rule le_bytes_eq_rev_iff)
  fix i :: nat assume "i < 8"
  then consider "i = 0" | "i = 1" | "i = 2" | "i = 3" | "i = 4" | "i = 5" | "i = 6" | "i = 7" by linarith
  then show "(ucast (drop_bit (8 * i) (reverseEndianessUInt64 w)) :: byte) = ucast (drop_bit (8 * (8 - Suc i)) w)"
   unfolding reverseEndianessUInt64_def byte_masks
   by cases (auto intro!: bit_word_eqI simp: bit_simps)
qed

lemma le_bytes_reverse32: "le_bytes 4 (unat (reverseEndianessUInt32 w)) = rev (le_bytes 4 (unat w))"
proof (rule le_bytes_eq_rev_iff)
  fix i :: nat assume "i < 4"
  then consider "i = 0" | "i = 1" | "i = 2" | "i = 3" by linarith
  then show "(ucast (drop_bit (8 * i) (reverseEndianessUInt32 w)) :: byte) = ucast (drop_bit (8 * (4 - Suc i)) w)"
   unfolding reverseEndianessUInt32_def byte_masks
   by cases (auto intro!: bit_word_eqI simp: bit_simps)
qed
lemma le_bytes_reverse16: "le_bytes 2 (unat (reverseEndianessUInt16 w)) = rev (le_bytes 2 (unat w))"
proof (rule le_bytes_eq_rev_iff)
  fix i :: nat assume "i < 2"
  then consider "i = 0" | "i = 1" by linarith
  then show "(ucast (drop_bit (8 * i) (reverseEndianessUInt16 w)) :: byte) = ucast (drop_bit (8 * (2 - Suc i)) w)"
   unfolding reverseEndianessUInt16_def
   by cases (auto intro!: bit_word_eqI simp: bit_simps)
qed
lemma unat_ucast_same:
  "LENGTH('b) = LENGTH('a) \<Longrightarrow> unat (ucast (w :: 'a::len word) :: 'b::len word) = unat w"
  by (metis unsigned_less take_bit_nat_eq_self unsigned_ucast_eq)

lemma obj_bytes_reverse:
  fixes w :: "'a::len word"
  assumes "LENGTH('a) \<in> {16, 32, 64}"
  shows "obj_bytes be (reverseEndianess w) = rev (obj_bytes be w)"
  using assms
  by (auto simp: obj_bytes_def reverseEndianess_def unat_ucast_same
      le_bytes_reverse16 le_bytes_reverse32 le_bytes_reverse64)

lemma obj_value_rev: "obj_value be (rev bs) = obj_value (\<not> be) bs"
  by (simp add: obj_value_def)

lemma reverse_flips_platform:
  fixes w :: "'a::len word"
  assumes "LENGTH('a) \<in> {16, 32, 64}"
  shows "obj_bytes be (reverseEndianess w) = obj_bytes (\<not> be) w"
  using obj_bytes_reverse [OF assms, of be w] by (simp add: obj_bytes_def)

lemma reverse_involutive:
  fixes w :: "'a::len word"
  assumes "LENGTH('a) \<in> {16, 32, 64}"
  shows "reverseEndianess (reverseEndianess w) = w"
proof -
  have "obj_bytes False (reverseEndianess (reverseEndianess w)) = obj_bytes False w"
    by (simp add: obj_bytes_reverse [OF assms])
  then have "obj_value False (obj_bytes False (reverseEndianess (reverseEndianess w))) = (obj_value False (obj_bytes False w) :: 'a word)"
    by simp
  then show ?thesis using assms by (subst (asm) (1 2) obj_value_bytes) auto
qed

lemma reverse_obj_value:
  assumes "LENGTH('a::len) \<in> {16, 32, 64}" and "length bs = LENGTH('a) div 8"
  shows "reverseEndianess (obj_value be bs :: 'a word) = obj_value (\<not> be) bs"
proof -
  have "obj_bytes be (reverseEndianess (obj_value be bs :: 'a word)) = rev bs"
    using assms by (auto simp: obj_bytes_reverse obj_bytes_value)
  then have "obj_value be (obj_bytes be (reverseEndianess (obj_value be bs :: 'a word))) = (obj_value be (rev bs) :: 'a word)" by simp
  then show ?thesis using assms(1) by (subst (asm) obj_value_bytes) (auto simp: obj_value_rev)
qed

lemma le_bytes_word_eqI:
  fixes v :: "'a::len word"
  assumes "length bs = k" and "\<And>i. i < k \<Longrightarrow> ucast (drop_bit (8 * i) v) = bs ! i"
  shows "le_bytes k (unat v) = bs"
  using assms by (intro nth_equalityI) (simp_all add: nth_le_bytes_word)

lemma bit_beyond: "LENGTH('a) \<le> n \<Longrightarrow> \<not> bit (w :: 'a::len word) n"
  using bit_imp_le_length [of w n] by auto

lemma join_4_2_2:
  fixes a :: u32 and b c :: u16
  shows "le_bytes 8 (unat (ucast a OR push_bit 32 (ucast b) OR push_bit 48 (ucast c) :: u64))
     = le_bytes 4 (unat a) @ le_bytes 2 (unat b) @ le_bytes 2 (unat c)"
proof (rule le_bytes_word_eqI)
  fix i :: nat assume "i < 8"
  then consider "i = 0" | "i = 1" | "i = 2" | "i = 3" | "i = 4" | "i = 5" | "i = 6" | "i = 7" by linarith
  then show "ucast (drop_bit (8 * i) (ucast a OR push_bit 32 (ucast b) OR push_bit 48 (ucast c) :: u64))
     = (le_bytes 4 (unat a) @ le_bytes 2 (unat b) @ le_bytes 2 (unat c)) ! i"
    by cases (auto intro!: bit_word_eqI simp: nth_append nth_le_bytes_word bit_simps bit_beyond)
qed simp

lemma join_2_2_4:
  fixes a :: u32 and b c :: u16
  shows "le_bytes 8 (unat (push_bit 32 (ucast a) OR push_bit 16 (ucast b) OR ucast c :: u64))
     = le_bytes 2 (unat c) @ le_bytes 2 (unat b) @ le_bytes 4 (unat a)"
proof (rule le_bytes_word_eqI)
  fix i :: nat assume "i < 8"
  then consider "i = 0" | "i = 1" | "i = 2" | "i = 3" | "i = 4" | "i = 5" | "i = 6" | "i = 7" by linarith
  then show "ucast (drop_bit (8 * i) (push_bit 32 (ucast a) OR push_bit 16 (ucast b) OR ucast c :: u64))
     = (le_bytes 2 (unat c) @ le_bytes 2 (unat b) @ le_bytes 4 (unat a)) ! i"
    by cases (auto intro!: bit_word_eqI simp: nth_append nth_le_bytes_word bit_simps bit_beyond)
qed simp

lemma join_low_le:
  fixes a :: u16 and b :: u64
  shows "le_bytes 8 (unat (ucast a OR (b AND 0xffffffffffff0000)))
     = le_bytes 2 (unat a) @ drop 2 (le_bytes 8 (unat b))"
proof (rule le_bytes_word_eqI)
  fix i :: nat assume "i < 8"
  then consider "i = 0" | "i = 1" | "i = 2" | "i = 3" | "i = 4" | "i = 5" | "i = 6" | "i = 7" by linarith
  then show "ucast (drop_bit (8 * i) (ucast a OR (b AND 0xffffffffffff0000)))
     = (le_bytes 2 (unat a) @ drop 2 (le_bytes 8 (unat b))) ! i"
    unfolding byte_masks
    by cases (auto intro!: bit_word_eqI simp: nth_append nth_le_bytes_word bit_simps bit_beyond)
qed simp

lemma join_low_be:
  fixes a :: u16 and b :: u64
  assumes "unat b < 2 ^ 48"
  shows "le_bytes 8 (unat (push_bit 48 (ucast a) OR b)) = le_bytes 6 (unat b) @ le_bytes 2 (unat a)"
proof (rule le_bytes_word_eqI)
  have hi: "\<not> bit b n" if "48 \<le> n" for n
  proof
    assume "bit b n"
    then have "bit (unat b) n" by (simp add: bit_unsigned_iff)
    moreover have "unat b < 2 ^ n"
      using assms power_increasing [OF that, of "2 :: nat"] by linarith
    ultimately show False by (simp add: bit_iff_odd)
  qed
  fix i :: nat assume "i < 8"
  then consider "i = 0" | "i = 1" | "i = 2" | "i = 3" | "i = 4" | "i = 5" | "i = 6" | "i = 7" by linarith
  then show "ucast (drop_bit (8 * i) (push_bit 48 (ucast a) OR b)) = (le_bytes 6 (unat b) @ le_bytes 2 (unat a)) ! i"
    by cases (auto intro!: bit_word_eqI simp: nth_append nth_le_bytes_word bit_simps hi bit_beyond)
qed simp

lemma rev_le_bytes_word: 
  "rev (le_bytes 2 (unat a)) = le_bytes 2 (unat (reverseEndianess (a :: u16)))"
  "rev (le_bytes 4 (unat b)) = le_bytes 4 (unat (reverseEndianess (b :: u32)))"
  "rev (le_bytes 8 (unat c)) = le_bytes 8 (unat (reverseEndianess (c :: u64)))"
  using obj_bytes_reverse [of False a] obj_bytes_reverse [of False b] obj_bytes_reverse [of False c]
  by (simp_all add: obj_bytes_def)

lemma take_le_bytes: "take m (le_bytes k x) = le_bytes (min m k) x"
proof (induction k arbitrary: m x)
  case 0
  then show ?case by simp
next
  case (Suc k)
  then show ?case by (cases m) simp_all
qed

lemma uuid_bytes_of_parts:
  assumes "unat fifth < 2 ^ 48"
  shows "uuid_bytes be (uuid_of_parts be first second third fourth fifth)
     = uuid_wire first second third fourth fifth"
proof (cases be)
  case True
  then show ?thesis using assms
    by (simp add: uuid_bytes_def uuid_of_parts_def uuid_wire_def obj_bytes_def join_2_2_4 join_low_be)
next
  case False
  have "drop 2 (le_bytes 8 (unat (reverseEndianess fifth))) = rev (le_bytes 6 (unat fifth))"
    by (simp flip: rev_le_bytes_word add: drop_rev take_le_bytes)
  with False show ?thesis
    by (simp add: uuid_bytes_def uuid_of_parts_def uuid_wire_def obj_bytes_def join_4_2_2 join_low_le
       rev_le_bytes_word)
qed

lemma uuid_of_bytes_bytes: "uuid_of_bytes be (uuid_bytes be i) = i"
  by (cases i) (simp add: uuid_of_bytes_def uuid_bytes_def obj_value_bytes)

lemma length_uuid_bytes [simp]: "length (uuid_bytes be i) = 16"
  by (simp add: uuid_bytes_def)

lemma uuid_bytes_of_bytes: "length bs = 16 \<Longrightarrow> uuid_bytes be (uuid_of_bytes be bs) = bs"
  by (simp add: uuid_of_bytes_def uuid_bytes_def obj_bytes_value)

lemma uuid_eq_iff: "uuid_eq a b \<longleftrightarrow> a = b"
  by (cases a; cases b) (auto simp: uuid_eq_def)


lemma int_of_range:
  "int_of sg (w :: 'a::len word) \<le> (if sg then 2 ^ (LENGTH('a) - 1) - 1 else 2 ^ LENGTH('a) - 1)"
  "(if sg then - (2 ^ (LENGTH('a) - 1)) else 0) \<le> int_of sg (w :: 'a::len word)"
  using sint_ge [of w] sint_lt [of w] uint_ge_0 [of w] uint_bounded [of w] by (auto simp: int_of_def)

lemma fixed_width_limits:
  assumes "LENGTH('b::len) \<in> {8,16,32,64}"
  shows "fixed_width_max (LENGTH('b) div 8) sg = Some (if sg then 2 ^ (LENGTH('b) - 1) - 1 else 2 ^ LENGTH('b) - 1)"
   and "fixed_width_min (LENGTH('b) div 8) sg = Some (if sg then - (2 ^ (LENGTH('b) - 1)) else 0)"
  using assms by auto

lemma int_of_word_of_int:
  assumes "i \<le> (if sg then 2 ^ (LENGTH('a) - 1) - 1 else 2 ^ LENGTH('a) - 1)" 
     "(if sg then - (2 ^ (LENGTH('a) - 1)) else 0) \<le> i"
  shows "int_of sg (word_of_int i :: 'a::len word) = i"
  using assms 
  by (auto simp: int_of_def uint_word_of_int_eq sint_sbintrunc' signed_take_bit_int_eq_self
       take_bit_int_eq_self split: if_splits)

lemma word_of_int_int_of: "word_of_int (int_of sg w) = (w :: 'a::len word)"
  by (simp add: int_of_def)

lemma castToSmallerType_spec:
  fixes input :: "'a::len word" and out :: "'b::len word"
  assumes "LENGTH('b) \<in> {8,16,32,64}"
  shows "castToSmallerType sg input out =
    (if \<exists>y :: 'b word. int_of sg y = int_of sg input
     then (NoError, word_of_int (int_of sg input)) else (ErrorValueOverflow, out))"
  using int_of_range(1) [where 'a = 'b, of sg] int_of_range(2) [where 'a = 'b, of sg]
   int_of_word_of_int [where 'a = 'b, of "int_of sg input" sg]
  unfolding castToSmallerType_def fixed_width_limits [OF assms, of sg] option.sel
  by (metis (lifting) not_less)

text \<open>The order on UUIDs that a little-endian build compares with.\<close>

instantiation uuid :: linorder
begin

definition less_uuid :: "uuid \<Rightarrow> uuid \<Rightarrow> bool" where
  "less_uuid a b = uuid_less False a b"

definition less_eq_uuid :: "uuid \<Rightarrow> uuid \<Rightarrow> bool" where
  "less_eq_uuid a b = (a = b \<or> uuid_less False a b)"

instance
proof
  fix x y :: uuid
  show "x \<le> y \<or> y \<le> x"
    unfolding less_eq_uuid_def uuid_less_def by (metis linorder_neqE uuid.expand)
qed (auto simp: less_uuid_def less_eq_uuid_def uuid_less_def)

end

lemma castToSmallerType_bigger:
  fixes x :: "'a::len word"
  assumes "LENGTH('a) \<in> {8, 16, 32, 64}" and "LENGTH('a) \<le> LENGTH('b::len)"
  shows "castToSmallerType sg (castToBiggerType sg x :: 'b word) out = (NoError, x)"
proof -
  have p: "(2::int) ^ (LENGTH('a) - 1) \<le> 2 ^ (LENGTH('b) - 1)" "(2::int) ^ LENGTH('a) \<le> 2 ^ LENGTH('b)"
    using assms(2) by (simp_all add: power_increasing)
  have "int_of sg (castToBiggerType sg x :: 'b word) = int_of sg x"
    unfolding castToBiggerType_def
    using int_of_range [of sg x] p
    by (intro int_of_word_of_int; cases sg; simp only: if_True if_False; linarith)
  then show ?thesis
    by (auto simp: castToSmallerType_spec [OF assms(1)] word_of_int_int_of)
qed

section \<open>Claims\<close>

text \<open>
  \<open>reverseEndianess\<close> on a 2-, 4- or 8-octet object turns the object representation of
  one byte order into that of the other, octet for octet, so the shifts and masks of the
  three routines leave no octet out of place; applied twice it gives the value back.
\<close>
lemma reverseEndianess_changes_byte_order:
  "obj_bytes be (reverseEndianess (a :: u16)) = obj_bytes (\<not> be) a
   \<and> obj_bytes be (reverseEndianess (b :: u32)) = obj_bytes (\<not> be) b
   \<and> obj_bytes be (reverseEndianess (c :: u64)) = obj_bytes (\<not> be) c
   \<and> reverseEndianess (reverseEndianess a) = a
   \<and> reverseEndianess (reverseEndianess b) = b
   \<and> reverseEndianess (reverseEndianess c) = c"
  by (simp add: reverse_flips_platform reverse_involutive)

text \<open>
  The five-part \<open>Uuid\<close> constructor lays the parts out as the 16 octets of the textual
  UUID, most significant octet first, whichever byte order the platform has, as long as
  the last part fits its 48 bits.
\<close>
lemma uuid_parts_wire_order:
  assumes "unat fifth < 2 ^ 48"
  shows "uuid_bytes be (uuid_of_parts be first second third fourth fifth)
     = uuid_wire first second third fourth fifth"
  using assms by (rule uuid_bytes_of_parts)

lemma uuid_parts_wire_order_witness:
  "uuid_bytes True (uuid_of_parts True 0xbf8c27e8 0xfe6a 0x4492 0x91cb 0xe4cf411e1236)
   = uuid_bytes False (uuid_of_parts False 0xbf8c27e8 0xfe6a 0x4492 0x91cb 0xe4cf411e1236)"
proof -
  have "unat (0xe4cf411e1236 :: u64) < 2 ^ 48" by simp
  from uuid_parts_wire_order [OF this] show ?thesis by simp
qed

text \<open>
  The checked cast to a fixed-width integer gives \<open>NoError\<close> and the same number
  exactly when the target type has that number, and otherwise \<open>ErrorValueOverflow\<close> with
  the output untouched; it undoes the cast to a wider type.
\<close>
lemma castToSmallerType_exact:
  fixes input :: u64 and out :: u32 and x :: u32
  shows "castToSmallerType sg input out =
     (if \<exists>y :: u32. int_of sg y = int_of sg input
      then (NoError, word_of_int (int_of sg input)) else (ErrorValueOverflow, out))
   \<and> int_of sg (word_of_int (int_of sg x) :: u32) = int_of sg x
   \<and> castToSmallerType sg (castToBiggerType sg x :: u64) out = (NoError, x)"
proof (intro conjI)
  show "castToSmallerType sg input out =
     (if \<exists>y :: u32. int_of sg y = int_of sg input
      then (NoError, word_of_int (int_of sg input)) else (ErrorValueOverflow, out))"
    by (rule castToSmallerType_spec) simp
  show "int_of sg (word_of_int (int_of sg x) :: u32) = int_of sg x"
    by (simp add: word_of_int_int_of)
  show "castToSmallerType sg (castToBiggerType sg x :: u64) out = (NoError, x)"
    by (rule castToSmallerType_bigger) simp_all
qed

end
