(* ===== verification/Allocators.thy ===== *)
theory Allocators
  imports Helpers
begin

text \<open>
  \<open>memory_management\<close>, \<open>allocators\<close>: storage, the heap allocator over \<open>malloc\<close>, the two
  allocators that take storage from it, and the allocator that hands out a storage the
  user supplied. The environment \<open>env\<close> fixes the platform's byte order and which
  requests \<open>malloc\<close> satisfies; the user mode \<open>malloc\<close> is the standard library's.
\<close>

section \<open>Environment and storage\<close>

record env =
  big_endian :: bool
  malloc_ok :: "size_t \<Rightarrow> bool"

text \<open>The platform of the examples: little endian, with memory.\<close>

abbreviation sample_env :: env where
  "sample_env \<equiv> \<lparr>big_endian = False, malloc_ok = \<lambda>_. True\<rparr>"

text \<open>
  A cell of storage is raw memory or holds an object. A pointer to storage is null, or
  owns the cells of one block; a block that was accessed out of its bounds, or copied to
  with \<open>memcpy\<close> from a region that overlaps the target, is \<open>Corrupt\<close>: the C++ behaviour
  is undefined from there and no property speaks of what such a block holds.
\<close>

datatype 'a cell = Raw | Obj 'a

datatype 'a storage = is_Null: Null | Cells "'a cell list" | Corrupt

definition write_cells :: "'a storage \<Rightarrow> nat \<Rightarrow> 'a cell list \<Rightarrow> 'a storage" where
  "write_cells s off xs =
     (case s of
        Null \<Rightarrow> if xs = [] then Null else Corrupt
      | Cells cs \<Rightarrow>
          if xs = [] then Cells cs
          else if off + length xs \<le> length cs
          then Cells (take off cs @ xs @ drop (off + length xs) cs)
          else Corrupt
      | Corrupt \<Rightarrow> Corrupt)"

definition read_cells :: "'a storage \<Rightarrow> nat \<Rightarrow> nat \<Rightarrow> 'a cell list option" where
  "read_cells s off n =
     (case s of
        Null \<Rightarrow> if n = 0 then Some [] else None
      | Cells cs \<Rightarrow>
          if n = 0 then Some []
          else if off + n \<le> length cs then Some (take n (drop off cs)) else None
      | Corrupt \<Rightarrow> None)"

lemma write_cells_Nil [simp, block_simps]: "write_cells s off [] = s"
  by (simp add: write_cells_def split: storage.splits)

lemma write_cells_Cells [block_simps]:
  "off + length xs \<le> length cs \<Longrightarrow>
     write_cells (Cells cs) off xs = Cells (take off cs @ xs @ drop (off + length xs) cs)"
  by (simp add: write_cells_def)

lemma read_cells_0 [simp, block_simps]: "s \<noteq> Corrupt \<Longrightarrow> read_cells s off 0 = Some []"
  by (cases s) (simp_all add: read_cells_def)

lemma read_cells_Cells [block_simps]:
  "off + n \<le> length cs \<Longrightarrow> read_cells (Cells cs) off n = Some (take n (drop off cs))"
  by (simp add: read_cells_def)

section \<open>Allocators over the heap\<close>

text \<open>\<open>HeapAllocator::allocateImpl\<close> is \<open>malloc\<close>; the result says whether it gave storage.\<close>

definition heap_allocate :: "env \<Rightarrow> size_t \<Rightarrow> bool" where
  "heap_allocate E dataSizeInBytes = malloc_ok E dataSizeInBytes"

text \<open>
  What the containers need to know of the element type: its size, whether its allocator
  constructs objects (\<open>constructor_allocator\<close>), and what construction from a \<open>const\<close>
  reference and from an rvalue does: the status (\<open>init\<close> may fail), the object that is at
  the target afterwards and, for a move, the object left in the source.
\<close>

record 'a elem =
  e_sizeof :: nat
  e_ctor :: bool
  e_copy :: "'a \<Rightarrow> status \<times> 'a"
  e_move :: "'a \<Rightarrow> status \<times> 'a \<times> 'a"

definition raw_elem :: "nat \<Rightarrow> 'a elem" where
  "raw_elem sz = \<lparr>e_sizeof = sz, e_ctor = False, e_copy = (\<lambda>x. (NoError, x)),
     e_move = (\<lambda>x. (NoError, x, x))\<rparr>"

text \<open>
  \<open>RawNoexceptAllocator::allocateImpl\<close> and \<open>ConstructorNoexceptAllocator::allocateImpl\<close>:
  the product \<open>n * sizeof(_T)\<close> is a \<open>size_t\<close> and wraps around, so the block may have
  fewer cells than were asked for.
\<close>

definition noexcept_allocate :: "env \<Rightarrow> 'a elem \<Rightarrow> size_t \<Rightarrow> 'a storage" where
  "noexcept_allocate E ty n =
     (if heap_allocate E (n * of_nat (e_sizeof ty))
      then Cells (replicate (unat (n * of_nat (e_sizeof ty)) div e_sizeof ty) Raw)
      else Null)"

definition noexcept_max_size :: "'a elem \<Rightarrow> size_t" where
  "noexcept_max_size ty = (- 1) div of_nat (e_sizeof ty)"

text \<open>
  Construction at a cell. A raw allocator always constructs by the copy of the object; the
  constructor allocator by the copy or move constructor or, for types that prefer it, by
  default construction and \<open>init\<close>, which may fail and then leaves an object all the same.
  Copying a cell without an object gives a cell without one.
\<close>

definition construct_copy :: "'a elem \<Rightarrow> 'a cell \<Rightarrow> status \<times> 'a cell" where
  "construct_copy ty c =
     (case c of
        Raw \<Rightarrow> (NoError, Raw)
      | Obj x \<Rightarrow> if e_ctor ty then (fst (e_copy ty x), Obj (snd (e_copy ty x))) else (NoError, Obj x))"

definition construct_move :: "'a elem \<Rightarrow> 'a cell \<Rightarrow> status \<times> 'a cell \<times> 'a cell" where
  "construct_move ty c =
     (case c of
        Raw \<Rightarrow> (NoError, Raw, Raw)
      | Obj x \<Rightarrow>
          if e_ctor ty
          then (case e_move ty x of (st, y, x') \<Rightarrow> (st, Obj y, Obj x'))
          else (NoError, Obj x, Obj x))"

section \<open>The allocator over user supplied storage\<close>

text \<open>\<open>RawKeeperAllocator\<close>: addresses are numbers of octets, 0 is the null pointer.\<close>

record keeper =
  k_p :: nat
  k_memorySize :: size_t

definition keeper_allocate :: "keeper \<Rightarrow> size_t \<Rightarrow> nat" where
  "keeper_allocate k n = (if n \<le> k_memorySize k \<and> n \<noteq> 0 then k_p k else 0)"

definition keeper_construct :: "nat \<Rightarrow> keeper \<Rightarrow> nat \<Rightarrow> status" where
  "keeper_construct sz k p =
     (if p < k_p k
         \<or> p + sz > k_p k + unat (k_memorySize k) * sz
         \<or> (p - k_p k) mod sz \<noteq> 0
      then ErrorInvalidArgument else NoError)"

definition keeper_max_size :: "keeper \<Rightarrow> size_t" where
  "keeper_max_size k = k_memorySize k"

definition keeper_setStorage :: "keeper \<Rightarrow> nat \<Rightarrow> size_t \<Rightarrow> bool \<times> keeper" where
  "keeper_setStorage k p n =
     (if p \<noteq> 0 \<and> n = 0 \<or> p = 0 \<and> n \<noteq> 0 then (False, k\<lparr>k_p := 0, k_memorySize := 0\<rparr>)
      else (True, k\<lparr>k_p := p, k_memorySize := n\<rparr>))"

text \<open>Move assignment from a keeper of elements of size \<open>szR\<close>: (the target, the source).\<close>

definition keeper_move_assign :: "nat \<Rightarrow> nat \<Rightarrow> keeper \<Rightarrow> keeper \<Rightarrow> keeper \<times> keeper" where
  "keeper_move_assign sz szR k rhs =
     (k\<lparr>k_p := keeper_allocate rhs (keeper_max_size rhs),
        k_memorySize := keeper_max_size rhs * of_nat szR div of_nat sz\<rparr>,
      snd (keeper_setStorage rhs 0 0))"

section \<open>Properties\<close>

lemma noexcept_allocate_cells:
  assumes "0 < e_sizeof ty" and "unat n * e_sizeof ty < 2 ^ 64"
  shows "noexcept_allocate E ty n =
     (if malloc_ok E (n * of_nat (e_sizeof ty)) then Cells (replicate (unat n) Raw) else Null)"
proof -
  have "unat (n * of_nat (e_sizeof ty)) = unat n * e_sizeof ty" if "n \<noteq> 0"
  proof -
    have "1 \<le> unat n" using that by (simp add: Suc_le_eq unat_gt_0)
    then have "e_sizeof ty \<le> unat n * e_sizeof ty" by (metis mult_le_mono1 nat_mult_1)
    then have "e_sizeof ty < 2 ^ 64" using assms(2) by linarith
    then have "unat (of_nat (e_sizeof ty) :: size_t) = e_sizeof ty"
      by (intro unat_of_nat_small) simp
    then show ?thesis using assms(2) by (simp add: unat_word_ariths)
  qed
  then show ?thesis
    using assms(1) by (cases "n = 0") (simp_all add: noexcept_allocate_def heap_allocate_def)
qed

text \<open>A position the keeper constructs at is the address of one of its cells.\<close>

lemma keeper_construct_iff:
  assumes "0 < sz"
  shows "keeper_construct sz k p = NoError
     \<longleftrightarrow> (\<exists>i < unat (k_memorySize k). p = k_p k + i * sz)"
proof
  assume "keeper_construct sz k p = NoError"
  then have *: "k_p k \<le> p" "p + sz \<le> k_p k + unat (k_memorySize k) * sz" "(p - k_p k) mod sz = 0"
    by (auto simp: keeper_construct_def split: if_splits)
  then obtain i where i: "p - k_p k = sz * i" by (auto elim: dvdE simp: mod_eq_0_iff_dvd)
  with * have "sz * (i + 1) \<le> sz * unat (k_memorySize k)" by (simp add: algebra_simps)
  then have "i + 1 \<le> unat (k_memorySize k)" using assms mult_le_cancel1 by blast
  with i * show "\<exists>i < unat (k_memorySize k). p = k_p k + i * sz"
    by (intro exI [of _ i]) (simp add: mult.commute)
next
  assume "\<exists>i < unat (k_memorySize k). p = k_p k + i * sz"
  then obtain i where i: "i < unat (k_memorySize k)" "p = k_p k + i * sz" by blast
  then have "(i + 1) * sz \<le> unat (k_memorySize k) * sz" by (intro mult_le_mono1) simp
  with i show "keeper_construct sz k p = NoError"
    by (auto simp: keeper_construct_def algebra_simps)
qed

text \<open>
  \<open>RawKeeperAllocator::construct\<close> accepts exactly the addresses of the cells of the
  storage it was given: inside it, and a whole number of elements from its start.
\<close>
lemma keeper_accepts_its_cells:
  assumes "0 < sz"
  shows "keeper_construct sz k p
     = (if \<exists>i < unat (k_memorySize k). p = k_p k + i * sz then NoError else ErrorInvalidArgument)"
  using keeper_construct_iff [OF assms, of k p] by (auto simp: keeper_construct_def split: if_splits)

lemma keeper_accepts_its_cells_witness:
  "keeper_construct 8 \<lparr>k_p = 100, k_memorySize = 2\<rparr> 108 = NoError"
  using keeper_accepts_its_cells [of 8 "\<lparr>k_p = 100, k_memorySize = 2\<rparr>" 108]
  by (simp add: exI [of _ 1])

text \<open>
  A request whose size in octets does not fit \<open>size_t\<close> is not refused by the noexcept
  allocators: the product wraps around, so \<open>2 ^ 61 + 1\<close> elements of eight octets get a block of
  one element, although \<open>max_size\<close> says that fewer than \<open>2 ^ 61\<close> fit.
\<close>
lemma allocate_size_wraps:
  "noexcept_allocate (E\<lparr>malloc_ok := \<lambda>_. True\<rparr>) (raw_elem 8) (2 ^ 61 + 1) = Cells [Raw]
   \<and> noexcept_max_size (raw_elem 8 :: 'a elem) = 2 ^ 61 - 1"
  by (simp add: noexcept_allocate_def heap_allocate_def raw_elem_def noexcept_max_size_def)

end
