(* ===== verification/AllocationManagers.thy ===== *)
theory AllocationManagers
  imports Allocators
begin

text \<open>
  \<open>GenericAllocationManager.h\<close> and \<open>StrategicAllocationManager.h\<close>: how much storage is
  asked for, and construction, copying, moving and destruction of runs of elements with
  the clean-up on a failing element. A routine on one block takes the offsets its pointers
  have in the block. The CRTP forwarding of \<open>IAllocationManager\<close> is the function call.
\<close>

section \<open>Allocation\<close>

datatype strategy = StrictByDataSize | DoubleOfDataSize

datatype manager = GenericManager | StrategicManager strategy

definition allocateStrict :: "env \<Rightarrow> 'a elem \<Rightarrow> size_t \<Rightarrow> 'a storage" where
  "allocateStrict E ty n = noexcept_allocate E ty n"

definition generic_allocate :: "env \<Rightarrow> 'a elem \<Rightarrow> size_t \<Rightarrow> 'a storage \<times> size_t" where
  "generic_allocate E ty requestedN =
     (let p = noexcept_allocate E ty requestedN
      in (p, if \<not> is_Null p then requestedN else 0))"

definition strategic_allocate :: "env \<Rightarrow> 'a elem \<Rightarrow> strategy \<Rightarrow> size_t \<Rightarrow> 'a storage \<times> size_t" where
  "strategic_allocate E ty strat requestedN =
     (let doubled = push_bit 1 requestedN;
          p = (if strat = DoubleOfDataSize then allocateStrict E ty doubled else Null)
      in if \<not> is_Null p then (p, doubled)
         else (let q = allocateStrict E ty requestedN
               in (q, if \<not> is_Null q then requestedN else 0)))"

fun am_allocate :: "env \<Rightarrow> 'a elem \<Rightarrow> manager \<Rightarrow> size_t \<Rightarrow> 'a storage \<times> size_t" where
  "am_allocate E ty GenericManager n = generic_allocate E ty n"
| "am_allocate E ty (StrategicManager strat) n = strategic_allocate E ty strat n"

section \<open>Construction and destruction of runs\<close>

definition destroyN :: "'a elem \<Rightarrow> 'a storage \<Rightarrow> nat \<Rightarrow> nat \<Rightarrow> 'a storage" where
  "destroyN ty p off n =
     (if e_ctor ty \<and> \<not> is_Null p then write_cells p off (replicate n Raw) else p)"

text \<open>
  The constructing loop: each element's constructor leaves a status and a cell; at the
  first error the elements before the failing one are destroyed.
\<close>

fun construct_loop :: "'a elem \<Rightarrow> nat \<Rightarrow> 'a storage \<Rightarrow> nat \<Rightarrow> (status \<times> 'a cell) list \<Rightarrow> status \<times> 'a storage"
where
  "construct_loop ty pStart p off [] = (NoError, p)"
| "construct_loop ty pStart p off (r # rs) =
     (let p' = write_cells p off [snd r]
      in if statusSuccess (fst r) then construct_loop ty pStart p' (Suc off) rs
         else (fst r, destroyN ty p' pStart (off - pStart)))"

definition constructN :: "'a elem \<Rightarrow> 'a storage \<Rightarrow> nat \<Rightarrow> size_t \<Rightarrow> status \<times> 'a cell \<Rightarrow> status \<times> 'a storage" where
  "constructN ty p off n ctor =
     (if \<not> is_Null p then construct_loop ty off p off (replicate (unat n) ctor)
      else (ErrorInvalidArgument, p))"

definition allocateAndConstruct ::
    "env \<Rightarrow> 'a elem \<Rightarrow> manager \<Rightarrow> size_t \<Rightarrow> status \<times> 'a cell \<Rightarrow> 'a storage \<times> size_t" where
  "allocateAndConstruct E ty am requestedN ctor =
     (let (p, allocatedN) = am_allocate E ty am requestedN
      in if \<not> is_Null p
         then (let (st, p') = constructN ty p 0 allocatedN ctor
               in if \<not> statusSuccess st then (Null, 0) else (p', allocatedN))
         else (p, allocatedN))"

section \<open>Copies and moves between blocks\<close>

definition copyToRawNoOverlap :: "'a elem \<Rightarrow> 'a storage \<Rightarrow> nat \<Rightarrow> 'a cell list \<Rightarrow> status \<times> 'a storage" where
  "copyToRawNoOverlap ty pDest off src =
     (if e_ctor ty then construct_loop ty off pDest off (map (construct_copy ty) src)
      else (NoError, write_cells pDest off src))"

fun copy_dirty_loop :: "'a elem \<Rightarrow> nat \<Rightarrow> nat \<Rightarrow> 'a storage \<Rightarrow> nat \<Rightarrow> 'a cell list \<Rightarrow> status \<times> 'a storage"
where
  "copy_dirty_loop ty pStart dirtyFinish p off [] = (NoError, p)"
| "copy_dirty_loop ty pStart dirtyFinish p off (c # cs) =
     (let p1 = (if off < dirtyFinish then destroyN ty p off 1 else p);
          (st, c') = construct_copy ty c;
          p2 = write_cells p1 off [c']
      in if statusSuccess st then copy_dirty_loop ty pStart dirtyFinish p2 (Suc off) cs
         else (st, destroyN ty p2 pStart (off - pStart)))"

definition copyToDirtyNoOverlap ::
    "'a elem \<Rightarrow> 'a storage \<Rightarrow> nat \<Rightarrow> nat \<Rightarrow> 'a cell list \<Rightarrow> status \<times> 'a storage" where
  "copyToDirtyNoOverlap ty pDest off dirtyFinish src =
     (if e_ctor ty then copy_dirty_loop ty off dirtyFinish pDest off src
      else (NoError, write_cells pDest off src))"

text \<open>\<open>moveToRawNoOverlap\<close> into another block: (status, target, source).\<close>

fun move_loop :: "'a elem \<Rightarrow> nat \<Rightarrow> 'a storage \<Rightarrow> nat \<Rightarrow> 'a storage \<Rightarrow> nat \<Rightarrow> nat
    \<Rightarrow> status \<times> 'a storage \<times> 'a storage"
where
  "move_loop ty pStart pDest off pSrc soff 0 = (NoError, pDest, pSrc)"
| "move_loop ty pStart pDest off pSrc soff (Suc n) =
     (case read_cells pSrc soff 1 of
        Some [c] \<Rightarrow>
          (let (st, y, c') = construct_move ty c;
               pDest' = write_cells pDest off [y];
               pSrc' = write_cells pSrc soff [c']
           in if statusSuccess st
              then move_loop ty pStart pDest' (Suc off) pSrc' (Suc soff) n
              else (st, destroyN ty pDest' pStart (off - pStart), pSrc'))
      | _ \<Rightarrow> (NoError, Corrupt, Corrupt))"

definition moveToRawNoOverlap ::
    "'a elem \<Rightarrow> 'a storage \<Rightarrow> nat \<Rightarrow> 'a storage \<Rightarrow> nat \<Rightarrow> nat \<Rightarrow> status \<times> 'a storage \<times> 'a storage" where
  "moveToRawNoOverlap ty pDest off pSrc soff n =
     (if e_ctor ty then move_loop ty off pDest off pSrc soff n
      else (case read_cells pSrc soff n of
              Some cs \<Rightarrow> (NoError, write_cells pDest off cs, pSrc)
            | None \<Rightarrow> (NoError, Corrupt, pSrc)))"

section \<open>Copies and moves within a block\<close>

text \<open>
  One element: destroy the target if it is before the dirty end, construct it from the
  source. \<open>xfer\<close> is \<open>construct_move\<close>, or \<open>construct_copy\<close> with the source unchanged.
\<close>

definition copy_xfer :: "'a elem \<Rightarrow> 'a cell \<Rightarrow> status \<times> 'a cell \<times> 'a cell" where
  "copy_xfer ty c = (fst (construct_copy ty c), snd (construct_copy ty c), c)"

definition within_step ::
    "'a elem \<Rightarrow> ('a cell \<Rightarrow> status \<times> 'a cell \<times> 'a cell) \<Rightarrow> nat \<Rightarrow> 'a storage \<Rightarrow> nat \<Rightarrow> nat
     \<Rightarrow> status \<times> 'a storage" where
  "within_step ty xfer dirtyFinish p d s =
     (let p1 = (if d < dirtyFinish then destroyN ty p d 1 else p)
      in case read_cells p1 s 1 of
           Some [c] \<Rightarrow>
             (let (st, y, c') = xfer c in (st, write_cells (write_cells p1 s [c']) d [y]))
         | _ \<Rightarrow> (NoError, Corrupt))"

fun forward_loop ::
    "'a elem \<Rightarrow> ('a cell \<Rightarrow> status \<times> 'a cell \<times> 'a cell) \<Rightarrow> nat \<Rightarrow> nat \<Rightarrow> 'a storage \<Rightarrow> nat \<Rightarrow> nat \<Rightarrow> nat
     \<Rightarrow> status \<times> 'a storage"
where
  "forward_loop ty xfer dirtyFinish pStart p d s 0 = (NoError, p)"
| "forward_loop ty xfer dirtyFinish pStart p d s (Suc n) =
     (let (st, p') = within_step ty xfer dirtyFinish p d s
      in if statusSuccess st then forward_loop ty xfer dirtyFinish pStart p' (Suc d) (Suc s) n
         else (st, destroyN ty p' pStart (d - pStart)))"

fun backward_loop ::
    "'a elem \<Rightarrow> ('a cell \<Rightarrow> status \<times> 'a cell \<times> 'a cell) \<Rightarrow> nat \<Rightarrow> nat \<Rightarrow> 'a storage \<Rightarrow> nat \<Rightarrow> nat \<Rightarrow> nat
     \<Rightarrow> status \<times> 'a storage"
where
  "backward_loop ty xfer dirtyFinish lastElementOffset p d s 0 = (NoError, p)"
| "backward_loop ty xfer dirtyFinish lastElementOffset p d s (Suc i) =
     (let (st, p') = within_step ty xfer dirtyFinish p (d + i) (s + i)
      in if statusSuccess st then backward_loop ty xfer dirtyFinish lastElementOffset p' d s i
         else (st, destroyN ty p' (d + i + 1) (lastElementOffset - i)))"

definition memmove_within :: "'a storage \<Rightarrow> nat \<Rightarrow> nat \<Rightarrow> nat \<Rightarrow> 'a storage" where
  "memmove_within p d s n =
     (case read_cells p s n of Some cs \<Rightarrow> write_cells p d cs | None \<Rightarrow> Corrupt)"

definition memcpy_within :: "'a storage \<Rightarrow> nat \<Rightarrow> nat \<Rightarrow> nat \<Rightarrow> 'a storage" where
  "memcpy_within p d s n =
     (if areRegionsOverlap d s n then Corrupt else memmove_within p d s n)"

text \<open>\<open>moveToRawNoOverlap\<close> with both pointers into one block.\<close>

definition moveToRawNoOverlap_within :: "'a elem \<Rightarrow> 'a storage \<Rightarrow> nat \<Rightarrow> nat \<Rightarrow> nat \<Rightarrow> status \<times> 'a storage" where
  "moveToRawNoOverlap_within ty p d s n =
     (if e_ctor ty then forward_loop ty (construct_move ty) 0 d p d s n
      else (NoError, memcpy_within p d s n))"

definition toDirtyNoOverlap_within ::
    "'a elem \<Rightarrow> ('a cell \<Rightarrow> status \<times> 'a cell \<times> 'a cell) \<Rightarrow> 'a storage \<Rightarrow> nat \<Rightarrow> nat \<Rightarrow> nat \<Rightarrow> nat
     \<Rightarrow> status \<times> 'a storage" where
  "toDirtyNoOverlap_within ty xfer p d dirtyFinish s n =
     (if e_ctor ty then forward_loop ty xfer dirtyFinish d p d s n
      else (NoError, memcpy_within p d s n))"

definition toDirty_within ::
    "'a elem \<Rightarrow> ('a cell \<Rightarrow> status \<times> 'a cell \<times> 'a cell) \<Rightarrow> 'a storage \<Rightarrow> nat \<Rightarrow> nat \<Rightarrow> nat \<Rightarrow> nat
     \<Rightarrow> status \<times> 'a storage" where
  "toDirty_within ty xfer p d dirtyFinish s n =
     (if d = s then (NoError, p)
      else if areRegionsOverlap d s n
      then (if e_ctor ty
            then (if d < s then toDirtyNoOverlap_within ty xfer p d dirtyFinish s n
                  else backward_loop ty xfer dirtyFinish (n - 1) p d s n)
            else (NoError, memmove_within p d s n))
      else toDirtyNoOverlap_within ty xfer p d dirtyFinish s n)"

definition copyToDirty :: "'a elem \<Rightarrow> 'a storage \<Rightarrow> nat \<Rightarrow> nat \<Rightarrow> nat \<Rightarrow> nat \<Rightarrow> status \<times> 'a storage" where
  "copyToDirty ty p d dirtyFinish s n = toDirty_within ty (copy_xfer ty) p d dirtyFinish s n"

definition moveToDirty :: "'a elem \<Rightarrow> 'a storage \<Rightarrow> nat \<Rightarrow> nat \<Rightarrow> nat \<Rightarrow> nat \<Rightarrow> status \<times> 'a storage" where
  "moveToDirty ty p d dirtyFinish s n = toDirty_within ty (construct_move ty) p d dirtyFinish s n"

section \<open>Facts on cells and runs\<close>

lemma write_cell [block_simps]:
  "write_cells (Cells cs) i [c] = (if i < length cs then Cells (cs[i := c]) else Corrupt)"
  by (simp add: write_cells_def upd_conv_take_nth_drop)

lemma read_cell [block_simps]:
  "read_cells (Cells cs) i 1 = (if i < length cs then Some [cs ! i] else None)"
  "read_cells (Cells cs) i (Suc 0) = (if i < length cs then Some [cs ! i] else None)"
  by (auto simp: read_cells_def take_Suc hd_drop_conv_nth)

lemma destroy_cell [block_simps]:
  "i < length cs \<Longrightarrow> destroyN ty (Cells cs) i 1 = Cells (if e_ctor ty then cs[i := Raw] else cs)"
  "i < length cs \<Longrightarrow> destroyN ty (Cells cs) i (Suc 0) = Cells (if e_ctor ty then cs[i := Raw] else cs)"
  by (simp_all add: destroyN_def write_cell)

lemma write_cells_nth:
  assumes "off + length xs \<le> length cs"
  shows "\<exists>ds. write_cells (Cells cs) off xs = Cells ds \<and> length ds = length cs \<and>
     (\<forall>j < length cs. ds ! j = (if off \<le> j \<and> j < off + length xs then xs ! (j - off) else cs ! j))"
  using assms
  by (intro exI [of _ "take off cs @ xs @ drop (off + length xs) cs"])
     (auto simp: write_cells_Cells nth_append min_def)

lemma construct_loop_success:
  "\<lbrakk>\<forall>r \<in> set rs. statusSuccess (fst r); off + length rs \<le> length cs\<rbrakk> \<Longrightarrow>
     construct_loop ty pStart (Cells cs) off rs = (NoError, write_cells (Cells cs) off (map snd rs))"
proof (induction rs arbitrary: cs off)
  case Nil
  then show ?case by simp
next
  case (Cons r rs)
  have "take (Suc off) (cs[off := snd r]) = take off cs @ [snd r]"
    using Cons.prems(2) by (simp add: take_Suc_conv_app_nth)
  moreover have "drop (Suc off + length rs) (cs[off := snd r]) = drop (Suc off + length rs) cs"
    by simp
  ultimately show ?case
    using Cons by (simp add: block_simps)
qed

text \<open>
  Moving a run forwards, to before it or to a place disjoint from it, and backwards, to
  behind it: the run arrives, and cells outside both runs keep their content.
\<close>

definition moved :: "'a cell list \<Rightarrow> nat \<Rightarrow> nat \<Rightarrow> nat \<Rightarrow> (nat \<Rightarrow> 'a) \<Rightarrow> 'a cell list \<Rightarrow> bool" where
  "moved cs d s n f cs' \<longleftrightarrow> length cs' = length cs \<and> (\<forall>i < n. cs' ! (d + i) = Obj (f i))
     \<and> (\<forall>j < length cs. \<not> (d \<le> j \<and> j < d + n) \<and> \<not> (s \<le> j \<and> j < s + n) \<longrightarrow> cs' ! j = cs ! j)"

section \<open>Element types whose construction does not fail\<close>

text \<open>
  The contract of the element types that a container handles without element errors. To be
  kept in one at all: the size is not zero, and moving gives the object and leaves some
  object in the source. A class may have no copy constructor, as the keepers of pointers.
\<close>

locale movable_type =
  fixes ty :: "'a elem"
  assumes size_pos: "0 < e_sizeof ty"
    and move_total: "e_ctor ty \<Longrightarrow> \<exists>x'. e_move ty x = (NoError, x, x')"
begin

lemma construct_move_Obj: "\<exists>x'. construct_move ty (Obj x) = (NoError, Obj x, Obj x')"
  using move_total [of x] by (auto simp: construct_move_def)

lemma move_loop_Obj:
  "\<lbrakk>soff + n \<le> length ss; off + n \<le> length ds; \<And>i. i < n \<Longrightarrow> ss ! (soff + i) = Obj (f i)\<rbrakk> \<Longrightarrow>
   \<exists>ds' ss'. move_loop ty st (Cells ds) off (Cells ss) soff n = (NoError, Cells ds', Cells ss')
     \<and> length ds' = length ds \<and> length ss' = length ss
     \<and> (\<forall>j < length ds. ds' ! j = (if off \<le> j \<and> j < off + n then Obj (f (j - off)) else ds ! j))
     \<and> (\<forall>j < length ss. j < soff \<or> soff + n \<le> j \<longrightarrow> ss' ! j = ss ! j)"
proof (induction n arbitrary: ds ss off soff f)
  case 0
  have "\<not> (off \<le> j \<and> j < off + 0)" for j by simp
  then show ?case by auto
next
  case (Suc n)
  have c: "ss ! soff = Obj (f 0)" using Suc.prems(3) [of 0] by simp
  obtain x' where x': "construct_move ty (Obj (f 0)) = (NoError, Obj (f 0), Obj x')"
    using construct_move_Obj by blast
  let ?ds = "ds[off := Obj (f 0)]" and ?ss = "ss[soff := Obj x']"
  have "\<exists>ds' ss'. move_loop ty st (Cells ?ds) (Suc off) (Cells ?ss) (Suc soff) n = (NoError, Cells ds', Cells ss')
     \<and> length ds' = length ?ds \<and> length ss' = length ?ss
     \<and> (\<forall>j < length ?ds. ds' ! j = (if Suc off \<le> j \<and> j < Suc off + n then Obj (f (Suc (j - Suc off))) else ?ds ! j))
     \<and> (\<forall>j < length ?ss. j < Suc soff \<or> Suc soff + n \<le> j \<longrightarrow> ss' ! j = ?ss ! j)"
    using Suc.prems(1,2) Suc.prems(3) [of "Suc _"] by (intro Suc.IH) (simp_all add: nth_list_update)
  then obtain ds' ss' where *: "move_loop ty st (Cells ?ds) (Suc off) (Cells ?ss) (Suc soff) n = (NoError, Cells ds', Cells ss')"
     "length ds' = length ds" "length ss' = length ss"
     "\<And>j. j < length ds \<Longrightarrow> ds' ! j = (if Suc off \<le> j \<and> j < Suc off + n then Obj (f (Suc (j - Suc off))) else ?ds ! j)"
     "\<And>j. j < length ss \<Longrightarrow> j < Suc soff \<or> Suc soff + n \<le> j \<Longrightarrow> ss' ! j = ?ss ! j"
    unfolding length_list_update by blast
  have step: "move_loop ty st (Cells ds) off (Cells ss) soff (Suc n) = (NoError, Cells ds', Cells ss')"
    using Suc.prems(1,2) c x' *(1) by (simp add: block_simps)
  have d: "ds' ! j = (if off \<le> j \<and> j < off + Suc n then Obj (f (j - off)) else ds ! j)" if "j < length ds" for j
  proof (cases "j = off")
    case True
    then show ?thesis using *(4) [OF that] that by simp
  next
    case False
    then show ?thesis using *(4) [OF that] by (auto simp: Suc_diff_Suc)
  qed
  have s: "ss' ! j = ss ! j" if "j < length ss" "j < soff \<or> soff + Suc n \<le> j" for j
    using *(5) [OF that(1)] that by auto
  from step d s *(2,3) show ?case by blast
qed

lemma forward_loop_Obj:
  "\<lbrakk>d < s \<or> s + n \<le> d; s + n \<le> length cs; d + n \<le> length cs; \<And>i. i < n \<Longrightarrow> cs ! (s + i) = Obj (f i)\<rbrakk> \<Longrightarrow>
   \<exists>cs'. forward_loop ty (construct_move ty) dirty st (Cells cs) d s n = (NoError, Cells cs')
     \<and> moved cs d s n f cs'"
proof (induction n arbitrary: cs d s f)
  case 0
  then show ?case by (simp add: moved_def)
next
  case (Suc n)
  have c: "cs ! s = Obj (f 0)" using Suc.prems(4) [of 0] by simp
  obtain x' where x': "construct_move ty (Obj (f 0)) = (NoError, Obj (f 0), Obj x')"
    using construct_move_Obj by blast
  let ?cs = "cs[s := Obj x', d := Obj (f 0)]"
  have ne: "d \<noteq> s" using Suc.prems(1) by auto
  have step: "within_step ty (construct_move ty) dirty (Cells cs) d s = (NoError, Cells ?cs)"
    using Suc.prems(1-3) c x' ne
    by (auto simp: within_step_def block_simps list_update_swap)
  have "\<exists>cs'. forward_loop ty (construct_move ty) dirty st (Cells ?cs) (Suc d) (Suc s) n = (NoError, Cells cs')
     \<and> moved ?cs (Suc d) (Suc s) n (\<lambda>i. f (Suc i)) cs'"
    using Suc.prems(1-3) Suc.prems(4) [of "Suc _"] by (intro Suc.IH) (auto simp: nth_list_update)
  then obtain cs' where run: "forward_loop ty (construct_move ty) dirty st (Cells ?cs) (Suc d) (Suc s) n = (NoError, Cells cs')"
    and m: "moved ?cs (Suc d) (Suc s) n (\<lambda>i. f (Suc i)) cs'"
    by blast
  have "cs' ! (d + i) = Obj (f i)" if "i < Suc n" for i
    using that m Suc.prems(1-3) by (cases i) (auto simp: moved_def)
  then have "moved cs d s (Suc n) f cs'"
    using m Suc.prems(1-3) by (auto simp: moved_def nth_list_update)
  moreover have "forward_loop ty (construct_move ty) dirty st (Cells cs) d s (Suc n) = (NoError, Cells cs')"
    using step run by simp
  ultimately show ?case by blast
qed

lemma backward_loop_Obj:
  "\<lbrakk>s < d; d + n \<le> length cs; \<And>i. i < n \<Longrightarrow> cs ! (s + i) = Obj (f i)\<rbrakk> \<Longrightarrow>
   \<exists>cs'. backward_loop ty (construct_move ty) dirty lst (Cells cs) d s n = (NoError, Cells cs')
     \<and> moved cs d s n f cs'"
proof (induction n arbitrary: cs)
  case 0
  then show ?case by (simp add: moved_def)
next
  case (Suc n)
  have c: "cs ! (s + n) = Obj (f n)" using Suc.prems(3) [of n] by simp
  obtain x' where x': "construct_move ty (Obj (f n)) = (NoError, Obj (f n), Obj x')"
    using construct_move_Obj by blast
  let ?cs = "cs[s + n := Obj x', d + n := Obj (f n)]"
  have step: "within_step ty (construct_move ty) dirty (Cells cs) (d + n) (s + n) = (NoError, Cells ?cs)"
    using Suc.prems(1,2) c x'
    by (auto simp: within_step_def block_simps list_update_swap)
  have "\<exists>cs'. backward_loop ty (construct_move ty) dirty lst (Cells ?cs) d s n = (NoError, Cells cs')
     \<and> moved ?cs d s n f cs'"
    using Suc.prems by (intro Suc.IH) (simp_all add: nth_list_update)
  then obtain cs' where run: "backward_loop ty (construct_move ty) dirty lst (Cells ?cs) d s n = (NoError, Cells cs')"
    and m: "moved ?cs d s n f cs'"
    by blast
  have "cs' ! (d + i) = Obj (f i)" if "i < Suc n" for i
    using that m Suc.prems(1,2) by (cases "i = n") (auto simp: moved_def)
  then have "moved cs d s (Suc n) f cs'"
    using m Suc.prems(1,2) by (auto simp: moved_def nth_list_update)
  moreover have "backward_loop ty (construct_move ty) dirty lst (Cells cs) d s (Suc n) = (NoError, Cells cs')"
    using step run by simp
  ultimately show ?case by blast
qed

lemma memmove_moved:
  assumes "s + n \<le> length cs" "d + n \<le> length cs" "\<And>i. i < n \<Longrightarrow> cs ! (s + i) = Obj (f i)"
  shows "\<exists>cs'. memmove_within (Cells cs) d s n = Cells cs' \<and> moved cs d s n f cs'"
proof -
  have len: "length (take n (drop s cs)) = n" using assms(1) by simp
  obtain ds where "write_cells (Cells cs) d (take n (drop s cs)) = Cells ds" "length ds = length cs"
    "\<forall>j < length cs. ds ! j = (if d \<le> j \<and> j < d + n then take n (drop s cs) ! (j - d) else cs ! j)"
    using write_cells_nth [of d "take n (drop s cs)" cs] assms(1,2) len by auto
  with assms show ?thesis
    by (intro exI [of _ ds]) (auto simp: memmove_within_def read_cells_Cells moved_def)
qed

lemma moveToDirty_Obj:
  assumes "s < d" "d + n \<le> length cs" "\<And>i. i < n \<Longrightarrow> cs ! (s + i) = Obj (f i)"
  shows "\<exists>cs'. moveToDirty ty (Cells cs) d dirty s n = (NoError, Cells cs') \<and> moved cs d s n f cs'"
proof -
  have mm: "\<exists>cs'. memmove_within (Cells cs) d s n = Cells cs' \<and> moved cs d s n f cs'"
    using assms by (intro memmove_moved) simp_all
  show ?thesis
  proof (cases "areRegionsOverlap d s n")
    case True
    then show ?thesis
      using assms mm backward_loop_Obj [OF assms, of dirty "n - 1"]
      by (auto simp: moveToDirty_def toDirty_within_def)
  next
    case False
    then have "n = 0 \<or> s + n \<le> d" using assms(1) by (auto simp: areRegionsOverlap_iff)
    then have "\<exists>cs'. forward_loop ty (construct_move ty) dirty d (Cells cs) d s n = (NoError, Cells cs')
        \<and> moved cs d s n f cs'"
      using assms forward_loop_Obj [of d s n cs f dirty d] by (cases "n = 0") (auto simp: moved_def)
    then show ?thesis
      using assms mm False
      by (auto simp: moveToDirty_def toDirty_within_def toDirtyNoOverlap_within_def memcpy_within_def)
  qed
qed

lemma moveToRaw_Obj:
  assumes "length xs = n" "take n (drop soff ss) = map Obj xs" "off + n \<le> length ds"
  shows "\<exists>ss'. moveToRawNoOverlap ty (Cells ds) off (Cells ss) soff n
     = (NoError, write_cells (Cells ds) off (map Obj xs), Cells ss')
     \<and> length ss' = length ss
     \<and> (\<forall>j < length ss. j < soff \<or> soff + n \<le> j \<longrightarrow> ss' ! j = ss ! j)"
proof -
  have n: "n = 0 \<or> soff + n \<le> length ss"
    using arg_cong [OF assms(2), of length] assms(1) by simp arith
  show ?thesis
  proof (cases "e_ctor ty \<and> n \<noteq> 0")
    case False
    then show ?thesis using assms n by (auto simp: moveToRawNoOverlap_def read_cells_def)
  next
    case True
    have nth: "ss ! (soff + i) = Obj (xs ! i)" if "i < n" for i
      using arg_cong [OF assms(2), of "\<lambda>l. l ! i"] that assms(1) n True by simp
    obtain ds' ss' where "move_loop ty off (Cells ds) off (Cells ss) soff n = (NoError, Cells ds', Cells ss')"
      and l: "length ds' = length ds"
      and l': "length ss' = length ss"
      and f: "\<forall>j < length ss. j < soff \<or> soff + n \<le> j \<longrightarrow> ss' ! j = ss ! j"
      and e: "\<forall>j < length ds. ds' ! j = (if off \<le> j \<and> j < off + n then Obj (xs ! (j - off)) else ds ! j)"
      using move_loop_Obj [of soff n ss off ds "\<lambda>i. xs ! i" off] n True assms(3) nth by blast
    moreover have "write_cells (Cells ds) off (map Obj xs) = Cells ds'"
    proof -
      obtain es where "write_cells (Cells ds) off (map Obj xs) = Cells es" "length es = length ds"
        "\<forall>j < length ds. es ! j = (if off \<le> j \<and> j < off + n then map Obj xs ! (j - off) else ds ! j)"
        using write_cells_nth [of off "map Obj xs" ds] assms by auto
      moreover from this have "es = ds'"
        using l e assms(1) by (intro nth_equalityI) auto
      ultimately show ?thesis by simp
    qed
    ultimately show ?thesis using True l' f by (simp add: moveToRawNoOverlap_def)
  qed
qed

end

text \<open>
  Most types are also copied, and copying gives the object. Raw storage satisfies it, and so
  do classes with plain copy and move constructors.
\<close>

locale element_type = movable_type +
  assumes copy_total: "e_ctor ty \<Longrightarrow> e_copy ty x = (NoError, x)"
begin

lemma construct_copy_Obj: "construct_copy ty (Obj x) = (NoError, Obj x)"
  by (simp add: construct_copy_def copy_total)

lemma copyToRaw_Obj:
  assumes "off + length xs \<le> length cs"
  shows "copyToRawNoOverlap ty (Cells cs) off (map Obj xs)
     = (NoError, write_cells (Cells cs) off (map Obj xs))"
proof -
  have "map (construct_copy ty) (map Obj xs) = map (\<lambda>x. (NoError, Obj x)) xs"
    by (simp add: construct_copy_Obj)
  moreover have "construct_loop ty off (Cells cs) off (map (\<lambda>x. (NoError, Obj x)) xs)
      = (NoError, write_cells (Cells cs) off (map Obj xs))"
    using assms by (subst construct_loop_success) (simp_all add: comp_def)
  ultimately show ?thesis
    by (simp only: copyToRawNoOverlap_def if_cancel)
qed

end

text \<open>Raw element types, and classes with constructors that leave \<open>rest x\<close> in a moved-from \<open>x\<close>.\<close>

definition ctor_elem :: "nat \<Rightarrow> ('a \<Rightarrow> 'a) \<Rightarrow> 'a elem" where
  "ctor_elem sz rest = \<lparr>e_sizeof = sz, e_ctor = True, e_copy = (\<lambda>x. (NoError, x)),
     e_move = (\<lambda>x. (NoError, x, rest x))\<rparr>"

interpretation raw: element_type "raw_elem (Suc k)" for k
  by unfold_locales (simp_all add: raw_elem_def)

interpretation cls: element_type "ctor_elem (Suc k) rest" for k rest
  by unfold_locales (simp_all add: ctor_elem_def)

lemma ordinary_element: "ty \<in> {raw_elem (Suc k), ctor_elem (Suc k) rest} \<Longrightarrow> element_type ty"
  using raw.element_type_axioms cls.element_type_axioms by blast

lemma ordinary_movable: "ty \<in> {raw_elem (Suc k), ctor_elem (Suc k) rest} \<Longrightarrow> movable_type ty"
  using raw.movable_type_axioms cls.movable_type_axioms by blast

section \<open>A failing element\<close>

text \<open>
  When the constructor of an element fails, the elements constructed before it are
  destroyed and the failing one is left as its constructor left it.
\<close>

lemma construct_loop_failure:
  "\<lbrakk>\<forall>r \<in> set rs. statusSuccess (fst r); \<not> statusSuccess (fst r); e_ctor ty;
     pStart \<le> off; off + length rs < length cs\<rbrakk> \<Longrightarrow>
   construct_loop ty pStart (Cells cs) off (rs @ r # rest)
     = (fst r, Cells (take pStart cs @ replicate (off + length rs - pStart) Raw
                      @ [snd r] @ drop (off + length rs + 1) cs))"
proof (induction rs arbitrary: cs off)
  case Nil
  then have "off < length cs" "pStart + (off - pStart) = off" by simp_all
  moreover have "drop off (cs[off := snd r]) = snd r # drop (Suc off) cs"
    using Nil by (simp add: drop_update_swap Cons_nth_drop_Suc [symmetric])
  ultimately show ?case
    using Nil by (auto simp: write_cell destroyN_def write_cells_def)
next
  case (Cons q rs)
  have "construct_loop ty pStart (Cells (cs[off := snd q])) (Suc off) (rs @ r # rest)
      = (fst r, Cells (take pStart (cs[off := snd q]) @ replicate (Suc off + length rs - pStart) Raw
                      @ [snd r] @ drop (Suc off + length rs + 1) (cs[off := snd q])))"
    using Cons.prems by (intro Cons.IH) simp_all
  then show ?case using Cons.prems by (simp add: write_cell)
qed

text \<open>
  C26: when copying a run of elements to raw storage fails at one of them, the status of that
  element is returned, every element copied before it is destroyed, the storage in front of
  the run and behind the failing element is untouched, and the failing element is left as its
  constructor left it.
\<close>
theorem failing_copy_cleans_up:
  assumes "e_ctor ty" "\<forall>c \<in> set cs1. statusSuccess (fst (construct_copy ty c))"
    and "\<not> statusSuccess (fst (construct_copy ty c))" "off + length cs1 < length ds"
  shows "copyToRawNoOverlap ty (Cells ds) off (cs1 @ c # cs2)
     = (fst (construct_copy ty c),
        Cells (take off ds @ replicate (length cs1) Raw @ [snd (construct_copy ty c)]
               @ drop (off + length cs1 + 1) ds))"
  using construct_loop_failure [of "map (construct_copy ty) cs1" "construct_copy ty c" ty off off ds
      "map (construct_copy ty) cs2"] assms
  by (simp add: copyToRawNoOverlap_def)

definition picky_elem :: "nat elem" where
  "picky_elem = \<lparr>e_sizeof = 8, e_ctor = True,
     e_copy = (\<lambda>x. if x = 0 then (ErrorNoMemory, 0) else (NoError, x)), e_move = (\<lambda>x. (NoError, x, x))\<rparr>"

theorem failing_copy_cleans_up_witness:
  "copyToRawNoOverlap picky_elem (Cells [Obj 9, Raw, Raw, Raw]) 1 [Obj 5, Obj 0, Obj 6]
     = (ErrorNoMemory, Cells [Obj 9, Raw, Obj 0, Raw])"
  using failing_copy_cleans_up [of picky_elem "[Obj 5]" "Obj 0" 1 "[Obj 9, Raw, Raw, Raw]" "[Obj 6]"]
  by (simp add: picky_elem_def construct_copy_def)

end
