(* ===== verification/Vector.thy ===== *)
theory Vector
  imports AllocationManagers
begin

text \<open>
  \<open>containers/Vector.h\<close>: the vector over an allocation manager. An iterator is the
  element offset of its pointer in the storage of its vector; a pointer argument
  \<open>const _T* p\<close> to an array is the list of its elements, or \<open>None\<close> for a null pointer;
  the arguments do not point into the vector itself.
\<close>

section \<open>Iterators\<close>

record vec_iterator = it_p :: int

definition it_eq :: "vec_iterator \<Rightarrow> vec_iterator \<Rightarrow> bool" where
  "it_eq it rhs = (it_p it = it_p rhs)"

definition it_ne :: "vec_iterator \<Rightarrow> vec_iterator \<Rightarrow> bool" where
  "it_ne it rhs = (\<not> it_eq it rhs)"

definition it_lt :: "vec_iterator \<Rightarrow> vec_iterator \<Rightarrow> bool" where
  "it_lt it rhs = (it_p rhs > it_p it)"

definition it_ge :: "vec_iterator \<Rightarrow> vec_iterator \<Rightarrow> bool" where
  "it_ge it rhs = (\<not> it_lt it rhs)"

definition it_gt :: "vec_iterator \<Rightarrow> vec_iterator \<Rightarrow> bool" where
  "it_gt it rhs = (it_p rhs < it_p it)"

definition it_le :: "vec_iterator \<Rightarrow> vec_iterator \<Rightarrow> bool" where
  "it_le it rhs = (\<not> it_gt it rhs)"

text \<open>The increments and decrements: (the iterator returned, the iterator afterwards).\<close>

definition it_inc :: "vec_iterator \<Rightarrow> vec_iterator \<times> vec_iterator" where
  "it_inc it = (let it' = it\<lparr>it_p := it_p it + 1\<rparr> in (it', it'))"

definition it_post_inc :: "vec_iterator \<Rightarrow> vec_iterator \<times> vec_iterator" where
  "it_post_inc it = (it, it\<lparr>it_p := it_p it + 1\<rparr>)"

definition it_dec :: "vec_iterator \<Rightarrow> vec_iterator \<times> vec_iterator" where
  "it_dec it = (let it' = it\<lparr>it_p := it_p it - 1\<rparr> in (it', it'))"

definition it_post_dec :: "vec_iterator \<Rightarrow> vec_iterator \<times> vec_iterator" where
  "it_post_dec it = (it, it\<lparr>it_p := it_p it - 1\<rparr>)"

definition it_advance :: "vec_iterator \<Rightarrow> int \<Rightarrow> vec_iterator" where
  "it_advance it n = it\<lparr>it_p := it_p it + n\<rparr>"

definition it_retreat :: "vec_iterator \<Rightarrow> int \<Rightarrow> vec_iterator" where
  "it_retreat it n = it\<lparr>it_p := it_p it - n\<rparr>"

definition it_distance :: "vec_iterator \<Rightarrow> vec_iterator \<Rightarrow> int" where
  "it_distance it it2 = it_p it - it_p it2"

section \<open>The vector\<close>

record 'a vec =
  m_p :: "'a storage"
  m_dataSize :: size_t
  m_allocatedSize :: size_t
  m_AllocationManager :: manager

definition empty_vec :: "manager \<Rightarrow> 'a vec" where
  "empty_vec am = \<lparr>m_p = Null, m_dataSize = 0, m_allocatedSize = 0, m_AllocationManager = am\<rparr>"

text \<open>The first \<open>n\<close> elements that a pointer argument gives, and a copy from a block.\<close>

definition array_cells :: "'a list option \<Rightarrow> size_t \<Rightarrow> 'a cell list option" where
  "array_cells p n =
     (if n = 0 then Some []
      else case p of
        None \<Rightarrow> None
      | Some xs \<Rightarrow> if unat n \<le> length xs then Some (map Obj (take (unat n) xs)) else None)"

definition copyToRaw_from :: "'a elem \<Rightarrow> 'a storage \<Rightarrow> nat \<Rightarrow> 'a cell list option \<Rightarrow> status \<times> 'a storage" where
  "copyToRaw_from ty pDest off src =
     (case src of Some cs \<Rightarrow> copyToRawNoOverlap ty pDest off cs | None \<Rightarrow> (NoError, Corrupt))"

definition vec_clear :: "'a elem \<Rightarrow> 'a vec \<Rightarrow> 'a vec" where
  "vec_clear ty v = v\<lparr>m_p := destroyN ty (m_p v) 0 (unat (m_dataSize v)), m_dataSize := 0\<rparr>"

definition vec_invalidate :: "'a elem \<Rightarrow> 'a vec \<Rightarrow> 'a vec" where
  "vec_invalidate ty v = (vec_clear ty v)\<lparr>m_p := Null, m_allocatedSize := 0\<rparr>"

definition vec_release :: "'a vec \<Rightarrow> 'a storage \<times> 'a vec" where
  "vec_release v = (m_p v, v\<lparr>m_p := Null, m_dataSize := 0, m_allocatedSize := 0\<rparr>)"

text \<open>\<open>same\<close> says that the argument is the vector itself.\<close>

definition vec_init_copy :: "env \<Rightarrow> 'a elem \<Rightarrow> bool \<Rightarrow> 'a vec \<Rightarrow> 'a vec \<Rightarrow> status \<times> 'a vec" where
  "vec_init_copy E ty same v rhs =
     (if \<not> same then
        (let v1 = (vec_clear ty v)\<lparr>m_AllocationManager := m_AllocationManager rhs\<rparr>;
             v2 = (if m_dataSize rhs > m_allocatedSize v1
                   then (let (p, n) = am_allocate E ty (m_AllocationManager v1) (m_dataSize rhs)
                         in v1\<lparr>m_dataSize := 0, m_allocatedSize := n, m_p := p\<rparr>)
                   else v1)
         in if m_dataSize rhs > m_allocatedSize v1 \<and> is_Null (m_p v2) then (ErrorNoMemory, v2)
            else (let (st, p) = copyToRaw_from ty (m_p v2) 0 (read_cells (m_p rhs) 0 (unat (m_dataSize rhs)))
                  in if statusSuccess st then (NoError, v2\<lparr>m_p := p, m_dataSize := m_dataSize rhs\<rparr>)
                     else (st, v2\<lparr>m_p := p\<rparr>)))
      else (NoError, v))"

definition vec_init_move :: "'a elem \<Rightarrow> bool \<Rightarrow> 'a vec \<Rightarrow> 'a vec \<Rightarrow> status \<times> 'a vec \<times> 'a vec" where
  "vec_init_move ty same v rhs =
     (if \<not> same then
        (let v1 = v\<lparr>m_dataSize := m_dataSize rhs, m_allocatedSize := m_allocatedSize rhs,
                    m_AllocationManager := m_AllocationManager rhs\<rparr>;
             (p, rhs') = vec_release rhs
         in (NoError, v1\<lparr>m_p := p\<rparr>, rhs'))
      else (NoError, v, rhs))"

section \<open>Room for elements\<close>

definition vec_reserveInternal :: "env \<Rightarrow> 'a elem \<Rightarrow> 'a vec \<Rightarrow> size_t \<Rightarrow> bool \<Rightarrow> status \<times> 'a vec" where
  "vec_reserveInternal E ty v n strict =
     (if n > m_allocatedSize v then
        (let (pNewMp, n') = (if strict then (allocateStrict E ty n, n)
                             else am_allocate E ty (m_AllocationManager v) n)
         in if \<not> is_Null pNewMp then
              (let v1 = v\<lparr>m_allocatedSize := n'\<rparr>;
                   (st, pNew', pOld') =
                     moveToRawNoOverlap ty pNewMp 0 (m_p v1) 0 (unat (m_dataSize v1))
               in if \<not> statusSuccess st then (st, v1\<lparr>m_p := pOld', m_dataSize := 0\<rparr>)
                  else (NoError, v1\<lparr>m_p := pNew'\<rparr>))
            else (ErrorNoMemory, v))
      else (NoError, v))"

definition vec_reserve :: "env \<Rightarrow> 'a elem \<Rightarrow> 'a vec \<Rightarrow> size_t \<Rightarrow> status \<times> 'a vec" where
  "vec_reserve E ty v n = vec_reserveInternal E ty v n True"

definition vec_addSpaceIfNeed :: "env \<Rightarrow> 'a elem \<Rightarrow> 'a vec \<Rightarrow> size_t \<Rightarrow> status \<times> 'a vec" where
  "vec_addSpaceIfNeed E ty v n =
     (if m_dataSize v + n \<ge> m_dataSize v
      then if m_dataSize v + n > m_allocatedSize v
           then vec_reserveInternal E ty v (m_dataSize v + n) False
           else (NoError, v)
      else (ErrorOverflow, v))"

definition vec_setSize :: "env \<Rightarrow> 'a elem \<Rightarrow> 'a vec \<Rightarrow> size_t \<Rightarrow> status \<times> 'a vec" where
  "vec_setSize E ty v n =
     run (vec_reserveInternal E ty v n False) (\<lambda>v. (NoError, v\<lparr>m_dataSize := n\<rparr>))"

section \<open>Appending\<close>

definition vec_pushBack :: "env \<Rightarrow> 'a elem \<Rightarrow> 'a vec \<Rightarrow> 'a \<Rightarrow> status \<times> 'a vec" where
  "vec_pushBack E ty v value =
     run (vec_addSpaceIfNeed E ty v 1) (\<lambda>v.
       let (st, c) = construct_copy ty (Obj value);
           v' = v\<lparr>m_p := write_cells (m_p v) (unat (m_dataSize v)) [c]\<rparr>
       in run (st, v') (\<lambda>v. (NoError, v\<lparr>m_dataSize := m_dataSize v + 1\<rparr>)))"

text \<open>\<open>pushBack(_T&&)\<close>: (status, vector, the argument's cell afterwards).\<close>

definition vec_pushBack_move :: "env \<Rightarrow> 'a elem \<Rightarrow> 'a vec \<Rightarrow> 'a cell \<Rightarrow> status \<times> 'a vec \<times> 'a storage" where
  "vec_pushBack_move E ty v value =
     (let (st, v) = vec_addSpaceIfNeed E ty v 1
      in if \<not> statusSuccess st then (st, v, Cells [value])
         else (let (st, p, value') =
                     moveToRawNoOverlap ty (m_p v) (unat (m_dataSize v)) (Cells [value]) 0 1;
                   v = v\<lparr>m_p := p\<rparr>
               in if \<not> statusSuccess st then (st, v, value')
                  else (NoError, v\<lparr>m_dataSize := m_dataSize v + 1\<rparr>, value')))"

definition vec_pushBackN :: "env \<Rightarrow> 'a elem \<Rightarrow> 'a vec \<Rightarrow> 'a list option \<Rightarrow> size_t \<Rightarrow> status \<times> 'a vec" where
  "vec_pushBackN E ty v p n =
     (if p = None \<and> n \<noteq> 0 then (ErrorInvalidArgument, v)
      else run (vec_addSpaceIfNeed E ty v n) (\<lambda>v.
        let (st, q) = copyToRaw_from ty (m_p v) (unat (m_dataSize v)) (array_cells p n)
        in run (st, v\<lparr>m_p := q\<rparr>) (\<lambda>v. (NoError, v\<lparr>m_dataSize := m_dataSize v + n\<rparr>))))"

text \<open>The argument as the octets of its object representation; the store is unaligned.\<close>

definition vec_pushBackArithmeticValue :: "env \<Rightarrow> byte vec \<Rightarrow> byte list \<Rightarrow> status \<times> byte vec" where
  "vec_pushBackArithmeticValue E v value =
     run (vec_addSpaceIfNeed E (raw_elem 1) v (of_nat (length value))) (\<lambda>v.
       (NoError, v\<lparr>m_p := write_cells (m_p v) (unat (m_dataSize v)) (map Obj value),
                   m_dataSize := m_dataSize v + of_nat (length value)\<rparr>))"

text \<open>\<open>emplaceBack\<close>: \<open>ctor\<close> is what construction from the arguments gives.\<close>

definition vec_emplaceBack :: "env \<Rightarrow> 'a elem \<Rightarrow> 'a vec \<Rightarrow> status \<times> 'a cell \<Rightarrow> status \<times> 'a vec" where
  "vec_emplaceBack E ty v ctor =
     run (vec_addSpaceIfNeed E ty v 1) (\<lambda>v.
       let v' = v\<lparr>m_p := write_cells (m_p v) (unat (m_dataSize v)) [snd ctor]\<rparr>
       in run (fst ctor, v') (\<lambda>v. (NoError, v\<lparr>m_dataSize := m_dataSize v + 1\<rparr>)))"

section \<open>Replacing and inserting\<close>

text \<open>
  The last argument and the last component of the result are the object that
  \<open>pNewOffset\<close> points to, before and after the call.
\<close>

definition vec_replace ::
    "env \<Rightarrow> 'a elem \<Rightarrow> 'a vec \<Rightarrow> 'a list option \<Rightarrow> size_t \<Rightarrow> size_t \<Rightarrow> size_t \<Rightarrow> status \<times> 'a vec \<times> size_t" where
  "vec_replace E ty v p n offset newOffset =
     (if p = None \<and> n \<noteq> 0 then (ErrorInvalidArgument, v, newOffset)
      else if offset > m_dataSize v then (ErrorOverflow, v, newOffset)
      else
        let offsetPlusN = offset + n;
            newDataSize = (if offsetPlusN > m_dataSize v then offsetPlusN else m_dataSize v);
            (st, v) =
              (if newDataSize > m_allocatedSize v then
                 (let (newMp, newAllocatedSize) = am_allocate E ty (m_AllocationManager v) newDataSize
                  in if \<not> is_Null newMp then
                       (let v = v\<lparr>m_allocatedSize := newAllocatedSize\<rparr>;
                            (st1, q1, old) = moveToRawNoOverlap ty newMp 0 (m_p v) 0 (unat offset);
                            (st2, q2) = copyToRaw_from ty q1 (unat offset) (array_cells p n)
                        in if \<not> statusSuccess st1 then (st1, v\<lparr>m_p := old\<rparr>)
                           else if \<not> statusSuccess st2 then (st2, v\<lparr>m_p := old\<rparr>)
                           else (NoError, v\<lparr>m_p := q2\<rparr>))
                     else (ErrorNoMemory, v))
               else if newDataSize \<ge> m_dataSize v then
                 (let rightN = m_dataSize v - offset;
                      q = destroyN ty (m_p v) (unat offset) (unat (if n \<ge> rightN then rightN else n));
                      (st, q) = copyToRaw_from ty q (unat offset) (array_cells p n)
                  in (if statusSuccess st then NoError else st, v\<lparr>m_p := q\<rparr>))
               else (NoError, v))
        in if \<not> statusSuccess st then (st, v, newOffset)
           else (NoError, v\<lparr>m_dataSize := newDataSize\<rparr>, offsetPlusN))"

definition vec_insert ::
    "env \<Rightarrow> 'a elem \<Rightarrow> 'a vec \<Rightarrow> 'a list option \<Rightarrow> size_t \<Rightarrow> size_t \<Rightarrow> size_t \<Rightarrow> status \<times> 'a vec \<times> size_t" where
  "vec_insert E ty v p n offset newOffset =
     (if p = None \<and> n \<noteq> 0 then (ErrorInvalidArgument, v, newOffset)
      else if offset > m_dataSize v then (ErrorOverflow, v, newOffset)
      else
        let offsetPlusN = offset + n;
            newDataSize = m_dataSize v + n;
            rightDataPartSize = m_dataSize v - offset;
            (st, v) =
              (if newDataSize > m_allocatedSize v then
                 (let (newMp, newAllocatedSize) = am_allocate E ty (m_AllocationManager v) newDataSize
                  in if \<not> is_Null newMp then
                       (let v = v\<lparr>m_allocatedSize := newAllocatedSize\<rparr>;
                            (st1, q1, old1) = moveToRawNoOverlap ty newMp 0 (m_p v) 0 (unat offset);
                            (st2, q2) = copyToRaw_from ty q1 (unat offset) (array_cells p n);
                            (st3, q3, old3) =
                              (if offset \<noteq> m_dataSize v
                               then moveToRawNoOverlap ty q2 (unat offsetPlusN) old1 (unat offset)
                                      (unat rightDataPartSize)
                               else (NoError, q2, old1))
                        in if \<not> statusSuccess st1 then (st1, v\<lparr>m_p := old1\<rparr>)
                           else if \<not> statusSuccess st2 then (st2, v\<lparr>m_p := old1\<rparr>)
                           else if \<not> statusSuccess st3 then (st3, v\<lparr>m_p := old3\<rparr>)
                           else (NoError, v\<lparr>m_p := q3\<rparr>))
                     else (ErrorNoMemory, v))
               else if newDataSize > m_dataSize v then
                 (let (st1, q1) =
                        (if offset \<noteq> m_dataSize v
                         then moveToDirty ty (m_p v) (unat offsetPlusN) (unat (m_dataSize v))
                                (unat offset) (unat rightDataPartSize)
                         else (NoError, m_p v));
                      (st2, q2) = copyToRaw_from ty q1 (unat offset) (array_cells p n)
                  in if \<not> statusSuccess st1 then (st1, v\<lparr>m_p := q1\<rparr>)
                     else if \<not> statusSuccess st2 then (st2, v\<lparr>m_p := q2\<rparr>)
                     else (NoError, v\<lparr>m_p := q2\<rparr>))
               else if newDataSize < m_dataSize v then (ErrorOverflow, v)
               else (NoError, v))
        in if \<not> statusSuccess st then (st, v, newOffset)
           else (NoError, v\<lparr>m_dataSize := newDataSize\<rparr>, offsetPlusN))"

definition vec_insert_value :: "env \<Rightarrow> 'a elem \<Rightarrow> 'a vec \<Rightarrow> 'a \<Rightarrow> size_t \<Rightarrow> status \<times> 'a vec" where
  "vec_insert_value E ty v value offset =
     (let (st, v', _) = vec_insert E ty v (Some [value]) 1 offset 0 in (st, v'))"

section \<open>Inserting a range\<close>

definition isIteratorNotDereferenceable :: "'a vec \<Rightarrow> vec_iterator \<Rightarrow> bool" where
  "isIteratorNotDereferenceable v it = (it_p it < 0 \<or> it_p it \<ge> uint (m_dataSize v))"

definition vec_begin :: "'a vec \<Rightarrow> vec_iterator" where
  "vec_begin v = \<lparr>it_p = 0\<rparr>"

definition vec_end :: "'a vec \<Rightarrow> vec_iterator" where
  "vec_end v = \<lparr>it_p = uint (m_dataSize v)\<rparr>"

text \<open>\<open>temp.pushBack(std::move(*p))\<close> and \<open>destroy(p)\<close>, for the element at \<open>i\<close>.\<close>

definition take_to_temp :: "env \<Rightarrow> 'a elem \<Rightarrow> 'a vec \<Rightarrow> 'a vec \<Rightarrow> nat \<Rightarrow> status \<times> 'a vec \<times> 'a vec" where
  "take_to_temp E ty v temp i =
     (case read_cells (m_p v) i 1 of
        Some [c] \<Rightarrow>
          (let (st, temp', src) = vec_pushBack_move E ty temp c;
               v1 = v\<lparr>m_p := (case src of Cells cs \<Rightarrow> write_cells (m_p v) i cs | _ \<Rightarrow> Corrupt)\<rparr>
           in if \<not> statusSuccess st then (st, v1, temp')
              else (NoError, v1\<lparr>m_p := destroyN ty (m_p v1) i 1\<rparr>, temp'))
      | _ \<Rightarrow> (NoError, v\<lparr>m_p := Corrupt\<rparr>, temp))"

text \<open>
  The loop over the source range; \<open>None\<close> when \<open>fuel\<close> iterations do not end it. The result
  is the status, the vector, the temporary vector and the current offset.
\<close>

fun insert_range_loop ::
    "nat \<Rightarrow> env \<Rightarrow> 'a elem \<Rightarrow> 'a vec \<Rightarrow> 'a vec \<Rightarrow> size_t \<Rightarrow> 'a list
     \<Rightarrow> (status \<times> 'a vec \<times> 'a vec \<times> size_t) option"
where
  "insert_range_loop fuel E ty v temp cur [] = Some (NoError, v, temp, cur)"
| "insert_range_loop 0 E ty v temp cur (x # xs) = None"
| "insert_range_loop (Suc fuel) E ty v temp cur (x # xs) =
     (if cur < m_allocatedSize v then
        (let (st, v1, temp1) =
               (if m_dataSize v > cur then take_to_temp E ty v temp (unat cur)
                else (NoError, v\<lparr>m_dataSize := cur + 1\<rparr>, temp));
             (st2, p) = copyToRaw_from ty (m_p v1) (unat cur) (array_cells (Some [x]) 1)
         in if \<not> statusSuccess st then Some (st, v1, temp1, cur)
            else if \<not> statusSuccess st2 then Some (st2, v1\<lparr>m_p := p\<rparr>, temp1, cur + 1)
            else insert_range_loop fuel E ty (v1\<lparr>m_p := p\<rparr>) temp1 (cur + 1) xs)
      else
        (let (st, v1) = vec_reserveInternal E ty v (cur + 1) False
         in if \<not> statusSuccess st then Some (st, v1, temp, cur)
            else insert_range_loop fuel E ty v1 temp cur (x # xs)))"

fun take_rest_to_temp :: "env \<Rightarrow> 'a elem \<Rightarrow> 'a vec \<Rightarrow> 'a vec \<Rightarrow> nat \<Rightarrow> nat \<Rightarrow> status \<times> 'a vec \<times> 'a vec" where
  "take_rest_to_temp E ty v temp i 0 = (NoError, v, temp)"
| "take_rest_to_temp E ty v temp i (Suc n) =
     (let (st, v1, temp1) = take_to_temp E ty v temp i
      in if \<not> statusSuccess st then (st, v1, temp1)
         else take_rest_to_temp E ty v1 temp1 (Suc i) n)"

text \<open>The displaced elements, kept in \<open>temp\<close>, are put behind the inserted ones.\<close>

definition insert_range_finish ::
    "env \<Rightarrow> 'a elem \<Rightarrow> 'a vec \<Rightarrow> 'a vec \<Rightarrow> size_t \<Rightarrow> size_t \<Rightarrow> status \<times> 'a vec" where
  "insert_range_finish E ty v temp cur oldDataSize =
     (if m_dataSize temp = 0 then (NoError, v)
      else
        let (st, v, temp) =
              (if oldDataSize > cur then
                 (if e_ctor ty then take_rest_to_temp E ty v temp (unat cur) (unat (oldDataSize - cur))
                  else
                    (let n = oldDataSize - cur
                     in case run (vec_addSpaceIfNeed E ty temp n) (\<lambda>temp.
                               let (st, q) = copyToRaw_from ty (m_p temp) (unat (m_dataSize temp))
                                     (read_cells (m_p v) (unat cur) (unat n))
                               in run (st, temp\<lparr>m_p := q\<rparr>) (\<lambda>temp.
                                    (NoError, temp\<lparr>m_dataSize := m_dataSize temp + n\<rparr>)))
                        of (st, temp) \<Rightarrow> (st, v, temp)))
               else (NoError, v, temp))
        in if \<not> statusSuccess st then (st, v)
           else
             run (vec_addSpaceIfNeed E ty (v\<lparr>m_dataSize := cur\<rparr>) (m_dataSize temp)) (\<lambda>v.
               let (st, q, _) = moveToRawNoOverlap ty (m_p v) (unat cur) (m_p temp) 0
                     (unat (m_dataSize temp))
               in run (st, v\<lparr>m_p := q\<rparr>) (\<lambda>v. (NoError, v\<lparr>m_dataSize := cur + m_dataSize temp\<rparr>))))"

definition vec_insert_range ::
    "nat \<Rightarrow> env \<Rightarrow> 'a elem \<Rightarrow> manager \<Rightarrow> 'a vec \<Rightarrow> 'a list \<Rightarrow> vec_iterator \<Rightarrow> vec_iterator
     \<Rightarrow> (status \<times> 'a vec \<times> vec_iterator) option" where
  "vec_insert_range fuel E ty dflt v src destBegin destEnd =
     (if isIteratorNotDereferenceable v destBegin \<and> it_ne destBegin (vec_end v)
      then Some (ErrorOverflow, v, destEnd)
      else
        case insert_range_loop fuel E ty v (empty_vec dflt) (word_of_int (it_p destBegin)) src of
          None \<Rightarrow> None
        | Some (st, v1, temp, cur) \<Rightarrow>
            if \<not> statusSuccess st then Some (st, v1, destEnd)
            else (let (st, v2) = insert_range_finish E ty v1 temp cur (m_dataSize v)
                  in if \<not> statusSuccess st then Some (st, v2, destEnd)
                     else Some (NoError, v2, \<lparr>it_p = uint cur\<rparr>)))"

section \<open>Erasing\<close>

definition vec_erase :: "'a elem \<Rightarrow> 'a vec \<Rightarrow> size_t \<Rightarrow> size_t \<Rightarrow> status \<times> 'a vec" where
  "vec_erase ty v offset n =
     (if offset > m_dataSize v \<or> offset = m_dataSize v \<and> n \<noteq> 0 then (ErrorOverflow, v)
      else if n = 0 then (NoError, v)
      else
        let n = (if offset + n > m_dataSize v \<or> offset + n < offset then m_dataSize v - offset else n);
            q = destroyN ty (m_p v) (unat offset) (unat n);
            rightNStart = offset + n;
            rightN = m_dataSize v - rightNStart;
            (st, q) = moveToRawNoOverlap_within ty q (unat offset) (unat rightNStart) (unat rightN)
        in if \<not> statusSuccess st then (st, v\<lparr>m_p := q\<rparr>)
           else (NoError, v\<lparr>m_p := destroyN ty q (unat rightNStart) (unat rightN),
                            m_dataSize := offset + rightN\<rparr>))"

definition vec_erase_one :: "'a elem \<Rightarrow> 'a vec \<Rightarrow> size_t \<Rightarrow> status \<times> 'a vec" where
  "vec_erase_one ty v offset = vec_erase ty v offset 1"

definition vec_erase_range ::
    "'a elem \<Rightarrow> 'a vec \<Rightarrow> vec_iterator \<Rightarrow> vec_iterator \<Rightarrow> status \<times> 'a vec" where
  "vec_erase_range ty v destBegin destEnd =
     (if it_gt destBegin destEnd then (ErrorOverflow, v)
      else if isIteratorNotDereferenceable v destBegin then (ErrorInvalidArgument, v)
      else if it_eq destBegin destEnd then (NoError, v)
      else
        let destEnd = (if it_gt destEnd (vec_end v) then vec_end v else destEnd);
            n = it_distance destEnd destBegin;
            q = destroyN ty (m_p v) (nat (it_p destBegin)) (nat n);
            leftN = it_distance destBegin (vec_begin v);
            rightN = uint (m_dataSize v) - n - leftN;
            (st, q) = moveToRawNoOverlap_within ty q (nat (it_p destBegin)) (nat (it_p destEnd)) (nat rightN)
        in if \<not> statusSuccess st then (st, v\<lparr>m_p := q\<rparr>)
           else (NoError, v\<lparr>m_p := destroyN ty q (nat (it_p destEnd)) (nat rightN),
                            m_dataSize := word_of_int (leftN + rightN)\<rparr>))"

definition vec_erase_pos :: "'a elem \<Rightarrow> 'a vec \<Rightarrow> vec_iterator \<Rightarrow> status \<times> 'a vec" where
  "vec_erase_pos ty v pos = vec_erase_range ty v pos (it_advance pos 1)"

section \<open>Copying out\<close>

text \<open>
  The destination is a block of its own with objects at its first cells; the result is
  (status, destination, the object \<open>ppNew\<close> points to as an offset in the destination).
\<close>

definition vec_copyN ::
    "'a elem \<Rightarrow> 'a vec \<Rightarrow> size_t \<Rightarrow> size_t \<Rightarrow> 'a storage \<Rightarrow> size_t \<Rightarrow> status \<times> 'a storage \<times> size_t" where
  "vec_copyN ty v offset n p pNew =
     (if is_Null p \<and> n \<noteq> 0 then (ErrorInvalidArgument, p, pNew)
      else if offset > m_dataSize v \<or> offset = m_dataSize v \<and> n \<noteq> 0 then (ErrorOverflow, p, pNew)
      else
        let nReal = (if offset + n > m_dataSize v then m_dataSize v - offset else n)
        in case read_cells (m_p v) (unat offset) (unat nReal) of
             None \<Rightarrow> (NoError, Corrupt, pNew)
           | Some cs \<Rightarrow>
               (let (st, p') = copyToDirtyNoOverlap ty p 0 (unat nReal) cs
                in if \<not> statusSuccess st then (st, p', pNew) else (NoError, p', nReal)))"

fun copyN_loop :: "'a elem \<Rightarrow> 'a storage \<Rightarrow> nat \<Rightarrow> 'a storage \<Rightarrow> nat \<Rightarrow> nat \<Rightarrow> status \<times> 'a storage \<times> nat" where
  "copyN_loop ty src s dest d 0 = (NoError, dest, d)"
| "copyN_loop ty src s dest d (Suc n) =
     (case read_cells src s 1 of
        None \<Rightarrow> (NoError, Corrupt, d)
      | Some cs \<Rightarrow>
          (let (st, dest') = copyToDirtyNoOverlap ty dest d (d + 1) cs
           in if \<not> statusSuccess st then (st, dest', d)
              else copyN_loop ty src (Suc s) dest' (Suc d) n))"

definition vec_copyN_range ::
    "'a elem \<Rightarrow> 'a vec \<Rightarrow> vec_iterator \<Rightarrow> vec_iterator \<Rightarrow> 'a storage \<Rightarrow> nat \<Rightarrow> nat \<Rightarrow> status \<times> 'a storage \<times> nat" where
  "vec_copyN_range ty v srcBegin srcEnd dest destBegin destEnd =
     (if isIteratorNotDereferenceable v srcBegin then (ErrorInvalidArgument, dest, destEnd)
      else if it_gt srcBegin srcEnd then (ErrorOverflow, dest, destEnd)
      else
        let srcEnd = (if it_gt srcEnd (vec_end v) then vec_end v else srcEnd);
            (st, dest', d) = copyN_loop ty (m_p v) (nat (it_p srcBegin)) dest destBegin
                               (nat (it_distance srcEnd srcBegin))
        in if \<not> statusSuccess st then (st, dest', destEnd) else (NoError, dest', d))"

section \<open>Access and comparison\<close>

definition vec_data :: "'a vec \<Rightarrow> 'a storage" where
  "vec_data v = m_p v"

definition vec_index :: "'a vec \<Rightarrow> size_t \<Rightarrow> 'a cell option" where
  "vec_index v offset = map_option hd (read_cells (m_p v) (unat offset) 1)"

definition vec_size :: "'a vec \<Rightarrow> size_t" where
  "vec_size v = m_dataSize v"

definition vec_back :: "'a vec \<Rightarrow> 'a cell option" where
  "vec_back v = vec_index v (vec_size v - 1)"

definition vec_front :: "'a vec \<Rightarrow> 'a cell option" where
  "vec_front v = vec_index v 0"

definition vec_max_size :: "'a elem \<Rightarrow> 'a vec \<Rightarrow> size_t" where
  "vec_max_size ty v = noexcept_max_size ty"

definition vec_capacity :: "'a vec \<Rightarrow> size_t" where
  "vec_capacity v = m_allocatedSize v"

text \<open>
  Comparison of the elements; \<open>None\<close> when a cell without an object is read. For pointer
  elements a null pointer on either side ends the loop with the comparison of the two
  pointers, which are then equal only if both are null.
\<close>

fun eq_elements :: "('a \<Rightarrow> 'a \<Rightarrow> bool) \<Rightarrow> 'a cell list \<Rightarrow> 'a cell list \<Rightarrow> bool option" where
  "eq_elements ne (Obj x # xs) (Obj y # ys) = (if ne x y then Some False else eq_elements ne xs ys)"
| "eq_elements ne [] [] = Some True"
| "eq_elements ne _ _ = None"

fun eq_pointers :: "('a \<Rightarrow> 'a \<Rightarrow> bool) \<Rightarrow> 'a option cell list \<Rightarrow> 'a option cell list \<Rightarrow> bool option" where
  "eq_pointers ne (Obj x # xs) (Obj y # ys) =
     (case (x, y) of
        (Some a, Some b) \<Rightarrow> if ne a b then Some False else eq_pointers ne xs ys
      | (None, None) \<Rightarrow> Some True
      | _ \<Rightarrow> Some False)"
| "eq_pointers ne [] [] = Some True"
| "eq_pointers ne _ _ = None"

definition vec_eq_by :: "('a cell list \<Rightarrow> 'a cell list \<Rightarrow> bool option) \<Rightarrow> 'a vec \<Rightarrow> 'a vec \<Rightarrow> bool option" where
  "vec_eq_by loop v rhs =
     (if vec_size v \<noteq> vec_size rhs then Some False
      else case (read_cells (m_p v) 0 (unat (vec_size v)), read_cells (m_p rhs) 0 (unat (vec_size v))) of
        (Some xs, Some ys) \<Rightarrow> loop xs ys
      | _ \<Rightarrow> None)"

definition vec_eq :: "('a \<Rightarrow> 'a \<Rightarrow> bool) \<Rightarrow> 'a vec \<Rightarrow> 'a vec \<Rightarrow> bool option" where
  "vec_eq ne = vec_eq_by (eq_elements ne)"

definition vec_eq_pointers :: "('a \<Rightarrow> 'a \<Rightarrow> bool) \<Rightarrow> 'a option vec \<Rightarrow> 'a option vec \<Rightarrow> bool option" where
  "vec_eq_pointers ne = vec_eq_by (eq_pointers ne)"

end
