(* ===== verification/VectorSpec.thy ===== *)
theory VectorSpec
  imports Vector
begin

text \<open>
  What the operations of \<open>Vector\<close> mean on lists. \<open>vec_rep v xs\<close> says that the block of
  \<open>v\<close> has the allocated number of cells and that its first cells hold the elements \<open>xs\<close>.
  The element types are those of \<open>element_type\<close>; sizes are such that neither the number
  of elements nor the number of octets asked of \<open>malloc\<close>, doubled, wraps around.
\<close>

section \<open>Representation\<close>

definition vec_cells :: "'a vec \<Rightarrow> 'a cell list" where
  "vec_cells v = (case m_p v of Cells cs \<Rightarrow> cs | _ \<Rightarrow> [])"

definition vec_wf :: "'a vec \<Rightarrow> bool" where
  "vec_wf v \<longleftrightarrow> m_p v \<noteq> Corrupt \<and> length (vec_cells v) = unat (m_allocatedSize v)
     \<and> m_dataSize v \<le> m_allocatedSize v"

definition vec_rep :: "'a vec \<Rightarrow> 'a list \<Rightarrow> bool" where
  "vec_rep v xs \<longleftrightarrow> m_p v \<noteq> Corrupt \<and> length (vec_cells v) = unat (m_allocatedSize v)
     \<and> length xs = unat (m_dataSize v) \<and> take (length xs) (vec_cells v) = map Obj xs"

definition fits :: "'a elem \<Rightarrow> nat \<Rightarrow> bool" where
  "fits ty n \<longleftrightarrow> 2 * n * e_sizeof ty < 2 ^ 64"

lemma vec_rep_length:
  "vec_rep v xs \<Longrightarrow> length xs \<le> length (vec_cells v)"
  unfolding vec_rep_def by (metis length_map length_take min.cobounded1)

lemma vec_rep_wf: "vec_rep v xs \<Longrightarrow> vec_wf v"
  using vec_rep_length [of v xs] by (auto simp: vec_rep_def vec_wf_def word_le_nat_alt)

lemma vec_rep_empty: "vec_rep (empty_vec am) []"
  by (simp add: vec_rep_def vec_cells_def empty_vec_def)

lemma vec_rep_CellsI:
  "\<lbrakk>m_p v = Cells cs; length cs = unat (m_allocatedSize v); length xs = unat (m_dataSize v);
    take (length xs) cs = map Obj xs\<rbrakk> \<Longrightarrow> vec_rep v xs"
  by (simp add: vec_rep_def vec_cells_def)

lemma vec_rep_storage:
  assumes "vec_rep v xs"
  obtains (null) "m_p v = Null" "xs = []" "m_allocatedSize v = 0" "m_dataSize v = 0"
    | (cells) cs where "m_p v = Cells cs" "length cs = unat (m_allocatedSize v)"
        "length xs = unat (m_dataSize v)" "take (length xs) cs = map Obj xs"
  using assms by (cases "m_p v") (auto simp: vec_rep_def vec_cells_def unat_eq_zero)

lemma vec_rep_read:
  assumes "vec_rep v xs" "off + n \<le> length xs"
  shows "read_cells (m_p v) off n = Some (map Obj (take n (drop off xs)))"
  using assms(1)
proof (cases rule: vec_rep_storage)
  case null
  then show ?thesis using assms(2) by (simp add: read_cells_def)
next
  case (cells cs)
  have l: "length xs \<le> length cs" using vec_rep_length [OF assms(1)] cells by (simp add: vec_cells_def)
  have "take n (drop off (take (length xs) cs)) = take n (drop off cs)"
    using assms(2) by (simp add: drop_take min_def)
  then have "take n (drop off cs) = map Obj (take n (drop off xs))"
    using cells(4) by (simp add: drop_map take_map)
  then show ?thesis using cells l assms(2) by (simp add: read_cells_Cells)
qed

section \<open>Room\<close>

lemma shiftl1_unat:
  fixes n :: size_t
  assumes "2 * unat n < 2 ^ 64"
  shows "unat (push_bit 1 n) = 2 * unat n"
  using assms by (simp add: push_bit_eq_mult unat_word_ariths)

lemma destroyN_nth:
  assumes "off + n \<le> length cs"
  shows "\<exists>ds. destroyN ty (Cells cs) off n = Cells ds \<and> length ds = length cs \<and>
     (\<forall>j < length cs. ds ! j = (if e_ctor ty \<and> off \<le> j \<and> j < off + n then Raw else cs ! j))"
  using write_cells_nth [of off "replicate n Raw" cs] assms
  by (cases "e_ctor ty") (force simp: destroyN_def)+

context movable_type
begin

lemma fits_bounds:
  assumes "fits ty n"
  shows "2 * n < 2 ^ 64" "n * e_sizeof ty < 2 ^ 64"
proof -
  have "2 * n * 1 \<le> 2 * n * e_sizeof ty" using size_pos by (intro mult_le_mono2) simp
  then show "2 * n < 2 ^ 64" using assms unfolding fits_def by linarith
  have "n * e_sizeof ty \<le> 2 * n * e_sizeof ty" by (intro mult_le_mono1) simp
  then show "n * e_sizeof ty < 2 ^ 64" using assms unfolding fits_def by linarith
qed

lemma fits_mono: "fits ty n \<Longrightarrow> m \<le> n \<Longrightarrow> fits ty m"
  unfolding fits_def by (meson le_less_trans mult_le_mono1 mult_le_mono2)

lemma am_allocate_cells:
  assumes "fits ty (unat n)"
  shows "\<exists>p n'. am_allocate E ty am n = (p, n') \<and>
     (p = Null \<and> \<not> malloc_ok E (n * of_nat (e_sizeof ty))
      \<or> p = Cells (replicate (unat n') Raw) \<and> n \<le> n')"
proof -
  have two: "2 * unat n < 2 ^ 64" and one: "unat n * e_sizeof ty < 2 ^ 64"
    using fits_bounds [OF assms] by simp_all
  have dbl: "unat (push_bit 1 n) * e_sizeof ty < 2 ^ 64"
    using assms unfolding shiftl1_unat [OF two] fits_def .
  have le: "n \<le> push_bit 1 n"
    unfolding word_le_nat_alt shiftl1_unat [OF two] by simp
  show ?thesis
    using noexcept_allocate_cells [OF size_pos one, of E] noexcept_allocate_cells [OF size_pos dbl, of E] le
    by (cases am rule: manager.exhaust; cases "malloc_ok E (n * of_nat (e_sizeof ty))";
        cases "malloc_ok E (push_bit 1 n * of_nat (e_sizeof ty))")
       (auto simp: generic_allocate_def strategic_allocate_def allocateStrict_def Let_def)
qed

text \<open>The storage of a represented vector, seen from its first cells.\<close>

lemma move_all_to_new:
  assumes "vec_rep v xs" "length xs \<le> k" "n = unat (m_dataSize v)"
  shows "\<exists>s'. moveToRawNoOverlap ty (Cells (replicate k Raw)) 0 (m_p v) 0 n
     = (NoError, Cells (map Obj xs @ replicate (k - length xs) Raw), s')"
  using assms(1)
proof (cases rule: vec_rep_storage)
  case null
  then show ?thesis using assms by (cases "e_ctor ty") (simp_all add: moveToRawNoOverlap_def)
next
  case (cells cs)
  then show ?thesis
    using moveToRaw_Obj [of xs n 0 cs 0 "replicate k Raw"] assms(2,3)
    by (auto simp: write_cells_Cells)
qed

lemma reserveInternal_ok:
  assumes "vec_rep v xs" "fits ty (unat n)"
  shows "\<exists>st v'. vec_reserveInternal E ty v n strict = (st, v') \<and>
     (st = NoError \<and> vec_rep v' xs \<and> m_dataSize v' = m_dataSize v \<and> n \<le> m_allocatedSize v'
        \<and> m_AllocationManager v' = m_AllocationManager v
      \<or> st = ErrorNoMemory \<and> v' = v \<and> m_allocatedSize v < n \<and> \<not> malloc_ok E (n * of_nat (e_sizeof ty)))"
proof (cases "n > m_allocatedSize v")
  case False
  then show ?thesis using assms(1) by (auto simp: vec_reserveInternal_def)
next
  case True
  have "unat (m_dataSize v) \<le> unat (m_allocatedSize v)"
    using vec_rep_wf [OF assms(1)] by (simp add: vec_wf_def word_le_nat_alt)
  moreover have lds: "length xs = unat (m_dataSize v)" using assms(1) by (simp add: vec_rep_def)
  ultimately have lx: "length xs \<le> unat n"
    using True by (simp add: word_less_nat_alt)
  obtain p n' where a: "(if strict then (allocateStrict E ty n, n)
       else am_allocate E ty (m_AllocationManager v) n) = (p, n')"
    and p: "p = Null \<and> \<not> malloc_ok E (n * of_nat (e_sizeof ty)) \<or> p = Cells (replicate (unat n') Raw) \<and> n \<le> n'"
    using am_allocate_cells [OF assms(2), of E "m_AllocationManager v"]
      noexcept_allocate_cells [OF size_pos fits_bounds(2) [OF assms(2)], of E]
    by (cases strict; cases "malloc_ok E (n * of_nat (e_sizeof ty))")
       (auto simp: allocateStrict_def)
  from p show ?thesis
  proof
    assume "p = Null \<and> \<not> malloc_ok E (n * of_nat (e_sizeof ty))"
    then show ?thesis using True a by (auto simp: vec_reserveInternal_def)
  next
    assume q: "p = Cells (replicate (unat n') Raw) \<and> n \<le> n'"
    then have k: "length xs \<le> unat n'" using lx by (simp add: word_le_nat_alt)
    then obtain s' where mv: "moveToRawNoOverlap ty (Cells (replicate (unat n') Raw)) 0 (m_p v) 0 (unat (m_dataSize v))
        = (NoError, Cells (map Obj xs @ replicate (unat n' - length xs) Raw), s')"
      using move_all_to_new [OF assms(1) k refl] by blast
    let ?v = "v\<lparr>m_allocatedSize := n', m_p := Cells (map Obj xs @ replicate (unat n' - length xs) Raw)\<rparr>"
    have "vec_reserveInternal E ty v n strict = (NoError, ?v)"
      using True a q mv by (simp add: vec_reserveInternal_def split: if_splits)
    moreover have "vec_rep ?v xs"
      using lds k by (simp add: vec_rep_def vec_cells_def)
    ultimately show ?thesis using q by auto
  qed
qed

lemma addSpaceIfNeed_ok:
  assumes "vec_rep v xs" "fits ty (length xs + unat n)"
  shows "\<exists>st v'. vec_addSpaceIfNeed E ty v n = (st, v') \<and>
     (st = NoError \<and> vec_rep v' xs \<and> m_dataSize v' = m_dataSize v
        \<and> length xs + unat n \<le> unat (m_allocatedSize v') \<and> m_AllocationManager v' = m_AllocationManager v
      \<or> st = ErrorNoMemory \<and> v' = v \<and> unat (m_allocatedSize v) < length xs + unat n
        \<and> \<not> malloc_ok E ((m_dataSize v + n) * of_nat (e_sizeof ty)))"
proof -
  have l: "length xs = unat (m_dataSize v)" using assms(1) by (simp add: vec_rep_def)
  have s: "unat (m_dataSize v + n) = length xs + unat n"
    using fits_bounds(1) [OF assms(2)] l by (subst unat_add_exact) simp_all
  have "m_dataSize v \<le> m_dataSize v + n" using s l by (simp add: word_le_nat_alt)
  moreover have "fits ty (unat (m_dataSize v + n))" using assms(2) s by simp
  ultimately show ?thesis
    using reserveInternal_ok [OF assms(1), of "m_dataSize v + n" E False] assms(1) s
    by (auto simp: vec_addSpaceIfNeed_def word_le_nat_alt word_less_nat_alt not_less)
qed

text \<open>Writing objects right behind the represented ones, where there is room.\<close>

lemma vec_rep_append:
  assumes "vec_rep v xs" "length xs + length ys \<le> unat (m_allocatedSize v)"
  shows "m_p (v\<lparr>m_p := write_cells (m_p v) (unat (m_dataSize v)) (map Obj ys)\<rparr>) \<noteq> Corrupt"
    "vec_rep (v\<lparr>m_p := write_cells (m_p v) (unat (m_dataSize v)) (map Obj ys),
               m_dataSize := m_dataSize v + of_nat (length ys)\<rparr>) (xs @ ys)"
proof -
  have "unat (m_allocatedSize v) < 2 ^ 64" using unsigned_less [of "m_allocatedSize v"] by simp
  then have b: "length xs + length ys < 2 ^ 64" using assms(2) by linarith
  have l: "length xs = unat (m_dataSize v)" using assms(1) by (simp add: vec_rep_def)
  then have sz: "unat (m_dataSize v + of_nat (length ys)) = length xs + length ys"
    using b by (subst unat_add_of_nat) simp_all
  have *: "vec_rep (v\<lparr>m_p := write_cells (m_p v) (unat (m_dataSize v)) (map Obj ys),
               m_dataSize := m_dataSize v + of_nat (length ys)\<rparr>) (xs @ ys)"
    using assms(1)
  proof (cases rule: vec_rep_storage)
    case null
    then show ?thesis using assms(2) by (simp add: vec_rep_def vec_cells_def)
  next
    case (cells cs)
    then show ?thesis
      using assms(2) sz l
      by (intro vec_rep_CellsI [where cs = "take (length xs) cs @ map Obj ys @ drop (length xs + length ys) cs"])
         (simp_all add: write_cells_Cells)
  qed
  show "m_p (v\<lparr>m_p := write_cells (m_p v) (unat (m_dataSize v)) (map Obj ys)\<rparr>) \<noteq> Corrupt"
    using * by (simp add: vec_rep_def)
  show "vec_rep (v\<lparr>m_p := write_cells (m_p v) (unat (m_dataSize v)) (map Obj ys),
               m_dataSize := m_dataSize v + of_nat (length ys)\<rparr>) (xs @ ys)"
    by (rule *)
qed

text \<open>Appending an object that is moved from.\<close>

lemma pushBack_move_ok:
  assumes "vec_rep v xs" "fits ty (Suc (length xs))"
  shows "\<exists>st v' src. vec_pushBack_move E ty v (Obj x) = (st, v', src) \<and>
     (st = NoError \<and> vec_rep v' (xs @ [x]) \<and> m_AllocationManager v' = m_AllocationManager v
      \<or> st = ErrorNoMemory \<and> v' = v \<and> src = Cells [Obj x]
         \<and> \<not> malloc_ok E ((m_dataSize v + 1) * of_nat (e_sizeof ty)))"
proof -
  from addSpaceIfNeed_ok [OF assms(1), of 1 E] assms(2) obtain st v1 where
    a: "vec_addSpaceIfNeed E ty v 1 = (st, v1)" and
    c: "st = NoError \<and> vec_rep v1 xs \<and> m_dataSize v1 = m_dataSize v
        \<and> length xs + 1 \<le> unat (m_allocatedSize v1) \<and> m_AllocationManager v1 = m_AllocationManager v
      \<or> st = ErrorNoMemory \<and> v1 = v \<and> \<not> malloc_ok E ((m_dataSize v + 1) * of_nat (e_sizeof ty))"
    by auto
  from c show ?thesis
  proof
    assume "st = ErrorNoMemory \<and> v1 = v \<and> \<not> malloc_ok E ((m_dataSize v + 1) * of_nat (e_sizeof ty))"
    then show ?thesis using a by (simp add: vec_pushBack_move_def)
  next
    assume st: "st = NoError \<and> vec_rep v1 xs \<and> m_dataSize v1 = m_dataSize v
        \<and> length xs + 1 \<le> unat (m_allocatedSize v1) \<and> m_AllocationManager v1 = m_AllocationManager v"
    then have v1: "vec_rep v1 xs" "length xs + length [x] \<le> unat (m_allocatedSize v1)" by simp_all
    obtain cs where cs: "m_p v1 = Cells cs" "length cs = unat (m_allocatedSize v1)"
      using v1(1) by (cases rule: vec_rep_storage) (use v1(2) in auto)
    have "unat (m_dataSize v1) + 1 \<le> length cs" using v1 cs(2) by (simp add: vec_rep_def)
    then obtain src where "moveToRawNoOverlap ty (m_p v1) (unat (m_dataSize v1)) (Cells [Obj x]) 0 1
        = (NoError, write_cells (m_p v1) (unat (m_dataSize v1)) (map Obj [x]), src)"
      using moveToRaw_Obj [of "[x]" 1 0 "[Obj x]" "unat (m_dataSize v1)" cs] cs(1) by auto
    then show ?thesis
      using a st vec_rep_append(2) [OF v1] by (simp add: vec_pushBack_move_def)
  qed
qed

text \<open>Emptying, and taking over another vector.\<close>

lemma clear_ok:
  assumes "vec_rep v xs"
  shows "vec_rep (vec_clear ty v) []" "m_allocatedSize (vec_clear ty v) = m_allocatedSize v"
    "m_AllocationManager (vec_clear ty v) = m_AllocationManager v" "m_dataSize (vec_clear ty v) = 0"
proof -
  show "vec_rep (vec_clear ty v) []"
    using assms
  proof (cases rule: vec_rep_storage)
    case null
    then show ?thesis by (simp add: vec_clear_def destroyN_def vec_rep_def vec_cells_def)
  next
    case (cells cs)
    then have "length xs \<le> length cs" using vec_rep_length [OF assms] by (simp add: vec_cells_def)
    then show ?thesis
      using cells by (simp add: vec_clear_def destroyN_def vec_rep_def vec_cells_def write_cells_def)
  qed
qed (simp_all add: vec_clear_def)

lemma invalidate_ok: "vec_rep (vec_invalidate ty v) []"
  by (simp add: vec_invalidate_def vec_clear_def vec_rep_def vec_cells_def)

lemma init_move_ok:
  assumes "vec_rep rhs ys"
  shows "\<exists>v' rhs'. vec_init_move ty False v rhs = (NoError, v', rhs') \<and> vec_rep v' ys \<and> vec_rep rhs' []"
  using assms
  by (auto simp: vec_init_move_def vec_release_def vec_rep_def vec_cells_def)

end

context element_type
begin

lemma copyToRaw_end:
  assumes "vec_rep v xs" "length xs + length ys \<le> unat (m_allocatedSize v)"
  shows "copyToRawNoOverlap ty (m_p v) (unat (m_dataSize v)) (map Obj ys)
     = (NoError, write_cells (m_p v) (unat (m_dataSize v)) (map Obj ys))"
  using assms(1)
proof (cases rule: vec_rep_storage)
  case null
  then show ?thesis using assms(2) by (cases "e_ctor ty") (simp_all add: copyToRawNoOverlap_def)
next
  case (cells cs)
  then show ?thesis using assms(2) copyToRaw_Obj [of "length xs" ys cs] by simp
qed

text \<open>Appending: all of it arrives, or there was no memory and nothing changed.\<close>

lemma pushBackN_ok:
  assumes "vec_rep v xs" "unat n \<le> length ys" "fits ty (length xs + unat n)"
  shows "\<exists>st v'. vec_pushBackN E ty v (Some ys) n = (st, v') \<and>
     (st = NoError \<and> vec_rep v' (xs @ take (unat n) ys) \<and> m_AllocationManager v' = m_AllocationManager v
      \<or> st = ErrorNoMemory \<and> v' = v
         \<and> \<not> malloc_ok E ((m_dataSize v + n) * of_nat (e_sizeof ty)))"
proof -
  from addSpaceIfNeed_ok [OF assms(1,3), of E] obtain st v1 where
    a: "vec_addSpaceIfNeed E ty v n = (st, v1)" and
    c: "st = NoError \<and> vec_rep v1 xs \<and> m_dataSize v1 = m_dataSize v
        \<and> length xs + unat n \<le> unat (m_allocatedSize v1) \<and> m_AllocationManager v1 = m_AllocationManager v
      \<or> st = ErrorNoMemory \<and> v1 = v \<and> \<not> malloc_ok E ((m_dataSize v + n) * of_nat (e_sizeof ty))"
    by blast
  from c show ?thesis
  proof
    assume st: "st = ErrorNoMemory \<and> v1 = v \<and> \<not> malloc_ok E ((m_dataSize v + n) * of_nat (e_sizeof ty))"
    then show ?thesis using a by (simp add: vec_pushBackN_def run_simps)
  next
    assume st: "st = NoError \<and> vec_rep v1 xs \<and> m_dataSize v1 = m_dataSize v
        \<and> length xs + unat n \<le> unat (m_allocatedSize v1) \<and> m_AllocationManager v1 = m_AllocationManager v"
    let ?ys = "take (unat n) ys"
    have l: "length ?ys = unat n" and n: "of_nat (length ?ys) = n" using assms(2) by simp_all
    have src: "array_cells (Some ys) n = Some (map Obj ?ys)"
      using assms(2) by (simp add: array_cells_def take_map)
    have room: "length xs + length ?ys \<le> unat (m_allocatedSize v1)" using st l by simp
    have "vec_pushBackN E ty v (Some ys) n =
        (NoError, v1\<lparr>m_p := write_cells (m_p v1) (unat (m_dataSize v1)) (map Obj ?ys),
                     m_dataSize := m_dataSize v1 + n\<rparr>)"
      using a st src copyToRaw_end [of v1 xs ?ys] room
      by (simp add: vec_pushBackN_def run_simps copyToRaw_from_def)
    then show ?thesis
      using vec_rep_append(2) [of v1 xs ?ys] st room n by simp
  qed
qed

lemma pushBack_ok:
  assumes "vec_rep v xs" "fits ty (Suc (length xs))"
  shows "\<exists>st v'. vec_pushBack E ty v x = (st, v') \<and>
     (st = NoError \<and> vec_rep v' (xs @ [x]) \<and> m_AllocationManager v' = m_AllocationManager v
      \<or> st = ErrorNoMemory \<and> v' = v
         \<and> \<not> malloc_ok E ((m_dataSize v + 1) * of_nat (e_sizeof ty)))"
proof -
  from addSpaceIfNeed_ok [OF assms(1), of 1 E] assms(2) obtain st v1 where
    a: "vec_addSpaceIfNeed E ty v 1 = (st, v1)" and
    c: "st = NoError \<and> vec_rep v1 xs \<and> m_dataSize v1 = m_dataSize v
        \<and> length xs + 1 \<le> unat (m_allocatedSize v1) \<and> m_AllocationManager v1 = m_AllocationManager v
      \<or> st = ErrorNoMemory \<and> v1 = v \<and> \<not> malloc_ok E ((m_dataSize v + 1) * of_nat (e_sizeof ty))"
    by auto
  from c show ?thesis
  proof
    assume st: "st = ErrorNoMemory \<and> v1 = v \<and> \<not> malloc_ok E ((m_dataSize v + 1) * of_nat (e_sizeof ty))"
    then show ?thesis using a by (simp add: vec_pushBack_def run_simps)
  next
    assume st: "st = NoError \<and> vec_rep v1 xs \<and> m_dataSize v1 = m_dataSize v
        \<and> length xs + 1 \<le> unat (m_allocatedSize v1) \<and> m_AllocationManager v1 = m_AllocationManager v"
    have "vec_pushBack E ty v x =
        (NoError, v1\<lparr>m_p := write_cells (m_p v1) (unat (m_dataSize v1)) (map Obj [x]),
                     m_dataSize := m_dataSize v1 + of_nat (length [x])\<rparr>)"
      using a st by (simp add: vec_pushBack_def run_simps construct_copy_Obj)
    then show ?thesis using vec_rep_append(2) [of v1 xs "[x]"] st by auto
  qed
qed

text \<open>Copying another vector.\<close>

lemma copyToRaw_front:
  assumes "m_p v = Null \<and> ys = [] \<or> m_p v = Cells cs \<and> length ys \<le> length cs"
  shows "copyToRawNoOverlap ty (m_p v) 0 (map Obj ys) = (NoError, write_cells (m_p v) 0 (map Obj ys))"
  using assms copyToRaw_Obj [of 0 ys cs]
  by (cases "e_ctor ty") (auto simp: copyToRawNoOverlap_def)

lemma init_copy_ok:
  assumes "vec_rep v xs" "vec_rep rhs ys" "fits ty (length ys)"
  shows "\<exists>st v'. vec_init_copy E ty False v rhs = (st, v') \<and>
     (st = NoError \<and> vec_rep v' ys \<or> st = ErrorNoMemory \<and> vec_rep v' []
        \<and> \<not> malloc_ok E (m_dataSize rhs * of_nat (e_sizeof ty)))"
proof -
  let ?v1 = "(vec_clear ty v)\<lparr>m_AllocationManager := m_AllocationManager rhs\<rparr>"
  have r1: "vec_rep ?v1 []" using clear_ok(1) [OF assms(1)] by (simp add: vec_rep_def vec_cells_def)
  have ly: "length ys = unat (m_dataSize rhs)" using assms(2) by (simp add: vec_rep_def)
  have src: "read_cells (m_p rhs) 0 (unat (m_dataSize rhs)) = Some (map Obj ys)"
    using vec_rep_read [OF assms(2), of 0 "length ys"] ly by simp
  show ?thesis
  proof (cases "m_dataSize rhs > m_allocatedSize ?v1")
    case False
    have l: "length ys \<le> length (vec_cells ?v1)"
      using False r1 ly by (simp add: vec_rep_def word_less_nat_alt)
    have "\<exists>cs. m_p ?v1 = Null \<and> ys = [] \<or> m_p ?v1 = Cells cs \<and> length ys \<le> length cs"
      using r1 l by (cases "m_p ?v1") (auto simp: vec_rep_def vec_cells_def)
    then have c: "copyToRawNoOverlap ty (m_p ?v1) 0 (map Obj ys) = (NoError, write_cells (m_p ?v1) 0 (map Obj ys))"
      using copyToRaw_front [of ?v1] by blast
    have "vec_init_copy E ty False v rhs
        = (NoError, ?v1\<lparr>m_p := write_cells (m_p ?v1) 0 (map Obj ys), m_dataSize := m_dataSize rhs\<rparr>)"
      using False c src by (simp add: vec_init_copy_def copyToRaw_from_def Let_def)
    moreover have "vec_rep (?v1\<lparr>m_p := write_cells (m_p ?v1) 0 (map Obj ys), m_dataSize := m_dataSize rhs\<rparr>) ys"
      using r1 l ly by (cases "m_p ?v1") (auto simp: vec_rep_def vec_cells_def write_cells_def)
    ultimately show ?thesis by blast
  next
    case True
    obtain p n' where a: "am_allocate E ty (m_AllocationManager rhs) (m_dataSize rhs) = (p, n')"
      and p: "p = Null \<and> \<not> malloc_ok E (m_dataSize rhs * of_nat (e_sizeof ty))
          \<or> p = Cells (replicate (unat n') Raw) \<and> m_dataSize rhs \<le> n'"
      using am_allocate_cells [of "m_dataSize rhs" E "m_AllocationManager rhs"] assms(3) ly by auto
    have n0: "p = Null \<Longrightarrow> n' = 0"
      using a by (cases "m_AllocationManager rhs")
        (auto simp: generic_allocate_def strategic_allocate_def Let_def split: if_splits)
    from p show ?thesis
    proof
      assume "p = Null \<and> \<not> malloc_ok E (m_dataSize rhs * of_nat (e_sizeof ty))"
      then show ?thesis
        using True a n0 by (simp add: vec_init_copy_def Let_def vec_rep_def vec_cells_def)
    next
      assume q: "p = Cells (replicate (unat n') Raw) \<and> m_dataSize rhs \<le> n'"
      then have l: "length ys \<le> unat n'" using ly by (simp add: word_le_nat_alt)
      have c: "copyToRawNoOverlap ty p 0 (map Obj ys) = (NoError, write_cells p 0 (map Obj ys))"
        using q l copyToRaw_Obj [of 0 ys "replicate (unat n') Raw"] by simp
      have "vec_init_copy E ty False v rhs = (NoError, ?v1\<lparr>m_allocatedSize := n',
          m_p := write_cells p 0 (map Obj ys), m_dataSize := m_dataSize rhs\<rparr>)"
        using True a q c src by (simp add: vec_init_copy_def copyToRaw_from_def Let_def)
      moreover have "vec_rep (?v1\<lparr>m_allocatedSize := n', m_p := write_cells p 0 (map Obj ys),
          m_dataSize := m_dataSize rhs\<rparr>) ys"
        using q l ly by (auto simp: vec_rep_def vec_cells_def write_cells_def)
      ultimately show ?thesis by blast
    qed
  qed
qed

text \<open>Growing by \<open>setSize\<close> keeps the elements; shrinking drops the last ones.\<close>

lemma setSize_ok:
  assumes "vec_rep v xs" "fits ty (unat n)"
  shows "\<exists>st v'. vec_setSize E ty v n = (st, v') \<and>
     (st = NoError \<and> vec_wf v' \<and> m_dataSize v' = n
        \<and> take (length xs) (vec_cells v') = map Obj xs
        \<and> (unat n \<le> length xs \<longrightarrow> vec_rep v' (take (unat n) xs))
      \<or> st = ErrorNoMemory \<and> v' = v \<and> \<not> malloc_ok E (n * of_nat (e_sizeof ty)))"
proof -
  from reserveInternal_ok [OF assms, of E False] obtain st v1 where
    a: "vec_reserveInternal E ty v n False = (st, v1)" and
    c: "st = NoError \<and> vec_rep v1 xs \<and> n \<le> m_allocatedSize v1 \<or> st = ErrorNoMemory \<and> v1 = v \<and> \<not> malloc_ok E (n * of_nat (e_sizeof ty))"
    by blast
  from c show ?thesis
  proof
    assume st: "st = NoError \<and> vec_rep v1 xs \<and> n \<le> m_allocatedSize v1"
    let ?v = "v1\<lparr>m_dataSize := n\<rparr>"
    have "unat n \<le> length xs \<Longrightarrow> take (unat n) (vec_cells v1) = map Obj (take (unat n) xs)"
      using st by (metis min.absorb1 take_map take_take vec_rep_def)
    then have "vec_wf ?v \<and> take (length xs) (vec_cells ?v) = map Obj xs
        \<and> (unat n \<le> length xs \<longrightarrow> vec_rep ?v (take (unat n) xs))"
      using st by (auto simp: vec_rep_def vec_wf_def vec_cells_def min_def)
    then show ?thesis using a st by (auto simp: vec_setSize_def run_simps)
  next
    assume "st = ErrorNoMemory \<and> v1 = v \<and> \<not> malloc_ok E (n * of_nat (e_sizeof ty))"
    then show ?thesis using a by (simp add: vec_setSize_def run_simps)
  qed
qed

section \<open>Replacing, inserting, erasing\<close>

text \<open>Moving the first \<open>off\<close> elements and copying \<open>ys\<close> behind them into a new block.\<close>

lemma rebuild_front:
  assumes "vec_rep v xs" "off \<le> length xs" "off + length ys \<le> k"
  shows "\<exists>old. moveToRawNoOverlap ty (Cells (replicate k Raw)) 0 (m_p v) 0 off
       = (NoError, Cells (map Obj (take off xs) @ replicate (k - off) Raw), old)
     \<and> copyToRawNoOverlap ty (Cells (map Obj (take off xs) @ replicate (k - off) Raw)) off (map Obj ys)
       = (NoError, Cells (map Obj (take off xs @ ys) @ replicate (k - off - length ys) Raw))
     \<and> (\<forall>cs. m_p v = Cells cs \<longrightarrow> (\<exists>cs'. old = Cells cs' \<and> length cs' = length cs
           \<and> drop off cs' = drop off cs))"
proof -
  have cp: "copyToRawNoOverlap ty (Cells (map Obj (take off xs) @ replicate (k - off) Raw)) off (map Obj ys)
       = (NoError, Cells (map Obj (take off xs @ ys) @ replicate (k - off - length ys) Raw))"
    using assms(2,3) by (subst copyToRaw_Obj) (simp_all add: write_cells_Cells min_def)
  show ?thesis
    using assms(1)
  proof (cases rule: vec_rep_storage)
    case null
    then show ?thesis using cp assms by (cases "e_ctor ty") (simp_all add: moveToRawNoOverlap_def)
  next
    case (cells cs)
    have "take off cs = map Obj (take off xs)"
      using cells(4) assms(2) by (metis min.absorb1 take_map take_take)
    then obtain ss' where "moveToRawNoOverlap ty (Cells (replicate k Raw)) 0 (Cells cs) 0 off
        = (NoError, write_cells (Cells (replicate k Raw)) 0 (map Obj (take off xs)), Cells ss')"
      "length ss' = length cs" "\<forall>j < length cs. j < 0 \<or> 0 + off \<le> j \<longrightarrow> ss' ! j = cs ! j"
      using moveToRaw_Obj [of "take off xs" off 0 cs 0 "replicate k Raw"] assms(2,3) by auto
    moreover from this have "drop off ss' = drop off cs"
      by (intro nth_equalityI) auto
    ultimately show ?thesis
      using cp cells assms(2,3) by (simp add: write_cells_Cells min_def)
  qed
qed

lemma vec_rep_newI:
  assumes "length xs = unat sz" "length xs \<le> unat n'"
  shows "vec_rep (v\<lparr>m_allocatedSize := n', m_p := Cells (map Obj xs @ replicate (unat n' - length xs) Raw),
           m_dataSize := sz\<rparr>) xs"
  using assms by (auto simp: vec_rep_def vec_cells_def)

lemma vec_rep_writeI:
  assumes "vec_rep v xs" "off \<le> length xs" "sz = of_nat (length zs)" "length zs \<le> unat (m_allocatedSize v)"
    and zs: "zs = take off xs @ ys @ drop (off + length ys) xs"
  shows "copyToRawNoOverlap ty (m_p v) off (map Obj ys) = (NoError, write_cells (m_p v) off (map Obj ys))
     \<and> vec_rep (v\<lparr>m_p := write_cells (m_p v) off (map Obj ys), m_dataSize := sz\<rparr>) zs"
  using assms(1)
proof (cases rule: vec_rep_storage)
  case null
  then show ?thesis
    using assms by (cases "e_ctor ty") (auto simp: copyToRawNoOverlap_def vec_rep_def vec_cells_def)
next
  case (cells cs)
  have lz: "length zs = max (length xs) (off + length ys)" using zs assms(2) by auto
  have room: "off + length ys \<le> length cs" using lz cells assms(4) by simp
  have lx: "length xs \<le> length cs" using vec_rep_length [OF assms(1)] cells by (simp add: vec_cells_def)
  have tk: "take off cs = map Obj (take off xs)"
    using cells(4) assms(2) by (metis min.absorb1 take_map take_take)
  have "take (length zs) (take off cs @ map Obj ys @ drop (off + length ys) cs) = map Obj zs"
  proof (cases "off + length ys \<le> length xs")
    case False
    then show ?thesis using zs tk assms(2) lx by (simp add: min_def)
  next
    case True
    have "take (length xs - (off + length ys)) (drop (off + length ys) cs)
        = drop (off + length ys) (take (length xs) cs)"
      by (simp add: drop_take)
    then show ?thesis using zs tk assms(2) lx True lz cells(4) by (simp add: drop_map)
  qed
  moreover have "length zs < 2 ^ 64"
    using assms(4) unsigned_less [of "m_allocatedSize v", where 'a = nat] by simp
  then have "unat sz = length zs" using assms(3) by (simp add: unat_of_nat_small)
  ultimately show ?thesis
    using cells room copyToRaw_Obj [of off ys cs]
    by (simp add: vec_rep_def vec_cells_def write_cells_Cells)
qed

lemma destroy_then_copy:
  assumes "vec_rep v xs" "off + m \<le> length xs" "m \<le> length ys" "off + length ys \<le> unat (m_allocatedSize v)"
  shows "copyToRawNoOverlap ty (destroyN ty (m_p v) off m) off (map Obj ys)
     = copyToRawNoOverlap ty (m_p v) off (map Obj ys)"
  using assms(1)
proof (cases rule: vec_rep_storage)
  case null
  then show ?thesis by (simp add: destroyN_def)
next
  case (cells cs)
  then have "off + length ys \<le> length cs" "off + m \<le> length cs"
    using assms vec_rep_length [OF assms(1)] by (auto simp: vec_cells_def)
  then show ?thesis
    using cells assms(3) copyToRaw_Obj [of off ys cs]
      copyToRaw_Obj [of off ys "take off cs @ replicate m Raw @ drop (off + m) cs"]
    by (cases m; cases ys) (auto simp: destroyN_def write_cells_def add.commute)
qed

lemma replace_ok:
  assumes "vec_rep v xs" "length ys = unat n" "unat offset \<le> length xs"
    and "fits ty (max (length xs) (unat offset + unat n))"
  shows "\<exists>st v' no'. vec_replace E ty v (Some ys) n offset no = (st, v', no') \<and>
     (st = NoError \<and> vec_rep v' (take (unat offset) xs @ ys @ drop (unat offset + unat n) xs)
        \<and> no' = offset + n
      \<or> st = ErrorNoMemory \<and> v' = v \<and> no' = no \<and> unat (m_allocatedSize v) < unat offset + unat n
         \<and> \<not> malloc_ok E ((offset + n) * of_nat (e_sizeof ty)))"
proof -
  let ?o = "unat offset" and ?n = "unat n"
  let ?zs = "take ?o xs @ ys @ drop (?o + ?n) xs"
  have lx: "length xs = unat (m_dataSize v)" using assms(1) by (simp add: vec_rep_def)
  have lz: "length ?zs = max (length xs) (?o + ?n)" using assms(2,3) by auto
  have b: "2 * max (length xs) (?o + ?n) < 2 ^ 64" using fits_bounds(1) [OF assms(4)] .
  have on: "unat (offset + n) = ?o + ?n" using b by (subst unat_add_exact) auto
  define nds where "nds = (if offset + n > m_dataSize v then offset + n else m_dataSize v)"
  have nds: "unat nds = max (length xs) (?o + ?n)"
    using on lx by (auto simp: nds_def word_less_nat_alt max_def)
  then have ndz: "nds = of_nat (length ?zs)" using lz by (simp flip: nds)
  have src: "array_cells (Some ys) n = Some (map Obj ys)"
    using assms(2) by (auto simp: array_cells_def unat_eq_zero)
  have guard: "\<not> offset > m_dataSize v" using assms(3) lx by (simp add: word_less_nat_alt)
  show ?thesis
  proof (cases "nds > m_allocatedSize v")
    case True
    then have big: "length xs \<le> ?o + ?n"
      using vec_rep_wf [OF assms(1)] nds lx
      by (cases "offset + n > m_dataSize v") (auto simp: nds_def vec_wf_def word_less_nat_alt word_le_nat_alt on)
    then have on2: "nds = offset + n" using nds on by (simp add: word_unat_eq_iff max_def)
    obtain p n' where a: "am_allocate E ty (m_AllocationManager v) nds = (p, n')"
      and p: "p = Null \<and> \<not> malloc_ok E (nds * of_nat (e_sizeof ty)) \<or> p = Cells (replicate (unat n') Raw) \<and> nds \<le> n'"
      using am_allocate_cells [of nds E "m_AllocationManager v"] assms(4) nds by auto
    from p show ?thesis
    proof
      assume "p = Null \<and> \<not> malloc_ok E (nds * of_nat (e_sizeof ty))"
      moreover from this have "vec_replace E ty v (Some ys) n offset no = (ErrorNoMemory, v, no)"
        using True a guard by (simp add: vec_replace_def Let_def nds_def)
      ultimately show ?thesis using True on on2 by (simp add: word_less_nat_alt)
    next
      assume q: "p = Cells (replicate (unat n') Raw) \<and> nds \<le> n'"
      then have k: "?o + length ys \<le> unat n'" using nds assms(2) by (simp add: word_le_nat_alt)
      obtain old where mv: "moveToRawNoOverlap ty (Cells (replicate (unat n') Raw)) 0 (m_p v) 0 ?o
         = (NoError, Cells (map Obj (take ?o xs) @ replicate (unat n' - ?o) Raw), old)"
        and cp: "copyToRawNoOverlap ty (Cells (map Obj (take ?o xs) @ replicate (unat n' - ?o) Raw)) ?o (map Obj ys)
         = (NoError, Cells (map Obj (take ?o xs @ ys) @ replicate (unat n' - ?o - length ys) Raw))"
        using rebuild_front [OF assms(1,3) k] by (elim exE conjE) (rule that)
      have z: "?zs = take ?o xs @ ys" using big by simp
      have "vec_replace E ty v (Some ys) n offset no = (NoError, v\<lparr>m_allocatedSize := n',
          m_p := Cells (map Obj ?zs @ replicate (unat n' - length ?zs) Raw), m_dataSize := nds\<rparr>, offset + n)"
        using True a q mv cp guard src assms(2,3) z
        by (simp add: vec_replace_def Let_def nds_def [symmetric] copyToRaw_from_def)
      moreover have "vec_rep (v\<lparr>m_allocatedSize := n',
          m_p := Cells (map Obj ?zs @ replicate (unat n' - length ?zs) Raw), m_dataSize := nds\<rparr>) ?zs"
        using q nds lz by (intro vec_rep_newI) (simp_all add: word_le_nat_alt)
      ultimately show ?thesis by blast
    qed
  next
    case False
    let ?r = "if n \<ge> m_dataSize v - offset then m_dataSize v - offset else n"
    have "unat (m_dataSize v - offset) = length xs - ?o"
      using guard lx by (simp add: unat_sub not_less)
    then have ur: "unat ?r = min ?n (length xs - ?o)" by (simp add: word_le_nat_alt min_def)
    have room: "length ?zs \<le> unat (m_allocatedSize v)"
      using False nds lz by (simp add: word_less_nat_alt not_less)
    have w: "copyToRawNoOverlap ty (m_p v) ?o (map Obj ys) = (NoError, write_cells (m_p v) ?o (map Obj ys))
        \<and> vec_rep (v\<lparr>m_p := write_cells (m_p v) ?o (map Obj ys), m_dataSize := nds\<rparr>) ?zs"
      using room ndz assms(2,3) by (intro vec_rep_writeI [OF assms(1)]) simp_all
    have "copyToRawNoOverlap ty (destroyN ty (m_p v) ?o (unat ?r)) ?o (map Obj ys)
        = copyToRawNoOverlap ty (m_p v) ?o (map Obj ys)"
      using ur assms(2,3) room lz by (intro destroy_then_copy [OF assms(1)]) simp_all
    moreover have "nds \<ge> m_dataSize v" by (auto simp: nds_def)
    ultimately have "vec_replace E ty v (Some ys) n offset no
        = (NoError, v\<lparr>m_p := write_cells (m_p v) ?o (map Obj ys), m_dataSize := nds\<rparr>, offset + n)"
      using False guard src w
      by (simp add: vec_replace_def Let_def nds_def [symmetric] copyToRaw_from_def)
    then show ?thesis using w by blast
  qed
qed

lemma insert_grow_eval:
  assumes "\<not> offset > m_dataSize v" "m_dataSize v + n > m_allocatedSize v"
    and "am_allocate E ty (m_AllocationManager v) (m_dataSize v + n) = (p, n')" "\<not> is_Null p"
    and "moveToRawNoOverlap ty p 0 (m_p v) 0 (unat offset) = (NoError, q1, old1)"
    and "copyToRaw_from ty q1 (unat offset) (array_cells (Some ys) n) = (NoError, q2)"
    and "(if offset \<noteq> m_dataSize v
          then moveToRawNoOverlap ty q2 (unat (offset + n)) old1 (unat offset) (unat (m_dataSize v - offset))
          else (NoError, q2, old1)) = (NoError, q3, old3)"
  shows "vec_insert E ty v (Some ys) n offset no
     = (NoError, v\<lparr>m_allocatedSize := n', m_p := q3, m_dataSize := m_dataSize v + n\<rparr>, offset + n)"
  using assms by (simp add: vec_insert_def Let_def split: if_splits)

lemma insert_grow:
  assumes r: "vec_rep v xs" and ys: "length ys = unat n" and o: "unat offset \<le> length xs"
    and f: "fits ty (length xs + unat n)" and g: "m_dataSize v + n > m_allocatedSize v"
  shows "\<exists>st v' no'. vec_insert E ty v (Some ys) n offset no = (st, v', no') \<and>
     (st = NoError \<and> vec_rep v' (take (unat offset) xs @ ys @ drop (unat offset) xs) \<and> no' = offset + n
      \<or> st = ErrorNoMemory \<and> v' = v \<and> no' = no \<and> unat (m_allocatedSize v) < length xs + unat n
         \<and> \<not> malloc_ok E ((m_dataSize v + n) * of_nat (e_sizeof ty)))"
proof -
  let ?o = "unat offset" and ?n = "unat n"
  let ?zs = "take ?o xs @ ys @ drop ?o xs"
  have lx: "length xs = unat (m_dataSize v)" using r by (simp add: vec_rep_def)
  have lz: "length ?zs = length xs + ?n" using ys o by simp
  have b: "2 * (length xs + ?n) < 2 ^ 64" using fits_bounds(1) [OF f] .
  have on: "unat (offset + n) = ?o + ?n" using b o by (subst unat_add_exact) simp_all
  have nds: "unat (m_dataSize v + n) = length xs + ?n"
    using b lx by (subst unat_add_exact) simp_all
  have src: "array_cells (Some ys) n = Some (map Obj ys)"
    using ys by (auto simp: array_cells_def unat_eq_zero)
  have guard: "\<not> offset > m_dataSize v" using o lx by (simp add: word_less_nat_alt)
  have right: "unat (m_dataSize v - offset) = length xs - ?o"
    using guard lx by (simp add: unat_sub not_less)
  obtain p n' where a: "am_allocate E ty (m_AllocationManager v) (m_dataSize v + n) = (p, n')"
    and p: "p = Null \<and> \<not> malloc_ok E ((m_dataSize v + n) * of_nat (e_sizeof ty)) \<or> p = Cells (replicate (unat n') Raw) \<and> m_dataSize v + n \<le> n'"
    using am_allocate_cells [of "m_dataSize v + n" E "m_AllocationManager v"] f nds by auto
  from p show ?thesis
  proof
    assume "p = Null \<and> \<not> malloc_ok E ((m_dataSize v + n) * of_nat (e_sizeof ty))"
    then show ?thesis using g a guard nds by (simp add: vec_insert_def Let_def word_less_nat_alt)
  next
    assume q: "p = Cells (replicate (unat n') Raw) \<and> m_dataSize v + n \<le> n'"
    then have pq: "p = Cells (replicate (unat n') Raw)" and k: "length xs + ?n \<le> unat n'"
      using nds by (auto simp: word_le_nat_alt)
    then have k': "?o + length ys \<le> unat n'" using o ys by simp
    let ?q2 = "Cells (map Obj (take ?o xs @ ys) @ replicate (unat n' - ?o - length ys) Raw)"
    obtain old where mv: "moveToRawNoOverlap ty (Cells (replicate (unat n') Raw)) 0 (m_p v) 0 ?o
       = (NoError, Cells (map Obj (take ?o xs) @ replicate (unat n' - ?o) Raw), old)"
      and cp: "copyToRawNoOverlap ty (Cells (map Obj (take ?o xs) @ replicate (unat n' - ?o) Raw)) ?o (map Obj ys)
       = (NoError, ?q2)"
      and old: "\<And>cs. m_p v = Cells cs \<Longrightarrow> \<exists>cs'. old = Cells cs' \<and> length cs' = length cs \<and> drop ?o cs' = drop ?o cs"
      using rebuild_front [OF r o k'] by (elim exE conjE) (rule that, simp_all)
    have third: "\<exists>old3. (if offset \<noteq> m_dataSize v
          then moveToRawNoOverlap ty ?q2 (unat (offset + n)) old ?o (unat (m_dataSize v - offset))
          else (NoError, ?q2, old)) = (NoError, Cells (map Obj ?zs @ replicate (unat n' - length ?zs) Raw), old3)"
    proof (cases "offset = m_dataSize v")
      case True
      then show ?thesis using lx ys by simp
    next
      case False
      then have "xs \<noteq> []" "?o < length xs" using o lx by (auto simp: word_unat_eq_iff)
      then obtain cs where cs: "m_p v = Cells cs" "take (length xs) cs = map Obj xs"
        using r by (auto elim: vec_rep_storage)
      obtain cs' where cs': "old = Cells cs'" "drop ?o cs' = drop ?o cs" using old [OF cs(1)] by blast
      have "take (length xs - ?o) (drop ?o cs') = map Obj (drop ?o xs)"
        using cs'(2) cs(2) by (metis drop_map drop_take)
      then show ?thesis
        using False on right k ys o cs'(1)
          moveToRaw_Obj [of "drop ?o xs" "length xs - ?o" ?o cs' "?o + ?n"
            "map Obj (take ?o xs @ ys) @ replicate (unat n' - ?o - length ys) Raw"]
        by (auto simp: write_cells_Cells min_def)
    qed
    then obtain old3 where t: "(if offset \<noteq> m_dataSize v
          then moveToRawNoOverlap ty ?q2 (unat (offset + n)) old ?o (unat (m_dataSize v - offset))
          else (NoError, ?q2, old)) = (NoError, Cells (map Obj ?zs @ replicate (unat n' - length ?zs) Raw), old3)"
      by blast
    have "vec_insert E ty v (Some ys) n offset no = (NoError, v\<lparr>m_allocatedSize := n',
        m_p := Cells (map Obj ?zs @ replicate (unat n' - length ?zs) Raw), m_dataSize := m_dataSize v + n\<rparr>, offset + n)"
      using cp src by (intro insert_grow_eval [OF guard g a _ mv [folded pq] _ t]) (simp_all add: pq copyToRaw_from_def)
    moreover have "vec_rep (v\<lparr>m_allocatedSize := n',
        m_p := Cells (map Obj ?zs @ replicate (unat n' - length ?zs) Raw), m_dataSize := m_dataSize v + n\<rparr>) ?zs"
      using k nds lz by (intro vec_rep_newI) simp_all
    ultimately show ?thesis by blast
  qed
qed

lemma insert_shift:
  assumes r: "vec_rep v xs" and o: "off \<le> length xs" and n: "0 < length ys"
    and room: "length xs + length ys \<le> unat (m_allocatedSize v)"
  shows "\<exists>q. (if off \<noteq> length xs
          then moveToDirty ty (m_p v) (off + length ys) dirty off (length xs - off)
          else (NoError, m_p v)) = (NoError, q)
     \<and> copyToRawNoOverlap ty q off (map Obj ys) = (NoError, write_cells q off (map Obj ys))
     \<and> vec_rep (v\<lparr>m_p := write_cells q off (map Obj ys), m_dataSize := m_dataSize v + of_nat (length ys)\<rparr>)
         (take off xs @ ys @ drop off xs)"
  using r
proof (cases rule: vec_rep_storage)
  case null
  then show ?thesis using room n by simp
next
  case (cells cs)
  let ?zs = "take off xs @ ys @ drop off xs"
  have lx: "length xs \<le> length cs" using vec_rep_length [OF r] cells by (simp add: vec_cells_def)
  have b: "length xs + length ys < 2 ^ 64"
    using room unsigned_less [of "m_allocatedSize v", where 'a = nat] by simp
  have sz: "unat (m_dataSize v + of_nat (length ys)) = length ?zs"
    using b cells(3) o by (subst unat_add_of_nat) simp_all
  have nth: "cs ! j = Obj (xs ! j)" if "j < length xs" for j
    using arg_cong [OF cells(4), of "\<lambda>l. l ! j"] that lx by simp
  have "\<exists>cs'. (if off \<noteq> length xs
          then moveToDirty ty (Cells cs) (off + length ys) dirty off (length xs - off)
          else (NoError, Cells cs)) = (NoError, Cells cs')
      \<and> moved cs (off + length ys) off (length xs - off) (\<lambda>i. xs ! (off + i)) cs'"
    using moveToDirty_Obj [of off "off + length ys" "length xs - off" cs "\<lambda>i. xs ! (off + i)" dirty]
      nth n o room cells(2) by (cases "off = length xs") (auto simp: moved_def)
  then obtain cs' where mv: "(if off \<noteq> length xs
          then moveToDirty ty (Cells cs) (off + length ys) dirty off (length xs - off)
          else (NoError, Cells cs)) = (NoError, Cells cs')"
      and m: "moved cs (off + length ys) off (length xs - off) (\<lambda>i. xs ! (off + i)) cs'"
    by blast
  have l': "length cs' = length cs" using m by (simp add: moved_def)
  have fits': "off + length ys \<le> length cs'" using l' room o cells(2) by simp
  obtain ds where w: "write_cells (Cells cs') off (map Obj ys) = Cells ds" and ld: "length ds = length cs'"
    and ds: "\<And>j. j < length cs' \<Longrightarrow>
        ds ! j = (if off \<le> j \<and> j < off + length ys then map Obj ys ! (j - off) else cs' ! j)"
    using write_cells_nth [of off "map Obj ys" cs'] fits' by auto
  have "take (length ?zs) ds = map Obj ?zs"
  proof (rule nth_equalityI)
    show "length (take (length ?zs) ds) = length (map Obj ?zs)"
      using ld l' room cells(2) o by simp
  next
    fix j
    assume "j < length (take (length ?zs) ds)"
    then have j: "j < length xs + length ys" "j < length cs'"
      using ld o by auto
    consider (a) "j < off" | (b) "off \<le> j" "j < off + length ys" | (c) "off + length ys \<le> j"
      by linarith
    then show "take (length ?zs) ds ! j = map Obj ?zs ! j"
    proof cases
      case a
      then have "cs' ! j = cs ! j" using m j l' by (simp add: moved_def)
      then show ?thesis using a j ds nth o ld by (simp add: nth_append)
    next
      case b
      then have "j - off < length ys" by simp
      then show ?thesis using b j ds o ld by (simp add: nth_append)
    next
      case c
      then obtain i where i: "j = off + length ys + i" using le_Suc_ex by blast
      then have "cs' ! j = Obj (xs ! (off + i))" using m j o by (simp add: moved_def)
      then show ?thesis using i j ds o ld by (simp add: nth_append)
    qed
  qed
  then have "vec_rep (v\<lparr>m_p := Cells ds, m_dataSize := m_dataSize v + of_nat (length ys)\<rparr>) ?zs"
    using sz ld l' cells(2) by (simp add: vec_rep_def vec_cells_def)
  then show ?thesis
    using mv w cells(1) copyToRaw_Obj [OF fits'] by auto
qed

lemma insert_ok:
  assumes r: "vec_rep v xs" and ys: "length ys = unat n" and o: "unat offset \<le> length xs"
    and f: "fits ty (length xs + unat n)"
  shows "\<exists>st v' no'. vec_insert E ty v (Some ys) n offset no = (st, v', no') \<and>
     (st = NoError \<and> vec_rep v' (take (unat offset) xs @ ys @ drop (unat offset) xs) \<and> no' = offset + n
      \<or> st = ErrorNoMemory \<and> v' = v \<and> no' = no \<and> unat (m_allocatedSize v) < length xs + unat n
         \<and> \<not> malloc_ok E ((m_dataSize v + n) * of_nat (e_sizeof ty)))"
proof (cases "m_dataSize v + n > m_allocatedSize v")
  case True
  then show ?thesis by (rule insert_grow [OF r ys o f])
next
  case False
  have lx: "length xs = unat (m_dataSize v)" using r by (simp add: vec_rep_def)
  have b: "2 * (length xs + unat n) < 2 ^ 64" using fits_bounds(1) [OF f] .
  have on: "unat (offset + n) = unat offset + length ys" using b o ys by (subst unat_add_exact) simp_all
  have nds: "unat (m_dataSize v + n) = length xs + unat n"
    using b lx by (subst unat_add_exact) simp_all
  have guard: "\<not> offset > m_dataSize v" using o lx by (simp add: word_less_nat_alt)
  have right: "unat (m_dataSize v - offset) = length xs - unat offset"
    using guard lx by (simp add: unat_sub not_less)
  have off: "offset \<noteq> m_dataSize v \<longleftrightarrow> unat offset \<noteq> length xs"
    using lx by (simp add: word_unat_eq_iff)
  show ?thesis
  proof (cases "n = 0")
    case True
    then show ?thesis using False guard ys r by (auto simp: vec_insert_def Let_def)
  next
    case n0: False
    then have pos: "0 < length ys" using ys by (simp add: unat_gt_0)
    have n: "of_nat (length ys) = n" using ys by simp
    have room: "length xs + length ys \<le> unat (m_allocatedSize v)"
      using False nds ys by (simp add: word_less_nat_alt not_less)
    have src: "array_cells (Some ys) n = Some (map Obj ys)"
      using ys by (auto simp: array_cells_def unat_eq_zero)
    obtain q where mv: "(if unat offset \<noteq> length xs
          then moveToDirty ty (m_p v) (unat offset + length ys) (unat (m_dataSize v)) (unat offset) (length xs - unat offset)
          else (NoError, m_p v)) = (NoError, q)"
      and cp: "copyToRawNoOverlap ty q (unat offset) (map Obj ys) = (NoError, write_cells q (unat offset) (map Obj ys))"
      and rep: "vec_rep (v\<lparr>m_p := write_cells q (unat offset) (map Obj ys), m_dataSize := m_dataSize v + of_nat (length ys)\<rparr>)
         (take (unat offset) xs @ ys @ drop (unat offset) xs)"
      using insert_shift [OF r o pos room, of "unat (m_dataSize v)"] by blast
    have gt: "m_dataSize v + n > m_dataSize v" using nds lx ys pos by (simp add: word_less_nat_alt)
    have "vec_insert E ty v (Some ys) n offset no = (NoError,
        v\<lparr>m_p := write_cells q (unat offset) (map Obj ys), m_dataSize := m_dataSize v + n\<rparr>, offset + n)"
      using False guard gt src mv cp on right off
      by (simp add: vec_insert_def Let_def copyToRaw_from_def split: if_splits)
    then show ?thesis using rep n by simp
  qed
qed

text \<open>
  Erasing. The elements behind the erased ones move to the front with
  \<open>moveToRawNoOverlap\<close>, and then their old places are destroyed: right when those places
  do not overlap the new ones, that is, when no more elements are behind the erased ones
  than are erased. Otherwise a raw type's elements are copied by a \<open>memcpy\<close> of
  overlapping regions, and a class's elements that have just moved are destroyed.
\<close>

lemma erase_ok:
  assumes r: "vec_rep v xs" and o: "unat offset < length xs" and n: "n \<noteq> 0"
    and d: "length xs \<le> unat offset + 2 * unat n"
  shows "\<exists>v'. vec_erase ty v offset n = (NoError, v')
     \<and> vec_rep v' (take (unat offset) xs @ drop (unat offset + unat n) xs)"
  using r
proof (cases rule: vec_rep_storage)
  case null
  then show ?thesis using o by simp
next
  case (cells cs)
  let ?o = "unat offset"
  define m where "m = (if offset + n > m_dataSize v \<or> offset + n < offset then m_dataSize v - offset else n)"
  have lx: "length xs \<le> length cs" using vec_rep_length [OF r] cells by (simp add: vec_cells_def)
  have oo: "\<not> (offset > m_dataSize v \<or> offset = m_dataSize v \<and> n \<noteq> 0)"
    using o cells(3) by (auto simp: word_less_nat_alt)
  have sub: "unat (m_dataSize v - offset) = length xs - ?o"
    using o cells(3) by (simp add: unat_sub word_le_nat_alt)
  have um: "unat m = min (unat n) (length xs - ?o)"
  proof (cases "?o + unat n < 2 ^ 64")
    case True
    then have "unat (offset + n) = ?o + unat n" by (subst unat_add_exact) simp_all
    then show ?thesis using sub o cells(3) by (auto simp: m_def word_less_nat_alt)
  next
    case False
    then have "offset + n < offset" by (simp add: add_wraps_iff not_less)
    moreover have "length xs < 2 ^ 64" using cells(3) unsigned_less [of "m_dataSize v", where 'a = nat] by simp
    ultimately show ?thesis using sub False by (simp add: m_def)
  qed
  then have mx: "?o + unat m \<le> length xs" using o by simp
  then have om: "unat (offset + m) = ?o + unat m"
    using unsigned_less [of "m_dataSize v", where 'a = nat] cells(3) by (subst unat_add_exact) simp_all
  have rn: "unat (m_dataSize v - (offset + m)) = length xs - (?o + unat m)"
    using mx om cells(3) by (simp add: unat_sub word_le_nat_alt)
  let ?k = "length xs - (?o + unat m)"
  have m0: "0 < unat m" using um n o by (simp add: unat_gt_0)
  have nth: "cs ! j = Obj (xs ! j)" if "j < length xs" for j
    using arg_cong [OF cells(4), of "\<lambda>l. l ! j"] that lx by simp
  obtain ds where ds: "destroyN ty (Cells cs) ?o (unat m) = Cells ds" "length ds = length cs"
    "\<And>j. j < length cs \<Longrightarrow> ds ! j = (if e_ctor ty \<and> ?o \<le> j \<and> j < ?o + unat m then Raw else cs ! j)"
    using destroyN_nth [of ?o "unat m" cs ty] mx lx by auto
  have km: "?k \<le> unat m" using d um by auto
  have "\<exists>es. moveToRawNoOverlap_within ty (Cells ds) ?o (?o + unat m) ?k = (NoError, Cells es)
      \<and> moved ds ?o (?o + unat m) ?k (\<lambda>i. xs ! (?o + unat m + i)) es"
  proof (cases "e_ctor ty")
    case True
    then show ?thesis
      using forward_loop_Obj [of ?o "?o + unat m" ?k ds "\<lambda>i. xs ! (?o + unat m + i)" 0 ?o] ds nth m0 mx lx
      by (auto simp: moveToRawNoOverlap_within_def)
  next
    case False
    have "\<not> areRegionsOverlap ?o (?o + unat m) ?k" using km by (auto simp: areRegionsOverlap_iff)
    then show ?thesis
      using memmove_moved [of "?o + unat m" ?k ds ?o "\<lambda>i. xs ! (?o + unat m + i)"] False ds nth mx lx
      by (auto simp: moveToRawNoOverlap_within_def memcpy_within_def)
  qed
  then obtain es where es: "moveToRawNoOverlap_within ty (Cells ds) ?o (?o + unat m) ?k = (NoError, Cells es)"
    and me: "moved ds ?o (?o + unat m) ?k (\<lambda>i. xs ! (?o + unat m + i)) es"
    by blast
  have le: "length es = length cs" using me ds(2) by (simp add: moved_def)
  obtain fs where fs: "destroyN ty (Cells es) (?o + unat m) ?k = Cells fs" "length fs = length cs"
    "\<And>j. j < length cs \<Longrightarrow> fs ! j = (if e_ctor ty \<and> ?o + unat m \<le> j \<and> j < ?o + unat m + ?k then Raw else es ! j)"
    using destroyN_nth [of "?o + unat m" ?k es ty] mx lx le by auto
  let ?zs = "take ?o xs @ drop (?o + unat m) xs"
  have lz: "length ?zs = ?o + ?k" using o by simp
  have "take (length ?zs) fs = map Obj ?zs"
  proof (rule nth_equalityI)
    show "length (take (length ?zs) fs) = length (map Obj ?zs)" using fs(2) lz lx mx by simp
  next
    fix j
    assume "j < length (take (length ?zs) fs)"
    then have j: "j < ?o + ?k" "j < length cs" using fs(2) lz by auto
    then have f: "fs ! j = es ! j" using fs(3) km by simp
    show "take (length ?zs) fs ! j = map Obj ?zs ! j"
    proof (cases "j < ?o")
      case True
      then have "es ! j = cs ! j" using me j ds(2,3) m0 by (simp add: moved_def)
      then show ?thesis using True f nth j lz fs(2) o by (simp add: nth_append)
    next
      case False
      then obtain i where i: "j = ?o + i" using le_Suc_ex not_less by blast
      then have "es ! j = Obj (xs ! (?o + unat m + i))" using me j by (simp add: moved_def)
      then show ?thesis using i f j lz fs(2) o by (simp add: nth_append)
    qed
  qed
  moreover have "unat (offset + (m_dataSize v - (offset + m))) = length ?zs"
    using rn lz mx o cells(3) unsigned_less [of "m_dataSize v", where 'a = nat] by (subst unat_add_exact) simp_all
  ultimately have "vec_rep (v\<lparr>m_p := Cells fs, m_dataSize := offset + (m_dataSize v - (offset + m))\<rparr>) ?zs"
    using fs(2) cells(2) by (simp add: vec_rep_def vec_cells_def)
  moreover have "vec_erase ty v offset n
      = (NoError, v\<lparr>m_p := Cells fs, m_dataSize := offset + (m_dataSize v - (offset + m))\<rparr>)"
    using oo n ds(1) es fs(1) om rn cells(1)
    by (simp add: vec_erase_def Let_def m_def [symmetric])
  moreover have "?zs = take ?o xs @ drop (?o + unat n) xs"
    using um by (auto simp: min_def)
  ultimately show ?thesis by metis
qed

text \<open>The other case: what is left is no vector of any elements.\<close>

lemma erase_overlapping:
  assumes r: "vec_rep v xs" and n: "n \<noteq> 0" and d: "unat offset + 2 * unat n < length xs"
  shows "\<exists>v'. vec_erase ty v offset n = (NoError, v') \<and> m_dataSize v' = m_dataSize v - n \<and> (\<forall>zs. \<not> vec_rep v' zs)"
  using r
proof (cases rule: vec_rep_storage)
  case null
  then show ?thesis using d by simp
next
  case (cells cs)
  let ?o = "unat offset" and ?n = "unat n"
  let ?k = "length xs - (?o + ?n)"
  have lx: "length xs \<le> length cs" using vec_rep_length [OF r] cells by (simp add: vec_cells_def)
  have b: "length xs < 2 ^ 64" using cells(3) unsigned_less [of "m_dataSize v", where 'a = nat] by simp
  have on: "unat (offset + n) = ?o + ?n" using b d by (subst unat_add_exact) simp_all
  have oo: "\<not> (offset > m_dataSize v \<or> offset = m_dataSize v \<and> n \<noteq> 0)"
    and m: "\<not> (offset + n > m_dataSize v \<or> offset + n < offset)"
    using d cells(3) on by (auto simp: word_less_nat_alt)
  have rn: "unat (m_dataSize v - (offset + n)) = ?k"
    using d on cells(3) by (simp add: unat_sub word_le_nat_alt)
  have sz: "offset + (m_dataSize v - (offset + n)) = m_dataSize v - n" by simp
  have n0: "0 < ?n" using n by (simp add: unat_gt_0)
  have nth: "cs ! j = Obj (xs ! j)" if "j < length xs" for j
    using arg_cong [OF cells(4), of "\<lambda>l. l ! j"] that lx by simp
  obtain ds where ds: "destroyN ty (Cells cs) ?o ?n = Cells ds" "length ds = length cs"
    "\<And>j. j < length cs \<Longrightarrow> ds ! j = (if e_ctor ty \<and> ?o \<le> j \<and> j < ?o + ?n then Raw else cs ! j)"
    using destroyN_nth [of ?o ?n cs ty] d lx by auto
  have run: "vec_erase ty v offset n = (NoError, v\<lparr>m_p := destroyN ty q (?o + ?n) ?k, m_dataSize := m_dataSize v - n\<rparr>)"
    if "moveToRawNoOverlap_within ty (Cells ds) ?o (?o + ?n) ?k = (NoError, q)" for q
    using oo n m ds(1) that on rn cells(1) sz by (simp add: vec_erase_def Let_def)
  show ?thesis
  proof (cases "e_ctor ty")
    case False
    have "areRegionsOverlap ?o (?o + ?n) ?k" using d n0 by (auto simp: areRegionsOverlap_iff)
    then have "moveToRawNoOverlap_within ty (Cells ds) ?o (?o + ?n) ?k = (NoError, Corrupt)"
      using False by (simp add: moveToRawNoOverlap_within_def memcpy_within_def)
    then show ?thesis using run False by (simp add: destroyN_def vec_rep_def)
  next
    case True
    have "length xs - ?n \<le> length cs" using lx by simp
    then have "\<exists>es. moveToRawNoOverlap_within ty (Cells ds) ?o (?o + ?n) ?k = (NoError, Cells es)
        \<and> moved ds ?o (?o + ?n) ?k (\<lambda>i. xs ! (?o + ?n + i)) es"
      using forward_loop_Obj [of ?o "?o + ?n" ?k ds "\<lambda>i. xs ! (?o + ?n + i)" 0 ?o] True ds nth n0 d lx
      by (auto simp: moveToRawNoOverlap_within_def)
    then obtain es where es: "moveToRawNoOverlap_within ty (Cells ds) ?o (?o + ?n) ?k = (NoError, Cells es)"
      and me: "moved ds ?o (?o + ?n) ?k (\<lambda>i. xs ! (?o + ?n + i)) es" by blast
    have le: "length es = length cs" using me ds(2) by (simp add: moved_def)
    obtain fs where fs: "destroyN ty (Cells es) (?o + ?n) ?k = Cells fs" "length fs = length cs"
      "\<And>j. j < length cs \<Longrightarrow> fs ! j = (if e_ctor ty \<and> ?o + ?n \<le> j \<and> j < ?o + ?n + ?k then Raw else es ! j)"
      using destroyN_nth [of "?o + ?n" ?k es ty] d lx le by auto
    have hole: "fs ! (?o + ?n) = Raw" using fs(3) True d lx by simp
    let ?v = "v\<lparr>m_p := Cells fs, m_dataSize := m_dataSize v - n\<rparr>"
    have us: "unat (m_dataSize v - n) = length xs - ?n"
      using d cells(3) by (simp add: unat_sub word_le_nat_alt)
    have "\<not> vec_rep ?v zs" for zs
    proof
      assume "vec_rep ?v zs"
      then have z: "length zs = length xs - ?n" "take (length zs) fs = map Obj zs"
        using us unfolding vec_rep_def vec_cells_def by auto
      then have "?o + ?n < length zs" using d by simp
      then have "fs ! (?o + ?n) = Obj (zs ! (?o + ?n))"
        using arg_cong [OF z(2), of "\<lambda>l. l ! (?o + ?n)"] by simp
      then show False using hole by simp
    qed
    then show ?thesis using run [OF es] fs(1) by auto
  qed
qed

section \<open>Copying out and comparing\<close>

lemma copy_dirty_loop_Obj:
  "off + length xs \<le> length cs \<Longrightarrow>
   copy_dirty_loop ty pStart dirty (Cells cs) off (map Obj xs) = (NoError, write_cells (Cells cs) off (map Obj xs))"
proof (induction xs arbitrary: cs off)
  case Nil
  then show ?case by simp
next
  case (Cons x xs)
  let ?cs = "cs[off := Obj x]"
  have IH: "copy_dirty_loop ty pStart dirty (Cells ?cs) (Suc off) (map Obj xs)
      = (NoError, write_cells (Cells ?cs) (Suc off) (map Obj xs))"
    using Cons.prems by (intro Cons.IH) simp
  have "take (Suc off) ?cs = take off cs @ [Obj x]"
    using Cons.prems by (simp add: take_Suc_conv_app_nth)
  then show ?case
    using Cons.prems IH
    by (auto simp: block_simps construct_copy_Obj)
qed

lemma copyN_ok:
  assumes r: "vec_rep v xs" and o: "unat offset < length xs" and n: "unat offset + unat n < 2 ^ 64"
    and k: "k = min (unat n) (length xs - unat offset)" "k \<le> length ds"
  shows "vec_copyN ty v offset n (Cells ds) no
     = (NoError, Cells (map Obj (take k (drop (unat offset) xs)) @ drop k ds), of_nat k)"
proof -
  have lx: "length xs = unat (m_dataSize v)" using r by (simp add: vec_rep_def)
  have guard: "\<not> (offset > m_dataSize v \<or> offset = m_dataSize v \<and> n \<noteq> 0)"
    using o lx by (auto simp: word_less_nat_alt)
  have sub: "unat (m_dataSize v - offset) = length xs - unat offset"
    using o lx by (simp add: unat_sub word_le_nat_alt)
  define nReal where "nReal = (if offset + n > m_dataSize v then m_dataSize v - offset else n)"
  have "unat (offset + n) = unat offset + unat n" using n by (subst unat_add_exact) simp_all
  then have un: "unat nReal = k" using sub lx o k(1) by (auto simp: nReal_def word_less_nat_alt)
  then have nk: "nReal = of_nat k" by (metis of_nat_unat ucast_id)
  let ?ys = "take k (drop (unat offset) xs)"
  have ly: "length ?ys = k" using k(1) by simp
  have rd: "read_cells (m_p v) (unat offset) (unat nReal) = Some (map Obj ?ys)"
    using vec_rep_read [OF r, of "unat offset" k] un k(1) o by simp
  have cp: "copyToDirtyNoOverlap ty (Cells ds) 0 k (map Obj ?ys)
      = (NoError, Cells (map Obj ?ys @ drop k ds))"
    using copy_dirty_loop_Obj [of 0 ?ys ds 0 k] ly k(2)
    by (auto simp: copyToDirtyNoOverlap_def write_cells_def simp del: length_take)
  show ?thesis
    using guard rd cp un nk by (simp add: vec_copyN_def Let_def nReal_def [symmetric])
qed

end

lemma eq_elements_Obj: "length xs = length ys \<Longrightarrow>
    eq_elements (\<lambda>x y. x \<noteq> y) (map Obj xs) (map Obj ys) = Some (xs = ys)"
  by (induction xs ys rule: list_induct2) simp_all

lemma vec_eq_ok:
  assumes "vec_rep v xs" "vec_rep w ys"
  shows "vec_eq (\<lambda>x y. x \<noteq> y) v w = Some (xs = ys)"
proof (cases "m_dataSize v = m_dataSize w")
  case True
  then have "length xs = length ys" "length xs = unat (m_dataSize v)"
    using assms by (simp_all add: vec_rep_def)
  then show ?thesis
    using vec_rep_read [OF assms(1), of 0 "length xs"] vec_rep_read [OF assms(2), of 0 "length ys"] True
    by (simp add: vec_eq_def vec_eq_by_def vec_size_def eq_elements_Obj)
next
  case False
  then have "xs \<noteq> ys" using assms by (auto simp: vec_rep_def word_unat_eq_iff)
  then show ?thesis using False by (simp add: vec_eq_def vec_eq_by_def vec_size_def)
qed

section \<open>Octet vectors\<close>

lemma fits_raw1 [simp]: "fits (raw_elem (Suc 0)) n \<longleftrightarrow> 2 * n < 2 ^ 64"
  by (simp add: fits_def raw_elem_def)

lemma pushBackArithmeticValue_ok:
  assumes r: "vec_rep v xs" and b: "length xs + length bs < 2 ^ 63"
  shows "\<exists>st v'. vec_pushBackArithmeticValue E v bs = (st, v') \<and>
     (st = NoError \<and> vec_rep v' (xs @ bs) \<and> m_AllocationManager v' = m_AllocationManager v
      \<or> st = ErrorNoMemory \<and> v' = v \<and> \<not> malloc_ok E (m_dataSize v + of_nat (length bs)))"
proof -
  let ?n = "of_nat (length bs) :: size_t"
  have n: "unat ?n = length bs" using b by (simp add: unat_of_nat_small)
  have "fits (raw_elem (Suc 0)) (length xs + unat ?n)" using b n by simp
  then obtain st v1 where
    a: "vec_addSpaceIfNeed E (raw_elem 1) v ?n = (st, v1)" and
    c: "st = NoError \<and> vec_rep v1 xs \<and> length xs + length bs \<le> unat (m_allocatedSize v1)
          \<and> m_AllocationManager v1 = m_AllocationManager v
      \<or> st = ErrorNoMemory \<and> v1 = v \<and> \<not> malloc_ok E (m_dataSize v + ?n)"
    using raw.addSpaceIfNeed_ok [OF r, of 0 ?n E] n by (auto simp: raw_elem_def)
  from c show ?thesis
  proof
    assume st: "st = NoError \<and> vec_rep v1 xs \<and> length xs + length bs \<le> unat (m_allocatedSize v1)
          \<and> m_AllocationManager v1 = m_AllocationManager v"
    then show ?thesis
      using a raw.vec_rep_append(2) [of v1 xs bs]
      by (auto simp: vec_pushBackArithmeticValue_def run_simps)
  next
    assume "st = ErrorNoMemory \<and> v1 = v \<and> \<not> malloc_ok E (m_dataSize v + ?n)"
    then show ?thesis using a by (simp add: vec_pushBackArithmeticValue_def run_simps)
  qed
qed

section \<open>Properties\<close>

text \<open>
  The element types are the plain one (\<open>raw_elem\<close>, copied with \<open>memcpy\<close>) and the class
  whose constructors do not fail (\<open>ctor_elem\<close>), of any positive size.
\<close>

text \<open>A vector of four-octet elements for the examples.\<close>

definition sample_vec :: "u32 list \<Rightarrow> u32 vec" where
  "sample_vec xs = \<lparr>m_p = Cells (map Obj xs), m_dataSize = of_nat (length xs), m_allocatedSize = of_nat (length xs),
     m_AllocationManager = GenericManager\<rparr>"

lemma sample_vec_rep: "length xs < 2 ^ 64 \<Longrightarrow> vec_rep (sample_vec xs) xs"
  by (simp add: vec_rep_def sample_vec_def vec_cells_def unat_of_nat take_bit_nat_eq_self)

lemma fits_sample: "n < 2 ^ 60 \<Longrightarrow> fits (raw_elem 4) n"
  by (simp add: fits_def raw_elem_def)

lemma raw4: "raw_elem 4 \<in> {raw_elem (Suc 3), ctor_elem (Suc 3) rest}"
  by simp

text \<open>
  \<open>Vector::pushBackN\<close> appends: on a vector that holds \<open>xs\<close> it ends with \<open>xs\<close> followed
  by the first \<open>n\<close> elements of the argument, or with \<open>ErrorNoMemory\<close> and the vector as it
  was, and the latter only when the allocator refused the request.
\<close>
lemma vector_pushBackN_appends:
  assumes "ty \<in> {raw_elem (Suc k), ctor_elem (Suc k) rest}"
    and "vec_rep v xs" "unat n \<le> length ys" "fits ty (length xs + unat n)"
  shows "\<exists>st v'. vec_pushBackN E ty v (Some ys) n = (st, v') \<and>
     (st = NoError \<and> vec_rep v' (xs @ take (unat n) ys) \<and> m_AllocationManager v' = m_AllocationManager v
      \<or> st = ErrorNoMemory \<and> v' = v \<and> \<not> malloc_ok E ((m_dataSize v + n) * of_nat (e_sizeof ty)))"
  using assms(2-) by (rule element_type.pushBackN_ok [OF ordinary_element [OF assms(1)]])

lemma vector_pushBackN_appends_witness:
  "\<exists>v'. vec_pushBackN sample_env (raw_elem 4) (sample_vec [1]) (Some [7, 8, 9]) 2 = (NoError, v')
     \<and> vec_rep v' [1, 7, 8]"
  using vector_pushBackN_appends [OF raw4 sample_vec_rep [of "[1]"], of 2 "[7, 8, 9]" "sample_env"]
  by (auto simp: fits_sample)





text \<open>
  \<open>Vector::erase\<close> of a non-empty range removes it, cut off at the end of the vector, as
  long as the part behind it is not longer than the range itself; otherwise source and
  destination of the move overlap, which the code does not provide for.
\<close>
lemma vector_erase_refines:
  assumes "ty \<in> {raw_elem (Suc k), ctor_elem (Suc k) rest}"
    and "vec_rep v xs" "unat offset < length xs" "n \<noteq> 0" "length xs \<le> unat offset + 2 * unat n"
  shows "\<exists>v'. vec_erase ty v offset n = (NoError, v')
     \<and> vec_rep v' (take (unat offset) xs @ drop (unat offset + unat n) xs)"
  using assms(2-) by (rule element_type.erase_ok [OF ordinary_element [OF assms(1)]])

lemma vector_erase_refines_witness:
  "\<exists>v'. vec_erase (raw_elem 4) (sample_vec [1, 2, 3, 4]) 1 2 = (NoError, v') \<and> vec_rep v' [1, 4]"
  using vector_erase_refines [OF raw4 sample_vec_rep [of "[1, 2, 3, 4]"], of 1 2]
  by simp

text \<open>
  C34: erasing a range with more elements behind it than it has itself destroys the vector. For
  plain and for class elements, at every offset, the call answers \<open>NoError\<close> and reduces the
  size, but the first cells of the block are not objects: \<open>memcpy\<close> copied overlapping regions, or
  elements that had just been moved forward were destroyed. (Where no more elements are
  behind the range than in it, \<open>erase\<close> is right: \<open>vector_erase_refines\<close>.)
\<close>
theorem vector_erase_overlap:
  assumes "ty \<in> {raw_elem (Suc k), ctor_elem (Suc k) rest}"
    and "vec_rep v xs" "n \<noteq> 0" "unat offset + 2 * unat n < length xs"
  shows "\<exists>v'. vec_erase ty v offset n = (NoError, v') \<and> m_dataSize v' = m_dataSize v - n \<and> (\<forall>zs. \<not> vec_rep v' zs)"
  using assms(2-) by (rule element_type.erase_overlapping [OF ordinary_element [OF assms(1)]])

theorem vector_erase_overlap_witness:
  "\<exists>v'. vec_erase (raw_elem 4) (sample_vec [1, 2, 3, 4, 5]) 1 1 = (NoError, v') \<and> m_dataSize v' = 4 \<and> (\<forall>zs. \<not> vec_rep v' zs)"
  using vector_erase_overlap [OF raw4 sample_vec_rep [of "[1, 2, 3, 4, 5]"], of 1 1] by (simp add: sample_vec_def)

text \<open>
  What the vector rejects, leaving itself and the reported offset as they were: a null
  pointer when elements are asked for (\<open>ErrorInvalidArgument\<close>), and an offset past the end
  (\<open>ErrorOverflow\<close>), for appending, overwriting, inserting, erasing and copying out.
\<close>
lemma vector_rejects_arguments:
  assumes "n \<noteq> 0" "m_dataSize v < offset"
  shows "vec_pushBackN E ty v None n = (ErrorInvalidArgument, v)
   \<and> vec_replace E ty v None n offset no = (ErrorInvalidArgument, v, no)
   \<and> vec_insert E ty v None n offset no = (ErrorInvalidArgument, v, no)
   \<and> vec_copyN ty v offset n Null no = (ErrorInvalidArgument, Null, no)
   \<and> vec_replace E ty v (Some ys) n offset no = (ErrorOverflow, v, no)
   \<and> vec_insert E ty v (Some ys) n offset no = (ErrorOverflow, v, no)
   \<and> vec_erase ty v offset n = (ErrorOverflow, v)
   \<and> vec_copyN ty v offset n (Cells cs) no = (ErrorOverflow, Cells cs, no)"
  using assms by (simp add: vec_pushBackN_def vec_replace_def vec_insert_def vec_copyN_def vec_erase_def)

lemma vector_rejects_arguments_witness:
  "vec_insert sample_env (raw_elem 4) (sample_vec [1, 2]) (Some [7]) 1 3 0 = (ErrorOverflow, sample_vec [1, 2], 0)"
  using vector_rejects_arguments [of 1 "sample_vec [1, 2]" 3 sample_env "raw_elem 4" 0 "[7]" "[]"]
  by (simp add: sample_vec_def)

text \<open>
  \<open>Vector::copyN\<close> copies the elements from the offset on, as many as there are up to the
  number asked for, over the first cells of the destination, and reports their number.
\<close>
lemma vector_copyN_reads:
  assumes "ty \<in> {raw_elem (Suc k), ctor_elem (Suc k) rest}"
    and "vec_rep v xs" "unat offset < length xs" "unat offset + unat n < 2 ^ 64"
    and "m = min (unat n) (length xs - unat offset)" "m \<le> length ds"
  shows "vec_copyN ty v offset n (Cells ds) no
     = (NoError, Cells (map Obj (take m (drop (unat offset) xs)) @ drop m ds), of_nat m)"
  using assms(2-) by (rule element_type.copyN_ok [OF ordinary_element [OF assms(1)]])

lemma vector_copyN_reads_witness:
  "vec_copyN (raw_elem 4) (sample_vec [1, 2, 3]) 1 9 (Cells [Raw, Raw, Raw]) 0 = (NoError, Cells [Obj 2, Obj 3, Raw], 2)"
proof -
  have "vec_rep (sample_vec [1, 2, 3]) [1, 2, 3]" "unat (1 :: size_t) < length [1, 2, 3 :: u32]"
    "unat (1 :: size_t) + unat (9 :: size_t) < 2 ^ 64"
    "Suc 1 = min (unat (9 :: size_t)) (length [1, 2, 3 :: u32] - unat (1 :: size_t))"
    "Suc 1 \<le> length [Raw, Raw, Raw :: u32 cell]"
    by (simp_all add: sample_vec_rep)
  from vector_copyN_reads [OF raw4 this, of 0] show ?thesis by simp
qed

text \<open>
  \<open>Vector::init\<close> makes the vector a copy of its argument, or empties it when there is no
  memory; from an argument it may move from, it takes the storage over and empties the argument.
\<close>
lemma vector_init_refines:
  assumes "ty \<in> {raw_elem (Suc k), ctor_elem (Suc k) rest}"
    and "vec_rep v xs" "vec_rep rhs ys" "fits ty (length ys)"
  shows "(\<exists>st v'. vec_init_copy E ty False v rhs = (st, v') \<and>
     (st = NoError \<and> vec_rep v' ys
      \<or> st = ErrorNoMemory \<and> vec_rep v' [] \<and> \<not> malloc_ok E (m_dataSize rhs * of_nat (e_sizeof ty))))
   \<and> (\<exists>v' rhs'. vec_init_move ty False v rhs = (NoError, v', rhs') \<and> vec_rep v' ys \<and> vec_rep rhs' [])"
  using element_type.init_copy_ok [OF ordinary_element [OF assms(1)] assms(2-4)]
    movable_type.init_move_ok [OF ordinary_movable [OF assms(1)] assms(3)] by blast

lemma vector_init_refines_witness:
  "\<exists>v'. vec_init_copy sample_env (raw_elem 4) False (sample_vec [1]) (sample_vec [2, 3]) = (NoError, v')
     \<and> vec_rep v' [2, 3]"
  using vector_init_refines [OF raw4 sample_vec_rep [of "[1]"] sample_vec_rep [of "[2, 3]"], of "sample_env"]
  by (auto simp: fits_sample)

text \<open>
  \<open>Vector::reserve\<close> and \<open>setSize\<close> keep the elements: after \<open>reserve\<close> there is room for
  \<open>n\<close>; after \<open>setSize\<close> the size is \<open>n\<close> and the elements that remain are the first ones; without
  memory both leave the vector as it was.
\<close>
lemma vector_reserve_setSize_keep:
  assumes "ty \<in> {raw_elem (Suc k), ctor_elem (Suc k) rest}"
    and "vec_rep v xs" "fits ty (unat n)"
  shows "(\<exists>st v'. vec_reserve E ty v n = (st, v') \<and>
     (st = NoError \<and> vec_rep v' xs \<and> n \<le> m_allocatedSize v'
      \<or> st = ErrorNoMemory \<and> v' = v \<and> m_allocatedSize v < n))
   \<and> (\<exists>st v'. vec_setSize E ty v n = (st, v') \<and>
     (st = NoError \<and> vec_wf v' \<and> m_dataSize v' = n
        \<and> take (length xs) (vec_cells v') = map Obj xs
        \<and> (unat n \<le> length xs \<longrightarrow> vec_rep v' (take (unat n) xs))
      \<or> st = ErrorNoMemory \<and> v' = v))"
  using movable_type.reserveInternal_ok [OF ordinary_movable [OF assms(1)] assms(2,3), of E True]
    element_type.setSize_ok [OF ordinary_element [OF assms(1)] assms(2,3), of E]
  unfolding vec_reserve_def by blast

lemma vector_reserve_setSize_keep_witness:
  "\<exists>st v'. vec_setSize sample_env (raw_elem 4) (sample_vec [1, 2, 3]) 2 = (st, v') \<and>
     (st = NoError \<and> vec_rep v' [1, 2] \<or> st = ErrorNoMemory \<and> v' = sample_vec [1, 2, 3])"
proof -
  have "vec_rep (sample_vec [1, 2, 3]) [1, 2, 3]" "fits (raw_elem 4) (unat (2 :: size_t))"
    by (simp_all add: sample_vec_rep fits_sample)
  from conjunct2 [OF vector_reserve_setSize_keep [OF raw4 this, of sample_env]]
  obtain st v' where "vec_setSize sample_env (raw_elem 4) (sample_vec [1, 2, 3]) 2 = (st, v')"
    and "st = NoError \<and> (unat (2 :: size_t) \<le> length [1, 2, 3 :: u32] \<longrightarrow> vec_rep v' (take (unat (2 :: size_t)) [1, 2, 3]))
      \<or> st = ErrorNoMemory \<and> v' = sample_vec [1, 2, 3]" by blast
  then show ?thesis by simp
qed

section \<open>Termination of the insertion of a range\<close>

lemma am_allocate_enough:
  assumes "am_allocate E ty m n = (p, n')" "\<not> is_Null p" "unat n < 2 ^ 63"
  shows "n \<le> n'"
proof -
  have "n \<le> push_bit 1 n"
    using assms(3) by (simp add: word_le_nat_alt push_bit_eq_mult unat_word_ariths)
  then show ?thesis
    using assms(1,2) by (cases m) (auto simp: generic_allocate_def strategic_allocate_def Let_def split: if_splits)
qed

lemma reserveInternal_enough:
  assumes "vec_reserveInternal E ty v n False = (st, v')" "statusSuccess st" "unat n < 2 ^ 63"
  shows "n \<le> m_allocatedSize v'"
  using assms
  by (auto simp: vec_reserveInternal_def not_less Let_def split: if_splits prod.splits dest: am_allocate_enough)

lemma take_to_temp_size: "take_to_temp E ty v temp i = (st, v', temp') \<Longrightarrow> m_allocatedSize v' = m_allocatedSize v"
  by (auto simp: take_to_temp_def Let_def split: option.splits list.splits prod.splits if_splits)

text \<open>An element takes one step, or two when the block has to grow for it.\<close>

lemma insert_range_loop_ends:
  assumes "unat cur + length xs < 2 ^ 63"
    and "2 * length xs \<le> fuel + of_bool (cur < m_allocatedSize v)"
  shows "insert_range_loop fuel E ty v temp cur xs \<noteq> None"
  using assms
proof (induction fuel arbitrary: v temp cur xs)
  case 0
  then have "xs = []" by (cases xs) (auto simp: of_bool_def split: if_splits)
  then show ?case by simp
next
  case (Suc fuel)
  show ?case
  proof (cases xs)
    case (Cons x ys)
    have c: "unat (cur + 1) = Suc (unat cur)"
      using Suc.prems(1) Cons by (simp add: unat_word_ariths)
    have fit: "unat (cur + 1) + length ys < 2 ^ 63" "unat (cur + 1) < 2 ^ 63" using Suc.prems(1) Cons c by simp_all
    show ?thesis
    proof (cases "cur < m_allocatedSize v")
      case True
      then have "2 * length ys \<le> fuel" using Suc.prems(2) Cons by simp
      then have "insert_range_loop fuel E ty v' temp' (cur + 1) ys \<noteq> None" for v' temp'
        using Suc.IH [OF fit(1)] by (meson le_add1 le_trans)
      then show ?thesis using True Cons by (simp add: Let_def split: prod.split)
    next
      case False
      have "insert_range_loop fuel E ty v' temp cur (x # ys) \<noteq> None"
        if "vec_reserveInternal E ty v (cur + 1) False = (st, v')" "statusSuccess st" for st v'
      proof -
        have "unat cur < unat (m_allocatedSize v')"
          using reserveInternal_enough [OF that fit(2)] c by (simp add: word_le_nat_alt)
        then show ?thesis
          using Suc.prems False Cons by (intro Suc.IH) (simp_all add: word_less_nat_alt)
      qed
      then show ?thesis using False Cons by (auto split: prod.split)
    qed
  qed simp
qed

text \<open>
  C27: inserting a range by iterators ends: with two iterations of its loop for every element of
  the range, one to make room and one to put the element, the insertion gives a result for every
  vector, element type, capacity strategy and outcome of the allocations, as long as the offset
  it reaches stays below \<open>2 ^ 63\<close> (doubling a greater one wraps around).
\<close>
theorem insert_range_terminates:
  assumes "unat (word_of_int (it_p destBegin) :: size_t) + length src < 2 ^ 63"
  shows "vec_insert_range (2 * length src) E ty dflt v src destBegin destEnd \<noteq> None"
proof -
  have "insert_range_loop (2 * length src) E ty v (empty_vec dflt) (word_of_int (it_p destBegin)) src \<noteq> None"
    using assms by (intro insert_range_loop_ends) simp_all
  then show ?thesis by (auto simp: vec_insert_range_def Let_def split: prod.split)
qed

theorem insert_range_terminates_witness:
  "vec_insert_range 6 sample_env (raw_elem 4 :: u32 elem) GenericManager (empty_vec GenericManager) [1, 2, 3] \<lparr>it_p = 0\<rparr> \<lparr>it_p = 0\<rparr> \<noteq> None"
  using insert_range_terminates [of "\<lparr>it_p = 0\<rparr>" "[1, 2, 3]"] by simp

end
