(* ===== verification/Walker.thy ===== *)
theory Walker
  imports VectorSpec
begin

text \<open>
  \<open>containers/Walker.h\<close>: a vector with a current offset. Writing replaces from the offset,
  reading copies from it; both advance it.
\<close>

record 'a walker =
  m_vector :: "'a vec"
  m_offset :: size_t

definition empty_walker :: "manager \<Rightarrow> 'a walker" where
  "empty_walker am = \<lparr>m_vector = empty_vec am, m_offset = 0\<rparr>"

definition walker_size :: "'a walker \<Rightarrow> size_t" where
  "walker_size w = vec_size (m_vector w)"

definition walker_tell :: "'a walker \<Rightarrow> size_t" where
  "walker_tell w = m_offset w"

definition walker_setValidOffset :: "'a walker \<Rightarrow> size_t \<Rightarrow> 'a walker" where
  "walker_setValidOffset w offset =
     w\<lparr>m_offset := (if offset < walker_size w then offset else walker_size w)\<rparr>"

definition walker_seek :: "'a walker \<Rightarrow> size_t \<Rightarrow> status \<times> 'a walker" where
  "walker_seek w offset =
     (if offset \<le> walker_size w then NoError else ErrorOverflow, walker_setValidOffset w offset)"

section \<open>Initialisation\<close>

definition walker_init_copy :: "env \<Rightarrow> 'a elem \<Rightarrow> bool \<Rightarrow> 'a walker \<Rightarrow> 'a walker \<Rightarrow> status \<times> 'a walker" where
  "walker_init_copy E ty same w rhs =
     (if \<not> same
      then run_as (\<lambda>v. w\<lparr>m_vector := v\<rparr>) (vec_init_copy E ty False (m_vector w) (m_vector rhs))
             (\<lambda>v. (NoError, w\<lparr>m_vector := v, m_offset := m_offset rhs\<rparr>))
      else (NoError, w))"

definition walker_init_move :: "'a elem \<Rightarrow> bool \<Rightarrow> 'a walker \<Rightarrow> 'a walker \<Rightarrow> status \<times> 'a walker \<times> 'a walker" where
  "walker_init_move ty same w rhs =
     (if \<not> same
      then (let (st, v, v') = vec_init_move ty False (m_vector w) (m_vector rhs)
            in if \<not> statusSuccess st then (st, w\<lparr>m_vector := v\<rparr>, rhs\<lparr>m_vector := v'\<rparr>)
               else (NoError, w\<lparr>m_vector := v, m_offset := m_offset rhs\<rparr>,
                     rhs\<lparr>m_vector := v', m_offset := 0\<rparr>))
      else (NoError, w, rhs))"

text \<open>From a vector, copied or moved; \<open>same\<close> says that it is the walker's own.\<close>

definition walker_init_vector :: "env \<Rightarrow> 'a elem \<Rightarrow> bool \<Rightarrow> 'a walker \<Rightarrow> 'a vec \<Rightarrow> status \<times> 'a walker" where
  "walker_init_vector E ty same w rhs =
     (if \<not> same
      then run_as (\<lambda>v. w\<lparr>m_vector := v\<rparr>) (vec_init_copy E ty False (m_vector w) rhs)
             (\<lambda>v. (NoError, w\<lparr>m_vector := v, m_offset := 0\<rparr>))
      else (NoError, w))"

definition walker_init_vector_move :: "'a elem \<Rightarrow> bool \<Rightarrow> 'a walker \<Rightarrow> 'a vec \<Rightarrow> status \<times> 'a walker \<times> 'a vec" where
  "walker_init_vector_move ty same w rhs =
     (if \<not> same
      then (let (st, v, v') = vec_init_move ty False (m_vector w) rhs
            in if \<not> statusSuccess st then (st, w\<lparr>m_vector := v\<rparr>, v')
               else (NoError, w\<lparr>m_vector := v, m_offset := 0\<rparr>, v'))
      else (NoError, w, rhs))"

section \<open>Appending and room\<close>

text \<open>The offset goes to the end of the vector whatever the status of the call is.\<close>

definition to_end :: "'a walker \<Rightarrow> status \<times> 'a vec \<Rightarrow> status \<times> 'a walker" where
  "to_end w r = (fst r, w\<lparr>m_vector := snd r, m_offset := vec_size (snd r)\<rparr>)"

definition walker_setSize :: "env \<Rightarrow> 'a elem \<Rightarrow> 'a walker \<Rightarrow> size_t \<Rightarrow> status \<times> 'a walker" where
  "walker_setSize E ty w n = to_end w (vec_setSize E ty (m_vector w) n)"

definition walker_reserve :: "env \<Rightarrow> 'a elem \<Rightarrow> 'a walker \<Rightarrow> size_t \<Rightarrow> status \<times> 'a walker" where
  "walker_reserve E ty w n =
     (let (st, v) = vec_reserve E ty (m_vector w) n in (st, w\<lparr>m_vector := v\<rparr>))"

definition walker_reserve_from_current_offset ::
    "env \<Rightarrow> 'a elem \<Rightarrow> 'a walker \<Rightarrow> size_t \<Rightarrow> status \<times> 'a walker" where
  "walker_reserve_from_current_offset E ty w n =
     (if m_offset w + n < m_offset w then (ErrorOverflow, w)
      else walker_reserve E ty w (m_offset w + n))"

definition walker_pushBack :: "env \<Rightarrow> 'a elem \<Rightarrow> 'a walker \<Rightarrow> 'a \<Rightarrow> status \<times> 'a walker" where
  "walker_pushBack E ty w value = to_end w (vec_pushBack E ty (m_vector w) value)"

definition walker_pushBack_move :: "env \<Rightarrow> 'a elem \<Rightarrow> 'a walker \<Rightarrow> 'a cell \<Rightarrow> (status \<times> 'a walker) \<times> 'a storage" where
  "walker_pushBack_move E ty w value =
     (let (st, v, c) = vec_pushBack_move E ty (m_vector w) value in (to_end w (st, v), c))"

definition walker_pushBackN :: "env \<Rightarrow> 'a elem \<Rightarrow> 'a walker \<Rightarrow> 'a list option \<Rightarrow> size_t \<Rightarrow> status \<times> 'a walker" where
  "walker_pushBackN E ty w p n = to_end w (vec_pushBackN E ty (m_vector w) p n)"

definition walker_pushBackArithmeticValue :: "env \<Rightarrow> byte walker \<Rightarrow> byte list \<Rightarrow> status \<times> byte walker" where
  "walker_pushBackArithmeticValue E w value =
     to_end w (vec_pushBackArithmeticValue E (m_vector w) value)"

section \<open>Replacing, inserting, erasing\<close>

definition walker_replace ::
    "env \<Rightarrow> 'a elem \<Rightarrow> 'a walker \<Rightarrow> 'a list option \<Rightarrow> size_t \<Rightarrow> size_t \<Rightarrow> status \<times> 'a walker" where
  "walker_replace E ty w p n offset =
     (let w = walker_setValidOffset w offset;
          (st, v, _) = vec_replace E ty (m_vector w) p n offset 0
      in run (st, w\<lparr>m_vector := v\<rparr>) (\<lambda>w. (NoError, w\<lparr>m_offset := m_offset w + n\<rparr>)))"

definition walker_write :: "env \<Rightarrow> 'a elem \<Rightarrow> 'a walker \<Rightarrow> 'a list option \<Rightarrow> size_t \<Rightarrow> status \<times> 'a walker" where
  "walker_write E ty w p n = walker_replace E ty w p n (m_offset w)"

definition walker_insert ::
    "env \<Rightarrow> 'a elem \<Rightarrow> 'a walker \<Rightarrow> 'a list option \<Rightarrow> size_t \<Rightarrow> size_t \<Rightarrow> status \<times> 'a walker" where
  "walker_insert E ty w p n offset =
     (let oldSize = walker_size w;
          w = walker_setValidOffset w offset;
          (st, v, _) = vec_insert E ty (m_vector w) p n offset 0
      in run (st, w\<lparr>m_vector := v\<rparr>)
           (\<lambda>w. (NoError, w\<lparr>m_offset := m_offset w + (walker_size w - oldSize)\<rparr>)))"

definition walker_insert_range ::
    "nat \<Rightarrow> env \<Rightarrow> 'a elem \<Rightarrow> manager \<Rightarrow> 'a walker \<Rightarrow> 'a list \<Rightarrow> vec_iterator \<Rightarrow> vec_iterator
     \<Rightarrow> (status \<times> 'a walker \<times> vec_iterator) option" where
  "walker_insert_range fuel E ty dflt w src destBegin destEnd =
     (let oldSize = walker_size w;
          newOffset = word_of_int (it_distance destBegin (vec_begin (m_vector w)));
          w = walker_setValidOffset w newOffset
      in map_option (\<lambda>(st, v, it).
           if \<not> statusSuccess st then (st, w\<lparr>m_vector := v\<rparr>, it)
           else (NoError, w\<lparr>m_vector := v, m_offset := m_offset w + (vec_size v - oldSize)\<rparr>, it))
         (vec_insert_range fuel E ty dflt (m_vector w) src destBegin destEnd))"

definition walker_erase :: "'a elem \<Rightarrow> 'a walker \<Rightarrow> size_t \<Rightarrow> size_t \<Rightarrow> status \<times> 'a walker" where
  "walker_erase ty w offset n =
     (let w = walker_setValidOffset w offset;
          (st, v) = vec_erase ty (m_vector w) offset n
      in (st, w\<lparr>m_vector := v\<rparr>))"

definition walker_erase_range :: "'a elem \<Rightarrow> 'a walker \<Rightarrow> vec_iterator \<Rightarrow> vec_iterator \<Rightarrow> status \<times> 'a walker" where
  "walker_erase_range ty w destBegin destEnd =
     (let offset = word_of_int (it_distance destBegin (vec_begin (m_vector w)));
          w = walker_setValidOffset w offset;
          (st, v) = vec_erase_range ty (m_vector w) destBegin destEnd
      in (st, w\<lparr>m_vector := v\<rparr>))"

section \<open>Reading\<close>

text \<open>(status, walker, destination, the object \<open>pNRead\<close> points to).\<close>

definition walker_read ::
    "'a elem \<Rightarrow> 'a walker \<Rightarrow> 'a storage \<Rightarrow> size_t \<Rightarrow> size_t \<Rightarrow> status \<times> 'a walker \<times> 'a storage \<times> size_t" where
  "walker_read ty w p n pNRead =
     (let (st, p', nReal) = vec_copyN ty (m_vector w) (m_offset w) n p 0
      in if \<not> statusSuccess st then (st, w, p', pNRead)
         else (NoError, w\<lparr>m_offset := m_offset w + nReal\<rparr>, p', nReal))"

text \<open>
  The octets of the object at the offset; a cell without an object is read as \<open>None\<close>. The
  last component is what is assigned to \<open>value\<close>, \<open>old\<close> when nothing is.
\<close>

definition cells_octets :: "byte cell list \<Rightarrow> byte list option" where
  "cells_octets cs = those (map (\<lambda>c. case c of Raw \<Rightarrow> None | Obj b \<Rightarrow> Some b) cs)"

definition walker_readArithmeticValue ::
    "byte walker \<Rightarrow> nat \<Rightarrow> byte list option \<Rightarrow> status \<times> byte walker \<times> byte list option" where
  "walker_readArithmeticValue w sz old =
     (if of_nat sz + m_offset w \<le> walker_size w
      then (NoError, w\<lparr>m_offset := m_offset w + of_nat sz\<rparr>,
            Option.bind (read_cells (m_p (m_vector w)) (unat (m_offset w)) sz) cells_octets)
      else (ErrorOverflow, w, old))"

section \<open>Access\<close>

definition walker_index :: "'a walker \<Rightarrow> size_t \<Rightarrow> 'a cell option \<times> 'a walker" where
  "walker_index w offset =
     (let w = walker_setValidOffset w offset in (vec_index (m_vector w) offset, w))"

definition walker_clear :: "'a elem \<Rightarrow> 'a walker \<Rightarrow> 'a walker" where
  "walker_clear ty w = w\<lparr>m_vector := vec_clear ty (m_vector w), m_offset := 0\<rparr>"

definition walker_invalidate :: "'a elem \<Rightarrow> 'a walker \<Rightarrow> 'a walker" where
  "walker_invalidate ty w = w\<lparr>m_vector := vec_invalidate ty (m_vector w), m_offset := 0\<rparr>"

definition walker_release :: "'a walker \<Rightarrow> 'a storage \<times> 'a walker" where
  "walker_release w = (let (p, v) = vec_release (m_vector w) in (p, w\<lparr>m_vector := v, m_offset := 0\<rparr>))"

section \<open>Properties\<close>

text \<open>\<open>walker_rep w xs k\<close>: the walker holds \<open>xs\<close> and stands at \<open>k\<close>, not behind the end.\<close>

definition walker_rep :: "'a walker \<Rightarrow> 'a list \<Rightarrow> nat \<Rightarrow> bool" where
  "walker_rep w xs k \<longleftrightarrow> vec_rep (m_vector w) xs \<and> unat (m_offset w) = k \<and> k \<le> length xs"

lemma walker_rep_size: "walker_rep w xs k \<Longrightarrow> unat (walker_size w) = length xs"
  by (simp add: walker_rep_def walker_size_def vec_size_def vec_rep_def)

lemma walker_rep_empty: "walker_rep (empty_walker am) [] 0"
  by (simp add: walker_rep_def empty_walker_def vec_rep_empty)

lemma walker_seek_ok:
  assumes "walker_rep w xs k"
  shows "\<exists>w'. walker_seek w off = (if unat off \<le> length xs then NoError else ErrorOverflow, w')
     \<and> walker_rep w' xs (min (unat off) (length xs))"
  using assms walker_rep_size [OF assms]
  by (auto simp: walker_seek_def walker_setValidOffset_def walker_rep_def word_less_nat_alt
      word_le_nat_alt min_def not_less)

lemma cells_octets_Obj [simp]: "cells_octets (map Obj bs) = Some bs"
  by (induction bs) (simp_all add: cells_octets_def)

text \<open>A scalar read takes the next octets, or leaves everything as it was at the end.\<close>

lemma readArithmeticValue_ok:
  assumes r: "walker_rep w xs k" and n: "length xs + sz < 2 ^ 64"
  shows "k + sz \<le> length xs \<Longrightarrow>
      \<exists>w'. walker_readArithmeticValue w sz old = (NoError, w', Some (take sz (drop k xs)))
        \<and> walker_rep w' xs (k + sz)"
    and "length xs < k + sz \<Longrightarrow> walker_readArithmeticValue w sz old = (ErrorOverflow, w, old)"
proof -
  have k: "unat (m_offset w) = k" "k \<le> length xs" using r by (simp_all add: walker_rep_def)
  then have s: "unat (of_nat sz + m_offset w) = k + sz"
    using n by (simp add: add.commute [of _ "m_offset w"] unat_add_of_nat)
  then have s': "unat (m_offset w + of_nat sz) = k + sz" by (simp add: add.commute)
  have cond: "of_nat sz + m_offset w \<le> walker_size w \<longleftrightarrow> k + sz \<le> length xs"
    using s walker_rep_size [OF r] by (simp add: word_le_nat_alt)
  show "\<exists>w'. walker_readArithmeticValue w sz old = (NoError, w', Some (take sz (drop k xs)))
        \<and> walker_rep w' xs (k + sz)" if "k + sz \<le> length xs"
    using that cond k r s' vec_rep_read [of "m_vector w" xs k sz]
    by (auto simp: walker_readArithmeticValue_def walker_rep_def)
  show "walker_readArithmeticValue w sz old = (ErrorOverflow, w, old)" if "length xs < k + sz"
    using that cond by (simp add: walker_readArithmeticValue_def)
qed

lemma walker_read_end:
  assumes "walker_rep w xs (length xs)" "n \<noteq> 0"
  shows "walker_read ty w (Cells ds) n pn = (ErrorOverflow, w, Cells ds, pn)"
proof -
  have "m_offset w = m_dataSize (m_vector w)"
    using assms(1) by (simp add: walker_rep_def vec_rep_def word_unat_eq_iff)
  then show ?thesis using assms(2) by (simp add: walker_read_def vec_copyN_def)
qed

context element_type
begin

text \<open>
  A bulk read takes as many elements as there are, at most the number asked for: it
  succeeds on a shorter rest of the data, and fails only at the very end of it.
\<close>

lemma read_ok:
  assumes r: "walker_rep w xs k" and lt: "k < length xs" and n: "k + unat n < 2 ^ 64"
    and m: "m = min (unat n) (length xs - k)" "m \<le> length ds"
  shows "\<exists>w'. walker_read ty w (Cells ds) n pn
      = (NoError, w', Cells (map Obj (take m (drop k xs)) @ drop m ds), of_nat m)
     \<and> walker_rep w' xs (k + m)"
proof -
  have k: "unat (m_offset w) = k" and v: "vec_rep (m_vector w) xs" using r by (simp_all add: walker_rep_def)
  have "unat (m_offset w + of_nat m) = k + m"
    using k m(1) n by (subst unat_add_of_nat) (auto simp: min_def)
  moreover have "k + m \<le> length xs" using m(1) lt by simp
  ultimately show ?thesis
    using copyN_ok [OF v, of "m_offset w" n m ds 0] k lt n m v
    by (auto simp: walker_read_def walker_rep_def)
qed

text \<open>Writing replaces from the offset, extends the data where needed, and advances.\<close>

lemma write_ok:
  assumes r: "walker_rep w xs k" and ys: "length ys = unat n"
    and f: "fits ty (max (length xs) (k + unat n))"
  shows "\<exists>st w'. walker_write E ty w (Some ys) n = (st, w') \<and>
     (st = NoError \<and> walker_rep w' (take k xs @ ys @ drop (k + unat n) xs) (k + unat n)
      \<or> st = ErrorNoMemory \<and> walker_rep w' xs k)"
proof -
  have k: "unat (m_offset w) = k" "k \<le> length xs" and v: "vec_rep (m_vector w) xs"
    using r by (simp_all add: walker_rep_def)
  have same: "walker_setValidOffset w (m_offset w) = w"
    using k walker_rep_size [OF r]
    by (auto simp: walker_setValidOffset_def word_less_nat_alt word_unat_eq_iff)
  have o: "unat (m_offset w + n) = k + unat n"
    using fits_bounds(1) [OF f] k by (subst unat_add_exact) auto
  from replace_ok [OF v ys _ f [folded k(1)], of E 0] k obtain st v' no' where
    a: "vec_replace E ty (m_vector w) (Some ys) n (m_offset w) 0 = (st, v', no')" and
    c: "st = NoError \<and> vec_rep v' (take k xs @ ys @ drop (k + unat n) xs)
      \<or> st = ErrorNoMemory \<and> v' = m_vector w"
    by auto
  from c show ?thesis
  proof
    assume "st = NoError \<and> vec_rep v' (take k xs @ ys @ drop (k + unat n) xs)"
    then show ?thesis
      using a o ys k(2)
      by (simp add: walker_write_def walker_replace_def same Let_def run_simps walker_rep_def)
  next
    assume "st = ErrorNoMemory \<and> v' = m_vector w"
    then show ?thesis
      using a r by (simp add: walker_write_def walker_replace_def same Let_def run_simps walker_rep_def)
  qed
qed

end

section \<open>Properties\<close>

text \<open>
  C29: a \<open>Walker\<close> reads forward: from position \<open>k\<close> it copies the next \<open>n\<close> elements, or the
  fewer that are left, to the destination, reports their number and moves behind them. At the
  very end, asked for at least one element, it answers \<open>ErrorOverflow\<close> and changes neither the
  destination, nor the number, nor its position. The destination has room for what is copied
  and \<open>k + n\<close> does not wrap around.
\<close>
theorem walker_read_refines:
  assumes "ty \<in> {raw_elem (Suc z), ctor_elem (Suc z) rest}"
    and "walker_rep w xs k" "k < length xs \<or> n \<noteq> 0" "k + unat n < 2 ^ 64"
    and "m = min (unat n) (length xs - k)" "m \<le> length ds"
  shows "\<exists>w'. walker_read ty w (Cells ds) n pn
      = (if k = length xs then (ErrorOverflow, w', Cells ds, pn)
         else (NoError, w', Cells (map Obj (take m (drop k xs)) @ drop m ds), of_nat m))
     \<and> walker_rep w' xs (k + m)"
proof (cases "k < length xs")
  case True
  then show ?thesis using element_type.read_ok [OF ordinary_element [OF assms(1)] assms(2) True assms(4-6)] by simp
next
  case False
  then have "k = length xs" "n \<noteq> 0" using assms(2,3) by (auto simp: walker_rep_def)
  then show ?thesis using walker_read_end [of w xs n ty ds pn] assms(2,5) by auto
qed

definition sample_walker :: "u32 list \<Rightarrow> size_t \<Rightarrow> u32 walker" where
  "sample_walker xs k = \<lparr>m_vector = sample_vec xs, m_offset = k\<rparr>"

theorem walker_read_refines_witness:
  "\<exists>w'. walker_read (raw_elem 4) (sample_walker [1, 2, 3] 1) (Cells [Raw, Raw]) 1 0
      = (NoError, w', Cells [Obj 2, Raw], 1) \<and> walker_rep w' [1, 2, 3] 2"
proof -
  have "walker_rep (sample_walker [1, 2, 3] 1) [1, 2, 3] (Suc 0)"
    "Suc 0 < length [1, 2, 3 :: u32] \<or> (1 :: size_t) \<noteq> 0" "Suc 0 + unat (1 :: size_t) < 2 ^ 64"
    "Suc 0 = min (unat (1 :: size_t)) (length [1, 2, 3 :: u32] - Suc 0)" "Suc 0 \<le> length [Raw, Raw :: u32 cell]"
    by (simp_all add: walker_rep_def sample_walker_def sample_vec_rep)
  from walker_read_refines [OF raw4 this, of 0] show ?thesis by (simp add: numeral_2_eq_2)
qed

text \<open>
  A \<open>Walker\<close> writes at its position, over what is there and past the end when it has to,
  and moves behind what it wrote; without memory neither the contents nor the position change.
\<close>
lemma walker_write_refines:
  assumes "ty \<in> {raw_elem (Suc z), ctor_elem (Suc z) rest}"
    and "walker_rep w xs k" "length ys = unat n" "fits ty (max (length xs) (k + unat n))"
  shows "\<exists>st w'. walker_write E ty w (Some ys) n = (st, w') \<and>
     (st = NoError \<and> walker_rep w' (take k xs @ ys @ drop (k + unat n) xs) (k + unat n)
      \<or> st = ErrorNoMemory \<and> walker_rep w' xs k)"
  using assms(2-) by (rule element_type.write_ok [OF ordinary_element [OF assms(1)]])

lemma walker_write_refines_witness:
  "\<exists>st w'. walker_write sample_env (raw_elem 4) (sample_walker [1, 2, 3] 2) (Some [7, 8]) 2 = (st, w') \<and>
     (st = NoError \<and> walker_rep w' [1, 2, 7, 8] 4 \<or> st = ErrorNoMemory \<and> walker_rep w' [1, 2, 3] 2)"
proof -
  have "walker_rep (sample_walker [1, 2, 3] 2) [1, 2, 3] 2" "length [7, 8 :: u32] = unat (2 :: size_t)"
    "fits (raw_elem 4) (max (length [1, 2, 3 :: u32]) (2 + unat (2 :: size_t)))"
    by (simp_all add: walker_rep_def sample_walker_def sample_vec_rep fits_sample)
  from walker_write_refines [OF raw4 this, of sample_env] show ?thesis by simp
qed

text \<open>
  reading an arithmetic value of \<open>sz\<close> octets either gives exactly the next \<open>sz\<close> octets
  and moves behind them, or, when fewer are left, answers \<open>ErrorOverflow\<close> and changes nothing.
\<close>
lemma walker_reads_whole_values:
  assumes "walker_rep w xs k" "length xs + sz < 2 ^ 64"
  shows "if k + sz \<le> length xs
     then \<exists>w'. walker_readArithmeticValue w sz old = (NoError, w', Some (take sz (drop k xs)))
        \<and> walker_rep w' xs (k + sz)
     else walker_readArithmeticValue w sz old = (ErrorOverflow, w, old)"
  using readArithmeticValue_ok [OF assms, of old] by auto

lemma walker_reads_whole_values_witness:
  "walker_readArithmeticValue \<lparr>m_vector = empty_vec GenericManager, m_offset = 0\<rparr> 4 None
     = (ErrorOverflow, \<lparr>m_vector = empty_vec GenericManager, m_offset = 0\<rparr>, None)"
  using walker_reads_whole_values [of "empty_walker GenericManager" "[]" 0 4 None]
  by (simp add: walker_rep_empty) (simp add: empty_walker_def)

end
