(* ===== verification/Flags.thy ===== *)
theory Flags
  imports Helpers
begin

unbundle bit_operations_syntax

text \<open>
  \<open>csp_base\<close>: flag words (\<open>context/CommonFlags.h\<close>, \<open>context/DataFlags.h\<close>), message types
  (\<open>context/Message.h\<close>), protocol traits (\<open>traits.h\<close>) and interface descriptors
  (\<open>Interface.h\<close>).
\<close>

section \<open>Common flags\<close>

datatype common_flags = CommonFlags (cf_flags: u32)

definition kBitness32 :: u32 where "kBitness32 = 0x1"
definition kBigEndianFormat :: u32 where "kBigEndianFormat = 0x2"
definition kEndiannessDifference :: u32 where "kEndiannessDifference = 0x4"
definition cf_kValidFlagsMask :: u32 where "cf_kValidFlagsMask = 0x7"
definition cf_kForbiddenFlagsMask :: u32 where "cf_kForbiddenFlagsMask = NOT cf_kValidFlagsMask"
definition cf_kNoFlagsMask :: u32 where "cf_kNoFlagsMask = 0x0"

text \<open>The default constructor reads the platform: \<open>bit32\<close> and \<open>be\<close>.\<close>

definition cf_default :: "bool \<Rightarrow> bool \<Rightarrow> common_flags" where
  "cf_default bit32 be =
     CommonFlags ((if bit32 then kBitness32 else 0) OR (if be then kBigEndianFormat else 0))"

definition cf_of :: "u32 \<Rightarrow> common_flags" where
  "cf_of value = CommonFlags (value AND cf_kValidFlagsMask)"

definition cf_addFlags :: "common_flags \<Rightarrow> u32 \<Rightarrow> common_flags" where
  "cf_addFlags f value = CommonFlags (cf_flags f OR (value AND cf_kValidFlagsMask))"

definition cf_removeFlags :: "common_flags \<Rightarrow> u32 \<Rightarrow> common_flags" where
  "cf_removeFlags f value = CommonFlags (cf_flags f AND NOT value)"

definition cf_bitness32 :: "common_flags \<Rightarrow> bool" where
  "cf_bitness32 f = (cf_flags f AND kBitness32 \<noteq> 0)"

definition cf_bigEndianFormat :: "common_flags \<Rightarrow> bool" where
  "cf_bigEndianFormat f = (cf_flags f AND kBigEndianFormat \<noteq> 0)"

definition cf_endiannessDifference :: "common_flags \<Rightarrow> bool" where
  "cf_endiannessDifference f = (cf_flags f AND kEndiannessDifference \<noteq> 0)"

definition cf_or :: "common_flags \<Rightarrow> common_flags \<Rightarrow> common_flags" where
  "cf_or f rhs = cf_of (cf_flags f OR cf_flags rhs)"

definition cf_and :: "common_flags \<Rightarrow> common_flags \<Rightarrow> common_flags" where
  "cf_and f rhs = cf_of (cf_flags f AND cf_flags rhs)"

definition cf_or_word :: "common_flags \<Rightarrow> u32 \<Rightarrow> common_flags" where
  "cf_or_word f rhs = cf_or f (cf_of rhs)"

definition cf_and_word :: "common_flags \<Rightarrow> u32 \<Rightarrow> common_flags" where
  "cf_and_word f rhs = cf_and f (cf_of rhs)"

definition cf_less :: "common_flags \<Rightarrow> common_flags \<Rightarrow> bool" where
  "cf_less f rhs = (cf_flags f < cf_flags rhs)"

definition cf_eq :: "common_flags \<Rightarrow> common_flags \<Rightarrow> bool" where
  "cf_eq f rhs = (cf_flags f = cf_flags rhs)"

definition cf_word :: "common_flags \<Rightarrow> u32" where
  "cf_word f = cf_flags f"

definition cf_bool :: "common_flags \<Rightarrow> bool" where
  "cf_bool f = (cf_flags f \<noteq> 0)"

section \<open>Data flags\<close>

datatype data_flags = DataFlags (df_flags: u32)

definition kAlignmentMayBeNotEqual :: u32 where "kAlignmentMayBeNotEqual = 0x1"
definition kSizeOfIntegersMayBeNotEqual :: u32 where "kSizeOfIntegersMayBeNotEqual = 0x2"
definition kAllowUnmanagedPointers :: u32 where "kAllowUnmanagedPointers = 0x4"
definition kCheckRecursivePointers :: u32 where "kCheckRecursivePointers = 0x8"
definition kSimplyAssignableTagsOptimizationsAreTurnedOff :: u32 where
  "kSimplyAssignableTagsOptimizationsAreTurnedOff = 0x10"
definition df_kValidFlagsMask :: u32 where "df_kValidFlagsMask = 0x1f"
definition df_kForbiddenFlagsMask :: u32 where "df_kForbiddenFlagsMask = NOT df_kValidFlagsMask"
definition df_kNoFlagsMask :: u32 where "df_kNoFlagsMask = 0x0"

definition df_default :: data_flags where
  "df_default = DataFlags 0"

definition df_of :: "u32 \<Rightarrow> data_flags" where
  "df_of value = DataFlags (value AND df_kValidFlagsMask)"

definition df_addFlags :: "data_flags \<Rightarrow> u32 \<Rightarrow> data_flags" where
  "df_addFlags f value = DataFlags (df_flags f OR (value AND df_kValidFlagsMask))"

definition df_removeFlags :: "data_flags \<Rightarrow> u32 \<Rightarrow> data_flags" where
  "df_removeFlags f value = DataFlags (df_flags f AND NOT value)"

definition df_alignmentMayBeNotEqual :: "data_flags \<Rightarrow> bool" where
  "df_alignmentMayBeNotEqual f = (df_flags f AND kAlignmentMayBeNotEqual \<noteq> 0)"

definition df_sizeOfIntegersMayBeNotEqual :: "data_flags \<Rightarrow> bool" where
  "df_sizeOfIntegersMayBeNotEqual f = (df_flags f AND kSizeOfIntegersMayBeNotEqual \<noteq> 0)"

definition df_allowUnmanagedPointers :: "data_flags \<Rightarrow> bool" where
  "df_allowUnmanagedPointers f = (df_flags f AND kAllowUnmanagedPointers \<noteq> 0)"

definition df_checkRecursivePointers :: "data_flags \<Rightarrow> bool" where
  "df_checkRecursivePointers f = (df_flags f AND kCheckRecursivePointers \<noteq> 0)"

definition df_simplyAssignableTagsOptimizationsAreTurnedOff :: "data_flags \<Rightarrow> bool" where
  "df_simplyAssignableTagsOptimizationsAreTurnedOff f =
     (df_flags f AND kSimplyAssignableTagsOptimizationsAreTurnedOff \<noteq> 0)"

definition df_or :: "data_flags \<Rightarrow> data_flags \<Rightarrow> data_flags" where
  "df_or f rhs = df_of (df_flags f OR df_flags rhs)"

definition df_and :: "data_flags \<Rightarrow> data_flags \<Rightarrow> data_flags" where
  "df_and f rhs = df_of (df_flags f AND df_flags rhs)"

definition df_or_word :: "data_flags \<Rightarrow> u32 \<Rightarrow> data_flags" where
  "df_or_word f rhs = df_or f (df_of rhs)"

definition df_and_word :: "data_flags \<Rightarrow> u32 \<Rightarrow> data_flags" where
  "df_and_word f rhs = df_and f (df_of rhs)"

definition df_less :: "data_flags \<Rightarrow> data_flags \<Rightarrow> bool" where
  "df_less f rhs = (df_flags f < df_flags rhs)"

definition df_eq :: "data_flags \<Rightarrow> data_flags \<Rightarrow> bool" where
  "df_eq f rhs = (df_flags f = df_flags rhs)"

definition df_word :: "data_flags \<Rightarrow> u32" where
  "df_word f = df_flags f"

definition df_bool :: "data_flags \<Rightarrow> bool" where
  "df_bool f = (df_flags f \<noteq> 0)"

section \<open>Message types\<close>

text \<open>A message type from the wire may name no enumerator.\<close>

datatype message = Msg_Status | Msg_Data | Msg_GetSettings | Msg_Other u16

fun message_word :: "message \<Rightarrow> u16" where
  "message_word Msg_Status = 0x0"
| "message_word Msg_Data = 0x1"
| "message_word Msg_GetSettings = 0x2"
| "message_word (Msg_Other w) = w"

definition message_of_word :: "u16 \<Rightarrow> message" where
  "message_of_word w =
     (if w = 0x0 then Msg_Status else if w = 0x1 then Msg_Data
      else if w = 0x2 then Msg_GetSettings else Msg_Other w)"

section \<open>Protocol traits\<close>

definition kProtocolVersions :: "byte list" where "kProtocolVersions = [1]"
definition kProtocolVersionUndefined :: byte where "kProtocolVersionUndefined = 0xff"
definition kInterfaceVersionUndefined :: u32 where "kInterfaceVersionUndefined = 0xffffffff"

definition getLatestProtocolVersion :: byte where
  "getLatestProtocolVersion = kProtocolVersions ! 0"

definition getProtocolVersionsCount :: byte where
  "getProtocolVersionsCount = of_nat (length kProtocolVersions)"

definition isProtocolVersionSameAsLatestOur :: "byte \<Rightarrow> bool" where
  "isProtocolVersionSameAsLatestOur foreignProtocolVersion =
     (getLatestProtocolVersion = foreignProtocolVersion)"

fun version_in :: "byte \<Rightarrow> byte list \<Rightarrow> bool" where
  "version_in v [] = False"
| "version_in v (x # xs) = (if v = x then True else version_in v xs)"

definition isProtocolVersionSupported :: "byte \<Rightarrow> bool" where
  "isProtocolVersionSupported foreignProtocolVersion =
     version_in foreignProtocolVersion (take (unat getProtocolVersionsCount) kProtocolVersions)"

definition isInterfaceVersionSupported :: "u32 \<Rightarrow> u32 \<Rightarrow> u32 \<Rightarrow> bool" where
  "isInterfaceVersionSupported version minVersion maxVersion =
     (maxVersion \<ge> version \<and> version \<ge> minVersion)"

section \<open>Interfaces\<close>

datatype interface = Interface (i_id: uuid) (i_version: u32)
  (i_mandatoryDataFlags: data_flags) (i_forbiddenDataFlags: data_flags)

definition kUndefinedInterface :: interface where
  "kUndefinedInterface = Interface kNullUuid kInterfaceVersionUndefined df_default df_default"

definition interface_less :: "bool \<Rightarrow> interface \<Rightarrow> interface \<Rightarrow> bool" where
  "interface_less be i rhs =
     (uuid_less be (i_id i) (i_id rhs) \<and> i_version i < i_version rhs
      \<and> df_less (i_mandatoryDataFlags i) (i_mandatoryDataFlags rhs)
      \<and> df_less (i_forbiddenDataFlags i) (i_forbiddenDataFlags rhs))"

text \<open>The chain \<open>a < b == c < d == e < f == g < h\<close> associates to the left.\<close>

definition interface_eq :: "bool \<Rightarrow> interface \<Rightarrow> interface \<Rightarrow> bool" where
  "interface_eq be i rhs =
     (((uuid_less be (i_id i) (i_id rhs) = (i_version i < i_version rhs))
       = df_less (i_mandatoryDataFlags i) (i_mandatoryDataFlags rhs))
      = df_less (i_forbiddenDataFlags i) (i_forbiddenDataFlags rhs))"

section \<open>Properties\<close>

lemma undefined_is_greatest: "v \<le> kInterfaceVersionUndefined"
proof -
  have "unat v < 2 ^ 32" by (rule order_less_le_trans [OF unsigned_less]) simp
  then show ?thesis by (simp add: kInterfaceVersionUndefined_def word_le_nat_alt)
qed

lemma cf_flags_of [simp, flag_simps]: "cf_flags (cf_of w) = w AND cf_kValidFlagsMask"
  by (simp add: cf_of_def)

lemma df_flags_of [simp, flag_simps]: "df_flags (df_of w) = w AND df_kValidFlagsMask"
  by (simp add: df_of_def)

text \<open>The valid flag words are those inside the mask; they are exactly the flag objects
  the class can hold, since every operation keeps them inside.\<close>

definition cf_valid :: "common_flags \<Rightarrow> bool" where
  "cf_valid f \<longleftrightarrow> cf_flags f AND cf_kValidFlagsMask = cf_flags f"

definition df_valid :: "data_flags \<Rightarrow> bool" where
  "df_valid f \<longleftrightarrow> df_flags f AND df_kValidFlagsMask = df_flags f"

lemma cf_valid_of [simp]: "cf_valid (cf_of w)"
  by (simp add: cf_valid_def and.assoc)

lemma df_valid_of [simp]: "df_valid (df_of w)"
  by (simp add: df_valid_def and.assoc)

lemma cf_of_word [simp]: "cf_valid f \<Longrightarrow> cf_of (cf_word f) = f"
  by (cases f) (simp add: cf_valid_def cf_of_def cf_word_def)

lemma df_of_word [simp]: "df_valid f \<Longrightarrow> df_of (df_word f) = f"
  by (cases f) (simp add: df_valid_def df_of_def df_word_def)

lemma cf_valid_ops:
  "cf_valid f \<Longrightarrow> cf_valid (cf_addFlags f w)" "cf_valid f \<Longrightarrow> cf_valid (cf_removeFlags f w)"
  "cf_valid (cf_or f g)" "cf_valid (cf_and f g)" "cf_valid (cf_default b be)"
  by (auto simp: cf_valid_def cf_addFlags_def cf_removeFlags_def cf_or_def cf_and_def cf_default_def
      and.assoc bit.conj_disj_distrib2 and.left_commute kBitness32_def kBigEndianFormat_def
      cf_kValidFlagsMask_def intro: and.commute)

lemma flag_bit:
  fixes w :: "'a::len word"
  shows "w AND push_bit n 1 \<noteq> 0 \<longleftrightarrow> bit w n"
  by (simp add: push_bit_of_1 and_exp_eq_0_iff_not_bit)

lemma flag_masks [flag_simps]:
  "kBitness32 = push_bit 0 1" "kBigEndianFormat = push_bit 1 1" "kEndiannessDifference = push_bit 2 1"
  "kAlignmentMayBeNotEqual = push_bit 0 1" "kSizeOfIntegersMayBeNotEqual = push_bit 1 1"
  "kAllowUnmanagedPointers = push_bit 2 1" "kCheckRecursivePointers = push_bit 3 1"
  "kSimplyAssignableTagsOptimizationsAreTurnedOff = push_bit 4 1"
  "cf_kValidFlagsMask = mask 3" "df_kValidFlagsMask = mask 5"
  by (simp_all add: kBitness32_def kBigEndianFormat_def kEndiannessDifference_def
      kAlignmentMayBeNotEqual_def kSizeOfIntegersMayBeNotEqual_def kAllowUnmanagedPointers_def
      kCheckRecursivePointers_def kSimplyAssignableTagsOptimizationsAreTurnedOff_def
      cf_kValidFlagsMask_def df_kValidFlagsMask_def mask_eq_exp_minus_1)

lemma cf_tests [flag_simps]:
  "cf_bitness32 f \<longleftrightarrow> bit (cf_flags f) 0" "cf_bigEndianFormat f \<longleftrightarrow> bit (cf_flags f) 1"
  "cf_endiannessDifference f \<longleftrightarrow> bit (cf_flags f) 2"
  by (simp_all only: cf_bitness32_def cf_bigEndianFormat_def cf_endiannessDifference_def flag_masks flag_bit)

lemma df_tests [flag_simps]:
  "df_alignmentMayBeNotEqual d \<longleftrightarrow> bit (df_flags d) 0"
  "df_sizeOfIntegersMayBeNotEqual d \<longleftrightarrow> bit (df_flags d) 1"
  "df_allowUnmanagedPointers d \<longleftrightarrow> bit (df_flags d) 2"
  "df_checkRecursivePointers d \<longleftrightarrow> bit (df_flags d) 3"
  "df_simplyAssignableTagsOptimizationsAreTurnedOff d \<longleftrightarrow> bit (df_flags d) 4"
  by (simp_all only: df_alignmentMayBeNotEqual_def df_sizeOfIntegersMayBeNotEqual_def
      df_allowUnmanagedPointers_def df_checkRecursivePointers_def
      df_simplyAssignableTagsOptimizationsAreTurnedOff_def flag_masks flag_bit)

text \<open>A flag object is what its tests say.\<close>

lemma cf_of_tests:
  assumes "cf_valid f"
  shows "cf_of ((if cf_bitness32 f then kBitness32 else 0) OR (if cf_bigEndianFormat f then kBigEndianFormat else 0)
      OR (if cf_endiannessDifference f then kEndiannessDifference else 0)) = f"
proof (cases f)
  case (CommonFlags w)
  have hi: "\<not> bit w n" if "3 \<le> n" for n
    using assms that unfolding CommonFlags cf_valid_def flag_masks common_flags.sel
    by (metis bit_and_iff bit_mask_iff not_less)
  have "cf_flags (cf_of ((if bit w 0 then push_bit 0 1 else 0) OR (if bit w 1 then push_bit 1 1 else 0)
      OR (if bit w 2 then push_bit 2 1 else 0))) = w"
  proof (rule bit_word_eqI)
    fix n :: nat
    consider "n = 0" | "n = 1" | "n = 2" | "3 \<le> n" by linarith
    then show "bit (cf_flags (cf_of ((if bit w 0 then push_bit 0 1 else 0) OR (if bit w 1 then push_bit 1 1 else 0)
      OR (if bit w 2 then push_bit 2 1 else 0)))) n = bit w n"
      by cases (use hi in \<open>simp_all add: flag_masks bit_simps del: push_bit_of_1\<close>)
  qed
  then show ?thesis
    unfolding CommonFlags cf_tests flag_masks common_flags.sel cf_of_def by simp
qed

lemma message_word_of_word [simp]: "message_word (message_of_word w) = w"
  by (simp add: message_of_word_def)

lemma isProtocolVersionSupported_iff: "isProtocolVersionSupported v \<longleftrightarrow> v = 1"
  by (simp add: isProtocolVersionSupported_def getProtocolVersionsCount_def kProtocolVersions_def)

lemma getLatestProtocolVersion_eq [simp]: "getLatestProtocolVersion = 1"
  by (simp add: getLatestProtocolVersion_def kProtocolVersions_def)

lemma cf_valid_bit: "cf_valid f \<Longrightarrow> bit (cf_flags f) n \<Longrightarrow> n < 3"
  unfolding cf_valid_def flag_masks by (metis bit_and_iff bit_mask_iff)

lemma cf_addFlags_bit:
  assumes "cf_valid f"
  shows "\<forall>n. bit (cf_flags (cf_addFlags f w)) n \<longleftrightarrow> bit (cf_flags f) n \<or> n < 3 \<and> bit w n"
  using bit_imp_le_length [of w] by (auto simp: cf_addFlags_def flag_masks bit_simps)

lemma cf_removeFlags_bit:
  assumes "cf_valid f"
  shows "\<forall>n. bit (cf_flags (cf_removeFlags f w)) n \<longleftrightarrow> bit (cf_flags f) n \<and> \<not> (n < 3 \<and> bit w n)"
  using cf_valid_bit [OF assms] bit_imp_le_length [of "cf_flags f"] by (auto simp: cf_removeFlags_def bit_simps)

lemma uuid_less_asym: "uuid_less be a b \<Longrightarrow> \<not> uuid_less be b a"
  by (auto simp: uuid_less_def split: if_splits)

section \<open>Claims\<close>

text \<open>
  \<open>CommonFlags\<close> and \<open>DataFlags\<close> never hold a bit outside their valid masks: every
  constructor, assignment and operator gives flags under the mask, adding flags sets exactly
  the valid bits asked for, removing them clears exactly those, and the conversion to
  \<open>uint32_t\<close> and back is the identity on flags.
\<close>
lemma flags_stay_valid:
  assumes "cf_valid f" "df_valid d"
  shows "cf_valid (cf_of w) \<and> cf_valid (cf_default b be) \<and> cf_valid (cf_or f g) \<and> cf_valid (cf_and f g)
     \<and> cf_valid (cf_addFlags f w) \<and> cf_valid (cf_removeFlags f w) \<and> cf_of (cf_word f) = f
     \<and> df_valid (df_of w) \<and> df_of (df_word d) = d
     \<and> (\<forall>n. bit (cf_flags (cf_addFlags f w)) n \<longleftrightarrow> bit (cf_flags f) n \<or> n < 3 \<and> bit w n)
     \<and> (\<forall>n. bit (cf_flags (cf_removeFlags f w)) n \<longleftrightarrow> bit (cf_flags f) n \<and> \<not> (n < 3 \<and> bit w n))"
  using assms cf_valid_ops
    cf_addFlags_bit [of f w] cf_removeFlags_bit [of f w] by simp

lemma flags_stay_valid_witness:
  "cf_valid (cf_addFlags (cf_of 1) 0xF4) \<and> bit (cf_flags (cf_addFlags (cf_of 1) 0xF4)) 2"
  using flags_stay_valid [of "cf_of 1" df_default 0 False False "cf_of 1"]
    flags_stay_valid [of "cf_of 1" "df_of 0" "0xF4" False False "cf_of 1"]
  by (simp add: bit_numeral_rec)

text \<open>
  \<open>Interface::operator==\<close> is not equality: an interface compares equal to one that
  differs from it in a smaller identifier, and unequal the other way round.
\<close>
lemma interface_eq_not_equality:
  assumes "uuid_less be a b"
  shows "interface_eq be (Interface b v m f) (Interface a v m f)
     \<and> \<not> interface_eq be (Interface a v m f) (Interface b v m f)"
  using assms uuid_less_asym [OF assms] by (simp add: interface_eq_def df_less_def)

lemma interface_eq_not_equality_witness:
  "interface_eq True (Interface (uuid_of_halves True 2 0) 1 df_default df_default)
     (Interface (uuid_of_halves True 1 0) 1 df_default df_default)"
  using interface_eq_not_equality [of True "uuid_of_halves True 1 0" "uuid_of_halves True 2 0" 1 df_default df_default]
  by (simp add: uuid_less_def uuid_of_halves_def)

end
