(* ===== verification/Keepers.thy ===== *)
theory Keepers
  imports AllocationManagers "HOL-Library.Multiset"
begin

text \<open>
  \<open>containers/GenericPointerKeeper.h\<close>, \<open>containers/UniquePtr.h\<close> and the pair
  \<open>containers/CompressedPair.h\<close> it is made of. Addresses are numbers, 0 the null pointer.
  What the owners do to the objects is a log of calls of deleters, the oldest first.
\<close>

section \<open>GenericPointerKeeper\<close>

text \<open>A call of a destroying function: the function, the address, the number of objects.\<close>

type_synonym 'd keeper_log = "('d \<times> nat \<times> size_t) list"

record 'd pointer_keeper =
  g_p :: nat
  g_size :: size_t
  g_destroyAndDeallocate :: "'d option"

definition gpk_new :: "'d pointer_keeper" where
  "gpk_new = \<lparr>g_p = 0, g_size = 0, g_destroyAndDeallocate = None\<rparr>"

text \<open>The move constructor: (the new keeper, the source afterwards).\<close>

definition gpk_move_new :: "'d pointer_keeper \<Rightarrow> 'd pointer_keeper \<times> 'd pointer_keeper" where
  "gpk_move_new rhs =
     (\<lparr>g_p = g_p rhs, g_size = g_size rhs, g_destroyAndDeallocate = g_destroyAndDeallocate rhs\<rparr>,
      rhs\<lparr>g_p := 0, g_size := 0, g_destroyAndDeallocate := None\<rparr>)"

definition gpk_destroy :: "'d pointer_keeper \<Rightarrow> 'd keeper_log \<Rightarrow> 'd pointer_keeper \<times> 'd keeper_log" where
  "gpk_destroy k log =
     (if g_p k \<noteq> 0
      then (k\<lparr>g_p := 0, g_size := 0\<rparr>, log @ [(the (g_destroyAndDeallocate k), g_p k, g_size k)])
      else (k, log))"

text \<open>
  Move assignment to a keeper, \<open>same\<close> when it is the source itself: its effect on both keepers.
  The source leaves out the \<open>return *this\<close> at the end of the operator, so the behaviour of a call
  that assigns is undefined in C++; the model shows what the statements before the end do.
\<close>

definition gpk_move_assign ::
    "bool \<Rightarrow> 'd pointer_keeper \<Rightarrow> 'd pointer_keeper \<Rightarrow> 'd keeper_log
     \<Rightarrow> 'd pointer_keeper \<times> 'd pointer_keeper \<times> 'd keeper_log" where
  "gpk_move_assign same k rhs log =
     (if same then (k, rhs, log)
      else
        let (k, log) = (if g_p k \<noteq> 0 then gpk_destroy k log else (k, log))
        in (k\<lparr>g_p := g_p rhs, g_size := g_size rhs, g_destroyAndDeallocate := g_destroyAndDeallocate rhs\<rparr>,
            rhs\<lparr>g_p := 0, g_size := 0, g_destroyAndDeallocate := None\<rparr>, log))"

text \<open>
  \<open>allocateAndConstruct<_AllocationManager>(n, args...)\<close>: the manager's largest size, its
  allocation (address, number allocated) and the destroying function of its type.
\<close>

definition gpk_allocateAndConstruct ::
    "size_t \<Rightarrow> (size_t \<Rightarrow> nat \<times> size_t) \<Rightarrow> 'd \<Rightarrow> 'd pointer_keeper \<Rightarrow> size_t \<Rightarrow> 'd keeper_log
     \<Rightarrow> nat \<times> 'd pointer_keeper \<times> 'd keeper_log" where
  "gpk_allocateAndConstruct max_size am_allocateAndConstruct helper k n log =
     (let (k, log) = (if g_p k \<noteq> 0 then gpk_destroy k log else (k, log))
      in if n > max_size then (0, k, log)
         else
           let (p, allocatedN) = am_allocateAndConstruct n
           in if p \<noteq> 0
              then (p, k\<lparr>g_p := p, g_size := allocatedN, g_destroyAndDeallocate := Some helper\<rparr>, log)
              else (p, k, log))"

definition gpk_allocateAndConstructOne ::
    "size_t \<Rightarrow> (size_t \<Rightarrow> nat \<times> size_t) \<Rightarrow> 'd \<Rightarrow> 'd pointer_keeper \<Rightarrow> 'd keeper_log
     \<Rightarrow> nat \<times> 'd pointer_keeper \<times> 'd keeper_log" where
  "gpk_allocateAndConstructOne max_size am_allocateAndConstruct helper k log =
     gpk_allocateAndConstruct max_size am_allocateAndConstruct helper k 1 log"

definition gpk_release :: "'d pointer_keeper \<Rightarrow> nat \<times> 'd pointer_keeper" where
  "gpk_release k = (g_p k, k\<lparr>g_p := 0, g_size := 0, g_destroyAndDeallocate := None\<rparr>)"

section \<open>UniquePtr\<close>

text \<open>
  \<open>CompressedPair\<close> holds the deleter and the pointer; whether the deleter is a base or a
  member makes no difference to what it holds.
\<close>

record 'd unique_ptr =
  u_first :: 'd
  u_value :: nat

definition pair_zero :: "'d \<Rightarrow> nat \<Rightarrow> 'd unique_ptr" where
  "pair_zero dflt p = \<lparr>u_first = dflt, u_value = p\<rparr>"

definition pair_one :: "'d \<Rightarrow> nat \<Rightarrow> 'd unique_ptr" where
  "pair_one d p = \<lparr>u_first = d, u_value = p\<rparr>"

text \<open>The log of deletions: (deleter, address).\<close>

definition up_get :: "'d unique_ptr \<Rightarrow> nat" where
  "up_get u = u_value u"

definition up_release :: "'d unique_ptr \<Rightarrow> nat \<times> 'd unique_ptr" where
  "up_release u = (u_value u, u\<lparr>u_value := 0\<rparr>)"

definition up_reset :: "'d unique_ptr \<Rightarrow> nat \<Rightarrow> ('d \<times> nat) list \<Rightarrow> 'd unique_ptr \<times> ('d \<times> nat) list" where
  "up_reset u p log =
     (if u_value u = p then (u, log)
      else (u\<lparr>u_value := p\<rparr>, if u_value u \<noteq> 0 then log @ [(u_first u, u_value u)] else log))"

definition up_move_new :: "'d unique_ptr \<Rightarrow> 'd unique_ptr \<times> 'd unique_ptr" where
  "up_move_new rhs = (pair_one (u_first rhs) (fst (up_release rhs)), snd (up_release rhs))"

definition up_move_assign ::
    "'d unique_ptr \<Rightarrow> 'd unique_ptr \<Rightarrow> ('d \<times> nat) list \<Rightarrow> 'd unique_ptr \<times> 'd unique_ptr \<times> ('d \<times> nat) list" where
  "up_move_assign u rhs log =
     (let (p, rhs) = up_release rhs;
          (u, log) = up_reset u p log
      in (u\<lparr>u_first := u_first rhs\<rparr>, rhs, log))"

definition up_assign_pointer :: "'d unique_ptr \<Rightarrow> nat \<Rightarrow> ('d \<times> nat) list \<Rightarrow> 'd unique_ptr \<times> ('d \<times> nat) list" where
  "up_assign_pointer u p log = up_reset u p log"

definition up_destructor :: "'d unique_ptr \<Rightarrow> ('d \<times> nat) list \<Rightarrow> ('d \<times> nat) list" where
  "up_destructor u log = snd (up_reset u 0 log)"

definition up_swap :: "'d unique_ptr \<Rightarrow> 'd unique_ptr \<Rightarrow> 'd unique_ptr \<times> 'd unique_ptr" where
  "up_swap u rhs =
     (let pTemp = u_value u;
          u1 = u\<lparr>u_value := u_value rhs\<rparr>;
          rhs1 = rhs\<lparr>u_value := pTemp\<rparr>;
          dTemp = u_first u1
      in (u1\<lparr>u_first := u_first rhs1\<rparr>, rhs1\<lparr>u_first := dTemp\<rparr>))"

definition up_bool :: "'d unique_ptr \<Rightarrow> bool" where
  "up_bool u = (u_value u \<noteq> 0)"

section \<open>UniquePtr of an array\<close>

text \<open>
  The specialization for arrays, with a state of the same shape. Its deleter is called with
  the address of the first element.
\<close>

definition upa_get :: "'d unique_ptr \<Rightarrow> nat" where
  "upa_get u = u_value u"

definition upa_release :: "'d unique_ptr \<Rightarrow> nat \<times> 'd unique_ptr" where
  "upa_release u = (let p = u_value u in (p, u\<lparr>u_value := 0\<rparr>))"

definition upa_reset :: "'d unique_ptr \<Rightarrow> nat \<Rightarrow> ('d \<times> nat) list \<Rightarrow> 'd unique_ptr \<times> ('d \<times> nat) list" where
  "upa_reset u p log =
     (if u_value u = p then (u, log)
      else let log = (if u_value u \<noteq> 0 then log @ [(u_first u, u_value u)] else log)
           in (u\<lparr>u_value := p\<rparr>, log))"

definition upa_move_new :: "'d unique_ptr \<Rightarrow> 'd unique_ptr \<times> 'd unique_ptr" where
  "upa_move_new rhs = (let (p, rhs') = upa_release rhs in (pair_one (u_first rhs) p, rhs'))"

definition upa_move_assign ::
    "'d unique_ptr \<Rightarrow> 'd unique_ptr \<Rightarrow> ('d \<times> nat) list \<Rightarrow> 'd unique_ptr \<times> 'd unique_ptr \<times> ('d \<times> nat) list" where
  "upa_move_assign u rhs log =
     (let (p, rhs) = upa_release rhs;
          (u, log) = upa_reset u p log
      in (u\<lparr>u_first := u_first rhs\<rparr>, rhs, log))"

definition upa_assign_pointer :: "'d unique_ptr \<Rightarrow> nat \<Rightarrow> ('d \<times> nat) list \<Rightarrow> 'd unique_ptr \<times> ('d \<times> nat) list" where
  "upa_assign_pointer u p log = upa_reset u p log"

definition upa_destructor :: "'d unique_ptr \<Rightarrow> ('d \<times> nat) list \<Rightarrow> ('d \<times> nat) list" where
  "upa_destructor u log = snd (upa_reset u 0 log)"

definition upa_swap :: "'d unique_ptr \<Rightarrow> 'd unique_ptr \<Rightarrow> 'd unique_ptr \<times> 'd unique_ptr" where
  "upa_swap u rhs =
     (let pTemp = u_value u;
          u = u\<lparr>u_value := u_value rhs\<rparr>;
          rhs = rhs\<lparr>u_value := pTemp\<rparr>;
          dTemp = u_first u;
          u = u\<lparr>u_first := u_first rhs\<rparr>
      in (u, rhs\<lparr>u_first := dTemp\<rparr>))"

definition upa_bool :: "'d unique_ptr \<Rightarrow> bool" where
  "upa_bool u = (u_value u \<noteq> 0)"

text \<open>So the arrays are owned in the same way.\<close>

lemma upa_eq:
  "upa_get = up_get" "upa_release = up_release" "upa_reset = up_reset" "upa_move_new = up_move_new"
  "upa_move_assign = up_move_assign" "upa_assign_pointer = up_assign_pointer" "upa_destructor = up_destructor"
  "upa_swap = up_swap" "upa_bool = up_bool"
  by (auto simp: fun_eq_iff upa_get_def up_get_def upa_release_def up_release_def upa_reset_def up_reset_def upa_move_new_def
      up_move_new_def upa_move_assign_def up_move_assign_def upa_assign_pointer_def up_assign_pointer_def upa_destructor_def
      up_destructor_def upa_swap_def up_swap_def upa_bool_def up_bool_def Let_def)

section \<open>Making owners\<close>

text \<open>
  \<open>allocated\<close> is the address that \<open>new\<close> gave the constructed object or array, \<open>None\<close> when it
  threw; the version that does not throw gives 0. \<open>dflt\<close> is the default deleter.
\<close>

definition makeUnique :: "'d \<Rightarrow> nat option \<Rightarrow> 'd unique_ptr option" where
  "makeUnique dflt allocated = map_option (pair_zero dflt) allocated"

definition makeUniqueArray :: "'d \<Rightarrow> nat option \<Rightarrow> 'd unique_ptr option" where
  "makeUniqueArray dflt allocated = map_option (pair_zero dflt) allocated"

definition makeUniqueNoThrow :: "'d \<Rightarrow> nat \<Rightarrow> 'd unique_ptr" where
  "makeUniqueNoThrow dflt allocated = pair_zero dflt allocated"

definition makeUniqueNoThrowArray :: "'d \<Rightarrow> nat \<Rightarrow> 'd unique_ptr" where
  "makeUniqueNoThrowArray dflt allocated = pair_zero dflt allocated"

definition makeUniqueForOverwrite :: "'d \<Rightarrow> nat option \<Rightarrow> 'd unique_ptr option" where
  "makeUniqueForOverwrite dflt allocated = map_option (pair_zero dflt) allocated"

definition makeUniqueForOverwriteArray :: "'d \<Rightarrow> nat option \<Rightarrow> 'd unique_ptr option" where
  "makeUniqueForOverwriteArray dflt allocated = map_option (pair_zero dflt) allocated"

definition makeUniqueNoThrowForOverwrite :: "'d \<Rightarrow> nat \<Rightarrow> 'd unique_ptr" where
  "makeUniqueNoThrowForOverwrite dflt allocated = pair_zero dflt allocated"

definition makeUniqueNoThrowForOverwriteArray :: "'d \<Rightarrow> nat \<Rightarrow> 'd unique_ptr" where
  "makeUniqueNoThrowForOverwriteArray dflt allocated = pair_zero dflt allocated"

section \<open>Ownership\<close>

text \<open>
  Programs over a row of owners. A step works on one owner or on two different ones; a
  pointer put into an owner is null or the address of an object that was never owned.
\<close>

datatype up_op = Reset nat nat | Release nat | MoveAssign nat nat | Swap nat nat

record 'd owners =
  o_ptrs :: "'d unique_ptr list"
  o_log :: "('d \<times> nat) list"
  o_released :: "nat list"

definition owned :: "'d owners \<Rightarrow> nat list" where
  "owned s = filter (\<lambda>p. p \<noteq> 0) (map u_value (o_ptrs s))"

definition seen :: "'d owners \<Rightarrow> nat list" where
  "seen s = owned s @ map snd (o_log s) @ o_released s"

definition up_enabled :: "'d owners \<Rightarrow> up_op \<Rightarrow> bool" where
  "up_enabled s c =
     (case c of
        Reset i p \<Rightarrow> i < length (o_ptrs s) \<and> (p = 0 \<or> p \<notin> set (seen s))
      | Release i \<Rightarrow> i < length (o_ptrs s)
      | MoveAssign i j \<Rightarrow> i < length (o_ptrs s) \<and> j < length (o_ptrs s) \<and> i \<noteq> j
      | Swap i j \<Rightarrow> i < length (o_ptrs s) \<and> j < length (o_ptrs s) \<and> i \<noteq> j)"

fun up_step :: "'d owners \<Rightarrow> up_op \<Rightarrow> 'd owners" where
  "up_step s (Reset i p) =
     (let (u, log) = up_reset (o_ptrs s ! i) p (o_log s)
      in s\<lparr>o_ptrs := (o_ptrs s)[i := u], o_log := log\<rparr>)"
| "up_step s (Release i) =
     (let (p, u) = up_release (o_ptrs s ! i)
      in s\<lparr>o_ptrs := (o_ptrs s)[i := u], o_released := (if p = 0 then [] else [p]) @ o_released s\<rparr>)"
| "up_step s (MoveAssign i j) =
     (let (u, r, log) = up_move_assign (o_ptrs s ! i) (o_ptrs s ! j) (o_log s)
      in s\<lparr>o_ptrs := (o_ptrs s)[j := r, i := u], o_log := log\<rparr>)"
| "up_step s (Swap i j) =
     (let (u, r) = up_swap (o_ptrs s ! i) (o_ptrs s ! j)
      in s\<lparr>o_ptrs := (o_ptrs s)[j := r, i := u]\<rparr>)"

inductive up_reachable :: "'d owners \<Rightarrow> bool" where
  start: "\<forall>u \<in> set us. u_value u = 0 \<Longrightarrow> up_reachable \<lparr>o_ptrs = us, o_log = [], o_released = []\<rparr>"
| step: "up_reachable s \<Longrightarrow> up_enabled s c \<Longrightarrow> up_reachable (up_step s c)"

text \<open>
  Every address that was ever owned is at one place: with one owner, deleted once, or
  released once. In particular no object is deleted twice or deleted while owned.
\<close>

definition one :: "nat \<Rightarrow> nat multiset" where
  "one p = (if p = 0 then {#} else {#p#})"

definition owned_mset :: "'d unique_ptr list \<Rightarrow> nat multiset" where
  "owned_mset us = mset (filter (\<lambda>p. p \<noteq> 0) (map u_value us))"

lemma owned_mset_update:
  "i < length us \<Longrightarrow> owned_mset (us[i := u]) + one (u_value (us ! i)) = owned_mset us + one (u_value u)"
proof (induction us arbitrary: i)
  case Nil
  then show ?case by simp
next
  case (Cons v us)
  show ?case
  proof (cases i)
    case 0
    then show ?thesis by (simp add: owned_mset_def one_def)
  next
    case (Suc j)
    then show ?thesis using Cons.IH [of j] Cons.prems by (auto simp: owned_mset_def)
  qed
qed

lemma owned_mset_update2:
  assumes "i < length us" "j < length us" "i \<noteq> j"
  shows "owned_mset (us[j := r, i := u]) + (one (u_value (us ! i)) + one (u_value (us ! j)))
     = owned_mset us + (one (u_value u) + one (u_value r))"
  using owned_mset_update [of i "us[j := r]" u] owned_mset_update [of j us r] assms
  by (simp add: ac_simps) (metis add.assoc add.commute)

lemma mset_seen: "mset (seen s) = owned_mset (o_ptrs s) + mset (map snd (o_log s)) + mset (o_released s)"
  by (simp add: seen_def owned_def owned_mset_def)

lemma owned_twice:
  assumes "distinct (seen s)" "i < length (o_ptrs s)" "j < length (o_ptrs s)" "i \<noteq> j"
    and "u_value (o_ptrs s ! i) = u_value (o_ptrs s ! j)"
  shows "u_value (o_ptrs s ! j) = 0"
proof (rule ccontr)
  assume n: "u_value (o_ptrs s ! j) \<noteq> 0"
  define z where "z = (o_ptrs s ! i)\<lparr>u_value := 0\<rparr>"
  have "{#u_value (o_ptrs s ! j), u_value (o_ptrs s ! j)#} \<subseteq># owned_mset (o_ptrs s)"
    using owned_mset_update2 [OF assms(2-4), of z z] n assms(5)
    by (simp add: one_def z_def) (metis add_mset_add_single mset_subset_eq_add_right union_mset_add_mset_right)
  then have "{#u_value (o_ptrs s ! j), u_value (o_ptrs s ! j)#} \<subseteq># mset (seen s)"
    by (metis mset_seen mset_subset_eq_add_left subset_mset.order_trans add.assoc)
  then have "2 \<le> count (mset (seen s)) (u_value (o_ptrs s ! j))"
    by (metis count_add_mset count_empty mset_subset_eq_count numeral_2_eq_2)
  then show False using assms(1) distinct_count_atmost_1 [of "seen s"]
    by (metis One_nat_def Suc_n_not_le_n numeral_2_eq_2 zero_order(1) One_nat_def not_numeral_le_zero)
qed

lemma up_step_seen:
  assumes "distinct (seen s)" "up_enabled s c"
  shows "distinct (seen (up_step s c))"
proof (cases c)
  case (Reset i p)
  then have i: "i < length (o_ptrs s)" and p: "p = 0 \<or> p \<notin> set (seen s)"
    using assms(2) by (simp_all add: up_enabled_def)
  let ?u = "o_ptrs s ! i"
  have "mset (seen (up_step s c)) = mset (seen s) + (if u_value ?u = p then {#} else one p)"
    using owned_mset_update [OF i, of "?u\<lparr>u_value := p\<rparr>"] Reset
    by (cases "u_value ?u = 0") (auto simp: mset_seen up_reset_def one_def)
  then have "mset (seen (up_step s c)) = mset (seen s)
      \<or> p \<notin> set (seen s) \<and> mset (seen (up_step s c)) = mset (p # seen s)"
    using p by (auto simp: one_def)
  then show ?thesis
    using assms(1) mset_eq_imp_distinct_iff [of "seen (up_step s c)" "seen s"]
      mset_eq_imp_distinct_iff [of "seen (up_step s c)" "p # seen s"] by auto
next
  case (Release i)
  then have i: "i < length (o_ptrs s)" using assms(2) by (simp add: up_enabled_def)
  have "mset (seen (up_step s c)) = mset (seen s)"
    using owned_mset_update [OF i, of "(o_ptrs s ! i)\<lparr>u_value := 0\<rparr>"] Release
    by (auto simp: mset_seen up_release_def one_def)
  then show ?thesis using assms(1) mset_eq_imp_distinct_iff by blast
next
  case (MoveAssign i j)
  then have ij: "i < length (o_ptrs s)" "j < length (o_ptrs s)" "i \<noteq> j"
    using assms(2) by (simp_all add: up_enabled_def)
  let ?a = "u_value (o_ptrs s ! i)" and ?b = "u_value (o_ptrs s ! j)"
  obtain u r log where mv: "up_move_assign (o_ptrs s ! i) (o_ptrs s ! j) (o_log s) = (u, r, log)"
    using prod_cases3 by blast
  then have "u_value u = ?b" "u_value r = 0"
    "map snd log = map snd (o_log s) @ (if ?a = ?b \<or> ?a = 0 then [] else [?a])"
    by (auto simp: up_move_assign_def up_release_def up_reset_def Let_def split: if_splits)
  then have "mset (seen (up_step s c)) = mset (seen s)"
    using owned_mset_update2 [OF ij, of r u] owned_twice [OF assms(1) ij] MoveAssign mv
    by (cases "?a = ?b"; cases "?a = 0") (auto simp: mset_seen one_def)
  then show ?thesis using assms(1) mset_eq_imp_distinct_iff by blast
next
  case (Swap i j)
  then have ij: "i < length (o_ptrs s)" "j < length (o_ptrs s)" "i \<noteq> j"
    using assms(2) by (simp_all add: up_enabled_def)
  let ?a = "o_ptrs s ! i" and ?b = "o_ptrs s ! j"
  have "mset (seen (up_step s c)) = mset (seen s)"
    using owned_mset_update2 [OF ij, of "snd (up_swap ?a ?b)" "fst (up_swap ?a ?b)"] Swap
    by (simp add: mset_seen up_swap_def Let_def add.commute)
  then show ?thesis using assms(1) mset_eq_imp_distinct_iff by blast
qed

lemma up_reachable_distinct: "up_reachable s \<Longrightarrow> distinct (seen s)"
proof (induction rule: up_reachable.induct)
  case (start us)
  then show ?case by (simp add: seen_def owned_def filter_empty_conv)
next
  case (step s c)
  then show ?case by (simp add: up_step_seen)
qed

section \<open>Properties\<close>

text \<open>
  C23: whatever sequence of \<open>reset\<close>, \<open>release\<close>, move assignment and \<open>swap\<close> runs on a family of
  \<open>UniquePtr\<close>s that start empty and are reset to fresh pointers only, no two of them own the
  same object, none owns an object that was deleted or released, and no object is deleted twice.
\<close>
theorem unique_ptr_sole_owner:
  assumes "up_reachable s"
  shows "distinct (filter (\<lambda>p. p \<noteq> 0) (map u_value (o_ptrs s)) @ map snd (o_log s) @ o_released s)"
  using up_reachable_distinct [OF assms] by (simp add: seen_def owned_def)

theorem unique_ptr_sole_owner_witness:
  "let s = up_step (up_step (up_step \<lparr>o_ptrs = [pair_zero () 0, pair_zero () 0], o_log = [], o_released = []\<rparr>
       (Reset 0 5)) (Reset 1 6)) (MoveAssign 0 1)
   in map u_value (o_ptrs s) = [6, 0] \<and> o_log s = [((), 5)]
      \<and> distinct (filter (\<lambda>p. p \<noteq> 0) (map u_value (o_ptrs s)) @ map snd (o_log s) @ o_released s)"
proof -
  let ?start = "\<lparr>o_ptrs = [pair_zero () 0, pair_zero () 0], o_log = [], o_released = []\<rparr>"
  let ?s = "up_step (up_step (up_step ?start (Reset 0 5)) (Reset 1 6)) (MoveAssign 0 1)"
  note defs = up_enabled_def seen_def owned_def pair_zero_def up_reset_def
  have "up_reachable ?start" by (rule up_reachable.start) (simp add: defs)
  then have "up_reachable (up_step ?start (Reset 0 5))" by (rule up_reachable.step) (simp add: defs)
  then have "up_reachable (up_step (up_step ?start (Reset 0 5)) (Reset 1 6))"
    by (rule up_reachable.step) (simp add: defs)
  then have "up_reachable ?s" by (rule up_reachable.step) (simp add: defs)
  from unique_ptr_sole_owner [OF this] show ?thesis
    by (simp add: pair_zero_def up_reset_def up_move_assign_def up_release_def)
qed

text \<open>
  A \<open>GenericPointerKeeper\<close> calls its deleter once for an object it takes over, with the
  pointer and the size it was allocated with, and not again after it was moved from, released
  or destroyed.
\<close>
lemma pointer_keeper_deletes_once:
  assumes "am n = (p, a)" "p \<noteq> 0" "n \<le> max_size"
  shows "case gpk_allocateAndConstruct max_size am helper gpk_new n log of
      (q, k, log1) \<Rightarrow> q = p \<and> log1 = log
        \<and> (case gpk_destroy k log1 of (k', log2) \<Rightarrow>
             log2 = log @ [(helper, p, a)] \<and> gpk_destroy k' log2 = (k', log2))
        \<and> (case gpk_move_new k of (k1, k2) \<Rightarrow>
             snd (gpk_destroy k1 log1) = log @ [(helper, p, a)] \<and> gpk_destroy k2 log1 = (k2, log1))
        \<and> gpk_destroy (snd (gpk_release k)) log1 = (snd (gpk_release k), log1)"
  using assms
  by (simp add: gpk_allocateAndConstruct_def gpk_new_def gpk_destroy_def gpk_move_new_def gpk_release_def)

lemma pointer_keeper_deletes_once_witness:
  "case gpk_allocateAndConstruct 9 (\<lambda>n. (77, n)) True gpk_new 3 [] of
     (q, k, log1) \<Rightarrow> q = 77 \<and> snd (gpk_destroy k log1) = [(True, 77, 3)]"
  using pointer_keeper_deletes_once [where am = "\<lambda>n. (77, n)" and n = 3 and p = 77 and a = 3 and max_size = 9
      and helper = True and log = "[]"]
  by (auto split: prod.splits)

end
