(* ===== verification/Concurrency.thy ===== *)
theory Concurrency
  imports Prelude
begin

text \<open>
  \<open>concurrency_interfaces/GuardRW.h\<close>: the guard that holds a lockable object for a scope,
  exclusively or shared. A lockable is what it does to its state; the concepts of
  \<open>ILockable.h\<close> are the four operations.
\<close>

section \<open>Guards\<close>

record 'l lockable =
  l_lock :: "'l \<Rightarrow> 'l"
  l_unlock :: "'l \<Rightarrow> 'l"
  l_lock_shared :: "'l \<Rightarrow> 'l"
  l_unlock_shared :: "'l \<Rightarrow> 'l"

record 'l guard =
  m_lockable :: 'l
  m_locked :: bool

definition guard_lock :: "'l lockable \<Rightarrow> bool \<Rightarrow> 'l guard \<Rightarrow> 'l guard" where
  "guard_lock L exclusive g =
     (if m_locked g then g
      else g\<lparr>m_lockable := (if exclusive then l_lock L (m_lockable g) else l_lock_shared L (m_lockable g)),
             m_locked := True\<rparr>)"

definition guard_unlock :: "'l lockable \<Rightarrow> bool \<Rightarrow> 'l guard \<Rightarrow> 'l guard" where
  "guard_unlock L exclusive g =
     (if \<not> m_locked g then g
      else g\<lparr>m_lockable := (if exclusive then l_unlock L (m_lockable g) else l_unlock_shared L (m_lockable g)),
             m_locked := False\<rparr>)"

definition guard_new :: "'l lockable \<Rightarrow> bool \<Rightarrow> 'l \<Rightarrow> bool \<Rightarrow> 'l guard" where
  "guard_new L exclusive lockable deferred =
     (let g = \<lparr>m_lockable = lockable, m_locked = False\<rparr>
      in if \<not> deferred then guard_lock L exclusive g else g)"

definition guard_destructor :: "'l lockable \<Rightarrow> bool \<Rightarrow> 'l guard \<Rightarrow> 'l" where
  "guard_destructor L exclusive g = m_lockable (guard_unlock L exclusive g)"

section \<open>A scope\<close>

text \<open>What happens between construction and destruction; \<open>True\<close> is a call of \<open>lock\<close>.\<close>

definition guard_scope :: "'l lockable \<Rightarrow> bool \<Rightarrow> bool \<Rightarrow> bool list \<Rightarrow> 'l \<Rightarrow> 'l" where
  "guard_scope L exclusive deferred calls lockable =
     guard_destructor L exclusive
       (fold (\<lambda>c. if c then guard_lock L exclusive else guard_unlock L exclusive) calls
          (guard_new L exclusive lockable deferred))"

text \<open>A lockable that writes down what is done to it.\<close>

datatype lock_event = Lock | Unlock | LockShared | UnlockShared

definition recorder :: "lock_event list lockable" where
  "recorder = \<lparr>l_lock = (\<lambda>l. l @ [Lock]), l_unlock = (\<lambda>l. l @ [Unlock]),
     l_lock_shared = (\<lambda>l. l @ [LockShared]), l_unlock_shared = (\<lambda>l. l @ [UnlockShared])\<rparr>"

definition acquired :: "bool \<Rightarrow> lock_event" where
  "acquired exclusive = (if exclusive then Lock else LockShared)"

definition given_back :: "bool \<Rightarrow> lock_event" where
  "given_back exclusive = (if exclusive then Unlock else UnlockShared)"

fun pairs :: "bool \<Rightarrow> nat \<Rightarrow> lock_event list" where
  "pairs exclusive 0 = []"
| "pairs exclusive (Suc n) = pairs exclusive n @ [acquired exclusive, given_back exclusive]"

definition guard_inv :: "bool \<Rightarrow> nat \<Rightarrow> lock_event list guard \<Rightarrow> bool" where
  "guard_inv exclusive k g \<longleftrightarrow>
     (\<exists>n. n + of_bool (m_locked g) \<le> k \<and> m_lockable g = pairs exclusive n @ (if m_locked g then [acquired exclusive] else []))"

lemma guard_inv_mono: "guard_inv e k g \<Longrightarrow> k \<le> k' \<Longrightarrow> guard_inv e k' g"
  unfolding guard_inv_def using order_trans by blast

lemma guard_inv_lock:
  assumes "guard_inv e k g"
  shows "guard_inv e (Suc k) (guard_lock recorder e g)"
proof (cases "m_locked g")
  case True
  then show ?thesis using guard_inv_mono [OF assms, of "Suc k"] by (simp add: guard_lock_def)
next
  case False
  then show ?thesis using assms by (auto simp: guard_inv_def guard_lock_def recorder_def acquired_def)
qed

lemma guard_inv_unlock:
  assumes "guard_inv e k g"
  shows "guard_inv e k (guard_unlock recorder e g)"
proof (cases "m_locked g")
  case True
  then obtain n where n: "Suc n \<le> k" "m_lockable g = pairs e n @ [acquired e]" using assms by (auto simp: guard_inv_def)
  then have "m_lockable (guard_unlock recorder e g) = pairs e (Suc n)"
    using True by (simp add: guard_unlock_def recorder_def given_back_def)
  moreover have "\<not> m_locked (guard_unlock recorder e g)" using True by (simp add: guard_unlock_def)
  ultimately show ?thesis using n(1) by (auto simp: guard_inv_def simp del: pairs.simps)
qed (use assms in \<open>simp add: guard_unlock_def\<close>)

lemma guard_inv_calls:
  "guard_inv e k g \<Longrightarrow>
   guard_inv e (k + length calls) (fold (\<lambda>c. if c then guard_lock recorder e else guard_unlock recorder e) calls g)"
proof (induction calls arbitrary: k g)
  case (Cons c calls)
  have "guard_inv e (Suc k) (if c then guard_lock recorder e g else guard_unlock recorder e g)"
    using guard_inv_lock [OF Cons.prems] guard_inv_mono [OF guard_inv_unlock [OF Cons.prems], of "Suc k"] by simp
  from Cons.IH [OF this] show ?case by (simp add: if_distrib [of "\<lambda>f. f g"])
qed simp

text \<open>
  A guard gives back what it takes. Whatever calls of \<open>lock\<close> and \<open>unlock\<close> a scope makes on
  its guard, deferred or not, exclusive or shared, the lockable sees acquisitions and releases
  of that kind in strict alternation, at most one more than there are calls, and is free at the
  end of the scope: it is never locked twice nor unlocked without being held.
\<close>
lemma guard_balanced:
  "\<exists>n. n \<le> Suc (length calls) \<and> guard_scope recorder exclusive deferred calls [] = pairs exclusive n"
proof -
  have "guard_inv exclusive 1 (guard_new recorder exclusive [] deferred)"
    by (auto simp: guard_inv_def guard_new_def guard_lock_def recorder_def acquired_def Let_def intro!: exI [of _ 0])
  from guard_inv_unlock [OF guard_inv_calls [OF this]] obtain g where
    g: "guard_inv exclusive (1 + length calls) (guard_unlock recorder exclusive g)"
      "guard_scope recorder exclusive deferred calls [] = m_lockable (guard_unlock recorder exclusive g)"
    by (auto simp: guard_scope_def guard_destructor_def)
  moreover have "\<not> m_locked (guard_unlock recorder exclusive g)" by (simp add: guard_unlock_def)
  ultimately show ?thesis by (auto simp: guard_inv_def)
qed

end
