(* ===== verification/Context.thy ===== *)
theory Context
  imports Walker Flags Keepers
begin

unbundle bit_operations_syntax

text \<open>
  \<open>csp_base/context\<close>: the context of a message (\<open>Common.h\<close>) and of a data message
  (\<open>Data.h\<close>), for serialization over an octet vector and for deserialization over an
  octet walker. The container a context refers to is a field of it: the one object is
  never used through two contexts at a time, and a context made on the container of
  another one gives it back (\<open>ContextProcessor\<close>).
\<close>

section \<open>Common context\<close>

record 'b common =
  m_binaryData :: 'b
  m_messageType :: message
  m_protocolVersion :: byte
  m_protocolVersionsNotMatch :: bool
  m_endiannessNotMatch :: bool
  m_bitness32 :: bool
  m_bigEndianFormat :: bool
  m_endiannessDifference :: bool

type_synonym ('b, 'x) ctx = "('b, 'x) common_scheme"

definition setMessageType :: "('b, 'x) ctx \<Rightarrow> message \<Rightarrow> ('b, 'x) ctx" where
  "setMessageType c messageType = c\<lparr>m_messageType := messageType\<rparr>"

definition setProtocolVersion :: "('b, 'x) ctx \<Rightarrow> byte \<Rightarrow> ('b, 'x) ctx" where
  "setProtocolVersion c protocolVersion =
     c\<lparr>m_protocolVersion := protocolVersion,
       m_protocolVersionsNotMatch := isProtocolVersionSameAsLatestOur protocolVersion\<rparr>"

definition getCommonFlags :: "('b, 'x) ctx \<Rightarrow> common_flags" where
  "getCommonFlags c =
     cf_of ((if m_bitness32 c then kBitness32 else 0)
        OR (if m_bigEndianFormat c then kBigEndianFormat else 0)
        OR (if m_endiannessDifference c then kEndiannessDifference else 0))"

definition setCommonFlags :: "bool \<Rightarrow> ('b, 'x) ctx \<Rightarrow> common_flags \<Rightarrow> ('b, 'x) ctx" where
  "setCommonFlags be c commonFlags =
     c\<lparr>m_bitness32 := cf_bitness32 commonFlags,
       m_bigEndianFormat := cf_bigEndianFormat commonFlags,
       m_endiannessDifference := cf_endiannessDifference commonFlags,
       m_endiannessNotMatch := (cf_bigEndianFormat commonFlags \<noteq> be)\<rparr>"

definition setCommonFlags_word :: "bool \<Rightarrow> ('b, 'x) ctx \<Rightarrow> u32 \<Rightarrow> ('b, 'x) ctx" where
  "setCommonFlags_word be c commonFlags = setCommonFlags be c (cf_of commonFlags)"

text \<open>The constructor; a serialization context also reserves 256 octets, ignoring the status.\<close>

definition common_new :: "bool \<Rightarrow> 'b \<Rightarrow> byte \<Rightarrow> message \<Rightarrow> common_flags \<Rightarrow> 'b common" where
  "common_new be binaryData protocolVersion messageType commonFlags =
     setCommonFlags be
       \<lparr>m_binaryData = binaryData, m_messageType = messageType, m_protocolVersion = protocolVersion,
        m_protocolVersionsNotMatch = (getLatestProtocolVersion \<noteq> protocolVersion),
        m_endiannessNotMatch = False, m_bitness32 = False, m_bigEndianFormat = False,
        m_endiannessDifference = False\<rparr> commonFlags"

definition octet :: "byte elem" where
  "octet = raw_elem 1"

definition scommon_new :: "env \<Rightarrow> byte vec \<Rightarrow> byte \<Rightarrow> message \<Rightarrow> common_flags \<Rightarrow> byte vec common" where
  "scommon_new E binaryData protocolVersion messageType commonFlags =
     common_new (big_endian E) (snd (vec_reserve E octet binaryData 256)) protocolVersion messageType
       commonFlags"

definition dcommon_new :: "env \<Rightarrow> byte walker \<Rightarrow> byte \<Rightarrow> message \<Rightarrow> common_flags \<Rightarrow> byte walker common" where
  "dcommon_new E binaryData protocolVersion messageType commonFlags =
     common_new (big_endian E) binaryData protocolVersion messageType commonFlags"

definition scommon_resetToDefaultsExceptDataContents :: "('b, 'x) ctx \<Rightarrow> ('b, 'x) ctx" where
  "scommon_resetToDefaultsExceptDataContents c =
     c\<lparr>m_protocolVersion := getLatestProtocolVersion, m_messageType := Msg_Data\<rparr>"

definition dcommon_resetToDefaultsExceptDataContents ::
    "(byte walker, 'x) ctx \<Rightarrow> (byte walker, 'x) ctx" where
  "dcommon_resetToDefaultsExceptDataContents c =
     c\<lparr>m_binaryData := snd (walker_seek (m_binaryData c) 0),
       m_protocolVersion := getLatestProtocolVersion, m_messageType := Msg_Data\<rparr>"

definition scommon_clear :: "(byte vec, 'x) ctx \<Rightarrow> (byte vec, 'x) ctx" where
  "scommon_clear c =
     (let c = scommon_resetToDefaultsExceptDataContents c
      in c\<lparr>m_binaryData := vec_clear octet (m_binaryData c)\<rparr>)"

definition dcommon_clear :: "(byte walker, 'x) ctx \<Rightarrow> (byte walker, 'x) ctx" where
  "dcommon_clear c =
     (let c = dcommon_resetToDefaultsExceptDataContents c
      in c\<lparr>m_binaryData := walker_clear octet (m_binaryData c)\<rparr>)"

section \<open>Data context\<close>

text \<open>
  The maps of pointers: addresses to offsets when serializing, offsets to addresses when
  deserializing. The added pointers, a vector of \<open>GenericPointerKeeper\<close> of the
  deserializing side, stay \<open>None\<close> when serializing.
\<close>

record ('b, 'k, 'v) data = "'b common" +
  m_pPointersMap :: "('k \<Rightarrow> 'v option) option"
  m_pAddedPointers :: "nat pointer_keeper vec option"
  m_interfaceVersion :: u32
  m_dataFlags :: data_flags
  m_interfaceVersionsNotMatch :: bool
  m_forTempUseHeap :: bool
  m_alignmentMayBeNotEqual :: bool
  m_sizeOfPrimitivesMayBeNotEqual :: bool
  m_allowUnmanagedPointers :: bool
  m_checkRecursivePointers :: bool
  m_simplyAssignableTagsOptimizationsAreTurnedOff :: bool

type_synonym sdata = "(byte vec, nat, u64) data"
type_synonym ddata = "(byte walker, u64, nat) data"

definition setDataFlags :: "('b, 'k, 'v, 'x) data_scheme \<Rightarrow> data_flags \<Rightarrow> ('b, 'k, 'v, 'x) data_scheme" where
  "setDataFlags c dataFlags =
     c\<lparr>m_dataFlags := dataFlags,
       m_alignmentMayBeNotEqual := df_alignmentMayBeNotEqual dataFlags,
       m_sizeOfPrimitivesMayBeNotEqual := df_sizeOfIntegersMayBeNotEqual dataFlags,
       m_allowUnmanagedPointers := df_allowUnmanagedPointers dataFlags,
       m_checkRecursivePointers := df_checkRecursivePointers dataFlags,
       m_simplyAssignableTagsOptimizationsAreTurnedOff :=
         df_simplyAssignableTagsOptimizationsAreTurnedOff dataFlags\<rparr>"

definition setDataFlags_word :: "('b, 'k, 'v) data \<Rightarrow> u32 \<Rightarrow> ('b, 'k, 'v) data" where
  "setDataFlags_word c dataFlags = setDataFlags c (df_of dataFlags)"

definition setInterfaceVersion :: "('b, 'k, 'v) data \<Rightarrow> u32 \<Rightarrow> ('b, 'k, 'v) data" where
  "setInterfaceVersion c interfaceVersion = c\<lparr>m_interfaceVersion := interfaceVersion\<rparr>"

definition setInterfaceVersionsNotMatch :: "('b, 'k, 'v) data \<Rightarrow> bool \<Rightarrow> ('b, 'k, 'v) data" where
  "setInterfaceVersionsNotMatch c b = c\<lparr>m_interfaceVersionsNotMatch := b\<rparr>"

definition setHeapUseForTemp :: "('b, 'k, 'v) data \<Rightarrow> bool \<Rightarrow> ('b, 'k, 'v) data" where
  "setHeapUseForTemp c b = c\<lparr>m_forTempUseHeap := b\<rparr>"

definition setPointersMap :: "('b, 'k, 'v) data \<Rightarrow> ('k \<Rightarrow> 'v option) option \<Rightarrow> ('b, 'k, 'v) data" where
  "setPointersMap c pPointersMap = c\<lparr>m_pPointersMap := pPointersMap\<rparr>"

definition setAddedPointers :: "('b, 'k, 'v) data \<Rightarrow> nat pointer_keeper vec option \<Rightarrow> ('b, 'k, 'v) data" where
  "setAddedPointers c pAddedPointers = c\<lparr>m_pAddedPointers := pAddedPointers\<rparr>"

text \<open>The constructors: all give the common part, then the rest.\<close>

definition data_of_common ::
    "'b common \<Rightarrow> data_flags \<Rightarrow> bool \<Rightarrow> u32 \<Rightarrow> nat pointer_keeper vec option \<Rightarrow> ('k \<Rightarrow> 'v option) option
     \<Rightarrow> ('b, 'k, 'v) data" where
  "data_of_common common dataFlags forTempUseHeap interfaceVersion pAddedPointers pPointersMap =
     setDataFlags
       (common.extend common
          \<lparr>m_pPointersMap = pPointersMap, m_pAddedPointers = pAddedPointers,
           m_interfaceVersion = interfaceVersion, m_dataFlags = df_default,
           m_interfaceVersionsNotMatch = False, m_forTempUseHeap = forTempUseHeap,
           m_alignmentMayBeNotEqual = False, m_sizeOfPrimitivesMayBeNotEqual = False,
           m_allowUnmanagedPointers = False, m_checkRecursivePointers = False,
           m_simplyAssignableTagsOptimizationsAreTurnedOff = False\<rparr>) dataFlags"

definition sdata_new ::
    "env \<Rightarrow> byte vec \<Rightarrow> byte \<Rightarrow> common_flags \<Rightarrow> data_flags \<Rightarrow> bool \<Rightarrow> u32 \<Rightarrow> (nat \<Rightarrow> u64 option) option \<Rightarrow> sdata" where
  "sdata_new E binaryData protocolVersion commonFlags dataFlags forTempUseHeap interfaceVersion pPointersMap =
     data_of_common (scommon_new E binaryData protocolVersion Msg_Data commonFlags)
       dataFlags forTempUseHeap interfaceVersion None pPointersMap"

definition ddata_new ::
    "env \<Rightarrow> byte walker \<Rightarrow> byte \<Rightarrow> common_flags \<Rightarrow> data_flags \<Rightarrow> bool \<Rightarrow> u32
     \<Rightarrow> nat pointer_keeper vec option \<Rightarrow> (u64 \<Rightarrow> nat option) option \<Rightarrow> ddata" where
  "ddata_new E binaryData protocolVersion commonFlags dataFlags forTempUseHeap interfaceVersion
       pAddedPointers pPointersMap =
     data_of_common (dcommon_new E binaryData protocolVersion Msg_Data commonFlags)
       dataFlags forTempUseHeap interfaceVersion pAddedPointers pPointersMap"

text \<open>
  The element type of the vector of keepers, a class of 24 octets that is only moved, and
  \<open>ExtendedPointersProcessing::clear\<close>.
\<close>

definition keeper_elem :: "nat pointer_keeper elem" where
  "keeper_elem = \<lparr>e_sizeof = 24, e_ctor = True, e_copy = (\<lambda>k. (ErrorInvalidArgument, k)),
     e_move = (\<lambda>k. (NoError, fst (gpk_move_new k), snd (gpk_move_new k)))\<rparr>"

definition epp_clear :: "('b, 'k, 'v) data \<Rightarrow> ('b, 'k, 'v) data" where
  "epp_clear c =
     c\<lparr>m_pAddedPointers := map_option (vec_clear keeper_elem) (m_pAddedPointers c),
       m_pPointersMap := map_option (\<lambda>_ _. None) (m_pPointersMap c)\<rparr>"

definition data_reset_rest :: "('b, 'k, 'v) data \<Rightarrow> ('b, 'k, 'v) data" where
  "data_reset_rest c =
     setDataFlags ((epp_clear c)\<lparr>m_interfaceVersion := kInterfaceVersionUndefined,
                                m_interfaceVersionsNotMatch := False\<rparr>) df_default"

definition sdata_resetToDefaultsExceptDataContents :: "sdata \<Rightarrow> sdata" where
  "sdata_resetToDefaultsExceptDataContents c =
     data_reset_rest (scommon_resetToDefaultsExceptDataContents c)"

definition ddata_resetToDefaultsExceptDataContents :: "ddata \<Rightarrow> ddata" where
  "ddata_resetToDefaultsExceptDataContents c =
     data_reset_rest (dcommon_resetToDefaultsExceptDataContents c)"

text \<open>\<open>clear\<close>: the virtual reset, then the container, then the fields of \<open>Data\<close> again.\<close>

definition sdata_clear :: "sdata \<Rightarrow> sdata" where
  "sdata_clear c =
     (let c = sdata_resetToDefaultsExceptDataContents c
      in data_reset_rest (c\<lparr>m_binaryData := vec_clear octet (m_binaryData c)\<rparr>))"

definition ddata_clear :: "ddata \<Rightarrow> ddata" where
  "ddata_clear c =
     (let c = ddata_resetToDefaultsExceptDataContents c
      in data_reset_rest (c\<lparr>m_binaryData := walker_clear octet (m_binaryData c)\<rparr>))"

section \<open>Invariants\<close>

text \<open>What the cached fields of a context mirror.\<close>

definition common_inv :: "bool \<Rightarrow> ('b, 'x) ctx \<Rightarrow> bool" where
  "common_inv be c \<longleftrightarrow> m_endiannessNotMatch c = (m_bigEndianFormat c \<noteq> be)"

definition data_inv :: "('b, 'k, 'v) data \<Rightarrow> bool" where
  "data_inv c \<longleftrightarrow>
     m_alignmentMayBeNotEqual c = df_alignmentMayBeNotEqual (m_dataFlags c)
     \<and> m_sizeOfPrimitivesMayBeNotEqual c = df_sizeOfIntegersMayBeNotEqual (m_dataFlags c)
     \<and> m_allowUnmanagedPointers c = df_allowUnmanagedPointers (m_dataFlags c)
     \<and> m_checkRecursivePointers c = df_checkRecursivePointers (m_dataFlags c)
     \<and> m_simplyAssignableTagsOptimizationsAreTurnedOff c =
         df_simplyAssignableTagsOptimizationsAreTurnedOff (m_dataFlags c)"

lemma common_inv_ops [ctx_simps]:
  "common_inv be (setCommonFlags be c f)" "common_inv be (common_new be b pv mt f)"
  "common_inv be (setMessageType c mt) = common_inv be c"
  "common_inv be (setProtocolVersion c pv) = common_inv be c"
  "common_inv be (c\<lparr>m_binaryData := b\<rparr>) = common_inv be c"
  "common_inv be (scommon_resetToDefaultsExceptDataContents c) = common_inv be c"
  "common_inv be (dcommon_resetToDefaultsExceptDataContents d) = common_inv be d"
  "common_inv be (scommon_clear sc) = common_inv be sc"
  "common_inv be (dcommon_clear d) = common_inv be d"
  by (simp_all add: common_inv_def setCommonFlags_def common_new_def setMessageType_def
      setProtocolVersion_def scommon_resetToDefaultsExceptDataContents_def
      dcommon_resetToDefaultsExceptDataContents_def scommon_clear_def dcommon_clear_def Let_def)

lemma data_inv_ops [ctx_simps]:
  "data_inv (setDataFlags c f)" "data_inv (data_of_common cm df h iv ap pm)" "data_inv (data_reset_rest c)"
  "data_inv (setCommonFlags be c cf) = data_inv c" "data_inv (setProtocolVersion c pv) = data_inv c"
  "data_inv (setMessageType c mt) = data_inv c" "data_inv (c\<lparr>m_binaryData := b\<rparr>) = data_inv c"
  "data_inv (setInterfaceVersion c v) = data_inv c" "data_inv (setInterfaceVersionsNotMatch c x) = data_inv c"
  "data_inv (setHeapUseForTemp c x) = data_inv c" "data_inv (setPointersMap c pm) = data_inv c"
  "data_inv (setAddedPointers c apt) = data_inv c"
  by (simp_all add: data_inv_def setDataFlags_def data_of_common_def data_reset_rest_def setCommonFlags_def
      setProtocolVersion_def setMessageType_def setInterfaceVersion_def setInterfaceVersionsNotMatch_def
      setHeapUseForTemp_def setPointersMap_def setAddedPointers_def)

text \<open>Common flags go through the context unchanged.\<close>

lemma getCommonFlags_set:
  "cf_valid f \<Longrightarrow> getCommonFlags (setCommonFlags be c f) = f"
  using cf_of_tests [of f] by (simp add: getCommonFlags_def setCommonFlags_def)

lemma getCommonFlags_tests:
  "cf_bitness32 (getCommonFlags c) = m_bitness32 c" "cf_bigEndianFormat (getCommonFlags c) = m_bigEndianFormat c"
  "cf_endiannessDifference (getCommonFlags c) = m_endiannessDifference c" "cf_valid (getCommonFlags c)"
  by (auto simp: getCommonFlags_def cf_bitness32_def cf_bigEndianFormat_def cf_endiannessDifference_def cf_of_def
      cf_valid_def kBitness32_def kBigEndianFormat_def kEndiannessDifference_def cf_kValidFlagsMask_def)

section \<open>Claims\<close>

text \<open>What a user of a serialization context may call on it between its construction and its use.\<close>

datatype ctx_op =
    Op_setCommonFlags common_flags
  | Op_setProtocolVersion byte
  | Op_setMessageType message
  | Op_setDataFlags data_flags
  | Op_setInterfaceVersion u32
  | Op_setInterfaceVersionsNotMatch bool
  | Op_setHeapUseForTemp bool
  | Op_resetToDefaultsExceptDataContents
  | Op_clear

fun sdata_op :: "env \<Rightarrow> ctx_op \<Rightarrow> sdata \<Rightarrow> sdata" where
  "sdata_op E (Op_setCommonFlags f) c = setCommonFlags (big_endian E) c f"
| "sdata_op E (Op_setProtocolVersion v) c = setProtocolVersion c v"
| "sdata_op E (Op_setMessageType t) c = setMessageType c t"
| "sdata_op E (Op_setDataFlags f) c = setDataFlags c f"
| "sdata_op E (Op_setInterfaceVersion v) c = setInterfaceVersion c v"
| "sdata_op E (Op_setInterfaceVersionsNotMatch b) c = setInterfaceVersionsNotMatch c b"
| "sdata_op E (Op_setHeapUseForTemp b) c = setHeapUseForTemp c b"
| "sdata_op E Op_resetToDefaultsExceptDataContents c = sdata_resetToDefaultsExceptDataContents c"
| "sdata_op E Op_clear c = sdata_clear c"

lemma sdata_op_inv:
  assumes "common_inv (big_endian E) c" "data_inv c"
  shows "common_inv (big_endian E) (sdata_op E p c)" "data_inv (sdata_op E p c)"
  using assms
  by (cases p; simp add: common_inv_def data_inv_def setCommonFlags_def setProtocolVersion_def setMessageType_def
      setDataFlags_def setInterfaceVersion_def setInterfaceVersionsNotMatch_def setHeapUseForTemp_def
      sdata_resetToDefaultsExceptDataContents_def sdata_clear_def data_reset_rest_def epp_clear_def
      scommon_resetToDefaultsExceptDataContents_def)+

lemma sdata_ops_inv:
  "common_inv (big_endian E) c \<Longrightarrow> data_inv c \<Longrightarrow>
   common_inv (big_endian E) (fold (sdata_op E) ops c) \<and> data_inv (fold (sdata_op E) ops c)"
  by (induction ops arbitrary: c) (simp_all add: sdata_op_inv)

lemma sdata_new_inv:
  "common_inv (big_endian E) (sdata_new E b pv cf df h iv pm)" "data_inv (sdata_new E b pv cf df h iv pm)"
  by (simp_all add: sdata_new_def ctx_simps) (simp add: data_of_common_def scommon_new_def common_new_def
      common_inv_def setDataFlags_def setCommonFlags_def common.defs)

text \<open>
  C24: in a serialization context the cached booleans always mirror the flags: after its
  construction and any sequence of setters, resets and \<open>clear\<close>, \<open>endiannessNotMatch\<close> says
  whether the format differs from the byte order of the platform, and each of the five data
  flag booleans has the value of its bit in the data flags.
\<close>
theorem context_caches_mirror_flags:
  "let c = fold (sdata_op E) ops (sdata_new E b pv cf df h iv pm) in
     m_endiannessNotMatch c = (m_bigEndianFormat c \<noteq> big_endian E)
     \<and> m_alignmentMayBeNotEqual c = df_alignmentMayBeNotEqual (m_dataFlags c)
     \<and> m_sizeOfPrimitivesMayBeNotEqual c = df_sizeOfIntegersMayBeNotEqual (m_dataFlags c)
     \<and> m_allowUnmanagedPointers c = df_allowUnmanagedPointers (m_dataFlags c)
     \<and> m_checkRecursivePointers c = df_checkRecursivePointers (m_dataFlags c)
     \<and> m_simplyAssignableTagsOptimizationsAreTurnedOff c =
         df_simplyAssignableTagsOptimizationsAreTurnedOff (m_dataFlags c)"
  using sdata_ops_inv [OF sdata_new_inv, of E ops b pv cf df h iv pm]
  by (simp only: Let_def common_inv_def data_inv_def)

text \<open>
  \<open>Common::setProtocolVersion\<close> sets \<open>m_protocolVersionsNotMatch\<close> the wrong way round: for
  the latest version, for which the constructor clears it, the setter sets it, and for any
  other version the setter clears it; the reset of the context does not touch it.
\<close>
lemma setProtocolVersion_inverts_match:
  "m_protocolVersionsNotMatch (common_new be b getLatestProtocolVersion mt cf) = False
   \<and> m_protocolVersionsNotMatch (setProtocolVersion c getLatestProtocolVersion) = True
   \<and> (m_protocolVersionsNotMatch (setProtocolVersion c pv) \<noteq> (pv \<noteq> getLatestProtocolVersion))
   \<and> m_protocolVersionsNotMatch (scommon_resetToDefaultsExceptDataContents (setProtocolVersion c pv))
       = m_protocolVersionsNotMatch (setProtocolVersion c pv)"
  by (simp add: common_new_def setCommonFlags_def setProtocolVersion_def isProtocolVersionSameAsLatestOur_def
      scommon_resetToDefaultsExceptDataContents_def)

end
