(* ===== verification/RW.thy ===== *)
theory RW
  imports Context
begin

text \<open>
  \<open>csp_base/processing/rw.h\<close>: primitives and raw octets, to the container of a
  serialization context and from that of a deserialization context. A primitive is the
  word of its object representation; \<open>long double\<close>, whose size is not 2, 4 or 8, is not
  modelled. An object argument is the list of its octets. Reading octets that were never
  initialised leaves the value of the target open; the model keeps the old one.
\<close>

section \<open>The code\<close>

definition writePrimitive ::
    "env \<Rightarrow> 'a::len word \<Rightarrow> (byte vec, 'x) ctx \<Rightarrow> status \<times> (byte vec, 'x) ctx" where
  "writePrimitive E value ctx =
     (let value = (if EndiannessReversable (LENGTH('a) div 8) \<and> m_endiannessNotMatch ctx
                   then reverseEndianess value else value);
          (st, b) = vec_pushBackArithmeticValue E (m_binaryData ctx) (obj_bytes (big_endian E) value)
      in (st, ctx\<lparr>m_binaryData := b\<rparr>))"

text \<open>\<open>sz\<close> is the size of the element type; the product is a \<open>csp_size_t\<close>.\<close>

definition writeRawData ::
    "env \<Rightarrow> nat \<Rightarrow> byte list option \<Rightarrow> u64 \<Rightarrow> (byte vec, 'x) ctx \<Rightarrow> status \<times> (byte vec, 'x) ctx" where
  "writeRawData E sz p n ctx =
     (let bytesSize = of_nat sz * n;
          (st, b) = vec_pushBackN E octet (m_binaryData ctx) p bytesSize
      in (st, ctx\<lparr>m_binaryData := b\<rparr>))"

definition readPrimitive ::
    "env \<Rightarrow> (byte walker, 'x) ctx \<Rightarrow> 'a::len word \<Rightarrow> status \<times> (byte walker, 'x) ctx \<times> 'a word" where
  "readPrimitive E ctx value =
     (let (st, w, r) = walker_readArithmeticValue (m_binaryData ctx) (LENGTH('a) div 8)
                         (Some (obj_bytes (big_endian E) value));
          value = (case r of Some bs \<Rightarrow> obj_value (big_endian E) bs | None \<Rightarrow> value)
      in if \<not> statusSuccess st then (st, ctx\<lparr>m_binaryData := w\<rparr>, value)
         else (NoError, ctx\<lparr>m_binaryData := w\<rparr>,
               if EndiannessReversable (LENGTH('a) div 8) \<and> m_endiannessNotMatch ctx
               then reverseEndianess value else value))"

definition readRawData ::
    "env \<Rightarrow> nat \<Rightarrow> (byte walker, 'x) ctx \<Rightarrow> u64 \<Rightarrow> byte storage
     \<Rightarrow> status \<times> (byte walker, 'x) ctx \<times> byte storage" where
  "readRawData E sz ctx n p =
     (let bytesSize = of_nat sz * n;
          (st, w, p, readSize) = walker_read octet (m_binaryData ctx) p bytesSize 0
      in if \<not> statusSuccess st then (st, ctx\<lparr>m_binaryData := w\<rparr>, p)
         else (if readSize = bytesSize then NoError else ErrorOverflow, ctx\<lparr>m_binaryData := w\<rparr>, p))"

section \<open>Contracts of writers and readers\<close>

text \<open>
  \<open>emits E f xs c\<close>: in a context like \<open>c\<close>, whatever its container holds, \<open>f\<close> appends \<open>xs\<close>
  to it and changes nothing else; or the memory ran out and a part of \<open>xs\<close> was appended.
\<close>

definition memory_out :: "env \<Rightarrow> bool" where
  "memory_out E \<longleftrightarrow> (\<exists>n. \<not> malloc_ok E n)"

definition emits ::
    "env \<Rightarrow> ((byte vec, 'x) ctx \<Rightarrow> status \<times> (byte vec, 'x) ctx) \<Rightarrow> byte list \<Rightarrow> (byte vec, 'x) ctx \<Rightarrow> bool" where
  "emits E f xs c \<longleftrightarrow>
     (\<forall>b bs. vec_rep b bs \<and> length bs + length xs < 2 ^ 63 \<longrightarrow>
        (\<exists>st b'. f (c\<lparr>m_binaryData := b\<rparr>) = (st, c\<lparr>m_binaryData := b'\<rparr>) \<and>
           (st = NoError \<and> vec_rep b' (bs @ xs)
            \<or> st = ErrorNoMemory \<and> memory_out E \<and> (\<exists>i. vec_rep b' (bs @ take i xs)))))"

text \<open>
  \<open>parses E f xs c v\<close>: in a context like \<open>c\<close> whose walker stands before \<open>xs\<close>, \<open>f\<close> gives \<open>v\<close>
  and stands behind \<open>xs\<close>.
\<close>

definition parses ::
    "((byte walker, 'x) ctx \<Rightarrow> status \<times> (byte walker, 'x) ctx \<times> 'v) \<Rightarrow> byte list
     \<Rightarrow> (byte walker, 'x) ctx \<Rightarrow> 'v \<Rightarrow> bool" where
  "parses f xs c v \<longleftrightarrow>
     (\<forall>w bs k. walker_rep w bs k \<and> length bs < 2 ^ 63 \<and> length xs \<le> length bs - k
          \<and> take (length xs) (drop k bs) = xs \<longrightarrow>
        (\<exists>w'. f (c\<lparr>m_binaryData := w\<rparr>) = (NoError, c\<lparr>m_binaryData := w'\<rparr>, v)
           \<and> walker_rep w' bs (k + length xs)))"

lemma emitsI:
  assumes "\<And>b bs. vec_rep b bs \<Longrightarrow> length bs + length xs < 2 ^ 63 \<Longrightarrow>
        \<exists>st b'. f (c\<lparr>m_binaryData := b\<rparr>) = (st, c\<lparr>m_binaryData := b'\<rparr>) \<and>
           (st = NoError \<and> vec_rep b' (bs @ xs)
            \<or> st = ErrorNoMemory \<and> memory_out E \<and> (\<exists>i. vec_rep b' (bs @ take i xs)))"
  shows "emits E f xs c"
  using assms by (simp add: emits_def)

lemma emitsE:
  assumes "emits E f xs c" "vec_rep b bs" "length bs + length xs < 2 ^ 63"
  obtains (ok) b' where "f (c\<lparr>m_binaryData := b\<rparr>) = (NoError, c\<lparr>m_binaryData := b'\<rparr>)" "vec_rep b' (bs @ xs)"
    | (no_memory) b' i where "f (c\<lparr>m_binaryData := b\<rparr>) = (ErrorNoMemory, c\<lparr>m_binaryData := b'\<rparr>)"
        "memory_out E" "vec_rep b' (bs @ take i xs)"
  using assms unfolding emits_def by blast

lemma parsesI:
  assumes "\<And>w bs k. \<lbrakk>walker_rep w bs k; length bs < 2 ^ 63; length xs \<le> length bs - k;
      take (length xs) (drop k bs) = xs\<rbrakk> \<Longrightarrow>
      \<exists>w'. f (c\<lparr>m_binaryData := w\<rparr>) = (NoError, c\<lparr>m_binaryData := w'\<rparr>, v) \<and> walker_rep w' bs (k + length xs)"
  shows "parses f xs c v"
  using assms by (simp add: parses_def)

lemma parsesE:
  assumes "parses f xs c v" "walker_rep w bs k" "length bs < 2 ^ 63" "length xs \<le> length bs - k"
    "take (length xs) (drop k bs) = xs"
  obtains w' where "f (c\<lparr>m_binaryData := w\<rparr>) = (NoError, c\<lparr>m_binaryData := w'\<rparr>, v)"
    "walker_rep w' bs (k + length xs)"
  using assms unfolding parses_def by blast

lemma parsesD:
  assumes "parses f xs c v" "walker_rep w bs k" "length bs < 2 ^ 63" "length xs \<le> length bs - k"
    "take (length xs) (drop k bs) = xs"
  shows "\<exists>w'. f (c\<lparr>m_binaryData := w\<rparr>) = (NoError, c\<lparr>m_binaryData := w'\<rparr>, v) \<and> walker_rep w' bs (k + length xs)"
  using assms unfolding parses_def by blast

text \<open>With memory for every request nothing fails.\<close>

lemma emits_total:
  assumes "emits E f xs c" "\<not> memory_out E" "vec_rep (m_binaryData c) bs" "length bs + length xs < 2 ^ 63"
  shows "\<exists>b'. f c = (NoError, c\<lparr>m_binaryData := b'\<rparr>) \<and> vec_rep b' (bs @ xs)"
  using emitsE [OF assms(1,3,4)] assms(2) by (metis common.surjective common.update_convs(1))

lemma emits_Nil: "(\<And>b. f (c\<lparr>m_binaryData := b\<rparr>) = (NoError, c\<lparr>m_binaryData := b\<rparr>)) \<Longrightarrow> emits E f [] c"
  by (auto simp: emits_def)

lemma emits_run:
  assumes "emits E f xs c" "emits E g ys c"
  shows "emits E (\<lambda>c. run (f c) g) (xs @ ys) c"
proof (rule emitsI)
  fix b :: "byte vec" and bs
  assume b: "vec_rep b bs" and l: "length bs + length (xs @ ys) < 2 ^ 63"
  then have lx: "length bs + length xs < 2 ^ 63" by simp
  show "\<exists>st b'. run (f (c\<lparr>m_binaryData := b\<rparr>)) g = (st, c\<lparr>m_binaryData := b'\<rparr>) \<and>
      (st = NoError \<and> vec_rep b' (bs @ xs @ ys)
       \<or> st = ErrorNoMemory \<and> memory_out E \<and> (\<exists>i. vec_rep b' (bs @ take i (xs @ ys))))"
    using assms(1) b lx
  proof (cases rule: emitsE)
    case (ok b1)
    have ly: "length (bs @ xs) + length ys < 2 ^ 63" using l by simp
    show ?thesis
      using assms(2) ok(2) ly
    proof (cases rule: emitsE)
      case (ok b2)
      then show ?thesis using \<open>f (c\<lparr>m_binaryData := b\<rparr>) = (NoError, c\<lparr>m_binaryData := b1\<rparr>)\<close>
        by (auto simp: run_simps)
    next
      case (no_memory b2 i)
      have "take (length xs + i) (xs @ ys) = xs @ take i ys" by simp
      then show ?thesis
        using no_memory \<open>f (c\<lparr>m_binaryData := b\<rparr>) = (NoError, c\<lparr>m_binaryData := b1\<rparr>)\<close>
        by (auto simp: run_simps intro!: exI [of _ "length xs + i"])
    qed
  next
    case (no_memory b1 i)
    have "take (min i (length xs)) (xs @ ys) = take i xs" by (simp add: min_def)
    then show ?thesis
      using no_memory by (auto simp: run_simps intro!: exI [of _ "min i (length xs)"])
  qed
qed

text \<open>A last \<open>return Status::NoError\<close> changes nothing.\<close>

lemma emits_run_done:
  assumes "emits E f xs c"
  shows "emits E (\<lambda>c. run (f c) (\<lambda>c. (NoError, c))) xs c"
  using emits_run [OF assms emits_Nil [where f = "\<lambda>c. (NoError, c)" and c = c and E = E]] by simp

section \<open>Primitives\<close>

lemma octet_eq: "octet = raw_elem (Suc 0)"
  by (simp add: octet_def)

lemma wire_bytes:
  fixes w :: "'a::len word"
  assumes "LENGTH('a) \<in> {8, 16, 32, 64}"
  shows "obj_bytes be (if EndiannessReversable (LENGTH('a) div 8) \<and> (fmt \<noteq> be) then reverseEndianess w else w)
     = obj_bytes fmt w"
proof (cases "LENGTH('a) = 8")
  case True
  have "length (obj_bytes x w) = 1" for x using True by simp
  then have "obj_bytes True w = obj_bytes False w"
    by (simp add: obj_bytes_def True)
  then show ?thesis using True by (cases be; cases fmt) (simp_all add: EndiannessReversable_def)
next
  case False
  then have "LENGTH('a) \<in> {16, 32, 64}" using assms by auto
  then show ?thesis
    using reverse_flips_platform [of be w]
    by (cases be; cases fmt) (auto simp: EndiannessReversable_def)
qed

lemma emits_writePrimitive:
  fixes w :: "'a::len word"
  assumes "LENGTH('a) \<in> {8, 16, 32, 64}" "common_inv (big_endian E) c"
  shows "emits E (writePrimitive E w) (obj_bytes (m_bigEndianFormat c) w) c"
proof (rule emitsI)
  fix b :: "byte vec" and bs
  assume b: "vec_rep b bs" and l: "length bs + length (obj_bytes (m_bigEndianFormat c) w) < 2 ^ 63"
  let ?o = "obj_bytes (m_bigEndianFormat c) w"
  have o: "obj_bytes (big_endian E) (if EndiannessReversable (LENGTH('a) div 8) \<and> m_endiannessNotMatch c
        then reverseEndianess w else w) = ?o"
    using wire_bytes [OF assms(1), of "big_endian E" "m_bigEndianFormat c" w] assms(2)
    by (simp add: common_inv_def)
  obtain st b' where "vec_pushBackArithmeticValue E b ?o = (st, b')"
    "st = NoError \<and> vec_rep b' (bs @ ?o) \<or> st = ErrorNoMemory \<and> b' = b \<and> memory_out E"
    using pushBackArithmeticValue_ok [OF b l, of E] by (auto simp: memory_out_def)
  then show "\<exists>st b'. writePrimitive E w (c\<lparr>m_binaryData := b\<rparr>) = (st, c\<lparr>m_binaryData := b'\<rparr>) \<and>
      (st = NoError \<and> vec_rep b' (bs @ ?o)
       \<or> st = ErrorNoMemory \<and> memory_out E \<and> (\<exists>i. vec_rep b' (bs @ take i ?o)))"
    using o b by (auto simp: writePrimitive_def intro!: exI [of _ "0::nat"])
qed

lemma emits_writeRawData:
  assumes "length p = sz * unat n" "sz * unat n < 2 ^ 64" "0 < sz"
  shows "emits E (writeRawData E sz (Some p) n) p c"
proof (rule emitsI)
  fix b :: "byte vec" and bs
  assume b: "vec_rep b bs" and l: "length bs + length p < 2 ^ 63"
  have n: "unat (of_nat sz * n) = length p"
  proof (cases "n = 0")
    case False
    then have "1 \<le> unat n" by (simp add: Suc_le_eq unat_gt_0)
    then have "sz \<le> sz * unat n" by simp
    then have "sz < 2 ^ 64" using assms(2) by linarith
    then have "unat (of_nat sz :: u64) = sz" by (simp add: unat_of_nat_small)
    then show ?thesis using assms by (simp add: unat_word_ariths)
  qed (use assms in simp)
  obtain st b' where "vec_pushBackN E octet b (Some p) (of_nat sz * n) = (st, b')"
    "st = NoError \<and> vec_rep b' (bs @ p) \<or> st = ErrorNoMemory \<and> b' = b \<and> memory_out E"
    using raw.pushBackN_ok [OF b, of "of_nat sz * n" p 0 E] l n
    by (auto simp: octet_eq memory_out_def)
  then show "\<exists>st b'. writeRawData E sz (Some p) n (c\<lparr>m_binaryData := b\<rparr>) = (st, c\<lparr>m_binaryData := b'\<rparr>) \<and>
      (st = NoError \<and> vec_rep b' (bs @ p)
       \<or> st = ErrorNoMemory \<and> memory_out E \<and> (\<exists>i. vec_rep b' (bs @ take i p)))"
    using b by (auto simp: writeRawData_def intro!: exI [of _ "0::nat"])
qed

text \<open>A primitive is read in the byte order of the context's format.\<close>

lemma readPrimitive_ok:
  fixes old :: "'a::len word"
  assumes L: "LENGTH('a) \<in> {8, 16, 32, 64}" and i: "common_inv (big_endian E) c"
    and w: "walker_rep (m_binaryData c) bs k" and l: "length bs < 2 ^ 63"
  shows "k + LENGTH('a) div 8 \<le> length bs \<Longrightarrow>
      \<exists>w'. readPrimitive E c old = (NoError, c\<lparr>m_binaryData := w'\<rparr>,
             obj_value (m_bigEndianFormat c) (take (LENGTH('a) div 8) (drop k bs)))
         \<and> walker_rep w' bs (k + LENGTH('a) div 8)"
    and "length bs < k + LENGTH('a) div 8 \<Longrightarrow> readPrimitive E c old = (ErrorOverflow, c, old)"
proof -
  let ?n = "LENGTH('a) div 8"
  have b: "length bs + ?n < 2 ^ 64" using l L by auto
  show "\<exists>w'. readPrimitive E c old = (NoError, c\<lparr>m_binaryData := w'\<rparr>,
             obj_value (m_bigEndianFormat c) (take ?n (drop k bs)))
         \<and> walker_rep w' bs (k + ?n)" if k: "k + ?n \<le> length bs"
  proof -
    let ?bs = "take ?n (drop k bs)"
    obtain w' where r: "walker_readArithmeticValue (m_binaryData c) ?n (Some (obj_bytes (big_endian E) old))
        = (NoError, w', Some ?bs)" "walker_rep w' bs (k + ?n)"
      using readArithmeticValue_ok(1) [OF w b k] by blast
    have len: "length ?bs = ?n" using k by simp
    have "(if EndiannessReversable ?n \<and> m_endiannessNotMatch c
        then reverseEndianess (obj_value (big_endian E) ?bs :: 'a word) else obj_value (big_endian E) ?bs)
        = obj_value (m_bigEndianFormat c) ?bs"
    proof (cases "LENGTH('a) = 8")
      case True
      then have "length ?bs = Suc 0" using len by simp
      then obtain a where "?bs = [a]" unfolding length_Suc_conv by auto
      then have "rev ?bs = ?bs" by simp
      then show ?thesis using True by (simp add: EndiannessReversable_def obj_value_def)
    next
      case False
      then have "LENGTH('a) \<in> {16, 32, 64}" using L by auto
      from reverse_obj_value [OF this len, of "big_endian E"] this show ?thesis
        using i by (auto simp: common_inv_def EndiannessReversable_def)
    qed
    then show ?thesis using r by (auto simp: readPrimitive_def intro!: exI [of _ w'])
  qed
  show "readPrimitive E c old = (ErrorOverflow, c, old)" if k: "length bs < k + ?n"
  proof -
    have "8 dvd LENGTH('a)" using L by auto
    then show ?thesis
      using readArithmeticValue_ok(2) [OF w b k] by (simp add: readPrimitive_def obj_value_bytes)
  qed
qed

lemma parses_readPrimitive:
  fixes v :: "'a::len word"
  assumes "LENGTH('a) \<in> {8, 16, 32, 64}" "common_inv (big_endian E) c"
  shows "parses (\<lambda>c. readPrimitive E c old) (obj_bytes (m_bigEndianFormat c) v) c v"
proof (rule parsesI)
  fix w bs k
  let ?o = "obj_bytes (m_bigEndianFormat c) v"
  assume *: "walker_rep w bs k" "length bs < 2 ^ 63" "length ?o \<le> length bs - k"
    "take (length ?o) (drop k bs) = ?o"
  have i: "common_inv (big_endian E) (c\<lparr>m_binaryData := w\<rparr>)" using assms(2) by (simp add: ctx_simps)
  have d: "8 dvd LENGTH('a)" using assms(1) by auto
  have "k \<le> length bs" using *(1) by (simp add: walker_rep_def)
  then have "k + LENGTH('a) div 8 \<le> length bs" using *(3) by simp
  from readPrimitive_ok(1) [OF assms(1) i _ *(2) this, of old] *(1,4)
  show "\<exists>w'. readPrimitive E (c\<lparr>m_binaryData := w\<rparr>) old = (NoError, c\<lparr>m_binaryData := w'\<rparr>, v)
      \<and> walker_rep w' bs (k + length ?o)"
    by (auto simp: obj_value_bytes [OF d])
qed

lemma emits_writePrimitive_le:
  fixes w :: "'a::len word"
  assumes "LENGTH('a) \<in> {8, 16, 32, 64}" "common_inv (big_endian E) c" "\<not> m_bigEndianFormat c"
  shows "emits E (writePrimitive E w) (obj_bytes False w) c"
  using emits_writePrimitive [OF assms(1,2), of w] assms(3) by simp

lemma readPrimitive_le:
  fixes old v :: "'a::len word"
  assumes "LENGTH('a) \<in> {8, 16, 32, 64}" "common_inv (big_endian E) c" "\<not> m_bigEndianFormat c"
    and "walker_rep (m_binaryData c) bs k" "length bs < 2 ^ 63"
    and "take (LENGTH('a) div 8) (drop k bs) = obj_bytes False v" and "j = k + LENGTH('a) div 8"
  shows "\<exists>w'. readPrimitive E c old = (NoError, c\<lparr>m_binaryData := w'\<rparr>, v) \<and> walker_rep w' bs j"
proof -
  have d: "8 dvd LENGTH('a)" using assms(1) by auto
  have "k + LENGTH('a) div 8 \<le> length bs"
    using arg_cong [OF assms(6), of length] assms(1,4) by (auto simp: walker_rep_def min_def split: if_splits)
  from readPrimitive_ok(1) [OF assms(1,2,4,5) this, of old] show ?thesis
    using assms(3,6,7) by (simp add: obj_value_bytes [OF d])
qed

section \<open>Raw data\<close>

text \<open>
  Raw data is read whole, or the read reports \<open>ErrorOverflow\<close>; a read past the end takes
  what is left first.
\<close>

lemma readRawData_ok:
  assumes w: "walker_rep (m_binaryData c) bs k" and l: "length bs < 2 ^ 63"
    and n: "m = sz * unat n" "m < 2 ^ 63" "0 < sz" and p: "m \<le> length ds"
  shows "k + m \<le> length bs \<Longrightarrow> \<exists>w'. readRawData E sz c n (Cells ds)
      = (NoError, c\<lparr>m_binaryData := w'\<rparr>, Cells (map Obj (take m (drop k bs)) @ drop m ds)) \<and> walker_rep w' bs (k + m)"
    and "length bs < k + m \<Longrightarrow> \<exists>w'. readRawData E sz c n (Cells ds)
      = (ErrorOverflow, c\<lparr>m_binaryData := w'\<rparr>, Cells (map Obj (drop k bs) @ drop (length bs - k) ds)) \<and> walker_rep w' bs (length bs)"
proof -
  have k: "k \<le> length bs" "unat (m_offset (m_binaryData c)) = k" "vec_rep (m_vector (m_binaryData c)) bs"
    using w by (simp_all add: walker_rep_def)
  have un: "unat (of_nat sz * n) = m"
  proof (cases "n = 0")
    case False
    then have "1 \<le> unat n" by (simp add: Suc_le_eq unat_gt_0)
    then have "sz \<le> m" using n(1) by simp
    then have "sz < 2 ^ 64" using n(2) by simp
    then have "unat (of_nat sz :: u64) = sz" by (simp add: unat_of_nat_small)
    then show ?thesis using n by (simp add: unat_word_ariths)
  qed (use n in simp)
  have nm: "of_nat sz * n = (of_nat m :: u64)" using un by (metis of_nat_unat ucast_id)
  have km: "k + unat (of_nat sz * n) < 2 ^ 64" using un k(1) l n(2) by simp
  have ds: "vec_size (m_vector (m_binaryData c)) = of_nat (length bs)"
    using k(3) by (metis of_nat_unat ucast_id vec_rep_def vec_size_def)
  show "\<exists>w'. readRawData E sz c n (Cells ds)
      = (NoError, c\<lparr>m_binaryData := w'\<rparr>, Cells (map Obj (take m (drop k bs)) @ drop m ds)) \<and> walker_rep w' bs (k + m)"
    if fit: "k + m \<le> length bs"
  proof (cases "k < length bs")
    case True
    have "m = min (unat (of_nat sz * n)) (length bs - k)" using un fit by simp
    from raw.read_ok [OF w True km this, of ds 0 0] p show ?thesis
      by (auto simp: readRawData_def octet_eq nm)
  next
    case False
    then have "m = 0" "k = length bs" using fit k by simp_all
    moreover have z: "of_nat sz * n = 0" using nm \<open>m = 0\<close> by simp
    moreover have "\<not> m_offset (m_binaryData c) > m_dataSize (m_vector (m_binaryData c))"
      using k by (simp add: vec_rep_def word_less_nat_alt)
    moreover have "read_cells (m_p (m_vector (m_binaryData c))) (unat (m_offset (m_binaryData c))) 0 = Some []"
      using k(3) by (simp add: vec_rep_def)
    ultimately have "vec_copyN (raw_elem (Suc 0)) (m_vector (m_binaryData c)) (m_offset (m_binaryData c))
        0 (Cells ds) 0 = (NoError, Cells ds, 0)"
      by (simp add: vec_copyN_def copyToDirtyNoOverlap_def raw_elem_def)
    then show ?thesis
      using w p z \<open>m = 0\<close> \<open>k = length bs\<close>
      by (auto simp: readRawData_def octet_eq walker_read_def intro!: exI [of _ "m_binaryData c"])
  qed
  show "\<exists>w'. readRawData E sz c n (Cells ds)
      = (ErrorOverflow, c\<lparr>m_binaryData := w'\<rparr>, Cells (map Obj (drop k bs) @ drop (length bs - k) ds)) \<and> walker_rep w' bs (length bs)"
    if short: "length bs < k + m"
  proof (cases "k < length bs")
    case True
    define j where "j = length bs - k"
    have j: "j = min (unat (of_nat sz * n)) (length bs - k)" "j \<le> length ds" "k + j = length bs"
      using un short p True by (auto simp: j_def)
    have all: "take j (drop k bs) = drop k bs" "length bs - k = j" by (simp_all add: j_def)
    have "(of_nat j :: u64) \<noteq> of_nat m"
      using short j(3) l n(2) by (simp add: word_unat_eq_iff unat_of_nat_small)
    then show ?thesis
      using raw.read_ok [OF w True km j(1,2), of 0 0] j(3) all
      by (auto simp: readRawData_def octet_eq nm)
  next
    case False
    then have kk: "k = length bs" using k by simp
    have "vec_copyN (raw_elem (Suc 0)) (m_vector (m_binaryData c)) (m_offset (m_binaryData c))
        (of_nat sz * n) (Cells ds) 0 = (ErrorOverflow, Cells ds, 0)"
      using k kk short un by (auto simp: vec_copyN_def vec_rep_def word_less_nat_alt word_unat_eq_iff)
    then show ?thesis
      using w kk by (auto simp: readRawData_def octet_eq walker_read_def intro!: exI [of _ "m_binaryData c"])
  qed
qed

section \<open>Calls with an output object\<close>

text \<open>
  \<open>AGS_CS_RUN\<close> on a call that also gives an object \<open>v\<close>: on an error the caller returns the
  context and \<open>e v\<close>, what its own output object is then.
\<close>

definition run_out :: "status \<times> 'c \<times> 'v \<Rightarrow> ('v \<Rightarrow> 'u) \<Rightarrow> ('c \<Rightarrow> 'v \<Rightarrow> status \<times> 'c \<times> 'u) \<Rightarrow> status \<times> 'c \<times> 'u" where
  "run_out r e k = (case r of (st, c, v) \<Rightarrow> if statusSuccess st then k c v else (st, c, e v))"

lemma run_out_simp [run_simps]:
  "run_out (st, c, v) e k = (if statusSuccess st then k c v else (st, c, e v))"
  by (simp add: run_out_def)

lemma parses_run_out:
  assumes "parses f xs c v" "parses (\<lambda>c. k c v) ys c u"
  shows "parses (\<lambda>c. run_out (f c) e k) (xs @ ys) c u"
proof (rule parsesI)
  fix w bs n
  assume w: "walker_rep w bs n" and l: "length bs < 2 ^ 63" and m: "length (xs @ ys) \<le> length bs - n"
    and t: "take (length (xs @ ys)) (drop n bs) = xs @ ys"
  have t1: "take (length xs) (drop n bs) = xs" and t2: "take (length ys) (drop (n + length xs) bs) = ys"
    using arg_cong [OF t, of "take (length xs)"] arg_cong [OF t, of "drop (length xs)"]
    by (simp_all add: drop_take add.commute)
  have m1: "length xs \<le> length bs - n" "length ys \<le> length bs - (n + length xs)" using m by simp_all
  from assms(1) w l m1(1) t1 obtain w1 where f: "f (c\<lparr>m_binaryData := w\<rparr>) = (NoError, c\<lparr>m_binaryData := w1\<rparr>, v)"
    and w1: "walker_rep w1 bs (n + length xs)" by (rule parsesE)
  from assms(2) w1 l m1(2) t2 obtain w2 where "k (c\<lparr>m_binaryData := w1\<rparr>) v = (NoError, c\<lparr>m_binaryData := w2\<rparr>, u)"
    and "walker_rep w2 bs (n + length xs + length ys)" by (rule parsesE)
  with f show "\<exists>w'. run_out (f (c\<lparr>m_binaryData := w\<rparr>)) e k = (NoError, c\<lparr>m_binaryData := w'\<rparr>, u)
      \<and> walker_rep w' bs (n + length (xs @ ys))"
    by (auto simp: run_simps add.assoc)
qed

lemma parses_return: "parses (\<lambda>c. (NoError, c, v)) [] c v"
  by (auto simp: parses_def)

lemma parses_run_out_done:
  assumes "parses f xs c v"
  shows "parses (\<lambda>c. run_out (f c) e (\<lambda>c v. (NoError, c, g v))) xs c (g v)"
  using parses_run_out [OF assms, where k = "\<lambda>c v. (NoError, c, g v)" and ys = "[]" and u = "g v"]
  by (simp add: parses_return)

text \<open>An object read as raw data; \<open>old\<close> are its octets before.\<close>

definition storage_octets :: "byte list \<Rightarrow> byte storage \<Rightarrow> byte list" where
  "storage_octets old p =
     (case p of Cells cs \<Rightarrow> (case cells_octets cs of Some bs \<Rightarrow> bs | None \<Rightarrow> old) | _ \<Rightarrow> old)"

definition readRawObject ::
    "env \<Rightarrow> (byte walker, 'x) ctx \<Rightarrow> byte list \<Rightarrow> status \<times> (byte walker, 'x) ctx \<times> byte list" where
  "readRawObject E ctx old =
     (let (st, ctx, p) = readRawData E (length old) ctx 1 (Cells (map Obj old))
      in (st, ctx, storage_octets old p))"

lemma parses_readRawObject:
  assumes "length old = length xs" "xs \<noteq> []"
  shows "parses (\<lambda>c. readRawObject E c old) xs c xs"
proof (rule parsesI)
  fix w bs k
  assume w: "walker_rep w bs k" and l: "length bs < 2 ^ 63" and m: "length xs \<le> length bs - k"
    and t: "take (length xs) (drop k bs) = xs"
  have k: "k \<le> length bs" using w by (simp add: walker_rep_def)
  have a: "walker_rep (m_binaryData (c\<lparr>m_binaryData := w\<rparr>)) bs k" using w by simp
  have b: "length xs = length old * unat (1::u64)" "length xs < 2 ^ 63" "0 < length old"
    "length xs \<le> length (map Obj old)"
    using assms m l by auto
  have "k + length xs \<le> length bs" using k m by simp
  from readRawData_ok(1) [OF a l b this, of E] obtain w' where
    "readRawData E (length old) (c\<lparr>m_binaryData := w\<rparr>) 1 (Cells (map Obj old))
       = (NoError, c\<lparr>m_binaryData := w'\<rparr>, Cells (map Obj xs))" "walker_rep w' bs (k + length xs)"
    using t assms(1) by auto
  then show "\<exists>w'. readRawObject E (c\<lparr>m_binaryData := w\<rparr>) old = (NoError, c\<lparr>m_binaryData := w'\<rparr>, xs)
      \<and> walker_rep w' bs (k + length xs)"
    by (auto simp: readRawObject_def storage_octets_def intro!: exI [of _ w'])
qed

section \<open>Claims\<close>

text \<open>
  \<open>writePrimitive\<close> appends the octets of the value in the byte order of the context's
  format, whatever the byte order of the platform; without memory nothing is appended.
\<close>
lemma writePrimitive_format_order:
  fixes v :: "'a::len word"
  assumes "LENGTH('a) \<in> {8, 16, 32, 64}" "common_inv (big_endian E) c"
    and "vec_rep (m_binaryData c) bs" "length bs + LENGTH('a) div 8 < 2 ^ 63"
  shows "\<exists>st b. writePrimitive E v c = (st, c\<lparr>m_binaryData := b\<rparr>)
     \<and> (st = NoError \<and> vec_rep b (bs @ obj_bytes (m_bigEndianFormat c) v)
        \<or> st = ErrorNoMemory \<and> memory_out E \<and> vec_rep b bs)"
proof -
  let ?w = "if EndiannessReversable (LENGTH('a) div 8) \<and> m_endiannessNotMatch c then reverseEndianess v else v"
  have "obj_bytes (big_endian E) ?w = obj_bytes (m_bigEndianFormat c) v"
    using wire_bytes [OF assms(1), of "big_endian E" "m_bigEndianFormat c" v] assms(2)
    by (simp add: common_inv_def)
  with pushBackArithmeticValue_ok [OF assms(3), of "obj_bytes (big_endian E) ?w" E] assms(3,4)
  show ?thesis by (auto simp: writePrimitive_def memory_out_def Let_def split: prod.splits)
qed

definition sample_scommon :: "bool \<Rightarrow> byte vec common" where
  "sample_scommon fmt = \<lparr>m_binaryData = empty_vec GenericManager, m_messageType = Msg_Data, m_protocolVersion = 1,
     m_protocolVersionsNotMatch = False, m_endiannessNotMatch = fmt, m_bitness32 = False,
     m_bigEndianFormat = fmt, m_endiannessDifference = fmt\<rparr>"

lemma writePrimitive_format_order_witness:
  "\<exists>b. writePrimitive sample_env (0x0102 :: u16) (sample_scommon True)
     = (NoError, (sample_scommon True)\<lparr>m_binaryData := b\<rparr>) \<and> vec_rep b [1, 2]"
proof -
  have "obj_bytes True (0x0102 :: u16) = [1, 2]" by code_simp
  with writePrimitive_format_order [of "sample_env" "sample_scommon True" "[]" "0x0102 :: u16"]
  show ?thesis by (auto simp: sample_scommon_def common_inv_def vec_rep_empty memory_out_def)
qed

text \<open>
  \<open>readPrimitive\<close> takes the octets of one value off the input and gives the number they
  denote in the format's byte order; when fewer octets are left it answers \<open>ErrorOverflow\<close> and
  leaves position and output value as they were.
\<close>
lemma readPrimitive_format_order:
  fixes old :: "'a::len word"
  assumes "LENGTH('a) \<in> {8, 16, 32, 64}" "common_inv (big_endian E) c"
    and "walker_rep (m_binaryData c) bs k" "length bs < 2 ^ 63"
  shows "if k + LENGTH('a) div 8 \<le> length bs
     then \<exists>w'. readPrimitive E c old = (NoError, c\<lparr>m_binaryData := w'\<rparr>,
             obj_value (m_bigEndianFormat c) (take (LENGTH('a) div 8) (drop k bs)))
         \<and> walker_rep w' bs (k + LENGTH('a) div 8)
     else readPrimitive E c old = (ErrorOverflow, c, old)"
  using readPrimitive_ok [OF assms, of old] by auto

definition sample_dcommon :: "byte list \<Rightarrow> bool \<Rightarrow> byte walker common" where
  "sample_dcommon bs fmt = \<lparr>m_binaryData = \<lparr>m_vector = \<lparr>m_p = Cells (map Obj bs), m_dataSize = of_nat (length bs),
       m_allocatedSize = of_nat (length bs), m_AllocationManager = GenericManager\<rparr>, m_offset = 0\<rparr>,
     m_messageType = Msg_Data, m_protocolVersion = 1,
     m_protocolVersionsNotMatch = False, m_endiannessNotMatch = fmt, m_bitness32 = False,
     m_bigEndianFormat = fmt, m_endiannessDifference = fmt\<rparr>"

lemma sample_dcommon_rep: "length bs < 2 ^ 64 \<Longrightarrow> walker_rep (m_binaryData (sample_dcommon bs fmt)) bs 0"
  by (simp add: walker_rep_def vec_rep_def vec_cells_def sample_dcommon_def unat_of_nat take_bit_nat_eq_self)

lemma sample_dcommon_inv: "common_inv False (sample_dcommon bs fmt)" "m_bigEndianFormat (sample_dcommon bs fmt) = fmt"
  by (simp_all add: common_inv_def sample_dcommon_def)

lemma readPrimitive_format_order_witness:
  "\<exists>w'. readPrimitive sample_env (sample_dcommon [1, 2, 3] True) (7 :: u16)
     = (NoError, (sample_dcommon [1, 2, 3] True)\<lparr>m_binaryData := w'\<rparr>, 0x0102) \<and> walker_rep w' [1, 2, 3] (Suc (Suc 0))"
  using readPrimitive_format_order [of "sample_env" "sample_dcommon [1, 2, 3] True" "[1, 2, 3]" 0 "7 :: u16"]
  by (simp add: sample_dcommon_rep sample_dcommon_inv obj_value_def)

text \<open>
  C30: \<open>readRawData\<close> copies all the octets of \<open>n\<close> elements and moves behind them, or, when
  fewer octets are left, copies these, answers \<open>ErrorOverflow\<close> and leaves the input at its end;
  cells behind the copied ones keep what they held.
\<close>
theorem readRawData_whole_or_overflow:
  assumes "walker_rep (m_binaryData c) bs k" "length bs < 2 ^ 63"
    and "m = sz * unat n" "m < 2 ^ 63" "0 < sz" "m \<le> length ds"
  shows "if k + m \<le> length bs
     then \<exists>w'. readRawData E sz c n (Cells ds)
       = (NoError, c\<lparr>m_binaryData := w'\<rparr>, Cells (map Obj (take m (drop k bs)) @ drop m ds)) \<and> walker_rep w' bs (k + m)
     else \<exists>w'. readRawData E sz c n (Cells ds)
       = (ErrorOverflow, c\<lparr>m_binaryData := w'\<rparr>, Cells (map Obj (drop k bs) @ drop (length bs - k) ds)) \<and> walker_rep w' bs (length bs)"
  using readRawData_ok [OF assms, of E] by auto

theorem readRawData_whole_or_overflow_witness:
  "\<exists>w'. readRawData sample_env 2 (sample_dcommon [1, 2, 3] True) 2 (Cells [Raw, Raw, Raw, Raw])
     = (ErrorOverflow, (sample_dcommon [1, 2, 3] True)\<lparr>m_binaryData := w'\<rparr>, Cells [Obj 1, Obj 2, Obj 3, Raw])
     \<and> walker_rep w' [1, 2, 3] 3"
  using readRawData_whole_or_overflow [OF sample_dcommon_rep [of "[1, 2, 3]" True], of 4 2 2 "[Raw, Raw, Raw, Raw]" sample_env]
  by (simp add: numeral_3_eq_3)

end
