(* ===== verification/CommonProcessing.thy ===== *)
theory CommonProcessing
  imports RW
begin

text \<open>
  \<open>csp_base/processing/common/ContextProcessor.h\<close> and \<open>processing/status\<close>: the context that
  opens every message, and status messages. The common context is written and read by a
  second context over the same container, without flags, whose container is put back.
\<close>

section \<open>Common context\<close>

definition testCommonFlagsCompatibility :: "common_flags \<Rightarrow> common_flags \<Rightarrow> common_flags \<Rightarrow> status" where
  "testCommonFlagsCompatibility commonFlags forbiddenCommonFlags mandatoryCommonFlags =
     (if cf_bool (cf_and commonFlags (cf_or_word forbiddenCommonFlags cf_kForbiddenFlagsMask))
         \<or> \<not> cf_eq (cf_and commonFlags mandatoryCommonFlags) mandatoryCommonFlags
      then ErrorNotCompatibleCommonFlagsSettings else NoError)"

definition common_serializeNoChecks :: "env \<Rightarrow> (byte vec, 'x) ctx \<Rightarrow> status \<times> (byte vec, 'x) ctx" where
  "common_serializeNoChecks E ctx =
     (let special = setCommonFlags_word (big_endian E)
            (scommon_new E (m_binaryData ctx) getLatestProtocolVersion Msg_Data (cf_default False (big_endian E)))
            cf_kNoFlagsMask;
          (st, special) =
            run (writePrimitive E (ucast (m_protocolVersion ctx) :: u16) special) (\<lambda>special.
            run (writePrimitive E (message_word (m_messageType ctx)) special) (\<lambda>special.
            run (writePrimitive E (cf_word (getCommonFlags ctx)) special) (\<lambda>special.
            (NoError, special))))
      in (st, ctx\<lparr>m_binaryData := m_binaryData special\<rparr>))"

definition common_serialize :: "env \<Rightarrow> (byte vec, 'x) ctx \<Rightarrow> status \<times> (byte vec, 'x) ctx" where
  "common_serialize E ctx =
     (if \<not> isProtocolVersionSupported (m_protocolVersion ctx)
      then (ErrorNotSupportedProtocolVersion, ctx)
      else if m_endiannessNotMatch ctx \<and> \<not> m_endiannessDifference ctx
      then (ErrorNotCompatibleCommonFlagsSettings, ctx)
      else common_serializeNoChecks E ctx)"

definition common_deserialize :: "env \<Rightarrow> (byte walker, 'x) ctx \<Rightarrow> status \<times> (byte walker, 'x) ctx" where
  "common_deserialize E ctx =
     (let special = setCommonFlags_word (big_endian E)
            (dcommon_new E (m_binaryData ctx) getLatestProtocolVersion Msg_Data (cf_default False (big_endian E)))
            cf_kNoFlagsMask;
          (st, special, version) = readPrimitive E special (0 :: u16);
          ctx = ctx\<lparr>m_binaryData := m_binaryData special\<rparr>
      in if \<not> statusSuccess st then (st, ctx)
         else
           let minimumSupportedVersion = m_protocolVersion ctx;
               ctx = setProtocolVersion ctx (ucast version)
           in if minimumSupportedVersion > m_protocolVersion ctx
                 \<or> getLatestProtocolVersion < m_protocolVersion ctx
              then (ErrorNotSupportedProtocolVersion, ctx)
              else
                let (st, special, messageType) = readPrimitive E special (message_word Msg_Data);
                    ctx = ctx\<lparr>m_binaryData := m_binaryData special\<rparr>
                in if \<not> statusSuccess st then (st, ctx)
                   else
                     let ctx = setMessageType ctx (message_of_word messageType);
                         (st, special, intFlags) = readPrimitive E special (0 :: u32);
                         ctx = ctx\<lparr>m_binaryData := m_binaryData special\<rparr>
                     in if \<not> statusSuccess st then (st, ctx)
                        else
                          let ctx = setCommonFlags (big_endian E) ctx (cf_of intFlags)
                          in if m_endiannessNotMatch ctx \<and> \<not> m_endiannessDifference ctx
                             then (ErrorNotCompatibleCommonFlagsSettings, ctx)
                             else (NoError, ctx))"

definition common_deserializeNoChecks :: "env \<Rightarrow> (byte walker, 'x) ctx \<Rightarrow> status \<times> (byte walker, 'x) ctx" where
  "common_deserializeNoChecks E ctx =
     (let special = dcommon_new E (m_binaryData ctx) (m_protocolVersion ctx) (m_messageType ctx)
            (cf_of cf_kNoFlagsMask);
          (st, special, version) = readPrimitive E special (0 :: u16);
          ctx = ctx\<lparr>m_binaryData := m_binaryData special\<rparr>
      in if \<not> statusSuccess st then (st, ctx)
         else
           let ctx = setProtocolVersion ctx (ucast version);
               (st, special, messageType) = readPrimitive E special (message_word Msg_Data);
               ctx = ctx\<lparr>m_binaryData := m_binaryData special\<rparr>
           in if \<not> statusSuccess st then (st, ctx)
              else
                let ctx = setMessageType ctx (message_of_word messageType);
                    (st, special, intFlags) = readPrimitive E special (0 :: u32);
                    ctx = ctx\<lparr>m_binaryData := m_binaryData special\<rparr>
                in if \<not> statusSuccess st then (st, ctx)
                   else (NoError, setCommonFlags (big_endian E) ctx (cf_of intFlags)))"

section \<open>Status messages\<close>

definition status_serialize :: "env \<Rightarrow> (byte vec, 'x) ctx \<Rightarrow> status \<Rightarrow> status \<times> (byte vec, 'x) ctx" where
  "status_serialize E ctx statusOut = writePrimitive E (status_word statusOut) ctx"

definition status_deserialize ::
    "env \<Rightarrow> (byte walker, 'x) ctx \<Rightarrow> status \<Rightarrow> status \<times> (byte walker, 'x) ctx \<times> status" where
  "status_deserialize E ctx statusOut =
     (let (st, ctx, w) = readPrimitive E ctx (status_word statusOut) in (st, ctx, status_of_word w))"

text \<open>\<open>status::BodyProcessor\<close>; the versions are a vector of octets.\<close>

definition body_serializeErrorNotSupportedProtocolVersion ::
    "env \<Rightarrow> (byte vec, 'x) ctx \<Rightarrow> byte list \<Rightarrow> status \<times> (byte vec, 'x) ctx" where
  "body_serializeErrorNotSupportedProtocolVersion E ctx supportedProtocolVersions =
     run (writePrimitive E (of_nat (length supportedProtocolVersions) :: byte) ctx) (\<lambda>ctx.
       writeRawData E 1 (Some supportedProtocolVersions) (of_nat (length supportedProtocolVersions)) ctx)"

definition body_serializeErrorNotSupportedInterfaceVersion ::
    "env \<Rightarrow> (byte vec, 'x) ctx \<Rightarrow> u32 \<Rightarrow> uuid \<Rightarrow> status \<times> (byte vec, 'x) ctx" where
  "body_serializeErrorNotSupportedInterfaceVersion E ctx minimumInterfaceVersion outputTypeId =
     run (writePrimitive E minimumInterfaceVersion ctx) (\<lambda>ctx.
       writeRawData E 16 (Some (uuid_bytes (big_endian E) outputTypeId)) 1 ctx)"

definition body_deserializeErrorNotSupportedProtocolVersion ::
    "env \<Rightarrow> (byte walker, 'x) ctx \<Rightarrow> byte vec \<Rightarrow> status \<times> (byte walker, 'x) ctx \<times> byte vec" where
  "body_deserializeErrorNotSupportedProtocolVersion E ctx value =
     (let value = vec_clear octet value
      in run_out (readPrimitive E ctx (0 :: byte)) (\<lambda>_. value) (\<lambda>ctx protocolVersionsSize.
         let n = ucast protocolVersionsSize :: size_t;
             (st, value) = vec_reserve E octet value n
         in if \<not> statusSuccess st then (st, ctx, value)
            else run_out (readRawData E 1 ctx n (vec_data value)) (\<lambda>p. value\<lparr>m_p := p\<rparr>) (\<lambda>ctx p.
              let (_, value) = vec_setSize E octet (value\<lparr>m_p := p\<rparr>) n
              in (NoError, ctx, value))))"

definition body_deserializeErrorNotSupportedInterfaceVersion ::
    "env \<Rightarrow> (byte walker, 'x) ctx \<Rightarrow> u32 \<Rightarrow> uuid \<Rightarrow> status \<times> (byte walker, 'x) ctx \<times> u32 \<times> uuid" where
  "body_deserializeErrorNotSupportedInterfaceVersion E ctx minimumInterfaceVersion outputTypeId =
     run_out (readPrimitive E ctx minimumInterfaceVersion) (\<lambda>v. (v, outputTypeId)) (\<lambda>ctx v.
       let (st, ctx, bs) = readRawObject E ctx (uuid_bytes (big_endian E) outputTypeId)
       in (st, ctx, v, uuid_of_bytes (big_endian E) bs))"

text \<open>\<open>status::Helpers\<close>: whole status messages.\<close>

definition serializeFullContext ::
    "env \<Rightarrow> (byte vec, 'x) ctx \<Rightarrow> status \<Rightarrow> bool \<Rightarrow> status \<times> (byte vec, 'x) ctx" where
  "serializeFullContext E ctx statusOut noChecks =
     run (if \<not> noChecks then common_serialize E ctx else common_serializeNoChecks E ctx) (\<lambda>ctx.
     run (status_serialize E ctx statusOut) (\<lambda>ctx. (NoError, ctx)))"

definition serializeFullContext_output ::
    "env \<Rightarrow> byte vec \<Rightarrow> byte \<Rightarrow> common_flags \<Rightarrow> status \<Rightarrow> status \<times> byte vec" where
  "serializeFullContext_output E out protocolVersion commonFlags statusOut =
     (let (st, ctx) = serializeFullContext E (scommon_new E out protocolVersion Msg_Status commonFlags)
                        statusOut False
      in (st, m_binaryData ctx))"

definition serializeErrorNotSupportedProtocolVersion ::
    "env \<Rightarrow> byte vec \<Rightarrow> byte list \<Rightarrow> common_flags \<Rightarrow> status \<times> byte vec" where
  "serializeErrorNotSupportedProtocolVersion E out supportedProtocolVersions commonFlags =
     (let ctx = scommon_new E out kProtocolVersionUndefined Msg_Status commonFlags;
          (st, ctx) = run (serializeFullContext E ctx ErrorNotSupportedProtocolVersion True) (\<lambda>ctx.
            body_serializeErrorNotSupportedProtocolVersion E ctx supportedProtocolVersions)
      in (st, m_binaryData ctx))"

definition serializeErrorNotSupportedInterfaceVersion ::
    "env \<Rightarrow> byte \<Rightarrow> common_flags \<Rightarrow> u32 \<Rightarrow> uuid \<Rightarrow> byte vec \<Rightarrow> status \<times> byte vec" where
  "serializeErrorNotSupportedInterfaceVersion E protocolVersion commonFlags minimumInterfaceVersion
       outputTypeId out =
     (let ctx = scommon_new E out protocolVersion Msg_Status commonFlags;
          (st, ctx) = run (serializeFullContext E ctx ErrorNotSupportedInterfaceVersion False) (\<lambda>ctx.
            body_serializeErrorNotSupportedInterfaceVersion E ctx minimumInterfaceVersion outputTypeId)
      in (st, m_binaryData ctx))"

section \<open>The wire format\<close>

text \<open>Version, message type and flags, each with its least significant octet first.\<close>

definition common_header :: "byte \<Rightarrow> message \<Rightarrow> common_flags \<Rightarrow> byte list" where
  "common_header pv mt cf = le_bytes 2 (unat pv) @ le_bytes 2 (unat (message_word mt)) @ le_bytes 4 (unat (cf_word cf))"

lemma length_common_header [simp]: "length (common_header pv mt cf) = 8"
  by (simp add: common_header_def)

lemma special_flags [simp]:
  "m_bigEndianFormat (setCommonFlags_word be c cf_kNoFlagsMask) = False"
  "common_inv be (setCommonFlags_word be c cf_kNoFlagsMask)"
  by (simp_all add: setCommonFlags_word_def setCommonFlags_def common_inv_def cf_bigEndianFormat_def cf_kNoFlagsMask_def)

lemma reserve256:
  assumes "vec_rep b bs"
  shows "vec_rep (snd (vec_reserve E octet b 256)) bs"
proof -
  obtain st v' where "vec_reserveInternal E (raw_elem (Suc 0)) b 256 True = (st, v')" "vec_rep v' bs"
    using raw.reserveInternal_ok [OF assms, of 0 256 E True] assms by auto
  then show ?thesis by (simp add: vec_reserve_def octet_eq)
qed

lemma emits_common_serializeNoChecks:
  "emits E (common_serializeNoChecks E) (common_header (m_protocolVersion c) (m_messageType c) (getCommonFlags c)) c"
proof (rule emitsI)
  fix b :: "byte vec" and bs
  let ?h = "common_header (m_protocolVersion c) (m_messageType c) (getCommonFlags c)"
  assume b: "vec_rep b bs" and l: "length bs + length ?h < 2 ^ 63"
  define special where "special = setCommonFlags_word (big_endian E)
      (scommon_new E b getLatestProtocolVersion Msg_Data (cf_default False (big_endian E))) cf_kNoFlagsMask"
  define ser where "ser = (\<lambda>s. run (writePrimitive E (ucast (m_protocolVersion c) :: u16) (s :: byte vec common)) (\<lambda>s.
            run (writePrimitive E (message_word (m_messageType c)) s) (\<lambda>s.
            run (writePrimitive E (cf_word (getCommonFlags c)) s) (\<lambda>s. (NoError, s)))))"
  have inv: "common_inv (big_endian E) special" "m_bigEndianFormat special = False"
    by (simp_all add: special_def)
  have "emits E ser (obj_bytes False (ucast (m_protocolVersion c) :: u16) @
      obj_bytes False (message_word (m_messageType c)) @ obj_bytes False (cf_word (getCommonFlags c))) special"
    unfolding ser_def
    by (intro emits_run emits_run_done) (simp_all add: emits_writePrimitive_le inv)
  moreover have "obj_bytes False (ucast (m_protocolVersion c) :: u16) @
      obj_bytes False (message_word (m_messageType c)) @ obj_bytes False (cf_word (getCommonFlags c)) = ?h"
    by (simp add: common_header_def obj_bytes_def unat_ucast_up)
  ultimately have em: "emits E ser ?h special" by simp
  have rep: "vec_rep (m_binaryData special) bs"
    using reserve256 [OF b, of E]
    by (simp add: special_def setCommonFlags_word_def setCommonFlags_def scommon_new_def common_new_def)
  have self: "special\<lparr>m_binaryData := m_binaryData special\<rparr> = special" by simp
  have gc: "getCommonFlags (c\<lparr>m_binaryData := b\<rparr>) = getCommonFlags c" by (simp add: getCommonFlags_def)
  have run: "common_serializeNoChecks E (c\<lparr>m_binaryData := b\<rparr>) =
      (case ser special of (st, s) \<Rightarrow> (st, c\<lparr>m_binaryData := m_binaryData s\<rparr>))"
    by (simp add: common_serializeNoChecks_def ser_def special_def gc Let_def)
  from em rep l show "\<exists>st b'. common_serializeNoChecks E (c\<lparr>m_binaryData := b\<rparr>) = (st, c\<lparr>m_binaryData := b'\<rparr>) \<and>
      (st = NoError \<and> vec_rep b' (bs @ ?h)
       \<or> st = ErrorNoMemory \<and> memory_out E \<and> (\<exists>i. vec_rep b' (bs @ take i ?h)))"
    by (cases rule: emitsE) (auto simp: run)
qed

text \<open>Reading a common context back: the three fields over a context without flags.\<close>

lemma byte_of_u16: "(ucast (ucast (pv :: byte) :: u16) :: byte) = pv"
proof -
  have "unat (ucast (ucast pv :: u16) :: byte) = take_bit LENGTH(8) (unat (ucast pv :: u16))"
    by (rule unsigned_ucast_eq)
  also have "\<dots> = unat pv"
    using unat_byte_less [of pv] by (simp only: unat_ucast_up len_num1 len_bit0 mult_1_right) (simp add: unat_ucast_up take_bit_nat_eq_self)
  finally show ?thesis by (simp only: word_unat_eq_iff)
qed

lemma read_header:
  assumes w: "walker_rep (m_binaryData special) bs k" and l: "length bs < 2 ^ 63"
    and t: "take 8 (drop k bs) = common_header pv mt cf"
    and inv: "common_inv (big_endian E) special" "\<not> m_bigEndianFormat special"
  obtains w1 w2 w3 where
    "readPrimitive E special (0 :: u16) = (NoError, special\<lparr>m_binaryData := w1\<rparr>, ucast pv)"
    "readPrimitive E (special\<lparr>m_binaryData := w1\<rparr>) (message_word Msg_Data) = (NoError, special\<lparr>m_binaryData := w2\<rparr>, message_word mt)"
    "readPrimitive E (special\<lparr>m_binaryData := w2\<rparr>) (0 :: u32) = (NoError, special\<lparr>m_binaryData := w3\<rparr>, cf_word cf)"
    "walker_rep w3 bs (k + 8)"
proof -
  have hd: "common_header pv mt cf = obj_bytes False (ucast pv :: u16) @ obj_bytes False (message_word mt) @ obj_bytes False (cf_word cf)"
    by (simp add: common_header_def obj_bytes_def unat_ucast_up)
  have t1: "take 2 (drop k bs) = obj_bytes False (ucast pv :: u16)"
    using arg_cong [OF t, of "take 2"] by (simp add: hd)
  have t2: "take 2 (drop (k + 2) bs) = obj_bytes False (message_word mt)"
    using arg_cong [OF t, of "\<lambda>x. take 2 (drop 2 x)"] by (simp add: hd drop_take add.commute)
  have t3: "take 4 (drop (k + 4) bs) = obj_bytes False (cf_word cf)"
    using arg_cong [OF t, of "drop 4"] by (simp add: hd drop_take add.commute)
  have "\<exists>w1. readPrimitive E special (0::u16) = (NoError, special\<lparr>m_binaryData := w1\<rparr>, ucast pv)
      \<and> walker_rep w1 bs (k + 2)"
    by (rule readPrimitive_le [OF _ inv]) (use w l t1 in simp_all)
  then obtain w1 where r1: "readPrimitive E special (0::u16) = (NoError, special\<lparr>m_binaryData := w1\<rparr>, ucast pv)"
    and w1: "walker_rep w1 bs (k + 2)"
    by auto
  have i1: "common_inv (big_endian E) (special\<lparr>m_binaryData := b\<rparr>)" "\<not> m_bigEndianFormat (special\<lparr>m_binaryData := b\<rparr>)" for b
    using inv by (simp_all add: ctx_simps)
  have "\<exists>w2. readPrimitive E (special\<lparr>m_binaryData := w1\<rparr>) (message_word Msg_Data)
      = (NoError, special\<lparr>m_binaryData := w1, m_binaryData := w2\<rparr>, message_word mt) \<and> walker_rep w2 bs (k + 4)"
    by (rule readPrimitive_le [OF _ i1, where k = "k + 2"]) (use w1 l t2 in simp_all)
  then obtain w2 where r2: "readPrimitive E (special\<lparr>m_binaryData := w1\<rparr>) (message_word Msg_Data)
      = (NoError, special\<lparr>m_binaryData := w2\<rparr>, message_word mt)" and w2: "walker_rep w2 bs (k + 4)"
    by auto
  have "\<exists>w3. readPrimitive E (special\<lparr>m_binaryData := w2\<rparr>) (0::u32)
      = (NoError, special\<lparr>m_binaryData := w2, m_binaryData := w3\<rparr>, cf_word cf) \<and> walker_rep w3 bs (k + 8)"
    by (rule readPrimitive_le [OF _ i1, where k = "k + 4"]) (use w2 l t3 in simp_all)
  with r1 r2 that show thesis by auto
qed

lemma common_deserialize_ok:
  assumes w: "walker_rep (m_binaryData ctx) bs k" and l: "length bs < 2 ^ 63"
    and t: "take 8 (drop k bs) = common_header pv mt cf" and v: "cf_valid cf"
    and ver: "m_protocolVersion ctx \<le> pv" "pv \<le> getLatestProtocolVersion"
    and fl: "cf_bigEndianFormat cf = big_endian E \<or> cf_endiannessDifference cf"
  shows "\<exists>w'. common_deserialize E ctx = (NoError, setCommonFlags (big_endian E)
       (setMessageType (setProtocolVersion (ctx\<lparr>m_binaryData := w'\<rparr>) pv) (message_of_word (message_word mt))) cf)
     \<and> walker_rep w' bs (k + 8)"
proof -
  define special where "special = setCommonFlags_word (big_endian E)
    (dcommon_new E (m_binaryData ctx) getLatestProtocolVersion Msg_Data (cf_default False (big_endian E))) cf_kNoFlagsMask"
  have inv: "common_inv (big_endian E) special" "\<not> m_bigEndianFormat special"
    and bin: "m_binaryData special = m_binaryData ctx"
    by (simp_all add: special_def) (simp add: setCommonFlags_word_def setCommonFlags_def dcommon_new_def common_new_def)
  from w have "walker_rep (m_binaryData special) bs k" by (simp add: bin)
  from this l t inv obtain w1 w2 w3 where r: "readPrimitive E special (0 :: u16) = (NoError, special\<lparr>m_binaryData := w1\<rparr>, ucast pv)"
    "readPrimitive E (special\<lparr>m_binaryData := w1\<rparr>) (message_word Msg_Data) = (NoError, special\<lparr>m_binaryData := w2\<rparr>, message_word mt)"
    "readPrimitive E (special\<lparr>m_binaryData := w2\<rparr>) (0 :: u32) = (NoError, special\<lparr>m_binaryData := w3\<rparr>, cf_word cf)"
    "walker_rep w3 bs (k + 8)" by (rule read_header)
  show ?thesis
    unfolding common_deserialize_def special_def [symmetric]
    using r ver fl v
    by (auto simp: byte_of_u16 setProtocolVersion_def setMessageType_def setCommonFlags_def Let_def not_less not_le
        intro!: exI [of _ w3])
qed

text \<open>Without the checks every version and byte order is taken.\<close>

lemma common_deserializeNoChecks_ok:
  assumes w: "walker_rep (m_binaryData ctx) bs k" and l: "length bs < 2 ^ 63"
    and t: "take 8 (drop k bs) = common_header pv mt cf" and v: "cf_valid cf"
  shows "\<exists>w'. common_deserializeNoChecks E ctx = (NoError, setCommonFlags (big_endian E)
       (setMessageType (setProtocolVersion (ctx\<lparr>m_binaryData := w'\<rparr>) pv) (message_of_word (message_word mt))) cf)
     \<and> walker_rep w' bs (k + 8)"
proof -
  define special where "special = dcommon_new E (m_binaryData ctx) (m_protocolVersion ctx) (m_messageType ctx) (cf_of cf_kNoFlagsMask)"
  have inv: "common_inv (big_endian E) special" "\<not> m_bigEndianFormat special"
    and bin: "m_binaryData special = m_binaryData ctx"
    by (simp_all add: special_def dcommon_new_def common_inv_ops)
      (simp_all add: common_new_def setCommonFlags_def cf_bigEndianFormat_def cf_of_def cf_kNoFlagsMask_def)
  from w have "walker_rep (m_binaryData special) bs k" by (simp add: bin)
  from this l t inv obtain w1 w2 w3 where r: "readPrimitive E special (0 :: u16) = (NoError, special\<lparr>m_binaryData := w1\<rparr>, ucast pv)"
    "readPrimitive E (special\<lparr>m_binaryData := w1\<rparr>) (message_word Msg_Data) = (NoError, special\<lparr>m_binaryData := w2\<rparr>, message_word mt)"
    "readPrimitive E (special\<lparr>m_binaryData := w2\<rparr>) (0 :: u32) = (NoError, special\<lparr>m_binaryData := w3\<rparr>, cf_word cf)"
    "walker_rep w3 bs (k + 8)" by (rule read_header)
  show ?thesis
    unfolding common_deserializeNoChecks_def special_def [symmetric]
    using r v
    by (auto simp: byte_of_u16 setProtocolVersion_def setMessageType_def setCommonFlags_def Let_def 
        intro!: exI [of _ w3])
qed

text \<open>What is refused, and before anything behind the version is read.\<close>

lemma common_deserialize_refuses:
  assumes "walker_rep (m_binaryData d) bs k" "length bs < 2 ^ 63"
    and "pv = ucast (obj_value False (take 2 (drop k bs)) :: u16)"
  shows "length bs < k + 2 \<Longrightarrow> fst (common_deserialize E d) = ErrorOverflow"
    and "k + 2 \<le> length bs \<Longrightarrow> pv < m_protocolVersion d \<or> getLatestProtocolVersion < pv \<Longrightarrow>
       fst (common_deserialize E d) = ErrorNotSupportedProtocolVersion"
proof -
  define special where "special = setCommonFlags_word (big_endian E)
    (dcommon_new E (m_binaryData d) getLatestProtocolVersion Msg_Data (cf_default False (big_endian E))) cf_kNoFlagsMask"
  have inv: "common_inv (big_endian E) special" "\<not> m_bigEndianFormat special"
    and bin: "m_binaryData special = m_binaryData d"
    by (simp_all add: special_def) (simp add: setCommonFlags_word_def setCommonFlags_def dcommon_new_def common_new_def)
  have w: "walker_rep (m_binaryData special) bs k" using assms(1) bin by simp
  have short: "fst (common_deserialize E d) = ErrorOverflow" if "length bs < k + 2"
    unfolding common_deserialize_def special_def [symmetric]
    using readPrimitive_ok(2) [OF _ inv(1) w assms(2), of "0 :: u16"] that by simp
  have bad: "fst (common_deserialize E d) = ErrorNotSupportedProtocolVersion"
    if le: "k + 2 \<le> length bs" and v: "pv < m_protocolVersion d \<or> getLatestProtocolVersion < pv"
  proof -
    obtain w' where "readPrimitive E special (0 :: u16)
        = (NoError, special\<lparr>m_binaryData := w'\<rparr>, obj_value False (take 2 (drop k bs)))"
      using readPrimitive_ok(1) [OF _ inv(1) w assms(2), of "0 :: u16"] le inv(2) by auto
    then show ?thesis
      unfolding common_deserialize_def special_def [symmetric]
      using v assms(3) by (simp add: setProtocolVersion_def Let_def)
  qed
  show "length bs < k + 2 \<Longrightarrow> fst (common_deserialize E d) = ErrorOverflow"
    "k + 2 \<le> length bs \<Longrightarrow> pv < m_protocolVersion d \<or> getLatestProtocolVersion < pv \<Longrightarrow>
       fst (common_deserialize E d) = ErrorNotSupportedProtocolVersion"
    using short bad by blast+
qed

text \<open>The whole result of a refusal; of the 16 bits of the version the low octet is what counts.\<close>

lemma low_octet: "(ucast (obj_value False [a, b] :: u16) :: byte) = a"
proof -
  define n where "n = le_value [a, b]"
  have "unat a < 256" "unat b < 256" by (rule unat_byte_less)+
  then have n: "n < 2 ^ 16" "n mod 256 = unat a" by (simp_all add: n_def)
  have "unat (ucast (of_nat n :: u16) :: byte) = take_bit LENGTH(8) (unat (of_nat n :: u16))"
    by (rule unsigned_ucast_eq)
  also have "\<dots> = unat a" using n by (simp add: unat_of_nat_small take_bit_eq_mod)
  finally show ?thesis by (simp add: obj_value_def n_def word_unat_eq_iff del: le_value.simps)
qed

lemma common_deserialize_refused:
  assumes "walker_rep (m_binaryData d) bs k" "length bs < 2 ^ 63"
  shows "length bs < k + 2 \<Longrightarrow> common_deserialize E d = (ErrorOverflow, d)"
    and "k + 2 \<le> length bs \<Longrightarrow> bs ! k < m_protocolVersion d \<or> getLatestProtocolVersion < bs ! k \<Longrightarrow>
       \<exists>w'. common_deserialize E d = (ErrorNotSupportedProtocolVersion, setProtocolVersion (d\<lparr>m_binaryData := w'\<rparr>) (bs ! k))
         \<and> walker_rep w' bs (k + 2)"
    and "length bs < k + 8 \<Longrightarrow> \<not> (bs ! k < m_protocolVersion d \<or> getLatestProtocolVersion < bs ! k) \<Longrightarrow>
       fst (common_deserialize E d) = ErrorOverflow"
proof -
  define special where "special = setCommonFlags_word (big_endian E)
    (dcommon_new E (m_binaryData d) getLatestProtocolVersion Msg_Data (cf_default False (big_endian E))) cf_kNoFlagsMask"
  have inv: "common_inv (big_endian E) special" "\<not> m_bigEndianFormat special"
    and bin: "m_binaryData special = m_binaryData d"
    by (simp_all add: special_def) (simp add: setCommonFlags_word_def setCommonFlags_def dcommon_new_def common_new_def)
  have w: "walker_rep (m_binaryData special) bs k" using assms(1) bin by simp
  show short: "common_deserialize E d = (ErrorOverflow, d)" if "length bs < k + 2"
    unfolding common_deserialize_def special_def [symmetric]
    using readPrimitive_ok(2) [OF _ inv(1) w assms(2), of "0 :: u16"] that bin by simp
  have first: "\<exists>w'. readPrimitive E special (0 :: u16)
        = (NoError, special\<lparr>m_binaryData := w'\<rparr>, obj_value False (take 2 (drop k bs))) \<and> walker_rep w' bs (k + 2)
      \<and> (ucast (obj_value False (take 2 (drop k bs)) :: u16) :: byte) = bs ! k" if le: "k + 2 \<le> length bs"
  proof -
    have "take 2 (drop k bs) = [bs ! k, bs ! (k + 1)]"
      using le by (simp add: numeral_2_eq_2 take_Suc_conv_app_nth hd_drop_conv_nth)
    then show ?thesis
      using readPrimitive_ok(1) [OF _ inv(1) w assms(2), of "0 :: u16"] le inv(2) low_octet by auto
  qed
  show "\<exists>w'. common_deserialize E d = (ErrorNotSupportedProtocolVersion, setProtocolVersion (d\<lparr>m_binaryData := w'\<rparr>) (bs ! k))
         \<and> walker_rep w' bs (k + 2)"
    if le: "k + 2 \<le> length bs" and v: "bs ! k < m_protocolVersion d \<or> getLatestProtocolVersion < bs ! k"
    using first [OF le] v unfolding common_deserialize_def special_def [symmetric]
    by (auto simp: setProtocolVersion_def Let_def)
  show "fst (common_deserialize E d) = ErrorOverflow"
    if l: "length bs < k + 8" and v: "\<not> (bs ! k < m_protocolVersion d \<or> getLatestProtocolVersion < bs ! k)"
  proof (cases "length bs < k + 2")
    case True
    then show ?thesis using short by simp
  next
    case False
    then obtain w' where w': "readPrimitive E special (0 :: u16)
        = (NoError, special\<lparr>m_binaryData := w'\<rparr>, obj_value False (take 2 (drop k bs)))" "walker_rep w' bs (k + 2)"
      and o: "(ucast (obj_value False (take 2 (drop k bs)) :: u16) :: byte) = bs ! k" using first by auto
    let ?s = "special\<lparr>m_binaryData := w'\<rparr>"
    have s: "common_inv (big_endian E) ?s" "walker_rep (m_binaryData ?s) bs (k + 2)" using inv(1) w'(2) by (simp_all add: common_inv_def)
    show ?thesis
    proof (cases "length bs < k + 4")
      case True
      then have "readPrimitive E ?s (message_word Msg_Data) = (ErrorOverflow, ?s, message_word Msg_Data)"
        by (intro readPrimitive_ok(2) [OF _ s assms(2)]) simp_all
      then show ?thesis
        unfolding common_deserialize_def special_def [symmetric] using w'(1) o v by (simp add: setProtocolVersion_def Let_def)
    next
      case False
      then have "\<exists>w2. readPrimitive E ?s (message_word Msg_Data)
          = (NoError, ?s\<lparr>m_binaryData := w2\<rparr>, obj_value (m_bigEndianFormat ?s) (take 2 (drop (k + 2) bs))) \<and> walker_rep w2 bs (k + 4)"
        using readPrimitive_ok(1) [OF _ s assms(2), of "message_word Msg_Data"]
        by (fastforce simp: add.commute [of 4 k] simp del: add_2_eq_Suc add_2_eq_Suc')
      then obtain w2 where w2: "readPrimitive E ?s (message_word Msg_Data)
          = (NoError, ?s\<lparr>m_binaryData := w2\<rparr>, obj_value (m_bigEndianFormat ?s) (take 2 (drop (k + 2) bs)))" "walker_rep w2 bs (k + 4)"
        by blast
      let ?s2 = "special\<lparr>m_binaryData := w2\<rparr>"
      have s2: "common_inv (big_endian E) ?s2" "walker_rep (m_binaryData ?s2) bs (k + 4)" using inv(1) w2(2) by (simp_all add: common_inv_def)
      have "readPrimitive E ?s2 (0 :: u32) = (ErrorOverflow, ?s2, 0)"
        using l by (intro readPrimitive_ok(2) [OF _ s2 assms(2)]) simp_all
      then show ?thesis
        unfolding common_deserialize_def special_def [symmetric] using w'(1) w2(1) o v
        by (simp add: setProtocolVersion_def setMessageType_def Let_def)
    qed
  qed
qed

lemma common_serialize_eq:
  assumes "isProtocolVersionSupported (m_protocolVersion c)" "m_endiannessNotMatch c \<longrightarrow> m_endiannessDifference c"
  shows "common_serialize E (c\<lparr>m_binaryData := b\<rparr>) = common_serializeNoChecks E (c\<lparr>m_binaryData := b\<rparr>)"
  using assms by (auto simp: common_serialize_def)

lemma emits_cong:
  "(\<And>b. f (c\<lparr>m_binaryData := b\<rparr>) = g (c\<lparr>m_binaryData := b\<rparr>)) \<Longrightarrow> emits E f xs c = emits E g xs c"
  by (simp add: emits_def)

lemma emits_common_serialize:
  assumes "isProtocolVersionSupported (m_protocolVersion c)" "m_endiannessNotMatch c \<longrightarrow> m_endiannessDifference c"
  shows "emits E (common_serialize E) (common_header (m_protocolVersion c) (m_messageType c) (getCommonFlags c)) c"
  using emits_common_serializeNoChecks [of E c]
  by (subst emits_cong [where g = "common_serializeNoChecks E"]) (simp_all add: common_serialize_eq [OF assms])

text \<open>A status message: the common context, then the status in the context's byte order.\<close>

definition status_message :: "('b, 'x) ctx \<Rightarrow> status \<Rightarrow> byte list" where
  "status_message c st = common_header (m_protocolVersion c) (m_messageType c) (getCommonFlags c)
     @ obj_bytes (m_bigEndianFormat c) (status_word st)"

lemma length_status_message [simp]: "length (status_message c st) = 12"
  by (simp add: status_message_def)

lemma emits_serializeFullContext:
  assumes "common_inv (big_endian E) c"
    and "noChecks \<or> isProtocolVersionSupported (m_protocolVersion c)
            \<and> (m_endiannessNotMatch c \<longrightarrow> m_endiannessDifference c)"
  shows "emits E (\<lambda>c. serializeFullContext E c st noChecks) (status_message c st) c"
proof -
  have "emits E (\<lambda>c. if \<not> noChecks then common_serialize E c else common_serializeNoChecks E c)
      (common_header (m_protocolVersion c) (m_messageType c) (getCommonFlags c)) c"
    using assms(2) emits_common_serialize [of c E] emits_common_serializeNoChecks [of E c]
    by (cases noChecks) auto
  moreover have "emits E (\<lambda>c. run (status_serialize E c st) (\<lambda>ctx. (NoError, ctx)))
      (obj_bytes (m_bigEndianFormat c) (status_word st)) c"
    using emits_run_done [OF emits_writePrimitive [of E c "status_word st"]] assms(1)
    by (simp add: status_serialize_def)
  ultimately show ?thesis
    unfolding serializeFullContext_def status_message_def by (rule emits_run)
qed

lemma emits_body_NotSupportedInterfaceVersion:
  assumes "common_inv (big_endian E) c"
  shows "emits E (\<lambda>c. body_serializeErrorNotSupportedInterfaceVersion E c minv idt)
     (obj_bytes (m_bigEndianFormat c) minv @ uuid_bytes (big_endian E) idt) c"
  unfolding body_serializeErrorNotSupportedInterfaceVersion_def
  using assms by (intro emits_run emits_writePrimitive emits_writeRawData) simp_all

lemma emits_body_NotSupportedProtocolVersion:
  assumes "common_inv (big_endian E) c" "length vs < 256"
  shows "emits E (\<lambda>c. body_serializeErrorNotSupportedProtocolVersion E c vs) (of_nat (length vs) # vs) c"
proof -
  have "emits E (\<lambda>c. body_serializeErrorNotSupportedProtocolVersion E c vs)
      (obj_bytes (m_bigEndianFormat c) (of_nat (length vs) :: byte) @ vs) c"
    unfolding body_serializeErrorNotSupportedProtocolVersion_def
    using assms by (intro emits_run emits_writePrimitive emits_writeRawData) (simp_all add: unat_of_nat_small)
  then show ?thesis by simp
qed

lemma parses_status_deserialize:
  assumes "common_inv (big_endian E) c"
  shows "parses (\<lambda>c. status_deserialize E c old) (obj_bytes (m_bigEndianFormat c) (status_word st)) c
     (status_of_word (status_word st))"
proof (rule parsesI)
  fix w bs k
  let ?o = "obj_bytes (m_bigEndianFormat c) (status_word st)"
  assume a: "walker_rep w bs k" "length bs < 2 ^ 63" "length ?o \<le> length bs - k"
    "take (length ?o) (drop k bs) = ?o"
  have p: "parses (\<lambda>c. readPrimitive E c (status_word old)) ?o c (status_word st)"
    using assms by (intro parses_readPrimitive) simp_all
  from p a show "\<exists>w'. status_deserialize E (c\<lparr>m_binaryData := w\<rparr>) old
      = (NoError, c\<lparr>m_binaryData := w'\<rparr>, status_of_word (status_word st)) \<and> walker_rep w' bs (k + length ?o)"
    by (rule parsesE) (auto simp: status_deserialize_def intro!: exI)
qed

lemma parses_map:
  assumes "parses f xs c v" "\<And>c. g c = (case f c of (st, c, v) \<Rightarrow> (st, c, h v))"
  shows "parses g xs c (h v)"
proof (rule parsesI)
  fix w bs k
  assume a: "walker_rep w bs k" "length bs < 2 ^ 63" "length xs \<le> length bs - k" "take (length xs) (drop k bs) = xs"
  from assms(1) a obtain w' where "f (c\<lparr>m_binaryData := w\<rparr>) = (NoError, c\<lparr>m_binaryData := w'\<rparr>, v)"
    "walker_rep w' bs (k + length xs)" by (rule parsesE)
  then show "\<exists>w'. g (c\<lparr>m_binaryData := w\<rparr>) = (NoError, c\<lparr>m_binaryData := w'\<rparr>, h v) \<and> walker_rep w' bs (k + length xs)"
    by (auto simp: assms(2) intro!: exI [of _ w'])
qed

lemma parses_body_NotSupportedInterfaceVersion:
  assumes "common_inv (big_endian E) c"
  shows "parses (\<lambda>c. body_deserializeErrorNotSupportedInterfaceVersion E c v0 id0)
     (obj_bytes (m_bigEndianFormat c) minv @ uuid_bytes (big_endian E) idt) c (minv, idt)"
proof -
  have "parses (\<lambda>c. readRawObject E c (uuid_bytes (big_endian E) id0)) (uuid_bytes (big_endian E) idt) c
      (uuid_bytes (big_endian E) idt)"
    by (intro parses_readRawObject) (simp_all flip: length_0_conv)
  then have "parses (\<lambda>c. let (st, ctx, bs) = readRawObject E c (uuid_bytes (big_endian E) id0)
       in (st, ctx, minv, uuid_of_bytes (big_endian E) bs)) (uuid_bytes (big_endian E) idt) c
      (minv, uuid_of_bytes (big_endian E) (uuid_bytes (big_endian E) idt))"
    by (rule parses_map [where h = "\<lambda>bs. (minv, uuid_of_bytes (big_endian E) bs)"]) (simp split: prod.split)
  moreover have "parses (\<lambda>c. readPrimitive E c v0) (obj_bytes (m_bigEndianFormat c) minv) c minv"
    using assms by (intro parses_readPrimitive) simp_all
  ultimately show ?thesis
    unfolding body_deserializeErrorNotSupportedInterfaceVersion_def
    by (intro parses_run_out) (simp_all add: uuid_of_bytes_bytes)
qed

section \<open>Claims\<close>



text \<open>
  C17: the common header is refused with the right error. With fewer than two octets left the
  answer is \<open>ErrorOverflow\<close> and the context is as it was; with a version octet below the receiver's
  minimum or above the latest version it is \<open>ErrorNotSupportedProtocolVersion\<close>, the context has that
  version and stands right behind the two octets of the version field: nothing behind them is read.
  With an acceptable version and fewer than eight octets it is \<open>ErrorOverflow\<close> again. Only the low
  octet of the 16-bit version field counts: the high one, which must be zero, is dropped.
\<close>
theorem common_header_rejects:
  assumes "walker_rep (m_binaryData d) bs k" "length bs < 2 ^ 63"
    and "refused \<longleftrightarrow> bs ! k < m_protocolVersion d \<or> getLatestProtocolVersion < bs ! k"
  shows "(length bs < k + 2 \<longrightarrow> common_deserialize E d = (ErrorOverflow, d))
   \<and> (k + 2 \<le> length bs \<and> refused \<longrightarrow> (\<exists>w'. common_deserialize E d
         = (ErrorNotSupportedProtocolVersion, setProtocolVersion (d\<lparr>m_binaryData := w'\<rparr>) (bs ! k)) \<and> walker_rep w' bs (k + 2)))
   \<and> (length bs < k + 8 \<and> \<not> refused \<longrightarrow> fst (common_deserialize E d) = ErrorOverflow)"
  using common_deserialize_refused [OF assms(1,2)] assms(3) by blast

theorem common_header_rejects_witness:
  "common_deserialize sample_env (sample_dcommon [1] False) = (ErrorOverflow, sample_dcommon [1] False)
   \<and> (\<exists>w'. common_deserialize sample_env (sample_dcommon [2, 9, 1, 0] False)
        = (ErrorNotSupportedProtocolVersion, setProtocolVersion ((sample_dcommon [2, 9, 1, 0] False)\<lparr>m_binaryData := w'\<rparr>) 2)
      \<and> walker_rep w' [2, 9, 1, 0] 2)
   \<and> fst (common_deserialize sample_env (sample_dcommon [1, 9, 1, 0] False)) = ErrorOverflow"
proof -
  have m: "m_protocolVersion (sample_dcommon bs False) = 1" for bs by (simp add: sample_dcommon_def)
  have l: "getLatestProtocolVersion = 1" by code_simp
  show ?thesis
    using common_header_rejects [OF sample_dcommon_rep [of "[1]" False], of False sample_env]
      common_header_rejects [OF sample_dcommon_rep [of "[2, 9, 1, 0]" False], of True sample_env]
      common_header_rejects [OF sample_dcommon_rep [of "[1, 9, 1, 0]" False], of False sample_env]
    by (simp add: m l del: add_2_eq_Suc add_2_eq_Suc')
qed

definition interface_version_error :: "bool \<Rightarrow> byte \<Rightarrow> common_flags \<Rightarrow> u32 \<Rightarrow> uuid \<Rightarrow> byte list" where
  "interface_version_error be pv cf minv idt =
     common_header pv Msg_Status cf
     @ obj_bytes (cf_bigEndianFormat cf) (status_word ErrorNotSupportedInterfaceVersion)
     @ obj_bytes (cf_bigEndianFormat cf) minv @ uuid_bytes be idt"

lemma scommon_new_fields:
  "m_protocolVersion (scommon_new E out pv mt cf) = pv" "m_messageType (scommon_new E out pv mt cf) = mt"
  "m_bigEndianFormat (scommon_new E out pv mt cf) = cf_bigEndianFormat cf"
  "m_endiannessDifference (scommon_new E out pv mt cf) = cf_endiannessDifference cf"
  "m_endiannessNotMatch (scommon_new E out pv mt cf) = (cf_bigEndianFormat cf \<noteq> big_endian E)"
  "cf_valid cf \<Longrightarrow> getCommonFlags (scommon_new E out pv mt cf) = cf"
  "common_inv (big_endian E) (scommon_new E out pv mt cf)"
  by (simp_all add: scommon_new_def ctx_simps) (simp_all add: common_new_def getCommonFlags_set, simp_all add: setCommonFlags_def)

lemma serialize_interface_version_error:
  assumes "pv = 1" "cf_valid cf" "cf_bigEndianFormat cf \<noteq> big_endian E \<longrightarrow> cf_endiannessDifference cf"
    and "\<not> memory_out E" "vec_rep out bs" "length bs < 2 ^ 62"
  shows "\<exists>out'. serializeErrorNotSupportedInterfaceVersion E pv cf minv idt out = (NoError, out')
     \<and> vec_rep out' (bs @ interface_version_error (big_endian E) pv cf minv idt)"
proof -
  let ?c = "scommon_new E out pv Msg_Status cf"
  have "emits E (\<lambda>c. run (serializeFullContext E c ErrorNotSupportedInterfaceVersion False)
      (\<lambda>c. body_serializeErrorNotSupportedInterfaceVersion E c minv idt))
      (status_message ?c ErrorNotSupportedInterfaceVersion
       @ obj_bytes (m_bigEndianFormat ?c) minv @ uuid_bytes (big_endian E) idt) ?c"
    using assms(1-3)
    by (intro emits_run emits_serializeFullContext emits_body_NotSupportedInterfaceVersion)
      (simp_all add: scommon_new_fields isProtocolVersionSupported_iff)
  moreover have "vec_rep (m_binaryData ?c) bs"
    using reserve256 [OF assms(5), of E] by (simp add: scommon_new_def common_new_def setCommonFlags_def)
  ultimately have "\<exists>b. run (serializeFullContext E ?c ErrorNotSupportedInterfaceVersion False)
      (\<lambda>c. body_serializeErrorNotSupportedInterfaceVersion E c minv idt) = (NoError, ?c\<lparr>m_binaryData := b\<rparr>)
      \<and> vec_rep b (bs @ interface_version_error (big_endian E) pv cf minv idt)"
    using emits_total [OF _ assms(4)] assms(2,6)
    by (fastforce simp: interface_version_error_def status_message_def scommon_new_fields)
  then show ?thesis by (auto simp: serializeErrorNotSupportedInterfaceVersion_def)
qed

lemma status_of_error: "status_of_word (status_word ErrorNotSupportedInterfaceVersion) = ErrorNotSupportedInterfaceVersion"
  by code_simp

lemma deserialize_interface_version_error:
  assumes "common_inv (big_endian E) d" "walker_rep (m_binaryData d) bs k" "length bs < 2 ^ 63"
    and "xs = obj_bytes (m_bigEndianFormat d) (status_word ErrorNotSupportedInterfaceVersion)
       @ obj_bytes (m_bigEndianFormat d) minv @ uuid_bytes (big_endian E) idt"
    and "drop k bs = xs"
  shows "\<exists>d1 d2. status_deserialize E d st0 = (NoError, d1, ErrorNotSupportedInterfaceVersion)
     \<and> body_deserializeErrorNotSupportedInterfaceVersion E d1 v0 id0 = (NoError, d2, minv, idt)"
proof -
  have k: "k \<le> length bs" using assms(2) by (simp add: walker_rep_def)
  have l: "length bs - k = 24" using arg_cong [OF assms(5), of length] assms(4) by simp
  obtain w1 where r1: "status_deserialize E (d\<lparr>m_binaryData := m_binaryData d\<rparr>) st0
      = (NoError, d\<lparr>m_binaryData := w1\<rparr>, ErrorNotSupportedInterfaceVersion)" and w1: "walker_rep w1 bs (k + 4)"
    using parsesD [OF parses_status_deserialize [OF assms(1), of st0 ErrorNotSupportedInterfaceVersion] assms(2,3)]
      assms(4,5) l by (auto simp: status_of_error)
  have l4: "length bs - (k + 4) = 20" using l by simp
  have t: "drop (k + 4) bs = obj_bytes (m_bigEndianFormat d) minv @ uuid_bytes (big_endian E) idt"
    using arg_cong [OF assms(5), of "drop 4"] assms(4) by (simp add: add.commute)
  obtain w2 where "body_deserializeErrorNotSupportedInterfaceVersion E (d\<lparr>m_binaryData := w1\<rparr>) v0 id0
      = (NoError, d\<lparr>m_binaryData := w2\<rparr>, minv, idt)"
    using parsesD [OF parses_body_NotSupportedInterfaceVersion [OF assms(1), of v0 id0 minv idt] w1 assms(3)] l4 t
    by auto
  with r1 show ?thesis by auto
qed

text \<open>
  The message that reports an unsupported interface version is written whole, as the
  common header of a status message, the status, the minimum version the sender supports and
  the id of the struct; a reader with the same settings, positioned behind the header, gets
  that status and these two values back.
\<close>
lemma interface_version_error_roundtrip:
  assumes "pv = 1" "cf_valid cf" "cf_bigEndianFormat cf \<noteq> big_endian E \<longrightarrow> cf_endiannessDifference cf"
    and "\<not> memory_out E" "vec_rep out bs" "length bs < 2 ^ 62"
    and "common_inv (big_endian E) d" "m_bigEndianFormat d = cf_bigEndianFormat cf"
    and "walker_rep (m_binaryData d) (bs @ interface_version_error (big_endian E) pv cf minv idt) (length bs + 8)"
  shows "\<exists>out' d1 d2. serializeErrorNotSupportedInterfaceVersion E pv cf minv idt out = (NoError, out')
     \<and> vec_rep out' (bs @ interface_version_error (big_endian E) pv cf minv idt)
     \<and> status_deserialize E d st0 = (NoError, d1, ErrorNotSupportedInterfaceVersion)
     \<and> body_deserializeErrorNotSupportedInterfaceVersion E d1 v0 id0 = (NoError, d2, minv, idt)"
proof -
  have "length (bs @ interface_version_error (big_endian E) pv cf minv idt) < 2 ^ 63"
    using assms(6) by (simp add: interface_version_error_def)
  from deserialize_interface_version_error [OF assms(7,9) this refl, of minv idt st0 v0 id0]
    serialize_interface_version_error [OF assms(1-6), of minv idt] assms(8)
  show ?thesis by (auto simp: interface_version_error_def)
qed

lemma interface_version_error_roundtrip_witness:
  "\<exists>out d d1 d2. serializeErrorNotSupportedInterfaceVersion sample_env 1 (cf_of 0) 7 kNullUuid
         (empty_vec GenericManager) = (NoError, out)
     \<and> vec_rep out (interface_version_error False 1 (cf_of 0) 7 kNullUuid)
     \<and> status_deserialize sample_env (d :: byte walker common) NoError
         = (NoError, d1, ErrorNotSupportedInterfaceVersion)
     \<and> body_deserializeErrorNotSupportedInterfaceVersion sample_env d1 0 kNullUuid
         = (NoError, d2, 7, kNullUuid)"
proof -
  let ?E = "sample_env"
  let ?bs = "interface_version_error False 1 (cf_of 0) 7 kNullUuid"
  let ?d = "(sample_dcommon ?bs False)\<lparr>m_binaryData := (m_binaryData (sample_dcommon ?bs False))\<lparr>m_offset := 8\<rparr>\<rparr>"
  have "length ?bs = 32" by (simp add: interface_version_error_def)
  then have "walker_rep (m_binaryData ?d) ([] @ interface_version_error (big_endian ?E) 1 (cf_of 0) 7 kNullUuid) (length ([] :: byte list) + 8)"
    using sample_dcommon_rep [of ?bs False] by (simp add: walker_rep_def)
  moreover have "common_inv (big_endian ?E) ?d" "m_bigEndianFormat ?d = cf_bigEndianFormat (cf_of 0)"
    by (simp_all add: common_inv_def sample_dcommon_def cf_bigEndianFormat_def cf_of_def)
  moreover have "cf_bigEndianFormat (cf_of 0) \<noteq> big_endian ?E \<longrightarrow> cf_endiannessDifference (cf_of 0)" "\<not> memory_out ?E"
    by (simp_all add: cf_bigEndianFormat_def cf_of_def memory_out_def)
  ultimately show ?thesis
    using interface_version_error_roundtrip [OF refl cf_valid_of _ _ vec_rep_empty, of 0 ?E ?d 7 kNullUuid GenericManager NoError 0 kNullUuid]
    by simp blast
qed

end
