(* ===== verification/DataContext.thy ===== *)
theory DataContext
  imports CommonProcessing
begin

text \<open>
  \<open>csp_base/processing/data/ContextProcessor.h\<close> and the static part of
  \<open>csp_base/ISerializable.h\<close>: what is known of a serializable struct at compile time, and
  the private context of data messages (struct id, interface version, data flags).
\<close>

section \<open>Serializable structs\<close>

text \<open>
  The static members of a struct: its id, its interface, \<open>kInterfaceVersion\<close>,
  \<open>kPrivateVersions\<close> from the newest to the oldest, and its additional flags, no flags when
  it declares none.
\<close>

record struct_info =
  s_kId :: uuid
  s_interface :: interface
  s_kInterfaceVersion :: u32
  s_kPrivateVersions :: "u32 list"
  s_kAddtionalMandatoryDataFlags :: data_flags
  s_kAddtionalForbiddenDataFlags :: data_flags

definition getId :: "struct_info \<Rightarrow> uuid" where
  "getId T = s_kId T"

definition getLatestPrivateVersion :: "struct_info \<Rightarrow> u32" where
  "getLatestPrivateVersion T = s_kPrivateVersions T ! 0"

definition getLatestInterfaceVersion :: "struct_info \<Rightarrow> u32" where
  "getLatestInterfaceVersion T = s_kInterfaceVersion T"

definition getPrivateVersionsCount :: "struct_info \<Rightarrow> u32" where
  "getPrivateVersionsCount T = of_nat (length (s_kPrivateVersions T))"

definition getOriginPrivateVersion :: "struct_info \<Rightarrow> u32" where
  "getOriginPrivateVersion T = s_kPrivateVersions T ! (unat (getPrivateVersionsCount T) - 1)"

definition getInterface :: "struct_info \<Rightarrow> interface" where
  "getInterface T = s_interface T"

definition getEffectiveMandatoryDataFlags :: "struct_info \<Rightarrow> data_flags" where
  "getEffectiveMandatoryDataFlags T =
     df_or (s_kAddtionalMandatoryDataFlags T) (i_mandatoryDataFlags (getInterface T))"

definition getEffectiveForbiddenDataFlags :: "struct_info \<Rightarrow> data_flags" where
  "getEffectiveForbiddenDataFlags T =
     df_or (s_kAddtionalForbiddenDataFlags T) (i_forbiddenDataFlags (getInterface T))"

section \<open>The private context of data messages\<close>

text \<open>\<open>None\<close> for a type that declares no flags.\<close>

definition testDataFlagsCompatibility :: "struct_info option \<Rightarrow> data_flags \<Rightarrow> status" where
  "testDataFlagsCompatibility T dataFlags =
     (case T of
        None \<Rightarrow> NoError
      | Some T \<Rightarrow>
          let effectiveMandatoryDataFlags = getEffectiveMandatoryDataFlags T;
              forbiddenDataFlags = df_or_word (getEffectiveForbiddenDataFlags T) df_kForbiddenFlagsMask
          in if \<not> df_bool (df_and dataFlags forbiddenDataFlags)
                \<and> df_eq (df_and dataFlags effectiveMandatoryDataFlags) effectiveMandatoryDataFlags
             then NoError else ErrorNotCompatibleDataFlagsSettings)"

definition data_serialize :: "env \<Rightarrow> struct_info \<Rightarrow> sdata \<Rightarrow> status \<times> sdata" where
  "data_serialize E T ctx =
     run (writeRawData E 16 (Some (uuid_bytes (big_endian E) (getId T))) 1 ctx) (\<lambda>ctx.
       let interfaceVersion = i_version (getInterface T)
       in if \<not> isInterfaceVersionSupported (m_interfaceVersion ctx) (getOriginPrivateVersion T) interfaceVersion
          then (ErrorNotSupportedInterfaceVersion, ctx)
          else run (writePrimitive E (m_interfaceVersion ctx) ctx) (\<lambda>ctx.
            let ctx = (if m_interfaceVersion ctx < getLatestInterfaceVersion T
                       then setInterfaceVersionsNotMatch ctx True else ctx)
            in if m_checkRecursivePointers ctx \<and> \<not> m_allowUnmanagedPointers ctx
               then (ErrorNotCompatibleDataFlagsSettings, ctx)
               else
                 let dataFlags = m_dataFlags ctx
                 in run (testDataFlagsCompatibility (Some T) dataFlags, ctx) (\<lambda>ctx.
                    run (writePrimitive E (df_word dataFlags) ctx) (\<lambda>ctx. (NoError, ctx)))))"

definition data_serializeNoChecks :: "env \<Rightarrow> struct_info \<Rightarrow> sdata \<Rightarrow> status \<times> sdata" where
  "data_serializeNoChecks E T ctx =
     run (writeRawData E 16 (Some (uuid_bytes (big_endian E) (getId T))) 1 ctx) (\<lambda>ctx.
     run (writePrimitive E (m_interfaceVersion ctx) ctx) (\<lambda>ctx.
       let ctx = (if m_interfaceVersion ctx < getLatestInterfaceVersion T
                  then setInterfaceVersionsNotMatch ctx True else ctx)
       in run (writePrimitive E (df_word (m_dataFlags ctx)) ctx) (\<lambda>ctx. (NoError, ctx))))"

definition data_deserializeNoChecks :: "env \<Rightarrow> ddata \<Rightarrow> uuid \<Rightarrow> status \<times> ddata \<times> uuid" where
  "data_deserializeNoChecks E ctx uid =
     run_out (readRawObject E ctx (uuid_bytes (big_endian E) uid)) (uuid_of_bytes (big_endian E)) (\<lambda>ctx bs.
       let uid = uuid_of_bytes (big_endian E) bs
       in run_out (readPrimitive E ctx (0 :: u32)) (\<lambda>_. uid) (\<lambda>ctx inputInterfaceVersion.
            let ctx = setInterfaceVersion ctx inputInterfaceVersion
            in run_out (readPrimitive E ctx (0 :: u32)) (\<lambda>_. uid) (\<lambda>ctx intFlags.
                 (NoError, setDataFlags ctx (df_of intFlags), uid))))"

definition data_deserializePostprocessId :: "struct_info \<Rightarrow> uuid \<Rightarrow> status" where
  "data_deserializePostprocessId T uid = (if uuid_eq (getId T) uid then NoError else ErrorMismatchOfStructId)"

definition data_deserializePostprocessRest :: "struct_info \<Rightarrow> ddata \<Rightarrow> u32 \<Rightarrow> status \<times> ddata" where
  "data_deserializePostprocessRest T ctx minimumSupportedInterfaceVersion =
     (let interfaceVersion = i_version (getInterface T)
      in if \<not> isInterfaceVersionSupported (m_interfaceVersion ctx) minimumSupportedInterfaceVersion interfaceVersion
         then (ErrorNotSupportedInterfaceVersion, ctx)
         else
           let ctx = (if m_interfaceVersion ctx < getLatestInterfaceVersion T
                      then setInterfaceVersionsNotMatch ctx True else ctx)
           in run (testDataFlagsCompatibility (Some T) (m_dataFlags ctx), ctx) (\<lambda>ctx.
                if m_allowUnmanagedPointers ctx \<and> m_pAddedPointers ctx = None
                then (ErrorInvalidArgument, ctx)
                else if m_checkRecursivePointers ctx \<and> \<not> m_allowUnmanagedPointers ctx
                then (ErrorNotCompatibleDataFlagsSettings, ctx)
                else (NoError, ctx)))"

section \<open>The wire format\<close>

definition data_header :: "bool \<Rightarrow> bool \<Rightarrow> uuid \<Rightarrow> u32 \<Rightarrow> data_flags \<Rightarrow> byte list" where
  "data_header be fmt uid iv df = uuid_bytes be uid @ obj_bytes fmt iv @ obj_bytes fmt (df_word df)"

lemma length_data_header [simp]: "length (data_header be fmt uid iv df) = 24"
  by (simp add: data_header_def)

text \<open>The conditions under which a struct goes out in its current form.\<close>

definition data_ok :: "struct_info \<Rightarrow> u32 \<Rightarrow> data_flags \<Rightarrow> bool" where
  "data_ok T iv df \<longleftrightarrow>
     isInterfaceVersionSupported iv (getOriginPrivateVersion T) (i_version (getInterface T))
     \<and> testDataFlagsCompatibility (Some T) df = NoError
     \<and> (df_checkRecursivePointers df \<longrightarrow> df_allowUnmanagedPointers df)"

lemma emits_uuid:
  "emits E (writeRawData E 16 (Some (uuid_bytes be uid)) 1) (uuid_bytes be uid) c"
  by (intro emits_writeRawData) simp_all

lemma emits_else:
  "\<lbrakk>\<And>b. \<not> P (c\<lparr>m_binaryData := b\<rparr>); emits E h xs c\<rbrakk> \<Longrightarrow> emits E (\<lambda>c. if P c then e c else h c) xs c"
  by (simp add: emits_def)

lemma emits_data_serialize:
  assumes i: "common_inv (big_endian E) c" "data_inv c"
    and ok: "data_ok T (m_interfaceVersion c) (m_dataFlags c)"
    and latest: "getLatestInterfaceVersion T \<le> m_interfaceVersion c"
  shows "emits E (data_serialize E T)
     (data_header (big_endian E) (m_bigEndianFormat c) (getId T) (m_interfaceVersion c) (m_dataFlags c)) c"
proof -
  have tail: "emits E (\<lambda>ctx. let ctx = (if m_interfaceVersion ctx < getLatestInterfaceVersion T
                       then setInterfaceVersionsNotMatch ctx True else ctx)
            in if m_checkRecursivePointers ctx \<and> \<not> m_allowUnmanagedPointers ctx
               then (ErrorNotCompatibleDataFlagsSettings, ctx)
               else
                 let dataFlags = m_dataFlags ctx
                 in run (testDataFlagsCompatibility (Some T) dataFlags, ctx) (\<lambda>ctx.
                    run (writePrimitive E (df_word dataFlags) ctx) (\<lambda>ctx. (NoError, ctx))))
      (obj_bytes (m_bigEndianFormat c) (df_word (m_dataFlags c))) c"
    by (subst emits_cong [where g = "\<lambda>ctx. run (writePrimitive E (df_word (m_dataFlags c)) ctx) (\<lambda>ctx. (NoError, ctx))"])
       (use ok latest i in \<open>auto simp: data_ok_def data_inv_def run_simps not_less
          intro!: emits_run_done emits_writePrimitive\<close>)
  have "emits E (\<lambda>ctx. run (writePrimitive E (m_interfaceVersion ctx) ctx) g)
      (obj_bytes (m_bigEndianFormat c) (m_interfaceVersion c) @ ys) c"
    if "emits E g ys c" for g ys
    by (subst emits_cong [where g = "\<lambda>ctx. run (writePrimitive E (m_interfaceVersion c) ctx) g"])
       (use that i in \<open>auto intro!: emits_run emits_writePrimitive\<close>)
  note step = this [OF tail [unfolded Let_def]]
  show ?thesis
    unfolding data_serialize_def data_header_def Let_def
    by (intro emits_run emits_uuid emits_else step) (use ok in \<open>simp add: data_ok_def\<close>)
qed

text \<open>
  A context knows of the older version that a struct goes out in, and the struct goes out in
  any version it has.
\<close>

definition versions_noted :: "struct_info \<Rightarrow> ('b, 'k, 'v) data \<Rightarrow> ('b, 'k, 'v) data" where
  "versions_noted T c =
     (if m_interfaceVersion c < getLatestInterfaceVersion T then setInterfaceVersionsNotMatch c True else c)"

lemma versions_noted_simps [simp]:
  "versions_noted T (c\<lparr>m_binaryData := b\<rparr>) = (versions_noted T c)\<lparr>m_binaryData := b\<rparr>"
  "getLatestInterfaceVersion T \<le> m_interfaceVersion c \<Longrightarrow> versions_noted T c = c"
  "m_binaryData (versions_noted T c) = m_binaryData c" "m_interfaceVersion (versions_noted T c) = m_interfaceVersion c"
  "m_dataFlags (versions_noted T c) = m_dataFlags c" "m_bigEndianFormat (versions_noted T c) = m_bigEndianFormat c"
  "common_inv be (versions_noted T c) = common_inv be c" "data_inv (versions_noted T c) = data_inv c"
  "m_checkRecursivePointers (versions_noted T c) = m_checkRecursivePointers c"
  "m_allowUnmanagedPointers (versions_noted T c) = m_allowUnmanagedPointers c"
  by (simp_all add: versions_noted_def setInterfaceVersionsNotMatch_def common_inv_def data_inv_def)

lemma data_serialize_at:
  assumes i: "common_inv (big_endian E) c" "data_inv c" and ok: "data_ok T (m_interfaceVersion c) (m_dataFlags c)"
    and m: "\<not> memory_out E" "vec_rep (m_binaryData c) bs" "length bs + 24 < 2 ^ 63"
  shows "\<exists>b. data_serialize E T c = (NoError, (versions_noted T c)\<lparr>m_binaryData := b\<rparr>)
     \<and> vec_rep b (bs @ data_header (big_endian E) (m_bigEndianFormat c) (getId T) (m_interfaceVersion c) (m_dataFlags c))"
proof -
  let ?u = "uuid_bytes (big_endian E) (getId T)" and ?o = "\<lambda>x :: u32. obj_bytes (m_bigEndianFormat c) x"
  have l: "length bs + length ?u < 2 ^ 63" "length (bs @ ?u) + length (?o (m_interfaceVersion c)) < 2 ^ 63"
    "length (bs @ ?u @ ?o (m_interfaceVersion c)) + length (?o (df_word (m_dataFlags c))) < 2 ^ 63" using m(3) by simp_all
  obtain b1 where b1: "writeRawData E 16 (Some ?u) 1 c = (NoError, c\<lparr>m_binaryData := b1\<rparr>)" "vec_rep b1 (bs @ ?u)"
    using emits_total [OF emits_uuid m(1,2) l(1)] by blast
  have p: "emits E (writePrimitive E (x :: u32)) (?o x) y" if "common_inv (big_endian E) y" "m_bigEndianFormat y = m_bigEndianFormat c"
    for x and y :: "(byte vec, 'p) ctx" using emits_writePrimitive [of E y x] that by simp
  obtain b2 where b2: "writePrimitive E (m_interfaceVersion c) (c\<lparr>m_binaryData := b1\<rparr>) = (NoError, c\<lparr>m_binaryData := b2\<rparr>)"
    "vec_rep b2 (bs @ ?u @ ?o (m_interfaceVersion c))"
    using emits_total [OF p [of "c\<lparr>m_binaryData := b1\<rparr>" "m_interfaceVersion c"] m(1), of "bs @ ?u"] b1(2) l(2) i(1) by (auto simp: ctx_simps)
  let ?c = "(versions_noted T c)\<lparr>m_binaryData := b2\<rparr>"
  obtain b3 where b3: "writePrimitive E (df_word (m_dataFlags c)) ?c = (NoError, ?c\<lparr>m_binaryData := b3\<rparr>)"
    "vec_rep b3 (bs @ ?u @ ?o (m_interfaceVersion c) @ ?o (df_word (m_dataFlags c)))"
    using emits_total [OF p [of ?c "df_word (m_dataFlags c)"] m(1), of "bs @ ?u @ ?o (m_interfaceVersion c)"] b2(2) l(3) i(1)
    by (auto simp: ctx_simps)
  have "\<not> (m_checkRecursivePointers ?c \<and> \<not> m_allowUnmanagedPointers ?c)" using ok i by (auto simp: data_ok_def data_inv_def)
  then show ?thesis
    using b1(1) b2(1) b3 ok
    by (intro exI [of _ b3]) (simp add: data_serialize_def data_ok_def run_simps Let_def data_header_def flip: versions_noted_def)
qed

text \<open>Reading the private context back.\<close>

lemma data_deserializeNoChecks_ok:
  assumes i: "common_inv (big_endian E) c" and w: "walker_rep (m_binaryData c) bs k" "length bs < 2 ^ 63"
    and t: "take 24 (drop k bs) = data_header (big_endian E) (m_bigEndianFormat c) uid iv df" and v: "df_valid df"
  shows "\<exists>w'. data_deserializeNoChecks E c u0
      = (NoError, setDataFlags (setInterfaceVersion (c\<lparr>m_binaryData := w'\<rparr>) iv) df, uid)
     \<and> walker_rep w' bs (k + 24)"
proof -
  have le: "length bs \<ge> k + 24"
    using arg_cong [OF t, of length] by simp
  then have room: "16 \<le> length bs - k" "4 \<le> length bs - (k + 16)" "4 \<le> length bs - (k + 20)" by simp_all
  have t1: "take 16 (drop k bs) = uuid_bytes (big_endian E) uid"
    using arg_cong [OF t, of "take 16"] by (simp add: data_header_def)
  have t2: "take 4 (drop (k + 16) bs) = obj_bytes (m_bigEndianFormat c) iv"
    using arg_cong [OF t, of "\<lambda>x. take 4 (drop 16 x)"] by (simp add: data_header_def drop_take add.commute)
  have t3: "take 4 (drop (k + 20) bs) = obj_bytes (m_bigEndianFormat c) (df_word df)"
    using arg_cong [OF t, of "drop 20"] by (simp add: data_header_def drop_take add.commute)
  have p1: "parses (\<lambda>c. readRawObject E c (uuid_bytes (big_endian E) u0)) (uuid_bytes (big_endian E) uid) c
      (uuid_bytes (big_endian E) uid)"
    by (intro parses_readRawObject) (simp_all flip: length_0_conv)
  obtain w1 where r1: "readRawObject E c (uuid_bytes (big_endian E) u0)
      = (NoError, c\<lparr>m_binaryData := w1\<rparr>, uuid_bytes (big_endian E) uid)" "walker_rep w1 bs (k + 16)"
    using parsesD [OF p1 w] t1 room by (auto simp: add.commute [of _ k])
  let ?c1 = "c\<lparr>m_binaryData := w1\<rparr>"
  have p2: "parses (\<lambda>c. readPrimitive E c (0::u32)) (obj_bytes (m_bigEndianFormat c) iv) c iv"
    using i by (intro parses_readPrimitive) simp_all
  obtain w2 where r2: "readPrimitive E ?c1 (0::u32) = (NoError, c\<lparr>m_binaryData := w2\<rparr>, iv)" "walker_rep w2 bs (k + 20)"
    using parsesD [OF p2 r1(2) w(2)] t2 room by (auto simp: add.commute [of _ k])
  let ?c2 = "setInterfaceVersion c iv"
  have i2: "common_inv (big_endian E) ?c2" "m_bigEndianFormat ?c2 = m_bigEndianFormat c"
    using i by (simp_all add: common_inv_def setInterfaceVersion_def)
  have p3: "parses (\<lambda>c. readPrimitive E c (0::u32)) (obj_bytes (m_bigEndianFormat c) (df_word df)) ?c2 (df_word df)"
    using parses_readPrimitive [OF _ i2(1), where v = "df_word df" and old = 0] i2(2) by simp
  obtain w3 where r3: "readPrimitive E (?c2\<lparr>m_binaryData := w2\<rparr>) (0::u32) = (NoError, ?c2\<lparr>m_binaryData := w3\<rparr>, df_word df)"
    "walker_rep w3 bs (k + 24)"
    using parsesD [OF p3 r2(2) w(2)] t3 room by (auto simp: add.commute [of _ k])
  have sw: "setInterfaceVersion (c\<lparr>m_binaryData := w\<rparr>) iv = ?c2\<lparr>m_binaryData := w\<rparr>" for w
    by (simp add: setInterfaceVersion_def)
  show ?thesis
    using r1 r2 r3 v
    by (auto simp: data_deserializeNoChecks_def run_simps uuid_of_bytes_bytes sw Let_def intro!: exI [of _ w3])
qed

text \<open>The checks after it succeed exactly when the struct accepts version and flags.\<close>

lemma data_deserializePostprocessRest_at:
  assumes "isInterfaceVersionSupported (m_interfaceVersion c) minv (i_version (getInterface T))"
    and "testDataFlagsCompatibility (Some T) (m_dataFlags c) = NoError"
    and "m_allowUnmanagedPointers c \<longrightarrow> m_pAddedPointers c \<noteq> None"
    and "m_checkRecursivePointers c \<longrightarrow> m_allowUnmanagedPointers c"
  shows "data_deserializePostprocessRest T c minv = (NoError, versions_noted T c)"
  using assms
  by (auto simp: data_deserializePostprocessRest_def run_simps versions_noted_def setInterfaceVersionsNotMatch_def)

lemma data_deserializePostprocessRest_ok:
  assumes "isInterfaceVersionSupported (m_interfaceVersion c) minv (i_version (getInterface T))"
    and "testDataFlagsCompatibility (Some T) (m_dataFlags c) = NoError"
    and "m_allowUnmanagedPointers c \<longrightarrow> m_pAddedPointers c \<noteq> None"
    and "m_checkRecursivePointers c \<longrightarrow> m_allowUnmanagedPointers c"
    and "getLatestInterfaceVersion T \<le> m_interfaceVersion c"
  shows "data_deserializePostprocessRest T c minv = (NoError, c)"
  using data_deserializePostprocessRest_at [OF assms(1-4)] assms(5) by simp

end
