(* ===== verification/Body.thy ===== *)
theory Body
  imports DataContext
begin

text \<open>
  \<open>csp_base/processing/data/BodyProcessor.h\<close>: the values of a data message. The templates
  are functions of what their code asks of the type: its size, its tags, its octets in
  memory, and the \<open>serialize\<close> and \<open>deserialize\<close> that overload resolution finds for it.
\<close>

section \<open>Types\<close>

text \<open>
  The facts that \<open>if constexpr\<close> and the concepts ask of a type. \<open>tag_alignedToOne\<close> and
  \<open>tag_always\<close> include that the alignment is 1; \<open>t_info\<close> is there for a type that
  implements \<open>ISerializable\<close>. \<open>t_octets\<close> and \<open>t_of_octets\<close> are the object representation on
  a platform of the given byte order, \<open>t_default\<close> a default constructed object.
\<close>

record 'a ctype =
  t_sizeof :: nat
  t_integralOrEnum :: bool
  t_floating :: bool
  t_fixSized :: bool
  t_signed :: bool
  t_empty :: bool
  tag_simplyAssignable :: bool
  tag_alignedToOne :: bool
  tag_fixedSize :: bool
  tag_always :: bool
  tag_endiannessTolerant :: bool
  t_info :: "struct_info option"
  t_default :: 'a
  t_octets :: "bool \<Rightarrow> 'a \<Rightarrow> byte list"
  t_of_octets :: "bool \<Rightarrow> byte list \<Rightarrow> 'a"

text \<open>An integer type of the width of a word; no standard integer type is strictly sized.\<close>

definition integer_type :: "bool \<Rightarrow> 'a::len word ctype" where
  "integer_type sg = \<lparr>t_sizeof = LENGTH('a) div 8, t_integralOrEnum = True, t_floating = False,
     t_fixSized = False, t_signed = sg, t_empty = False, tag_simplyAssignable = False,
     tag_alignedToOne = False, tag_fixedSize = False, tag_always = False, tag_endiannessTolerant = False,
     t_info = None, t_default = 0, t_octets = obj_bytes, t_of_octets = obj_value\<rparr>"

definition AnySimplyAssignable :: "'a ctype \<Rightarrow> bool" where
  "AnySimplyAssignable T = (tag_always T \<or> tag_fixedSize T \<or> tag_alignedToOne T \<or> tag_simplyAssignable T)"

definition EndiannessTolerant :: "'a ctype \<Rightarrow> bool" where
  "EndiannessTolerant T = (tag_endiannessTolerant T \<or> t_sizeof T = 1)"

definition type_latestInterfaceVersion :: "'a ctype \<Rightarrow> u32" where
  "type_latestInterfaceVersion T = (case t_info T of Some i \<Rightarrow> getLatestInterfaceVersion i | None \<Rightarrow> 0)"

text \<open>Which tags allow a copy of the octets in this context.\<close>

definition tags_allow_copy :: "'a ctype \<Rightarrow> ('b, 'k, 'v) data \<Rightarrow> bool" where
  "tags_allow_copy T ctx =
     (tag_always T
      \<or> tag_fixedSize T \<and> \<not> m_alignmentMayBeNotEqual ctx
      \<or> tag_alignedToOne T \<and> \<not> m_sizeOfPrimitivesMayBeNotEqual ctx
      \<or> tag_simplyAssignable T \<and> \<not> m_alignmentMayBeNotEqual ctx \<and> \<not> m_sizeOfPrimitivesMayBeNotEqual ctx)"

definition copies_arrays :: "'a ctype \<Rightarrow> ('b, 'k, 'v) data \<Rightarrow> bool" where
  "copies_arrays T ctx =
     ((\<not> m_endiannessDifference ctx \<or> EndiannessTolerant T)
      \<and> (t_integralOrEnum T \<or> t_floating T
         \<or> \<not> m_simplyAssignableTagsOptimizationsAreTurnedOff ctx
            \<and> (t_info T = None \<or> type_latestInterfaceVersion T \<le> m_interfaceVersion ctx)
            \<and> tags_allow_copy T ctx))"

section \<open>Integers of another size\<close>

definition serializeToAnotherSizeInternal :: "env \<Rightarrow> nat \<Rightarrow> u64 \<Rightarrow> sdata \<Rightarrow> status \<times> sdata" where
  "serializeToAnotherSizeInternal E targetTypeSize value ctx =
     (if targetTypeSize = 8 then writePrimitive E value ctx
      else if targetTypeSize = 4 then
        (let (st, targetValue) = castToSmallerType False value (0 :: u32)
         in run (st, ctx) (\<lambda>ctx. writePrimitive E targetValue ctx))
      else if targetTypeSize = 2 then
        (let (st, targetValue) = castToSmallerType False value (0 :: u16)
         in run (st, ctx) (\<lambda>ctx. writePrimitive E targetValue ctx))
      else
        (let (st, targetValue) = castToSmallerType False value (0 :: byte)
         in run (st, ctx) (\<lambda>ctx. writePrimitive E targetValue ctx)))"

definition serializeToAnotherSize :: "env \<Rightarrow> nat \<Rightarrow> u64 \<Rightarrow> sdata \<Rightarrow> status \<times> sdata" where
  "serializeToAnotherSize E targetTypeSize value ctx =
     (if targetTypeSize \<in> {8, 4, 2, 1} then serializeToAnotherSizeInternal E targetTypeSize value ctx
      else (ErrorInternal, ctx))"

definition serializeSizeT :: "env \<Rightarrow> u64 \<Rightarrow> sdata \<Rightarrow> status \<times> sdata" where
  "serializeSizeT E value ctx = serializeToAnotherSize E (if \<not> m_bitness32 ctx then 8 else 4) value ctx"

text \<open>
  \<open>originalValue\<close> fixes the width that is read. An end of the data inside the value is
  reported as corruption of the data, except when the widths are the same.
\<close>

definition deserializeFromAnotherSizeInternal ::
    "env \<Rightarrow> bool \<Rightarrow> 'o::len word \<Rightarrow> ddata \<Rightarrow> 'a::len word \<Rightarrow> status \<times> ddata \<times> 'a word" where
  "deserializeFromAnotherSizeInternal E sg originalValue ctx value =
     (if LENGTH('a) = LENGTH('o) then readPrimitive E ctx value
      else
        let (st, ctx, originalValue) = readPrimitive E ctx originalValue
        in if \<not> statusSuccess st
           then (if st = ErrorOverflow then ErrorDataCorrupted else st, ctx, value)
           else if LENGTH('a) < LENGTH('o)
           then (let (st, value') = castToSmallerType sg originalValue value in (st, ctx, value'))
           else (NoError, ctx, castToBiggerType sg originalValue))"

definition deserializeFromAnotherSize ::
    "env \<Rightarrow> bool \<Rightarrow> nat \<Rightarrow> ddata \<Rightarrow> 'a::len word \<Rightarrow> status \<times> ddata \<times> 'a word" where
  "deserializeFromAnotherSize E sg originalTypeSize ctx value =
     (if originalTypeSize = 8 then deserializeFromAnotherSizeInternal E sg (0 :: u64) ctx value
      else if originalTypeSize = 4 then deserializeFromAnotherSizeInternal E sg (0 :: u32) ctx value
      else if originalTypeSize = 2 then deserializeFromAnotherSizeInternal E sg (0 :: u16) ctx value
      else if originalTypeSize = 1 then deserializeFromAnotherSizeInternal E sg (0 :: byte) ctx value
      else (ErrorInternal, ctx, value))"

definition deserializeSizeT :: "env \<Rightarrow> ddata \<Rightarrow> u64 \<Rightarrow> status \<times> ddata \<times> u64" where
  "deserializeSizeT E ctx value =
     deserializeFromAnotherSize E False (if \<not> m_bitness32 ctx then 8 else 4) ctx value"

section \<open>Scalars\<close>

text \<open>An integer or enumeration (\<open>fixSized\<close>: of a strictly sized type), or a floating-point value.\<close>

definition serialize_scalar :: "env \<Rightarrow> bool \<Rightarrow> bool \<Rightarrow> 'a::len word \<Rightarrow> sdata \<Rightarrow> status \<times> sdata" where
  "serialize_scalar E fixSized floating value ctx =
     run (if \<not> fixSized \<and> \<not> floating \<and> m_sizeOfPrimitivesMayBeNotEqual ctx
          then writePrimitive E (of_nat (LENGTH('a) div 8) :: byte) ctx else (NoError, ctx)) (\<lambda>ctx.
       writePrimitive E value ctx)"

definition deserialize_scalar ::
    "env \<Rightarrow> bool \<Rightarrow> bool \<Rightarrow> bool \<Rightarrow> ddata \<Rightarrow> 'a::len word \<Rightarrow> status \<times> ddata \<times> 'a word" where
  "deserialize_scalar E fixSized floating sg ctx value =
     (if \<not> fixSized \<and> \<not> floating \<and> m_sizeOfPrimitivesMayBeNotEqual ctx
      then run_out (readPrimitive E ctx (0 :: byte)) (\<lambda>_. value) (\<lambda>ctx originalTypeSize.
             deserializeFromAnotherSize E sg (unat originalTypeSize) ctx value)
      else readPrimitive E ctx value)"

section \<open>Arrays\<close>

text \<open>
  The elements one by one; \<open>addr i\<close> is the address of element \<open>i\<close>. The pointers map is
  dereferenced: a context that checks recursive pointers has one.
\<close>

definition put_pointer :: "('b, 'k, 'v) data \<Rightarrow> 'k \<Rightarrow> 'v \<Rightarrow> ('b, 'k, 'v) data" where
  "put_pointer ctx k v =
     (case m_pPointersMap ctx of
        Some pm \<Rightarrow> ctx\<lparr>m_pPointersMap := Some (pm(k := Some v))\<rparr>
      | None \<Rightarrow> ctx)"

fun serialize_items :: "('a \<Rightarrow> sdata \<Rightarrow> status \<times> sdata) \<Rightarrow> (nat \<Rightarrow> nat) \<Rightarrow> nat \<Rightarrow> 'a list \<Rightarrow> sdata \<Rightarrow> status \<times> sdata"
where
  "serialize_items ser addr i [] ctx = (NoError, ctx)"
| "serialize_items ser addr i (x # xs) ctx =
     (let ctx = (if m_checkRecursivePointers ctx
                 then put_pointer ctx (addr i) (vec_size (m_binaryData ctx)) else ctx)
      in run (ser x ctx) (\<lambda>ctx. serialize_items ser addr (Suc i) xs ctx))"

definition serialize_array ::
    "env \<Rightarrow> 'a ctype \<Rightarrow> ('a \<Rightarrow> sdata \<Rightarrow> status \<times> sdata) \<Rightarrow> (nat \<Rightarrow> nat) \<Rightarrow> 'a list \<Rightarrow> sdata \<Rightarrow> status \<times> sdata" where
  "serialize_array E T ser addr p ctx =
     (if t_empty T then (NoError, ctx)
      else if copies_arrays T ctx
      then run (if t_integralOrEnum T \<and> \<not> t_fixSized T \<and> m_sizeOfPrimitivesMayBeNotEqual ctx
                then writePrimitive E (of_nat (t_sizeof T) :: byte) ctx else (NoError, ctx)) (\<lambda>ctx.
             writeRawData E (t_sizeof T) (Some (concat (map (t_octets T (big_endian E)) p)))
               (of_nat (length p)) ctx)
      else serialize_items ser addr 0 p ctx)"

text \<open>
  The octets of a block of elements, and the block of given octets: a cell with an octet
  that has no value holds no object.
\<close>

definition block_octets :: "bool \<Rightarrow> 'a ctype \<Rightarrow> 'a storage \<Rightarrow> byte storage" where
  "block_octets be T p =
     (case p of
        Null \<Rightarrow> Null
      | Cells cs \<Rightarrow> Cells (concat (map (\<lambda>c. case c of Raw \<Rightarrow> replicate (t_sizeof T) Raw
                                              | Obj x \<Rightarrow> map Obj (t_octets T be x)) cs))
      | Corrupt \<Rightarrow> Corrupt)"

fun split_cells :: "nat \<Rightarrow> nat \<Rightarrow> 'a cell list \<Rightarrow> 'a cell list list" where
  "split_cells sz 0 cs = []"
| "split_cells sz (Suc n) cs = take sz cs # split_cells sz n (drop sz cs)"

definition block_of_octets :: "bool \<Rightarrow> 'a ctype \<Rightarrow> nat \<Rightarrow> byte storage \<Rightarrow> 'a storage" where
  "block_of_octets be T n p =
     (case p of
        Null \<Rightarrow> Null
      | Cells cs \<Rightarrow> Cells (map (\<lambda>c. case cells_octets c of Some bs \<Rightarrow> Obj (t_of_octets T be bs) | None \<Rightarrow> Raw)
                               (split_cells (t_sizeof T) n cs))
      | Corrupt \<Rightarrow> Corrupt)"

definition storage_cells :: "'a storage \<Rightarrow> nat" where
  "storage_cells p = (case p of Cells cs \<Rightarrow> length cs | _ \<Rightarrow> 0)"

text \<open>The elements in a block that an owner holds.\<close>

definition block_objects :: "'a storage \<Rightarrow> 'a list" where
  "block_objects p =
     (case p of Cells cs \<Rightarrow> List.map_filter (\<lambda>c. case c of Obj x \<Rightarrow> Some x | Raw \<Rightarrow> None) cs | _ \<Rightarrow> [])"

text \<open>\<open>readRawData(ctx, n, p)\<close> into a block of elements.\<close>

definition readRawBlock ::
    "env \<Rightarrow> 'a ctype \<Rightarrow> ddata \<Rightarrow> u64 \<Rightarrow> 'a storage \<Rightarrow> status \<times> ddata \<times> 'a storage" where
  "readRawBlock E T ctx n p =
     (let (st, ctx, q) = readRawData E (t_sizeof T) ctx n (block_octets (big_endian E) T p)
      in (st, ctx, block_of_octets (big_endian E) T (storage_cells p) q))"

text \<open>
  Element by element: \<open>new (&p[i]) _T\<close>, the pointers map, \<open>deserialize\<close>. \<open>des\<close> gets the
  default constructed element.
\<close>

fun deserialize_items ::
    "(ddata \<Rightarrow> 'a \<Rightarrow> status \<times> ddata \<times> 'a) \<Rightarrow> 'a \<Rightarrow> (nat \<Rightarrow> nat) \<Rightarrow> nat \<Rightarrow> nat \<Rightarrow> ddata \<Rightarrow> 'a storage
     \<Rightarrow> status \<times> ddata \<times> 'a storage"
where
  "deserialize_items des dflt addr i 0 ctx p = (NoError, ctx, p)"
| "deserialize_items des dflt addr i (Suc n) ctx p =
     (let p = write_cells p i [Obj dflt];
          ctx = (if m_checkRecursivePointers ctx
                 then put_pointer ctx (walker_tell (m_binaryData ctx)) (addr i) else ctx)
      in run_out (des ctx dflt) (\<lambda>x. write_cells p i [Obj x]) (\<lambda>ctx x.
           deserialize_items des dflt addr (Suc i) n ctx (write_cells p i [Obj x])))"

fun deserialize_sized_items ::
    "(ddata \<Rightarrow> 'a \<Rightarrow> status \<times> ddata \<times> 'a) \<Rightarrow> 'a \<Rightarrow> nat \<Rightarrow> nat \<Rightarrow> ddata \<Rightarrow> 'a storage \<Rightarrow> status \<times> ddata \<times> 'a storage"
where
  "deserialize_sized_items des dflt i 0 ctx p = (NoError, ctx, p)"
| "deserialize_sized_items des dflt i (Suc n) ctx p =
     (let x = (case read_cells p i 1 of Some [Obj x] \<Rightarrow> x | _ \<Rightarrow> dflt)
      in run_out (des ctx x) (\<lambda>x. write_cells p i [Obj x]) (\<lambda>ctx x.
           deserialize_sized_items des dflt (Suc i) n ctx (write_cells p i [Obj x])))"

text \<open>\<open>des_sized k\<close> is \<open>deserializeFromAnotherSize(k, ctx, item)\<close>, used for integers only.\<close>

definition deserialize_array ::
    "env \<Rightarrow> 'a ctype \<Rightarrow> (ddata \<Rightarrow> 'a \<Rightarrow> status \<times> ddata \<times> 'a) \<Rightarrow> (nat \<Rightarrow> ddata \<Rightarrow> 'a \<Rightarrow> status \<times> ddata \<times> 'a)
     \<Rightarrow> (nat \<Rightarrow> nat) \<Rightarrow> ddata \<Rightarrow> u64 \<Rightarrow> 'a storage \<Rightarrow> status \<times> ddata \<times> 'a storage" where
  "deserialize_array E T des des_sized addr ctx n p =
     (if t_empty T then (NoError, ctx, p)
      else if copies_arrays T ctx
      then
        (if t_integralOrEnum T \<and> \<not> t_fixSized T \<and> m_sizeOfPrimitivesMayBeNotEqual ctx
         then run_out (readPrimitive E ctx (0 :: byte)) (\<lambda>_. p) (\<lambda>ctx originalTypeSize.
                if unat originalTypeSize \<noteq> t_sizeof T
                then deserialize_sized_items (des_sized (unat originalTypeSize)) (t_default T) 0 (unat n) ctx p
                else readRawBlock E T ctx n p)
         else readRawBlock E T ctx n p)
      else deserialize_items des (t_default T) addr 0 (unat n) ctx p)"

section \<open>Simply assignable objects\<close>

definition serializeSimplyAssignable :: "env \<Rightarrow> 'a ctype \<Rightarrow> 'a \<Rightarrow> sdata \<Rightarrow> status \<times> sdata" where
  "serializeSimplyAssignable E T value ctx =
     (if \<not> AnySimplyAssignable T then (NoError, ctx)
      else if t_info T \<noteq> None \<and> type_latestInterfaceVersion T > m_interfaceVersion ctx then (NoError, ctx)
      else if \<not> EndiannessTolerant T \<and> m_endiannessDifference ctx then (NoError, ctx)
      else if \<not> m_simplyAssignableTagsOptimizationsAreTurnedOff ctx \<and> tags_allow_copy T ctx
      then run (writeRawData E (t_sizeof T) (Some (t_octets T (big_endian E) value)) 1 ctx) (\<lambda>ctx.
             (NoFurtherProcessingRequired, ctx))
      else (ErrorNotSupportedSerializationSettingsForStruct, ctx))"

definition deserializeSimplyAssignable :: "env \<Rightarrow> 'a ctype \<Rightarrow> ddata \<Rightarrow> 'a \<Rightarrow> status \<times> ddata \<times> 'a" where
  "deserializeSimplyAssignable E T ctx value =
     (if \<not> AnySimplyAssignable T then (ErrorInvalidType, ctx, value)
      else if t_info T \<noteq> None \<and> type_latestInterfaceVersion T > m_interfaceVersion ctx
      then (NoError, ctx, value)
      else if \<not> EndiannessTolerant T \<and> m_endiannessDifference ctx then (NoError, ctx, value)
      else if \<not> m_simplyAssignableTagsOptimizationsAreTurnedOff ctx \<and> tags_allow_copy T ctx
      then run_out (readRawObject E ctx (t_octets T (big_endian E) value)) (t_of_octets T (big_endian E))
             (\<lambda>ctx bs. (NoFurtherProcessingRequired, ctx, t_of_octets T (big_endian E) bs))
      else (ErrorNotSupportedSerializationSettingsForStruct, ctx, value))"

text \<open>
  The macros \<open>CSP_SERIALIZE_ANY_SIMPLY_ASSIGNABLE\<close> and \<open>CSP_DESERIALIZE_ANY_SIMPLY_ASSIGNABLE\<close>,
  followed by the code after them, \<open>rest\<close>.
\<close>

definition serialize_any_simply_assignable ::
    "env \<Rightarrow> 'a ctype \<Rightarrow> 'a \<Rightarrow> (sdata \<Rightarrow> status \<times> sdata) \<Rightarrow> sdata \<Rightarrow> status \<times> sdata" where
  "serialize_any_simply_assignable E T value rest ctx =
     (if AnySimplyAssignable T then
        (let (st, ctx) = serializeSimplyAssignable E T value ctx
         in if st = NoFurtherProcessingRequired then (NoError, ctx)
            else if \<not> statusSuccess st \<and> st \<noteq> ErrorNotSupportedSerializationSettingsForStruct then (st, ctx)
            else rest ctx)
      else rest ctx)"

definition deserialize_any_simply_assignable ::
    "env \<Rightarrow> 'a ctype \<Rightarrow> (ddata \<Rightarrow> 'a \<Rightarrow> status \<times> ddata \<times> 'a) \<Rightarrow> ddata \<Rightarrow> 'a \<Rightarrow> status \<times> ddata \<times> 'a" where
  "deserialize_any_simply_assignable E T rest ctx value =
     (if AnySimplyAssignable T then
        (let (st, ctx, value) = deserializeSimplyAssignable E T ctx value
         in if st = NoFurtherProcessingRequired then (NoError, ctx, value)
            else if \<not> statusSuccess st \<and> st \<noteq> ErrorNotSupportedSerializationSettingsForStruct
            then (st, ctx, value)
            else rest ctx value)
      else rest ctx value)"

section \<open>Pointers\<close>

text \<open>
  A pointer is an address. With recursive pointers checked, the first occurrence of an
  object is announced by 1 and its offset remembered, a later one is its offset; the
  object itself is serialized by \<open>ser\<close>.
\<close>

definition addPointerToMap :: "env \<Rightarrow> nat \<Rightarrow> sdata \<Rightarrow> status \<times> sdata \<times> bool" where
  "addPointerToMap E p ctx =
     (if p = 0 then (let (st, ctx) = serializeSizeT E 0 ctx in (st, ctx, False))
      else
        case the (m_pPointersMap ctx) p of
          None \<Rightarrow>
            (let (st, ctx) = serializeSizeT E 1 ctx
             in if \<not> statusSuccess st then (st, ctx, True)
                else (NoError, put_pointer ctx p (vec_size (m_binaryData ctx)), True))
        | Some offset \<Rightarrow> (let (st, ctx) = serializeSizeT E offset ctx in (st, ctx, False)))"

definition serialize_pointer :: "env \<Rightarrow> (nat \<Rightarrow> sdata \<Rightarrow> status \<times> sdata) \<Rightarrow> nat \<Rightarrow> sdata \<Rightarrow> status \<times> sdata" where
  "serialize_pointer E ser value ctx =
     (if \<not> m_allowUnmanagedPointers ctx then (ErrorNotSupportedSerializationSettingsForStruct, ctx)
      else if m_checkRecursivePointers ctx
      then (let (st, ctx, newPointer) = addPointerToMap E value ctx
            in if \<not> statusSuccess st then (st, ctx)
               else if \<not> newPointer then (NoError, ctx)
               else ser value ctx)
      else if value = 0 then writePrimitive E (0 :: byte) ctx
      else run (writePrimitive E (1 :: byte) ctx) (ser value))"

text \<open>
  \<open>std::map::operator[]\<close> adds a null pointer for an offset that is not in the map.
  (status, context, pointer, new pointer).
\<close>

definition getPointerFromMap :: "env \<Rightarrow> ddata \<Rightarrow> nat \<Rightarrow> status \<times> ddata \<times> nat \<times> bool" where
  "getPointerFromMap E ctx p =
     (let (st, ctx, offset) = deserializeSizeT E ctx 0
      in if \<not> statusSuccess st then (st, ctx, p, False)
         else if offset = 0 then (NoError, ctx, 0, False)
         else if offset = 1 then (NoError, ctx, p, True)
         else if offset \<ge> walker_tell (m_binaryData ctx) then (ErrorInternal, ctx, p, False)
         else (case the (m_pPointersMap ctx) offset of
                 Some q \<Rightarrow> (NoError, ctx, q, False)
               | None \<Rightarrow> (NoError, put_pointer ctx offset 0, 0, False)))"

text \<open>
  \<open>allocateAndDefaultConstruct\<close>: a keeper allocates the object (the parameter \<open>alloc\<close>, with
  the destroying function \<open>helper\<close> of its type) and joins the added pointers; when that
  fails the keeper, still the owner, destroys the object.
\<close>

definition allocateAndDefaultConstruct ::
    "env \<Rightarrow> size_t \<Rightarrow> (size_t \<Rightarrow> nat \<times> size_t) \<Rightarrow> nat \<Rightarrow> ddata \<Rightarrow> nat \<times> ddata \<times> nat keeper_log" where
  "allocateAndDefaultConstruct E max_size alloc helper ctx =
     (let (p, k, log) = gpk_allocateAndConstructOne max_size alloc helper gpk_new []
      in if p = 0 then (0, ctx, log)
         else
           let (st, added, src) = vec_pushBack_move E keeper_elem (the (m_pAddedPointers ctx)) (Obj k);
               ctx = ctx\<lparr>m_pAddedPointers := Some added\<rparr>;
               log = (case src of Cells [Obj k'] \<Rightarrow> snd (gpk_destroy k' log) | _ \<Rightarrow> log)
           in (if statusSuccess st then p else 0, ctx, log))"

text \<open>
  The objects are in a store \<open>h\<close> of the model's choice: \<open>alloc h\<close> allocates in it, \<open>construct\<close>
  puts a default constructed object at the new address, \<open>des\<close> deserializes into it.
\<close>

definition deserialize_pointer ::
    "env \<Rightarrow> size_t \<Rightarrow> ('h \<Rightarrow> size_t \<Rightarrow> nat \<times> size_t) \<Rightarrow> (nat \<Rightarrow> 'h \<Rightarrow> 'h) \<Rightarrow> nat
     \<Rightarrow> (nat \<Rightarrow> ddata \<Rightarrow> 'h \<Rightarrow> status \<times> ddata \<times> 'h) \<Rightarrow> ddata \<Rightarrow> nat \<Rightarrow> 'h \<Rightarrow> status \<times> ddata \<times> nat \<times> 'h" where
  "deserialize_pointer E max_size alloc construct helper des ctx value h =
     (let new_object = (\<lambda>ctx.
            let (p, ctx, _) = allocateAndDefaultConstruct E max_size (alloc h) helper ctx
            in if p = 0 then (ErrorNoMemory, ctx, 0, h)
               else
                 let ctx = (if m_checkRecursivePointers ctx
                            then put_pointer ctx (walker_tell (m_binaryData ctx)) p else ctx);
                     (st, ctx, h) = des p ctx (construct p h)
                 in (st, ctx, p, h))
      in if \<not> m_allowUnmanagedPointers ctx
         then (ErrorNotSupportedSerializationSettingsForStruct, ctx, value, h)
         else if m_checkRecursivePointers ctx
         then (let (st, ctx, p, newPointer) = getPointerFromMap E ctx value
               in if \<not> statusSuccess st then (st, ctx, p, h)
                  else if \<not> newPointer then (NoError, ctx, p, h)
                  else new_object ctx)
         else
           let (st, ctx, isValidPtr) = readPrimitive E ctx (0 :: byte)
           in if \<not> statusSuccess st then (st, ctx, value, h)
              else if isValidPtr = 0 then (NoError, ctx, 0, h)
              else new_object ctx)"

section \<open>Ids, data flags, interfaces\<close>

definition serialize_id :: "env \<Rightarrow> uuid \<Rightarrow> sdata \<Rightarrow> status \<times> sdata" where
  "serialize_id E value ctx =
     run (serialize_scalar E False False (uuid.m_high value) ctx) (\<lambda>ctx.
     run (serialize_scalar E False False (uuid.m_low value) ctx) (\<lambda>ctx. (NoError, ctx)))"

definition deserialize_id :: "env \<Rightarrow> ddata \<Rightarrow> uuid \<Rightarrow> status \<times> ddata \<times> uuid" where
  "deserialize_id E ctx value =
     run_out (deserialize_scalar E False False False ctx (uuid.m_high value)) (\<lambda>h. Uuid h (uuid.m_low value)) (\<lambda>ctx h.
     run_out (deserialize_scalar E False False False ctx (uuid.m_low value)) (\<lambda>l. Uuid h l) (\<lambda>ctx l.
       (NoError, ctx, Uuid h l)))"

definition serialize_data_flags :: "env \<Rightarrow> data_flags \<Rightarrow> sdata \<Rightarrow> status \<times> sdata" where
  "serialize_data_flags E value ctx =
     run (serialize_scalar E False False (df_word value) ctx) (\<lambda>ctx. (NoError, ctx))"

definition deserialize_data_flags :: "env \<Rightarrow> ddata \<Rightarrow> data_flags \<Rightarrow> status \<times> ddata \<times> data_flags" where
  "deserialize_data_flags E ctx value =
     run_out (deserialize_scalar E False False False ctx (0 :: u32)) (\<lambda>_. value) (\<lambda>ctx dataFlags.
       (NoError, ctx, df_of dataFlags))"

text \<open>\<open>Uuid\<close> is packed, so an \<open>Interface\<close> has 28 octets and no padding.\<close>

definition interface_octets :: "bool \<Rightarrow> interface \<Rightarrow> byte list" where
  "interface_octets be i =
     uuid_bytes be (i_id i) @ obj_bytes be (i_version i)
     @ obj_bytes be (df_flags (i_mandatoryDataFlags i)) @ obj_bytes be (df_flags (i_forbiddenDataFlags i))"

definition interface_of_octets :: "bool \<Rightarrow> byte list \<Rightarrow> interface" where
  "interface_of_octets be bs =
     Interface (uuid_of_bytes be (take 16 bs)) (obj_value be (take 4 (drop 16 bs)))
       (DataFlags (obj_value be (take 4 (drop 20 bs)))) (DataFlags (obj_value be (take 4 (drop 24 bs))))"

definition interface_type :: "interface ctype" where
  "interface_type = \<lparr>t_sizeof = 28, t_integralOrEnum = False, t_floating = False, t_fixSized = False,
     t_signed = False, t_empty = False, tag_simplyAssignable = False, tag_alignedToOne = False,
     tag_fixedSize = True, tag_always = False, tag_endiannessTolerant = False, t_info = None,
     t_default = kUndefinedInterface, t_octets = interface_octets, t_of_octets = interface_of_octets\<rparr>"

definition serialize_interface :: "env \<Rightarrow> interface \<Rightarrow> sdata \<Rightarrow> status \<times> sdata" where
  "serialize_interface E value =
     serialize_any_simply_assignable E interface_type value (\<lambda>ctx.
       run (serialize_id E (i_id value) ctx) (\<lambda>ctx.
       run (serialize_scalar E False False (i_version value) ctx) (\<lambda>ctx.
       run (serialize_data_flags E (i_mandatoryDataFlags value) ctx) (\<lambda>ctx.
       run (serialize_data_flags E (i_forbiddenDataFlags value) ctx) (\<lambda>ctx. (NoError, ctx))))))"

definition deserialize_interface :: "env \<Rightarrow> ddata \<Rightarrow> interface \<Rightarrow> status \<times> ddata \<times> interface" where
  "deserialize_interface E =
     deserialize_any_simply_assignable E interface_type (\<lambda>ctx value.
       run_out (deserialize_id E ctx (i_id value))
         (\<lambda>x. Interface x (i_version value) (i_mandatoryDataFlags value) (i_forbiddenDataFlags value)) (\<lambda>ctx x.
       run_out (deserialize_scalar E False False False ctx (i_version value))
         (\<lambda>v. Interface x v (i_mandatoryDataFlags value) (i_forbiddenDataFlags value)) (\<lambda>ctx v.
       run_out (deserialize_data_flags E ctx (i_mandatoryDataFlags value))
         (\<lambda>m. Interface x v m (i_forbiddenDataFlags value)) (\<lambda>ctx m.
       run_out (deserialize_data_flags E ctx (i_forbiddenDataFlags value))
         (\<lambda>f. Interface x v m f) (\<lambda>ctx f.
       (NoError, ctx, Interface x v m f))))))"

section \<open>Vectors\<close>

text \<open>
  \<open>processing/data/TemplateProcessor.h\<close>: a vector is its size and its elements. The
  deserialization sets the size after the elements, whatever room there was.
\<close>

definition vec_objects :: "'a vec \<Rightarrow> 'a list" where
  "vec_objects v =
     (case read_cells (m_p v) 0 (unat (vec_size v)) of
        Some cs \<Rightarrow> List.map_filter (\<lambda>c. case c of Obj x \<Rightarrow> Some x | Raw \<Rightarrow> None) cs
      | None \<Rightarrow> [])"

definition serialize_vector ::
    "env \<Rightarrow> 'a ctype \<Rightarrow> ('a \<Rightarrow> sdata \<Rightarrow> status \<times> sdata) \<Rightarrow> (nat \<Rightarrow> nat) \<Rightarrow> 'a vec \<Rightarrow> sdata \<Rightarrow> status \<times> sdata"
where
  "serialize_vector E T ser addr value ctx =
     run (serializeSizeT E (vec_size value) ctx) (\<lambda>ctx.
     run (serialize_array E T ser addr (vec_objects value) ctx) (\<lambda>ctx. (NoError, ctx)))"

definition deserialize_vector ::
    "env \<Rightarrow> 'a elem \<Rightarrow> 'a ctype \<Rightarrow> (ddata \<Rightarrow> 'a \<Rightarrow> status \<times> ddata \<times> 'a)
     \<Rightarrow> (nat \<Rightarrow> ddata \<Rightarrow> 'a \<Rightarrow> status \<times> ddata \<times> 'a) \<Rightarrow> (nat \<Rightarrow> nat) \<Rightarrow> ddata \<Rightarrow> 'a vec
     \<Rightarrow> status \<times> ddata \<times> 'a vec" where
  "deserialize_vector E ty T des des_sized addr ctx value =
     (let value = vec_clear ty value
      in run_out (deserializeSizeT E ctx 0) (\<lambda>_. value) (\<lambda>ctx size.
           let (st, value) = vec_reserve E ty value size
           in if \<not> statusSuccess st then (st, ctx, value)
              else run_out (deserialize_array E T des des_sized addr ctx size (vec_data value))
                     (\<lambda>p. value\<lparr>m_p := p\<rparr>) (\<lambda>ctx p.
                   (NoError, ctx, value\<lparr>m_p := p, m_dataSize := size\<rparr>))))"

end
