(* ===== verification/Codec.thy ===== *)
theory Codec
  imports Body
begin

text \<open>
  The contract that serializing and deserializing a type keep, as a locale, its instances
  for the types \<open>BodyProcessor\<close> handles itself, and its closure under arrays and vectors.
\<close>

section \<open>Modes\<close>

text \<open>
  What of a context decides the form of a value: the common flags, the data flags and the
  interface version. Writer and reader of a value agree on the mode.
\<close>

record mode =
  md_bigEndianFormat :: bool
  md_bitness32 :: bool
  md_endiannessDifference :: bool
  md_dataFlags :: data_flags
  md_interfaceVersion :: u32

definition mode_of :: "('b, 'k, 'v) data \<Rightarrow> mode" where
  "mode_of c = \<lparr>md_bigEndianFormat = m_bigEndianFormat c, md_bitness32 = m_bitness32 c,
     md_endiannessDifference = m_endiannessDifference c, md_dataFlags = m_dataFlags c,
     md_interfaceVersion = m_interfaceVersion c\<rparr>"

text \<open>
  The contexts in which values are written and read: consistent, and told of a difference of
  byte orders. In the contexts of message bodies no recursive pointers are tracked.
\<close>

definition value_ctx :: "env \<Rightarrow> ('b, 'k, 'v) data \<Rightarrow> bool" where
  "value_ctx E c \<longleftrightarrow> common_inv (big_endian E) c \<and> data_inv c
     \<and> (m_endiannessNotMatch c \<longrightarrow> m_endiannessDifference c)"

definition body_ctx :: "env \<Rightarrow> ('b, 'k, 'v) data \<Rightarrow> bool" where
  "body_ctx E c \<longleftrightarrow> common_inv (big_endian E) c \<and> data_inv c
     \<and> (m_endiannessNotMatch c \<longrightarrow> m_endiannessDifference c) \<and> \<not> m_checkRecursivePointers c"

text \<open>The context of the witnesses: it reads the octets \<open>bs\<close> from their begin.\<close>

definition sample_ddata :: "byte list \<Rightarrow> bool \<Rightarrow> ddata" where
  "sample_ddata bs fmt = common.extend (sample_dcommon bs fmt)
     \<lparr>m_pPointersMap = None, m_pAddedPointers = None, m_interfaceVersion = 0, m_dataFlags = df_default,
      m_interfaceVersionsNotMatch = False, m_forTempUseHeap = True, m_alignmentMayBeNotEqual = False,
      m_sizeOfPrimitivesMayBeNotEqual = False, m_allowUnmanagedPointers = False, m_checkRecursivePointers = False,
      m_simplyAssignableTagsOptimizationsAreTurnedOff = False\<rparr>"

lemma sample_ddata_ok: "body_ctx sample_env (sample_ddata bs False)"
  by (simp add: body_ctx_def common_inv_def data_inv_def sample_ddata_def sample_dcommon_def common.defs df_default_def
      df_alignmentMayBeNotEqual_def df_sizeOfIntegersMayBeNotEqual_def df_allowUnmanagedPointers_def
      df_checkRecursivePointers_def df_simplyAssignableTagsOptimizationsAreTurnedOff_def)

lemma sample_ddata_rep: "length bs < 2 ^ 64 \<Longrightarrow> walker_rep (m_binaryData (sample_ddata bs fmt)) bs 0"
  using sample_dcommon_rep [of bs fmt] by (simp add: sample_ddata_def common.defs sample_dcommon_def)

lemma body_ctx_value: "body_ctx E c \<Longrightarrow> value_ctx E c"
  by (simp add: body_ctx_def value_ctx_def)

lemma value_ctx_bin [simp]: "value_ctx E (c\<lparr>m_binaryData := b\<rparr>) = value_ctx E c"
  by (simp add: value_ctx_def ctx_simps)

lemma mode_of_bin [simp]: "mode_of (c\<lparr>m_binaryData := b\<rparr>) = mode_of c"
  by (simp add: mode_of_def)

lemma body_ctx_bin [simp]: "body_ctx E (c\<lparr>m_binaryData := b\<rparr>) = body_ctx E c"
  by (simp add: body_ctx_def ctx_simps)

definition int_sized :: "mode \<Rightarrow> bool" where
  "int_sized m = df_sizeOfIntegersMayBeNotEqual (md_dataFlags m)"

lemma mode_simps [ctx_simps]:
  "body_ctx E c \<Longrightarrow> m_sizeOfPrimitivesMayBeNotEqual c = int_sized (mode_of c)"
  "m_bigEndianFormat c = md_bigEndianFormat (mode_of c)"
  "m_bitness32 c = md_bitness32 (mode_of c)"
  by (simp_all add: body_ctx_def data_inv_def int_sized_def mode_of_def)

lemma value_mode: "value_ctx E c \<Longrightarrow> m_sizeOfPrimitivesMayBeNotEqual c = int_sized (mode_of c)"
  by (simp add: value_ctx_def data_inv_def int_sized_def mode_of_def)

text \<open>
  \<open>reads E f xs c R\<close>: in a context like \<open>c\<close> whose walker stands before \<open>xs\<close>, \<open>f\<close> stands
  behind \<open>xs\<close> and gives a value in \<open>R\<close>, or the memory ran out.
\<close>

definition reads ::
    "env \<Rightarrow> ((byte walker, 'x) ctx \<Rightarrow> status \<times> (byte walker, 'x) ctx \<times> 'v) \<Rightarrow> byte list
     \<Rightarrow> (byte walker, 'x) ctx \<Rightarrow> ('v \<Rightarrow> bool) \<Rightarrow> bool" where
  "reads E f xs c R \<longleftrightarrow>
     (\<forall>w bs k. walker_rep w bs k \<and> length bs < 2 ^ 62 \<and> length xs \<le> length bs - k
          \<and> take (length xs) (drop k bs) = xs \<longrightarrow>
        (\<exists>st w' v. f (c\<lparr>m_binaryData := w\<rparr>) = (st, c\<lparr>m_binaryData := w'\<rparr>, v) \<and>
           (st = NoError \<and> walker_rep w' bs (k + length xs) \<and> R v
            \<or> st = ErrorNoMemory \<and> memory_out E)))"

lemma parses_reads: "parses f xs c v \<Longrightarrow> R v \<Longrightarrow> reads E f xs c R"
  unfolding parses_def reads_def by fastforce

lemma readsE:
  assumes "reads E f xs c R" "walker_rep w bs k" "length bs < 2 ^ 62" "length xs \<le> length bs - k"
    "take (length xs) (drop k bs) = xs"
  obtains (ok) w' v where "f (c\<lparr>m_binaryData := w\<rparr>) = (NoError, c\<lparr>m_binaryData := w'\<rparr>, v)"
      "walker_rep w' bs (k + length xs)" "R v"
    | (no_memory) w' v where "f (c\<lparr>m_binaryData := w\<rparr>) = (ErrorNoMemory, c\<lparr>m_binaryData := w'\<rparr>, v)"
      "memory_out E"
  using assms unfolding reads_def by blast

lemma readsI:
  assumes "\<And>w bs k. \<lbrakk>walker_rep w bs k; length bs < 2 ^ 62; length xs \<le> length bs - k;
      take (length xs) (drop k bs) = xs\<rbrakk> \<Longrightarrow>
      \<exists>st w' v. f (c\<lparr>m_binaryData := w\<rparr>) = (st, c\<lparr>m_binaryData := w'\<rparr>, v) \<and>
           (st = NoError \<and> walker_rep w' bs (k + length xs) \<and> R v \<or> st = ErrorNoMemory \<and> memory_out E)"
  shows "reads E f xs c R"
  using assms by (simp add: reads_def)

lemma reads_cong:
  "(\<And>w. f (c\<lparr>m_binaryData := w\<rparr>) = g (c\<lparr>m_binaryData := w\<rparr>)) \<Longrightarrow> reads E f xs c R = reads E g xs c R"
  by (simp add: reads_def)

lemma reads_run_out:
  assumes "reads E f xs c R" "\<And>v. R v \<Longrightarrow> reads E (\<lambda>c. k c v) ys c Q"
  shows "reads E (\<lambda>c. run_out (f c) e k) (xs @ ys) c Q"
proof (rule readsI)
  fix w bs n
  assume w: "walker_rep w bs n" and l: "length bs < 2 ^ 62" and m: "length (xs @ ys) \<le> length bs - n"
    and t: "take (length (xs @ ys)) (drop n bs) = xs @ ys"
  note t1 = take_drop_append(1) [OF t] and t2 = take_drop_append(2) [OF t]
  have m1: "length xs \<le> length bs - n" "length ys \<le> length bs - (n + length xs)" using m by simp_all
  show "\<exists>st w' v. run_out (f (c\<lparr>m_binaryData := w\<rparr>)) e k = (st, c\<lparr>m_binaryData := w'\<rparr>, v) \<and>
           (st = NoError \<and> walker_rep w' bs (n + length (xs @ ys)) \<and> Q v \<or> st = ErrorNoMemory \<and> memory_out E)"
    using assms(1) w l m1(1) t1
  proof (cases rule: readsE)
    case (ok w1 v)
    show ?thesis
      using assms(2) [OF ok(3)] ok(2) l m1(2) t2
      by (cases rule: readsE) (use ok(1) in \<open>auto simp: run_simps add.assoc intro!: exI\<close>)
  next
    case (no_memory w1 v)
    then show ?thesis by (auto simp: run_simps intro!: exI)
  qed
qed

lemma reads_return: "Q v \<Longrightarrow> reads E (\<lambda>c. (NoError, c, v)) [] c Q"
  by (auto simp: reads_def)

lemma reads_run_out_done:
  assumes "reads E f xs c R" "\<And>v. R v \<Longrightarrow> Q (g v)"
  shows "reads E (\<lambda>c. run_out (f c) e (\<lambda>c v. (NoError, c, g v))) xs c Q"
  using reads_run_out [OF assms(1), where k = "\<lambda>c v. (NoError, c, g v)" and ys = "[]" and Q = Q]
  by (simp add: assms(2) reads_return)

section \<open>The contract\<close>

text \<open>
  \<open>rep x m\<close>: the object \<open>x\<close> stands for the value \<open>m\<close>; \<open>ok md m\<close>: the value has a form in
  the mode; \<open>enc md m\<close>: that form; \<open>init x\<close>: an object that may be deserialized into.
\<close>

locale codec =
  fixes E :: env
    and rep :: "'a \<Rightarrow> 'm \<Rightarrow> bool"
    and init :: "'a \<Rightarrow> bool"
    and ok :: "mode \<Rightarrow> 'm \<Rightarrow> bool"
    and enc :: "mode \<Rightarrow> 'm \<Rightarrow> byte list"
    and ser :: "'a \<Rightarrow> sdata \<Rightarrow> status \<times> sdata"
    and des :: "ddata \<Rightarrow> 'a \<Rightarrow> status \<times> ddata \<times> 'a"
  assumes ser_emits: "\<lbrakk>body_ctx E c; rep x m; ok (mode_of c) m\<rbrakk> \<Longrightarrow> emits E (ser x) (enc (mode_of c) m) c"
    and des_reads: "\<lbrakk>body_ctx E d; init old; ok (mode_of d) m\<rbrakk> \<Longrightarrow>
      reads E (\<lambda>d. des d old) (enc (mode_of d) m) d (\<lambda>x. rep x m)"
begin

text \<open>What one side writes the other side reads, whatever is before and behind it.\<close>

lemma roundtrip:
  assumes "body_ctx E c" "body_ctx E d" "mode_of c = mode_of d" "rep x m" "ok (mode_of c) m" "init old"
    and "\<not> memory_out E" "vec_rep (m_binaryData c) bs"
    and "walker_rep (m_binaryData d) (bs @ enc (mode_of c) m @ rest) (length bs)"
    and "length bs + length (enc (mode_of c) m) + length rest < 2 ^ 62"
  shows "\<exists>b w x'. ser x c = (NoError, c\<lparr>m_binaryData := b\<rparr>) \<and> vec_rep b (bs @ enc (mode_of c) m)
     \<and> des d old = (NoError, d\<lparr>m_binaryData := w\<rparr>, x') \<and> rep x' m
     \<and> walker_rep w (bs @ enc (mode_of c) m @ rest) (length bs + length (enc (mode_of c) m))"
proof -
  let ?xs = "enc (mode_of c) m"
  have l: "length bs + length ?xs < 2 ^ 63" "length (bs @ ?xs @ rest) < 2 ^ 62" using assms(10) by simp_all
  obtain b where b: "ser x c = (NoError, c\<lparr>m_binaryData := b\<rparr>)" "vec_rep b (bs @ ?xs)"
    using emits_total [OF ser_emits [OF assms(1,4,5)] assms(7,8) l(1)] by blast
  have r: "reads E (\<lambda>d. des d old) ?xs d (\<lambda>x. rep x m)"
    using des_reads [OF assms(2,6)] assms(3,5) by simp
  have "length ?xs \<le> length (bs @ ?xs @ rest) - length bs"
    "take (length ?xs) (drop (length bs) (bs @ ?xs @ rest)) = ?xs"
    by simp_all
  with r assms(9) l(2) show ?thesis
    by (cases rule: readsE) (use b assms(7) in auto)
qed

end

section \<open>Two platforms\<close>

text \<open>
  Writer and reader may run on platforms of different byte order: it is enough that the two
  codecs give the value the same octets in the mode that both contexts have.
\<close>

definition delivers ::
    "(ddata \<Rightarrow> 'a \<Rightarrow> status \<times> ddata \<times> 'a) \<Rightarrow> ('a \<Rightarrow> bool) \<Rightarrow> 'a \<Rightarrow> byte list \<Rightarrow> nat \<Rightarrow> ddata \<Rightarrow> nat \<Rightarrow> bool" where
  "delivers des R old bs k d k' \<longleftrightarrow>
     (\<exists>w y. des d old = (NoError, d\<lparr>m_binaryData := w\<rparr>, y) \<and> R y \<and> walker_rep w bs k')"

lemma codec_interop:
  assumes w: "codec E rep init ok enc ser des" and r: "codec E' rep' init' ok' enc' ser' des'"
    and c: "body_ctx E c" "rep x m" "ok (mode_of c) m" "\<not> memory_out E" "vec_rep (m_binaryData c) bs"
      "length bs + length (enc (mode_of c) m) < 2 ^ 62"
    and same: "\<And>d :: ddata. body_ctx E' d \<Longrightarrow> mode_of d = mode_of c \<Longrightarrow>
      ok' (mode_of c) m \<and> enc' (mode_of c) m = enc (mode_of c) m"
    and old: "init' old" "\<not> memory_out E'"
  shows "\<exists>b. ser x c = (NoError, c\<lparr>m_binaryData := b\<rparr>) \<and> vec_rep b (bs @ enc (mode_of c) m) \<and>
     (\<forall>d rest. body_ctx E' d \<and> mode_of d = mode_of c
        \<and> walker_rep (m_binaryData d) (bs @ enc (mode_of c) m @ rest) (length bs)
        \<and> length (bs @ enc (mode_of c) m @ rest) < 2 ^ 62 \<longrightarrow>
        delivers des' (\<lambda>y. rep' y m) old (bs @ enc (mode_of c) m @ rest) (length bs) d
          (length bs + length (enc (mode_of c) m)))"
proof -
  let ?xs = "enc (mode_of c) m"
  obtain b where b: "ser x c = (NoError, c\<lparr>m_binaryData := b\<rparr>)" "vec_rep b (bs @ ?xs)"
    using emits_total [OF codec.ser_emits [OF w c(1-3)] c(4,5)] c(6) by auto
  moreover have "delivers des' (\<lambda>y. rep' y m) old (bs @ ?xs @ rest) (length bs) d (length bs + length ?xs)"
    if d: "body_ctx E' d" "mode_of d = mode_of c" "walker_rep (m_binaryData d) (bs @ ?xs @ rest) (length bs)"
      "length (bs @ ?xs @ rest) < 2 ^ 62" for d rest
  proof -
    have "reads E' (\<lambda>d. des' d old) ?xs d (\<lambda>x. rep' x m)"
      using codec.des_reads [OF r d(1) old(1), of m] same [OF d(1,2)] d(2) by simp
    from this d(3,4) show ?thesis
      by (rule readsE) (use old(2) in \<open>auto simp: delivers_def\<close>)
  qed
  ultimately show ?thesis by blast
qed

definition sample_sdata :: "bool \<Rightarrow> sdata" where
  "sample_sdata fmt = common.extend (sample_scommon fmt)
     \<lparr>m_pPointersMap = None, m_pAddedPointers = None, m_interfaceVersion = 0, m_dataFlags = df_default,
      m_interfaceVersionsNotMatch = False, m_forTempUseHeap = True, m_alignmentMayBeNotEqual = False,
      m_sizeOfPrimitivesMayBeNotEqual = False, m_allowUnmanagedPointers = False, m_checkRecursivePointers = False,
      m_simplyAssignableTagsOptimizationsAreTurnedOff = False\<rparr>"

lemma sample_sdata_ok:
  "big_endian E = False \<Longrightarrow> body_ctx E (sample_sdata fmt)" "vec_rep (m_binaryData (sample_sdata fmt)) []"
  by (simp_all add: body_ctx_def common_inv_def data_inv_def sample_sdata_def sample_scommon_def common.defs
      vec_rep_empty df_default_def df_alignmentMayBeNotEqual_def df_sizeOfIntegersMayBeNotEqual_def
      df_allowUnmanagedPointers_def df_checkRecursivePointers_def df_simplyAssignableTagsOptimizationsAreTurnedOff_def)

end
