(* ===== verification/CodecInstances.thy ===== *)
theory CodecInstances
  imports Codec
begin

text \<open>
  The \<open>codec\<close> contract for scalars, sizes, ids, data flags and interfaces.
\<close>

section \<open>Scalars\<close>

definition enc_scalar :: "bool \<Rightarrow> bool \<Rightarrow> mode \<Rightarrow> 'a::len word \<Rightarrow> byte list" where
  "enc_scalar fixSized floating md w =
     (if \<not> fixSized \<and> \<not> floating \<and> int_sized md then [of_nat (LENGTH('a) div 8)] else [])
     @ obj_bytes (md_bigEndianFormat md) w"

lemma value_ctx_inv: "value_ctx E c \<Longrightarrow> common_inv (big_endian E) c"
  by (simp add: value_ctx_def)

lemma emits_prim:
  fixes w :: "'a::len word"
  assumes "LENGTH('a) \<in> {8, 16, 32, 64}" "value_ctx E c"
  shows "emits E (writePrimitive E w) (obj_bytes (md_bigEndianFormat (mode_of c)) w) c"
  using emits_writePrimitive [OF assms(1) value_ctx_inv [OF assms(2)], of w] by (simp add: ctx_simps)

lemma parses_prim:
  fixes v :: "'a::len word"
  assumes "LENGTH('a) \<in> {8, 16, 32, 64}" "value_ctx E c"
  shows "parses (\<lambda>c. readPrimitive E c old) (obj_bytes (md_bigEndianFormat (mode_of c)) v) c v"
  using parses_readPrimitive [OF assms(1) value_ctx_inv [OF assms(2)], of old v] by (simp add: ctx_simps)

lemma emits_serialize_scalar:
  fixes w :: "'a::len word"
  assumes L: "LENGTH('a) \<in> {8, 16, 32, 64}" and c: "value_ctx E c"
  shows "emits E (serialize_scalar E fixSized floating w) (enc_scalar fixSized floating (mode_of c) w) c"
proof -
  have "emits E (\<lambda>c. if \<not> fixSized \<and> \<not> floating \<and> m_sizeOfPrimitivesMayBeNotEqual c
          then writePrimitive E (of_nat (LENGTH('a) div 8) :: byte) c else (NoError, c))
      (if \<not> fixSized \<and> \<not> floating \<and> int_sized (mode_of c) then [of_nat (LENGTH('a) div 8)] else []) c"
  proof (cases "\<not> fixSized \<and> \<not> floating \<and> int_sized (mode_of c)")
    case True
    then show ?thesis
      using emits_prim [OF _ c, where w = "of_nat (LENGTH('a) div 8) :: byte"] value_mode [OF c]
      by (subst emits_cong [where g = "writePrimitive E (of_nat (LENGTH('a) div 8) :: byte)"]) simp_all
  next
    case False
    then show ?thesis using value_mode [OF c] by (auto intro: emits_Nil)
  qed
  from emits_run [OF this emits_prim [OF L c]] show ?thesis
    unfolding enc_scalar_def by (rule emits_cong [THEN iffD1, rotated]) (simp add: serialize_scalar_def)
qed

lemma fromAnotherSize_same:
  fixes v :: "'a::len word"
  assumes "LENGTH('a) \<in> {8, 16, 32, 64}"
  shows "deserializeFromAnotherSize E sg (LENGTH('a) div 8) ctx v = readPrimitive E ctx v"
  using assms by (auto simp: deserializeFromAnotherSize_def deserializeFromAnotherSizeInternal_def)

lemma parses_deserialize_scalar:
  fixes w :: "'a::len word"
  assumes L: "LENGTH('a) \<in> {8, 16, 32, 64}" and c: "value_ctx E c"
  shows "parses (\<lambda>c. deserialize_scalar E fixSized floating sg c old) (enc_scalar fixSized floating (mode_of c) w) c w"
proof (cases "\<not> fixSized \<and> \<not> floating \<and> int_sized (mode_of c)")
  case True
  let ?n = "of_nat (LENGTH('a) div 8) :: byte"
  have n: "unat ?n = LENGTH('a) div 8" using L by (auto simp: unat_of_nat_small)
  have "parses (\<lambda>c. run_out (readPrimitive E c (0 :: byte)) (\<lambda>_. old) (\<lambda>c k.
      deserializeFromAnotherSize E sg (unat k) c old)) ([?n] @ obj_bytes (md_bigEndianFormat (mode_of c)) w) c w"
    using parses_prim [OF _ c, where v = ?n and old = 0] parses_prim [OF L c]
    by (intro parses_run_out [where v = ?n]) (simp_all add: fromAnotherSize_same [OF L] n)
  then show ?thesis
    using True value_mode [OF c]
    by (simp add: deserialize_scalar_def enc_scalar_def parses_def)
next
  case False
  then show ?thesis
    using parses_prim [OF L c, where old = old] value_mode [OF c]
    by (auto simp: deserialize_scalar_def enc_scalar_def parses_def)
qed

lemma scalar_codec:
  assumes "LENGTH('a::len) \<in> {8, 16, 32, 64}"
  shows "codec E (=) (\<lambda>_. True) (\<lambda>_ _. True) (enc_scalar fixSized floating :: mode \<Rightarrow> 'a word \<Rightarrow> byte list)
     (serialize_scalar E fixSized floating) (deserialize_scalar E fixSized floating sg)"
proof
  fix d :: ddata and old m :: "'a word"
  assume "body_ctx E d"
  then have "value_ctx E d" by (rule body_ctx_value)
  then show "reads E (\<lambda>d. deserialize_scalar E fixSized floating sg d old) (enc_scalar fixSized floating (mode_of d) m)
      d (\<lambda>x. x = m)"
    by (intro parses_reads [OF parses_deserialize_scalar [OF assms]]) simp_all
qed (simp add: emits_serialize_scalar [OF assms] body_ctx_value)

interpretation u8: codec E "(=)" "\<lambda>_. True" "\<lambda>_ _. True" "enc_scalar fs fl :: mode \<Rightarrow> byte \<Rightarrow> byte list"
    "serialize_scalar E fs fl" "deserialize_scalar E fs fl sg" for E fs fl sg
  by (rule scalar_codec) simp

interpretation u16: codec E "(=)" "\<lambda>_. True" "\<lambda>_ _. True" "enc_scalar fs fl :: mode \<Rightarrow> u16 \<Rightarrow> byte list"
    "serialize_scalar E fs fl" "deserialize_scalar E fs fl sg" for E fs fl sg
  by (rule scalar_codec) simp

interpretation u32: codec E "(=)" "\<lambda>_. True" "\<lambda>_ _. True" "enc_scalar fs fl :: mode \<Rightarrow> u32 \<Rightarrow> byte list"
    "serialize_scalar E fs fl" "deserialize_scalar E fs fl sg" for E fs fl sg
  by (rule scalar_codec) simp

interpretation u64: codec E "(=)" "\<lambda>_. True" "\<lambda>_ _. True" "enc_scalar fs fl :: mode \<Rightarrow> u64 \<Rightarrow> byte list"
    "serialize_scalar E fs fl" "deserialize_scalar E fs fl sg" for E fs fl sg
  by (rule scalar_codec) simp

section \<open>Sizes\<close>

definition enc_size :: "mode \<Rightarrow> u64 \<Rightarrow> byte list" where
  "enc_size md v =
     (if md_bitness32 md then obj_bytes (md_bigEndianFormat md) (ucast v :: u32)
      else obj_bytes (md_bigEndianFormat md) v)"

lemma length_enc_size: "length (enc_size md v) \<le> 8" "2 \<le> length (enc_size md v)"
  by (simp_all add: enc_size_def)

definition ok_size :: "mode \<Rightarrow> u64 \<Rightarrow> bool" where
  "ok_size md v \<longleftrightarrow> (md_bitness32 md \<longrightarrow> unat v < 2 ^ 32)"

lemma size_cast:
  assumes "unat (v :: u64) < 2 ^ 32"
  shows "castToSmallerType False v (out :: u32) = (NoError, ucast v)"
    and "castToBiggerType False (ucast v :: u32) = v"
proof -
  have "unat (ucast v :: u32) = unat v"
    using assms by (simp only: unsigned_ucast_eq) (simp add: take_bit_nat_eq_self)
  then have "uint (ucast v :: u32) = uint v" by (simp only: uint_nat)
  then show big: "castToBiggerType False (ucast v :: u32) = v"
    by (simp only: castToBiggerType_def int_of_def if_False word_of_int_uint)
  show "castToSmallerType False v (out :: u32) = (NoError, ucast v)"
    using castToSmallerType_bigger [where 'b = 64, of False "ucast v :: u32" out] big by simp
qed

lemma emits_size:
  assumes c: "value_ctx E c" and ok: "ok_size (mode_of c) v"
  shows "emits E (serializeSizeT E v) (enc_size (mode_of c) v) c"
proof (cases "md_bitness32 (mode_of c)")
  case True
  then have "castToSmallerType False v (0 :: u32) = (NoError, ucast v)"
    using ok by (intro size_cast(1)) (simp add: ok_size_def)
  moreover have "m_bitness32 c" using True by (simp add: ctx_simps)
  ultimately show ?thesis
    using emits_prim [OF _ c, of "ucast v :: u32"] True
    by (subst emits_cong [where g = "writePrimitive E (ucast v :: u32)"])
       (simp_all add: serializeSizeT_def serializeToAnotherSize_def serializeToAnotherSizeInternal_def
         run_simps enc_size_def)
next
  case False
  then have "\<not> m_bitness32 c" by (simp add: ctx_simps)
  then show ?thesis
    using emits_prim [OF _ c, of v] False
    by (subst emits_cong [where g = "writePrimitive E v"])
       (simp_all add: serializeSizeT_def serializeToAnotherSize_def serializeToAnotherSizeInternal_def enc_size_def)
qed

lemma parses_size:
  assumes d: "value_ctx E d" and ok: "ok_size (mode_of d) v"
  shows "parses (\<lambda>d. deserializeSizeT E d old) (enc_size (mode_of d) v) d v"
proof (cases "md_bitness32 (mode_of d)")
  case True
  then have bit: "m_bitness32 d" by (simp add: ctx_simps)
  have big: "castToBiggerType False (ucast v :: u32) = v" using ok True by (intro size_cast) (simp add: ok_size_def)
  have p: "parses (\<lambda>d. readPrimitive E d (0 :: u32)) (enc_size (mode_of d) v) d (ucast v)"
    using parses_prim [OF _ d, where v = "ucast v :: u32" and old = 0] True by (simp add: enc_size_def)
  have "parses (\<lambda>d. deserializeFromAnotherSizeInternal E False (0 :: u32) d old) (enc_size (mode_of d) v) d v"
  proof (rule parsesI)
    fix w bs k
    assume a: "walker_rep w bs k" "length bs < 2 ^ 63" "length (enc_size (mode_of d) v) \<le> length bs - k"
      "take (length (enc_size (mode_of d) v)) (drop k bs) = enc_size (mode_of d) v"
    from parsesD [OF p a] obtain w' where
      "readPrimitive E (d\<lparr>m_binaryData := w\<rparr>) (0 :: u32) = (NoError, d\<lparr>m_binaryData := w'\<rparr>, ucast v)"
      "walker_rep w' bs (k + length (enc_size (mode_of d) v))" by blast
    then show "\<exists>w'. deserializeFromAnotherSizeInternal E False (0 :: u32) (d\<lparr>m_binaryData := w\<rparr>) old
        = (NoError, d\<lparr>m_binaryData := w'\<rparr>, v) \<and> walker_rep w' bs (k + length (enc_size (mode_of d) v))"
      by (auto simp: deserializeFromAnotherSizeInternal_def big intro!: exI [of _ w'])
  qed
  then show ?thesis
    using bit by (simp_all add: deserializeSizeT_def deserializeFromAnotherSize_def parses_def)
next
  case False
  then have bit: "\<not> m_bitness32 d" by (simp add: ctx_simps)
  have p: "parses (\<lambda>d. readPrimitive E d old) (enc_size (mode_of d) v) d v"
    using parses_prim [OF _ d, where v = v and old = old] False by (simp add: enc_size_def)
  then show ?thesis
    using bit by (simp_all add: deserializeSizeT_def deserializeFromAnotherSize_def deserializeFromAnotherSizeInternal_def parses_def)
qed

lemma size_codec: "codec E (=) (\<lambda>_. True) ok_size enc_size (serializeSizeT E) (deserializeSizeT E)"
  by unfold_locales
     (auto intro: emits_size parses_reads [OF parses_size] body_ctx_value)

interpretation size: codec E "(=)" "\<lambda>_. True" ok_size enc_size "serializeSizeT E" "deserializeSizeT E" for E
  by (rule size_codec)

lemma serializeSizeT_overflow:
  assumes "m_bitness32 c" "2 ^ 32 \<le> unat n"
  shows "serializeSizeT E n c = (ErrorValueOverflow, c)"
proof -
  have "castToSmallerType False n (0 :: u32) = (ErrorValueOverflow, 0)"
  proof -
    have "int (2 ^ 32) \<le> int (unat n)" using assms(2) by (simp only: of_nat_le_iff)
    then have "2 ^ 32 \<le> uint n" by (simp only: uint_nat of_nat_power of_nat_numeral)
    then show ?thesis by (simp add: castToSmallerType_def int_of_def)
  qed
  then show ?thesis using assms(1) by (simp add: serializeSizeT_def serializeToAnotherSize_def serializeToAnotherSizeInternal_def run_simps)
qed

section \<open>Claims\<close>

text \<open>
  A scalar of 8 to 64 bits crosses platforms: what one side serializes in a mode, with or
  without the size octet of the size-tolerant mode, a reader in the same mode gets back as the
  same number, with its position right behind it, also when the platforms have different byte
  orders (the reader then swaps the octets).
\<close>
lemma scalar_crosses_platforms:
  fixes v old :: "'a::len word"
  assumes "LENGTH('a) \<in> {8, 16, 32, 64}" "body_ctx E c" "\<not> memory_out E" "\<not> memory_out E'"
    and "vec_rep (m_binaryData c) bs" "length bs + 9 < 2 ^ 62"
  shows "\<exists>b out. serialize_scalar E fixSized floating v c = (NoError, c\<lparr>m_binaryData := b\<rparr>)
     \<and> vec_rep b (bs @ out)
     \<and> (\<forall>d rest. body_ctx E' d \<and> mode_of d = mode_of c \<and> walker_rep (m_binaryData d) (bs @ out @ rest) (length bs)
          \<and> length (bs @ out @ rest) < 2 ^ 62 \<longrightarrow>
          (\<exists>w. deserialize_scalar E' fixSized floating sg d old = (NoError, d\<lparr>m_binaryData := w\<rparr>, v)
             \<and> walker_rep w (bs @ out @ rest) (length bs + length out)))"
proof -
  let ?out = "enc_scalar fixSized floating (mode_of c) v"
  have l: "length bs + length ?out < 2 ^ 62" using assms(1,6) by (auto simp: enc_scalar_def)
  from codec_interop [OF scalar_codec [OF assms(1)] scalar_codec [OF assms(1)] assms(2) refl TrueI assms(3,5) l _ TrueI assms(4)]
  show ?thesis by (fastforce simp: delivers_def intro!: exI [of _ ?out])
qed

lemma scalar_crosses_platforms_witness:
  "\<exists>b out. serialize_scalar sample_env False False (0x01020304 :: u32) (sample_sdata True)
       = (NoError, (sample_sdata True)\<lparr>m_binaryData := b\<rparr>) \<and> vec_rep b out"
proof -
  have "\<not> memory_out sample_env" by (simp add: memory_out_def)
  from scalar_crosses_platforms [OF _ sample_sdata_ok(1) this this sample_sdata_ok(2), where 'a = 32]
  show ?thesis by simp blast
qed

text \<open>
  a \<open>size_t\<close> that does not fit 32 bits cannot be sent in 32-bit mode: \<open>serializeSizeT\<close>
  answers \<open>ErrorValueOverflow\<close> and writes nothing.
\<close>
lemma size_too_big_for_32_bits:
  "m_bitness32 c \<Longrightarrow> 2 ^ 32 \<le> unat n \<Longrightarrow> serializeSizeT E n c = (ErrorValueOverflow, c)"
  by (rule serializeSizeT_overflow)

lemma size_too_big_for_32_bits_witness:
  "serializeSizeT sample_env (2 ^ 32) ((sample_sdata False)\<lparr>m_bitness32 := True\<rparr>)
     = (ErrorValueOverflow, (sample_sdata False)\<lparr>m_bitness32 := True\<rparr>)"
  by (rule size_too_big_for_32_bits) simp_all

end
