(* ===== verification/VectorCodec.thy ===== *)
theory VectorCodec
  imports CodecInstances
begin

text \<open>
  The \<open>codec\<close> contract for arrays and vectors of a type that has it: element by element, or
  as one copy of the octets where the tags of the type and the flags of the context allow it.
\<close>

section \<open>Which arrays are copied\<close>

definition copies_mode :: "'a ctype \<Rightarrow> mode \<Rightarrow> bool" where
  "copies_mode T md \<longleftrightarrow>
     (\<not> md_endiannessDifference md \<or> EndiannessTolerant T)
     \<and> (t_integralOrEnum T \<or> t_floating T
        \<or> \<not> df_simplyAssignableTagsOptimizationsAreTurnedOff (md_dataFlags md)
           \<and> (t_info T = None \<or> type_latestInterfaceVersion T \<le> md_interfaceVersion md)
           \<and> (tag_always T
              \<or> tag_fixedSize T \<and> \<not> df_alignmentMayBeNotEqual (md_dataFlags md)
              \<or> tag_alignedToOne T \<and> \<not> df_sizeOfIntegersMayBeNotEqual (md_dataFlags md)
              \<or> tag_simplyAssignable T \<and> \<not> df_alignmentMayBeNotEqual (md_dataFlags md)
                 \<and> \<not> df_sizeOfIntegersMayBeNotEqual (md_dataFlags md)))"

definition sized_array :: "'a ctype \<Rightarrow> mode \<Rightarrow> bool" where
  "sized_array T md \<longleftrightarrow> t_integralOrEnum T \<and> \<not> t_fixSized T \<and> int_sized md"

lemma copies_arrays_mode: "body_ctx E c \<Longrightarrow> copies_arrays T c = copies_mode T (mode_of c)"
  by (auto simp: body_ctx_def data_inv_def copies_arrays_def copies_mode_def tags_allow_copy_def mode_of_def)

lemma sized_array_mode:
  "body_ctx E c \<Longrightarrow> (t_integralOrEnum T \<and> \<not> t_fixSized T \<and> m_sizeOfPrimitivesMayBeNotEqual c)
     = sized_array T (mode_of c)"
  by (simp add: sized_array_def mode_simps)

lemma split_cells_concat:
  "\<forall>ys \<in> set yss. length ys = sz \<Longrightarrow>
   split_cells sz (length yss + k) (concat yss @ ds) = yss @ split_cells sz k ds"
  by (induction yss) auto

lemma length_split_cells [simp]: "length (split_cells sz n cs) = n"
  by (induction n arbitrary: cs) simp_all

lemma reads_weaken: "reads E f xs c R \<Longrightarrow> (\<And>v. R v \<Longrightarrow> Q v) \<Longrightarrow> reads E f xs c Q"
  unfolding reads_def by meson

lemma length_concat_const: "\<forall>ys \<in> set yss. length ys = sz \<Longrightarrow> length (concat yss) = sz * length yss"
  by (induction yss) auto

lemma vec_rep_size: "vec_rep v xs \<Longrightarrow> vec_size v = of_nat (length xs)"
  by (metis of_nat_unat ucast_id vec_rep_def vec_size_def)

lemma objects_of_cells [simp]:
  "List.map_filter (\<lambda>c. case c of Obj x \<Rightarrow> Some x | Raw \<Rightarrow> None) (map Obj xs) = xs"
  by (induction xs) (simp_all add: map_filter_simps)

lemma vec_rep_objects:
  assumes "vec_rep v xs"
  shows "vec_objects v = xs"
proof -
  have "read_cells (m_p v) 0 (unat (vec_size v)) = Some (map Obj xs)"
    using vec_rep_read [OF assms, of 0 "length xs"] assms by (simp add: vec_rep_def vec_size_def)
  then show ?thesis by (simp add: vec_objects_def)
qed

lemma codec_restrict:
  "codec E rep init ok enc ser des \<Longrightarrow> codec E rep init (\<lambda>md m. ok md m \<and> P md) enc ser des"
  unfolding codec_def by blast

section \<open>Arrays\<close>

text \<open>
  \<open>raw m\<close>: the octets of an object that stands for \<open>m\<close> on the platform. Reading and writing
  them copies the object wherever arrays of the type are copied; elsewhere the elements
  keep the contract one by one.
\<close>

locale array_codec = codec E rep init "\<lambda>md m. ok md m \<and> \<not> copies_mode T md" enc ser des
  for E :: env
    and rep :: "'a \<Rightarrow> 'm \<Rightarrow> bool"
    and init :: "'a \<Rightarrow> bool"
    and ok :: "mode \<Rightarrow> 'm \<Rightarrow> bool"
    and enc :: "mode \<Rightarrow> 'm \<Rightarrow> byte list"
    and ser :: "'a \<Rightarrow> sdata \<Rightarrow> status \<times> sdata"
    and des :: "ddata \<Rightarrow> 'a \<Rightarrow> status \<times> ddata \<times> 'a"
    and T :: "'a ctype" +
  fixes ty :: "'a elem"
    and raw :: "'m \<Rightarrow> byte list"
    and des_sized :: "nat \<Rightarrow> ddata \<Rightarrow> 'a \<Rightarrow> status \<times> ddata \<times> 'a"
  assumes elem: "movable_type ty"
    and size: "t_sizeof T = e_sizeof ty" "t_integralOrEnum T \<Longrightarrow> t_sizeof T < 256"
    and not_empty: "\<not> t_empty T"
    and dflt: "init (t_default T)"
    and octets_length: "copies_mode T md \<Longrightarrow> length (t_octets T be x) = t_sizeof T"
    and octets: "copies_mode T md \<Longrightarrow> rep x m \<Longrightarrow> t_octets T (big_endian E) x = raw m"
    and of_octets: "copies_mode T md \<Longrightarrow> ok md m \<Longrightarrow>
      length (raw m) = t_sizeof T \<and> rep (t_of_octets T (big_endian E) (raw m)) m"
begin

definition enc_array :: "mode \<Rightarrow> 'm list \<Rightarrow> byte list" where
  "enc_array md ms =
     (if copies_mode T md
      then (if sized_array T md then [of_nat (t_sizeof T)] else []) @ concat (map raw ms)
      else concat (map (enc md) ms))"

lemma sizeof_pos: "0 < t_sizeof T"
  using movable_type.size_pos [OF elem] size by simp

lemma emits_items:
  assumes c: "body_ctx E c" and nc: "\<not> copies_mode T (mode_of c)"
  shows "list_all2 rep xs ms \<Longrightarrow> \<forall>m \<in> set ms. ok (mode_of c) m \<Longrightarrow>
    emits E (serialize_items ser addr i xs) (concat (map (enc (mode_of c)) ms)) c"
proof (induction arbitrary: i rule: list_all2_induct)
  case Nil
  then show ?case by (simp add: emits_Nil)
next
  case (Cons x xs m ms)
  have "emits E (\<lambda>c. run (ser x c) (\<lambda>c. serialize_items ser addr (Suc i) xs c))
      (enc (mode_of c) m @ concat (map (enc (mode_of c)) ms)) c"
    using Cons c nc by (intro emits_run ser_emits) auto
  moreover have "\<not> m_checkRecursivePointers (c\<lparr>m_binaryData := b\<rparr>)" for b
    using c by (simp add: body_ctx_def)
  ultimately show ?case
    by (subst emits_cong [where g = "\<lambda>c. run (ser x c) (\<lambda>c. serialize_items ser addr (Suc i) xs c)"]) simp_all
qed

lemma emits_array:
  assumes c: "body_ctx E c" and r: "list_all2 rep xs ms" and o: "\<forall>m \<in> set ms. ok (mode_of c) m"
    and f: "t_sizeof T * length ms < 2 ^ 64"
  shows "emits E (serialize_array E T ser addr xs) (enc_array (mode_of c) ms) c"
proof (cases "copies_mode T (mode_of c)")
  case False
  then have "\<not> copies_arrays T (c\<lparr>m_binaryData := b\<rparr>)" for b
    using c copies_arrays_mode [of E "c\<lparr>m_binaryData := b\<rparr>" T] by simp
  with False emits_items [OF c False r o] show ?thesis
    by (subst emits_cong [where g = "serialize_items ser addr 0 xs"])
       (simp_all add: serialize_array_def not_empty enc_array_def)
next
  case True
  have cp: "copies_arrays T (c\<lparr>m_binaryData := b\<rparr>)" for b
    using c True copies_arrays_mode [of E "c\<lparr>m_binaryData := b\<rparr>" T] by simp
  have sz: "(t_integralOrEnum T \<and> \<not> t_fixSized T \<and> m_sizeOfPrimitivesMayBeNotEqual (c\<lparr>m_binaryData := b\<rparr>))
      = sized_array T (mode_of c)" for b
    using sized_array_mode [of E "c\<lparr>m_binaryData := b\<rparr>" T] c by simp
  have len: "length xs = length ms" using r by (rule list_all2_lengthD)
  have os: "map (t_octets T (big_endian E)) xs = map raw ms"
    using r octets [OF True] by (induction rule: list_all2_induct) simp_all
  let ?p = "concat (map raw ms)"
  have lp: "length ?p = t_sizeof T * length ms"
    using o of_octets [OF True] by (subst length_concat_const [where sz = "t_sizeof T"]) auto
  have "length ms \<le> t_sizeof T * length ms" using sizeof_pos by (cases "t_sizeof T") auto
  from le_less_trans [OF this f] have "length ms < 2 ^ LENGTH(64)" by simp
  then have n: "unat (of_nat (length ms) :: u64) = length ms" by (rule unat_of_nat_small)
  have "emits E (writeRawData E (t_sizeof T) (Some ?p) (of_nat (length ms))) ?p c"
    using lp f sizeof_pos n by (intro emits_writeRawData) simp_all
  moreover have "emits E (\<lambda>c. if sized_array T (mode_of c) then writePrimitive E (of_nat (t_sizeof T) :: byte) c
        else (NoError, c)) (if sized_array T (mode_of c) then [of_nat (t_sizeof T)] else []) c"
  proof (cases "sized_array T (mode_of c)")
    case True
    then show ?thesis
      using emits_prim [OF _ body_ctx_value [OF c], where w = "of_nat (t_sizeof T) :: byte"]
      by (subst emits_cong [where g = "writePrimitive E (of_nat (t_sizeof T) :: byte)"]) simp_all
  qed (auto intro: emits_Nil)
  ultimately have "emits E (\<lambda>c. run (if sized_array T (mode_of c) then writePrimitive E (of_nat (t_sizeof T) :: byte) c
        else (NoError, c)) (\<lambda>c. writeRawData E (t_sizeof T) (Some ?p) (of_nat (length ms)) c)) (enc_array (mode_of c) ms) c"
    unfolding enc_array_def using True by (simp add: emits_run)
  then show ?thesis
    by (rule emits_cong [THEN iffD1, rotated]) (use cp sz in \<open>simp add: serialize_array_def not_empty os len\<close>)
qed

lemma reads_items:
  assumes d: "body_ctx E d" and nc: "\<not> copies_mode T (mode_of d)"
  shows "\<forall>m \<in> set ms. ok (mode_of d) m \<Longrightarrow> i + length ms \<le> length cs \<Longrightarrow>
    reads E (\<lambda>d. deserialize_items des (t_default T) addr i (length ms) d (Cells cs))
      (concat (map (enc (mode_of d)) ms)) d
      (\<lambda>p. \<exists>xs. list_all2 rep xs ms \<and> p = Cells (take i cs @ map Obj xs @ drop (i + length ms) cs))"
proof (induction ms arbitrary: i cs)
  case Nil
  then show ?case by (auto intro!: reads_return)
next
  case (Cons m ms)
  let ?dflt = "t_default T"
  let ?R = "\<lambda>p. \<exists>xs. list_all2 rep xs (m # ms) \<and> p = Cells (take i cs @ map Obj xs @ drop (i + length (m # ms)) cs)"
  have i: "i < length cs" using Cons.prems(2) by simp
  have w: "write_cells (Cells cs) i [Obj x] = Cells (cs[i := Obj x])"
    "write_cells (Cells (cs[i := Obj y])) i [Obj x] = Cells (cs[i := Obj x])" for x y
    using i by (simp_all add: write_cell)
  have next_item: "reads E (\<lambda>d. deserialize_items des ?dflt addr (Suc i) (length ms) d (Cells (cs[i := Obj x])))
      (concat (map (enc (mode_of d)) ms)) d ?R" if x: "rep x m" for x
  proof (rule reads_weaken [OF Cons.IH])
    fix p
    assume "\<exists>xs. list_all2 rep xs ms \<and> p = Cells (take (Suc i) (cs[i := Obj x]) @ map Obj xs @ drop (Suc i + length ms) (cs[i := Obj x]))"
    then obtain xs where "list_all2 rep xs ms"
      "p = Cells (take (Suc i) (cs[i := Obj x]) @ map Obj xs @ drop (Suc i + length ms) (cs[i := Obj x]))" by blast
    then show "?R p" using x i by (intro exI [of _ "x # xs"]) (simp add: take_Suc_conv_app_nth)
  qed (use Cons.prems in simp_all)
  have "reads E (\<lambda>d. run_out (des d ?dflt) (\<lambda>x. Cells (cs[i := Obj x])) (\<lambda>d x.
      deserialize_items des ?dflt addr (Suc i) (length ms) d (Cells (cs[i := Obj x]))))
      (enc (mode_of d) m @ concat (map (enc (mode_of d)) ms)) d ?R"
    using Cons.prems d nc dflt next_item by (intro reads_run_out [OF des_reads]) simp_all
  moreover have "\<not> m_checkRecursivePointers (d\<lparr>m_binaryData := b\<rparr>)" for b
    using d by (simp add: body_ctx_def)
  ultimately show ?case
    by (subst reads_cong [where g = "\<lambda>d. run_out (des d ?dflt) (\<lambda>x. Cells (cs[i := Obj x])) (\<lambda>d x.
      deserialize_items des ?dflt addr (Suc i) (length ms) d (Cells (cs[i := Obj x])))"])
       (simp_all add: w Let_def)
qed

text \<open>A block of \<open>k\<close> cells that begins with objects for \<open>ms\<close>.\<close>

definition block_holds :: "'a storage \<Rightarrow> nat \<Rightarrow> 'm list \<Rightarrow> bool" where
  "block_holds p k ms \<longleftrightarrow>
     p = Null \<and> k = 0 \<and> ms = []
     \<or> (\<exists>xs rest. p = Cells (map Obj xs @ rest) \<and> list_all2 rep xs ms \<and> length xs + length rest = k)"

lemma block_holdsI:
  assumes "list_all2 rep xs ms" "length ms + length rest = k"
  shows "block_holds (Cells (map Obj xs @ rest)) k ms"
  using assms list_all2_lengthD [OF assms(1)]
  unfolding block_holds_def by (intro disjI2 exI [of _ xs] exI [of _ rest]) simp

lemma block_objects_rep:
  assumes "block_holds p (length ms) ms"
  shows "list_all2 rep (block_objects p) ms"
  using assms unfolding block_holds_def
proof (elim disjE exE conjE)
  fix xs rest
  assume p: "p = Cells (map Obj xs @ rest)" "list_all2 rep xs ms" "length xs + length rest = length ms"
  then have "rest = []" using list_all2_lengthD [OF p(2)] by simp
  with p show ?thesis by (simp add: block_objects_def)
qed (simp add: block_objects_def)

lemma block_octets_cells:
  assumes "copies_mode T md"
  shows "\<exists>os. block_octets be T (Cells cs) = Cells os \<and> length os = t_sizeof T * length cs"
proof -
  have "length (concat (map (\<lambda>c. case c of Raw \<Rightarrow> replicate (t_sizeof T) Raw | Obj x \<Rightarrow> map Obj (t_octets T be x)) cs))
      = t_sizeof T * length cs"
    using octets_length [OF assms] by (induction cs) (auto split: cell.split)
  then show ?thesis by (simp add: block_octets_def)
qed

lemma block_of_octets_raw:
  assumes cp: "copies_mode T md" and o: "\<forall>m \<in> set ms. ok md m"
  shows "\<exists>xs rest. block_of_octets (big_endian E) T (length ms + k) (Cells (map Obj (concat (map raw ms)) @ os))
       = Cells (map Obj xs @ rest) \<and> list_all2 rep xs ms \<and> length rest = k"
proof -
  let ?be = "big_endian E"
  have l: "\<forall>ys \<in> set (map (map Obj \<circ> raw) ms). length ys = t_sizeof T"
    using o of_octets [OF cp] by auto
  have sp: "split_cells (t_sizeof T) (length ms + k) (map Obj (concat (map raw ms)) @ os)
      = map (map Obj \<circ> raw) ms @ split_cells (t_sizeof T) k os"
    using split_cells_concat [OF l, of k os] by (simp add: map_concat)
  have "list_all2 rep (map (\<lambda>m. t_of_octets T ?be (raw m)) ms) ms"
    using o of_octets [OF cp] by (induction ms) simp_all
  then show ?thesis
    by (intro exI [of _ "map (\<lambda>m. t_of_octets T ?be (raw m)) ms"] exI [of _ "map (\<lambda>c. case cells_octets c of
          Some bs \<Rightarrow> Obj (t_of_octets T ?be bs) | None \<Rightarrow> Raw) (split_cells (t_sizeof T) k os)"])
       (simp add: block_of_octets_def sp)
qed

lemma reads_raw_block:
  assumes d: "body_ctx E d" and cp: "copies_mode T (mode_of d)" and o: "\<forall>m \<in> set ms. ok (mode_of d) m"
    and n: "unat n = length ms" "length ms \<le> length cs"
  shows "reads E (\<lambda>d. readRawBlock E T d n (Cells cs)) (concat (map raw ms)) d
     (\<lambda>p. block_holds p (length cs) ms)"
proof (rule readsI)
  fix w bs k
  let ?xs = "concat (map raw ms)"
  assume w: "walker_rep w bs k" and l: "length bs < 2 ^ 62" and m: "length ?xs \<le> length bs - k"
    and t: "take (length ?xs) (drop k bs) = ?xs"
  obtain os where os: "block_octets (big_endian E) T (Cells cs) = Cells os" "length os = t_sizeof T * length cs"
    using block_octets_cells [OF cp] by blast
  have lx: "length ?xs = t_sizeof T * length ms"
    using o of_octets [OF cp] by (subst length_concat_const [where sz = "t_sizeof T"]) auto
  have k: "k \<le> length bs" using w by (simp add: walker_rep_def)
  have a: "walker_rep (m_binaryData (d\<lparr>m_binaryData := w\<rparr>)) bs k" "length bs < 2 ^ 63" using w l by simp_all
  have b: "length ?xs = t_sizeof T * unat n" "length ?xs < 2 ^ 63" "0 < t_sizeof T" "length ?xs \<le> length os"
    using lx n m l sizeof_pos os(2) by auto
  have "k + length ?xs \<le> length bs" using k m by simp
  from readRawData_ok(1) [OF a b this, of E] t obtain w' where
    r: "readRawData E (t_sizeof T) (d\<lparr>m_binaryData := w\<rparr>) n (Cells os)
       = (NoError, d\<lparr>m_binaryData := w'\<rparr>, Cells (map Obj ?xs @ drop (length ?xs) os))"
       "walker_rep w' bs (k + length ?xs)" by auto
  from block_of_octets_raw [OF cp o, where k = "length cs - length ms" and os = "drop (length ?xs) os"] n(2)
  obtain xs rest where "block_of_octets (big_endian E) T (length cs) (Cells (map Obj ?xs @ drop (length ?xs) os))
       = Cells (map Obj xs @ rest)" "list_all2 rep xs ms" "length rest = length cs - length ms" by auto
  moreover from this calculation n(2) have "block_holds (Cells (map Obj xs @ rest)) (length cs) ms"
    by (intro block_holdsI) simp_all
  ultimately have "readRawBlock E T (d\<lparr>m_binaryData := w\<rparr>) n (Cells cs)
      = (NoError, d\<lparr>m_binaryData := w'\<rparr>, Cells (map Obj xs @ rest)) \<and> block_holds (Cells (map Obj xs @ rest)) (length cs) ms"
    using os r by (simp add: readRawBlock_def storage_cells_def)
  then show "\<exists>st w' v. readRawBlock E T (d\<lparr>m_binaryData := w\<rparr>) n (Cells cs) = (st, d\<lparr>m_binaryData := w'\<rparr>, v) \<and>
      (st = NoError \<and> walker_rep w' bs (k + length ?xs) \<and> block_holds v (length cs) ms
       \<or> st = ErrorNoMemory \<and> memory_out E)"
    using r(2) by blast
qed

lemma reads_no_block: "reads E (\<lambda>d. readRawBlock E T d 0 Null) [] d (\<lambda>p. block_holds p 0 [])"
proof (rule readsI)
  fix w :: "byte walker" and bs k
  assume w: "walker_rep w bs k"
  then have v: "vec_rep (m_vector w) bs" and k: "unat (m_offset w) = k" "k \<le> length bs"
    by (simp_all add: walker_rep_def)
  have "\<not> m_offset w > m_dataSize (m_vector w)" using v k by (simp add: vec_rep_def word_less_nat_alt)
  moreover have "read_cells (m_p (m_vector w)) (unat (m_offset w)) 0 = Some []" using v by (simp add: vec_rep_def)
  ultimately have "walker_read octet w Null 0 0 = (NoError, w, Null, 0)"
    by (simp add: walker_read_def vec_copyN_def copyToDirtyNoOverlap_def octet_def raw_elem_def)
  then have "readRawBlock E T (d\<lparr>m_binaryData := w\<rparr>) 0 Null = (NoError, d\<lparr>m_binaryData := w\<rparr>, Null)"
    by (simp add: readRawBlock_def readRawData_def block_octets_def block_of_octets_def)
  then show "\<exists>st w' v. readRawBlock E T (d\<lparr>m_binaryData := w\<rparr>) 0 Null = (st, d\<lparr>m_binaryData := w'\<rparr>, v) \<and>
      (st = NoError \<and> walker_rep w' bs (k + length []) \<and> block_holds v 0 [] \<or> st = ErrorNoMemory \<and> memory_out E)"
    using w by (auto simp: block_holds_def)
qed

lemma reads_array:
  assumes d: "body_ctx E d" and o: "\<forall>m \<in> set ms. ok (mode_of d) m" and n: "unat n = length ms"
    and p: "p = Cells cs \<and> length ms \<le> length cs \<or> p = Null \<and> cs = [] \<and> ms = []"
  shows "reads E (\<lambda>d. deserialize_array E T des des_sized addr d n p) (enc_array (mode_of d) ms) d
     (\<lambda>p. block_holds p (length cs) ms)"
proof (cases "copies_mode T (mode_of d)")
  case False
  then have nc: "\<not> copies_arrays T (d\<lparr>m_binaryData := b\<rparr>)" for b
    using d copies_arrays_mode [of E "d\<lparr>m_binaryData := b\<rparr>" T] by simp
  have "reads E (\<lambda>d. deserialize_items des (t_default T) addr 0 (unat n) d p) (concat (map (enc (mode_of d)) ms)) d
      (\<lambda>p. block_holds p (length cs) ms)"
    using p
  proof (elim disjE conjE)
    assume "p = Cells cs" "length ms \<le> length cs"
    moreover from this reads_items [OF d False o, of 0 cs addr]
    have "reads E (\<lambda>d. deserialize_items des (t_default T) addr 0 (length ms) d p) (concat (map (enc (mode_of d)) ms)) d
        (\<lambda>p. \<exists>xs. list_all2 rep xs ms \<and> p = Cells (take 0 cs @ map Obj xs @ drop (0 + length ms) cs))" by simp
    ultimately show ?thesis
      unfolding n by (elim reads_weaken) (auto intro!: block_holdsI)
  next
    assume "p = Null" "cs = []" "ms = []"
    then show ?thesis using n by (auto intro!: reads_return simp: block_holds_def)
  qed
  with False nc show ?thesis
    by (subst reads_cong [where g = "\<lambda>d. deserialize_items des (t_default T) addr 0 (unat n) d p"])
       (simp_all add: deserialize_array_def not_empty enc_array_def)
next
  case True
  have cp: "copies_arrays T (d\<lparr>m_binaryData := b\<rparr>)" for b
    using d True copies_arrays_mode [of E "d\<lparr>m_binaryData := b\<rparr>" T] by simp
  have sz: "(t_integralOrEnum T \<and> \<not> t_fixSized T \<and> m_sizeOfPrimitivesMayBeNotEqual (d\<lparr>m_binaryData := b\<rparr>))
      = sized_array T (mode_of d)" for b
    using sized_array_mode [of E "d\<lparr>m_binaryData := b\<rparr>" T] d by simp
  have block: "reads E (\<lambda>d. readRawBlock E T d n p) (concat (map raw ms)) d (\<lambda>p. block_holds p (length cs) ms)"
    using p
  proof (elim disjE conjE)
    assume "p = Null" "cs = []" "ms = []"
    moreover from this n have "n = 0" by (simp add: unat_eq_0)
    ultimately show ?thesis using reads_no_block by simp
  qed (use reads_raw_block [OF d True o n] in simp)
  show ?thesis
  proof (cases "sized_array T (mode_of d)")
    case True
    then have "t_sizeof T < 256" using size(2) by (simp add: sized_array_def)
    then have one: "unat (of_nat (t_sizeof T) :: byte) = t_sizeof T" by (simp add: unat_of_nat_small)
    let ?g = "\<lambda>d. run_out (readPrimitive E d (0 :: byte)) (\<lambda>_. p) (\<lambda>d originalTypeSize.
                if unat originalTypeSize \<noteq> t_sizeof T
                then deserialize_sized_items (des_sized (unat originalTypeSize)) (t_default T) 0 (unat n) d p
                else readRawBlock E T d n p)"
    have "reads E ?g ([of_nat (t_sizeof T)] @ concat (map raw ms)) d (\<lambda>p. block_holds p (length cs) ms)"
    proof (rule reads_run_out [where R = "\<lambda>x. x = of_nat (t_sizeof T)"])
      have "parses (\<lambda>d. readPrimitive E d (0 :: byte)) [of_nat (t_sizeof T)] d (of_nat (t_sizeof T))"
        using parses_prim [OF _ body_ctx_value [OF d], where v = "of_nat (t_sizeof T) :: byte" and old = 0] by simp
      then show "reads E (\<lambda>d. readPrimitive E d (0 :: byte)) [of_nat (t_sizeof T)] d (\<lambda>x. x = of_nat (t_sizeof T))"
        by (rule parses_reads) simp
    qed (use block one in simp)
    moreover have "deserialize_array E T des des_sized addr (d\<lparr>m_binaryData := w\<rparr>) n p = ?g (d\<lparr>m_binaryData := w\<rparr>)" for w
      using True cp [of w] sz [of w] by (simp only: deserialize_array_def not_empty simp_thms if_True if_False)
    ultimately show ?thesis
      using True \<open>copies_mode T (mode_of d)\<close> by (subst reads_cong [where g = ?g]) (simp_all add: enc_array_def)
  next
    case False
    have "deserialize_array E T des des_sized addr (d\<lparr>m_binaryData := w\<rparr>) n p
        = readRawBlock E T (d\<lparr>m_binaryData := w\<rparr>) n p" for w
      using False cp [of w] sz [of w] by (simp only: deserialize_array_def not_empty simp_thms if_True if_False)
    then show ?thesis
      using False block \<open>copies_mode T (mode_of d)\<close>
      by (subst reads_cong [where g = "\<lambda>d. readRawBlock E T d n p"]) (simp_all add: enc_array_def)
  qed
qed

text \<open>Vectors: the number of elements, then the elements.\<close>

definition rep_vec :: "'a vec \<Rightarrow> 'm list \<Rightarrow> bool" where
  "rep_vec v ms \<longleftrightarrow> (\<exists>xs. vec_rep v xs \<and> list_all2 rep xs ms)"

definition init_vec :: "'a vec \<Rightarrow> bool" where
  "init_vec v \<longleftrightarrow> (\<exists>xs. vec_rep v xs)"

definition ok_vec :: "mode \<Rightarrow> 'm list \<Rightarrow> bool" where
  "ok_vec md ms \<longleftrightarrow> (\<forall>m \<in> set ms. ok md m) \<and> fits ty (length ms) \<and> ok_size md (of_nat (length ms))"

definition enc_vec :: "mode \<Rightarrow> 'm list \<Rightarrow> byte list" where
  "enc_vec md ms = enc_size md (of_nat (length ms)) @ enc_array md ms"

lemma fits_length:
  assumes "fits ty (length ms)"
  shows "t_sizeof T * length ms < 2 ^ 64" "unat (of_nat (length ms) :: u64) = length ms"
proof -
  have b: "2 * length ms < 2 ^ 64" "length ms * e_sizeof ty < 2 ^ 64"
    using movable_type.fits_bounds [OF elem assms] by simp_all
  show "t_sizeof T * length ms < 2 ^ 64" using b(2) size(1) by (simp add: mult.commute)
  show "unat (of_nat (length ms) :: u64) = length ms" using b(1) by (intro unat_of_nat_small) simp
qed

lemma emits_vec:
  assumes c: "body_ctx E c" and r: "rep_vec v ms" and o: "ok_vec (mode_of c) ms"
  shows "emits E (serialize_vector E T ser addr v) (enc_vec (mode_of c) ms) c"
proof -
  obtain xs where x: "vec_rep v xs" "list_all2 rep xs ms" using r by (auto simp: rep_vec_def)
  have l: "length xs = length ms" using x(2) by (rule list_all2_lengthD)
  have vs: "vec_size v = of_nat (length ms)" "vec_objects v = xs"
    using vec_rep_size [OF x(1)] vec_rep_objects [OF x(1)] l by simp_all
  have "emits E (\<lambda>c. run (serialize_array E T ser addr xs c) (\<lambda>c. (NoError, c))) (enc_array (mode_of c) ms) c"
    using o fits_length by (intro emits_run_done emits_array [OF c x(2)]) (auto simp: ok_vec_def)
  moreover have "emits E (serializeSizeT E (of_nat (length ms))) (enc_size (mode_of c) (of_nat (length ms))) c"
    using size.ser_emits [OF c] o by (simp add: ok_vec_def)
  ultimately have "emits E (\<lambda>c. run (serializeSizeT E (vec_size v) c) (\<lambda>c.
      run (serialize_array E T ser addr (vec_objects v) c) (\<lambda>c. (NoError, c)))) (enc_vec (mode_of c) ms) c"
    unfolding vs enc_vec_def by (intro emits_run)
  then show ?thesis by (rule emits_cong [THEN iffD1, rotated]) (simp add: serialize_vector_def)
qed

lemma block_holds_vec:
  assumes "block_holds p (unat (m_allocatedSize v)) ms" "unat n = length ms"
  shows "rep_vec (v\<lparr>m_p := p, m_dataSize := n\<rparr>) ms"
  using assms(1) unfolding block_holds_def
proof (elim disjE exE conjE)
  fix xs rest
  assume "p = Cells (map Obj xs @ rest)" "list_all2 rep xs ms" "length xs + length rest = unat (m_allocatedSize v)"
  moreover from this(2) have "length xs = length ms" by (rule list_all2_lengthD)
  ultimately show ?thesis using assms(2)
    unfolding rep_vec_def by (intro exI [of _ xs]) (simp add: vec_rep_def vec_cells_def)
qed (use assms(2) in \<open>simp add: rep_vec_def vec_rep_def vec_cells_def\<close>)

lemma reads_vec_elements:
  assumes d: "body_ctx E d" and o: "ok_vec (mode_of d) ms" and v: "vec_rep v []" and n: "n = of_nat (length ms)"
  shows "reads E (\<lambda>d. let (st, v) = vec_reserve E ty v n
       in if \<not> statusSuccess st then (st, d, v)
          else run_out (deserialize_array E T des des_sized addr d n (vec_data v)) (\<lambda>p. v\<lparr>m_p := p\<rparr>) (\<lambda>d p.
                 (NoError, d, v\<lparr>m_p := p, m_dataSize := n\<rparr>))) (enc_array (mode_of d) ms) d (\<lambda>v. rep_vec v ms)"
proof -
  have fl: "fits ty (length ms)" and om: "\<forall>m \<in> set ms. ok (mode_of d) m"
    using o by (simp_all add: ok_vec_def)
  have un: "unat n = length ms" using fits_length(2) [OF fl] n by simp
  have f: "fits ty (unat n)" using fl un by simp
  obtain st v' where st: "vec_reserve E ty v n = (st, v')" and
    cases: "st = NoError \<and> vec_rep v' [] \<and> n \<le> m_allocatedSize v' \<or> st = ErrorNoMemory \<and> \<not> malloc_ok E (n * of_nat (e_sizeof ty))"
    using movable_type.reserveInternal_ok [OF elem v f, of E True] by (auto simp: vec_reserve_def)
  show ?thesis
  proof (cases "st = NoError")
    case True
    then have v': "vec_rep v' []" "length ms \<le> unat (m_allocatedSize v')"
      using cases un by (auto simp: word_le_nat_alt)
    let ?cs = "vec_cells v'"
    have p: "vec_data v' = Cells ?cs \<and> length ms \<le> length ?cs \<or> vec_data v' = Null \<and> ?cs = [] \<and> ms = []"
      using v' by (auto simp: vec_rep_def vec_data_def vec_cells_def split: storage.splits)
    have "length ?cs = unat (m_allocatedSize v')" using v'(1) by (simp add: vec_rep_def)
    then have "reads E (\<lambda>d. run_out (deserialize_array E T des des_sized addr d n (vec_data v')) (\<lambda>p. v'\<lparr>m_p := p\<rparr>)
        (\<lambda>d p. (NoError, d, v'\<lparr>m_p := p, m_dataSize := n\<rparr>))) (enc_array (mode_of d) ms) d (\<lambda>v. rep_vec v ms)"
      using un
      by (intro reads_run_out_done [OF reads_array [OF d om un p], where g = "\<lambda>p. v'\<lparr>m_p := p, m_dataSize := n\<rparr>"]
          block_holds_vec) simp_all
    then show ?thesis using st True by simp
  next
    case False
    then have "st = ErrorNoMemory" "memory_out E" using cases by (auto simp: memory_out_def)
    then show ?thesis using st by (intro readsI) auto
  qed
qed

lemma reads_vec:
  assumes d: "body_ctx E d" and i: "init_vec old" and o: "ok_vec (mode_of d) ms"
  shows "reads E (\<lambda>d. deserialize_vector E ty T des des_sized addr d old) (enc_vec (mode_of d) ms) d (\<lambda>v. rep_vec v ms)"
proof -
  have c: "vec_rep (vec_clear ty old) []"
    using i movable_type.clear_ok(1) [OF elem] by (auto simp: init_vec_def)
  have "reads E (\<lambda>d. deserializeSizeT E d 0) (enc_size (mode_of d) (of_nat (length ms))) d (\<lambda>x. x = of_nat (length ms))"
    using size.des_reads [OF d] o by (simp add: ok_vec_def)
  from reads_run_out [OF this reads_vec_elements [OF d o c]] show ?thesis
    unfolding enc_vec_def deserialize_vector_def Let_def by simp
qed

end

sublocale array_codec \<subseteq> vectors: codec E rep_vec init_vec ok_vec enc_vec "serialize_vector E T ser addr"
    "deserialize_vector E ty T des des_sized addr" for addr
  by unfold_locales (simp_all add: emits_vec reads_vec)

section \<open>Vectors of integers\<close>

lemma integer_type_simps [simp]:
  "t_sizeof (integer_type sg :: 'a::len word ctype) = LENGTH('a) div 8"
  "t_integralOrEnum (integer_type sg :: 'a word ctype)" "\<not> t_fixSized (integer_type sg :: 'a word ctype)"
  "\<not> t_empty (integer_type sg :: 'a word ctype)"
  "t_octets (integer_type sg :: 'a word ctype) = obj_bytes" "t_of_octets (integer_type sg :: 'a word ctype) = obj_value"
  by (simp_all add: integer_type_def)

lemma integer_array_codec:
  assumes "LENGTH('a::len) \<in> {8, 16, 32, 64}" and "LENGTH('a) div 8 = Suc k"
  shows "array_codec E (=) (\<lambda>_. True) (\<lambda>_ _. True) (enc_scalar False False :: mode \<Rightarrow> 'a word \<Rightarrow> byte list)
     (serialize_scalar E False False) (deserialize_scalar E False False sg) (integer_type sg)
     (raw_elem (Suc k)) (obj_bytes (big_endian E))"
proof -
  have "8 dvd LENGTH('a)" using assms(1) by auto
  then show ?thesis
    using assms raw.movable_type_axioms
    by (intro array_codec.intro array_codec_axioms.intro codec_restrict scalar_codec)
       (auto simp: raw_elem_def obj_value_bytes)
qed

interpretation u8s: array_codec E "(=)" "\<lambda>_. True" "\<lambda>_ _. True" "enc_scalar False False :: mode \<Rightarrow> byte \<Rightarrow> byte list"
    "serialize_scalar E False False" "deserialize_scalar E False False sg" "integer_type sg"
    octet "obj_bytes (big_endian E)" ds for E sg ds
  unfolding octet_eq by (rule integer_array_codec) simp_all

interpretation u16s: array_codec E "(=)" "\<lambda>_. True" "\<lambda>_ _. True" "enc_scalar False False :: mode \<Rightarrow> u16 \<Rightarrow> byte list"
    "serialize_scalar E False False" "deserialize_scalar E False False sg" "integer_type sg"
    "raw_elem (Suc 1)" "obj_bytes (big_endian E)" ds for E sg ds
  by (rule integer_array_codec) simp_all

interpretation u32s: array_codec E "(=)" "\<lambda>_. True" "\<lambda>_ _. True" "enc_scalar False False :: mode \<Rightarrow> u32 \<Rightarrow> byte list"
    "serialize_scalar E False False" "deserialize_scalar E False False sg" "integer_type sg"
    "raw_elem (Suc 3)" "obj_bytes (big_endian E)" ds for E sg ds
  by (rule integer_array_codec) simp_all

interpretation u64s: array_codec E "(=)" "\<lambda>_. True" "\<lambda>_ _. True" "enc_scalar False False :: mode \<Rightarrow> u64 \<Rightarrow> byte list"
    "serialize_scalar E False False" "deserialize_scalar E False False sg" "integer_type sg"
    "raw_elem (Suc 7)" "obj_bytes (big_endian E)" ds for E sg ds
  by (rule integer_array_codec) simp_all

section \<open>Claims\<close>

lemma length_enc_u64s: "length (u64s.enc_vec sg E md xs) \<le> 9 + 9 * length xs"
proof -
  have a: "length (concat (map (enc_scalar False False md) xs)) \<le> 9 * length xs" for xs :: "u64 list"
    by (induction xs) (auto simp: enc_scalar_def)
  have b: "length (concat (map (obj_bytes be) xs)) = 8 * length xs" for be and xs :: "u64 list"
    by (induction xs) simp_all
  show ?thesis
    using a [of xs] by (auto simp: u64s.enc_vec_def u64s.enc_array_def enc_size_def b)
qed

lemma same_order:
  assumes "body_ctx E c" "body_ctx E' d" "mode_of d = mode_of c" "\<not> md_endiannessDifference (mode_of c)"
  shows "big_endian E' = big_endian E"
  using assms by (auto simp: body_ctx_def common_inv_def mode_of_def)

lemma enc_u64s_platform:
  assumes "body_ctx E c" "body_ctx E' (d :: ddata)" "mode_of d = mode_of c"
  shows "u64s.enc_vec sg E' (mode_of c) ms = u64s.enc_vec sg E (mode_of c) ms"
proof (cases "md_endiannessDifference (mode_of c)")
  case True
  then have "\<not> copies_mode (integer_type sg :: u64 ctype) (mode_of c)"
    by (simp add: copies_mode_def EndiannessTolerant_def integer_type_def)
  then show ?thesis by (simp add: u64s.enc_vec_def u64s.enc_array_def)
next
  case False
  then show ?thesis using same_order [OF assms] by (simp add: u64s.enc_vec_def u64s.enc_array_def)
qed

text \<open>
  C6: a vector of 64-bit integers crosses platforms: what \<open>serialize\<close> appends for a vector that
  holds \<open>xs\<close>, \<open>deserialize\<close> turns into a vector that holds \<open>xs\<close>, whatever the receiving vector
  held before, in every mode of the pair of contexts (octets copied as a block or element by
  element, with or without the size octets, 32-bit or 64-bit lengths) and for any pair of
  platform byte orders, as long as the length can be sent and there is memory.
\<close>
theorem u64_vector_crosses_platforms:
  assumes "body_ctx E c" "\<not> memory_out E" "\<not> memory_out E'"
    and "vec_rep v xs" "length xs < 2 ^ 57" "m_bitness32 c \<longrightarrow> length xs < 2 ^ 32"
    and "vec_rep old ys" "vec_rep (m_binaryData c) bs" "length bs < 2 ^ 61"
  shows "\<exists>b out. serialize_vector E (integer_type sg) (serialize_scalar E False False) addr v c
       = (NoError, c\<lparr>m_binaryData := b\<rparr>) \<and> vec_rep b (bs @ out)
     \<and> (\<forall>d rest. body_ctx E' d \<and> mode_of d = mode_of c \<and> walker_rep (m_binaryData d) (bs @ out @ rest) (length bs)
          \<and> length (bs @ out @ rest) < 2 ^ 62 \<longrightarrow>
          (\<exists>w v'. deserialize_vector E' (raw_elem (Suc 7)) (integer_type sg) (deserialize_scalar E' False False sg) ds
               addr' d old = (NoError, d\<lparr>m_binaryData := w\<rparr>, v') \<and> vec_rep v' (xs :: u64 list)
             \<and> walker_rep w (bs @ out @ rest) (length bs + length out)))"
proof -
  let ?out = "u64s.enc_vec sg E (mode_of c) xs"
  have rep: "u64s.rep_vec v xs" "u64s.init_vec old"
    using assms(4,7) by (auto simp: u64s.rep_vec_def u64s.init_vec_def list.rel_eq)
  have ok: "u64s.ok_vec (mode_of c) xs"
    unfolding u64s.ok_vec_def using assms(5,6)
    by (simp add: fits_def raw_elem_def ok_size_def mode_of_def unat_of_nat_small)
  have l: "length bs + length ?out < 2 ^ 62"
    using assms(5,9) length_enc_u64s [of sg E "mode_of c" xs] by simp
  have "codec E u64s.rep_vec u64s.init_vec u64s.ok_vec (u64s.enc_vec sg E)
      (serialize_vector E (integer_type sg) (serialize_scalar E False False) addr)
      (deserialize_vector E (raw_elem (Suc 7)) (integer_type sg) (deserialize_scalar E False False sg) ds addr)" for E addr
    by (rule u64s.vectors.codec_axioms)
  from codec_interop [OF this this assms(1) rep(1) ok assms(2,8) l _ rep(2) assms(3)] ok enc_u64s_platform [OF assms(1)]
  show ?thesis
    by (fastforce simp: delivers_def u64s.rep_vec_def list.rel_eq intro!: exI [of _ ?out])
qed

theorem u64_vector_crosses_platforms_witness:
  "\<exists>b out. serialize_vector sample_env (integer_type False) (serialize_scalar sample_env False False)
       id (empty_vec GenericManager :: u64 vec) (sample_sdata True) = (NoError, (sample_sdata True)\<lparr>m_binaryData := b\<rparr>)
     \<and> vec_rep b out"
proof -
  let ?E = "sample_env"
  have "\<not> memory_out ?E" "body_ctx ?E (sample_sdata True)"
    by (simp_all add: memory_out_def sample_sdata_ok)
  from u64_vector_crosses_platforms [OF this(2,1,1) vec_rep_empty [of GenericManager] _ _
      vec_rep_empty [of GenericManager] sample_sdata_ok(2), where addr = id and sg = False and addr' = id
      and ds = "\<lambda>_ d x. (NoError, d, x)"]
  show ?thesis by auto
qed

text \<open>
  The length of a vector is not checked against the size of its elements when it is read:
  for \<open>2 ^ 61 + 1\<close> elements of eight octets, the capacity that \<open>reserve\<close> accepts in the vector is
  a block of one element, so the vector claims room for more elements than its storage has.
\<close>
lemma reserve_wraps_around:
  "vec_reserve (E\<lparr>malloc_ok := \<lambda>_. True\<rparr>) (raw_elem 8) (empty_vec GenericManager) (2 ^ 61 + 1)
     = (NoError, \<lparr>m_p = Cells [Raw], m_dataSize = 0, m_allocatedSize = 2 ^ 61 + 1, m_AllocationManager = GenericManager\<rparr>)"
  by (simp add: vec_reserve_def vec_reserveInternal_def allocateStrict_def noexcept_allocate_def heap_allocate_def
      empty_vec_def raw_elem_def moveToRawNoOverlap_def read_cells_def)

end
