(* ===== verification/Serializable.thy ===== *)
theory Serializable
  imports Body
begin

text \<open>
  \<open>csp_base/processing/data/VersionConverter.h\<close>, the macros \<open>CSP_SERIALIZE_COMMON\<close> and
  \<open>CSP_DESERIALIZE_COMMON\<close> of \<open>BodyProcessor.h\<close>, and the operations of
  \<open>csp_base/ISerializable.h\<close>: structs with versions and whole data messages.
\<close>

section \<open>Private versions\<close>

definition getBestCompatInterfaceVersion :: "struct_info \<Rightarrow> u32 \<Rightarrow> u32" where
  "getBestCompatInterfaceVersion T compatInterfaceVersion =
     (case find (\<lambda>v. v \<le> compatInterfaceVersion)
             (take (unat (getPrivateVersionsCount T)) (s_kPrivateVersions T)) of
        Some v \<Rightarrow> v
      | None \<Rightarrow> kInterfaceVersionUndefined)"

text \<open>
  The conversions to and from old versions; a struct with old versions has its own.
  \<open>None\<close> for a type that does not implement \<open>ISerializable\<close>.
\<close>

definition toOldStruct :: "'a \<Rightarrow> u32 \<Rightarrow> sdata \<Rightarrow> status \<times> sdata" where
  "toOldStruct value targetVersion ctx = (ErrorNoSuchHandler, ctx)"

definition fromOldStruct :: "ddata \<Rightarrow> u32 \<Rightarrow> 'a \<Rightarrow> status \<times> ddata \<times> 'a" where
  "fromOldStruct ctx targetVersion value = (ErrorNoSuchHandler, ctx, value)"

definition toOldStructIfNeed ::
    "struct_info option \<Rightarrow> ('a \<Rightarrow> u32 \<Rightarrow> sdata \<Rightarrow> status \<times> sdata) \<Rightarrow> 'a \<Rightarrow> sdata \<Rightarrow> status \<times> sdata" where
  "toOldStructIfNeed T toOld value ctx =
     (case T of
        None \<Rightarrow> (ErrorInvalidType, ctx)
      | Some T \<Rightarrow>
          let targetVersion = getBestCompatInterfaceVersion T (m_interfaceVersion ctx)
          in if targetVersion = getLatestPrivateVersion T then (NoError, ctx)
             else if targetVersion = kInterfaceVersionUndefined then (ErrorInternal, ctx)
             else toOld value targetVersion ctx)"

definition fromOldStructIfNeed ::
    "struct_info option \<Rightarrow> (ddata \<Rightarrow> u32 \<Rightarrow> 'a \<Rightarrow> status \<times> ddata \<times> 'a) \<Rightarrow> ddata \<Rightarrow> 'a \<Rightarrow> status \<times> ddata \<times> 'a" where
  "fromOldStructIfNeed T fromOld ctx value =
     (case T of
        None \<Rightarrow> (ErrorInvalidType, ctx, value)
      | Some T \<Rightarrow>
          let targetVersion = getBestCompatInterfaceVersion T (m_interfaceVersion ctx)
          in if targetVersion = getLatestPrivateVersion T then (NoError, ctx, value)
             else if targetVersion = kInterfaceVersionUndefined then (ErrorInternal, ctx, value)
             else fromOld ctx targetVersion value)"

section \<open>Chains of versions\<close>

text \<open>
  A version of a struct in a chain, over a type \<open>'o\<close> of the objects of all its versions:
  its private version, a default constructed object, \<open>init\<close> from an object of another
  version, and what \<open>BodyProcessor\<close> does with it.
\<close>

record 'o version_class =
  vc_privateVersion :: u32
  vc_elem :: "'o elem"
  vc_default :: 'o
  vc_init :: "'o \<Rightarrow> 'o \<Rightarrow> status \<times> 'o"
  vc_serialize :: "'o \<Rightarrow> sdata \<Rightarrow> status \<times> sdata"
  vc_deserialize :: "ddata \<Rightarrow> 'o \<Rightarrow> status \<times> ddata \<times> 'o"

text \<open>A local keeper with one constructed object.\<close>

definition heap_object :: "env \<Rightarrow> 'o version_class \<Rightarrow> 'o option" where
  "heap_object E V =
     (case fst (allocateAndConstruct E (vc_elem V) GenericManager 1 (NoError, Obj (vc_default V))) of
        Cells (Obj x # _) \<Rightarrow> Some x
      | _ \<Rightarrow> None)"

text \<open>\<open>ToVersion<V, Vs...>\<close>: from the newest of the old versions to the oldest.\<close>

fun toVersion_convertOnHeap ::
    "env \<Rightarrow> u32 \<Rightarrow> 'o version_class list \<Rightarrow> 'o \<Rightarrow> sdata \<Rightarrow> status \<times> sdata" where
  "toVersion_convertOnHeap E targetVersion [] from ctx = (ErrorInternal, ctx)"
| "toVersion_convertOnHeap E targetVersion (V # Vs) from ctx =
     (case heap_object E V of
        None \<Rightarrow> (ErrorNoMemory, ctx)
      | Some x \<Rightarrow>
          let (st, x) = vc_init V x from
          in if \<not> statusSuccess st then (st, ctx)
             else if vc_privateVersion V > targetVersion then toVersion_convertOnHeap E targetVersion Vs x ctx
             else vc_serialize V x ctx)"

fun toVersion_convertOnStack :: "u32 \<Rightarrow> 'o version_class list \<Rightarrow> 'o \<Rightarrow> sdata \<Rightarrow> status \<times> sdata" where
  "toVersion_convertOnStack targetVersion [] from ctx = (ErrorInternal, ctx)"
| "toVersion_convertOnStack targetVersion (V # Vs) from ctx =
     (let (st, x) = vc_init V (vc_default V) from
      in if \<not> statusSuccess st then (st, ctx)
         else if vc_privateVersion V > targetVersion then toVersion_convertOnStack targetVersion Vs x ctx
         else vc_serialize V x ctx)"

definition toVersion_convert ::
    "env \<Rightarrow> 'o version_class list \<Rightarrow> u32 \<Rightarrow> 'o \<Rightarrow> sdata \<Rightarrow> status \<times> sdata" where
  "toVersion_convert E Vs targetVersion from ctx =
     (if m_forTempUseHeap ctx then toVersion_convertOnHeap E targetVersion Vs from ctx
      else toVersion_convertOnStack targetVersion Vs from ctx)"

text \<open>
  \<open>FromVersion<V, Vs...>\<close>: from the oldest version to the newest of the old ones. \<open>initable V\<close>
  is \<open>InitableBySpecialArgs<_To, V>\<close>, \<open>to_init\<close> the \<open>init\<close> of \<open>_To\<close>.
\<close>

fun convertToUpperVersionOnHeap ::
    "env \<Rightarrow> ('o version_class \<Rightarrow> bool) \<Rightarrow> ('o \<Rightarrow> 'o \<Rightarrow> status \<times> 'o) \<Rightarrow> 'o version_class
     \<Rightarrow> 'o version_class list \<Rightarrow> 'o \<Rightarrow> 'o \<Rightarrow> status \<times> 'o" where
  "convertToUpperVersionOnHeap E initable to_init V [] from to =
     (if initable V then to_init to from else (ErrorNoSuchHandler, to))"
| "convertToUpperVersionOnHeap E initable to_init V (B # Bs) from to =
     (if vc_privateVersion B \<noteq> kInterfaceVersionUndefined
      then
        case heap_object E B of
          None \<Rightarrow> (ErrorNoMemory, to)
        | Some x \<Rightarrow>
            if initable B
            then (let (st, x) = vc_init B x from
                  in if \<not> statusSuccess st then (st, to)
                     else convertToUpperVersionOnHeap E initable to_init B Bs x to)
            else (ErrorNoSuchHandler, to)
      else if initable V then to_init to from else (ErrorNoSuchHandler, to))"

fun convertToUpperVersionOnStack ::
    "('o version_class \<Rightarrow> bool) \<Rightarrow> ('o \<Rightarrow> 'o \<Rightarrow> status \<times> 'o) \<Rightarrow> 'o version_class
     \<Rightarrow> 'o version_class list \<Rightarrow> 'o \<Rightarrow> 'o \<Rightarrow> status \<times> 'o" where
  "convertToUpperVersionOnStack initable to_init V [] from to =
     (if initable V then to_init to from else (ErrorNoSuchHandler, to))"
| "convertToUpperVersionOnStack initable to_init V (B # Bs) from to =
     (if vc_privateVersion B \<noteq> kInterfaceVersionUndefined
      then
        if initable B
        then (let (st, x) = vc_init B (vc_default B) from
              in if \<not> statusSuccess st then (st, to)
                 else convertToUpperVersionOnStack initable to_init B Bs x to)
        else (ErrorNoSuchHandler, to)
      else if initable V then to_init to from else (ErrorNoSuchHandler, to))"

definition base_privateVersion :: "'o version_class list \<Rightarrow> u32" where
  "base_privateVersion Vs = (case Vs of [] \<Rightarrow> kInterfaceVersionUndefined | B # _ \<Rightarrow> vc_privateVersion B)"

fun fromVersion_convert ::
    "env \<Rightarrow> ('o version_class \<Rightarrow> bool) \<Rightarrow> ('o \<Rightarrow> 'o \<Rightarrow> status \<times> 'o) \<Rightarrow> u32 \<Rightarrow> 'o version_class list
     \<Rightarrow> ddata \<Rightarrow> 'o \<Rightarrow> status \<times> ddata \<times> 'o" where
  "fromVersion_convert E initable to_init targetVersion [] ctx to = (ErrorInternal, ctx, to)"
| "fromVersion_convert E initable to_init targetVersion (V # Vs) ctx to =
     (if base_privateVersion Vs \<le> targetVersion
      then fromVersion_convert E initable to_init targetVersion Vs ctx to
      else if m_forTempUseHeap ctx
      then (case heap_object E V of
              None \<Rightarrow> (ErrorNoMemory, ctx, to)
            | Some x \<Rightarrow>
                run_out (vc_deserialize V ctx x) (\<lambda>_. to) (\<lambda>ctx x.
                  let (st, to) = convertToUpperVersionOnHeap E initable to_init V Vs x to in (st, ctx, to)))
      else
        run_out (vc_deserialize V ctx (vc_default V)) (\<lambda>_. to) (\<lambda>ctx x.
          let (st, to) = convertToUpperVersionOnStack initable to_init V Vs x to in (st, ctx, to)))"

section \<open>Structs in a body\<close>

text \<open>The macros, followed by the code after them, \<open>rest\<close>.\<close>

definition csp_serialize_common ::
    "env \<Rightarrow> 'a ctype \<Rightarrow> ('a \<Rightarrow> u32 \<Rightarrow> sdata \<Rightarrow> status \<times> sdata) \<Rightarrow> 'a \<Rightarrow> (sdata \<Rightarrow> status \<times> sdata)
     \<Rightarrow> sdata \<Rightarrow> status \<times> sdata" where
  "csp_serialize_common E T toOld value rest ctx =
     (if t_info T \<noteq> None \<and> m_interfaceVersionsNotMatch ctx
      then (let (st, ctx) = toOldStructIfNeed (t_info T) toOld value ctx
            in if st = NoFurtherProcessingRequired then (NoError, ctx)
               else if \<not> statusSuccess st then (st, ctx)
               else run (testDataFlagsCompatibility (t_info T) (m_dataFlags ctx), ctx) (\<lambda>ctx.
                      serialize_any_simply_assignable E T value rest ctx))
      else serialize_any_simply_assignable E T value rest ctx)"

definition csp_deserialize_common ::
    "env \<Rightarrow> 'a ctype \<Rightarrow> (ddata \<Rightarrow> u32 \<Rightarrow> 'a \<Rightarrow> status \<times> ddata \<times> 'a) \<Rightarrow> (ddata \<Rightarrow> 'a \<Rightarrow> status \<times> ddata \<times> 'a)
     \<Rightarrow> ddata \<Rightarrow> 'a \<Rightarrow> status \<times> ddata \<times> 'a" where
  "csp_deserialize_common E T fromOld rest ctx value =
     (if t_info T \<noteq> None \<and> m_interfaceVersionsNotMatch ctx
      then (let (st, ctx, value) = fromOldStructIfNeed (t_info T) fromOld ctx value
            in if st = NoFurtherProcessingRequired then (NoError, ctx, value)
               else if \<not> statusSuccess st then (st, ctx, value)
               else run_out (testDataFlagsCompatibility (t_info T) (m_dataFlags ctx), ctx, value) id
                      (deserialize_any_simply_assignable E T rest))
      else deserialize_any_simply_assignable E T rest ctx value)"

text \<open>\<open>serialize(value, ctx)\<close> for a simply assignable type without a function of its own.\<close>

definition serialize_simple :: "env \<Rightarrow> 'a ctype \<Rightarrow> 'a \<Rightarrow> sdata \<Rightarrow> status \<times> sdata" where
  "serialize_simple E T value ctx = serializeSimplyAssignable E T value ctx"

definition deserialize_simple :: "env \<Rightarrow> 'a ctype \<Rightarrow> ddata \<Rightarrow> 'a \<Rightarrow> status \<times> ddata \<times> 'a" where
  "deserialize_simple E T ctx value = deserializeSimplyAssignable E T ctx value"

section \<open>Data messages\<close>

text \<open>
  \<open>ISerializable::serialize\<close> and \<open>deserialize\<close>; \<open>body\<close> is what \<open>BodyProcessor\<close> does with the
  struct. A context that checks recursive pointers without a map gets a temporary one.
\<close>

definition iserializable_serialize ::
    "env \<Rightarrow> struct_info \<Rightarrow> (sdata \<Rightarrow> status \<times> sdata) \<Rightarrow> sdata \<Rightarrow> status \<times> sdata" where
  "iserializable_serialize E T body ctx =
     (let ctx = (if m_interfaceVersion ctx = kInterfaceVersionUndefined
                 then setInterfaceVersion ctx (getLatestInterfaceVersion T) else ctx)
      in run (common_serialize E ctx) (\<lambda>ctx.
         run (data_serialize E T ctx) (\<lambda>ctx.
           if m_checkRecursivePointers ctx \<and> m_pPointersMap ctx = None
           then (let (st, ctx) = body (setPointersMap ctx (Some (\<lambda>_. None)))
                 in (st, setPointersMap ctx None))
           else body ctx)))"

definition iserializable_deserialize ::
    "env \<Rightarrow> struct_info \<Rightarrow> (ddata \<Rightarrow> 'a \<Rightarrow> status \<times> ddata \<times> 'a) \<Rightarrow> ddata \<Rightarrow> 'a \<Rightarrow> status \<times> ddata \<times> 'a" where
  "iserializable_deserialize E T body ctx value =
     (let (st, ctx) = common_deserialize E ctx
      in if \<not> statusSuccess st then (st, ctx, value)
         else
           let minimumInterfaceVersion = (if m_interfaceVersion ctx = kInterfaceVersionUndefined
                                          then getOriginPrivateVersion T else m_interfaceVersion ctx)
           in run_out (data_deserializeNoChecks E ctx kNullUuid) (\<lambda>_. value) (\<lambda>ctx uid.
              run_out (data_deserializePostprocessId T uid, ctx, value) id (\<lambda>ctx value.
              let (st, ctx) = data_deserializePostprocessRest T ctx minimumInterfaceVersion
              in if \<not> statusSuccess st then (st, ctx, value)
                 else if m_checkRecursivePointers ctx \<and> m_pPointersMap ctx = None
                 then (let (st, ctx, value) = body (setPointersMap ctx (Some (\<lambda>_. None))) value
                       in (st, setPointersMap ctx None, value))
                 else body ctx value)))"

text \<open>The shortcuts over a container.\<close>

definition iserializable_serialize_to ::
    "env \<Rightarrow> struct_info \<Rightarrow> (sdata \<Rightarrow> status \<times> sdata) \<Rightarrow> byte vec \<Rightarrow> status \<times> byte vec" where
  "iserializable_serialize_to E T body output =
     (let ctx = sdata_new E output getLatestProtocolVersion (cf_default False (big_endian E)) df_default True
                  (getLatestInterfaceVersion T) None;
          (st, ctx) = iserializable_serialize E T body ctx
      in (st, m_binaryData ctx))"

definition iserializable_deserialize_from ::
    "env \<Rightarrow> struct_info \<Rightarrow> (ddata \<Rightarrow> 'a \<Rightarrow> status \<times> ddata \<times> 'a) \<Rightarrow> byte walker \<Rightarrow> 'a
     \<Rightarrow> status \<times> byte walker \<times> 'a" where
  "iserializable_deserialize_from E T body input value =
     (let ctx = ddata_new E input getLatestProtocolVersion (cf_default False (big_endian E)) df_default True
                  (getOriginPrivateVersion T) None None;
          (st, ctx, value) = iserializable_deserialize E T body ctx value
      in (st, m_binaryData ctx, value))"

section \<open>Claims\<close>

lemma find_greatest:
  fixes vs :: "u32 list"
  assumes "sorted_wrt (>) vs"
  shows "find (\<lambda>v. v \<le> n) vs = (if \<exists>v \<in> set vs. v \<le> n then Some (Max {v \<in> set vs. v \<le> n}) else None)"
  using assms
proof (induction vs)
  case Nil
  then show ?case by simp
next
  case (Cons v vs)
  show ?case
  proof (cases "v \<le> n")
    case True
    then have "Max {x \<in> set (v # vs). x \<le> n} = v"
      using Cons.prems by (intro Max_eqI) (auto intro: less_imp_le)
    then show ?thesis using True by auto
  next
    case False
    then have "{x \<in> set (v # vs). x \<le> n} = {x \<in> set vs. x \<le> n}" by auto
    then show ?thesis using Cons False by simp
  qed
qed

text \<open>
  C21: \<open>getBestCompatInterfaceVersion\<close> picks, from the private versions a struct declares from
  the highest to the lowest, the greatest that the compatible interface version allows, and
  \<open>kInterfaceVersionUndefined\<close> when the interface version is older than all of them.
\<close>
theorem best_version_is_greatest:
  assumes "sorted_wrt (>) (s_kPrivateVersions T)" "length (s_kPrivateVersions T) < 2 ^ 32"
  shows "getBestCompatInterfaceVersion T n =
     (if \<exists>v \<in> set (s_kPrivateVersions T). v \<le> n then Max {v \<in> set (s_kPrivateVersions T). v \<le> n}
      else kInterfaceVersionUndefined)"
  using find_greatest [OF assms(1), of n] assms(2)
  by (simp add: getBestCompatInterfaceVersion_def getPrivateVersionsCount_def unat_of_nat_small)

definition sample_info :: struct_info where
  "sample_info = \<lparr>s_kId = kNullUuid, s_interface = kUndefinedInterface, s_kInterfaceVersion = 7,
     s_kPrivateVersions = [5, 3, 1], s_kAddtionalMandatoryDataFlags = df_default,
     s_kAddtionalForbiddenDataFlags = df_default\<rparr>"

theorem best_version_is_greatest_witness:
  "getBestCompatInterfaceVersion sample_info 4 = Max {v \<in> {5, 3, 1}. v \<le> 4}"
  using best_version_is_greatest [of sample_info 4] by (simp add: sample_info_def)

lemma toVersion_onStack_chain:
  "\<lbrakk>\<forall>U \<in> set Us. target < vc_privateVersion U; \<not> target < vc_privateVersion V;
    \<forall>U \<in> set (Us @ [V]). \<forall>x. vc_init U (vc_default U) x = (NoError, up U x)\<rbrakk> \<Longrightarrow>
   toVersion_convertOnStack target (Us @ V # Ws) x ctx = vc_serialize V (fold up (Us @ [V]) x) ctx"
  by (induction Us arbitrary: x) simp_all

lemma toVersion_onHeap_chain:
  "\<lbrakk>\<forall>U \<in> set Us. target < vc_privateVersion U; \<not> target < vc_privateVersion V;
    \<forall>U \<in> set (Us @ [V]). heap_object E U = Some (vc_default U);
    \<forall>U \<in> set (Us @ [V]). \<forall>x. vc_init U (vc_default U) x = (NoError, up U x)\<rbrakk> \<Longrightarrow>
   toVersion_convertOnHeap E target (Us @ V # Ws) x ctx = vc_serialize V (fold up (Us @ [V]) x) ctx"
  by (induction Us arbitrary: x) simp_all

text \<open>
  C20: serializing for an older peer: \<open>ToVersion::convert\<close> initializes the old versions of the
  struct one from the other, from the newest down, stops at the first whose private version
  does not exceed the target, and serializes exactly that object; the temporaries are on the
  heap or on the stack as the context says, and the result is the same.
\<close>
theorem toVersion_serializes_target:
  assumes "\<forall>U \<in> set Us. target < vc_privateVersion U" "vc_privateVersion V \<le> target"
    and "\<forall>U \<in> set (Us @ [V]). heap_object E U = Some (vc_default U)"
    and "\<forall>U \<in> set (Us @ [V]). \<forall>x. vc_init U (vc_default U) x = (NoError, up U x)"
  shows "toVersion_convert E (Us @ V # Ws) target x ctx = vc_serialize V (fold up (Us @ [V]) x) ctx"
  using assms(2) toVersion_onStack_chain [OF assms(1) _ assms(4)] toVersion_onHeap_chain [OF assms(1) _ assms(3,4)]
  by (simp add: toVersion_convert_def not_less)

definition sample_version :: "u32 \<Rightarrow> (nat \<Rightarrow> nat) \<Rightarrow> nat version_class" where
  "sample_version pv f = \<lparr>vc_privateVersion = pv, vc_elem = ctor_elem 8 id, vc_default = 0,
     vc_init = (\<lambda>_ x. (NoError, f x)), vc_serialize = (\<lambda>x c. writePrimitive \<lparr>big_endian = False, malloc_ok = \<lambda>_. True\<rparr> (of_nat x :: u32) c),
     vc_deserialize = (\<lambda>c x. (NoError, c, x))\<rparr>"

lemma sample_heap_object: "malloc_ok E 8 \<Longrightarrow> heap_object E (sample_version pv f) = Some 0"
  by (simp add: heap_object_def sample_version_def ctor_elem_def allocateAndConstruct_def generic_allocate_def
      noexcept_allocate_def heap_allocate_def constructN_def write_cells_def)

theorem toVersion_serializes_target_witness:
  "\<forall>ctx. toVersion_convert sample_env [sample_version 5 Suc, sample_version 3 ((*) 10), sample_version 1 id] 4 2 ctx
     = vc_serialize (sample_version 3 ((*) 10)) 30 ctx"
proof
  fix ctx
  show "toVersion_convert sample_env [sample_version 5 Suc, sample_version 3 ((*) 10), sample_version 1 id] 4 2 ctx
     = vc_serialize (sample_version 3 ((*) 10)) 30 ctx"
    using toVersion_serializes_target [of "[sample_version 5 Suc]" 4 "sample_version 3 ((*) 10)"
      sample_env "\<lambda>U x. snd (vc_init U 0 x)" "[sample_version 1 id]" 2 ctx]
    by (simp add: sample_heap_object) (simp add: sample_version_def)
qed

lemma fromVersion_skips_older:
  assumes "sorted_wrt (<) (map vc_privateVersion (Us @ V # Vs))"
  shows "fromVersion_convert E initable to_init (vc_privateVersion V) (Us @ V # Vs) ctx to
     = fromVersion_convert E initable to_init (vc_privateVersion V) (V # Vs) ctx to"
  using assms
proof (induction Us)
  case Nil
  then show ?case by simp
next
  case (Cons U Us)
  then have "base_privateVersion (Us @ V # Vs) \<le> vc_privateVersion V"
    by (cases Us) (auto simp: base_privateVersion_def less_imp_le)
  with Cons show ?case by simp
qed

lemma fromVersion_reads_own_version:
  assumes "\<not> base_privateVersion Vs \<le> vc_privateVersion V" "heap_object E V = Some (vc_default V)"
    and "vc_deserialize V ctx (vc_default V) = (NoError, ctx', x)"
  shows "fromVersion_convert E initable to_init (vc_privateVersion V) (V # Vs) ctx to
     = (let (st, z) = (if m_forTempUseHeap ctx then convertToUpperVersionOnHeap E initable to_init V Vs x to
                       else convertToUpperVersionOnStack initable to_init V Vs x to) in (st, ctx', z))"
  using assms by (auto simp: run_out_def)

lemma convertToUpper_refuses:
  assumes "\<not> initable B" "vc_privateVersion B \<noteq> kInterfaceVersionUndefined" "heap_object E B = Some (vc_default B)"
  shows "convertToUpperVersionOnHeap E initable to_init V (B # Bs) x to = (ErrorNoSuchHandler, to)"
    and "convertToUpperVersionOnStack initable to_init V (B # Bs) x to = (ErrorNoSuchHandler, to)"
  using assms by simp_all

text \<open>The chain of old versions of a struct: ascending private versions, none of them undefined.\<close>

definition version_chain :: "env \<Rightarrow> 'o version_class list \<Rightarrow> bool" where
  "version_chain E Vs \<longleftrightarrow> sorted_wrt (<) (map vc_privateVersion Vs)
     \<and> (\<forall>V \<in> set Vs. vc_privateVersion V \<noteq> kInterfaceVersionUndefined \<and> heap_object E V = Some (vc_default V))"

lemma version_chain_reads:
  assumes "version_chain E (Us @ V # Vs)" "vc_deserialize V ctx (vc_default V) = (NoError, ctx', x)"
  shows "fromVersion_convert E initable to_init (vc_privateVersion V) (Us @ V # Vs) ctx to
     = (let (st, z) = (if m_forTempUseHeap ctx then convertToUpperVersionOnHeap E initable to_init V Vs x to
                       else convertToUpperVersionOnStack initable to_init V Vs x to) in (st, ctx', z))"
proof -
  have "kInterfaceVersionUndefined = (- 1 :: u32)" by (simp add: kInterfaceVersionUndefined_def)
  then have "vc_privateVersion V < kInterfaceVersionUndefined"
    using assms(1) word_n1_ge [of "vc_privateVersion V"] by (simp add: version_chain_def less_le)
  then have "\<not> base_privateVersion Vs \<le> vc_privateVersion V"
    using assms(1) by (cases Vs) (auto simp: base_privateVersion_def version_chain_def sorted_wrt_append)
  then show ?thesis
    using assms fromVersion_skips_older [of Us V Vs] fromVersion_reads_own_version [of Vs V E ctx ctx' x]
    by (simp add: version_chain_def del: fromVersion_convert.simps)
qed

text \<open>
  C33: reading what an older peer sent. A struct has the old versions \<open>As @ [B, C]\<close>, any number
  of them, and can itself be initialized from \<open>C\<close> only, as each version can from the one before
  it. A body in version \<open>C\<close> initializes the struct, a body in version \<open>B\<close> initializes a \<open>C\<close> and
  from it the struct; but a body in any version before these is read to its end and then refused
  with \<open>ErrorNoSuchHandler\<close>, the struct untouched, whatever the \<open>init\<close> functions of the versions
  could do: \<open>convertToUpperVersion\<close> asks whether the current struct, and not the next version,
  can be initialized. This holds for temporaries on the stack and on the heap, where the
  allocations are assumed to succeed and the body to deserialize.
\<close>
theorem fromVersion_stops_after_two:
  assumes chain: "version_chain E (As @ [B, C])"
    and init: "initable C" "\<forall>U \<in> set (As @ [B]). \<not> initable U"
    and V: "V \<in> set (As @ [B, C])" "vc_deserialize V ctx (vc_default V) = (NoError, ctx', x)"
  shows "(V \<in> set As \<longrightarrow> fromVersion_convert E initable to_init (vc_privateVersion V) (As @ [B, C]) ctx to
             = (ErrorNoSuchHandler, ctx', to))
     \<and> (V = B \<longrightarrow> vc_init C (vc_default C) x = (NoError, y) \<longrightarrow>
          fromVersion_convert E initable to_init (vc_privateVersion V) (As @ [B, C]) ctx to
             = (fst (to_init to y), ctx', snd (to_init to y)))
     \<and> (V = C \<longrightarrow> fromVersion_convert E initable to_init (vc_privateVersion V) (As @ [B, C]) ctx to
             = (fst (to_init to x), ctx', snd (to_init to x)))"
proof (intro conjI impI)
  assume "V \<in> set As"
  then obtain Us Ws where As: "As = Us @ V # Ws" by (auto simp: in_set_conv_decomp)
  obtain U Us' where U: "Ws @ [B, C] = U # Us'" "U \<in> set (Ws @ [B])" by (cases Ws) auto
  then have "\<not> initable U" "vc_privateVersion U \<noteq> kInterfaceVersionUndefined" "heap_object E U = Some (vc_default U)"
    using init(2) chain As by (auto simp: version_chain_def)
  then show "fromVersion_convert E initable to_init (vc_privateVersion V) (As @ [B, C]) ctx to
      = (ErrorNoSuchHandler, ctx', to)"
    using version_chain_reads [of E Us V "U # Us'"] chain V(2) As U(1)
    by (simp add: convertToUpper_refuses del: fromVersion_convert.simps)
next
  assume "V = B" "vc_init C (vc_default C) x = (NoError, y)"
  then show "fromVersion_convert E initable to_init (vc_privateVersion V) (As @ [B, C]) ctx to
      = (fst (to_init to y), ctx', snd (to_init to y))"
    using version_chain_reads [of E As B "[C]"] chain V(2) init(1)
    by (simp add: version_chain_def split_beta del: fromVersion_convert.simps)
next
  assume "V = C"
  then show "fromVersion_convert E initable to_init (vc_privateVersion V) (As @ [B, C]) ctx to
      = (fst (to_init to x), ctx', snd (to_init to x))"
    using version_chain_reads [of E "As @ [B]" C "[]"] chain V(2) init(1)
    by (simp add: split_beta del: fromVersion_convert.simps)
qed

text \<open>Four old versions; the struct is initializable from version 7 only, each step adds its digit.\<close>

definition sample_chain :: "nat version_class list" where
  "sample_chain = [sample_version 1 id, sample_version 3 (\<lambda>x. 10 * x + 3), sample_version 5 (\<lambda>x. 10 * x + 5),
     sample_version 7 (\<lambda>x. 10 * x + 7)]"

definition sample_read :: "u32 \<Rightarrow> ddata \<Rightarrow> status \<times> ddata \<times> nat" where
  "sample_read v ctx = fromVersion_convert sample_env (\<lambda>V. vc_privateVersion V = 7) (\<lambda>_ x. (NoError, 10 * x + 9))
     v sample_chain ctx 6"

theorem fromVersion_stops_after_two_witness:
  "\<forall>ctx. sample_read 1 ctx = (ErrorNoSuchHandler, ctx, 6) \<and> sample_read 3 ctx = (ErrorNoSuchHandler, ctx, 6)
   \<and> sample_read 5 ctx = (NoError, ctx, 79) \<and> sample_read 7 ctx = (NoError, ctx, 9)"
proof
  fix ctx :: ddata
  let ?V = "\<lambda>v f. sample_version v f" and ?i = "\<lambda>V :: nat version_class. vc_privateVersion V = 7"
  let ?A = "[?V 1 id, ?V 3 (\<lambda>x. 10 * x + 3)]" and ?B = "?V 5 (\<lambda>x. 10 * x + 5)" and ?C = "?V 7 (\<lambda>x. 10 * x + 7)"
  have chain: "version_chain sample_env (?A @ [?B, ?C])"
    by (simp add: version_chain_def sample_heap_object)
      (simp add: sample_version_def kInterfaceVersionUndefined_def)
  have init: "?i ?C" "\<forall>U \<in> set (?A @ [?B]). \<not> ?i U" by (simp_all add: sample_version_def)
  note use = fromVersion_stops_after_two [OF chain, where initable = ?i, OF init,
      where x = 0 and y = 7 and to = 6 and to_init = "\<lambda>_ x. (NoError, 10 * x + 9)" and ctx = ctx and ctx' = ctx]
  show "sample_read 1 ctx = (ErrorNoSuchHandler, ctx, 6) \<and> sample_read 3 ctx = (ErrorNoSuchHandler, ctx, 6)
   \<and> sample_read 5 ctx = (NoError, ctx, 79) \<and> sample_read 7 ctx = (NoError, ctx, 9)"
    using use [of "?V 1 id"] use [of "?V 3 (\<lambda>x. 10 * x + 3)"] use [of ?B] use [of ?C]
    by (simp add: sample_read_def sample_chain_def sample_version_def del: fromVersion_convert.simps)
qed

end
