(* ===== verification/ServiceStructs.thy ===== *)
theory ServiceStructs
  imports Serializable
begin

text \<open>
  \<open>csp_messaging/service_structs\<close>: the structs of the interface that every party serves, and
  how \<open>BodyProcessor\<close> handles them. \<open>be\<close> is the byte order of the platform, on which the
  value of an id depends.
\<close>

section \<open>The interface\<close>

definition service_properties :: "bool \<Rightarrow> interface" where
  "service_properties be =
     Interface (uuid_of_parts be 0xe47be322 0x232e 0x4d66 0x9175 0x06eed2110b4b) 1
       (DataFlags 0)
       (df_of (kSizeOfIntegersMayBeNotEqual OR kAllowUnmanagedPointers OR kCheckRecursivePointers))"

definition service_info :: "bool \<Rightarrow> uuid \<Rightarrow> struct_info" where
  "service_info be kId =
     \<lparr>s_kId = kId, s_interface = service_properties be, s_kInterfaceVersion = 1,
      s_kPrivateVersions = [1], s_kAddtionalMandatoryDataFlags = df_default,
      s_kAddtionalForbiddenDataFlags = df_default\<rparr>"

definition ISerializableDummy_info :: "bool \<Rightarrow> struct_info" where
  "ISerializableDummy_info be = service_info be (uuid_of_parts be 0x60b0dd3e 0x7d2e 0x42d9 0xb00d 0x90f7ecd19d25)"

definition GetInterface_info :: "bool \<Rightarrow> struct_info" where
  "GetInterface_info be = service_info be (uuid_of_parts be 0x08c68657 0x4fa7 0x4419 0x8c13 0x66aec2b06cb0)"

definition OutGetInterface_info :: "bool \<Rightarrow> struct_info" where
  "OutGetInterface_info be = service_info be (uuid_of_parts be 0x22bd67db 0x65a0 0x42f4 0xb28b 0x63c6181aebe1)"

definition InterfaceVersion_info :: "bool \<Rightarrow> struct_info" where
  "InterfaceVersion_info be = service_info be (uuid_of_parts be 0xdf1cb40c 0x9a72 0x426b 0xa801 0xb0993fe76a46)"

definition CspPartySettings_info :: "bool \<Rightarrow> struct_info" where
  "CspPartySettings_info be = service_info be (uuid_of_parts be 0xbf8c27e8 0xfe6a 0x4492 0x91cb 0xe4cf411e1236)"

section \<open>Structs\<close>

datatype get_interface = GetInterface (gi_id: uuid)

datatype out_get_interface = OutGetInterface (ogi_properties: interface)

datatype interface_version = InterfaceVersion (iv_id: uuid) (iv_version: u32)

definition interface_version_of :: "interface \<Rightarrow> interface_version" where
  "interface_version_of i = InterfaceVersion (i_id i) (i_version i)"

definition iv_less :: "bool \<Rightarrow> interface_version \<Rightarrow> interface_version \<Rightarrow> bool" where
  "iv_less be a rhs = (uuid_less be (iv_id a) (iv_id rhs) \<or> iv_version a < iv_version rhs)"

definition iv_eq :: "interface_version \<Rightarrow> interface_version \<Rightarrow> bool" where
  "iv_eq a rhs = (uuid_eq (iv_id a) (iv_id rhs) \<and> iv_version a = iv_version rhs)"

record csp_party_settings =
  m_protocolVersions :: "byte vec"
  m_mandatoryCommonFlags :: common_flags
  m_forbiddenCommonFlags :: common_flags
  m_interfaces :: "interface_version vec"

definition iv_elem :: "interface_version elem" where
  "iv_elem = raw_elem 20"

definition settings_new :: "bool \<Rightarrow> csp_party_settings" where
  "settings_new be = \<lparr>m_protocolVersions = empty_vec (StrategicManager DoubleOfDataSize),
     m_mandatoryCommonFlags = cf_default False be, m_forbiddenCommonFlags = cf_default False be,
     m_interfaces = empty_vec (StrategicManager DoubleOfDataSize)\<rparr>"

text \<open>
  \<open>init\<close>; \<open>same\<close> tells whether \<open>rhs\<close> is the object itself. The constructors and the
  assignments call it and ignore its status.
\<close>

definition settings_init_parts ::
    "env \<Rightarrow> csp_party_settings \<Rightarrow> byte vec \<Rightarrow> common_flags \<Rightarrow> common_flags \<Rightarrow> interface_version vec
     \<Rightarrow> status \<times> csp_party_settings" where
  "settings_init_parts E s protocolVersions mandatoryCommonFlags forbiddenCommonFlags interfaces =
     (let (st, v) = vec_init_copy E octet False (m_protocolVersions s) protocolVersions;
          s = s\<lparr>m_protocolVersions := v\<rparr>
      in if \<not> statusSuccess st then (st, s)
         else
           let s = s\<lparr>m_mandatoryCommonFlags := mandatoryCommonFlags,
                     m_forbiddenCommonFlags := forbiddenCommonFlags\<rparr>;
               (st, v) = vec_init_copy E iv_elem False (m_interfaces s) interfaces
           in (st, s\<lparr>m_interfaces := v\<rparr>))"

definition settings_init_copy ::
    "env \<Rightarrow> bool \<Rightarrow> csp_party_settings \<Rightarrow> csp_party_settings \<Rightarrow> status \<times> csp_party_settings" where
  "settings_init_copy E same s rhs =
     (if same then (NoError, s)
      else settings_init_parts E s (m_protocolVersions rhs) (m_mandatoryCommonFlags rhs)
             (m_forbiddenCommonFlags rhs) (m_interfaces rhs))"

definition settings_init_move ::
    "bool \<Rightarrow> csp_party_settings \<Rightarrow> csp_party_settings \<Rightarrow> status \<times> csp_party_settings \<times> csp_party_settings" where
  "settings_init_move same s rhs =
     (if same then (NoError, s, rhs)
      else
        let (st, v, r) = vec_init_move octet False (m_protocolVersions s) (m_protocolVersions rhs);
            s = s\<lparr>m_protocolVersions := v\<rparr>; rhs = rhs\<lparr>m_protocolVersions := r\<rparr>
        in if \<not> statusSuccess st then (st, s, rhs)
           else
             let s = s\<lparr>m_mandatoryCommonFlags := m_mandatoryCommonFlags rhs,
                       m_forbiddenCommonFlags := m_forbiddenCommonFlags rhs\<rparr>;
                 (st, v, r) = vec_init_move iv_elem False (m_interfaces s) (m_interfaces rhs)
             in (st, s\<lparr>m_interfaces := v\<rparr>, rhs\<lparr>m_interfaces := r\<rparr>))"

definition settings_eq :: "csp_party_settings \<Rightarrow> csp_party_settings \<Rightarrow> bool option" where
  "settings_eq s rhs =
     (case vec_eq (\<lambda>a b. a \<noteq> b) (m_protocolVersions s) (m_protocolVersions rhs) of
        None \<Rightarrow> None
      | Some b \<Rightarrow>
          if b \<and> cf_eq (m_mandatoryCommonFlags s) (m_mandatoryCommonFlags rhs)
             \<and> cf_eq (m_forbiddenCommonFlags s) (m_forbiddenCommonFlags rhs)
          then vec_eq (\<lambda>a b. \<not> iv_eq a b) (m_interfaces s) (m_interfaces rhs)
          else Some False)"

definition settings_isValid :: "csp_party_settings \<Rightarrow> bool" where
  "settings_isValid s =
     (vec_size (m_protocolVersions s) > 0
      \<and> \<not> cf_bool (cf_and (m_mandatoryCommonFlags s) (m_forbiddenCommonFlags s))
      \<and> vec_size (m_interfaces s) > 0)"

text \<open>The nested loops of \<open>getCompatibleSettings\<close>: the inner one stops at the first match.\<close>

fun push_common_versions :: "env \<Rightarrow> byte list \<Rightarrow> byte list \<Rightarrow> byte vec \<Rightarrow> status \<times> byte vec" where
  "push_common_versions E [] rhs v = (NoError, v)"
| "push_common_versions E (lhsVersion # lhs) rhs v =
     (case find (\<lambda>rhsVersion. lhsVersion = rhsVersion) rhs of
        None \<Rightarrow> push_common_versions E lhs rhs v
      | Some _ \<Rightarrow>
          let (st, v) = vec_pushBack E octet v lhsVersion
          in if \<not> statusSuccess st then (st, v) else push_common_versions E lhs rhs v)"

fun push_common_interfaces ::
    "env \<Rightarrow> interface_version list \<Rightarrow> interface_version list \<Rightarrow> interface_version vec
     \<Rightarrow> status \<times> interface_version vec" where
  "push_common_interfaces E [] rhs v = (NoError, v)"
| "push_common_interfaces E (lhsInterface # lhs) rhs v =
     (case find (\<lambda>rhsInterface. uuid_eq (iv_id lhsInterface) (iv_id rhsInterface)) rhs of
        None \<Rightarrow> push_common_interfaces E lhs rhs v
      | Some rhsInterface \<Rightarrow>
          let (st, v) = vec_pushBack E iv_elem v
                (InterfaceVersion (iv_id lhsInterface)
                   (if iv_version lhsInterface < iv_version rhsInterface
                    then iv_version lhsInterface else iv_version rhsInterface))
          in if \<not> statusSuccess st then (st, v) else push_common_interfaces E lhs rhs v)"

definition getCompatibleSettings ::
    "env \<Rightarrow> csp_party_settings \<Rightarrow> csp_party_settings \<Rightarrow> csp_party_settings \<Rightarrow> status \<times> csp_party_settings" where
  "getCompatibleSettings E s lhs rhs =
     (let (st, v) = push_common_versions E (vec_objects (m_protocolVersions lhs))
                      (vec_objects (m_protocolVersions rhs)) (m_protocolVersions s);
          s = s\<lparr>m_protocolVersions := v\<rparr>
      in if \<not> statusSuccess st then (st, s)
         else if vec_size (m_protocolVersions s) = 0 then (ErrorNotSupportedProtocolVersion, s)
         else
           let s = s\<lparr>m_mandatoryCommonFlags := cf_or (m_mandatoryCommonFlags lhs) (m_mandatoryCommonFlags rhs),
                     m_forbiddenCommonFlags := cf_or (m_forbiddenCommonFlags lhs) (m_forbiddenCommonFlags rhs)\<rparr>
           in if cf_bool (cf_and (m_mandatoryCommonFlags s) (m_forbiddenCommonFlags s))
              then (ErrorNotCompatibleCommonFlagsSettings, s)
              else
                let (st, v) = push_common_interfaces E (vec_objects (m_interfaces lhs))
                                (vec_objects (m_interfaces rhs)) (m_interfaces s);
                    s = s\<lparr>m_interfaces := v\<rparr>
                in if \<not> statusSuccess st then (st, s)
                   else if vec_size (m_interfaces s) = 0 then (ErrorNoSupportedInterfaces, s)
                   else (NoError, s))"

definition settings_clear :: "bool \<Rightarrow> csp_party_settings \<Rightarrow> csp_party_settings" where
  "settings_clear be s =
     s\<lparr>m_protocolVersions := vec_clear octet (m_protocolVersions s),
       m_mandatoryCommonFlags := cf_default False be, m_forbiddenCommonFlags := cf_default False be,
       m_interfaces := vec_clear iv_elem (m_interfaces s)\<rparr>"

definition settings_getLatestProtocolVersion :: "csp_party_settings \<Rightarrow> byte" where
  "settings_getLatestProtocolVersion s =
     (if vec_size (m_protocolVersions s) \<noteq> 0 then vec_objects (m_protocolVersions s) ! 0
      else kProtocolVersionUndefined)"

definition settings_getOldestProtocolVersion :: "csp_party_settings \<Rightarrow> byte" where
  "settings_getOldestProtocolVersion s =
     (if vec_size (m_protocolVersions s) \<noteq> 0
      then vec_objects (m_protocolVersions s) ! unat (vec_size (m_protocolVersions s) - 1)
      else kProtocolVersionUndefined)"

section \<open>Their bodies\<close>

text \<open>
  The types. Nothing asks for the octets of a \<open>CspPartySettings\<close>, which has no tag. An
  \<open>InterfaceVersion\<close> has no function of its own: it is copied or not serialized.
\<close>

definition GetInterface_type :: "bool \<Rightarrow> get_interface ctype" where
  "GetInterface_type be = \<lparr>t_sizeof = 16, t_integralOrEnum = False, t_floating = False, t_fixSized = False,
     t_signed = False, t_empty = False, tag_simplyAssignable = True, tag_alignedToOne = False,
     tag_fixedSize = False, tag_always = False, tag_endiannessTolerant = False,
     t_info = Some (GetInterface_info be), t_default = GetInterface kNullUuid,
     t_octets = (\<lambda>be v. uuid_bytes be (gi_id v)), t_of_octets = (\<lambda>be bs. GetInterface (uuid_of_bytes be bs))\<rparr>"

definition OutGetInterface_type :: "bool \<Rightarrow> out_get_interface ctype" where
  "OutGetInterface_type be = \<lparr>t_sizeof = 28, t_integralOrEnum = False, t_floating = False, t_fixSized = False,
     t_signed = False, t_empty = False, tag_simplyAssignable = True, tag_alignedToOne = False,
     tag_fixedSize = False, tag_always = False, tag_endiannessTolerant = False,
     t_info = Some (OutGetInterface_info be), t_default = OutGetInterface kUndefinedInterface,
     t_octets = (\<lambda>be v. interface_octets be (ogi_properties v)),
     t_of_octets = (\<lambda>be bs. OutGetInterface (interface_of_octets be bs))\<rparr>"

definition InterfaceVersion_type :: "bool \<Rightarrow> interface_version ctype" where
  "InterfaceVersion_type be = \<lparr>t_sizeof = 20, t_integralOrEnum = False, t_floating = False, t_fixSized = False,
     t_signed = False, t_empty = False, tag_simplyAssignable = False, tag_alignedToOne = True,
     tag_fixedSize = False, tag_always = False, tag_endiannessTolerant = False,
     t_info = Some (InterfaceVersion_info be), t_default = InterfaceVersion kNullUuid kInterfaceVersionUndefined,
     t_octets = (\<lambda>be v. uuid_bytes be (iv_id v) @ obj_bytes be (iv_version v)),
     t_of_octets = (\<lambda>be bs. InterfaceVersion (uuid_of_bytes be (take 16 bs)) (obj_value be (drop 16 bs)))\<rparr>"

definition CspPartySettings_type :: "bool \<Rightarrow> csp_party_settings ctype" where
  "CspPartySettings_type be = \<lparr>t_sizeof = 72, t_integralOrEnum = False, t_floating = False, t_fixSized = False,
     t_signed = False, t_empty = False, tag_simplyAssignable = False, tag_alignedToOne = False,
     tag_fixedSize = False, tag_always = False, tag_endiannessTolerant = False,
     t_info = Some (CspPartySettings_info be), t_default = settings_new be,
     t_octets = (\<lambda>_ _. []), t_of_octets = (\<lambda>_ _. settings_new be)\<rparr>"

definition serialize_GetInterface :: "env \<Rightarrow> get_interface \<Rightarrow> sdata \<Rightarrow> status \<times> sdata" where
  "serialize_GetInterface E value =
     csp_serialize_common E (GetInterface_type (big_endian E)) toOldStruct value (\<lambda>ctx.
       run (serialize_id E (gi_id value) ctx) (\<lambda>ctx. (NoError, ctx)))"

definition deserialize_GetInterface :: "env \<Rightarrow> ddata \<Rightarrow> get_interface \<Rightarrow> status \<times> ddata \<times> get_interface" where
  "deserialize_GetInterface E =
     csp_deserialize_common E (GetInterface_type (big_endian E)) fromOldStruct (\<lambda>ctx value.
       run_out (deserialize_id E ctx (gi_id value)) GetInterface (\<lambda>ctx x. (NoError, ctx, GetInterface x)))"

definition serialize_OutGetInterface :: "env \<Rightarrow> out_get_interface \<Rightarrow> sdata \<Rightarrow> status \<times> sdata" where
  "serialize_OutGetInterface E value =
     csp_serialize_common E (OutGetInterface_type (big_endian E)) toOldStruct value (\<lambda>ctx.
       run (serialize_interface E (ogi_properties value) ctx) (\<lambda>ctx. (NoError, ctx)))"

definition deserialize_OutGetInterface ::
    "env \<Rightarrow> ddata \<Rightarrow> out_get_interface \<Rightarrow> status \<times> ddata \<times> out_get_interface" where
  "deserialize_OutGetInterface E =
     csp_deserialize_common E (OutGetInterface_type (big_endian E)) fromOldStruct (\<lambda>ctx value.
       run_out (deserialize_interface E ctx (ogi_properties value)) OutGetInterface (\<lambda>ctx x.
         (NoError, ctx, OutGetInterface x)))"

text \<open>
  The number of protocol versions is an octet. \<open>p\<close> and \<open>q\<close> give the addresses of the
  elements of the two vectors; \<open>setSize\<close> is called without a look at its status.
\<close>

definition serialize_byte_array :: "env \<Rightarrow> (nat \<Rightarrow> nat) \<Rightarrow> byte list \<Rightarrow> sdata \<Rightarrow> status \<times> sdata" where
  "serialize_byte_array E addr = serialize_array E (integer_type False) (serialize_scalar E False False) addr"

definition deserialize_byte_array ::
    "env \<Rightarrow> (nat \<Rightarrow> nat) \<Rightarrow> ddata \<Rightarrow> u64 \<Rightarrow> byte storage \<Rightarrow> status \<times> ddata \<times> byte storage" where
  "deserialize_byte_array E addr =
     deserialize_array E (integer_type False) (deserialize_scalar E False False False) (deserializeFromAnotherSize E False) addr"

definition serialize_interfaces ::
    "env \<Rightarrow> (nat \<Rightarrow> nat) \<Rightarrow> interface_version vec \<Rightarrow> sdata \<Rightarrow> status \<times> sdata" where
  "serialize_interfaces E addr =
     serialize_vector E (InterfaceVersion_type (big_endian E)) (serialize_simple E (InterfaceVersion_type (big_endian E))) addr"

definition deserialize_interfaces ::
    "env \<Rightarrow> (nat \<Rightarrow> nat) \<Rightarrow> ddata \<Rightarrow> interface_version vec \<Rightarrow> status \<times> ddata \<times> interface_version vec" where
  "deserialize_interfaces E addr =
     deserialize_vector E iv_elem (InterfaceVersion_type (big_endian E))
       (deserialize_simple E (InterfaceVersion_type (big_endian E)))
       (\<lambda>_ ctx x. (ErrorInternal, ctx, x)) addr"

definition serialize_CspPartySettings ::
    "env \<Rightarrow> (nat \<Rightarrow> nat) \<Rightarrow> (nat \<Rightarrow> nat) \<Rightarrow> csp_party_settings \<Rightarrow> sdata \<Rightarrow> status \<times> sdata" where
  "serialize_CspPartySettings E p q value =
     csp_serialize_common E (CspPartySettings_type (big_endian E)) toOldStruct value (\<lambda>ctx.
       let size = ucast (vec_size (m_protocolVersions value)) :: byte
       in run (serialize_scalar E False False size ctx) (\<lambda>ctx.
          run (serialize_byte_array E p (take (unat size) (vec_objects (m_protocolVersions value))) ctx) (\<lambda>ctx.
          run (serialize_scalar E False False (cf_word (m_mandatoryCommonFlags value)) ctx) (\<lambda>ctx.
          run (serialize_scalar E False False (cf_word (m_forbiddenCommonFlags value)) ctx) (\<lambda>ctx.
          run (serialize_interfaces E q (m_interfaces value) ctx) (\<lambda>ctx. (NoError, ctx)))))))"

definition deserialize_CspPartySettings ::
    "env \<Rightarrow> (nat \<Rightarrow> nat) \<Rightarrow> (nat \<Rightarrow> nat) \<Rightarrow> ddata \<Rightarrow> csp_party_settings \<Rightarrow> status \<times> ddata \<times> csp_party_settings" where
  "deserialize_CspPartySettings E p q =
     csp_deserialize_common E (CspPartySettings_type (big_endian E)) fromOldStruct (\<lambda>ctx value.
       run_out (deserialize_scalar E False False False ctx (0 :: byte)) (\<lambda>_. value) (\<lambda>ctx cspVersionsSize.
       let v = snd (vec_setSize E octet (m_protocolVersions value) (ucast cspVersionsSize));
           value = value\<lparr>m_protocolVersions := v\<rparr>
       in run_out (deserialize_byte_array E p ctx (ucast cspVersionsSize) (vec_data v))
            (\<lambda>b. value\<lparr>m_protocolVersions := v\<lparr>m_p := b\<rparr>\<rparr>) (\<lambda>ctx b.
          let value = value\<lparr>m_protocolVersions := v\<lparr>m_p := b\<rparr>\<rparr>
          in run_out (deserialize_scalar E False False False ctx (0 :: u32)) (\<lambda>_. value) (\<lambda>ctx mandatoryCommonFlags.
             let value = value\<lparr>m_mandatoryCommonFlags := cf_of mandatoryCommonFlags\<rparr>
             in run_out (deserialize_scalar E False False False ctx (0 :: u32)) (\<lambda>_. value) (\<lambda>ctx forbiddenCommonFlags.
                let value = value\<lparr>m_forbiddenCommonFlags := cf_of forbiddenCommonFlags\<rparr>
                in run_out (deserialize_interfaces E q ctx (m_interfaces value))
                     (\<lambda>v. value\<lparr>m_interfaces := v\<rparr>) (\<lambda>ctx v.
                   (NoError, ctx, value\<lparr>m_interfaces := v\<rparr>)))))))"

end
