(* ===== verification/StructCodec.thy ===== *)
theory StructCodec
  imports VectorCodec ServiceStructs
begin

text \<open>
  The \<open>codec\<close> contract for ids, data flags, interfaces and the service structs, and for whole
  data messages of a struct that has it.
\<close>

section \<open>Ids and data flags\<close>

lemma emits_scalar:
  fixes w :: "'a::len word"
  assumes "LENGTH('a) \<in> {8, 16, 32, 64}" "body_ctx E c" "md = mode_of c"
  shows "emits E (\<lambda>c. serialize_scalar E fs fl w c) (enc_scalar fs fl md w) c"
  using emits_serialize_scalar [OF assms(1) body_ctx_value [OF assms(2)]] assms(3) by simp

lemma reads_scalar:
  fixes v :: "'a::len word"
  assumes "LENGTH('a) \<in> {8, 16, 32, 64}" "body_ctx E d"
  shows "reads E (\<lambda>d. deserialize_scalar E fs fl sg d old) (enc_scalar fs fl (mode_of d) v) d (\<lambda>x. x = v)"
  by (rule parses_reads [OF parses_deserialize_scalar [OF assms(1) body_ctx_value [OF assms(2)]]]) simp

definition enc_id :: "mode \<Rightarrow> uuid \<Rightarrow> byte list" where
  "enc_id md x = enc_scalar False False md (uuid.m_high x) @ enc_scalar False False md (uuid.m_low x)"

lemma id_codec: "codec E (=) (\<lambda>_. True) (\<lambda>_ _. True) enc_id (serialize_id E) (deserialize_id E)"
proof
  fix c :: sdata and x m :: uuid
  assume "body_ctx E c" "x = m"
  then have "emits E (\<lambda>c. run (serialize_scalar E False False (uuid.m_high x) c) (\<lambda>c.
      run (serialize_scalar E False False (uuid.m_low x) c) (\<lambda>c. (NoError, c)))) (enc_id (mode_of c) x) c"
    unfolding enc_id_def by (intro emits_run emits_run_done emits_scalar) simp_all
  with \<open>x = m\<close> show "emits E (serialize_id E x) (enc_id (mode_of c) m) c"
    by (simp add: serialize_id_def [abs_def])
next
  fix d :: ddata and old m :: uuid
  assume d: "body_ctx E d"
  show "reads E (\<lambda>d. deserialize_id E d old) (enc_id (mode_of d) m) d (\<lambda>x. x = m)"
    unfolding enc_id_def deserialize_id_def
    by (intro reads_run_out [OF reads_scalar [OF _ d]] reads_run_out_done [OF reads_scalar [OF _ d]]) simp_all
qed

interpretation id: codec E "(=)" "\<lambda>_. True" "\<lambda>_ _. True" enc_id "serialize_id E" "deserialize_id E" for E
  by (rule id_codec)

definition enc_data_flags :: "mode \<Rightarrow> data_flags \<Rightarrow> byte list" where
  "enc_data_flags md f = enc_scalar False False md (df_word f)"

lemma data_flags_codec:
  "codec E (=) (\<lambda>_. True) (\<lambda>_. df_valid) enc_data_flags (serialize_data_flags E) (deserialize_data_flags E)"
proof
  fix c :: sdata and x m :: data_flags
  assume "body_ctx E c" "x = m"
  then have "emits E (\<lambda>c. run (serialize_scalar E False False (df_word x) c) (\<lambda>c. (NoError, c)))
      (enc_data_flags (mode_of c) x) c"
    unfolding enc_data_flags_def by (intro emits_run_done emits_scalar) simp_all
  with \<open>x = m\<close> show "emits E (serialize_data_flags E x) (enc_data_flags (mode_of c) m) c"
    by (simp add: serialize_data_flags_def [abs_def])
next
  fix d :: ddata and old m
  assume d: "body_ctx E d" and m: "df_valid m"
  show "reads E (\<lambda>d. deserialize_data_flags E d old) (enc_data_flags (mode_of d) m) d (\<lambda>x. x = m)"
    unfolding enc_data_flags_def deserialize_data_flags_def
    by (intro reads_run_out_done [OF reads_scalar [OF _ d]]) (simp_all add: df_of_word m)
qed

interpretation data_flags: codec E "(=)" "\<lambda>_. True" "\<lambda>_. df_valid" enc_data_flags "serialize_data_flags E"
    "deserialize_data_flags E" for E
  by (rule data_flags_codec)

section \<open>Simply assignable structs\<close>

lemma copies_mode_tags:
  assumes "body_ctx E c" "\<not> t_integralOrEnum T" "\<not> t_floating T"
  shows "copies_mode T (mode_of c) \<longleftrightarrow>
     AnySimplyAssignable T \<and> (m_endiannessDifference c \<longrightarrow> EndiannessTolerant T)
     \<and> (t_info T = None \<or> type_latestInterfaceVersion T \<le> m_interfaceVersion c)
     \<and> \<not> m_simplyAssignableTagsOptimizationsAreTurnedOff c \<and> tags_allow_copy T c"
  using assms(2,3) unfolding copies_arrays_mode [OF assms(1), symmetric]
  by (auto simp: copies_arrays_def tags_allow_copy_def AnySimplyAssignable_def)

lemma emits_any_simply_assignable:
  assumes c: "body_ctx E c" and T: "\<not> t_integralOrEnum T" "\<not> t_floating T"
    and l: "copies_mode T (mode_of c) \<Longrightarrow> t_octets T (big_endian E) v = xs \<and> length xs = t_sizeof T"
      "0 < t_sizeof T" "t_sizeof T < 2 ^ 64"
    and r: "\<not> copies_mode T (mode_of c) \<Longrightarrow> emits E rest xs c"
  shows "emits E (serialize_any_simply_assignable E T v rest) xs c"
proof (cases "copies_mode T (mode_of c)")
  case True
  let ?o = "t_octets T (big_endian E) v"
  have em: "emits E (writeRawData E (t_sizeof T) (Some ?o) 1) ?o c"
    using l True by (intro emits_writeRawData) simp_all
  show ?thesis
  proof (rule emitsI)
    fix b :: "byte vec" and bs
    assume b: "vec_rep b bs" "length bs + length xs < 2 ^ 63"
    have s: "copies_mode T (mode_of (c\<lparr>m_binaryData := b\<rparr>))" using True by simp
    have bc: "body_ctx E (c\<lparr>m_binaryData := b\<rparr>)" using c by simp
    have "serialize_any_simply_assignable E T v rest (c\<lparr>m_binaryData := b\<rparr>) =
        (let (st, ctx) = run (writeRawData E (t_sizeof T) (Some ?o) 1 (c\<lparr>m_binaryData := b\<rparr>))
               (\<lambda>ctx. (NoFurtherProcessingRequired, ctx))
         in if st = NoFurtherProcessingRequired then (NoError, ctx)
            else if \<not> statusSuccess st \<and> st \<noteq> ErrorNotSupportedSerializationSettingsForStruct then (st, ctx)
            else rest ctx)"
      using s [unfolded copies_mode_tags [OF bc T]]
      by (auto simp: serialize_any_simply_assignable_def serializeSimplyAssignable_def not_less)
    note ser = this
    have lb: "length bs + length ?o < 2 ^ 63" using b(2) l(1) True by simp
    show "\<exists>st b'. serialize_any_simply_assignable E T v rest (c\<lparr>m_binaryData := b\<rparr>)
        = (st, c\<lparr>m_binaryData := b'\<rparr>) \<and>
        (st = NoError \<and> vec_rep b' (bs @ xs)
         \<or> st = ErrorNoMemory \<and> memory_out E \<and> (\<exists>i. vec_rep b' (bs @ take i xs)))"
      using em b(1) lb
    proof (cases rule: emitsE)
      case (ok b')
      then show ?thesis using ser l(1) True by (auto simp: run_simps)
    next
      case (no_memory b' i)
      then show ?thesis using ser l(1) True by (intro exI [of _ ErrorNoMemory] exI [of _ b']) (auto simp: run_simps)
    qed
  qed
next
  case False
  have "serialize_any_simply_assignable E T v rest (c\<lparr>m_binaryData := b\<rparr>) = rest (c\<lparr>m_binaryData := b\<rparr>)" for b
  proof -
    have "body_ctx E (c\<lparr>m_binaryData := b\<rparr>)" "\<not> copies_mode T (mode_of (c\<lparr>m_binaryData := b\<rparr>))"
      using c False by simp_all
    then show ?thesis
      using copies_mode_tags [OF _ T, of E "c\<lparr>m_binaryData := b\<rparr>"]
      by (auto simp: serialize_any_simply_assignable_def serializeSimplyAssignable_def not_less)
  qed
  with False r show ?thesis by (subst emits_cong [where g = rest]) simp_all
qed

lemma reads_any_simply_assignable:
  assumes d: "body_ctx E d" and T: "\<not> t_integralOrEnum T" "\<not> t_floating T"
    and l: "copies_mode T (mode_of d) \<Longrightarrow> length (t_octets T (big_endian E) old) = length xs
       \<and> xs \<noteq> [] \<and> R (t_of_octets T (big_endian E) xs)"
    and r: "\<not> copies_mode T (mode_of d) \<Longrightarrow> reads E (\<lambda>d. rest d old) xs d R"
  shows "reads E (\<lambda>d. deserialize_any_simply_assignable E T rest d old) xs d R"
proof (cases "copies_mode T (mode_of d)")
  case True
  let ?o = "t_octets T (big_endian E) old" and ?of = "t_of_octets T (big_endian E)"
  have p: "parses (\<lambda>d. readRawObject E d ?o) xs d xs"
    using l [OF True] by (intro parses_readRawObject) simp_all
  show ?thesis
  proof (rule readsI)
    fix w bs k
    assume a: "walker_rep w bs k" "length bs < 2 ^ 62" "length xs \<le> length bs - k"
      "take (length xs) (drop k bs) = xs"
    then have "length bs < 2 ^ 63" by simp
    from parsesD [OF p a(1) this a(3,4)] obtain w' where
      w': "readRawObject E (d\<lparr>m_binaryData := w\<rparr>) ?o = (NoError, d\<lparr>m_binaryData := w'\<rparr>, xs)"
        "walker_rep w' bs (k + length xs)" by blast
    have "body_ctx E (d\<lparr>m_binaryData := w\<rparr>)" "copies_mode T (mode_of (d\<lparr>m_binaryData := w\<rparr>))"
      using d True by simp_all
    with w'(1) have "deserialize_any_simply_assignable E T rest (d\<lparr>m_binaryData := w\<rparr>) old
        = (NoError, d\<lparr>m_binaryData := w'\<rparr>, ?of xs)"
      using copies_mode_tags [OF _ T, of E "d\<lparr>m_binaryData := w\<rparr>"]
      by (auto simp: deserialize_any_simply_assignable_def deserializeSimplyAssignable_def not_less run_simps)
    then show "\<exists>st w' v. deserialize_any_simply_assignable E T rest (d\<lparr>m_binaryData := w\<rparr>) old
        = (st, d\<lparr>m_binaryData := w'\<rparr>, v) \<and>
        (st = NoError \<and> walker_rep w' bs (k + length xs) \<and> R v \<or> st = ErrorNoMemory \<and> memory_out E)"
      using w'(2) l [OF True] by (intro exI [of _ NoError] exI [of _ w']) simp
  qed
next
  case False
  have "deserialize_any_simply_assignable E T rest (d\<lparr>m_binaryData := w\<rparr>) old = rest (d\<lparr>m_binaryData := w\<rparr>) old" for w
  proof -
    have "body_ctx E (d\<lparr>m_binaryData := w\<rparr>)" "\<not> copies_mode T (mode_of (d\<lparr>m_binaryData := w\<rparr>))"
      using d False by simp_all
    then show ?thesis
      using copies_mode_tags [OF _ T, of E "d\<lparr>m_binaryData := w\<rparr>"]
      by (auto simp: deserialize_any_simply_assignable_def deserializeSimplyAssignable_def not_less)
  qed
  with False r show ?thesis by (subst reads_cong [where g = "\<lambda>d. rest d old"]) simp_all
qed

section \<open>Interfaces\<close>

lemma interface_octets_simps [simp]:
  "length (interface_octets be i) = 28" "interface_of_octets be (interface_octets be i) = i"
  by (cases i; simp add: interface_octets_def interface_of_octets_def uuid_of_bytes_bytes obj_value_bytes)+

lemma interface_type_simps [simp]:
  "t_sizeof interface_type = 28" "\<not> t_integralOrEnum interface_type" "\<not> t_floating interface_type"
  "t_octets interface_type = interface_octets" "t_of_octets interface_type = interface_of_octets"
  by (simp_all add: interface_type_def)

definition enc_interface :: "bool \<Rightarrow> mode \<Rightarrow> interface \<Rightarrow> byte list" where
  "enc_interface be md i =
     (if copies_mode interface_type md then interface_octets be i
      else enc_id md (i_id i) @ enc_scalar False False md (i_version i)
           @ enc_data_flags md (i_mandatoryDataFlags i) @ enc_data_flags md (i_forbiddenDataFlags i))"

definition interface_valid :: "interface \<Rightarrow> bool" where
  "interface_valid i \<longleftrightarrow> df_valid (i_mandatoryDataFlags i) \<and> df_valid (i_forbiddenDataFlags i)"

lemma interface_codec:
  "codec E (=) (\<lambda>_. True) (\<lambda>_. interface_valid) (enc_interface (big_endian E)) (serialize_interface E)
     (deserialize_interface E)"
proof
  fix c :: sdata and x m
  assume c: "body_ctx E c" and xm: "x = m" and v: "interface_valid m"
  have "emits E (\<lambda>c. run (serialize_id E (i_id x) c) (\<lambda>c. run (serialize_scalar E False False (i_version x) c) (\<lambda>c.
       run (serialize_data_flags E (i_mandatoryDataFlags x) c) (\<lambda>c.
       run (serialize_data_flags E (i_forbiddenDataFlags x) c) (\<lambda>c. (NoError, c))))))
     (enc_id (mode_of c) (i_id x) @ enc_scalar False False (mode_of c) (i_version x)
      @ enc_data_flags (mode_of c) (i_mandatoryDataFlags x) @ enc_data_flags (mode_of c) (i_forbiddenDataFlags x)) c"
    using c v xm by (intro emits_run emits_run_done id.ser_emits emits_scalar data_flags.ser_emits)
      (simp_all add: interface_valid_def)
  then show "emits E (serialize_interface E x) (enc_interface (big_endian E) (mode_of c) m) c"
    unfolding serialize_interface_def using xm
    by (intro emits_any_simply_assignable [OF c]) (simp_all add: enc_interface_def)
next
  fix d :: ddata and old m
  assume d: "body_ctx E d" and v: "interface_valid m"
  show "reads E (\<lambda>d. deserialize_interface E d old) (enc_interface (big_endian E) (mode_of d) m) d (\<lambda>x. x = m)"
    unfolding deserialize_interface_def
  proof (rule reads_any_simply_assignable [OF d])
    assume nc: "\<not> copies_mode interface_type (mode_of d)"
    have vm: "df_valid (i_mandatoryDataFlags m)" "df_valid (i_forbiddenDataFlags m)"
      using v by (simp_all add: interface_valid_def)
    have "reads E (\<lambda>d.
       run_out (deserialize_id E d (i_id old))
         (\<lambda>x. Interface x (i_version old) (i_mandatoryDataFlags old) (i_forbiddenDataFlags old)) (\<lambda>d x.
       run_out (deserialize_scalar E False False False d (i_version old))
         (\<lambda>v. Interface x v (i_mandatoryDataFlags old) (i_forbiddenDataFlags old)) (\<lambda>d v.
       run_out (deserialize_data_flags E d (i_mandatoryDataFlags old))
         (\<lambda>m. Interface x v m (i_forbiddenDataFlags old)) (\<lambda>d m.
       run_out (deserialize_data_flags E d (i_forbiddenDataFlags old))
         (\<lambda>f. Interface x v m f) (\<lambda>d f. (NoError, d, Interface x v m f))))))
      (enc_id (mode_of d) (i_id m) @ enc_scalar False False (mode_of d) (i_version m)
       @ enc_data_flags (mode_of d) (i_mandatoryDataFlags m) @ enc_data_flags (mode_of d) (i_forbiddenDataFlags m))
      d (\<lambda>x. x = m)"
      using vm by (intro reads_run_out [OF id.des_reads [OF d]] reads_run_out [OF reads_scalar [OF _ d]]
          reads_run_out [OF data_flags.des_reads [OF d]] reads_run_out_done [OF data_flags.des_reads [OF d]]) simp_all
    then show "reads E (\<lambda>d. run_out (deserialize_id E d (i_id old))
         (\<lambda>x. Interface x (i_version old) (i_mandatoryDataFlags old) (i_forbiddenDataFlags old)) (\<lambda>d x.
       run_out (deserialize_scalar E False False False d (i_version old))
         (\<lambda>v. Interface x v (i_mandatoryDataFlags old) (i_forbiddenDataFlags old)) (\<lambda>d v.
       run_out (deserialize_data_flags E d (i_mandatoryDataFlags old))
         (\<lambda>m. Interface x v m (i_forbiddenDataFlags old)) (\<lambda>d m.
       run_out (deserialize_data_flags E d (i_forbiddenDataFlags old))
         (\<lambda>f. Interface x v m f) (\<lambda>d f. (NoError, d, Interface x v m f))))))
      (enc_interface (big_endian E) (mode_of d) m) d (\<lambda>x. x = m)"
      using nc by (simp add: enc_interface_def)
  qed (auto simp: enc_interface_def simp flip: length_0_conv)
qed

interpretation interface: codec E "(=)" "\<lambda>_. True" "\<lambda>_. interface_valid" "enc_interface (big_endian E)"
    "serialize_interface E" "deserialize_interface E" for E
  by (rule interface_codec)

section \<open>The latest form of a struct\<close>

text \<open>A mode in which a struct goes as its latest version.\<close>

definition latest_form :: "struct_info \<Rightarrow> mode \<Rightarrow> bool" where
  "latest_form T md \<longleftrightarrow>
     getBestCompatInterfaceVersion T (md_interfaceVersion md) = getLatestPrivateVersion T
     \<and> testDataFlagsCompatibility (Some T) (md_dataFlags md) = NoError"

lemma csp_serialize_common_latest:
  assumes "t_info T = Some i" "latest_form i (mode_of c)"
  shows "csp_serialize_common E T toOld v rest c = serialize_any_simply_assignable E T v rest c"
  using assms by (simp add: csp_serialize_common_def toOldStructIfNeed_def latest_form_def mode_of_def run_simps)

lemma csp_deserialize_common_latest:
  assumes "t_info T = Some i" "latest_form i (mode_of d)"
  shows "csp_deserialize_common E T fromOld rest d old = deserialize_any_simply_assignable E T rest d old"
  using assms by (simp add: csp_deserialize_common_def fromOldStructIfNeed_def latest_form_def mode_of_def run_simps)

lemma emits_struct:
  assumes "body_ctx E c" "t_info T = Some i" "latest_form i (mode_of c)" "\<not> t_integralOrEnum T" "\<not> t_floating T"
    and "copies_mode T (mode_of c) \<Longrightarrow> t_octets T (big_endian E) v = xs \<and> length xs = t_sizeof T"
    and "0 < t_sizeof T" "t_sizeof T < 2 ^ 64"
    and "\<not> copies_mode T (mode_of c) \<Longrightarrow> emits E rest xs c"
  shows "emits E (csp_serialize_common E T toOld v rest) xs c"
  using emits_any_simply_assignable [OF assms(1,4-9)]
  by (subst emits_cong [where g = "serialize_any_simply_assignable E T v rest"])
     (simp_all add: csp_serialize_common_latest assms(2,3))

lemma reads_struct:
  assumes "body_ctx E d" "t_info T = Some i" "latest_form i (mode_of d)" "\<not> t_integralOrEnum T" "\<not> t_floating T"
    and "copies_mode T (mode_of d) \<Longrightarrow> length (t_octets T (big_endian E) old) = length xs
       \<and> xs \<noteq> [] \<and> R (t_of_octets T (big_endian E) xs)"
    and "\<not> copies_mode T (mode_of d) \<Longrightarrow> reads E (\<lambda>d. rest d old) xs d R"
  shows "reads E (\<lambda>d. csp_deserialize_common E T fromOld rest d old) xs d R"
  using reads_any_simply_assignable [where T = T and R = R and rest = rest, OF assms(1,4-7)]
  by (subst reads_cong [where g = "\<lambda>d. deserialize_any_simply_assignable E T rest d old"])
     (simp_all add: csp_deserialize_common_latest assms(2,3))

section \<open>Service structs\<close>

lemma service_type_simps [simp]:
  "t_sizeof (GetInterface_type be) = 16" "\<not> t_integralOrEnum (GetInterface_type be)"
  "\<not> t_floating (GetInterface_type be)" "t_info (GetInterface_type be) = Some (GetInterface_info be)"
  "t_octets (GetInterface_type be) be' g = uuid_bytes be' (gi_id g)"
  "t_of_octets (GetInterface_type be) be' bs = GetInterface (uuid_of_bytes be' bs)"
  "t_sizeof (OutGetInterface_type be) = 28" "\<not> t_integralOrEnum (OutGetInterface_type be)"
  "\<not> t_floating (OutGetInterface_type be)" "t_info (OutGetInterface_type be) = Some (OutGetInterface_info be)"
  "t_octets (OutGetInterface_type be) be' og = interface_octets be' (ogi_properties og)"
  "t_of_octets (OutGetInterface_type be) be' bs = OutGetInterface (interface_of_octets be' bs)"
  "t_sizeof (InterfaceVersion_type be) = 20" "\<not> t_integralOrEnum (InterfaceVersion_type be)"
  "\<not> t_empty (InterfaceVersion_type be)" "t_info (InterfaceVersion_type be) = Some (InterfaceVersion_info be)"
  "t_octets (InterfaceVersion_type be) be' iv = uuid_bytes be' (iv_id iv) @ obj_bytes be' (iv_version iv)"
  "t_of_octets (InterfaceVersion_type be) be' bs = InterfaceVersion (uuid_of_bytes be' (take 16 bs)) (obj_value be' (drop 16 bs))"
  "t_sizeof (CspPartySettings_type be) = 72" "\<not> t_integralOrEnum (CspPartySettings_type be)"
  "\<not> t_floating (CspPartySettings_type be)" "t_info (CspPartySettings_type be) = Some (CspPartySettings_info be)"
  "\<not> copies_mode (CspPartySettings_type be) md"
  by (simp_all add: GetInterface_type_def OutGetInterface_type_def InterfaceVersion_type_def
      CspPartySettings_type_def copies_mode_def)

definition enc_GetInterface :: "bool \<Rightarrow> mode \<Rightarrow> get_interface \<Rightarrow> byte list" where
  "enc_GetInterface be md g =
     (if copies_mode (GetInterface_type be) md then uuid_bytes be (gi_id g) else enc_id md (gi_id g))"

lemma GetInterface_codec:
  "codec E (=) (\<lambda>_. True) (\<lambda>md _. latest_form (GetInterface_info (big_endian E)) md)
     (enc_GetInterface (big_endian E)) (serialize_GetInterface E) (deserialize_GetInterface E)"
proof
  fix c :: sdata and x m :: get_interface
  assume c: "body_ctx E c" and xm: "x = m" and v: "latest_form (GetInterface_info (big_endian E)) (mode_of c)"
  then show "emits E (serialize_GetInterface E x) (enc_GetInterface (big_endian E) (mode_of c) m) c"
    unfolding serialize_GetInterface_def
    by (intro emits_struct [OF c _ v]) (auto simp: enc_GetInterface_def intro!: emits_run_done id.ser_emits)
next
  fix d :: ddata and old m :: get_interface
  assume d: "body_ctx E d" and v: "latest_form (GetInterface_info (big_endian E)) (mode_of d)"
  show "reads E (\<lambda>d. deserialize_GetInterface E d old) (enc_GetInterface (big_endian E) (mode_of d) m) d (\<lambda>x. x = m)"
    unfolding deserialize_GetInterface_def
    by (intro reads_struct [OF d _ v])
       (auto simp: enc_GetInterface_def uuid_of_bytes_bytes simp flip: length_0_conv
          intro!: reads_run_out_done [OF id.des_reads [OF d]])
qed

interpretation GetInterface: codec E "(=)" "\<lambda>_. True" "\<lambda>md _. latest_form (GetInterface_info (big_endian E)) md"
    "enc_GetInterface (big_endian E)" "serialize_GetInterface E" "deserialize_GetInterface E" for E
  by (rule GetInterface_codec)

definition enc_OutGetInterface :: "bool \<Rightarrow> mode \<Rightarrow> out_get_interface \<Rightarrow> byte list" where
  "enc_OutGetInterface be md g =
     (if copies_mode (OutGetInterface_type be) md then interface_octets be (ogi_properties g)
      else enc_interface be md (ogi_properties g))"

lemma OutGetInterface_codec:
  "codec E (=) (\<lambda>_. True)
     (\<lambda>md m. latest_form (OutGetInterface_info (big_endian E)) md \<and> interface_valid (ogi_properties m))
     (enc_OutGetInterface (big_endian E)) (serialize_OutGetInterface E) (deserialize_OutGetInterface E)"
proof
  fix c :: sdata and x m :: out_get_interface
  assume c: "body_ctx E c" and xm: "x = m"
    and v: "latest_form (OutGetInterface_info (big_endian E)) (mode_of c) \<and> interface_valid (ogi_properties m)"
  then show "emits E (serialize_OutGetInterface E x) (enc_OutGetInterface (big_endian E) (mode_of c) m) c"
    unfolding serialize_OutGetInterface_def
    by (intro emits_struct [OF c _ conjunct1 [OF v]])
       (auto simp: enc_OutGetInterface_def intro!: emits_run_done interface.ser_emits)
next
  fix d :: ddata and old m :: out_get_interface
  assume d: "body_ctx E d"
    and v: "latest_form (OutGetInterface_info (big_endian E)) (mode_of d) \<and> interface_valid (ogi_properties m)"
  show "reads E (\<lambda>d. deserialize_OutGetInterface E d old) (enc_OutGetInterface (big_endian E) (mode_of d) m) d (\<lambda>x. x = m)"
    unfolding deserialize_OutGetInterface_def
    by (intro reads_struct [OF d _ conjunct1 [OF v]])
       (use v in \<open>auto simp: enc_OutGetInterface_def simp flip: length_0_conv
          intro!: reads_run_out_done [OF interface.des_reads [OF d]]\<close>)
qed

interpretation OutGetInterface: codec E "(=)" "\<lambda>_. True"
    "\<lambda>md m. latest_form (OutGetInterface_info (big_endian E)) md \<and> interface_valid (ogi_properties m)"
    "enc_OutGetInterface (big_endian E)" "serialize_OutGetInterface E" "deserialize_OutGetInterface E" for E
  by (rule OutGetInterface_codec)

section \<open>Settings of a party\<close>

text \<open>\<open>InterfaceVersion\<close> has no function of its own: its vectors go where they are copied.\<close>

definition iv_octets :: "bool \<Rightarrow> interface_version \<Rightarrow> byte list" where
  "iv_octets be v = uuid_bytes be (iv_id v) @ obj_bytes be (iv_version v)"

lemma interfaces_codec:
  "array_codec E (=) (\<lambda>_. True) (\<lambda>md _. copies_mode (InterfaceVersion_type (big_endian E)) md) (\<lambda>_ _. [])
     (serialize_simple E (InterfaceVersion_type (big_endian E))) (deserialize_simple E (InterfaceVersion_type (big_endian E)))
     (InterfaceVersion_type (big_endian E)) iv_elem (iv_octets (big_endian E))"
proof (intro array_codec.intro array_codec_axioms.intro)
  show "movable_type iv_elem" using raw.movable_type_axioms [of 19] by (simp add: iv_elem_def)
  show "length (iv_octets (big_endian E) m) = t_sizeof (InterfaceVersion_type (big_endian E)) \<and>
      t_of_octets (InterfaceVersion_type (big_endian E)) (big_endian E) (iv_octets (big_endian E) m) = m" for m
    by (cases m) (simp add: iv_octets_def uuid_of_bytes_bytes obj_value_bytes)
qed (auto simp: codec_def iv_elem_def raw_elem_def iv_octets_def)

interpretation ivs: array_codec E "(=)" "\<lambda>_. True" "\<lambda>md _. copies_mode (InterfaceVersion_type (big_endian E)) md"
    "\<lambda>_ _. []" "serialize_simple E (InterfaceVersion_type (big_endian E))"
    "deserialize_simple E (InterfaceVersion_type (big_endian E))" "InterfaceVersion_type (big_endian E)" iv_elem
    "iv_octets (big_endian E)" ds for E ds
  by (rule interfaces_codec)

text \<open>What settings hold.\<close>

record settings_value =
  sv_protocolVersions :: "byte list"
  sv_mandatory :: common_flags
  sv_forbidden :: common_flags
  sv_interfaces :: "interface_version list"

definition rep_settings :: "csp_party_settings \<Rightarrow> settings_value \<Rightarrow> bool" where
  "rep_settings s m \<longleftrightarrow> vec_rep (m_protocolVersions s) (sv_protocolVersions m)
     \<and> m_mandatoryCommonFlags s = sv_mandatory m \<and> m_forbiddenCommonFlags s = sv_forbidden m
     \<and> vec_rep (m_interfaces s) (sv_interfaces m)"

definition init_settings :: "csp_party_settings \<Rightarrow> bool" where
  "init_settings s \<longleftrightarrow> (\<exists>m. rep_settings s m)"

definition ok_settings :: "bool \<Rightarrow> mode \<Rightarrow> settings_value \<Rightarrow> bool" where
  "ok_settings be md m \<longleftrightarrow> latest_form (CspPartySettings_info be) md
     \<and> length (sv_protocolVersions m) < 256 \<and> cf_valid (sv_mandatory m) \<and> cf_valid (sv_forbidden m)
     \<and> (sv_interfaces m \<noteq> [] \<longrightarrow> copies_mode (InterfaceVersion_type be) md)
     \<and> fits iv_elem (length (sv_interfaces m)) \<and> ok_size md (of_nat (length (sv_interfaces m)))"

definition enc_bytes :: "mode \<Rightarrow> byte list \<Rightarrow> byte list" where
  "enc_bytes md bs = (if int_sized md then [1] else []) @ bs"

definition enc_settings :: "bool \<Rightarrow> mode \<Rightarrow> settings_value \<Rightarrow> byte list" where
  "enc_settings be md m =
     enc_scalar False False md (of_nat (length (sv_protocolVersions m)) :: byte)
     @ enc_bytes md (sv_protocolVersions m)
     @ enc_scalar False False md (cf_word (sv_mandatory m))
     @ enc_scalar False False md (cf_word (sv_forbidden m))
     @ enc_size md (of_nat (length (sv_interfaces m))) @ concat (map (iv_octets be) (sv_interfaces m))"

lemma copies_bytes [simp]: "copies_mode (integer_type sg :: byte ctype) md"
  by (simp add: copies_mode_def EndiannessTolerant_def)

lemma enc_bytes_array: "u8s.enc_array sg E md bs = enc_bytes md bs"
proof -
  have "concat (map (obj_bytes (big_endian E)) bs) = bs" by (induction bs) simp_all
  then show ?thesis
    by (simp add: u8s.enc_array_def enc_bytes_def sized_array_def)
qed

lemma emits_byte_array:
  assumes "body_ctx E c" "md = mode_of c" "length bs < 2 ^ 64"
  shows "emits E (serialize_byte_array E addr bs) (enc_bytes md bs) c"
  using u8s.emits_array [OF assms(1), of bs bs False addr] assms(2,3)
  by (simp add: serialize_byte_array_def enc_bytes_array list.rel_eq)

lemma reads_byte_array:
  assumes d: "body_ctx E d" and n: "unat n = length bs"
    and p: "p = Cells cs \<and> length bs \<le> length cs \<or> p = Null \<and> cs = [] \<and> bs = []"
  shows "reads E (\<lambda>d. deserialize_byte_array E addr d n p) (enc_bytes (mode_of d) bs) d
     (\<lambda>p. u8s.block_holds p (length cs) bs)"
  using u8s.reads_array [OF d _ n p, where sg = False and ds = "deserializeFromAnotherSize E False" and addr = addr]
  by (simp add: deserialize_byte_array_def enc_bytes_array)

lemma emits_interfaces:
  assumes c: "body_ctx E c" and v: "vec_rep v is" and cp: "is \<noteq> [] \<longrightarrow> copies_mode (InterfaceVersion_type (big_endian E)) (mode_of c)"
    and f: "fits iv_elem (length is)" "ok_size (mode_of c) (of_nat (length is))"
  shows "emits E (serialize_interfaces E addr v)
     (enc_size (mode_of c) (of_nat (length is)) @ concat (map (iv_octets (big_endian E)) is)) c"
proof -
  have "ivs.enc_array E (mode_of c) is = concat (map (iv_octets (big_endian E)) is)"
    using cp by (cases "is = []") (auto simp: ivs.enc_array_def sized_array_def)
  then show ?thesis
    using ivs.emits_vec [OF c, of v "is" addr] v cp f
    by (auto simp: serialize_interfaces_def ivs.rep_vec_def ivs.ok_vec_def ivs.enc_vec_def list.rel_eq)
qed

lemma reads_interfaces:
  assumes d: "body_ctx E d" and v: "vec_rep old os" and cp: "is \<noteq> [] \<longrightarrow> copies_mode (InterfaceVersion_type (big_endian E)) (mode_of d)"
    and f: "fits iv_elem (length is)" "ok_size (mode_of d) (of_nat (length is))"
  shows "reads E (\<lambda>d. deserialize_interfaces E addr d old)
     (enc_size (mode_of d) (of_nat (length is)) @ concat (map (iv_octets (big_endian E)) is)) d (\<lambda>v. vec_rep v is)"
proof -
  have "ivs.enc_array E (mode_of d) is = concat (map (iv_octets (big_endian E)) is)"
    using cp by (cases "is = []") (auto simp: ivs.enc_array_def sized_array_def)
  moreover have "ivs.init_vec old" using v by (auto simp: ivs.init_vec_def)
  moreover have "ivs.ok_vec E (mode_of d) is" using cp f by (auto simp: ivs.ok_vec_def)
  ultimately show ?thesis
    using ivs.reads_vec [OF d, where ms = "is" and old = old and addr = addr and ds = "\<lambda>_ ctx x. (ErrorInternal, ctx, x)"]
    by (simp add: deserialize_interfaces_def ivs.rep_vec_def ivs.enc_vec_def list.rel_eq)
qed

lemma emits_settings:
  assumes c: "body_ctx E c" and r: "rep_settings s m" and o: "ok_settings (big_endian E) (mode_of c) m"
  shows "emits E (serialize_CspPartySettings E p q s) (enc_settings (big_endian E) (mode_of c) m) c"
proof -
  have v: "vec_rep (m_protocolVersions s) (sv_protocolVersions m)" "vec_rep (m_interfaces s) (sv_interfaces m)"
    and m: "m_mandatoryCommonFlags s = sv_mandatory m" "m_forbiddenCommonFlags s = sv_forbidden m"
    using r by (simp_all add: rep_settings_def)
  have l: "length (sv_protocolVersions m) < 256" and lf: "latest_form (CspPartySettings_info (big_endian E)) (mode_of c)"
    using o by (simp_all add: ok_settings_def)
  let ?n = "of_nat (length (sv_protocolVersions m)) :: byte"
  have sz: "ucast (vec_size (m_protocolVersions s)) = ?n"
    using vec_rep_size [OF v(1)] l by (simp add: word_unat_eq_iff unsigned_ucast_eq unat_of_nat_small take_bit_nat_eq_self)
  have un: "unat ?n = length (sv_protocolVersions m)" using l by (simp add: unat_of_nat_small)
  have "emits E (\<lambda>c. run (serialize_scalar E False False ?n c) (\<lambda>c.
          run (serialize_byte_array E p (sv_protocolVersions m) c) (\<lambda>c.
          run (serialize_scalar E False False (cf_word (sv_mandatory m)) c) (\<lambda>c.
          run (serialize_scalar E False False (cf_word (sv_forbidden m)) c) (\<lambda>c.
          run (serialize_interfaces E q (m_interfaces s) c) (\<lambda>c. (NoError, c)))))))
      (enc_settings (big_endian E) (mode_of c) m) c"
    unfolding enc_settings_def using l o
    by (intro emits_run emits_run_done emits_scalar [OF _ c] emits_byte_array [OF c] emits_interfaces [OF c v(2)])
       (simp_all add: ok_settings_def)
  then show ?thesis
    unfolding serialize_CspPartySettings_def
    by (intro emits_struct [OF c _ lf]) (simp_all add: sz un vec_rep_objects [OF v(1)] m Let_def)
qed

text \<open>
  \<open>setSize\<close> is called without a look at its status, so the reading side needs the memory for
  the protocol versions.
\<close>

lemma setSize_room:
  assumes "\<not> memory_out E" "vec_rep v xs" "unat n < 256"
  shows "\<exists>w. vec_setSize E octet v n = (NoError, w) \<and> m_dataSize w = n
     \<and> (vec_data w = Cells (vec_cells w) \<and> unat n \<le> length (vec_cells w)
        \<or> vec_data w = Null \<and> vec_cells w = [] \<and> n = 0)
     \<and> length (vec_cells w) = unat (m_allocatedSize w)"
proof -
  have f: "fits octet (unat n)" using assms(3) by (simp add: octet_eq)
  obtain st w where w: "vec_setSize E octet v n = (st, w)"
    and c: "st = NoError \<and> vec_wf w \<and> m_dataSize w = n \<or> st = ErrorNoMemory \<and> memory_out E"
    using raw.setSize_ok [of v xs _ n E] assms(2) f unfolding octet_eq memory_out_def by blast
  then have st: "st = NoError" and wf: "vec_wf w" and n: "m_dataSize w = n" using assms(1) by auto
  have "unat n \<le> length (vec_cells w)" "length (vec_cells w) = unat (m_allocatedSize w)"
    using wf n by (simp_all add: vec_wf_def word_le_nat_alt)
  moreover have "vec_data w = Cells (vec_cells w) \<or> vec_data w = Null \<and> vec_cells w = []"
    using wf by (auto simp: vec_wf_def vec_data_def vec_cells_def split: storage.splits)
  ultimately show ?thesis using w st n by (auto simp: unat_eq_0)
qed

lemma reads_settings:
  assumes mem: "\<not> memory_out E" and d: "body_ctx E d" and i: "init_settings old"
    and o: "ok_settings (big_endian E) (mode_of d) m"
  shows "reads E (\<lambda>d. deserialize_CspPartySettings E p q d old) (enc_settings (big_endian E) (mode_of d) m) d
     (\<lambda>s. rep_settings s m)"
proof -
  have lf: "latest_form (CspPartySettings_info (big_endian E)) (mode_of d)" and l: "length (sv_protocolVersions m) < 256"
    and cf: "cf_of (cf_word (sv_mandatory m)) = sv_mandatory m" "cf_of (cf_word (sv_forbidden m)) = sv_forbidden m"
    using o by (simp_all add: ok_settings_def cf_of_word)
  obtain os ois where old: "vec_rep (m_protocolVersions old) os" "vec_rep (m_interfaces old) ois"
    using i by (auto simp: init_settings_def rep_settings_def)
  let ?b = "of_nat (length (sv_protocolVersions m)) :: byte"
  let ?n = "ucast ?b :: u64"
  have n: "unat ?n = length (sv_protocolVersions m)" using l by (simp add: unat_ucast_up unat_of_nat_small)
  obtain w where w: "vec_setSize E octet (m_protocolVersions old) ?n = (NoError, w)" "m_dataSize w = ?n"
    and wd: "vec_data w = Cells (vec_cells w) \<and> unat ?n \<le> length (vec_cells w) \<or> vec_data w = Null \<and> vec_cells w = [] \<and> ?n = 0"
    and wl: "length (vec_cells w) = unat (m_allocatedSize w)"
    using setSize_room [OF mem old(1), of ?n] n l by auto
  have room: "vec_data w = Cells (vec_cells w) \<and> length (sv_protocolVersions m) \<le> length (vec_cells w)
      \<or> vec_data w = Null \<and> vec_cells w = [] \<and> sv_protocolVersions m = []"
    using wd n by auto
  have filled: "vec_rep (w\<lparr>m_p := b\<rparr>) (sv_protocolVersions m)"
    if "u8s.block_holds b (length (vec_cells w)) (sv_protocolVersions m)" for b
  proof -
    have "w\<lparr>m_p := b\<rparr> = w\<lparr>m_p := b, m_dataSize := ?n\<rparr>" using w(2) by (cases w) simp
    then show ?thesis
      using u8s.block_holds_vec [of b w "sv_protocolVersions m" ?n] that n wl
      by (simp add: u8s.rep_vec_def list.rel_eq)
  qed
  have cp: "sv_interfaces m \<noteq> [] \<longrightarrow> copies_mode (InterfaceVersion_type (big_endian E)) (mode_of d)"
    and f: "fits iv_elem (length (sv_interfaces m))" "ok_size (mode_of d) (of_nat (length (sv_interfaces m)))"
    using o by (simp_all add: ok_settings_def)
  let ?s = "\<lambda>b. old\<lparr>m_protocolVersions := w\<lparr>m_p := b\<rparr>, m_mandatoryCommonFlags := sv_mandatory m,
      m_forbiddenCommonFlags := sv_forbidden m\<rparr>"
  have ivs: "reads E (\<lambda>d. run_out (deserialize_interfaces E q d (m_interfaces old)) e (\<lambda>d v. (NoError, d, (?s b)\<lparr>m_interfaces := v\<rparr>)))
      (enc_size (mode_of d) (of_nat (length (sv_interfaces m))) @ concat (map (iv_octets (big_endian E)) (sv_interfaces m)))
      d (\<lambda>s. rep_settings s m)" if "u8s.block_holds b (length (vec_cells w)) (sv_protocolVersions m)" for b e
    by (rule reads_run_out_done [OF reads_interfaces [OF d old(2) cp f]])
       (simp add: rep_settings_def filled [OF that])
  show ?thesis
    unfolding deserialize_CspPartySettings_def enc_settings_def Let_def
    apply (rule reads_struct [OF d _ lf])
         apply simp_all
    apply (rule reads_run_out [OF reads_scalar [OF _ d]])
     apply simp
    apply (simp add: w(1))
    apply (rule reads_run_out [OF reads_byte_array [OF d n room]])
    apply (rule reads_run_out [OF reads_scalar [OF _ d]])
     apply simp
    apply (rule reads_run_out [OF reads_scalar [OF _ d]])
     apply simp
    apply (simp add: cf)
    apply (rule ivs)
    apply assumption
    done
qed

interpretation settings: codec "E\<lparr>malloc_ok := \<lambda>_. True\<rparr>" rep_settings init_settings "ok_settings (big_endian E)"
    "enc_settings (big_endian E)" "serialize_CspPartySettings (E\<lparr>malloc_ok := \<lambda>_. True\<rparr>) p q"
    "deserialize_CspPartySettings (E\<lparr>malloc_ok := \<lambda>_. True\<rparr>) p q" for E p q
proof
  fix c :: sdata and x m
  assume "body_ctx (E\<lparr>malloc_ok := \<lambda>_. True\<rparr>) c" "rep_settings x m" "ok_settings (big_endian E) (mode_of c) m"
  then show "emits (E\<lparr>malloc_ok := \<lambda>_. True\<rparr>) (serialize_CspPartySettings (E\<lparr>malloc_ok := \<lambda>_. True\<rparr>) p q x)
      (enc_settings (big_endian E) (mode_of c) m) c"
    using emits_settings [where E = "E\<lparr>malloc_ok := \<lambda>_. True\<rparr>"] by simp
next
  fix d :: ddata and old m
  assume "body_ctx (E\<lparr>malloc_ok := \<lambda>_. True\<rparr>) d" "init_settings old" "ok_settings (big_endian E) (mode_of d) m"
  then show "reads (E\<lparr>malloc_ok := \<lambda>_. True\<rparr>) (\<lambda>d. deserialize_CspPartySettings (E\<lparr>malloc_ok := \<lambda>_. True\<rparr>) p q d old)
      (enc_settings (big_endian E) (mode_of d) m) d (\<lambda>s. rep_settings s m)"
    using reads_settings [where E = "E\<lparr>malloc_ok := \<lambda>_. True\<rparr>"] by (simp add: memory_out_def)
qed

section \<open>Agreement of two parties\<close>

definition common_interfaces :: "interface_version list \<Rightarrow> interface_version list \<Rightarrow> interface_version list" where
  "common_interfaces ls rs =
     List.map_filter (\<lambda>l. map_option (\<lambda>r. InterfaceVersion (iv_id l) (min (iv_version l) (iv_version r)))
       (find (\<lambda>r. iv_id l = iv_id r) rs)) ls"

lemma push_common_versions_ok:
  assumes "\<not> memory_out E"
  shows "vec_rep v xs \<Longrightarrow> length xs + length ls < 2 ^ 58 \<Longrightarrow>
   \<exists>v'. push_common_versions E ls rs v = (NoError, v') \<and> vec_rep v' (xs @ filter (\<lambda>l. l \<in> set rs) ls)"
proof (induction ls arbitrary: v xs)
  case Nil
  then show ?case by simp
next
  case (Cons l ls)
  have f: "find (\<lambda>r. l = r) rs = (if l \<in> set rs then Some l else None)"
    by (induction rs) auto
  show ?case
  proof (cases "l \<in> set rs")
    case True
    have "\<exists>v'. vec_pushBack E octet v l = (NoError, v') \<and> vec_rep v' (xs @ [l])"
      using raw.pushBack_ok [of v xs 0 E l] Cons.prems assms
      by (auto simp: octet_eq fits_def raw_elem_def memory_out_def)
    then obtain v' where v': "vec_pushBack E octet v l = (NoError, v')" "vec_rep v' (xs @ [l])" by blast
    then show ?thesis using Cons.IH [OF v'(2)] Cons.prems True f by simp
  next
    case False
    then show ?thesis using Cons.IH [OF Cons.prems(1)] Cons.prems(2) f by simp
  qed
qed

lemma push_common_interfaces_ok:
  assumes "\<not> memory_out E"
  shows "vec_rep v xs \<Longrightarrow> length xs + length ls < 2 ^ 57 \<Longrightarrow>
   \<exists>v'. push_common_interfaces E ls rs v = (NoError, v') \<and> vec_rep v' (xs @ common_interfaces ls rs)"
proof (induction ls arbitrary: v xs)
  case Nil
  then show ?case by (simp add: common_interfaces_def map_filter_simps)
next
  case (Cons l ls)
  show ?case
  proof (cases "find (\<lambda>r. iv_id l = iv_id r) rs")
    case None
    then show ?thesis using Cons.IH [OF Cons.prems(1)] Cons.prems(2)
      by (simp add: common_interfaces_def map_filter_simps uuid_eq_iff)
  next
    case (Some r)
    let ?x = "InterfaceVersion (iv_id l) (min (iv_version l) (iv_version r))"
    have "\<exists>v'. vec_pushBack E iv_elem v ?x = (NoError, v') \<and> vec_rep v' (xs @ [?x])"
      using raw.pushBack_ok [of v xs 19 E ?x] Cons.prems assms
      by (auto simp: iv_elem_def fits_def raw_elem_def memory_out_def)
    then obtain v' where v': "vec_pushBack E iv_elem v ?x = (NoError, v')" "vec_rep v' (xs @ [?x])" by blast
    have m: "(if iv_version l < iv_version r then iv_version l else iv_version r) = min (iv_version l) (iv_version r)"
      by (auto simp: min_def)
    show ?thesis using Cons.IH [OF v'(2)] Cons.prems Some v'(1)
      by (simp add: common_interfaces_def map_filter_simps uuid_eq_iff m)
  qed
qed

lemma getCompatibleSettings_ok:
  assumes "vec_rep (m_protocolVersions s) []" "vec_rep (m_interfaces s) []"
    and "rep_settings lhs l" "rep_settings rhs r" "\<not> memory_out E"
    and "length (sv_protocolVersions l) < 2 ^ 57" "length (sv_interfaces l) < 2 ^ 57"
    and "vs = filter (\<lambda>v. v \<in> set (sv_protocolVersions r)) (sv_protocolVersions l)"
    and "is = common_interfaces (sv_interfaces l) (sv_interfaces r)"
    and "mandatory = cf_or (sv_mandatory l) (sv_mandatory r)" "forbidden = cf_or (sv_forbidden l) (sv_forbidden r)"
  shows "\<exists>st s'. getCompatibleSettings E s lhs rhs = (st, s')
     \<and> st = (if vs = [] then ErrorNotSupportedProtocolVersion
             else if cf_bool (cf_and mandatory forbidden) then ErrorNotCompatibleCommonFlagsSettings
             else if is = [] then ErrorNoSupportedInterfaces else NoError)
     \<and> (st = NoError \<longrightarrow> rep_settings s' \<lparr>sv_protocolVersions = vs, sv_mandatory = mandatory,
          sv_forbidden = forbidden, sv_interfaces = is\<rparr>)"
proof -
  have o: "vec_objects (m_protocolVersions lhs) = sv_protocolVersions l" "vec_objects (m_protocolVersions rhs) = sv_protocolVersions r"
    "vec_objects (m_interfaces lhs) = sv_interfaces l" "vec_objects (m_interfaces rhs) = sv_interfaces r"
    using assms(3,4) by (simp_all add: rep_settings_def vec_rep_objects)
  obtain v where v: "push_common_versions E (sv_protocolVersions l) (sv_protocolVersions r) (m_protocolVersions s) = (NoError, v)"
    "vec_rep v vs"
    using push_common_versions_ok [OF assms(5,1), of "sv_protocolVersions l" "sv_protocolVersions r"] assms(6,8) by auto
  obtain u where u: "push_common_interfaces E (sv_interfaces l) (sv_interfaces r) (m_interfaces s) = (NoError, u)" "vec_rep u is"
    using push_common_interfaces_ok [OF assms(5,2), of "sv_interfaces l" "sv_interfaces r"] assms(7,9) by auto
  have z: "vec_size v = 0 \<longleftrightarrow> vs = []" "vec_size u = 0 \<longleftrightarrow> is = []"
    using v(2) u(2) by (auto simp: vec_rep_def vec_size_def unat_eq_0)
  have fl: "m_mandatoryCommonFlags lhs = sv_mandatory l" "m_mandatoryCommonFlags rhs = sv_mandatory r"
    "m_forbiddenCommonFlags lhs = sv_forbidden l" "m_forbiddenCommonFlags rhs = sv_forbidden r"
    using assms(3,4) by (simp_all add: rep_settings_def)
  show ?thesis
    using v u z by (simp add: getCompatibleSettings_def o fl assms(10,11) rep_settings_def Let_def)
qed

text \<open>
  C12: \<open>getCompatibleSettings\<close> on fresh settings computes what both parties accept: the protocol
  versions of the left party that the right one has too, in the left party's order; the union
  of the mandatory and of the forbidden common flags; and for every interface of the left party
  that the right one has, the smaller of the two versions. It fails, in this order, when no
  protocol version is common, when a flag is mandatory and forbidden, or when no interface is common.
\<close>
theorem compatible_settings_agree:
  assumes "vec_rep (m_protocolVersions s) []" "vec_rep (m_interfaces s) []"
    and "rep_settings lhs l" "rep_settings rhs r" "\<not> memory_out E"
    and "length (sv_protocolVersions l) < 2 ^ 57" "length (sv_interfaces l) < 2 ^ 57"
    and "vs = filter (\<lambda>v. v \<in> set (sv_protocolVersions r)) (sv_protocolVersions l)"
    and "is = common_interfaces (sv_interfaces l) (sv_interfaces r)"
    and "mandatory = cf_or (sv_mandatory l) (sv_mandatory r)" "forbidden = cf_or (sv_forbidden l) (sv_forbidden r)"
  shows "\<exists>st s'. getCompatibleSettings E s lhs rhs = (st, s')
     \<and> st = (if vs = [] then ErrorNotSupportedProtocolVersion
             else if cf_bool (cf_and mandatory forbidden) then ErrorNotCompatibleCommonFlagsSettings
             else if is = [] then ErrorNoSupportedInterfaces else NoError)
     \<and> (st = NoError \<longrightarrow> rep_settings s' \<lparr>sv_protocolVersions = vs, sv_mandatory = mandatory,
          sv_forbidden = forbidden, sv_interfaces = is\<rparr>)"
  using assms by (rule getCompatibleSettings_ok)

definition sample_settings :: "byte list \<Rightarrow> interface_version list \<Rightarrow> csp_party_settings" where
  "sample_settings vs is = (settings_new False)
     \<lparr>m_protocolVersions := \<lparr>m_p = Cells (map Obj vs), m_dataSize = of_nat (length vs), m_allocatedSize = of_nat (length vs),
        m_AllocationManager = GenericManager\<rparr>,
      m_mandatoryCommonFlags := cf_of 0, m_forbiddenCommonFlags := cf_of 2,
      m_interfaces := \<lparr>m_p = Cells (map Obj is), m_dataSize = of_nat (length is), m_allocatedSize = of_nat (length is),
        m_AllocationManager = GenericManager\<rparr>\<rparr>"

lemma sample_settings_rep:
  "length vs < 2 ^ 64 \<Longrightarrow> length is < 2 ^ 64 \<Longrightarrow> rep_settings (sample_settings vs is)
     \<lparr>sv_protocolVersions = vs, sv_mandatory = cf_of 0, sv_forbidden = cf_of 2, sv_interfaces = is\<rparr>"
  by (simp add: rep_settings_def sample_settings_def vec_rep_def vec_cells_def unat_of_nat take_bit_nat_eq_self)

theorem compatible_settings_agree_witness:
  "\<exists>s'. getCompatibleSettings sample_env (settings_new False)
       (sample_settings [2, 1] [InterfaceVersion kNullUuid 3]) (sample_settings [1] [InterfaceVersion kNullUuid 2]) = (NoError, s')
     \<and> vec_rep (m_protocolVersions s') [1] \<and> vec_rep (m_interfaces s') [InterfaceVersion kNullUuid 2]"
proof -
  have m: "\<not> memory_out sample_env" by (simp add: memory_out_def)
  have e: "vec_rep (m_protocolVersions (settings_new False)) []" "vec_rep (m_interfaces (settings_new False)) []"
    by (simp_all add: settings_new_def vec_rep_empty)
  have "\<not> cf_bool (cf_and (cf_or (cf_of 0) (cf_of 0)) (cf_or (cf_of 2) (cf_of 2)))" by code_simp
  then show ?thesis
    using compatible_settings_agree [OF e sample_settings_rep [of "[2, 1]" "[InterfaceVersion kNullUuid 3]"]
      sample_settings_rep [of "[1]" "[InterfaceVersion kNullUuid 2]"] m _ _ refl refl refl refl]
    by (auto simp: common_interfaces_def map_filter_simps rep_settings_def)
qed

lemma serialize_items_silent:
  assumes "\<And>x. ser x c = (NoError, c)" "\<not> m_checkRecursivePointers c"
  shows "serialize_items ser addr i xs c = (NoError, c)"
  using assms(2) by (induction xs arbitrary: i) (simp_all add: assms(1) run_simps)

lemma serialize_InterfaceVersion_silent:
  "m_endiannessDifference c \<Longrightarrow>
   serialize_simple E (InterfaceVersion_type be) x c = (NoError, c)
   \<and> deserialize_simple E (InterfaceVersion_type be) d x = (if m_endiannessDifference d then (NoError, d, x)
       else deserialize_simple E (InterfaceVersion_type be) d x)"
  by (simp add: serialize_simple_def deserialize_simple_def serializeSimplyAssignable_def deserializeSimplyAssignable_def
      AnySimplyAssignable_def EndiannessTolerant_def InterfaceVersion_type_def)

lemma writePrimitive_bin: "\<exists>st b. writePrimitive E w c = (st, c\<lparr>m_binaryData := b\<rparr>)"
  by (auto simp: writePrimitive_def Let_def split: prod.split)

lemma serializeSizeT_bin: "\<exists>st b. serializeSizeT E n c = (st, c\<lparr>m_binaryData := b\<rparr>)"
proof -
  obtain st w where w: "castToSmallerType False n (0 :: u32) = (st, w)" by fastforce
  have "\<exists>st' b. run (st, c) (\<lambda>c. writePrimitive E w c) = (st', c\<lparr>m_binaryData := b\<rparr>)"
  proof (cases "statusSuccess st")
    case True
    then have "run (st, c) (\<lambda>c. writePrimitive E w c) = writePrimitive E w c" by (simp add: run_simps)
    then show ?thesis by (metis writePrimitive_bin)
  next
    case False
    then have "run (st, c) (\<lambda>c. writePrimitive E w c) = (st, c\<lparr>m_binaryData := m_binaryData c\<rparr>)"
      by (simp add: run_simps)
    then show ?thesis by blast
  qed
  moreover have "serializeSizeT E n c = (if \<not> m_bitness32 c then writePrimitive E n c
      else run (st, c) (\<lambda>c. writePrimitive E w c))"
    by (simp add: serializeSizeT_def serializeToAnotherSize_def serializeToAnotherSizeInternal_def w)
  ultimately show ?thesis using writePrimitive_bin [of E n c] by (auto simp: run_simps)
qed

text \<open>
  C32: between platforms of different byte order the interfaces of a party's settings are lost:
  with the flag for a difference in endianness set, the serialization of the vector of
  \<open>InterfaceVersion\<close> answers as if it had succeeded but writes nothing behind the length, because
  a struct that is only copied as a block reports \<open>NoError\<close> when it may not be copied.
\<close>
theorem interfaces_lost_across_endianness:
  assumes "m_endiannessDifference c" "\<not> m_checkRecursivePointers c"
  shows "serialize_interfaces E addr v c = run (serializeSizeT E (vec_size v) c) (\<lambda>c. (NoError, c))"
proof -
  obtain st b where sz: "serializeSizeT E (vec_size v) c = (st, c\<lparr>m_binaryData := b\<rparr>)"
    using serializeSizeT_bin by blast
  let ?c = "c\<lparr>m_binaryData := b\<rparr>"
  have "\<not> copies_arrays (InterfaceVersion_type (big_endian E)) ?c"
    using assms(1) by (simp add: copies_arrays_def EndiannessTolerant_def InterfaceVersion_type_def)
  moreover have "serialize_items (serialize_simple E (InterfaceVersion_type (big_endian E))) addr 0 (vec_objects v) ?c = (NoError, ?c)"
    using assms serialize_InterfaceVersion_silent by (intro serialize_items_silent) auto
  ultimately have "serialize_array E (InterfaceVersion_type (big_endian E)) (serialize_simple E (InterfaceVersion_type (big_endian E)))
      addr (vec_objects v) ?c = (NoError, ?c)"
    by (simp add: serialize_array_def)
  then show ?thesis
    by (simp add: serialize_interfaces_def serialize_vector_def sz run_simps)
qed

theorem interfaces_lost_across_endianness_witness:
  "serialize_interfaces sample_env id (m_interfaces (sample_settings [1] [InterfaceVersion kNullUuid 3])) (sample_sdata True)
     = run (serializeSizeT sample_env 1 (sample_sdata True)) (\<lambda>c. (NoError, c))"
  using interfaces_lost_across_endianness [of "sample_sdata True" sample_env id "m_interfaces (sample_settings [1] [InterfaceVersion kNullUuid 3])"]
  by (simp add: sample_sdata_def sample_scommon_def common.defs sample_settings_def vec_size_def)

end
