(* ===== verification/Messages.thy ===== *)
theory Messages
  imports StructCodec
begin

text \<open>
  Whole data messages: \<open>ISerializable::serialize\<close> writes the two headers and the body, and
  \<open>ISerializable::deserialize\<close> of a party that accepts the versions and flags reads them.
\<close>

section \<open>Sending\<close>

definition data_message :: "bool \<Rightarrow> struct_info \<Rightarrow> sdata \<Rightarrow> byte list \<Rightarrow> byte list" where
  "data_message be T c xs =
     common_header (m_protocolVersion c) (m_messageType c) (getCommonFlags c)
     @ data_header be (m_bigEndianFormat c) (getId T) (m_interfaceVersion c) (m_dataFlags c) @ xs"

text \<open>A context with which a struct goes out, and one with which it goes in its latest form.\<close>

definition sendable_at :: "env \<Rightarrow> struct_info \<Rightarrow> sdata \<Rightarrow> bool" where
  "sendable_at E T c \<longleftrightarrow> body_ctx E c \<and> isProtocolVersionSupported (m_protocolVersion c)
     \<and> m_interfaceVersion c \<noteq> kInterfaceVersionUndefined
     \<and> data_ok T (m_interfaceVersion c) (m_dataFlags c) \<and> df_valid (m_dataFlags c)"

definition sendable :: "env \<Rightarrow> struct_info \<Rightarrow> sdata \<Rightarrow> bool" where
  "sendable E T c \<longleftrightarrow> body_ctx E c \<and> isProtocolVersionSupported (m_protocolVersion c)
     \<and> m_interfaceVersion c \<noteq> kInterfaceVersionUndefined
     \<and> data_ok T (m_interfaceVersion c) (m_dataFlags c) \<and> df_valid (m_dataFlags c)
     \<and> getLatestInterfaceVersion T \<le> m_interfaceVersion c"

lemma sendable_iff: "sendable E T c \<longleftrightarrow> sendable_at E T c \<and> getLatestInterfaceVersion T \<le> m_interfaceVersion c"
  by (auto simp: sendable_def sendable_at_def)

lemmas sendable_at = sendable_iff [THEN iffD1, THEN conjunct1]

lemma message_written:
  assumes s: "sendable_at E T c" and b: "emits E body xs (versions_noted T c)"
    and m: "\<not> memory_out E" "vec_rep (m_binaryData c) bs" "length bs + 32 + length xs < 2 ^ 63"
  shows "\<exists>b. iserializable_serialize E T body c = (NoError, (versions_noted T c)\<lparr>m_binaryData := b\<rparr>)
     \<and> vec_rep b (bs @ data_message (big_endian E) T c xs)"
proof -
  let ?h = "common_header (m_protocolVersion c) (m_messageType c) (getCommonFlags c)"
    and ?d = "data_header (big_endian E) (m_bigEndianFormat c) (getId T) (m_interfaceVersion c) (m_dataFlags c)"
  have c: "common_inv (big_endian E) c" "data_inv c" "\<not> m_checkRecursivePointers c"
    "data_ok T (m_interfaceVersion c) (m_dataFlags c)" using s by (simp_all add: sendable_at_def body_ctx_def)
  have l: "length bs + length ?h < 2 ^ 63" "length (bs @ ?h) + 24 < 2 ^ 63" "length (bs @ ?h @ ?d) + length xs < 2 ^ 63"
    using m(3) by simp_all
  have e: "emits E (common_serialize E) ?h c" using s by (intro emits_common_serialize) (auto simp: sendable_at_def body_ctx_def)
  obtain b1 where b1: "common_serialize E c = (NoError, c\<lparr>m_binaryData := b1\<rparr>)" "vec_rep b1 (bs @ ?h)"
    using emits_total [OF e m(1,2) l(1)] by blast
  obtain b2 where b2: "data_serialize E T (c\<lparr>m_binaryData := b1\<rparr>) = (NoError, (versions_noted T c)\<lparr>m_binaryData := b2\<rparr>)"
    "vec_rep b2 (bs @ ?h @ ?d)"
    using data_serialize_at [of E "c\<lparr>m_binaryData := b1\<rparr>" T "bs @ ?h"] c m(1) b1(2) l(2) by (auto simp: ctx_simps)
  from b b2(2) l(3) obtain b3 where b3: "body ((versions_noted T c)\<lparr>m_binaryData := b2\<rparr>) = (NoError, (versions_noted T c)\<lparr>m_binaryData := b3\<rparr>)"
    "vec_rep b3 (bs @ data_message (big_endian E) T c xs)"
    by (cases rule: emitsE) (use m(1) in \<open>auto simp: data_message_def\<close>)
  then show ?thesis
    using b1(1) b2(1) c s by (intro exI [of _ b3]) (simp add: iserializable_serialize_def run_simps sendable_at_def)
qed

lemma emits_iserializable:
  assumes s: "sendable E T c" and b: "emits E body xs c"
  shows "emits E (iserializable_serialize E T body) (data_message (big_endian E) T c xs) c"
proof -
  have c: "body_ctx E c" "common_inv (big_endian E) c" "data_inv c" "\<not> m_checkRecursivePointers c"
    "m_endiannessNotMatch c \<longrightarrow> m_endiannessDifference c"
    using s by (simp_all add: sendable_def body_ctx_def)
  let ?g = "\<lambda>ctx. run (common_serialize E ctx) (\<lambda>ctx. run (data_serialize E T ctx) (\<lambda>ctx.
           if m_checkRecursivePointers ctx \<and> m_pPointersMap ctx = None
           then (let (st, ctx) = body (setPointersMap ctx (Some (\<lambda>_. None))) in (st, setPointersMap ctx None))
           else body ctx))"
  have "emits E ?g (data_message (big_endian E) T c xs) c"
    unfolding data_message_def using s c
    by (intro emits_run emits_common_serialize emits_data_serialize emits_else b) (simp_all add: sendable_def)
  moreover have "iserializable_serialize E T body (c\<lparr>m_binaryData := w\<rparr>) = ?g (c\<lparr>m_binaryData := w\<rparr>)" for w
    using s by (simp add: iserializable_serialize_def sendable_def)
  ultimately show ?thesis by (subst emits_cong [where g = ?g])
qed

section \<open>Receiving\<close>

text \<open>The context of the reading party after the headers, and when it gets that far.\<close>

definition received :: "env \<Rightarrow> sdata \<Rightarrow> ddata \<Rightarrow> ddata" where
  "received E c d =
     setDataFlags (setInterfaceVersion (setCommonFlags (big_endian E)
       (setMessageType (setProtocolVersion d (m_protocolVersion c)) (message_of_word (message_word (m_messageType c))))
       (getCommonFlags c)) (m_interfaceVersion c)) (m_dataFlags c)"

definition accepts :: "struct_info \<Rightarrow> sdata \<Rightarrow> ddata \<Rightarrow> bool" where
  "accepts T c d \<longleftrightarrow> m_protocolVersion d \<le> m_protocolVersion c
     \<and> (if m_interfaceVersion d = kInterfaceVersionUndefined then getOriginPrivateVersion T
         else m_interfaceVersion d) \<le> m_interfaceVersion c
     \<and> (df_allowUnmanagedPointers (m_dataFlags c) \<longrightarrow> m_pAddedPointers d \<noteq> None)"

lemma set_bin [simp]:
  "setProtocolVersion (x\<lparr>m_binaryData := w\<rparr>) pv = (setProtocolVersion x pv)\<lparr>m_binaryData := w\<rparr>"
  "setMessageType (x\<lparr>m_binaryData := w\<rparr>) mt = (setMessageType x mt)\<lparr>m_binaryData := w\<rparr>"
  "setCommonFlags be (x\<lparr>m_binaryData := w\<rparr>) cf = (setCommonFlags be x cf)\<lparr>m_binaryData := w\<rparr>"
  "setInterfaceVersion (y\<lparr>m_binaryData := w\<rparr>) iv = (setInterfaceVersion y iv)\<lparr>m_binaryData := w\<rparr>"
  "setDataFlags (y\<lparr>m_binaryData := w\<rparr>) df = (setDataFlags y df)\<lparr>m_binaryData := w\<rparr>"
  by (simp_all add: setDataFlags_def setInterfaceVersion_def setCommonFlags_def setMessageType_def setProtocolVersion_def)

lemma received_bin [simp]: "received E c (d\<lparr>m_binaryData := w\<rparr>) = (received E c d)\<lparr>m_binaryData := w\<rparr>"
  by (simp add: received_def)

lemma received_mode:
  assumes "sendable_at E T c"
  shows "mode_of (received E c d) = mode_of c" "body_ctx E (received E c d)"
  using assms
  by (auto simp: sendable_at_def body_ctx_def data_inv_def common_inv_def mode_of_def received_def setDataFlags_def
      setInterfaceVersion_def setCommonFlags_def setMessageType_def setProtocolVersion_def getCommonFlags_tests)

lemma iserializable_headers_at:
  assumes s: "sendable_at E T c" and a: "accepts T c d"
    and w: "walker_rep (m_binaryData d) bs k" "length bs < 2 ^ 62"
    and t: "take (length (data_message (big_endian E) T c xs)) (drop k bs) = data_message (big_endian E) T c xs"
  shows "\<exists>w. iserializable_deserialize E T body d old = body ((versions_noted T (received E c d))\<lparr>m_binaryData := w\<rparr>) old
     \<and> walker_rep w bs (k + 32)"
proof -
  have l: "length bs < 2 ^ 63" using w(2) by simp
  have t1: "take 8 (drop k bs) = common_header (m_protocolVersion c) (m_messageType c) (getCommonFlags c)"
    using arg_cong [OF t, of "take 8"] by (simp add: data_message_def)
  have t2: "take 24 (drop (k + 8) bs)
      = data_header (big_endian E) (m_bigEndianFormat c) (getId T) (m_interfaceVersion c) (m_dataFlags c)"
    using arg_cong [OF t, of "\<lambda>x. take 24 (drop 8 x)"]
    by (simp add: data_message_def drop_take add.commute)
  let ?d1 = "setCommonFlags (big_endian E) (setMessageType (setProtocolVersion d (m_protocolVersion c))
       (message_of_word (message_word (m_messageType c)))) (getCommonFlags c)"
  have fl: "cf_bigEndianFormat (getCommonFlags c) = big_endian E \<or> cf_endiannessDifference (getCommonFlags c)"
    using s by (auto simp: getCommonFlags_tests sendable_at_def body_ctx_def common_inv_def)
  have v: "m_protocolVersion d \<le> m_protocolVersion c" "m_protocolVersion c \<le> getLatestProtocolVersion"
    using a s by (simp_all add: accepts_def sendable_at_def isProtocolVersionSupported_iff getLatestProtocolVersion_def kProtocolVersions_def)
  obtain w1 where c1: "common_deserialize E d = (NoError, ?d1\<lparr>m_binaryData := w1\<rparr>)" "walker_rep w1 bs (k + 8)"
    using common_deserialize_ok [OF w(1) l t1 getCommonFlags_tests(4) v fl]
    by auto
  have i: "common_inv (big_endian E) (?d1\<lparr>m_binaryData := w1\<rparr>)" by (simp add: ctx_simps)
  have bf: "m_bigEndianFormat (?d1\<lparr>m_binaryData := w1\<rparr>) = m_bigEndianFormat c"
    by (simp add: setCommonFlags_def getCommonFlags_tests)
  have w1: "walker_rep (m_binaryData (?d1\<lparr>m_binaryData := w1\<rparr>)) bs (k + 8)" using c1(2) by simp
  have dv: "df_valid (m_dataFlags c)" using s by (simp add: sendable_at_def)
  obtain w2 where c2: "data_deserializeNoChecks E (?d1\<lparr>m_binaryData := w1\<rparr>) kNullUuid
      = (NoError, (received E c d)\<lparr>m_binaryData := w2\<rparr>, getId T)" "walker_rep w2 bs (k + 32)"
    using data_deserializeNoChecks_ok [OF i w1 l _ dv, of "getId T" "m_interfaceVersion c" kNullUuid] t2 bf
    by (auto simp: received_def add.commute add.assoc)
  have pr: "data_deserializePostprocessRest T ((received E c d)\<lparr>m_binaryData := w2\<rparr>)
      (if m_interfaceVersion d = kInterfaceVersionUndefined then getOriginPrivateVersion T else m_interfaceVersion d)
      = (NoError, versions_noted T ((received E c d)\<lparr>m_binaryData := w2\<rparr>))"
    using s a
    by (intro data_deserializePostprocessRest_at)
       (auto simp: sendable_at_def accepts_def data_ok_def received_def setDataFlags_def setInterfaceVersion_def
          setCommonFlags_def setMessageType_def setProtocolVersion_def isInterfaceVersionSupported_def)
  have nc: "\<not> m_checkRecursivePointers ((received E c d)\<lparr>m_binaryData := w2\<rparr>)"
    using received_mode(2) [OF s, of d] by (simp add: body_ctx_def)
  have iv: "m_interfaceVersion (?d1\<lparr>m_binaryData := w1\<rparr>) = m_interfaceVersion d"
    by (simp add: setCommonFlags_def setMessageType_def setProtocolVersion_def)
  show ?thesis
    using c1 c2 pr nc iv
    by (intro exI [of _ w2], cases "m_interfaceVersion d = kInterfaceVersionUndefined")
       (simp_all add: iserializable_deserialize_def run_simps data_deserializePostprocessId_def uuid_eq_iff Let_def)
qed

lemma received_latest:
  "sendable E T c \<Longrightarrow> versions_noted T (received E c d) = received E c d"
  by (rule versions_noted_simps(2)) (simp add: sendable_def received_def setDataFlags_def setInterfaceVersion_def)

lemma iserializable_headers:
  assumes s: "sendable E T c" and a: "accepts T c d"
    and w: "walker_rep (m_binaryData d) bs k" "length bs < 2 ^ 62"
    and t: "take (length (data_message (big_endian E) T c xs)) (drop k bs) = data_message (big_endian E) T c xs"
  shows "\<exists>w. iserializable_deserialize E T body d old = body ((received E c d)\<lparr>m_binaryData := w\<rparr>) old
     \<and> walker_rep w bs (k + 32)"
  using iserializable_headers_at [OF _ a w t] s received_latest [OF s] by (simp add: sendable_iff)

section \<open>The contract of whole messages\<close>

context codec
begin

text \<open>A message that one party sends is what the other receives, and nothing is left of it.\<close>

lemma message_roundtrip:
  assumes s: "sendable E T c" and a: "accepts T c d" and r: "rep x m" and o: "ok (mode_of c) m" and i: "init old"
    and mem: "\<not> memory_out E" and b: "vec_rep (m_binaryData c) bs"
    and w: "walker_rep (m_binaryData d) (bs @ data_message (big_endian E) T c (enc (mode_of c) m)) (length bs)"
    and l: "length bs + 32 + length (enc (mode_of c) m) < 2 ^ 62"
  shows "\<exists>b w y. iserializable_serialize E T (ser x) c = (NoError, c\<lparr>m_binaryData := b\<rparr>)
     \<and> vec_rep b (bs @ data_message (big_endian E) T c (enc (mode_of c) m))
     \<and> iserializable_deserialize E T des d old = (NoError, (received E c d)\<lparr>m_binaryData := w\<rparr>, y) \<and> rep y m
     \<and> walker_rep w (bs @ data_message (big_endian E) T c (enc (mode_of c) m))
         (length (bs @ data_message (big_endian E) T c (enc (mode_of c) m)))"
proof -
  let ?xs = "enc (mode_of c) m"
  let ?ms = "data_message (big_endian E) T c ?xs"
  have lm: "length ?ms = 32 + length ?xs" by (simp add: data_message_def)
  have bc: "body_ctx E c" using s by (simp add: sendable_def)
  have "length bs + length ?ms < 2 ^ 63" using l lm by simp
  from emits_total [OF emits_iserializable [OF s ser_emits [OF bc r o]] mem b this]
  obtain b' where b': "iserializable_serialize E T (ser x) c = (NoError, c\<lparr>m_binaryData := b'\<rparr>)" "vec_rep b' (bs @ ?ms)"
    by blast
  have lb: "length (bs @ ?ms) < 2 ^ 62" using l lm by simp
  have "take (length ?ms) (drop (length bs) (bs @ ?ms)) = ?ms" by simp
  from iserializable_headers [OF s a w lb this, of des old] obtain w1 where
    w1: "iserializable_deserialize E T des d old = des ((received E c d)\<lparr>m_binaryData := w1\<rparr>) old"
      "walker_rep w1 (bs @ ?ms) (length bs + 32)" by blast
  have rd: "reads E (\<lambda>d. des d old) ?xs (received E c d) (\<lambda>y. rep y m)"
    using des_reads [where m = m, OF received_mode(2) [OF sendable_at [OF s]] i] o by (simp add: received_mode(1) [OF sendable_at [OF s]])
  have "drop (length bs + 32) (bs @ ?ms) = ?xs" by (simp add: data_message_def)
  then have "length ?xs \<le> length (bs @ ?ms) - (length bs + 32)"
    "take (length ?xs) (drop (length bs + 32) (bs @ ?ms)) = ?xs" using lm by simp_all
  with rd w1(2) lb show ?thesis
    by (cases rule: readsE) (use b' w1(1) mem lm in \<open>auto simp: add.assoc\<close>)
qed

lemma message_delivered:
  assumes s: "sendable E T c" and r: "rep x m" and o: "ok (mode_of c) m" and i: "init old"
    and mem: "\<not> memory_out E" and b: "vec_rep (m_binaryData c) bs"
    and l: "length bs + 32 + length (enc (mode_of c) m) < 2 ^ 62"
  shows "\<exists>b out. iserializable_serialize E T (ser x) c = (NoError, c\<lparr>m_binaryData := b\<rparr>) \<and> vec_rep b (bs @ out) \<and>
     (\<forall>d. accepts T c d \<and> walker_rep (m_binaryData d) (bs @ out) (length bs) \<longrightarrow>
        (\<exists>w y. iserializable_deserialize E T des d old = (NoError, (received E c d)\<lparr>m_binaryData := w\<rparr>, y) \<and> rep y m
           \<and> walker_rep w (bs @ out) (length (bs @ out))))"
proof -
  let ?ms = "data_message (big_endian E) T c (enc (mode_of c) m)"
  have bc: "body_ctx E c" using s by (simp add: sendable_def)
  have "length bs + length ?ms < 2 ^ 63" using l by (simp add: data_message_def)
  from emits_total [OF emits_iserializable [OF s ser_emits [OF bc r o]] mem b this]
  obtain b' where b': "iserializable_serialize E T (ser x) c = (NoError, c\<lparr>m_binaryData := b'\<rparr>)" "vec_rep b' (bs @ ?ms)"
    by blast
  have "\<exists>w y. iserializable_deserialize E T des d old = (NoError, (received E c d)\<lparr>m_binaryData := w\<rparr>, y) \<and> rep y m
      \<and> walker_rep w (bs @ ?ms) (length (bs @ ?ms))"
    if "accepts T c d" "walker_rep (m_binaryData d) (bs @ ?ms) (length bs)" for d
    using message_roundtrip [OF s that(1) r o i mem b that(2) l] by blast
  with b' show ?thesis by blast
qed

end

section \<open>Claims\<close>

lemma sample_sendable:
  assumes "T \<in> {CspPartySettings_info False, OutGetInterface_info False, GetInterface_info False}" "big_endian E = False"
  shows "sendable E T ((sample_sdata False)\<lparr>m_interfaceVersion := 1\<rparr>)"
    and "latest_form T (mode_of ((sample_sdata False)\<lparr>m_interfaceVersion := 1\<rparr>))"
proof -
  obtain i where T: "T = service_info False i"
    using assms(1) by (auto simp: CspPartySettings_info_def OutGetInterface_info_def GetInterface_info_def)
  have f: "testDataFlagsCompatibility (Some T) df_default = NoError"
    by (simp add: T testDataFlagsCompatibility_def getEffectiveMandatoryDataFlags_def getEffectiveForbiddenDataFlags_def service_info_def
       service_properties_def getInterface_def df_default_def df_and_def df_or_word_def df_bool_def df_eq_def df_or_def df_of_def)
  have b: "body_ctx E ((sample_sdata False)\<lparr>m_interfaceVersion := 1\<rparr>)"
    using sample_sdata_ok(1) [OF assms(2), of False] by (auto simp: body_ctx_def common_inv_def data_inv_def)
  show "sendable E T ((sample_sdata False)\<lparr>m_interfaceVersion := 1\<rparr>)"
    using b f by (simp add: sendable_def data_ok_def T service_info_def service_properties_def sample_sdata_def
      sample_scommon_def common.defs isProtocolVersionSupported_iff kInterfaceVersionUndefined_def df_default_def df_valid_def
      isInterfaceVersionSupported_def getOriginPrivateVersion_def getPrivateVersionsCount_def getInterface_def
      getLatestInterfaceVersion_def df_checkRecursivePointers_def)
  show "latest_form T (mode_of ((sample_sdata False)\<lparr>m_interfaceVersion := 1\<rparr>))"
    using f by (simp add: latest_form_def mode_of_def T service_info_def getBestCompatInterfaceVersion_def
      getPrivateVersionsCount_def getLatestPrivateVersion_def sample_sdata_def common.defs)
qed

lemma sample_copies: "copies_mode (InterfaceVersion_type False) (mode_of ((sample_sdata False)\<lparr>m_interfaceVersion := 1\<rparr>))"
  by code_simp

abbreviation sample_sender :: sdata where
  "sample_sender \<equiv> (sample_sdata False)\<lparr>m_interfaceVersion := 1\<rparr>"

lemma sample_env_ok: "\<not> memory_out sample_env" "big_endian sample_env = False"
  by (simp_all add: memory_out_def)

lemma sample_sender_rep: "vec_rep (m_binaryData sample_sender) []"
  using sample_sdata_ok(2) [of False] by simp

lemma length_enc_settings:
  "length (enc_settings be md m) \<le> 32 + length (sv_protocolVersions m) + 20 * length (sv_interfaces m)"
proof -
  have a: "length (concat (map (iv_octets be) is)) = 20 * length is" for "is"
    by (induction "is") (simp_all add: iv_octets_def)
  show ?thesis by (simp add: enc_settings_def enc_scalar_def enc_bytes_def enc_size_def a)
qed

text \<open>
  C3: the settings of a party cross the wire as a whole message. In a context that may send them,
  with a \<open>malloc\<close> that never fails, and with interfaces only where their array is copied as a block
  (\<open>ok_settings\<close>; under an endianness difference they are lost: C32), \<open>CspPartySettings::serialize\<close>
  writes the common header, the data header and the body; any context that accepts that version
  and these flags then deserializes the message, whatever settings the target object held, into
  settings with the same protocol versions, mandatory and forbidden flags and interfaces, takes
  over the sender's versions and flags, and leaves nothing of the message unread. Fewer than 256
  protocol versions and \<open>2 ^ 50\<close> interfaces.
\<close>
theorem settings_message_roundtrip:
  assumes "malloc_ok E = (\<lambda>_. True)"
    and "sendable E (CspPartySettings_info (big_endian E)) c" "ok_settings (big_endian E) (mode_of c) m"
    and "rep_settings x m" "init_settings old"
    and "vec_rep (m_binaryData c) bs" "length bs < 2 ^ 60" "length (sv_interfaces m) < 2 ^ 50"
  shows "\<exists>b out. iserializable_serialize E (CspPartySettings_info (big_endian E)) (serialize_CspPartySettings E p q x) c
       = (NoError, c\<lparr>m_binaryData := b\<rparr>) \<and> vec_rep b (bs @ out) \<and>
     (\<forall>d. accepts (CspPartySettings_info (big_endian E)) c d \<and> walker_rep (m_binaryData d) (bs @ out) (length bs) \<longrightarrow>
        (\<exists>w y. iserializable_deserialize E (CspPartySettings_info (big_endian E)) (deserialize_CspPartySettings E p q) d old
             = (NoError, (received E c d)\<lparr>m_binaryData := w\<rparr>, y) \<and> rep_settings y m
           \<and> walker_rep w (bs @ out) (length (bs @ out))))"
proof -
  have E: "E\<lparr>malloc_ok := \<lambda>_. True\<rparr> = E" using assms(1) by simp
  have mem: "\<not> memory_out E" using assms(1) by (simp add: memory_out_def)
  have "length (sv_protocolVersions m) < 256" using assms(3) by (simp add: ok_settings_def)
  then have l: "length bs + 32 + length (enc_settings (big_endian E) (mode_of c) m) < 2 ^ 62"
    using length_enc_settings [of "big_endian E" "mode_of c" m] assms(7,8) by simp
  from settings.message_delivered [where E = E, unfolded E, OF assms(2,4,3,5) mem assms(6) l]
  show ?thesis .
qed


theorem settings_message_roundtrip_witness:
  "\<exists>b out d' y. iserializable_serialize sample_env (CspPartySettings_info False)
       (serialize_CspPartySettings sample_env id id (sample_settings [1] [InterfaceVersion kNullUuid 2])) sample_sender
       = (NoError, sample_sender\<lparr>m_binaryData := b\<rparr>) \<and> vec_rep b out
     \<and> iserializable_deserialize sample_env (CspPartySettings_info False) (deserialize_CspPartySettings sample_env id id)
         (sample_ddata out False) (sample_settings [1, 0] []) = (NoError, d', y)
     \<and> vec_rep (m_protocolVersions y) [1] \<and> vec_rep (m_interfaces y) [InterfaceVersion kNullUuid 2]"
proof -
  let ?m = "\<lparr>sv_protocolVersions = [1], sv_mandatory = cf_of 0, sv_forbidden = cf_of 2, sv_interfaces = [InterfaceVersion kNullUuid 2]\<rparr>"
  let ?T = "CspPartySettings_info False"
  have s: "sendable sample_env (CspPartySettings_info (big_endian sample_env)) sample_sender"
    using sample_sendable(1) by simp
  have o: "ok_settings (big_endian sample_env) (mode_of sample_sender) ?m"
    using sample_sendable(2) [of "CspPartySettings_info False" sample_env]
    by (simp add: ok_settings_def fits_def iv_elem_def raw_elem_def ok_size_def sample_copies)
  have r: "rep_settings (sample_settings [1] [InterfaceVersion kNullUuid 2]) ?m" by (rule sample_settings_rep) simp_all
  have "rep_settings (sample_settings [1, 0] []) (?m\<lparr>sv_protocolVersions := [1, 0], sv_interfaces := []\<rparr>)"
    using sample_settings_rep [of "[1, 0]" "[]"] by simp
  then have i: "init_settings (sample_settings [1, 0] [])" unfolding init_settings_def by blast
  have "\<exists>b out. iserializable_serialize sample_env ?T
      (serialize_CspPartySettings sample_env id id (sample_settings [1] [InterfaceVersion kNullUuid 2])) sample_sender
      = (NoError, sample_sender\<lparr>m_binaryData := b\<rparr>) \<and> vec_rep b out
    \<and> (\<forall>d. accepts ?T sample_sender d \<and> walker_rep (m_binaryData d) out 0 \<longrightarrow>
      (\<exists>w y. iserializable_deserialize sample_env ?T (deserialize_CspPartySettings sample_env id id) d (sample_settings [1, 0] [])
        = (NoError, (received sample_env sample_sender d)\<lparr>m_binaryData := w\<rparr>, y) \<and> rep_settings y ?m
        \<and> walker_rep w out (length out)))"
    using settings_message_roundtrip [OF _ s o r i sample_sender_rep, of id id] by simp
  then obtain b out where 1: "iserializable_serialize sample_env ?T
      (serialize_CspPartySettings sample_env id id (sample_settings [1] [InterfaceVersion kNullUuid 2])) sample_sender
      = (NoError, sample_sender\<lparr>m_binaryData := b\<rparr>)" "vec_rep b out"
    and 2: "\<And>d. accepts ?T sample_sender d \<Longrightarrow> walker_rep (m_binaryData d) out 0 \<Longrightarrow>
      \<exists>w y. iserializable_deserialize sample_env ?T (deserialize_CspPartySettings sample_env id id) d (sample_settings [1, 0] [])
        = (NoError, (received sample_env sample_sender d)\<lparr>m_binaryData := w\<rparr>, y) \<and> rep_settings y ?m
        \<and> walker_rep w out (length out)" by blast
  have "length out < 2 ^ 64" using 1(2) unsigned_less [of "m_dataSize b", where 'a = nat] by (simp add: vec_rep_def)
  then have "walker_rep (m_binaryData (sample_ddata out False)) out 0" by (rule sample_ddata_rep)
  moreover have "accepts ?T sample_sender (sample_ddata out False)"
    by (simp add: accepts_def sample_ddata_def sample_dcommon_def sample_sdata_def sample_scommon_def common.defs df_default_def
        df_allowUnmanagedPointers_def kInterfaceVersionUndefined_def)
  ultimately show ?thesis using 1 2 [of "sample_ddata out False"] by (auto simp: rep_settings_def)
qed

text \<open>
  The answer to \<open>GetInterface\<close>, the properties of an interface, crosses the wire as a whole
  message, whether the struct is copied as a block or written field by field.
\<close>
lemma OutGetInterface_message_roundtrip:
  assumes "\<not> memory_out E" "sendable E (OutGetInterface_info (big_endian E)) c"
    and "latest_form (OutGetInterface_info (big_endian E)) (mode_of c)" "interface_valid (ogi_properties x)"
    and "vec_rep (m_binaryData c) bs" "length bs < 2 ^ 60"
  shows "\<exists>b out. iserializable_serialize E (OutGetInterface_info (big_endian E)) (serialize_OutGetInterface E x) c
       = (NoError, c\<lparr>m_binaryData := b\<rparr>) \<and> vec_rep b (bs @ out) \<and>
     (\<forall>d. accepts (OutGetInterface_info (big_endian E)) c d \<and> walker_rep (m_binaryData d) (bs @ out) (length bs) \<longrightarrow>
        (\<exists>w. iserializable_deserialize E (OutGetInterface_info (big_endian E)) (deserialize_OutGetInterface E) d old
             = (NoError, (received E c d)\<lparr>m_binaryData := w\<rparr>, x)
           \<and> walker_rep w (bs @ out) (length (bs @ out))))"
proof -
  have l: "length bs + 32 + length (enc_OutGetInterface (big_endian E) (mode_of c) x) < 2 ^ 62"
    using assms(6) by (simp add: enc_OutGetInterface_def enc_interface_def interface_octets_def enc_id_def
        enc_scalar_def enc_data_flags_def)
  from OutGetInterface.message_delivered [OF assms(2) refl _ TrueI assms(1,5) l] assms(3,4)
  show ?thesis by fastforce
qed

lemma OutGetInterface_message_roundtrip_witness:
  "\<exists>b out. iserializable_serialize sample_env (OutGetInterface_info False)
       (serialize_OutGetInterface sample_env (OutGetInterface kUndefinedInterface)) sample_sender
       = (NoError, sample_sender\<lparr>m_binaryData := b\<rparr>) \<and> vec_rep b out"
  using OutGetInterface_message_roundtrip [OF sample_env_ok(1) _ _ _ sample_sender_rep,
      where x = "OutGetInterface kUndefinedInterface" and old = "OutGetInterface kUndefinedInterface"]
    sample_sendable [of "OutGetInterface_info False" sample_env]
  by (auto simp: interface_valid_def kUndefinedInterface_def df_valid_def df_default_def)

text \<open>
  The request \<open>GetInterface\<close> crosses the wire as a whole message in the same way, so the
  server sees the id the client asks for.
\<close>
lemma GetInterface_message_roundtrip:
  assumes "\<not> memory_out E" "sendable E (GetInterface_info (big_endian E)) c"
    and "latest_form (GetInterface_info (big_endian E)) (mode_of c)"
    and "vec_rep (m_binaryData c) bs" "length bs < 2 ^ 60"
  shows "\<exists>b out. iserializable_serialize E (GetInterface_info (big_endian E)) (serialize_GetInterface E x) c
       = (NoError, c\<lparr>m_binaryData := b\<rparr>) \<and> vec_rep b (bs @ out) \<and>
     (\<forall>d. accepts (GetInterface_info (big_endian E)) c d \<and> walker_rep (m_binaryData d) (bs @ out) (length bs) \<longrightarrow>
        (\<exists>w. iserializable_deserialize E (GetInterface_info (big_endian E)) (deserialize_GetInterface E) d old
             = (NoError, (received E c d)\<lparr>m_binaryData := w\<rparr>, x)
           \<and> walker_rep w (bs @ out) (length (bs @ out))))"
proof -
  have l: "length bs + 32 + length (enc_GetInterface (big_endian E) (mode_of c) x) < 2 ^ 62"
    using assms(5) by (simp add: enc_GetInterface_def enc_id_def enc_scalar_def)
  from GetInterface.message_delivered [OF assms(2) refl assms(3) TrueI assms(1,4) l]
  show ?thesis by fastforce
qed

lemma GetInterface_message_roundtrip_witness:
  "\<exists>b out. iserializable_serialize sample_env (GetInterface_info False)
       (serialize_GetInterface sample_env (GetInterface kNullUuid)) sample_sender
       = (NoError, sample_sender\<lparr>m_binaryData := b\<rparr>) \<and> vec_rep b out"
  using GetInterface_message_roundtrip [OF sample_env_ok(1) _ _ sample_sender_rep,
      where x = "GetInterface kNullUuid" and old = "GetInterface kNullUuid"]
    sample_sendable [of "GetInterface_info False" sample_env]
  by auto

end
