(* ===== verification/Registrar.thy ===== *)
theory Registrar
  imports VectorCodec "HOL-Library.Multiset"
begin

text \<open>
  \<open>csp_messaging/GenericServerDataHandlerRegistrar.h\<close>: the table of the data handlers of a
  server. Threads acquire handlers for the time of a call; a handler or service that is
  removed while in use waits on a latch until its last user has released it. Every
  function is the part of its method between two points where other threads can run:
  \<open>unregisterHandler\<close> and \<open>unregisterService\<close> have a second part behind the wait,
  \<open>releaseHandler\<close> one behind the early unlock. Map nodes and list elements have addresses
  that stay theirs (\<open>std::unordered_multimap\<close>, \<open>std::list\<close>), taken from a counter. The map is
  a list in order of insertion, and equal keys are met in that order: the standard leaves the
  order of equal keys open, so the order of the handlers that \<open>aquireHandlers\<close> gives, and which
  of two registrations of one handler under one key is removed first, are one of the orders
  a library may choose. Allocation failures of the standard containers, which throw, are not
  modelled.
\<close>

section \<open>State\<close>

datatype hstate = Active | HandlerRemove | ServiceRemove

record sdh_handle =
  h_node :: nat
  h_id :: uuid
  h_pService :: nat
  h_handler :: nat
  h_inUseCounter :: u32
  h_state :: hstate

record to_unregister_handler =
  uh_it :: nat
  uh_handle :: nat
  uh_done :: nat

record to_unregister_service =
  us_it :: nat
  us_pService :: nat
  us_inUseCounter :: u32
  us_done :: nat

record registrar =
  m_handlerMap :: "sdh_handle list"
  m_unregisterServiceList :: "to_unregister_service list"
  m_unregisterHandlerList :: "to_unregister_handler list"
  next_address :: nat

definition empty_registrar :: registrar where
  "empty_registrar = \<lparr>m_handlerMap = [], m_unregisterServiceList = [], m_unregisterHandlerList = [], next_address = 1\<rparr>"

section \<open>Container operations\<close>

definition equal_range :: "registrar \<Rightarrow> uuid \<Rightarrow> sdh_handle list" where
  "equal_range r uid = filter (\<lambda>h. uuid_eq (h_id h) uid) (m_handlerMap r)"

definition node :: "registrar \<Rightarrow> nat \<Rightarrow> sdh_handle option" where
  "node r p = find (\<lambda>h. h_node h = p) (m_handlerMap r)"

definition at_node :: "nat \<Rightarrow> (sdh_handle \<Rightarrow> sdh_handle) \<Rightarrow> registrar \<Rightarrow> registrar" where
  "at_node p f r = r\<lparr>m_handlerMap := map (\<lambda>h. if h_node h = p then f h else h) (m_handlerMap r)\<rparr>"

definition erase_node :: "nat \<Rightarrow> registrar \<Rightarrow> registrar" where
  "erase_node p r = r\<lparr>m_handlerMap := filter (\<lambda>h. h_node h \<noteq> p) (m_handlerMap r)\<rparr>"

definition fetch_add :: "nat \<Rightarrow> registrar \<Rightarrow> registrar" where
  "fetch_add p = at_node p (\<lambda>h. h\<lparr>h_inUseCounter := h_inUseCounter h + 1\<rparr>)"

definition fetch_sub :: "nat \<Rightarrow> registrar \<Rightarrow> registrar" where
  "fetch_sub p = at_node p (\<lambda>h. h\<lparr>h_inUseCounter := h_inUseCounter h - 1\<rparr>)"

section \<open>Registration and removal\<close>

definition registerHandler :: "uuid \<Rightarrow> bool \<Rightarrow> nat \<Rightarrow> nat \<Rightarrow> registrar \<Rightarrow> status \<times> registrar" where
  "registerHandler uid kMulticast pService handler r =
     (if \<not> kMulticast \<and> equal_range r uid \<noteq> [] then (ErrorInvalidArgument, r)
      else (NoError, r\<lparr>m_handlerMap := m_handlerMap r @
              [\<lparr>h_node = next_address r, h_id = uid, h_pService = pService, h_handler = handler,
                h_inUseCounter = 0, h_state = Active\<rparr>],
            next_address := next_address r + 1\<rparr>))"

text \<open>\<open>unregisterHandler\<close> up to its wait, if it waits: then the list element whose latch it waits for.\<close>

definition unregisterHandler :: "uuid \<Rightarrow> nat \<Rightarrow> registrar \<Rightarrow> nat option \<times> registrar" where
  "unregisterHandler uid handler r =
     (case find (\<lambda>h. h_handler h = handler) (equal_range r uid) of
        None \<Rightarrow> (None, r)
      | Some h \<Rightarrow>
          if h_inUseCounter h \<noteq> 0
          then (Some (next_address r),
                (at_node (h_node h) (\<lambda>h. h\<lparr>h_state := HandlerRemove\<rparr>) r)
                  \<lparr>m_unregisterHandlerList :=
                     \<lparr>uh_it = next_address r, uh_handle = h_node h, uh_done = 1\<rparr> # m_unregisterHandlerList r,
                   next_address := next_address r + 1\<rparr>)
          else (None, erase_node (h_node h) r))"

text \<open>The part of \<open>unregisterHandler\<close> behind the wait: it looks the handler up again.\<close>

definition unregisterHandler_woken :: "nat \<Rightarrow> uuid \<Rightarrow> nat \<Rightarrow> registrar \<Rightarrow> registrar" where
  "unregisterHandler_woken it uid handler r =
     (let r = r\<lparr>m_unregisterHandlerList := filter (\<lambda>e. uh_it e \<noteq> it) (m_unregisterHandlerList r)\<rparr>
      in case find (\<lambda>h. h_handler h = handler) (equal_range r uid) of
           None \<Rightarrow> r
         | Some h \<Rightarrow> erase_node (h_node h) r)"

definition erase_service :: "nat \<Rightarrow> registrar \<Rightarrow> registrar" where
  "erase_service pService r = r\<lparr>m_handlerMap := filter (\<lambda>h. h_pService h \<noteq> pService) (m_handlerMap r)\<rparr>"

definition unregisterService :: "nat \<Rightarrow> registrar \<Rightarrow> nat option \<times> registrar" where
  "unregisterService pService r =
     (let r' = r\<lparr>m_handlerMap := map (\<lambda>h. if h_pService h = pService then h\<lparr>h_state := ServiceRemove\<rparr> else h)
                                  (m_handlerMap r)\<rparr>;
          totalInUseCounter = sum_list (map h_inUseCounter (filter (\<lambda>h. h_pService h = pService) (m_handlerMap r)))
      in if totalInUseCounter \<noteq> 0
         then (Some (next_address r),
               r'\<lparr>m_unregisterServiceList :=
                    \<lparr>us_it = next_address r, us_pService = pService, us_inUseCounter = totalInUseCounter, us_done = 1\<rparr>
                    # m_unregisterServiceList r,
                  next_address := next_address r + 1\<rparr>)
         else (None, erase_service pService r'))"

definition unregisterService_woken :: "nat \<Rightarrow> nat \<Rightarrow> registrar \<Rightarrow> registrar" where
  "unregisterService_woken it pService r =
     erase_service pService
       (r\<lparr>m_unregisterServiceList := filter (\<lambda>e. us_it e \<noteq> it) (m_unregisterServiceList r)\<rparr>)"

section \<open>Acquisition\<close>

definition handle_ptr :: "nat elem" where
  "handle_ptr = raw_elem 8"

text \<open>The loop of \<open>aquireHandlers\<close>: it returns early (\<open>Inl\<close>) or ends (\<open>Inr\<close>).\<close>

fun aquire_loop ::
    "env \<Rightarrow> sdh_handle list \<Rightarrow> nat vec \<Rightarrow> bool \<Rightarrow> registrar
     \<Rightarrow> (status \<times> nat vec \<times> registrar) + (nat vec \<times> bool \<times> registrar)" where
  "aquire_loop E [] handles wasNotAvailable r = Inr (handles, wasNotAvailable, r)"
| "aquire_loop E (h # hs) handles wasNotAvailable r =
     (if h_state h \<noteq> Active then aquire_loop E hs handles True r
      else case vec_pushBack E handle_ptr handles (h_node h) of (st, handles) \<Rightarrow>
        if \<not> statusSuccess st
        then Inl (st, vec_clear handle_ptr handles, fold fetch_sub (vec_objects handles) r)
        else aquire_loop E hs handles wasNotAvailable (fetch_add (h_node h) r))"

definition aquireHandlers :: "env \<Rightarrow> uuid \<Rightarrow> nat vec \<Rightarrow> registrar \<Rightarrow> status \<times> nat vec \<times> registrar" where
  "aquireHandlers E uid handles r =
     (case aquire_loop E (equal_range r uid) (vec_clear handle_ptr handles) False r of
        Inl res \<Rightarrow> res
      | Inr (handles, wasNotAvailable, r) \<Rightarrow>
          (if vec_size handles \<noteq> 0 then NoError
           else if wasNotAvailable then ErrorNotAvailible else ErrorNoSuchHandler, handles, r))"

definition aquireHandler :: "uuid \<Rightarrow> nat \<Rightarrow> registrar \<Rightarrow> status \<times> nat \<times> registrar" where
  "aquireHandler uid pHandle r =
     (case equal_range r uid of
        [] \<Rightarrow> (ErrorNoSuchHandler, pHandle, r)
      | [h] \<Rightarrow> (if h_state h \<noteq> Active then (ErrorNotAvailible, pHandle, r)
                else (NoError, h_node h, fetch_add (h_node h) r))
      | _ \<Rightarrow> (ErrorMoreEntires, pHandle, r))"

section \<open>Release\<close>

text \<open>
  \<open>None\<close> is undefined behaviour: a handle that was erased, or a latch counted down below zero.
  The first part decrements the counter of the handle and, for a service that is being
  removed, the one of the service; if that was the last use, it has unlocked the mutex and
  woken the waiting thread (the flag). The count down follows the unlock without touching
  anything another thread can change before it, so both are one step.
\<close>

definition count_down_service :: "nat \<Rightarrow> registrar \<Rightarrow> registrar" where
  "count_down_service it r =
     r\<lparr>m_unregisterServiceList := map (\<lambda>e. if us_it e = it then e\<lparr>us_done := us_done e - 1\<rparr> else e)
                                    (m_unregisterServiceList r)\<rparr>"

definition count_down_handler :: "nat \<Rightarrow> registrar \<Rightarrow> registrar" where
  "count_down_handler it r =
     r\<lparr>m_unregisterHandlerList := map (\<lambda>e. if uh_it e = it then e\<lparr>uh_done := uh_done e - 1\<rparr> else e)
                                    (m_unregisterHandlerList r)\<rparr>"

definition fetch_sub_service :: "nat \<Rightarrow> registrar \<Rightarrow> registrar" where
  "fetch_sub_service it r =
     r\<lparr>m_unregisterServiceList :=
        map (\<lambda>e. if us_it e = it then e\<lparr>us_inUseCounter := us_inUseCounter e - 1\<rparr> else e)
          (m_unregisterServiceList r)\<rparr>"

definition release_counters :: "nat \<Rightarrow> registrar \<Rightarrow> (hstate \<times> u32 \<times> bool \<times> registrar) option" where
  "release_counters pHandle r =
     (case node r pHandle of
        None \<Rightarrow> None
      | Some h \<Rightarrow>
          let prevUseCount = h_inUseCounter h;
              r = fetch_sub pHandle r
          in if h_state h \<noteq> ServiceRemove then Some (h_state h, prevUseCount, False, r)
             else case find (\<lambda>e. us_pService e = h_pService h) (m_unregisterServiceList r) of
                    None \<Rightarrow> Some (ServiceRemove, prevUseCount, False, r)
                  | Some e \<Rightarrow>
                      let r = fetch_sub_service (us_it e) r
                      in if us_inUseCounter e \<noteq> 1 then Some (ServiceRemove, prevUseCount, False, r)
                         else if us_done e = 0 then None
                         else Some (ServiceRemove, prevUseCount, True, count_down_service (us_it e) r))"

text \<open>The loop over the waiting \<open>unregisterHandler\<close> calls reads the handle of each.\<close>

fun notify_handler :: "nat \<Rightarrow> to_unregister_handler list \<Rightarrow> registrar \<Rightarrow> registrar option" where
  "notify_handler handler [] r = Some r"
| "notify_handler handler (e # es) r =
     (case node r (uh_handle e) of
        None \<Rightarrow> None
      | Some h \<Rightarrow>
          if h_handler h \<noteq> handler then notify_handler handler es r
          else if uh_done e = 0 then None
          else Some (count_down_handler (uh_it e) r))"

text \<open>
  The second part, which the case \<open>ServiceRemove\<close> falls through to. It reads
  \<open>handle.handler\<close> again.
\<close>

definition release_waiting :: "nat \<Rightarrow> u32 \<Rightarrow> registrar \<Rightarrow> registrar option" where
  "release_waiting pHandle prevUseCount r =
     (if prevUseCount \<noteq> 1 \<or> m_unregisterHandlerList r = [] then Some r
      else case node r pHandle of
             None \<Rightarrow> None
           | Some h \<Rightarrow> notify_handler (h_handler h) (m_unregisterHandlerList r) r)"

definition releaseHandler :: "nat \<Rightarrow> registrar \<Rightarrow> registrar option" where
  "releaseHandler pHandle r =
     (case release_counters pHandle r of
        None \<Rightarrow> None
      | Some (st, prevUseCount, _, r) \<Rightarrow>
          if st = Active then Some r else release_waiting pHandle prevUseCount r)"

end
