(* ===== verification/RegistrarSpec.thy ===== *)
theory RegistrarSpec
  imports Registrar
begin

text \<open>
  The registrar under concurrent use: a step relation over its state, the acquisitions that
  have not been released and the calls that wait, and the invariant that makes removal safe.
  The steps are the atomic parts of the methods, under a discipline that the code relies on
  and does not check: a handler object is registered once at a time, nobody registers for a
  service that is being removed, a handler is removed once, by itself or with its service,
  and only what was acquired is released. Fewer than \<open>2 ^ 32\<close> acquisitions are held at once.
\<close>

section \<open>Steps\<close>

record registrar_world =
  w_reg :: registrar
  w_held :: "nat multiset"
  w_releasing :: "(nat \<times> u32) multiset"
  w_handler_calls :: "(nat \<times> uuid \<times> nat) set"
  w_service_calls :: "(nat \<times> nat) set"

definition initial_world :: registrar_world where
  "initial_world = \<lparr>w_reg = empty_registrar, w_held = {#}, w_releasing = {#}, w_handler_calls = {}, w_service_calls = {}\<rparr>"

definition latch_open :: "registrar \<Rightarrow> nat \<Rightarrow> bool" where
  "latch_open r it \<longleftrightarrow> (\<exists>e \<in> set (m_unregisterHandlerList r). uh_it e = it \<and> uh_done e = 0)"

definition service_latch_open :: "registrar \<Rightarrow> nat \<Rightarrow> bool" where
  "service_latch_open r it \<longleftrightarrow> (\<exists>e \<in> set (m_unregisterServiceList r). us_it e = it \<and> us_done e = 0)"

inductive registrar_step :: "env \<Rightarrow> registrar_world \<Rightarrow> registrar_world \<Rightarrow> bool" for E where
  register: "registrar_step E w (w\<lparr>w_reg := r'\<rparr>)"
    if "registerHandler uid mc svc x (w_reg w) = (st, r')"
      "x \<notin> h_handler ` set (m_handlerMap (w_reg w))"
      "svc \<notin> us_pService ` set (m_unregisterServiceList (w_reg w))"
| unregister: "registrar_step E w (w\<lparr>w_reg := r'\<rparr>)"
    if "unregisterHandler uid x (w_reg w) = (None, r')"
      "\<forall>h \<in> set (m_handlerMap (w_reg w)). h_handler h = x \<longrightarrow> h_state h = Active"
| unregister_wait: "registrar_step E w (w\<lparr>w_reg := r', w_handler_calls := insert (it, uid, x) (w_handler_calls w)\<rparr>)"
    if "unregisterHandler uid x (w_reg w) = (Some it, r')"
      "\<forall>h \<in> set (m_handlerMap (w_reg w)). h_handler h = x \<longrightarrow> h_state h = Active"
| unregister_woken: "registrar_step E w
      (w\<lparr>w_reg := unregisterHandler_woken it uid x (w_reg w), w_handler_calls := w_handler_calls w - {(it, uid, x)}\<rparr>)"
    if "(it, uid, x) \<in> w_handler_calls w" "latch_open (w_reg w) it"
| service: "registrar_step E w (w\<lparr>w_reg := r'\<rparr>)"
    if "unregisterService svc (w_reg w) = (None, r')"
      "\<forall>h \<in> set (m_handlerMap (w_reg w)). h_pService h = svc \<longrightarrow> h_state h = Active"
| service_wait: "registrar_step E w (w\<lparr>w_reg := r', w_service_calls := insert (it, svc) (w_service_calls w)\<rparr>)"
    if "unregisterService svc (w_reg w) = (Some it, r')"
      "\<forall>h \<in> set (m_handlerMap (w_reg w)). h_pService h = svc \<longrightarrow> h_state h = Active"
| service_woken: "registrar_step E w
      (w\<lparr>w_reg := unregisterService_woken it svc (w_reg w), w_service_calls := w_service_calls w - {(it, svc)}\<rparr>)"
    if "(it, svc) \<in> w_service_calls w" "service_latch_open (w_reg w) it"
| aquire: "registrar_step E w (w\<lparr>w_reg := r', w_held := (if statusSuccess st then add_mset q (w_held w) else w_held w)\<rparr>)"
    if "aquireHandler uid p (w_reg w) = (st, q, r')" "Suc (size (w_held w)) < 2 ^ 32"
| aquire_all: "registrar_step E w (w\<lparr>w_reg := r', w_held := w_held w + mset (vec_objects v')\<rparr>)"
    if "aquireHandlers E uid v (w_reg w) = (st, v', r')" "vec_rep v xs"
      "size (w_held w) + length (m_handlerMap (w_reg w)) < 2 ^ 32"
| release: "registrar_step E w (w\<lparr>w_reg := r'', w_held := w_held w - {#p#}\<rparr>)"
    if "p \<in># w_held w" "release_counters p (w_reg w) = Some (st, prev, False, r')"
      "(if st = Active then Some r' else release_waiting p prev r') = Some r''"
| release_unlocked: "registrar_step E w
      (w\<lparr>w_reg := r', w_held := w_held w - {#p#}, w_releasing := add_mset (p, prev) (w_releasing w)\<rparr>)"
    if "p \<in># w_held w" "release_counters p (w_reg w) = Some (st, prev, True, r')"
| release_rest: "registrar_step E w (w\<lparr>w_reg := r', w_releasing := w_releasing w - {#(p, prev)#}\<rparr>)"
    if "(p, prev) \<in># w_releasing w" "release_waiting p prev (w_reg w) = Some r'"

inductive registrar_reachable :: "env \<Rightarrow> registrar_world \<Rightarrow> bool" for E where
  start: "registrar_reachable E initial_world"
| more: "registrar_reachable E w \<Longrightarrow> registrar_step E w w' \<Longrightarrow> registrar_reachable E w'"

section \<open>Invariant\<close>

definition service_nodes :: "registrar \<Rightarrow> nat \<Rightarrow> nat set" where
  "service_nodes r svc = h_node ` {h \<in> set (m_handlerMap r). h_pService h = svc}"

definition service_users :: "registrar \<Rightarrow> nat multiset \<Rightarrow> nat \<Rightarrow> nat" where
  "service_users r H svc = size {#p \<in># H. p \<in> service_nodes r svc#}"

definition map_inv :: "registrar \<Rightarrow> bool" where
  "map_inv r \<longleftrightarrow> distinct (map h_node (m_handlerMap r)) \<and> distinct (map h_handler (m_handlerMap r))
     \<and> (\<forall>h \<in> set (m_handlerMap r). h_node h < next_address r)"

text \<open>Every counter is the number of acquisitions of its handler, and what is acquired is there.\<close>

definition count_inv :: "registrar \<Rightarrow> nat multiset \<Rightarrow> bool" where
  "count_inv r H \<longleftrightarrow> (\<forall>h \<in> set (m_handlerMap r). unat (h_inUseCounter h) = count H (h_node h))
     \<and> set_mset H \<subseteq> h_node ` set (m_handlerMap r) \<and> size H < 2 ^ 32"

text \<open>A call waits for a handler that is there, and its latch is closed while the handler is in use.\<close>

definition handler_waits_inv :: "registrar \<Rightarrow> nat multiset \<Rightarrow> bool" where
  "handler_waits_inv r H \<longleftrightarrow>
     distinct (map uh_it (m_unregisterHandlerList r)) \<and> distinct (map uh_handle (m_unregisterHandlerList r))
     \<and> (\<forall>e \<in> set (m_unregisterHandlerList r). uh_it e < next_address r
          \<and> (\<exists>h \<in> set (m_handlerMap r). h_node h = uh_handle e \<and> h_state h = HandlerRemove
               \<and> uh_done e = of_bool (uh_handle e \<in># H)))"

definition service_waits_inv :: "registrar \<Rightarrow> nat multiset \<Rightarrow> bool" where
  "service_waits_inv r H \<longleftrightarrow>
     distinct (map us_it (m_unregisterServiceList r)) \<and> distinct (map us_pService (m_unregisterServiceList r))
     \<and> (\<forall>e \<in> set (m_unregisterServiceList r). us_it e < next_address r
          \<and> (\<forall>h \<in> set (m_handlerMap r). h_pService h = us_pService e \<longrightarrow> h_state h = ServiceRemove)
          \<and> unat (us_inUseCounter e) = service_users r H (us_pService e)
          \<and> us_done e = of_bool (service_users r H (us_pService e) \<noteq> 0))"

definition calls_inv :: "registrar \<Rightarrow> (nat \<times> uuid \<times> nat) set \<Rightarrow> (nat \<times> nat) set \<Rightarrow> bool" where
  "calls_inv r hc sc \<longleftrightarrow>
     (\<forall>(it, uid, x) \<in> hc. \<exists>e \<in> set (m_unregisterHandlerList r). uh_it e = it
        \<and> (\<exists>h \<in> set (m_handlerMap r). h_node h = uh_handle e \<and> h_id h = uid \<and> h_handler h = x))
     \<and> (\<forall>(it, svc) \<in> sc. \<exists>e \<in> set (m_unregisterServiceList r). us_it e = it \<and> us_pService e = svc)"

text \<open>A release that has unlocked early is one of a handler that goes with its service.\<close>

definition releasing_inv :: "registrar \<Rightarrow> (nat \<times> u32) multiset \<Rightarrow> bool" where
  "releasing_inv r rel \<longleftrightarrow>
     (\<forall>(p, prev) \<in># rel. p < next_address r \<and> (\<forall>h \<in> set (m_handlerMap r). h_node h = p \<longrightarrow> h_state h = ServiceRemove))"

definition registrar_inv :: "registrar_world \<Rightarrow> bool" where
  "registrar_inv w \<longleftrightarrow> map_inv (w_reg w) \<and> count_inv (w_reg w) (w_held w)
     \<and> handler_waits_inv (w_reg w) (w_held w) \<and> service_waits_inv (w_reg w) (w_held w)
     \<and> calls_inv (w_reg w) (w_handler_calls w) (w_service_calls w) \<and> releasing_inv (w_reg w) (w_releasing w)"

lemma registrar_inv_initial: "registrar_inv initial_world"
  by (simp add: registrar_inv_def initial_world_def empty_registrar_def map_inv_def count_inv_def handler_waits_inv_def
      service_waits_inv_def calls_inv_def releasing_inv_def)

section \<open>Facts about the containers\<close>

lemma equal_range_set: "set (equal_range r uid) = {h \<in> set (m_handlerMap r). h_id h = uid}"
  by (auto simp: equal_range_def uuid_eq_iff)

lemma node_inj:
  assumes "map_inv r" "h \<in> set (m_handlerMap r)" "h' \<in> set (m_handlerMap r)"
  shows "h_node h = h_node h' \<longleftrightarrow> h = h'" "h_handler h = h_handler h' \<longleftrightarrow> h = h'"
  using assms by (auto simp: map_inv_def distinct_map inj_on_def)

lemma service_nodes_mem:
  assumes "map_inv r" "h \<in> set (m_handlerMap r)"
  shows "h_node h \<in> service_nodes r svc \<longleftrightarrow> h_pService h = svc"
proof
  assume "h_node h \<in> service_nodes r svc"
  then obtain g where g: "g \<in> set (m_handlerMap r)" "h_pService g = svc" "h_node g = h_node h"
    by (auto simp: service_nodes_def)
  from node_inj(1) [OF assms(1) g(1) assms(2)] g show "h_pService h = svc" by simp
qed (use assms(2) in \<open>auto simp: service_nodes_def\<close>)

lemma node_Some:
  assumes "map_inv r"
  shows "node r p = Some h \<longleftrightarrow> h \<in> set (m_handlerMap r) \<and> h_node h = p"
proof
  assume h: "h \<in> set (m_handlerMap r) \<and> h_node h = p"
  then obtain h' where "node r p = Some h'" by (cases "node r p") (auto simp: node_def find_None_iff)
  moreover from this have "h' \<in> set (m_handlerMap r)" "h_node h' = p" by (auto simp: node_def find_Some_iff)
  ultimately show "node r p = Some h" using h node_inj(1) [OF assms, of h h'] by simp
qed (auto simp: node_def find_Some_iff)

lemma find_handler:
  assumes "map_inv r"
  shows "find (\<lambda>h. h_handler h = x) (equal_range r uid) = Some h
     \<longleftrightarrow> h \<in> set (m_handlerMap r) \<and> h_id h = uid \<and> h_handler h = x"
proof
  assume h: "h \<in> set (m_handlerMap r) \<and> h_id h = uid \<and> h_handler h = x"
  then obtain h' where "find (\<lambda>h. h_handler h = x) (equal_range r uid) = Some h'"
    using equal_range_set [of r uid]
    by (cases "find (\<lambda>h. h_handler h = x) (equal_range r uid)") (auto simp: find_None_iff)
  moreover from this have "h' \<in> set (m_handlerMap r)" "h_handler h' = x"
    using equal_range_set [of r uid] by (auto simp: find_Some_iff) (metis nth_mem mem_Collect_eq)
  ultimately show "find (\<lambda>h. h_handler h = x) (equal_range r uid) = Some h"
    using h node_inj(2) [OF assms, of h h'] by simp
qed (use equal_range_set [of r uid] in \<open>auto simp: find_Some_iff dest: nth_mem\<close>)

lemma ball_set_map: "(\<forall>y \<in> set (map f xs). P y) \<longleftrightarrow> (\<forall>x \<in> set xs. P (f x))"
  by simp

lemma bex_set_map: "(\<exists>y \<in> set (map f xs). P y) \<longleftrightarrow> (\<exists>x \<in> set xs. P (f x))"
  by simp

lemma at_node_fields [simp]:
  "m_unregisterServiceList (at_node p f r) = m_unregisterServiceList r"
  "m_unregisterHandlerList (at_node p f r) = m_unregisterHandlerList r"
  "next_address (at_node p f r) = next_address r"
  by (simp_all add: at_node_def)

lemma ball_at_node [simp]:
  "(\<forall>h \<in> set (m_handlerMap (at_node p f r)). P h) \<longleftrightarrow>
     (\<forall>h \<in> set (m_handlerMap r). P (if h_node h = p then f h else h))"
  by (auto simp: at_node_def)

lemma bex_at_node [simp]:
  "(\<exists>h \<in> set (m_handlerMap (at_node p f r)). P h) \<longleftrightarrow>
     (\<exists>h \<in> set (m_handlerMap r). P (if h_node h = p then f h else h))"
  by (auto simp: at_node_def)

text \<open>Updates that leave node, key, service and handler of an entry.\<close>

definition keeps :: "(sdh_handle \<Rightarrow> sdh_handle) \<Rightarrow> bool" where
  "keeps f \<longleftrightarrow> (\<forall>h. h_node (f h) = h_node h \<and> h_id (f h) = h_id h \<and> h_pService (f h) = h_pService h
     \<and> h_handler (f h) = h_handler h)"

lemma keeps_simps [simp]:
  "keeps (\<lambda>h. h\<lparr>h_inUseCounter := c h\<rparr>)" "keeps (\<lambda>h. h\<lparr>h_state := s h\<rparr>)"
  by (simp_all add: keeps_def)

lemma map_at_node:
  assumes "keeps f"
  shows "map h_node (m_handlerMap (at_node p f r)) = map h_node (m_handlerMap r)"
    "map h_handler (m_handlerMap (at_node p f r)) = map h_handler (m_handlerMap r)"
  using assms by (auto simp: at_node_def keeps_def)

lemma nodes_at_node [simp]:
  "keeps f \<Longrightarrow> h_node ` set (m_handlerMap (at_node p f r)) = h_node ` set (m_handlerMap r)"
  by (metis map_at_node(1) list.set_map)

lemma keeps_if:
  "keeps f \<Longrightarrow> h_node (if b then f h else h) = h_node h" "keeps f \<Longrightarrow> h_id (if b then f h else h) = h_id h"
  "keeps f \<Longrightarrow> h_pService (if b then f h else h) = h_pService h" "keeps f \<Longrightarrow> h_handler (if b then f h else h) = h_handler h"
  by (simp_all add: keeps_def)

lemma map_inv_at_node [simp]: "keeps f \<Longrightarrow> map_inv (at_node p f r) = map_inv r"
  by (simp add: map_inv_def map_at_node keeps_if del: if_image_distrib)

lemma service_nodes_at_node [simp]:
  assumes "keeps f"
  shows "service_nodes (at_node p f r) svc = service_nodes r svc"
proof -
  have "n \<in> service_nodes (at_node p f r) svc \<longleftrightarrow> n \<in> service_nodes r svc" for n
    using bex_at_node [of p f r "\<lambda>h. n = h_node h \<and> h_pService h = svc"] assms
    by (auto simp: service_nodes_def keeps_if image_iff Bex_def)
  then show ?thesis by blast
qed

lemma service_users_at_node [simp]: "keeps f \<Longrightarrow> service_users (at_node p f r) H svc = service_users r H svc"
  by (simp add: service_users_def)

lemma calls_inv_at_node [simp]: "keeps f \<Longrightarrow> calls_inv (at_node p f r) hc sc = calls_inv r hc sc"
  by (simp add: calls_inv_def keeps_if)

lemmas fetch_defs = fetch_add_def fetch_sub_def

lemma fetch_add_sub: "fetch_sub p (fetch_add p r) = r"
proof -
  have "map ((\<lambda>h. if h_node h = p then h\<lparr>h_inUseCounter := h_inUseCounter h - 1\<rparr> else h) \<circ>
       (\<lambda>h. if h_node h = p then h\<lparr>h_inUseCounter := h_inUseCounter h + 1\<rparr> else h)) hs = hs" for hs
    by (rule map_idI) simp
  from this [of "m_handlerMap r"] show ?thesis by (simp add: fetch_defs at_node_def del: map_map) (simp add: comp_def)
qed

text \<open>How the waiting calls keep their invariant when their lists stay.\<close>

lemma handler_waits_keep:
  assumes "handler_waits_inv r H" "m_unregisterHandlerList r' = m_unregisterHandlerList r" "next_address r \<le> next_address r'"
    and k: "\<And>h. h \<in> set (m_handlerMap r) \<Longrightarrow> h_state h = HandlerRemove \<Longrightarrow>
      h_node h \<in> uh_handle ` set (m_unregisterHandlerList r) \<Longrightarrow> \<exists>h' \<in> set (m_handlerMap r').
      h_node h' = h_node h \<and> h_state h' = HandlerRemove \<and> (h_node h \<in># H' \<longleftrightarrow> h_node h \<in># H)"
  shows "handler_waits_inv r' H'"
  unfolding handler_waits_inv_def
proof (intro conjI ballI)
  fix e assume e: "e \<in> set (m_unregisterHandlerList r')"
  then obtain h where h: "h \<in> set (m_handlerMap r)" "h_node h = uh_handle e" "h_state h = HandlerRemove"
    "uh_done e = of_bool (uh_handle e \<in># H)" and n: "uh_it e < next_address r"
    using assms(1,2) by (auto simp: handler_waits_inv_def)
  from n assms(3) show "uh_it e < next_address r'" by simp
  have "h_node h \<in> uh_handle ` set (m_unregisterHandlerList r)" using e h(2) assms(2) by auto
  from k [OF h(1,3) this] h show "\<exists>h \<in> set (m_handlerMap r'). h_node h = uh_handle e \<and> h_state h = HandlerRemove
      \<and> uh_done e = of_bool (uh_handle e \<in># H')" by auto
qed (use assms(1,2) in \<open>simp_all add: handler_waits_inv_def\<close>)

lemma service_waits_keep:
  assumes "service_waits_inv r H" "m_unregisterServiceList r' = m_unregisterServiceList r" "next_address r \<le> next_address r'"
    and "\<And>svc. svc \<in> us_pService ` set (m_unregisterServiceList r) \<Longrightarrow> service_users r' H' svc = service_users r H svc"
    and "\<And>h'. h' \<in> set (m_handlerMap r') \<Longrightarrow> h_pService h' \<in> us_pService ` set (m_unregisterServiceList r) \<Longrightarrow>
      h_state h' = ServiceRemove"
  shows "service_waits_inv r' H'"
  using assms unfolding service_waits_inv_def by fastforce

lemma service_waits_state:
  "service_waits_inv r H \<Longrightarrow> h \<in> set (m_handlerMap r) \<Longrightarrow> h_pService h \<in> us_pService ` set (m_unregisterServiceList r) \<Longrightarrow>
     h_state h = ServiceRemove"
  by (auto simp: service_waits_inv_def)

section \<open>Acquiring\<close>

text \<open>What one acquisition of an active handler does to the invariant.\<close>

lemma fetch_add_inv:
  assumes i: "registrar_inv w" and h: "h \<in> set (m_handlerMap (w_reg w))" "h_state h = Active"
    and b: "Suc (size (w_held w)) < 2 ^ 32"
  shows "registrar_inv (w\<lparr>w_reg := fetch_add (h_node h) (w_reg w), w_held := add_mset (h_node h) (w_held w)\<rparr>)"
proof -
  let ?r = "w_reg w" and ?H = "w_held w"
  let ?r' = "fetch_add (h_node h) ?r"
  have m: "map_inv ?r" and c: "count_inv ?r ?H" and u: "handler_waits_inv ?r ?H" and s: "service_waits_inv ?r ?H"
    using i by (simp_all add: registrar_inv_def)
  have only: "g = h" if "g \<in> set (m_handlerMap ?r)" "h_node g = h_node h" for g
    using node_inj(1) [OF m that(1) h(1)] that(2) by simp
  have "count ?H (h_node h) \<le> size ?H" by (rule count_le_size)
  then have "unat (h_inUseCounter h + 1) = Suc (count ?H (h_node h))"
    using c h(1) b by (subst unat_add_exact) (auto simp: count_inv_def)
  then have "count_inv ?r' (add_mset (h_node h) ?H)"
    using c h(1) b only by (auto simp: count_inv_def fetch_defs)
  moreover have "handler_waits_inv ?r' (add_mset (h_node h) ?H)"
  proof (rule handler_waits_keep [OF u])
    fix g assume g: "g \<in> set (m_handlerMap ?r)" "h_state g = HandlerRemove"
    then have "h_node g \<noteq> h_node h" using only [OF g(1)] h(2) by auto
    with g show "\<exists>h' \<in> set (m_handlerMap ?r'). h_node h' = h_node g \<and> h_state h' = HandlerRemove
        \<and> (h_node g \<in># add_mset (h_node h) ?H \<longleftrightarrow> h_node g \<in># ?H)"
      unfolding fetch_defs bex_at_node by (intro bexI [of _ g]) simp_all
  qed (simp_all add: fetch_defs)
  moreover have "service_waits_inv ?r' (add_mset (h_node h) ?H)"
  proof (rule service_waits_keep [OF s])
    have st: "\<forall>g \<in> set (m_handlerMap ?r). h_pService g \<in> us_pService ` set (m_unregisterServiceList ?r)
        \<longrightarrow> h_state g = ServiceRemove"
      using service_waits_state [OF s] by blast
    then have "\<forall>g \<in> set (m_handlerMap ?r'). h_pService g \<in> us_pService ` set (m_unregisterServiceList ?r)
        \<longrightarrow> h_state g = ServiceRemove"
      by (simp add: fetch_defs keeps_if)
    then show "h_state g = ServiceRemove" if "g \<in> set (m_handlerMap ?r')"
      "h_pService g \<in> us_pService ` set (m_unregisterServiceList ?r)" for g
      using that by blast
    fix svc assume "svc \<in> us_pService ` set (m_unregisterServiceList ?r)"
    then have "h_node h \<notin> service_nodes ?r svc"
      using st only h by (auto simp: service_nodes_def)
    then show "service_users ?r' (add_mset (h_node h) ?H) svc = service_users ?r ?H svc"
      by (simp add: service_users_def fetch_defs)
  qed (simp_all add: fetch_defs)
  moreover have "releasing_inv ?r' (w_releasing w)" "calls_inv ?r' (w_handler_calls w) (w_service_calls w)" "map_inv ?r'"
    using i by (auto simp: registrar_inv_def fetch_defs releasing_inv_def)
  ultimately show ?thesis by (simp add: registrar_inv_def)
qed

lemma aquireHandler_cases:
  assumes "aquireHandler uid p r = (st, q, r')"
  obtains (fail) "st \<in> {ErrorNoSuchHandler, ErrorNotAvailible, ErrorMoreEntires}" "q = p" "r' = r"
  | (ok) h where "equal_range r uid = [h]" "h_state h = Active" "st = NoError" "q = h_node h" "r' = fetch_add (h_node h) r"
proof (cases "equal_range r uid")
  case Nil
  with assms have "st \<in> {ErrorNoSuchHandler, ErrorNotAvailible, ErrorMoreEntires}" "q = p" "r' = r"
    by (simp_all add: aquireHandler_def)
  then show ?thesis by (rule fail)
next
  case (Cons h hs)
  show ?thesis
  proof (cases "hs = [] \<and> h_state h = Active")
    case True
    with Cons assms show ?thesis by (intro ok [of h]) (auto simp: aquireHandler_def)
  next
    case False
    with Cons assms have "st \<in> {ErrorNoSuchHandler, ErrorNotAvailible, ErrorMoreEntires}" "q = p" "r' = r"
      by (auto simp: aquireHandler_def split: list.splits if_splits)
    then show ?thesis by (rule fail)
  qed
qed

lemma aquireHandler_inv:
  assumes i: "registrar_inv w" and a: "aquireHandler uid p (w_reg w) = (st, q, r')" and b: "Suc (size (w_held w)) < 2 ^ 32"
  shows "registrar_inv (w\<lparr>w_reg := r', w_held := (if statusSuccess st then add_mset q (w_held w) else w_held w)\<rparr>)"
  using a
proof (cases rule: aquireHandler_cases)
  case fail
  then have "\<not> statusSuccess st" by auto
  with fail i show ?thesis by simp
next
  case (ok h)
  then have "h \<in> set (m_handlerMap (w_reg w))" using equal_range_set [of "w_reg w" uid] by auto
  from fetch_add_inv [OF i this ok(2) b] ok(3-5) show ?thesis by simp
qed

text \<open>The loop of \<open>aquireHandlers\<close> takes the active handlers, or puts everything back.\<close>

definition active_nodes :: "sdh_handle list \<Rightarrow> nat list" where
  "active_nodes hs = map h_node (filter (\<lambda>h. h_state h = Active) hs)"

lemma active_nodes_simps [simp]:
  "active_nodes [] = []"
  "active_nodes (h # hs) = (if h_state h = Active then h_node h # active_nodes hs else active_nodes hs)"
  by (simp_all add: active_nodes_def)

lemma fetch_commute: "fetch_sub p (fetch_add q r) = fetch_add q (fetch_sub p r)"
  by (auto simp: fetch_defs at_node_def)

lemma fold_fetch_commute: "fetch_sub p (fold fetch_add qs r) = fold fetch_add qs (fetch_sub p r)"
  by (induction qs arbitrary: r) (simp_all add: fetch_commute)

lemma fold_fetch_add_sub: "fold fetch_sub ps (fold fetch_add ps r) = r"
  by (induction ps arbitrary: r) (simp_all add: fold_fetch_commute fetch_add_sub)

lemma handle_ptr_fits: "n < 2 ^ 32 \<Longrightarrow> fits handle_ptr n"
  by (simp add: fits_def handle_ptr_def raw_elem_def)

lemma aquire_loop_cases:
  assumes "vec_rep v ps" "length ps + length hs < 2 ^ 32"
  shows "(\<exists>v' k. aquire_loop E hs v na (fold fetch_add ps r) = Inl (ErrorNoMemory, v', r) \<and> vec_rep v' []
         \<and> k < length (ps @ active_nodes hs) \<and> \<not> malloc_ok E (of_nat (Suc k) * 8))
    \<or> (\<exists>v'. aquire_loop E hs v na (fold fetch_add ps r)
           = Inr (v', na \<or> (\<exists>h \<in> set hs. h_state h \<noteq> Active), fold fetch_add (ps @ active_nodes hs) r)
         \<and> vec_rep v' (ps @ active_nodes hs))"
  using assms
proof (induction hs arbitrary: v ps na)
  case Nil
  then show ?case by simp
next
  case (Cons h hs)
  show ?case
  proof (cases "h_state h = Active")
    case False
    then show ?thesis using Cons.IH [OF Cons.prems(1), of True] Cons.prems(2) by simp
  next
    case True
    have sz: "of_nat (length ps) = m_dataSize v" using Cons.prems(1) by (simp add: vec_rep_def)
    have "fits handle_ptr (Suc (length ps))" by (rule handle_ptr_fits) (use Cons.prems(2) in simp)
    then obtain st v1 where v1: "vec_pushBack E handle_ptr v (h_node h) = (st, v1)"
      and c: "st = NoError \<and> vec_rep v1 (ps @ [h_node h]) \<or> st = ErrorNoMemory \<and> v1 = v \<and> \<not> malloc_ok E ((m_dataSize v + 1) * 8)"
      using raw.pushBack_ok [OF Cons.prems(1), of 7 E "h_node h"] by (auto simp: handle_ptr_def raw_elem_def)
    show ?thesis
    proof (cases "st = NoError")
      case True
      then show ?thesis
        using Cons.IH [of v1 "ps @ [h_node h]" na] c Cons.prems(2) v1 \<open>h_state h = Active\<close> by simp
    next
      case False
      have "vec_rep (vec_clear handle_ptr v) []"
        using raw.clear_ok(1) [OF Cons.prems(1), of 7] by (simp add: handle_ptr_def)
      then show ?thesis
        using False c v1 \<open>h_state h = Active\<close> vec_rep_objects [OF Cons.prems(1)] sz
        by (intro disjI1 exI [of _ "vec_clear handle_ptr v"] exI [of _ "length ps"])
          (auto simp: fold_fetch_add_sub add.commute)
    qed
  qed
qed

lemma aquireHandlers_cases:
  assumes "vec_rep v xs" "length (equal_range r uid) < 2 ^ 32"
  obtains (memory) v' k where "aquireHandlers E uid v r = (ErrorNoMemory, v', r)" "vec_rep v' []"
      "k < length (active_nodes (equal_range r uid))" "\<not> malloc_ok E (of_nat (Suc k) * 8)"
  | (ok) v' where "vec_rep v' (active_nodes (equal_range r uid))"
      "aquireHandlers E uid v r =
         (if active_nodes (equal_range r uid) \<noteq> [] then NoError
          else if equal_range r uid \<noteq> [] then ErrorNotAvailible else ErrorNoSuchHandler,
          v', fold fetch_add (active_nodes (equal_range r uid)) r)"
proof -
  let ?hs = "equal_range r uid"
  have "vec_rep (vec_clear handle_ptr v) []"
    using raw.clear_ok(1) [OF assms(1), of 7] by (simp add: handle_ptr_def)
  from aquire_loop_cases [OF this, of ?hs E False r] assms(2) consider
      v' k where "aquire_loop E ?hs (vec_clear handle_ptr v) False r = Inl (ErrorNoMemory, v', r)" "vec_rep v' []"
        "k < length (active_nodes ?hs)" "\<not> malloc_ok E (of_nat (Suc k) * 8)"
    | v' where "aquire_loop E ?hs (vec_clear handle_ptr v) False r
        = Inr (v', \<exists>h \<in> set ?hs. h_state h \<noteq> Active, fold fetch_add (active_nodes ?hs) r)"
        "vec_rep v' (active_nodes ?hs)" by auto
  then show thesis
  proof cases
    case 1
    then show ?thesis by (intro memory [of v' k]) (simp_all add: aquireHandlers_def)
  next
    case 2
    have "vec_size v' \<noteq> 0 \<longleftrightarrow> active_nodes ?hs \<noteq> []"
      using vec_rep_objects [OF 2(2)] 2(2) by (auto simp: vec_rep_def vec_size_def unat_eq_zero)
    moreover have "(\<exists>h \<in> set ?hs. h_state h \<noteq> Active) \<longleftrightarrow> ?hs \<noteq> []" if "active_nodes ?hs = []"
      using that by (cases ?hs) (auto simp: active_nodes_def filter_empty_conv)
    ultimately show ?thesis by (intro ok [of v']) (use 2 in \<open>auto simp: aquireHandlers_def\<close>)
  qed
qed

lemma fold_fetch_add_inv:
  assumes "registrar_inv w" "\<forall>p \<in> set ps. \<exists>h \<in> set (m_handlerMap (w_reg w)). h_node h = p \<and> h_state h = Active"
    and "size (w_held w) + length ps < 2 ^ 32"
  shows "registrar_inv (w\<lparr>w_reg := fold fetch_add ps (w_reg w), w_held := w_held w + mset ps\<rparr>)"
  using assms
proof (induction ps arbitrary: w)
  case (Cons p ps)
  then obtain h where h: "h \<in> set (m_handlerMap (w_reg w))" "h_node h = p" "h_state h = Active" by auto
  have i: "registrar_inv (w\<lparr>w_reg := fetch_add p (w_reg w), w_held := add_mset p (w_held w)\<rparr>)"
    using fetch_add_inv [OF Cons.prems(1) h(1,3)] Cons.prems(3) h(2) by simp
  have "\<forall>q \<in> set ps. \<exists>h \<in> set (m_handlerMap (fetch_add p (w_reg w))). h_node h = q \<and> h_state h = Active"
  proof
    fix q assume "q \<in> set ps"
    then obtain g where "g \<in> set (m_handlerMap (w_reg w))" "h_node g = q" "h_state g = Active"
      using Cons.prems(2) by auto
    then show "\<exists>h \<in> set (m_handlerMap (fetch_add p (w_reg w))). h_node h = q \<and> h_state h = Active"
      unfolding fetch_defs bex_at_node by (intro bexI [of _ g]) simp_all
  qed
  with Cons.IH [OF i] Cons.prems(3) show ?case by simp
qed simp

lemma active_nodes_at: "p \<in> set (active_nodes (equal_range r uid)) \<Longrightarrow>
    \<exists>h \<in> set (m_handlerMap r). h_node h = p \<and> h_state h = Active"
  using equal_range_set [of r uid] by (auto simp: active_nodes_def)

lemma length_equal_range: "length (active_nodes (equal_range r uid)) \<le> length (m_handlerMap r)"
  "length (equal_range r uid) \<le> length (m_handlerMap r)"
  by (auto simp: active_nodes_def equal_range_def intro: order_trans [OF length_filter_le])

lemma aquireHandlers_inv:
  assumes i: "registrar_inv w" and a: "aquireHandlers E uid v (w_reg w) = (st, v', r')" and v: "vec_rep v xs"
    and b: "size (w_held w) + length (m_handlerMap (w_reg w)) < 2 ^ 32"
  shows "registrar_inv (w\<lparr>w_reg := r', w_held := w_held w + mset (vec_objects v')\<rparr>)"
proof -
  have "length (equal_range (w_reg w) uid) < 2 ^ 32" using b length_equal_range(2) [of "w_reg w" uid] by linarith
  from v this show ?thesis
  proof (cases rule: aquireHandlers_cases [where E = E])
    case (memory v1 k)
    then show ?thesis using a i vec_rep_objects [of v1 "[]"] by simp
  next
    case (ok v1)
    have "registrar_inv (w\<lparr>w_reg := fold fetch_add (active_nodes (equal_range (w_reg w) uid)) (w_reg w),
        w_held := w_held w + mset (active_nodes (equal_range (w_reg w) uid))\<rparr>)"
      using b length_equal_range(1) [of "w_reg w" uid]
      by (intro fold_fetch_add_inv [OF i]) (auto dest: active_nodes_at)
    with ok a vec_rep_objects [OF ok(1)] show ?thesis by simp
  qed
qed

section \<open>Releasing\<close>

text \<open>The part of the invariant that giving a handle back always keeps.\<close>

lemma fetch_sub_inv:
  assumes i: "registrar_inv w" and h: "h \<in> set (m_handlerMap (w_reg w))" "h_node h \<in># w_held w"
  shows "map_inv (fetch_sub (h_node h) (w_reg w))"
    "count_inv (fetch_sub (h_node h) (w_reg w)) (w_held w - {#h_node h#})"
    "calls_inv (fetch_sub (h_node h) (w_reg w)) (w_handler_calls w) (w_service_calls w)"
    "releasing_inv (fetch_sub (h_node h) (w_reg w)) (w_releasing w)"
proof -
  let ?r = "w_reg w" and ?H = "w_held w"
  have m: "map_inv ?r" and c: "count_inv ?r ?H" using i by (simp_all add: registrar_inv_def)
  have only: "g = h" if "g \<in> set (m_handlerMap ?r)" "h_node g = h_node h" for g
    using node_inj(1) [OF m that(1) h(1)] that(2) by simp
  have n: "unat (h_inUseCounter h) = count ?H (h_node h)" "0 < count ?H (h_node h)"
    using c h by (simp_all add: count_inv_def)
  then have "1 \<le> h_inUseCounter h" by (simp add: word_le_nat_alt)
  then have "unat (h_inUseCounter h - 1) = count ?H (h_node h) - 1"
    using n by (simp add: unat_sub)
  then show "count_inv (fetch_sub (h_node h) ?r) (?H - {#h_node h#})"
    using c only by (auto simp: count_inv_def fetch_defs size_Diff_singleton_if dest: in_diffD)
  show "map_inv (fetch_sub (h_node h) ?r)" "calls_inv (fetch_sub (h_node h) ?r) (w_handler_calls w) (w_service_calls w)"
    "releasing_inv (fetch_sub (h_node h) ?r) (w_releasing w)"
    using i by (auto simp: registrar_inv_def fetch_defs releasing_inv_def)
qed

lemma fetch_sub_handler_waits:
  assumes i: "registrar_inv w" and h: "h \<in> set (m_handlerMap (w_reg w))"
    and s: "h_state h = HandlerRemove \<Longrightarrow> h_node h \<in> uh_handle ` set (m_unregisterHandlerList (w_reg w)) \<Longrightarrow>
      h_node h \<in># w_held w - {#h_node h#}"
  shows "handler_waits_inv (fetch_sub (h_node h) (w_reg w)) (w_held w - {#h_node h#})"
proof (rule handler_waits_keep)
  let ?H = "w_held w"
  show "handler_waits_inv (w_reg w) (w_held w)" using i by (simp add: registrar_inv_def)
  fix g assume g: "g \<in> set (m_handlerMap (w_reg w))" "h_state g = HandlerRemove"
    "h_node g \<in> uh_handle ` set (m_unregisterHandlerList (w_reg w))"
  have "h_node g = h_node h \<longleftrightarrow> g = h" using node_inj(1) [OF _ g(1) h] i by (simp add: registrar_inv_def)
  then have "h_node g \<in># ?H - {#h_node h#} \<longleftrightarrow> h_node g \<in># ?H"
    using s g(2,3) by (cases "g = h") (auto simp flip: count_greater_zero_iff)
  with g show "\<exists>h' \<in> set (m_handlerMap (fetch_sub (h_node h) (w_reg w))). h_node h' = h_node g
      \<and> h_state h' = HandlerRemove \<and> (h_node g \<in># ?H - {#h_node h#} \<longleftrightarrow> h_node g \<in># ?H)"
    unfolding fetch_defs bex_at_node by (intro bexI [of _ g]) simp_all
qed (simp_all add: fetch_defs)

lemma fetch_sub_waits_same: "handler_waits_inv r H \<Longrightarrow> handler_waits_inv (fetch_sub p r) H"
proof (rule handler_waits_keep)
  fix g assume g: "g \<in> set (m_handlerMap r)" "h_state g = HandlerRemove"
  then show "\<exists>h' \<in> set (m_handlerMap (fetch_sub p r)). h_node h' = h_node g
      \<and> h_state h' = HandlerRemove \<and> (h_node g \<in># H \<longleftrightarrow> h_node g \<in># H)"
    unfolding fetch_defs bex_at_node by (intro bexI [of _ g]) simp_all
qed (simp_all add: fetch_defs)

lemma service_users_diff:
  assumes "p \<in># H"
  shows "service_users r (H - {#p#}) svc = service_users r H svc - of_bool (p \<in> service_nodes r svc)"
  using assms by (auto simp: service_users_def size_Diff_singleton_if)

lemma fetch_sub_service_waits:
  assumes i: "registrar_inv w" and h: "h \<in> set (m_handlerMap (w_reg w))" "h_node h \<in># w_held w"
    and s: "h_pService h \<notin> us_pService ` set (m_unregisterServiceList (w_reg w))"
  shows "service_waits_inv (fetch_sub (h_node h) (w_reg w)) (w_held w - {#h_node h#})"
proof (rule service_waits_keep)
  let ?r = "w_reg w"
  show s0: "service_waits_inv ?r (w_held w)" using i by (simp add: registrar_inv_def)
  have "\<forall>g \<in> set (m_handlerMap (fetch_sub (h_node h) ?r)). h_pService g \<in> us_pService ` set (m_unregisterServiceList ?r)
      \<longrightarrow> h_state g = ServiceRemove"
    using service_waits_state [OF s0] by (simp add: fetch_defs keeps_if)
  then show "h_state g = ServiceRemove" if "g \<in> set (m_handlerMap (fetch_sub (h_node h) ?r))"
    "h_pService g \<in> us_pService ` set (m_unregisterServiceList ?r)" for g using that by blast
  fix svc assume "svc \<in> us_pService ` set (m_unregisterServiceList ?r)"
  then have "h_node h \<notin> service_nodes ?r svc"
    using s service_nodes_mem [OF _ h(1)] i by (auto simp: registrar_inv_def)
  then show "service_users (fetch_sub (h_node h) ?r) (w_held w - {#h_node h#}) svc = service_users ?r (w_held w) svc"
    using service_users_diff [OF h(2), of ?r svc] by (simp add: fetch_defs)
qed (simp_all add: fetch_defs)

text \<open>The loop that wakes a waiting \<open>unregisterHandler\<close>.\<close>

lemma notify_handler_none:
  assumes "map_inv r" "\<forall>e \<in> set es. \<exists>h \<in> set (m_handlerMap r). h_node h = uh_handle e \<and> h_handler h \<noteq> x"
  shows "notify_handler x es r = Some r"
  using assms(2)
proof (induction es)
  case (Cons e es)
  then obtain h where "h \<in> set (m_handlerMap r)" "h_node h = uh_handle e" "h_handler h \<noteq> x" by auto
  moreover from this have "node r (uh_handle e) = Some h" by (simp add: node_Some [OF assms(1)])
  ultimately show ?case using Cons by simp
qed simp

lemma notify_handler_some:
  assumes m: "map_inv r" and "e \<in> set es" "uh_done e \<noteq> 0" "distinct (map uh_handle es)"
    and "h \<in> set (m_handlerMap r)" "h_node h = uh_handle e"
    and "\<forall>e \<in> set es. \<exists>h \<in> set (m_handlerMap r). h_node h = uh_handle e"
  shows "notify_handler (h_handler h) es r = Some (count_down_handler (uh_it e) r)"
  using assms(2-)
proof (induction es)
  case (Cons d es)
  then obtain g where g: "g \<in> set (m_handlerMap r)" "h_node g = uh_handle d" by auto
  then have n: "node r (uh_handle d) = Some g" by (simp add: node_Some [OF m])
  show ?case
  proof (cases "d = e")
    case True
    then have "g = h" using node_inj(1) [OF m g(1) Cons.prems(4)] g(2) Cons.prems(5) by simp
    then show ?thesis using n True Cons.prems(2) by simp
  next
    case False
    then have "uh_handle d \<noteq> uh_handle e" using Cons.prems(1,3) by auto
    then have "h_handler g \<noteq> h_handler h"
      using node_inj [OF m g(1) Cons.prems(4)] g(2) Cons.prems(5) by auto
    then show ?thesis using n False Cons by auto
  qed
qed simp

lemma release_waiting_service:
  assumes m: "map_inv r" and w: "handler_waits_inv r H"
    and s: "\<forall>h \<in> set (m_handlerMap r). h_node h = p \<longrightarrow> h_state h = ServiceRemove"
  shows "release_waiting p prev r = (if prev = 1 \<and> m_unregisterHandlerList r \<noteq> [] \<and> node r p = None then None else Some r)"
proof (cases "node r p")
  case (Some h)
  then have h: "h \<in> set (m_handlerMap r)" "h_node h = p" "h_state h = ServiceRemove"
    using s by (auto simp: node_Some [OF m])
  have "\<forall>e \<in> set (m_unregisterHandlerList r). \<exists>g \<in> set (m_handlerMap r). h_node g = uh_handle e \<and> h_handler g \<noteq> h_handler h"
    using w h(3) node_inj(2) [OF m _ h(1)] unfolding handler_waits_inv_def by fastforce
  from notify_handler_none [OF m this] Some show ?thesis by (simp add: release_waiting_def)
qed (simp add: release_waiting_def)

text \<open>Updates of the elements of the waiting lists.\<close>

definition service_entry :: "nat \<Rightarrow> (to_unregister_service \<Rightarrow> to_unregister_service) \<Rightarrow> registrar \<Rightarrow> registrar" where
  "service_entry it f r =
     r\<lparr>m_unregisterServiceList := map (\<lambda>e. if us_it e = it then f e else e) (m_unregisterServiceList r)\<rparr>"

lemma entry_fields [simp]:
  "m_handlerMap (service_entry it f r) = m_handlerMap r" "m_handlerMap (count_down_handler it r) = m_handlerMap r"
  "m_unregisterHandlerList (service_entry it f r) = m_unregisterHandlerList r"
  "m_unregisterServiceList (count_down_handler it r) = m_unregisterServiceList r"
  "next_address (service_entry it f r) = next_address r" "next_address (count_down_handler it r) = next_address r"
  by (simp_all add: service_entry_def count_down_handler_def)

lemma count_down_list:
  "m_unregisterHandlerList (count_down_handler it r) =
     map (\<lambda>e. if uh_it e = it then e\<lparr>uh_done := uh_done e - 1\<rparr> else e) (m_unregisterHandlerList r)"
  by (simp add: count_down_handler_def)

lemma service_entry_list:
  "m_unregisterServiceList (service_entry it f r) = map (\<lambda>e. if us_it e = it then f e else e) (m_unregisterServiceList r)"
  by (simp add: service_entry_def)

lemma entry_inv [simp]:
  "map_inv (service_entry it f r) = map_inv r" "map_inv (count_down_handler it r) = map_inv r"
  "count_inv (service_entry it f r) H = count_inv r H" "count_inv (count_down_handler it r) H = count_inv r H"
  "releasing_inv (service_entry it f r) rel = releasing_inv r rel" "releasing_inv (count_down_handler it r) rel = releasing_inv r rel"
  "handler_waits_inv (service_entry it f r) H = handler_waits_inv r H"
  "service_waits_inv (count_down_handler it r) H = service_waits_inv r H"
  "service_users (service_entry it f r) H = service_users r H" "service_users (count_down_handler it r) H = service_users r H"
  by (simp_all add: map_inv_def count_inv_def releasing_inv_def handler_waits_inv_def service_waits_inv_def
      service_users_def service_nodes_def fun_eq_iff)

lemma service_entry_steps:
  "fetch_sub_service it r = service_entry it (\<lambda>e. e\<lparr>us_inUseCounter := us_inUseCounter e - 1\<rparr>) r"
  "count_down_service it (service_entry it (\<lambda>e. e\<lparr>us_inUseCounter := us_inUseCounter e - 1\<rparr>) r) =
     service_entry it (\<lambda>e. e\<lparr>us_inUseCounter := us_inUseCounter e - 1, us_done := us_done e - Suc 0\<rparr>) r"
  by (simp_all add: fetch_sub_service_def count_down_service_def service_entry_def)

lemma calls_inv_entry:
  assumes "calls_inv r hc sc"
  shows "(\<And>e. us_it (f e) = us_it e \<and> us_pService (f e) = us_pService e) \<Longrightarrow> calls_inv (service_entry it f r) hc sc"
    "calls_inv (count_down_handler it r) hc sc"
proof -
  have "(\<exists>e \<in> set (m_unregisterHandlerList (count_down_handler it r)). uh_it e = i
        \<and> (\<exists>h \<in> set (m_handlerMap r). h_node h = uh_handle e \<and> h_id h = uid \<and> h_handler h = x))
      = (\<exists>e \<in> set (m_unregisterHandlerList r). uh_it e = i
        \<and> (\<exists>h \<in> set (m_handlerMap r). h_node h = uh_handle e \<and> h_id h = uid \<and> h_handler h = x))" for i uid x
    unfolding count_down_list bex_set_map by (intro bex_cong) auto
  then show "calls_inv (count_down_handler it r) hc sc" using assms by (simp add: calls_inv_def)
  assume f: "\<And>e. us_it (f e) = us_it e \<and> us_pService (f e) = us_pService e"
  then have "(\<exists>e \<in> set (m_unregisterServiceList (service_entry it f r)). us_it e = i \<and> us_pService e = svc)
      = (\<exists>e \<in> set (m_unregisterServiceList r). us_it e = i \<and> us_pService e = svc)" for i svc
    by (auto simp: service_entry_def)
  then show "calls_inv (service_entry it f r) hc sc" using assms by (simp add: calls_inv_def)
qed

lemma service_entry_waits:
  assumes w: "service_waits_inv r H" and e: "e \<in> set (m_unregisterServiceList r)"
    and f: "us_it (f e) = us_it e" "us_pService (f e) = us_pService e"
    and g: "unat (us_inUseCounter (f e)) = service_users r' H' (us_pService e)"
      "us_done (f e) = of_bool (service_users r' H' (us_pService e) \<noteq> 0)"
    and o: "\<And>svc. svc \<noteq> us_pService e \<Longrightarrow> service_users r' H' svc = service_users r H svc"
    and r': "m_unregisterServiceList r' = m_unregisterServiceList r" "next_address r' = next_address r"
      "\<And>h'. h' \<in> set (m_handlerMap r') \<Longrightarrow> h_pService h' \<in> us_pService ` set (m_unregisterServiceList r) \<Longrightarrow>
         h_state h' = ServiceRemove"
  shows "service_waits_inv (service_entry (us_it e) f r') H'"
proof -
  let ?S = "m_unregisterServiceList r"
  have inj: "us_it d = us_it e \<longleftrightarrow> d = e" "us_pService d = us_pService e \<longleftrightarrow> d = e" if "d \<in> set ?S" for d
    using w e that by (auto simp: service_waits_inv_def distinct_map inj_on_def)
  let ?f = "\<lambda>d. if us_it d = us_it e then f d else d"
  have "map us_it (map ?f ?S) = map us_it ?S" "map us_pService (map ?f ?S) = map us_pService ?S"
    using inj f by auto
  then have "distinct (map us_it (map ?f ?S))" "distinct (map us_pService (map ?f ?S))"
    using w by (simp_all only: service_waits_inv_def)
  moreover have "us_it (?f d) < next_address r \<and> unat (us_inUseCounter (?f d)) = service_users r' H' (us_pService (?f d))
      \<and> us_done (?f d) = of_bool (service_users r' H' (us_pService (?f d)) \<noteq> 0)
      \<and> (\<forall>h \<in> set (m_handlerMap r'). h_pService h = us_pService (?f d) \<longrightarrow> h_state h = ServiceRemove)"
    if d: "d \<in> set ?S" for d
  proof (cases "d = e")
    case True
    then show ?thesis using f g e w r'(3) by (auto simp: service_waits_inv_def)
  next
    case False
    then show ?thesis using inj [OF d] d w r'(3) o by (auto simp: service_waits_inv_def)
  qed
  ultimately show ?thesis
    unfolding service_waits_inv_def service_entry_list ball_set_map entry_fields entry_inv r'(1,2) by blast
qed

lemma count_down_waits:
  assumes m: "map_inv r" and e: "e \<in> set (m_unregisterHandlerList r)" and d: "uh_handle e \<notin># H'" "uh_done e = 1"
    and w: "handler_waits_inv r H" and o: "\<And>q. q \<noteq> uh_handle e \<Longrightarrow> q \<in># H' \<longleftrightarrow> q \<in># H"
  shows "handler_waits_inv (count_down_handler (uh_it e) r) H'"
proof -
  let ?L = "m_unregisterHandlerList r"
  have inj: "uh_it x = uh_it e \<longleftrightarrow> x = e" "uh_handle x = uh_handle e \<longleftrightarrow> x = e" if "x \<in> set ?L" for x
    using w e that by (auto simp: handler_waits_inv_def distinct_map inj_on_def)
  let ?f = "\<lambda>x. if uh_it x = uh_it e then x\<lparr>uh_done := uh_done x - 1\<rparr> else x"
  have "map uh_it (map ?f ?L) = map uh_it ?L" "map uh_handle (map ?f ?L) = map uh_handle ?L" by auto
  then have "distinct (map uh_it (map ?f ?L))" "distinct (map uh_handle (map ?f ?L))"
    using w by (simp_all only: handler_waits_inv_def)
  moreover have "uh_it (?f x) < next_address r \<and> (\<exists>h \<in> set (m_handlerMap r). h_node h = uh_handle (?f x)
      \<and> h_state h = HandlerRemove \<and> uh_done (?f x) = of_bool (uh_handle (?f x) \<in># H'))"
    if x: "x \<in> set ?L" for x
    using w x inj [OF x] d o by (cases "x = e") (auto simp: handler_waits_inv_def)
  ultimately show ?thesis
    unfolding handler_waits_inv_def count_down_list ball_set_map entry_fields by blast
qed

text \<open>Giving back a handler that is active or removed by itself.\<close>

lemma release_handler_inv:
  assumes i: "registrar_inv w" and h: "h \<in> set (m_handlerMap (w_reg w))" "h_node h \<in># w_held w"
    and s: "h_state h \<noteq> ServiceRemove"
  shows "\<exists>r''. (if h_state h = Active then Some (fetch_sub (h_node h) (w_reg w))
        else release_waiting (h_node h) (h_inUseCounter h) (fetch_sub (h_node h) (w_reg w))) = Some r''
      \<and> registrar_inv (w\<lparr>w_reg := r'', w_held := w_held w - {#h_node h#}\<rparr>)"
proof -
  let ?p = "h_node h" and ?r = "fetch_sub (h_node h) (w_reg w)" and ?H = "w_held w - {#h_node h#}"
  note part = fetch_sub_inv [OF i h]
  have sw: "service_waits_inv ?r ?H"
    using i s h(1) by (intro fetch_sub_service_waits [OF i h]) (auto dest: service_waits_state simp: registrar_inv_def)
  have c: "unat (h_inUseCounter h) = count (w_held w) ?p" using i h(1) by (auto simp: registrar_inv_def count_inv_def)
  have w0: "handler_waits_inv (w_reg w) (w_held w)" and m0: "map_inv (w_reg w)" using i by (simp_all add: registrar_inv_def)
  have hs: "h\<lparr>h_inUseCounter := h_inUseCounter h - 1\<rparr> \<in> set (m_handlerMap ?r)"
    using bex_at_node [of ?p "\<lambda>h. h\<lparr>h_inUseCounter := h_inUseCounter h - 1\<rparr>" "w_reg w"
        "\<lambda>g. g = h\<lparr>h_inUseCounter := h_inUseCounter h - 1\<rparr>"] h(1)
    by (auto simp: fetch_defs)
  then have n: "node ?r ?p = Some (h\<lparr>h_inUseCounter := h_inUseCounter h - 1\<rparr>)"
    by (simp add: node_Some [OF part(1)])
  have last: "h_inUseCounter h = 1 \<longleftrightarrow> ?p \<notin># ?H"
    using c count_greater_zero_iff [of "w_held w" ?p] h(2)
    by (auto simp: count_eq_zero_iff [symmetric] word_unat_eq_iff simp del: count_eq_zero_iff count_greater_zero_iff)
  have entries: "\<forall>e \<in> set (m_unregisterHandlerList ?r). \<exists>g \<in> set (m_handlerMap ?r). h_node g = uh_handle e"
    using w0 by (auto simp: handler_waits_inv_def fetch_defs keeps_if)
  show ?thesis
  proof (cases "h_state h = HandlerRemove \<and> h_inUseCounter h = 1")
    case False
    then have "handler_waits_inv ?r ?H" using last by (intro fetch_sub_handler_waits [OF i h(1)]) auto
    moreover from this False s have "(if h_state h = Active then Some ?r else release_waiting ?p (h_inUseCounter h) ?r) = Some ?r"
      by (cases "h_state h") (simp_all add: release_waiting_def)
    ultimately show ?thesis using part sw by (simp add: registrar_inv_def)
  next
    case True
    show ?thesis
    proof (cases "?p \<in> uh_handle ` set (m_unregisterHandlerList (w_reg w))")
      case False
      then have "handler_waits_inv ?r ?H" by (intro fetch_sub_handler_waits [OF i h(1)]) auto
      moreover have "release_waiting ?p (h_inUseCounter h) ?r = Some ?r"
      proof -
        have "\<exists>g \<in> set (m_handlerMap ?r). h_node g = uh_handle e \<and> h_handler g \<noteq> h_handler h"
          if e: "e \<in> set (m_unregisterHandlerList ?r)" for e
        proof -
          from entries e obtain g where g: "g \<in> set (m_handlerMap ?r)" "h_node g = uh_handle e" by blast
          have "uh_handle e \<in> uh_handle ` set (m_unregisterHandlerList (w_reg w))" using e by (simp add: fetch_defs)
          then have "h_node g \<noteq> ?p" using g(2) False by auto
          then show ?thesis using g node_inj [OF part(1) g(1) hs] by auto
        qed
        then show ?thesis using notify_handler_none [OF part(1), of "m_unregisterHandlerList ?r" "h_handler h"] n
          by (simp add: release_waiting_def)
      qed
      ultimately show ?thesis using True part sw by (simp add: registrar_inv_def)
    next
      case e: True
      then obtain e where e: "e \<in> set (m_unregisterHandlerList (w_reg w))" "uh_handle e = ?p" by auto
      have d: "uh_done e = 1" using w0 e h(2) by (auto simp: handler_waits_inv_def)
      have L: "m_unregisterHandlerList ?r = m_unregisterHandlerList (w_reg w)" by (simp add: fetch_defs)
      have "distinct (map uh_handle (m_unregisterHandlerList (w_reg w)))" using w0 by (simp add: handler_waits_inv_def)
      with notify_handler_some [OF part(1), of e "m_unregisterHandlerList (w_reg w)", OF _ _ _ hs] e d entries L
      have "notify_handler (h_handler h) (m_unregisterHandlerList ?r) ?r = Some (count_down_handler (uh_it e) ?r)" by simp
      then have "release_waiting ?p (h_inUseCounter h) ?r = Some (count_down_handler (uh_it e) ?r)"
        using True n e L by (auto simp: release_waiting_def)
      moreover have "handler_waits_inv (count_down_handler (uh_it e) ?r) ?H"
      proof (rule count_down_waits [OF part(1)])
        show "handler_waits_inv ?r (w_held w)" by (rule fetch_sub_waits_same [OF w0])
        fix q assume "q \<noteq> uh_handle e"
        then show "q \<in># ?H \<longleftrightarrow> q \<in># w_held w" using e(2) by (auto simp flip: count_greater_zero_iff)
      qed (use e d last True L in auto)
      ultimately show ?thesis using True part sw by (simp add: registrar_inv_def calls_inv_entry(2))
    qed
  qed
qed

text \<open>Giving back a handler whose service is removed.\<close>

lemma release_service_inv:
  assumes i: "registrar_inv w" and h: "h \<in> set (m_handlerMap (w_reg w))" "h_node h \<in># w_held w"
    and s: "h_state h = ServiceRemove"
  shows "\<exists>unlocked r'. release_counters (h_node h) (w_reg w) = Some (ServiceRemove, h_inUseCounter h, unlocked, r')
      \<and> release_waiting (h_node h) prev r' = Some r' \<and> (\<forall>g \<in> set (m_handlerMap r'). h_node g = h_node h \<longrightarrow> h_state g = ServiceRemove)
      \<and> next_address r' = next_address (w_reg w) \<and> h_node h < next_address (w_reg w)
      \<and> registrar_inv (w\<lparr>w_reg := r', w_held := w_held w - {#h_node h#}\<rparr>)"
proof -
  let ?p = "h_node h" and ?R = "w_reg w" and ?r = "fetch_sub (h_node h) (w_reg w)" and ?H = "w_held w - {#h_node h#}"
  note part = fetch_sub_inv [OF i h]
  have m0: "map_inv ?R" and s0: "service_waits_inv ?R (w_held w)" using i by (simp_all add: registrar_inv_def)
  have hw: "handler_waits_inv ?r ?H" by (rule fetch_sub_handler_waits [OF i h(1)]) (use s in simp)
  have n0: "node ?R ?p = Some h" using h(1) by (simp add: node_Some [OF m0])
  have n: "node ?r ?p \<noteq> None" using h(1) by (auto simp: node_def find_None_iff fetch_defs at_node_def)
  have st: "\<forall>g \<in> set (m_handlerMap ?r). h_node g = ?p \<longrightarrow> h_state g = ServiceRemove"
    using s node_inj(1) [OF m0 _ h(1)] by (auto simp: fetch_defs keeps_if)
  have lt: "?p < next_address ?R" using m0 h(1) by (simp add: map_inv_def)
  have rw: "release_waiting ?p prev ?r = Some ?r" using release_waiting_service [OF part(1) hw st] n by simp
  show ?thesis
  proof (cases "find (\<lambda>e. us_pService e = h_pService h) (m_unregisterServiceList ?r)")
    case None
    then have "h_pService h \<notin> us_pService ` set (m_unregisterServiceList ?R)"
      by (auto simp: find_None_iff fetch_defs)
    from fetch_sub_service_waits [OF i h this] part hw st rw lt None n0 s show ?thesis
      by (intro exI [of _ False] exI [of _ ?r]) (simp add: release_counters_def registrar_inv_def fetch_defs)
  next
    case (Some e)
    then have e: "e \<in> set (m_unregisterServiceList ?R)" "us_pService e = h_pService h"
      by (auto simp: find_Some_iff fetch_defs)
    define f :: "to_unregister_service \<Rightarrow> to_unregister_service" where "f = (if us_inUseCounter e \<noteq> 1 then (\<lambda>e. e\<lparr>us_inUseCounter := us_inUseCounter e - 1\<rparr>)
        else (\<lambda>e. e\<lparr>us_inUseCounter := us_inUseCounter e - 1, us_done := us_done e - 1\<rparr>))"
    let ?r' = "service_entry (us_it e) f ?r"
    have mem: "?p \<in> service_nodes ?R (us_pService e)" using h(1) e(2) by (auto simp: service_nodes_def)
    have u: "service_users ?r ?H svc = service_users ?R (w_held w) svc - of_bool (?p \<in> service_nodes ?R svc)" for svc
      using service_users_diff [OF h(2), of ?R svc] by (simp add: fetch_defs)
    have pos: "service_users ?R (w_held w) (us_pService e) \<noteq> 0"
      using mem h(2) by (auto simp: service_users_def filter_mset_eq_conv)
    have c: "unat (us_inUseCounter e) = service_users ?R (w_held w) (us_pService e)" "us_done e = 1"
      using s0 e(1) pos by (auto simp: service_waits_inv_def)
    then have "1 \<le> us_inUseCounter e" using pos by (simp add: word_le_nat_alt)
    then have c': "unat (us_inUseCounter e - 1) = service_users ?r ?H (us_pService e)"
      using c(1) u mem by (simp add: unat_sub)
    have one: "us_inUseCounter e = 1 \<longleftrightarrow> service_users ?r ?H (us_pService e) = 0"
      using c u mem pos by (auto simp: word_unat_eq_iff)
    have "service_waits_inv ?r' ?H"
    proof (rule service_entry_waits [OF s0 e(1)])
      show "unat (us_inUseCounter (f e)) = service_users ?r ?H (us_pService e)"
        "us_done (f e) = of_bool (service_users ?r ?H (us_pService e) \<noteq> 0)"
        using c(2) c' one by (simp_all add: f_def)
      show "service_users ?r ?H svc = service_users ?R (w_held w) svc" if "svc \<noteq> us_pService e" for svc
      proof -
        have "?p \<notin> service_nodes ?R svc"
          using that e(2) service_nodes_mem [OF m0 h(1)] by simp
        then show ?thesis using u by simp
      qed
      have "\<forall>g \<in> set (m_handlerMap ?r). h_pService g \<in> us_pService ` set (m_unregisterServiceList ?R)
          \<longrightarrow> h_state g = ServiceRemove"
        using service_waits_state [OF s0] by (simp add: fetch_defs keeps_if)
      then show "h_state g = ServiceRemove" if "g \<in> set (m_handlerMap ?r)"
        "h_pService g \<in> us_pService ` set (m_unregisterServiceList ?R)" for g using that by blast
    qed (simp_all add: f_def fetch_defs)
    then have inv: "registrar_inv (w\<lparr>w_reg := ?r', w_held := ?H\<rparr>)"
      using part hw by (simp add: registrar_inv_def calls_inv_entry(1) f_def)
    have rw': "release_waiting ?p prev ?r' = Some ?r'"
      using release_waiting_service [of ?r' ?H ?p prev] part(1) hw st n by (simp add: node_def)
    have "release_counters ?p ?R = Some (ServiceRemove, h_inUseCounter h, us_inUseCounter e = 1, ?r')"
      using n0 s Some c(2) by (simp add: release_counters_def Let_def service_entry_steps f_def)
    with inv rw' st lt show ?thesis by (intro exI [of _ "us_inUseCounter e = 1"] exI [of _ ?r']) (simp add: fetch_defs)
  qed
qed

lemma release_inv:
  assumes i: "registrar_inv w" and p: "p \<in># w_held w"
  shows "\<exists>st prev unlocked r'. release_counters p (w_reg w) = Some (st, prev, unlocked, r')"
    and "release_counters p (w_reg w) = Some (st, prev, False, r') \<Longrightarrow>
      \<exists>r''. (if st = Active then Some r' else release_waiting p prev r') = Some r''
        \<and> registrar_inv (w\<lparr>w_reg := r'', w_held := w_held w - {#p#}\<rparr>)"
    and "release_counters p (w_reg w) = Some (st, prev, True, r') \<Longrightarrow>
      registrar_inv (w\<lparr>w_reg := r', w_held := w_held w - {#p#}, w_releasing := add_mset (p, prev) (w_releasing w)\<rparr>)
      \<and> release_waiting p prev r' = Some r'"
proof -
  have m: "map_inv (w_reg w)" using i by (simp add: registrar_inv_def)
  obtain h where h: "h \<in> set (m_handlerMap (w_reg w))" "h_node h = p"
    using i p by (auto simp: registrar_inv_def count_inv_def)
  then have n: "node (w_reg w) p = Some h" by (simp add: node_Some [OF m])
  have p': "h_node h \<in># w_held w" using h p by simp
  show "\<exists>st prev unlocked r'. release_counters p (w_reg w) = Some (st, prev, unlocked, r')"
  proof (cases "h_state h = ServiceRemove")
    case True
    then show ?thesis using release_service_inv [OF i h(1) p'] h(2) by blast
  qed (use n in \<open>auto simp: release_counters_def Let_def\<close>)
  show "\<exists>r''. (if st = Active then Some r' else release_waiting p prev r') = Some r''
        \<and> registrar_inv (w\<lparr>w_reg := r'', w_held := w_held w - {#p#}\<rparr>)"
    if "release_counters p (w_reg w) = Some (st, prev, False, r')"
  proof (cases "h_state h = ServiceRemove")
    case True
    from release_service_inv [OF i h(1) p' True, of prev] that h(2) show ?thesis by auto
  next
    case False
    then have e: "st = h_state h" "prev = h_inUseCounter h" "r' = fetch_sub p (w_reg w)"
      using that n by (simp_all add: release_counters_def Let_def)
    show ?thesis using release_handler_inv [OF i h(1) p' False] unfolding e h(2) .
  qed
  show "registrar_inv (w\<lparr>w_reg := r', w_held := w_held w - {#p#}, w_releasing := add_mset (p, prev) (w_releasing w)\<rparr>)
      \<and> release_waiting p prev r' = Some r'"
    if "release_counters p (w_reg w) = Some (st, prev, True, r')"
  proof -
    have s: "h_state h = ServiceRemove"
      using that n by (auto simp: release_counters_def Let_def split: if_splits)
    from release_service_inv [OF i h(1) p' s, of prev] that h(2) have
      "release_waiting p prev r' = Some r'" "\<forall>g \<in> set (m_handlerMap r'). h_node g = p \<longrightarrow> h_state g = ServiceRemove"
      "next_address r' = next_address (w_reg w)" "p < next_address (w_reg w)"
      "registrar_inv (w\<lparr>w_reg := r', w_held := w_held w - {#p#}\<rparr>)" by auto
    then show ?thesis by (auto simp: registrar_inv_def releasing_inv_def)
  qed
qed

lemma release_rest_inv:
  assumes i: "registrar_inv w" and p: "(p, prev) \<in># w_releasing w" and r: "release_waiting p prev (w_reg w) = Some r'"
  shows "registrar_inv (w\<lparr>w_reg := r', w_releasing := w_releasing w - {#(p, prev)#}\<rparr>)"
proof -
  have "r' = w_reg w"
    using release_waiting_service [of "w_reg w" "w_held w" p prev] i p r
    by (auto simp: registrar_inv_def releasing_inv_def split: if_splits)
  moreover have "releasing_inv (w_reg w) (w_releasing w - {#(p, prev)#})"
    using i unfolding registrar_inv_def releasing_inv_def by (meson in_diffD)
  ultimately show ?thesis using i by (simp add: registrar_inv_def)
qed

section \<open>Registering and removing\<close>

lemma register_inv:
  assumes i: "registrar_inv w" and a: "registerHandler uid mc svc x (w_reg w) = (st, r')"
    and g: "x \<notin> h_handler ` set (m_handlerMap (w_reg w))" "svc \<notin> us_pService ` set (m_unregisterServiceList (w_reg w))"
  shows "registrar_inv (w\<lparr>w_reg := r'\<rparr>)"
proof (cases "\<not> mc \<and> equal_range (w_reg w) uid \<noteq> []")
  case True
  then have "r' = w_reg w" using a by (simp add: registerHandler_def)
  then show ?thesis using i by simp
next
  case False
  let ?r = "w_reg w" and ?H = "w_held w"
  let ?n = "\<lparr>h_node = next_address ?r, h_id = uid, h_pService = svc, h_handler = x, h_inUseCounter = 0, h_state = Active\<rparr>"
  have r': "r' = ?r\<lparr>m_handlerMap := m_handlerMap ?r @ [?n], next_address := next_address ?r + 1\<rparr>"
    using a False by (auto simp: registerHandler_def)
  have m: "map_inv ?r" and c: "count_inv ?r ?H" and s: "service_waits_inv ?r ?H"
    and u: "handler_waits_inv ?r ?H" using i by (simp_all add: registrar_inv_def)
  have new: "next_address ?r \<notin># ?H" using m c unfolding map_inv_def count_inv_def
    by (metis imageE less_irrefl subsetD)
  have "map_inv r'" using m g(1) by (auto simp: map_inv_def r' less_Suc_eq)
  moreover have "count_inv r' ?H" using c new by (auto simp: count_inv_def r' not_in_iff)
  moreover have "handler_waits_inv r' ?H"
    by (rule handler_waits_keep [OF u]) (auto simp: r')
  moreover have "service_waits_inv r' ?H"
  proof (rule service_waits_keep [OF s])
    show "service_users r' ?H v = service_users ?r ?H v" if "v \<in> us_pService ` set (m_unregisterServiceList ?r)" for v
      using new by (auto simp: service_users_def service_nodes_def r' intro!: arg_cong [of _ _ size] filter_mset_cong)
    show "h_state h = ServiceRemove" if "h \<in> set (m_handlerMap r')" "h_pService h \<in> us_pService ` set (m_unregisterServiceList ?r)" for h
      using that g(2) service_waits_state [OF s] by (auto simp: r')
  qed (simp_all add: r')
  moreover have "calls_inv r' (w_handler_calls w) (w_service_calls w)"
    using i by (fastforce simp: registrar_inv_def calls_inv_def r')
  moreover have "releasing_inv r' (w_releasing w)"
    using i by (auto simp: registrar_inv_def releasing_inv_def r' less_Suc_eq)
  ultimately show ?thesis by (simp add: registrar_inv_def)
qed

text \<open>Erasing entries that nobody uses and nobody waits for.\<close>

lemma erase_inv:
  assumes i: "map_inv r" "count_inv r H" "handler_waits_inv r H" "service_waits_inv r H" "calls_inv r hc sc" "releasing_inv r rel"
    and g: "\<And>h. h \<in> set (m_handlerMap r) \<Longrightarrow> \<not> P h \<Longrightarrow> h_node h \<notin># H \<and> h_node h \<notin> uh_handle ` set (m_unregisterHandlerList r)"
  shows "map_inv (r\<lparr>m_handlerMap := filter P (m_handlerMap r)\<rparr>)"
    "count_inv (r\<lparr>m_handlerMap := filter P (m_handlerMap r)\<rparr>) H"
    "handler_waits_inv (r\<lparr>m_handlerMap := filter P (m_handlerMap r)\<rparr>) H"
    "service_waits_inv (r\<lparr>m_handlerMap := filter P (m_handlerMap r)\<rparr>) H"
    "calls_inv (r\<lparr>m_handlerMap := filter P (m_handlerMap r)\<rparr>) hc sc"
    "releasing_inv (r\<lparr>m_handlerMap := filter P (m_handlerMap r)\<rparr>) rel"
proof -
  let ?r' = "r\<lparr>m_handlerMap := filter P (m_handlerMap r)\<rparr>"
  show "map_inv ?r'" using i(1) by (auto simp: map_inv_def distinct_map intro: inj_on_subset)
  show "count_inv ?r' H" using i(2) g by (fastforce simp: count_inv_def)
  show "handler_waits_inv ?r' H" by (rule handler_waits_keep [OF i(3)]) (use g in auto)
  show "service_waits_inv ?r' H"
  proof (rule service_waits_keep [OF i(4)])
    show "service_users ?r' H svc = service_users r H svc" for svc
      using g by (auto simp: service_users_def service_nodes_def intro!: arg_cong [of _ _ size] filter_mset_cong)
  qed (use service_waits_state [OF i(4)] in auto)
  show "calls_inv ?r' hc sc" using i(5) g unfolding calls_inv_def by fastforce
  show "releasing_inv ?r' rel" using i(6) by (fastforce simp: releasing_inv_def)
qed

lemma not_held:
  "count_inv r H \<Longrightarrow> h \<in> set (m_handlerMap r) \<Longrightarrow> h_node h \<notin># H \<longleftrightarrow> h_inUseCounter h = 0"
  by (auto simp: count_inv_def word_unat_eq_iff simp flip: count_eq_zero_iff)

lemma not_waited:
  assumes "map_inv r" "handler_waits_inv r H" "h \<in> set (m_handlerMap r)" "h_state h \<noteq> HandlerRemove"
  shows "h_node h \<notin> uh_handle ` set (m_unregisterHandlerList r)"
  using assms node_inj(1) [OF assms(1) assms(3)] by (fastforce simp: handler_waits_inv_def)

lemma unregister_inv:
  assumes i: "registrar_inv w" and a: "unregisterHandler uid x (w_reg w) = (None, r')"
    and g: "\<forall>h \<in> set (m_handlerMap (w_reg w)). h_handler h = x \<longrightarrow> h_state h = Active"
  shows "registrar_inv (w\<lparr>w_reg := r'\<rparr>)"
proof (cases "find (\<lambda>h. h_handler h = x) (equal_range (w_reg w) uid)")
  case None
  then have "r' = w_reg w" using a by (simp add: unregisterHandler_def)
  then show ?thesis using i by simp
next
  case (Some h)
  have m: "map_inv (w_reg w)" and c: "count_inv (w_reg w) (w_held w)" and u: "handler_waits_inv (w_reg w) (w_held w)"
    using i by (simp_all add: registrar_inv_def)
  have h: "h \<in> set (m_handlerMap (w_reg w))" "h_handler h = x" using Some by (simp_all add: find_handler [OF m])
  have r': "r' = erase_node (h_node h) (w_reg w)" "h_inUseCounter h = 0"
    using a Some by (auto simp: unregisterHandler_def split: if_splits)
  have "h_node g \<notin># w_held w \<and> h_node g \<notin> uh_handle ` set (m_unregisterHandlerList (w_reg w))"
    if "g \<in> set (m_handlerMap (w_reg w))" "\<not> h_node g \<noteq> h_node h" for g
  proof -
    have "g = h" using that node_inj(1) [OF m that(1) h(1)] by simp
    then show ?thesis using not_held [OF c h(1)] r'(2) not_waited [OF m u h(1)] g h by auto
  qed
  with erase_inv [of "w_reg w" "w_held w" "w_handler_calls w" "w_service_calls w" "w_releasing w" "\<lambda>g. h_node g \<noteq> h_node h"] i r'(1)
  show ?thesis by (auto simp: registrar_inv_def erase_node_def)
qed

lemma calls_inv_queue:
  "calls_inv r hc sc \<Longrightarrow> \<exists>h \<in> set (m_handlerMap r). h_node h = uh_handle e \<and> h_id h = uid \<and> h_handler h = x \<Longrightarrow>
     calls_inv (r\<lparr>m_unregisterHandlerList := e # m_unregisterHandlerList r, next_address := n\<rparr>) (insert (uh_it e, uid, x) hc) sc"
  "calls_inv r hc sc \<Longrightarrow>
     calls_inv (r\<lparr>m_unregisterServiceList := d # m_unregisterServiceList r, next_address := n\<rparr>) hc (insert (us_it d, us_pService d) sc)"
  by (fastforce simp: calls_inv_def)+

text \<open>Marking a handler and queueing the call that waits for it.\<close>

lemma unregister_wait_inv:
  assumes i: "registrar_inv w" and a: "unregisterHandler uid x (w_reg w) = (Some it, r')"
    and g: "\<forall>h \<in> set (m_handlerMap (w_reg w)). h_handler h = x \<longrightarrow> h_state h = Active"
  shows "registrar_inv (w\<lparr>w_reg := r', w_handler_calls := insert (it, uid, x) (w_handler_calls w)\<rparr>)"
proof -
  let ?r = "w_reg w" and ?H = "w_held w"
  have m: "map_inv ?r" and c: "count_inv ?r ?H" and u: "handler_waits_inv ?r ?H" and s: "service_waits_inv ?r ?H"
    using i by (simp_all add: registrar_inv_def)
  obtain h where f: "find (\<lambda>h. h_handler h = x) (equal_range ?r uid) = Some h" and n: "h_inUseCounter h \<noteq> 0"
    and it: "it = next_address ?r"
    and r': "r' = (at_node (h_node h) (\<lambda>h. h\<lparr>h_state := HandlerRemove\<rparr>) ?r)
       \<lparr>m_unregisterHandlerList := \<lparr>uh_it = next_address ?r, uh_handle = h_node h, uh_done = 1\<rparr> # m_unregisterHandlerList ?r,
        next_address := next_address ?r + 1\<rparr>"
    using a by (auto simp: unregisterHandler_def split: option.splits if_splits)
  have h: "h \<in> set (m_handlerMap ?r)" "h_id h = uid" "h_handler h = x" using f by (simp_all add: find_handler [OF m])
  have only: "h' = h" if "h' \<in> set (m_handlerMap ?r)" "h_node h' = h_node h" for h'
    using node_inj(1) [OF m that(1) h(1)] that(2) by simp
  have act: "h_state h = Active" using g h by simp
  let ?m = "at_node (h_node h) (\<lambda>h. h\<lparr>h_state := HandlerRemove\<rparr>) ?r"
  have M: "map_inv ?m" using m by simp
  have "map_inv r'" using M by (auto simp: map_inv_def r')
  moreover have "count_inv r' ?H"
  proof -
    have "\<forall>g \<in> set (m_handlerMap ?m). unat (h_inUseCounter g) = count ?H (h_node g)"
      using c by (simp add: count_inv_def)
    then show ?thesis using c by (auto simp: count_inv_def r')
  qed
  moreover have "handler_waits_inv r' ?H"
  proof -
    have "handler_waits_inv ?m ?H"
    proof (rule handler_waits_keep [OF u])
      fix k assume k: "k \<in> set (m_handlerMap ?r)" "h_state k = HandlerRemove"
      then show "\<exists>h' \<in> set (m_handlerMap ?m). h_node h' = h_node k \<and> h_state h' = HandlerRemove
          \<and> (h_node k \<in># ?H \<longleftrightarrow> h_node k \<in># ?H)"
        unfolding bex_at_node by (intro bexI [of _ k]) simp_all
    qed simp_all
    moreover have "\<exists>h' \<in> set (m_handlerMap ?m). h_node h' = h_node h \<and> h_state h' = HandlerRemove"
      unfolding bex_at_node using h(1) by (intro bexI [of _ h]) simp_all
    moreover have "h_node h \<in># ?H" using not_held [OF c h(1)] n by simp
    moreover have "h_node h \<notin> uh_handle ` set (m_unregisterHandlerList ?r)" using not_waited [OF m u h(1)] act by simp
    ultimately show ?thesis by (auto simp: handler_waits_inv_def r')
  qed
  moreover have "service_waits_inv r' ?H"
  proof (rule service_waits_keep [OF s])
    have "\<forall>k \<in> set (m_handlerMap ?r). h_pService k \<in> us_pService ` set (m_unregisterServiceList ?r) \<longrightarrow> h_state k = ServiceRemove"
    proof
      fix k assume k: "k \<in> set (m_handlerMap ?r)"
      show "h_pService k \<in> us_pService ` set (m_unregisterServiceList ?r) \<longrightarrow> h_state k = ServiceRemove"
        using service_waits_state [OF s k] by blast
    qed
    then have "\<forall>k \<in> set (m_handlerMap ?m). h_pService k \<in> us_pService ` set (m_unregisterServiceList ?r) \<longrightarrow> h_state k = ServiceRemove"
      using only act h(1) by (simp add: keeps_if) (metis hstate.distinct(3))
    then show "h_state k = ServiceRemove" if "k \<in> set (m_handlerMap r')"
      "h_pService k \<in> us_pService ` set (m_unregisterServiceList ?r)" for k using that by (simp add: r' del: ball_at_node)
    show "service_users r' ?H v = service_users ?r ?H v" for v
      using service_users_at_node [of "\<lambda>h. h\<lparr>h_state := HandlerRemove\<rparr>" "h_node h" ?r ?H v]
      by (simp add: r' service_users_def service_nodes_def)
  qed (simp_all add: r')
  moreover have "calls_inv r' (insert (it, uid, x) (w_handler_calls w)) (w_service_calls w)"
  proof -
    have "calls_inv ?m (w_handler_calls w) (w_service_calls w)" using i by (simp add: registrar_inv_def)
    moreover have "\<exists>h' \<in> set (m_handlerMap ?m). h_node h' = h_node h \<and> h_id h' = uid \<and> h_handler h' = x"
      unfolding bex_at_node using h by (intro bexI [of _ h]) simp_all
    ultimately show ?thesis
      using calls_inv_queue(1) [of ?m "w_handler_calls w" "w_service_calls w" "\<lparr>uh_it = it, uh_handle = h_node h, uh_done = 1\<rparr>"]
      by (auto simp: r' it)
  qed
  moreover have "releasing_inv r' (w_releasing w)"
  proof -
    have "\<forall>(p, prev) \<in># w_releasing w. \<forall>k \<in> set (m_handlerMap ?m). h_node k = p \<longrightarrow> h_state k = ServiceRemove"
    proof
      fix q assume 1: "q \<in># w_releasing w"
      have st: "\<forall>k \<in> set (m_handlerMap ?r). h_node k = fst q \<longrightarrow> h_state k = ServiceRemove"
        using i 1 unfolding registrar_inv_def releasing_inv_def by (auto simp: split_beta)
      have "h_node h \<noteq> fst q" using st h(1) act by auto
      then show "case q of (p, prev) \<Rightarrow> \<forall>k \<in> set (m_handlerMap ?m). h_node k = p \<longrightarrow> h_state k = ServiceRemove"
        using st by (simp add: keeps_if split_beta)
    qed
    then show ?thesis using i by (auto simp: registrar_inv_def releasing_inv_def r' less_Suc_eq split_beta)
  qed
  ultimately show ?thesis by (simp add: registrar_inv_def)
qed

text \<open>Taking the element of a woken call off its list.\<close>

lemma drop_handler_wait_inv:
  assumes i: "registrar_inv w"
    and r': "r' = (w_reg w)\<lparr>m_unregisterHandlerList := filter (\<lambda>e. uh_it e \<noteq> it) (m_unregisterHandlerList (w_reg w))\<rparr>"
    and c: "(it, uid, x) \<in> w_handler_calls w"
  shows "registrar_inv (w\<lparr>w_reg := r', w_handler_calls := w_handler_calls w - {(it, uid, x)}\<rparr>)"
proof -
  let ?r = "w_reg w" and ?H = "w_held w"
  have u: "handler_waits_inv ?r ?H" and cs: "calls_inv ?r (w_handler_calls w) (w_service_calls w)"
    and m: "map_inv ?r" using i by (simp_all add: registrar_inv_def)
  have "handler_waits_inv r' ?H"
    using u by (auto simp: handler_waits_inv_def r' distinct_map intro: inj_on_subset)
  moreover have "calls_inv r' (w_handler_calls w - {(it, uid, x)}) (w_service_calls w)"
  proof -
    have "it' \<noteq> it" if a: "(it', uid', x') \<in> w_handler_calls w" "(it', uid', x') \<noteq> (it, uid, x)" for it' uid' x'
    proof
      assume eq: "it' = it"
      obtain e h where e: "e \<in> set (m_unregisterHandlerList ?r)" "uh_it e = it" "h \<in> set (m_handlerMap ?r)"
        "h_node h = uh_handle e" "h_id h = uid" "h_handler h = x" using cs c by (fastforce simp: calls_inv_def)
      obtain d k where d: "d \<in> set (m_unregisterHandlerList ?r)" "uh_it d = it" "k \<in> set (m_handlerMap ?r)"
        "h_node k = uh_handle d" "h_id k = uid'" "h_handler k = x'" using cs a(1) eq by (fastforce simp: calls_inv_def)
      have "d = e" using u e(1,2) d(1,2) by (auto simp: handler_waits_inv_def distinct_map inj_on_def)
      then have "k = h" using node_inj(1) [OF m d(3) e(3)] d(4) e(4) by simp
      then show False using a(2) eq d e by simp
    qed
    then show ?thesis using cs by (fastforce simp: calls_inv_def r')
  qed
  ultimately show ?thesis
    using i by (simp add: registrar_inv_def map_inv_def count_inv_def service_waits_inv_def releasing_inv_def
        service_users_def service_nodes_def r')
qed

lemma unregister_woken_inv:
  assumes i: "registrar_inv w" and c: "(it, uid, x) \<in> w_handler_calls w" and o: "latch_open (w_reg w) it"
  shows "registrar_inv (w\<lparr>w_reg := unregisterHandler_woken it uid x (w_reg w),
     w_handler_calls := w_handler_calls w - {(it, uid, x)}\<rparr>)"
proof -
  let ?r = "w_reg w" and ?H = "w_held w"
  define r' where "r' = ?r\<lparr>m_unregisterHandlerList := filter (\<lambda>e. uh_it e \<noteq> it) (m_unregisterHandlerList ?r)\<rparr>"
  have u: "handler_waits_inv ?r ?H" and cs: "calls_inv ?r (w_handler_calls w) (w_service_calls w)"
    and m: "map_inv ?r" using i by (simp_all add: registrar_inv_def)
  have i': "registrar_inv (w\<lparr>w_reg := r', w_handler_calls := w_handler_calls w - {(it, uid, x)}\<rparr>)"
    by (rule drop_handler_wait_inv [OF i r'_def c])
  obtain e h where e: "e \<in> set (m_unregisterHandlerList ?r)" "uh_it e = it" "h \<in> set (m_handlerMap ?r)"
    "h_node h = uh_handle e" "h_id h = uid" "h_handler h = x" using cs c by (fastforce simp: calls_inv_def)
  have "uh_done e = 0" using o e(1,2) u by (auto simp: latch_open_def handler_waits_inv_def distinct_map inj_on_def)
  then have nh: "h_node h \<notin># ?H" using u e(1,4) by (auto simp: handler_waits_inv_def)
  have "uh_handle d \<noteq> h_node h" if "d \<in> set (m_unregisterHandlerList r')" for d
    using that e u by (auto simp: handler_waits_inv_def r'_def distinct_map inj_on_def)
  then have nw: "h_node h \<notin> uh_handle ` set (m_unregisterHandlerList r')" by (metis imageE)
  have m': "map_inv r'" using i' by (simp add: registrar_inv_def)
  have f: "find (\<lambda>h. h_handler h = x) (equal_range r' uid) = Some h"
    using e unfolding find_handler [OF m'] by (simp add: r'_def)
  have "registrar_inv (w\<lparr>w_reg := erase_node (h_node h) r', w_handler_calls := w_handler_calls w - {(it, uid, x)}\<rparr>)"
    using erase_inv [of r' ?H "w_handler_calls w - {(it, uid, x)}" "w_service_calls w" "w_releasing w"
        "\<lambda>g. h_node g \<noteq> h_node h"] i' nh nw
    by (auto simp: registrar_inv_def erase_node_def)
  moreover have "unregisterHandler_woken it uid x ?r = erase_node (h_node h) r'"
    using f by (simp add: unregisterHandler_woken_def r'_def)
  ultimately show ?thesis by simp
qed

text \<open>The sum of the counters of a service is the number of its uses.\<close>

lemma unat_sum_list:
  "sum_list (map unat ws) < 2 ^ 32 \<Longrightarrow> unat (sum_list (ws :: u32 list)) = sum_list (map unat ws)"
proof (induction ws)
  case (Cons v ws)
  then show ?case by (simp add: unat_add_exact)
qed simp

lemma sum_counts:
  "distinct ns \<Longrightarrow> sum_list (map (count H) ns) = size {#p \<in># H. p \<in> set ns#}"
proof (induction ns)
  case (Cons n ns)
  have "size {#p \<in># H. p \<in> set (n # ns)#} = size ({#p \<in># H. p = n#} + {#p \<in># H. p \<in> set ns#})"
    using Cons.prems by (intro arg_cong [of _ _ size] multiset_eqI) auto
  then show ?case using Cons by (simp add: filter_eq_replicate_mset)
qed simp

lemma service_total:
  assumes m: "map_inv r" and c: "count_inv r H"
  shows "unat (sum_list (map h_inUseCounter (filter (\<lambda>h. h_pService h = svc) (m_handlerMap r)))) = service_users r H svc"
proof -
  let ?hs = "filter (\<lambda>h. h_pService h = svc) (m_handlerMap r)"
  have "distinct (map h_node ?hs)" using m by (simp add: map_inv_def distinct_map_filter)
  from sum_counts [OF this, of H] have s: "sum_list (map (count H) (map h_node ?hs)) = service_users r H svc"
    by (simp add: service_users_def service_nodes_def)
  have "map unat (map h_inUseCounter ?hs) = map (count H) (map h_node ?hs)" using c by (simp add: count_inv_def)
  with s have t: "sum_list (map unat (map h_inUseCounter ?hs)) = service_users r H svc" by metis
  have "service_users r H svc \<le> size H" unfolding service_users_def by (rule size_filter_mset_lesseq)
  then have "service_users r H svc < 2 ^ 32" using c by (simp add: count_inv_def)
  with unat_sum_list [of "map h_inUseCounter ?hs"] t show ?thesis by simp
qed

lemma no_service_users:
  assumes "map_inv r" "count_inv r H" "service_users r H svc = 0" "h \<in> set (m_handlerMap r)" "h_pService h = svc"
  shows "h_node h \<notin># H"
  using assms service_nodes_mem [OF assms(1,4)] by (auto simp: service_users_def)

definition mark_service :: "nat \<Rightarrow> registrar \<Rightarrow> registrar" where
  "mark_service svc r = r\<lparr>m_handlerMap := map (\<lambda>h. if h_pService h = svc then h\<lparr>h_state := ServiceRemove\<rparr> else h) (m_handlerMap r)\<rparr>"

lemma unregisterService_cases:
  assumes "map_inv r" "count_inv r H"
  shows "unregisterService svc r =
    (if service_users r H svc \<noteq> 0
     then (Some (next_address r), (mark_service svc r)\<lparr>m_unregisterServiceList :=
              \<lparr>us_it = next_address r, us_pService = svc,
               us_inUseCounter = sum_list (map h_inUseCounter (filter (\<lambda>h. h_pService h = svc) (m_handlerMap r))), us_done = 1\<rparr>
              # m_unregisterServiceList r, next_address := next_address r + 1\<rparr>)
     else (None, erase_service svc (mark_service svc r)))"
proof -
  have "sum_list (map h_inUseCounter (filter (\<lambda>h. h_pService h = svc) (m_handlerMap r))) = 0 \<longleftrightarrow> service_users r H svc = 0"
    using service_total [OF assms, of svc] by (metis unat_0 unat_eq_zero)
  then show ?thesis by (simp add: unregisterService_def mark_service_def Let_def)
qed

lemma mark_service_fields [simp]:
  "m_unregisterServiceList (mark_service svc r) = m_unregisterServiceList r"
  "m_unregisterHandlerList (mark_service svc r) = m_unregisterHandlerList r"
  "next_address (mark_service svc r) = next_address r"
  by (simp_all add: mark_service_def)

lemma ball_mark_service:
  "(\<forall>h \<in> set (m_handlerMap (mark_service svc r)). P h) \<longleftrightarrow>
     (\<forall>h \<in> set (m_handlerMap r). P (if h_pService h = svc then h\<lparr>h_state := ServiceRemove\<rparr> else h))"
  "(\<exists>h \<in> set (m_handlerMap (mark_service svc r)). P h) \<longleftrightarrow>
     (\<exists>h \<in> set (m_handlerMap r). P (if h_pService h = svc then h\<lparr>h_state := ServiceRemove\<rparr> else h))"
  by (auto simp: mark_service_def)

lemma if_state:
  "h_node (if b then h\<lparr>h_state := s\<rparr> else h) = h_node h" "h_id (if b then h\<lparr>h_state := s\<rparr> else h) = h_id h"
  "h_pService (if b then h\<lparr>h_state := s\<rparr> else h) = h_pService h" "h_handler (if b then h\<lparr>h_state := s\<rparr> else h) = h_handler h"
  "h_inUseCounter (if b then h\<lparr>h_state := s\<rparr> else h) = h_inUseCounter h"
  by simp_all

lemma mark_service_inv:
  assumes i: "registrar_inv w" and g: "\<forall>h \<in> set (m_handlerMap (w_reg w)). h_pService h = svc \<longrightarrow> h_state h = Active"
  shows "registrar_inv (w\<lparr>w_reg := mark_service svc (w_reg w)\<rparr>)"
    "service_users (mark_service svc (w_reg w)) H v = service_users (w_reg w) H v"
proof -
  let ?r = "w_reg w" and ?H = "w_held w"
  let ?m = "mark_service svc ?r"
  have m: "map_inv ?r" and c: "count_inv ?r ?H" and u: "handler_waits_inv ?r ?H" and s: "service_waits_inv ?r ?H"
    and cs: "calls_inv ?r (w_handler_calls w) (w_service_calls w)" and rl: "releasing_inv ?r (w_releasing w)"
    using i by (simp_all add: registrar_inv_def)
  have e: "map h_node (m_handlerMap ?m) = map h_node (m_handlerMap ?r)"
    "map h_handler (m_handlerMap ?m) = map h_handler (m_handlerMap ?r)"
    by (auto simp: mark_service_def)
  then have en: "h_node ` set (m_handlerMap ?m) = h_node ` set (m_handlerMap ?r)" by (metis list.set_map)
  have nodes: "service_nodes ?m v = service_nodes ?r v" for v
  proof -
    have "n \<in> service_nodes ?m v \<longleftrightarrow> n \<in> service_nodes ?r v" for n
      using ball_mark_service(2) [of svc ?r "\<lambda>h. h_pService h = v \<and> n = h_node h"] unfolding if_state
      by (auto simp: service_nodes_def)
    then show ?thesis by blast
  qed
  then show users: "service_users ?m H v = service_users ?r H v" for H v by (simp add: service_users_def)
  have "map_inv ?m" using m by (simp add: map_inv_def e ball_mark_service if_state del: map_map)
  moreover have "count_inv ?m ?H" using c unfolding count_inv_def ball_mark_service if_state en .
  moreover have "handler_waits_inv ?m ?H"
  proof (rule handler_waits_keep [OF u])
    fix k assume k: "k \<in> set (m_handlerMap ?r)" "h_state k = HandlerRemove"
    then have "h_pService k \<noteq> svc" using g by auto
    with k show "\<exists>h' \<in> set (m_handlerMap ?m). h_node h' = h_node k \<and> h_state h' = HandlerRemove
        \<and> (h_node k \<in># ?H \<longleftrightarrow> h_node k \<in># ?H)"
      unfolding ball_mark_service by (intro bexI [of _ k]) simp_all
  qed simp_all
  moreover have "service_waits_inv ?m ?H"
  proof (rule service_waits_keep [OF s])
    have "\<forall>k \<in> set (m_handlerMap ?m). h_pService k \<in> us_pService ` set (m_unregisterServiceList ?r) \<longrightarrow> h_state k = ServiceRemove"
      unfolding ball_mark_service if_state using service_waits_state [OF s] by simp
    then show "h_state k = ServiceRemove" if "k \<in> set (m_handlerMap ?m)"
      "h_pService k \<in> us_pService ` set (m_unregisterServiceList ?r)" for k using that by blast
  qed (simp_all add: users)
  moreover have "calls_inv ?m (w_handler_calls w) (w_service_calls w)"
    using cs by (simp add: calls_inv_def ball_mark_service if_state)
  moreover have "releasing_inv ?m (w_releasing w)"
    using rl by (fastforce simp: releasing_inv_def ball_mark_service if_state)
  ultimately show "registrar_inv (w\<lparr>w_reg := ?m\<rparr>)" by (simp add: registrar_inv_def)
qed

lemma service_inv:
  assumes i: "registrar_inv w" and a: "unregisterService svc (w_reg w) = (None, r')"
    and g: "\<forall>h \<in> set (m_handlerMap (w_reg w)). h_pService h = svc \<longrightarrow> h_state h = Active"
  shows "registrar_inv (w\<lparr>w_reg := r'\<rparr>)"
proof -
  let ?r = "w_reg w" and ?H = "w_held w"
  let ?m = "mark_service svc ?r"
  have m: "map_inv ?r" and c: "count_inv ?r ?H" using i by (simp_all add: registrar_inv_def)
  from a have r': "r' = erase_service svc ?m" and z: "service_users ?r ?H svc = 0"
    by (simp_all add: unregisterService_cases [OF m c] split: if_splits)
  note i' = mark_service_inv(1) [OF i g]
  have "h_node h \<notin># ?H \<and> h_node h \<notin> uh_handle ` set (m_unregisterHandlerList ?m)"
    if h: "h \<in> set (m_handlerMap ?m)" "h_pService h = svc" for h
  proof -
    have "\<forall>h \<in> set (m_handlerMap ?m). h_pService h = svc \<longrightarrow> h_state h = ServiceRemove"
      unfolding ball_mark_service if_state by simp
    then have "h_state h \<noteq> HandlerRemove" using h by simp
    then show ?thesis
      using h not_waited [of ?m ?H h] no_service_users [of ?m ?H svc h] i' z mark_service_inv(2) [OF i g]
      by (simp add: registrar_inv_def)
  qed
  with erase_inv [of ?m ?H "w_handler_calls w" "w_service_calls w" "w_releasing w" "\<lambda>h. h_pService h \<noteq> svc"] i'
  show ?thesis by (simp add: registrar_inv_def r' erase_service_def)
qed

lemma service_wait_inv:
  assumes i: "registrar_inv w" and a: "unregisterService svc (w_reg w) = (Some it, r')"
    and g: "\<forall>h \<in> set (m_handlerMap (w_reg w)). h_pService h = svc \<longrightarrow> h_state h = Active"
  shows "registrar_inv (w\<lparr>w_reg := r', w_service_calls := insert (it, svc) (w_service_calls w)\<rparr>)"
proof -
  let ?r = "w_reg w" and ?H = "w_held w"
  let ?m = "mark_service svc ?r"
  let ?t = "sum_list (map h_inUseCounter (filter (\<lambda>h. h_pService h = svc) (m_handlerMap ?r)))"
  let ?e = "\<lparr>us_it = it, us_pService = svc, us_inUseCounter = ?t, us_done = 1\<rparr>"
  have m: "map_inv ?r" and c: "count_inv ?r ?H" and s: "service_waits_inv ?r ?H" using i by (simp_all add: registrar_inv_def)
  from a have r': "r' = ?m\<lparr>m_unregisterServiceList := ?e # m_unregisterServiceList ?m, next_address := next_address ?m + 1\<rparr>"
    and it: "it = next_address ?r" and z: "service_users ?r ?H svc \<noteq> 0"
    by (auto simp: unregisterService_cases [OF m c] split: if_splits)
  note i' = mark_service_inv(1) [OF i g] and users = mark_service_inv(2) [OF i g]
  have same: "service_users r' H v = service_users ?r H v" for H v
    using users [of H v] by (simp add: r' service_users_def service_nodes_def)
  have "svc \<notin> us_pService ` set (m_unregisterServiceList ?r)"
  proof
    assume "svc \<in> us_pService ` set (m_unregisterServiceList ?r)"
    then have "\<forall>h \<in> set (m_handlerMap ?r). h_pService h \<noteq> svc"
      using service_waits_state [OF s] g by fastforce
    then show False using z by (auto simp: service_users_def service_nodes_def)
  qed
  moreover have "\<forall>h \<in> set (m_handlerMap ?m). h_pService h = svc \<longrightarrow> h_state h = ServiceRemove"
    unfolding ball_mark_service if_state by simp
  moreover have "service_waits_inv ?m ?H" using i' by (simp add: registrar_inv_def)
  ultimately have "service_waits_inv r' ?H"
    using z service_total [OF m c, of svc] users
    unfolding service_waits_inv_def same by (auto simp: r' it)
  moreover have "calls_inv r' (w_handler_calls w) (insert (it, svc) (w_service_calls w))"
    using calls_inv_queue(2) [where d = ?e and r = ?m] i' by (simp add: r' registrar_inv_def)
  moreover have "map_inv r'" "count_inv r' ?H" "releasing_inv r' (w_releasing w)"
    using i' unfolding registrar_inv_def map_inv_def count_inv_def releasing_inv_def r' by (auto simp: less_Suc_eq)
  moreover have "handler_waits_inv r' ?H"
    by (rule handler_waits_keep [where r = ?m]) (use i' in \<open>auto simp: registrar_inv_def r'\<close>)
  ultimately show ?thesis by (simp add: registrar_inv_def)
qed

lemma service_woken_inv:
  assumes i: "registrar_inv w" and c: "(it, svc) \<in> w_service_calls w" and o: "service_latch_open (w_reg w) it"
  shows "registrar_inv (w\<lparr>w_reg := unregisterService_woken it svc (w_reg w), w_service_calls := w_service_calls w - {(it, svc)}\<rparr>)"
proof -
  let ?r = "w_reg w" and ?H = "w_held w"
  define r' where "r' = ?r\<lparr>m_unregisterServiceList := filter (\<lambda>e. us_it e \<noteq> it) (m_unregisterServiceList ?r)\<rparr>"
  have m: "map_inv ?r" and s: "service_waits_inv ?r ?H" and cs: "calls_inv ?r (w_handler_calls w) (w_service_calls w)"
    and u: "handler_waits_inv ?r ?H" and cnt: "count_inv ?r ?H"
    using i by (simp_all add: registrar_inv_def)
  obtain e where e: "e \<in> set (m_unregisterServiceList ?r)" "us_it e = it" "us_pService e = svc"
    using cs c by (fastforce simp: calls_inv_def)
  have "us_done e = 0" using o e(1,2) s by (auto simp: service_latch_open_def service_waits_inv_def distinct_map inj_on_def)
  then have z: "service_users ?r ?H svc = 0" using s e by (auto simp: service_waits_inv_def)
  have "service_waits_inv r' ?H"
    using s by (auto simp: service_waits_inv_def r'_def distinct_map service_users_def service_nodes_def intro: inj_on_subset)
  moreover have "calls_inv r' (w_handler_calls w) (w_service_calls w - {(it, svc)})"
  proof -
    have "it' \<noteq> it" if a: "(it', v) \<in> w_service_calls w" "(it', v) \<noteq> (it, svc)" for it' v
    proof
      assume eq: "it' = it"
      obtain d where d: "d \<in> set (m_unregisterServiceList ?r)" "us_it d = it" "us_pService d = v"
        using cs a(1) eq by (fastforce simp: calls_inv_def)
      have "d = e" using s e(1,2) d(1,2) by (auto simp: service_waits_inv_def distinct_map inj_on_def)
      then show False using a(2) eq d(3) e(3) by simp
    qed
    then show ?thesis using cs by (fastforce simp: calls_inv_def r'_def)
  qed
  moreover have "map_inv r'" "count_inv r' ?H" "handler_waits_inv r' ?H" "releasing_inv r' (w_releasing w)"
    using i by (simp_all add: registrar_inv_def map_inv_def count_inv_def handler_waits_inv_def releasing_inv_def r'_def)
  moreover have "h_node h \<notin># ?H \<and> h_node h \<notin> uh_handle ` set (m_unregisterHandlerList r')"
    if h: "h \<in> set (m_handlerMap r')" "\<not> h_pService h \<noteq> svc" for h
  proof -
    have "svc \<in> us_pService ` set (m_unregisterServiceList ?r)" using e by blast
    then have "h_state h = ServiceRemove"
      using h service_waits_state [OF s, of h] by (simp add: r'_def)
    then show ?thesis using h not_waited [OF m u, of h] no_service_users [OF m cnt z, of h] by (simp add: r'_def)
  qed
  ultimately show ?thesis
    using erase_inv [of r' ?H "w_handler_calls w" "w_service_calls w - {(it, svc)}" "w_releasing w" "\<lambda>h. h_pService h \<noteq> svc"]
    by (simp add: registrar_inv_def unregisterService_woken_def erase_service_def r'_def)
qed

section \<open>Reachable states\<close>

lemma registrar_step_inv:
  assumes "registrar_step E w w'" "registrar_inv w"
  shows "registrar_inv w'"
  using assms(1)
proof cases
  case (register uid mc svc x st r')
  then show ?thesis using register_inv [OF assms(2)] by simp
next
  case (unregister uid x r')
  then show ?thesis using unregister_inv [OF assms(2)] by simp
next
  case (unregister_wait uid x it r')
  then show ?thesis using unregister_wait_inv [OF assms(2)] by simp
next
  case (unregister_woken it uid x)
  then show ?thesis using unregister_woken_inv [OF assms(2)] by simp
next
  case (service svc r')
  then show ?thesis using service_inv [OF assms(2)] by simp
next
  case (service_wait svc it r')
  then show ?thesis using service_wait_inv [OF assms(2)] by simp
next
  case (service_woken it svc)
  then show ?thesis using service_woken_inv [OF assms(2)] by simp
next
  case (aquire uid p st q r')
  then show ?thesis using aquireHandler_inv [OF assms(2)] by simp
next
  case (aquire_all uid v st v' r' xs)
  then show ?thesis using aquireHandlers_inv [OF assms(2)] by simp
next
  case (release p st prev r' r'')
  then show ?thesis using release_inv(2) [OF assms(2) release(2,3)] by simp
next
  case (release_unlocked p st prev r')
  then show ?thesis using release_inv(3) [OF assms(2)] by simp
next
  case (release_rest p prev r')
  then show ?thesis using release_rest_inv [OF assms(2)] by simp
qed

lemma registrar_reachable_inv: "registrar_reachable E w \<Longrightarrow> registrar_inv w"
  by (induction rule: registrar_reachable.induct) (auto intro: registrar_inv_initial registrar_step_inv)

section \<open>Claims\<close>

text \<open>A reachable state: one handler of a service, acquired once, and the service waits for it.\<close>

definition sample_handle :: "nat \<Rightarrow> uuid \<Rightarrow> nat \<Rightarrow> u32 \<Rightarrow> hstate \<Rightarrow> sdh_handle" where
  "sample_handle n uid svc c st =
     \<lparr>h_node = n, h_id = uid, h_pService = svc, h_handler = n + 100, h_inUseCounter = c, h_state = st\<rparr>"

lemma sample_held:
  "registrar_reachable E \<lparr>w_reg = \<lparr>m_handlerMap = [sample_handle 1 uid 7 1 Active],
     m_unregisterServiceList = [], m_unregisterHandlerList = [], next_address = 2\<rparr>, w_held = {#1#}, w_releasing = {#},
     w_handler_calls = {}, w_service_calls = {}\<rparr>" (is "registrar_reachable E ?w2")
proof -
  let ?r1 = "\<lparr>m_handlerMap = [sample_handle 1 uid 7 0 Active], m_unregisterServiceList = [],
     m_unregisterHandlerList = [], next_address = 2\<rparr>"
  have "registerHandler uid False 7 101 (w_reg initial_world) = (NoError, ?r1)"
    by (simp add: registerHandler_def initial_world_def empty_registrar_def equal_range_def sample_handle_def)
  from registrar_step.register [OF this, of E] have
    "registrar_step E initial_world (initial_world\<lparr>w_reg := ?r1\<rparr>)" by (simp add: initial_world_def empty_registrar_def)
  with registrar_reachable.start have r: "registrar_reachable E (initial_world\<lparr>w_reg := ?r1\<rparr>)"
    by (rule registrar_reachable.more)
  have "aquireHandler uid 0 (w_reg (initial_world\<lparr>w_reg := ?r1\<rparr>)) = (NoError, 1, w_reg ?w2)"
    by (simp add: aquireHandler_def equal_range_def sample_handle_def uuid_eq_iff fetch_add_def at_node_def)
  from registrar_step.aquire [OF this, of E] have "registrar_step E (initial_world\<lparr>w_reg := ?r1\<rparr>) ?w2"
    by (simp add: initial_world_def)
  with r show ?thesis by (rule registrar_reachable.more)
qed

lemma sample_waiting:
  "registrar_reachable E \<lparr>w_reg = \<lparr>m_handlerMap = [sample_handle 1 uid 7 1 HandlerRemove],
     m_unregisterServiceList = [], m_unregisterHandlerList = [\<lparr>uh_it = 2, uh_handle = 1, uh_done = 1\<rparr>], next_address = 3\<rparr>,
     w_held = {#1#}, w_releasing = {#}, w_handler_calls = {(2, uid, 101)}, w_service_calls = {}\<rparr>"
  (is "registrar_reachable E ?w3")
proof -
  let ?w2 = "\<lparr>w_reg = \<lparr>m_handlerMap = [sample_handle 1 uid 7 1 Active],
     m_unregisterServiceList = [], m_unregisterHandlerList = [], next_address = 2\<rparr>, w_held = {#1#}, w_releasing = {#},
     w_handler_calls = {}, w_service_calls = {}\<rparr>"
  have "unregisterHandler uid 101 (w_reg ?w2) = (Some 2, w_reg ?w3)"
    by (simp add: unregisterHandler_def equal_range_def sample_handle_def uuid_eq_iff at_node_def)
  from registrar_step.unregister_wait [OF this, of E] have "registrar_step E ?w2 ?w3"
    by (simp add: sample_handle_def)
  with sample_held show ?thesis by (rule registrar_reachable.more)
qed

text \<open>
  C36: under the discipline that \<open>registrar_step\<close> states and the code does not check (a handler
  object is registered once at a time, nobody registers for a service that is being removed, a
  handler that is being removed is not removed again, only what was acquired is released, fewer
  than \<open>2 ^ 32\<close> acquisitions), a handler that is acquired stays in the registrar until its release:
  however the methods of different threads interleave, the handle of every outstanding
  acquisition is in the map, its use counter is the number of outstanding acquisitions, and the
  first part of \<open>releaseHandler\<close>, up to the early unlock, touches nothing that was erased (the
  part behind the unlock can: C39).
\<close>
theorem acquired_handlers_stay:
  assumes "registrar_reachable E w" "p \<in># w_held w"
  shows "\<exists>h. node (w_reg w) p = Some h \<and> unat (h_inUseCounter h) = count (w_held w) p
     \<and> release_counters p (w_reg w) \<noteq> None"
proof -
  have i: "registrar_inv w" using assms(1) by (rule registrar_reachable_inv)
  then obtain h where "h \<in> set (m_handlerMap (w_reg w))" "h_node h = p"
    using assms(2) by (auto simp: registrar_inv_def count_inv_def)
  then show ?thesis
    using i release_inv(1) [OF i assms(2)] node_Some [of "w_reg w" p h]
    by (auto simp: registrar_inv_def count_inv_def)
qed

theorem acquired_handlers_stay_witness:
  "\<exists>w h. registrar_reachable sample_env w \<and> node (w_reg w) 1 = Some h \<and> unat (h_inUseCounter h) = 1"
  using acquired_handlers_stay [OF sample_held [of sample_env kNullUuid], of 1] sample_held [of sample_env kNullUuid]
  by fastforce

text \<open>
  C37: under the same discipline no wake-up is lost and none comes early: a thread that waits in
  \<open>unregisterHandler\<close> may go on exactly when no acquisition of that handler is outstanding, and one
  that waits in \<open>unregisterService\<close> exactly when none of any handler of the service is. The
  discipline is needed: without it a wake-up is lost (C40).
\<close>
theorem removal_waits_for_last_user:
  assumes "registrar_reachable E w"
  shows "(\<forall>(it, uid, x) \<in> w_handler_calls w.
        latch_open (w_reg w) it \<longleftrightarrow> (\<forall>p \<in># w_held w. \<forall>h. node (w_reg w) p = Some h \<longrightarrow> h_handler h \<noteq> x))
    \<and> (\<forall>(it, svc) \<in> w_service_calls w.
        service_latch_open (w_reg w) it \<longleftrightarrow> (\<forall>p \<in># w_held w. \<forall>h. node (w_reg w) p = Some h \<longrightarrow> h_pService h \<noteq> svc))"
proof -
  let ?r = "w_reg w" and ?H = "w_held w"
  have i: "registrar_inv w" using assms(1) by (rule registrar_reachable_inv)
  then have m: "map_inv ?r" and u: "handler_waits_inv ?r ?H" and s: "service_waits_inv ?r ?H"
    and c: "calls_inv ?r (w_handler_calls w) (w_service_calls w)" by (simp_all add: registrar_inv_def)
  have "latch_open ?r it \<longleftrightarrow> (\<forall>p \<in># ?H. \<forall>h. node ?r p = Some h \<longrightarrow> h_handler h \<noteq> x)"
    if a: "(it, uid, x) \<in> w_handler_calls w" for it uid x
  proof -
    obtain e h where e: "e \<in> set (m_unregisterHandlerList ?r)" "uh_it e = it" "h \<in> set (m_handlerMap ?r)"
      "h_node h = uh_handle e" "h_handler h = x" using c a by (fastforce simp: calls_inv_def)
    have "latch_open ?r it \<longleftrightarrow> uh_done e = 0"
      using u e(1,2) by (auto simp: latch_open_def handler_waits_inv_def distinct_map inj_on_def)
    also have "\<dots> \<longleftrightarrow> h_node h \<notin># ?H" using u e(1,4) by (auto simp: handler_waits_inv_def)
    also have "\<dots> \<longleftrightarrow> (\<forall>p \<in># ?H. \<forall>h. node ?r p = Some h \<longrightarrow> h_handler h \<noteq> x)"
      using node_inj(2) [OF m _ e(3)] e(3,5) by (auto simp: node_Some [OF m])
    finally show ?thesis .
  qed
  moreover have "service_latch_open ?r it \<longleftrightarrow> (\<forall>p \<in># ?H. \<forall>h. node ?r p = Some h \<longrightarrow> h_pService h \<noteq> svc)"
    if a: "(it, svc) \<in> w_service_calls w" for it svc
  proof -
    obtain e where e: "e \<in> set (m_unregisterServiceList ?r)" "us_it e = it" "us_pService e = svc"
      using c a by (fastforce simp: calls_inv_def)
    have "service_latch_open ?r it \<longleftrightarrow> us_done e = 0"
      using s e(1,2) by (auto simp: service_latch_open_def service_waits_inv_def distinct_map inj_on_def)
    also have "\<dots> \<longleftrightarrow> service_users ?r ?H svc = 0" using s e(1,3) by (auto simp: service_waits_inv_def)
    also have "\<dots> \<longleftrightarrow> (\<forall>p \<in># ?H. \<forall>h. node ?r p = Some h \<longrightarrow> h_pService h \<noteq> svc)"
      using service_nodes_mem [OF m]
      by (auto simp: service_users_def node_Some [OF m] service_nodes_def)
    finally show ?thesis .
  qed
  ultimately show ?thesis by blast
qed

theorem removal_waits_for_last_user_witness:
  "\<exists>w. registrar_reachable sample_env w \<and> (2, kNullUuid, 101) \<in> w_handler_calls w \<and> \<not> latch_open (w_reg w) 2"
proof -
  let ?w = "\<lparr>w_reg = \<lparr>m_handlerMap = [sample_handle 1 kNullUuid 7 1 HandlerRemove],
     m_unregisterServiceList = [], m_unregisterHandlerList = [\<lparr>uh_it = 2, uh_handle = 1, uh_done = 1\<rparr>], next_address = 3\<rparr>,
     w_held = {#1#}, w_releasing = {#}, w_handler_calls = {(2, kNullUuid, 101)}, w_service_calls = {}\<rparr>"
  have "\<not> latch_open (w_reg ?w) 2"
    using removal_waits_for_last_user [OF sample_waiting [of sample_env kNullUuid]]
    by (simp add: node_def sample_handle_def)
  then show ?thesis using sample_waiting [of sample_env kNullUuid] by (intro exI [of _ ?w]) simp
qed

text \<open>
  C38: \<open>aquireHandlers\<close> takes all or nothing: it fills the vector with every active handler of the
  id and has counted one use of each; without an active handler it says whether the id has
  handlers that are being removed or none at all. It fails only with \<open>ErrorNoMemory\<close>, when \<open>malloc\<close>
  refused the block for one more handle, and then the vector is empty and all counters are as
  they were. The id has fewer than \<open>2 ^ 32\<close> handlers.
\<close>
theorem aquireHandlers_all_or_nothing:
  assumes "vec_rep v xs" "length (equal_range r uid) < 2 ^ 32"
    and "ps = map h_node (filter (\<lambda>h. h_state h = Active) (equal_range r uid))"
  shows "(\<exists>v' k. aquireHandlers E uid v r = (ErrorNoMemory, v', r) \<and> vec_rep v' []
        \<and> k < length ps \<and> \<not> malloc_ok E (of_nat (Suc k) * 8))
    \<or> (\<exists>v'. aquireHandlers E uid v r =
         (if ps \<noteq> [] then NoError else if equal_range r uid \<noteq> [] then ErrorNotAvailible else ErrorNoSuchHandler,
          v', fold fetch_add ps r) \<and> vec_rep v' ps)"
  using aquireHandlers_cases [OF assms(1,2), of E] unfolding assms(3) active_nodes_def by metis

theorem aquireHandlers_all_or_nothing_witness:
  "\<exists>v'. aquireHandlers sample_env kNullUuid (empty_vec GenericManager)
      (empty_registrar\<lparr>m_handlerMap := [sample_handle 1 kNullUuid 7 0 HandlerRemove, sample_handle 2 kNullUuid 8 4 Active]\<rparr>)
     = (NoError, v', empty_registrar\<lparr>m_handlerMap := [sample_handle 1 kNullUuid 7 0 HandlerRemove, sample_handle 2 kNullUuid 8 5 Active]\<rparr>)
     \<and> vec_rep v' [2]"
  using aquireHandlers_all_or_nothing [OF vec_rep_empty [of GenericManager],
      of "empty_registrar\<lparr>m_handlerMap := [sample_handle 1 kNullUuid 7 0 HandlerRemove, sample_handle 2 kNullUuid 8 4 Active]\<rparr>"
        kNullUuid "[2]" sample_env]
  by (simp add: equal_range_def uuid_eq_iff sample_handle_def fetch_add_def at_node_def)

text \<open>The steps that lead to the use of an erased handle, from two registered handlers on.\<close>

abbreviation race_world where
  "race_world hs us uh n H rel hc sc \<equiv>
     \<lparr>w_reg = \<lparr>m_handlerMap = hs, m_unregisterServiceList = us, m_unregisterHandlerList = uh, next_address = n\<rparr>,
      w_held = H, w_releasing = rel, w_handler_calls = hc, w_service_calls = sc\<rparr>"

lemmas race_simps = equal_range_def uuid_eq_iff sample_handle_def at_node_def

lemma race_acquired:
  assumes ab: "a \<noteq> b"
  shows "registrar_reachable E (race_world [sample_handle 1 a 7 1 Active, sample_handle 2 b 0 1 Active] [] [] 3
      {#2, 1#} {#} {} {})"
proof -
  let ?w = "\<lambda>hs n H. race_world hs [] [] n H {#} {} {}"
  let ?a = "\<lambda>c. sample_handle 1 a 7 c Active" and ?b = "\<lambda>c. sample_handle 2 b 0 c Active"
  have 1: "registrar_reachable E (?w [?a 1] 2 {#1#})" by (rule sample_held)
  have "registrar_step E (?w [?a 1] 2 {#1#}) (?w [?a 1, ?b 0] 3 {#1#})"
    using registrar_step.register [where w = "?w [?a 1] 2 {#1#}" and uid = b and mc = False and svc = 0 and x = 102 and E = E]
    ab by (simp add: registerHandler_def race_simps)
  with 1 have 2: "registrar_reachable E (?w [?a 1, ?b 0] 3 {#1#})" by (rule registrar_reachable.more)
  have "registrar_step E (?w [?a 1, ?b 0] 3 {#1#}) (?w [?a 1, ?b 1] 3 {#2, 1#})"
    using registrar_step.aquire [where w = "?w [?a 1, ?b 0] 3 {#1#}" and uid = b and E = E] ab
    by (simp add: aquireHandler_def fetch_add_def race_simps)
  with 2 show ?thesis by (rule registrar_reachable.more)
qed

lemma race_waiting:
  assumes ab: "a \<noteq> b"
  shows "registrar_reachable E (race_world [sample_handle 1 a 7 1 ServiceRemove, sample_handle 2 b 0 1 HandlerRemove]
      [\<lparr>us_it = 3, us_pService = 7, us_inUseCounter = 1, us_done = 1\<rparr>] [\<lparr>uh_it = 4, uh_handle = 2, uh_done = 1\<rparr>] 5
      {#2, 1#} {#} {(4, b, 102)} {(3, 7)})"
proof -
  let ?w1 = "race_world [sample_handle 1 a 7 1 Active, sample_handle 2 b 0 1 Active] [] [] 3 {#2, 1#} {#} {} {}"
  let ?w2 = "race_world [sample_handle 1 a 7 1 ServiceRemove, sample_handle 2 b 0 1 Active]
      [\<lparr>us_it = 3, us_pService = 7, us_inUseCounter = 1, us_done = 1\<rparr>] [] 4 {#2, 1#} {#} {} {(3, 7)}"
  have "registrar_step E ?w1 ?w2"
    using registrar_step.service_wait [where w = ?w1 and svc = 7 and E = E]
    by (simp add: unregisterService_def race_simps Let_def)
  with race_acquired [OF ab] have 2: "registrar_reachable E ?w2" by (rule registrar_reachable.more)
  have "registrar_step E ?w2 (race_world [sample_handle 1 a 7 1 ServiceRemove, sample_handle 2 b 0 1 HandlerRemove]
      [\<lparr>us_it = 3, us_pService = 7, us_inUseCounter = 1, us_done = 1\<rparr>] [\<lparr>uh_it = 4, uh_handle = 2, uh_done = 1\<rparr>] 5
      {#2, 1#} {#} {(4, b, 102)} {(3, 7)})"
    using registrar_step.unregister_wait [where w = ?w2 and uid = b and x = 102 and E = E] ab
    by (simp add: unregisterHandler_def race_simps)
  with 2 show ?thesis by (rule registrar_reachable.more)
qed

lemma race_erased:
  assumes ab: "a \<noteq> b"
  shows "registrar_reachable E (race_world [sample_handle 2 b 0 1 HandlerRemove] []
      [\<lparr>uh_it = 4, uh_handle = 2, uh_done = 1\<rparr>] 5 {#2#} {#(1, 1)#} {(4, b, 102)} {})"
proof -
  let ?uh = "[\<lparr>uh_it = 4, uh_handle = 2, uh_done = 1\<rparr>]"
  let ?w1 = "race_world [sample_handle 1 a 7 1 ServiceRemove, sample_handle 2 b 0 1 HandlerRemove]
      [\<lparr>us_it = 3, us_pService = 7, us_inUseCounter = 1, us_done = 1\<rparr>] ?uh 5 {#2, 1#} {#} {(4, b, 102)} {(3, 7)}"
  let ?w2 = "race_world [sample_handle 1 a 7 0 ServiceRemove, sample_handle 2 b 0 1 HandlerRemove]
      [\<lparr>us_it = 3, us_pService = 7, us_inUseCounter = 0, us_done = 0\<rparr>] ?uh 5 {#2#} {#(1, 1)#} {(4, b, 102)} {(3, 7)}"
  have "registrar_step E ?w1 ?w2"
    using registrar_step.release_unlocked [where w = ?w1 and p = 1 and E = E]
    by (simp add: release_counters_def node_def race_simps Let_def fetch_sub_def fetch_sub_service_def count_down_service_def)
  with race_waiting [OF ab] have 2: "registrar_reachable E ?w2" by (rule registrar_reachable.more)
  have "registrar_step E ?w2 (race_world [sample_handle 2 b 0 1 HandlerRemove] [] ?uh 5 {#2#} {#(1, 1)#} {(4, b, 102)} {})"
    using registrar_step.service_woken [where w = ?w2 and it = 3 and svc = 7 and E = E]
    by (simp add: service_latch_open_def unregisterService_woken_def erase_service_def race_simps)
  with 2 show ?thesis by (rule registrar_reachable.more)
qed

text \<open>
  C39: \<open>releaseHandler\<close> can use an erased handle. When it has woken \<open>unregisterService\<close> it goes on,
  without the mutex, to the code for single handlers and reads the handle there, if any call
  of \<open>unregisterHandler\<close> waits; \<open>unregisterService\<close> may have erased the handle by then. The
  steps that lead there keep the discipline.
\<close>
theorem release_uses_erased_handle:
  "\<exists>w p prev. registrar_reachable E w \<and> (p, prev) \<in># w_releasing w \<and> release_waiting p prev (w_reg w) = None"
proof -
  have "Uuid 0 0 \<noteq> Uuid 0 1" by simp
  from race_erased [OF this, of E] show ?thesis
    by (intro exI conjI) (auto simp: release_waiting_def node_def sample_handle_def)
qed

section \<open>Without the discipline\<close>

text \<open>
  The same steps with no condition but the one under which the code gets there: any method may
  be called at any time, with any argument, by any thread.
\<close>

inductive free_step :: "env \<Rightarrow> registrar_world \<Rightarrow> registrar_world \<Rightarrow> bool" for E where
  register: "free_step E w (w\<lparr>w_reg := r'\<rparr>)" if "registerHandler uid mc svc x (w_reg w) = (st, r')"
| unregister: "free_step E w (w\<lparr>w_reg := r'\<rparr>)" if "unregisterHandler uid x (w_reg w) = (None, r')"
| unregister_wait: "free_step E w (w\<lparr>w_reg := r', w_handler_calls := insert (it, uid, x) (w_handler_calls w)\<rparr>)"
    if "unregisterHandler uid x (w_reg w) = (Some it, r')"
| unregister_woken: "free_step E w
      (w\<lparr>w_reg := unregisterHandler_woken it uid x (w_reg w), w_handler_calls := w_handler_calls w - {(it, uid, x)}\<rparr>)"
    if "(it, uid, x) \<in> w_handler_calls w" "latch_open (w_reg w) it"
| service: "free_step E w (w\<lparr>w_reg := r'\<rparr>)" if "unregisterService svc (w_reg w) = (None, r')"
| service_wait: "free_step E w (w\<lparr>w_reg := r', w_service_calls := insert (it, svc) (w_service_calls w)\<rparr>)"
    if "unregisterService svc (w_reg w) = (Some it, r')"
| service_woken: "free_step E w
      (w\<lparr>w_reg := unregisterService_woken it svc (w_reg w), w_service_calls := w_service_calls w - {(it, svc)}\<rparr>)"
    if "(it, svc) \<in> w_service_calls w" "service_latch_open (w_reg w) it"
| aquire: "free_step E w (w\<lparr>w_reg := r', w_held := (if statusSuccess st then add_mset q (w_held w) else w_held w)\<rparr>)"
    if "aquireHandler uid p (w_reg w) = (st, q, r')"
| aquire_all: "free_step E w (w\<lparr>w_reg := r', w_held := w_held w + mset (vec_objects v')\<rparr>)"
    if "aquireHandlers E uid v (w_reg w) = (st, v', r')"
| release: "free_step E w (w\<lparr>w_reg := r'', w_held := w_held w - {#p#}\<rparr>)"
    if "release_counters p (w_reg w) = Some (st, prev, False, r')"
      "(if st = Active then Some r' else release_waiting p prev r') = Some r''"
| release_unlocked: "free_step E w
      (w\<lparr>w_reg := r', w_held := w_held w - {#p#}, w_releasing := add_mset (p, prev) (w_releasing w)\<rparr>)"
    if "release_counters p (w_reg w) = Some (st, prev, True, r')"
| release_rest: "free_step E w (w\<lparr>w_reg := r', w_releasing := w_releasing w - {#(p, prev)#}\<rparr>)"
    if "(p, prev) \<in># w_releasing w" "release_waiting p prev (w_reg w) = Some r'"

lemma registrar_step_free: "registrar_step E w w' \<Longrightarrow> free_step E w w'"
  by (induction rule: registrar_step.induct) (blast intro: free_step.intros)+

lemma registrar_reachable_free: "registrar_reachable E w \<Longrightarrow> (free_step E)\<^sup>*\<^sup>* initial_world w"
  by (induction rule: registrar_reachable.induct) (auto intro: rtranclp.rtrancl_into_rtrancl registrar_step_free)

text \<open>A waiting call of \<open>unregisterService\<close> that no release can find any more.\<close>

definition service_stuck :: "nat \<Rightarrow> nat \<Rightarrow> registrar_world \<Rightarrow> bool" where
  "service_stuck it svc w \<longleftrightarrow> (it, svc) \<in> w_service_calls w \<and> service_nodes (w_reg w) svc = {}
     \<and> (\<forall>e \<in> set (m_unregisterServiceList (w_reg w)). us_it e < next_address (w_reg w))
     \<and> (\<exists>e \<in> set (m_unregisterServiceList (w_reg w)). us_it e = it)
     \<and> (\<forall>e \<in> set (m_unregisterServiceList (w_reg w)). us_it e = it \<longrightarrow> us_pService e = svc \<and> us_done e = 1)"

lemma service_nodes_none: "service_nodes r svc = {} \<longleftrightarrow> (\<forall>h \<in> set (m_handlerMap r). h_pService h \<noteq> svc)"
  by (auto simp: service_nodes_def)

lemma service_stuck_closed: "service_stuck it svc w \<Longrightarrow> \<not> service_latch_open (w_reg w) it"
  by (auto simp: service_stuck_def service_latch_open_def)

text \<open>It depends on the list of the waiting calls, where its entry stays, and on the address counter.\<close>

lemma service_stuck_list:
  assumes "service_stuck it svc w" "(it, svc) \<in> w_service_calls w'" "service_nodes (w_reg w') svc = {}"
    and "next_address (w_reg w) \<le> next_address (w_reg w')" "it \<in> us_it ` set (m_unregisterServiceList (w_reg w'))"
    and "\<And>e'. e' \<in> set (m_unregisterServiceList (w_reg w')) \<Longrightarrow>
      (\<exists>e \<in> set (m_unregisterServiceList (w_reg w)). us_it e' = us_it e
         \<and> (us_it e = it \<longrightarrow> us_pService e' = us_pService e \<and> us_done e' = us_done e))
      \<or> next_address (w_reg w) \<le> us_it e' \<and> us_it e' < next_address (w_reg w')"
  shows "service_stuck it svc w'"
proof -
  have it: "it < next_address (w_reg w)" using assms(1) by (auto simp: service_stuck_def)
  have "us_it e' < next_address (w_reg w') \<and> (us_it e' = it \<longrightarrow> us_pService e' = svc \<and> us_done e' = 1)"
    if "e' \<in> set (m_unregisterServiceList (w_reg w'))" for e'
    using assms(6) [OF that] assms(1,4) it by (force simp: service_stuck_def)
  then show ?thesis using assms(2,3,5) by (auto simp: service_stuck_def)
qed

lemma service_stuck_keep:
  assumes "service_stuck it svc w" "(it, svc) \<in> w_service_calls w'" "service_nodes (w_reg w') svc = {}"
    and "m_unregisterServiceList (w_reg w') = m_unregisterServiceList (w_reg w)" "next_address (w_reg w) \<le> next_address (w_reg w')"
  shows "service_stuck it svc w'"
  using assms(2-) by (intro service_stuck_list [OF assms(1)]) (use assms(1) in \<open>auto simp: service_stuck_def\<close>)

definition same_services :: "registrar \<Rightarrow> registrar \<Rightarrow> bool" where
  "same_services r r' \<longleftrightarrow> m_unregisterServiceList r' = m_unregisterServiceList r \<and> next_address r \<le> next_address r'"

lemma same_services_fetch [simp]:
  "same_services r (fold fetch_sub ps r') = same_services r r'" "same_services r (fetch_add p r') = same_services r r'"
  "same_services r (fetch_sub p r') = same_services r r'"
proof -
  show s: "same_services r (fetch_sub p r') = same_services r r'" for p r' by (simp add: fetch_defs same_services_def)
  show "same_services r (fold fetch_sub ps r') = same_services r r'" by (induction ps arbitrary: r') (simp_all add: s)
qed (simp add: fetch_defs same_services_def)

lemma same_services_refl [simp]: "same_services r r"
  by (simp add: same_services_def)

lemma aquire_loop_services:
  "same_services r0 r \<Longrightarrow> case aquire_loop E hs v na r of Inl (st, v', r') \<Rightarrow> same_services r0 r' | Inr (v', na', r') \<Rightarrow> same_services r0 r'"
proof (induction E hs v na r rule: aquire_loop.induct)
  case (2 E h hs v na r)
  then show ?case by (cases "vec_pushBack E handle_ptr v (h_node h)") simp
qed simp

lemma same_services_steps:
  "registerHandler uid mc sv x r = (st, r1) \<Longrightarrow> same_services r r1"
  "unregisterHandler uid x r = (w, r2) \<Longrightarrow> same_services r r2"
  "same_services r (unregisterHandler_woken it uid x r)"
  "unregisterService sv r = (None, r3) \<Longrightarrow> same_services r r3"
  "aquireHandler uid p r = (st, q, r4) \<Longrightarrow> same_services r r4"
  "aquireHandlers E uid v r = (st, v', r5) \<Longrightarrow> same_services r r5"
  "release_waiting p prev r = Some r6 \<Longrightarrow> same_services r r6"
proof -
  show "registerHandler uid mc sv x r = (st, r1) \<Longrightarrow> same_services r r1"
    by (auto simp: registerHandler_def same_services_def split: if_splits)
  show "unregisterHandler uid x r = (w, r2) \<Longrightarrow> same_services r r2"
    by (auto simp: unregisterHandler_def same_services_def erase_node_def split: if_splits option.splits)
  show "same_services r (unregisterHandler_woken it uid x r)"
    by (auto simp: unregisterHandler_woken_def same_services_def erase_node_def Let_def split: option.splits)
  show "unregisterService sv r = (None, r3) \<Longrightarrow> same_services r r3"
    by (auto simp: unregisterService_def same_services_def erase_service_def Let_def split: if_splits)
  show "aquireHandler uid p r = (st, q, r4) \<Longrightarrow> same_services r r4"
    by (auto simp: aquireHandler_def split: if_splits list.splits)
  show "aquireHandlers E uid v r = (st, v', r5) \<Longrightarrow> same_services r r5"
    using aquire_loop_services [of r r E "equal_range r uid" "vec_clear handle_ptr v" False]
    by (auto simp: aquireHandlers_def split: sum.splits prod.splits if_splits)
  have "notify_handler x es r = Some r6 \<Longrightarrow> same_services r r6" for x es
    by (induction es) (auto simp: count_down_handler_def same_services_def split: option.splits if_splits)
  then show "release_waiting p prev r = Some r6 \<Longrightarrow> same_services r r6"
    by (auto simp: release_waiting_def split: if_splits option.splits)
qed

text \<open>A release counts down an entry of the service of its handle only.\<close>

lemma release_counters_services:
  assumes "release_counters p r = Some (st, prev, woken, r')"
  shows "next_address r' = next_address r
    \<and> (\<exists>f. m_unregisterServiceList r' = map f (m_unregisterServiceList r) \<and> (\<forall>e. us_it (f e) = us_it e \<and> us_pService (f e) = us_pService e)
        \<and> (\<forall>it. service_nodes r svc = {} \<and> (\<forall>e \<in> set (m_unregisterServiceList r). us_it e = it \<longrightarrow> us_pService e = svc)
             \<longrightarrow> (\<forall>e. us_it e = it \<longrightarrow> us_done (f e) = us_done e)))"
proof -
  obtain h where h: "node r p = Some h" "h \<in> set (m_handlerMap r)"
    using assms by (auto simp: release_counters_def node_def find_Some_iff split: option.splits) (metis nth_mem)
  have fs: "m_unregisterServiceList (fetch_sub p r) = m_unregisterServiceList r" "next_address (fetch_sub p r) = next_address r"
    by (simp_all add: fetch_defs)
  show ?thesis
  proof (cases "find (\<lambda>e. us_pService e = h_pService h) (m_unregisterServiceList r)")
    case None
    then show ?thesis using assms h(1) fs
      by (intro conjI exI [of _ id]) (auto simp: release_counters_def Let_def split: if_splits)
  next
    case (Some e)
    then have e: "e \<in> set (m_unregisterServiceList r)" "us_pService e = h_pService h"
      by (auto simp: find_Some_iff)
    have other: "us_it e \<noteq> it" if "service_nodes r svc = {}" "\<forall>e \<in> set (m_unregisterServiceList r). us_it e = it \<longrightarrow> us_pService e = svc" for it
      using that e h(2) by (auto simp: service_nodes_none)
    let ?g = "\<lambda>x. if us_it x = us_it e then x\<lparr>us_inUseCounter := us_inUseCounter x - 1\<rparr> else x"
    let ?d = "\<lambda>x. if us_it x = us_it e then x\<lparr>us_done := us_done x - 1\<rparr> else x"
    consider "r' = fetch_sub p r" | "r' = fetch_sub_service (us_it e) (fetch_sub p r)"
      | "r' = count_down_service (us_it e) (fetch_sub_service (us_it e) (fetch_sub p r))"
      using assms h(1) Some fs by (auto simp: release_counters_def Let_def split: if_splits)
    then show ?thesis
    proof cases
      case 1
      then show ?thesis using fs by (intro conjI exI [of _ id]) simp_all
    next
      case 2
      then show ?thesis using fs by (intro conjI exI [of _ ?g]) (auto simp: fetch_sub_service_def)
    next
      case 3
      then show ?thesis using fs other
        by (intro conjI exI [of _ "?d \<circ> ?g"]) (auto simp: fetch_sub_service_def count_down_service_def)
    qed
  qed
qed

lemma service_stuck_same:
  "service_stuck it svc w \<Longrightarrow> (it, svc) \<in> w_service_calls w' \<Longrightarrow> service_nodes (w_reg w') svc = {} \<Longrightarrow>
   same_services (w_reg w) (w_reg w') \<Longrightarrow> service_stuck it svc w'"
  unfolding same_services_def by (rule service_stuck_keep) auto

lemma service_stuck_released:
  assumes s: "service_stuck it svc w" and r: "release_counters p (w_reg w) = Some (st, prev, woken, r')"
    and w': "same_services r' (w_reg w')" "(it, svc) \<in> w_service_calls w'" "service_nodes (w_reg w') svc = {}"
  shows "service_stuck it svc w'"
proof -
  have c: "service_nodes (w_reg w) svc = {} \<and> (\<forall>e \<in> set (m_unregisterServiceList (w_reg w)). us_it e = it \<longrightarrow> us_pService e = svc)"
    using s by (auto simp: service_stuck_def)
  obtain f where f: "m_unregisterServiceList r' = map f (m_unregisterServiceList (w_reg w))"
    "\<And>e. us_it (f e) = us_it e \<and> us_pService (f e) = us_pService e" "\<And>e. us_it e = it \<Longrightarrow> us_done (f e) = us_done e"
    and n: "next_address r' = next_address (w_reg w)"
    using release_counters_services [OF r, of svc] c by blast
  have "it \<in> us_it ` set (m_unregisterServiceList (w_reg w))" using s by (auto simp: service_stuck_def)
  then show ?thesis
    using w' f n by (intro service_stuck_list [OF s]) (auto simp: same_services_def image_image)
qed

lemma service_stuck_step:
  assumes "free_step E w w'" "service_stuck it svc w" "service_nodes (w_reg w') svc = {}"
  shows "service_stuck it svc w'"
proof -
  have c: "(it, svc) \<in> w_service_calls w" "service_nodes (w_reg w) svc = {}" using assms(2) by (simp_all add: service_stuck_def)
  note same = service_stuck_same [OF assms(2) _ assms(3)]
  note released = service_stuck_released [OF assms(2) _ _ _ assms(3)]
  from assms(1) show ?thesis
  proof cases
    case (register uid mc svc x st r')
    then show ?thesis using c same_services_steps(1) by (intro same) auto
  next
    case (unregister uid x r')
    then show ?thesis using c same_services_steps(2) by (intro same) auto
  next
    case (unregister_wait uid x it r')
    then show ?thesis using c same_services_steps(2) by (intro same) auto
  next
    case (unregister_woken it uid x)
    then show ?thesis using c same_services_steps(3) by (intro same) auto
  next
    case (service svc r')
    then show ?thesis using c same_services_steps(4) by (intro same) auto
  next
    case (service_wait svc' it' r')
    let ?new = "\<lparr>us_it = next_address (w_reg w), us_pService = svc',
        us_inUseCounter = sum_list (map h_inUseCounter (filter (\<lambda>h. h_pService h = svc') (m_handlerMap (w_reg w)))), us_done = 1\<rparr>"
    have "m_unregisterServiceList r' = ?new # m_unregisterServiceList (w_reg w)" "next_address r' = next_address (w_reg w) + 1"
      using service_wait(2) by (auto simp: unregisterService_def Let_def split: if_splits)
    moreover have "it \<in> us_it ` set (m_unregisterServiceList (w_reg w))" using assms(2) by (auto simp: service_stuck_def)
    ultimately show ?thesis
      using service_wait(1) c by (intro service_stuck_list [OF assms(2) _ assms(3)]) auto
  next
    case (service_woken it' svc')
    have ne: "it' \<noteq> it" using service_woken(3) service_stuck_closed [OF assms(2)] by auto
    have l: "m_unregisterServiceList (w_reg w') = filter (\<lambda>e. us_it e \<noteq> it') (m_unregisterServiceList (w_reg w))"
      "next_address (w_reg w') = next_address (w_reg w)" "(it, svc) \<in> w_service_calls w'"
      using service_woken(1) c(1) ne by (simp_all add: unregisterService_woken_def erase_service_def)
    have "it \<in> us_it ` set (m_unregisterServiceList (w_reg w'))"
      using ne assms(2) l(1) by (force simp: service_stuck_def)
    then show ?thesis
      using l by (intro service_stuck_list [OF assms(2) l(3) assms(3)]) auto
  next
    case (aquire uid p st q r')
    then show ?thesis using c same_services_steps(5) by (intro same) auto
  next
    case (aquire_all uid v st v' r')
    then show ?thesis using c same_services_steps(6) by (intro same) auto
  next
    case (release p st prev r' r'')
    have "same_services r' r''" using release(3) same_services_steps(7) [of p prev r' r''] by (auto split: if_splits)
    then show ?thesis using released [OF release(2)] release(1) c by simp
  next
    case (release_unlocked p st prev r')
    then show ?thesis using released [OF release_unlocked(2)] c by simp
  next
    case (release_rest p prev r')
    then show ?thesis using c same_services_steps(7) by (intro same) auto
  qed
qed

lemma service_stuck_for_ever:
  assumes "(\<lambda>w w'. free_step E w w' \<and> service_nodes (w_reg w') svc = {})\<^sup>*\<^sup>* w w'" "service_stuck it svc w"
  shows "service_stuck it svc w'"
  using assms by (induction rule: rtranclp_induct) (auto intro: service_stuck_step)

lemma sample_stuck:
  defines "W \<equiv> \<lambda>h us uh n H hc. race_world h us uh n H {#} hc {(2, 7)}"
  shows "(free_step E)\<^sup>*\<^sup>* initial_world (W [] [\<lparr>us_it = 2, us_pService = 7, us_inUseCounter = 1, us_done = 1\<rparr>] [] 4 {#} {})"
proof -
  let ?us = "[\<lparr>us_it = 2, us_pService = 7, us_inUseCounter = 1, us_done = 1\<rparr>]"
  let ?uh = "\<lambda>d. [\<lparr>uh_it = 3, uh_handle = 1, uh_done = d\<rparr>]"
  let ?h = "\<lambda>c s. [sample_handle 1 kNullUuid 7 c s]"
  have 0: "(free_step E)\<^sup>*\<^sup>* initial_world (race_world (?h 1 Active) [] [] 2 {#1#} {#} {} {})"
    by (rule registrar_reachable_free [OF sample_held])
  have "free_step E (race_world (?h 1 Active) [] [] 2 {#1#} {#} {} {}) (W (?h 1 ServiceRemove) ?us [] 3 {#1#} {})"
    using free_step.service_wait [where w = "race_world (?h 1 Active) [] [] 2 {#1#} {#} {} {}" and svc = 7 and E = E]
    by (simp add: unregisterService_def race_simps Let_def W_def)
  with 0 have 1: "(free_step E)\<^sup>*\<^sup>* initial_world (W (?h 1 ServiceRemove) ?us [] 3 {#1#} {})"
    by (rule rtranclp.rtrancl_into_rtrancl)
  have "free_step E (W (?h 1 ServiceRemove) ?us [] 3 {#1#} {}) (W (?h 1 HandlerRemove) ?us (?uh 1) 4 {#1#} {(3, kNullUuid, 101)})"
    using free_step.unregister_wait [where w = "W (?h 1 ServiceRemove) ?us [] 3 {#1#} {}" and uid = kNullUuid and x = 101 and E = E]
    by (simp add: unregisterHandler_def race_simps W_def)
  with 1 have 2: "(free_step E)\<^sup>*\<^sup>* initial_world (W (?h 1 HandlerRemove) ?us (?uh 1) 4 {#1#} {(3, kNullUuid, 101)})"
    by (rule rtranclp.rtrancl_into_rtrancl)
  have "free_step E (W (?h 1 HandlerRemove) ?us (?uh 1) 4 {#1#} {(3, kNullUuid, 101)}) (W (?h 0 HandlerRemove) ?us (?uh 0) 4 {#} {(3, kNullUuid, 101)})"
    using free_step.release [where w = "W (?h 1 HandlerRemove) ?us (?uh 1) 4 {#1#} {(3, kNullUuid, 101)}" and p = 1 and E = E]
    by (simp add: release_counters_def release_waiting_def node_def race_simps Let_def fetch_sub_def count_down_handler_def W_def)
  with 2 have 3: "(free_step E)\<^sup>*\<^sup>* initial_world (W (?h 0 HandlerRemove) ?us (?uh 0) 4 {#} {(3, kNullUuid, 101)})"
    by (rule rtranclp.rtrancl_into_rtrancl)
  have "free_step E (W (?h 0 HandlerRemove) ?us (?uh 0) 4 {#} {(3, kNullUuid, 101)}) (W [] ?us [] 4 {#} {})"
    using free_step.unregister_woken [where w = "W (?h 0 HandlerRemove) ?us (?uh 0) 4 {#} {(3, kNullUuid, 101)}"
        and it = 3 and uid = kNullUuid and x = 101 and E = E]
    by (simp add: latch_open_def unregisterHandler_woken_def erase_node_def race_simps W_def)
  with 3 show ?thesis by (rule rtranclp.rtrancl_into_rtrancl)
qed



end
