(* ===== verification/ServerHandler.thy ===== *)
theory ServerHandler
  imports Messages Registrar
begin

text \<open>
  \<open>csp_messaging/IServerDataHandler.h\<close> with its traits: the part of a request that is common
  to all data handlers. A concrete handler is a record of its traits, its default
  constructed input and output, the serialization of the two structs and the two virtual
  functions that its class overrides; all of them return (what happens when an exception leaves a
  handler is in \<open>Server\<close>). The client id is only passed on.
\<close>

section \<open>Traits\<close>

definition MinimumInterfaceVersion :: "struct_info \<Rightarrow> struct_info \<Rightarrow> u32" where
  "MinimumInterfaceVersion inputType outputType =
     (if getOriginPrivateVersion inputType < getOriginPrivateVersion outputType
      then getOriginPrivateVersion inputType else getOriginPrivateVersion outputType)"

type_synonym client_id = "nat pointer_keeper"

record ('i, 'o) data_handler =
  dh_InputType :: struct_info
  dh_OutputType :: struct_info
  dh_outputIsDummy :: bool
  dh_kForTempUseHeap :: bool
  dh_kMulticast :: bool
  dh_kMinimumInterfaceVersion :: u32
  dh_inputElem :: "'i elem"
  dh_outputElem :: "'o elem"
  dh_newInput :: 'i
  dh_newOutput :: 'o
  dh_deserialize :: "ddata \<Rightarrow> 'i \<Rightarrow> status \<times> ddata \<times> 'i"
  dh_serialize :: "'o \<Rightarrow> sdata \<Rightarrow> status \<times> sdata"
  dh_checkPoliciesCompliance :: "ddata \<Rightarrow> client_id \<Rightarrow> status"
  dh_handleData :: "'i \<Rightarrow> nat pointer_keeper vec option \<Rightarrow> client_id \<Rightarrow> 'o
     \<Rightarrow> status \<times> nat pointer_keeper vec option \<times> 'o"

definition default_checkPoliciesCompliance :: "ddata \<Rightarrow> client_id \<Rightarrow> status" where
  "default_checkPoliciesCompliance ctx clientId = NoError"

section \<open>Registration\<close>

definition sdh_registerHandler :: "('i, 'o) data_handler \<Rightarrow> nat \<Rightarrow> nat \<Rightarrow> registrar \<Rightarrow> status \<times> registrar" where
  "sdh_registerHandler H this pService r = registerHandler (getId (dh_InputType H)) (dh_kMulticast H) pService this r"

definition sdh_unregisterHandler :: "('i, 'o) data_handler \<Rightarrow> nat \<Rightarrow> registrar \<Rightarrow> nat option \<times> registrar" where
  "sdh_unregisterHandler H this r = unregisterHandler (getId (dh_InputType H)) this r"

definition getMinimumInterfaceVersion :: "('i, 'o) data_handler \<Rightarrow> u32" where
  "getMinimumInterfaceVersion H = dh_kMinimumInterfaceVersion H"

section \<open>Handling of a request\<close>

text \<open>The reply takes its versions and flags from the request.\<close>

definition handleDataMain ::
    "env \<Rightarrow> ('i, 'o) data_handler \<Rightarrow> 'i \<Rightarrow> ddata \<Rightarrow> client_id \<Rightarrow> 'o \<Rightarrow> byte vec \<Rightarrow> status \<times> ddata \<times> byte vec" where
  "handleDataMain E H input ctxIn clientId outp binOutput =
     (let (st, ctxIn, input) = dh_deserialize H ctxIn input
      in if \<not> statusSuccess st then (st, ctxIn, binOutput)
         else
           let (st, added, outp) = dh_handleData H input (m_pAddedPointers ctxIn) clientId outp;
               ctxIn = setAddedPointers ctxIn added
           in if \<not> statusSuccess st then (st, ctxIn, binOutput)
              else if dh_outputIsDummy H then (NoError, ctxIn, binOutput)
              else
                let binOutput = vec_clear octet binOutput;
                    ctxOut = sdata_new E binOutput (m_protocolVersion ctxIn) (getCommonFlags ctxIn) (m_dataFlags ctxIn)
                               (dh_kForTempUseHeap H) (m_interfaceVersion ctxIn) None;
                    ctxOut = (if m_checkRecursivePointers ctxOut then setPointersMap ctxOut (Some (\<lambda>_. None)) else ctxOut);
                    (st, ctxOut) = iserializable_serialize E (dh_OutputType H) (dh_serialize H outp) ctxOut
                in (st, ctxIn, m_binaryData ctxOut))"

definition handleDataOnStack ::
    "env \<Rightarrow> ('i, 'o) data_handler \<Rightarrow> ddata \<Rightarrow> client_id \<Rightarrow> byte vec \<Rightarrow> status \<times> ddata \<times> byte vec" where
  "handleDataOnStack E H ctx clientId binOutput =
     handleDataMain E H (dh_newInput H) ctx clientId (dh_newOutput H) binOutput"

text \<open>\<open>GenericPointerKeeper::allocateAndConstructOne\<close> on a local keeper: the object it holds.\<close>

definition heap_new :: "env \<Rightarrow> 'o elem \<Rightarrow> 'o \<Rightarrow> 'o option" where
  "heap_new E ty x =
     (case fst (allocateAndConstruct E ty GenericManager 1 (NoError, Obj x)) of
        Cells (Obj y # _) \<Rightarrow> Some y
      | _ \<Rightarrow> None)"

definition handleDataOnHeap ::
    "env \<Rightarrow> ('i, 'o) data_handler \<Rightarrow> ddata \<Rightarrow> client_id \<Rightarrow> byte vec \<Rightarrow> status \<times> ddata \<times> byte vec" where
  "handleDataOnHeap E H ctx clientId binOutput =
     (case heap_new E (dh_inputElem H) (dh_newInput H) of
        None \<Rightarrow> (ErrorNoMemory, ctx, binOutput)
      | Some input \<Rightarrow>
          if dh_outputIsDummy H then handleDataMain E H input ctx clientId (dh_newOutput H) binOutput
          else case heap_new E (dh_outputElem H) (dh_newOutput H) of
                 None \<Rightarrow> (ErrorNoMemory, ctx, binOutput)
               | Some outp \<Rightarrow> handleDataMain E H input ctx clientId outp binOutput)"

definition handleDataCommon ::
    "env \<Rightarrow> ('i, 'o) data_handler \<Rightarrow> ddata \<Rightarrow> client_id \<Rightarrow> byte vec \<Rightarrow> status \<times> ddata \<times> byte vec" where
  "handleDataCommon E H ctx clientId binOutput =
     (let st = dh_checkPoliciesCompliance H ctx clientId
      in if \<not> statusSuccess st then (st, ctx, binOutput)
         else
           let (st, ctx) = data_deserializePostprocessRest (dh_InputType H) ctx (getMinimumInterfaceVersion H)
           in if \<not> statusSuccess st
              then (if st = ErrorNotSupportedInterfaceVersion
                    then let (st', binOutput) = serializeErrorNotSupportedInterfaceVersion E (m_protocolVersion ctx)
                               (getCommonFlags ctx) (getMinimumInterfaceVersion H) (getId (dh_OutputType H)) binOutput
                         in (if \<not> statusSuccess st' then st' else st, ctx, binOutput)
                    else (st, ctx, binOutput))
              else
                let ctx = setHeapUseForTemp ctx (dh_kForTempUseHeap H)
                in if dh_kForTempUseHeap H then handleDataOnHeap E H ctx clientId binOutput
                   else handleDataOnStack E H ctx clientId binOutput)"

end
