(* ===== verification/Server.thy ===== *)
theory Server
  imports ServerHandler RegistrarSpec
begin

text \<open>
  \<open>csp_messaging/Server.h\<close>: the entry point of all requests. The registrar is reached through
  its interface, a record of the virtual functions that the server calls; the call of a
  handler goes through the handle that the registrar gave out. \<open>handleDataCommon\<close> and the
  functions of the server that call it are not \<open>noexcept\<close> and catch nothing: a call of a handler
  is \<open>None\<close> when an exception leaves it, and the server's functions then end with \<open>Thrown\<close> and the
  registrar as it is at that moment. \<open>Undefined\<close> is undefined behaviour (a handle that no longer
  exists). \<open>p\<close> and \<open>q\<close> are the addresses of the elements of the settings' vectors.
\<close>

section \<open>State\<close>

type_synonym returning_call = "ddata \<Rightarrow> client_id \<Rightarrow> byte vec \<Rightarrow> status \<times> ddata \<times> byte vec"

type_synonym handler_call = "ddata \<Rightarrow> client_id \<Rightarrow> byte vec \<Rightarrow> (status \<times> ddata \<times> byte vec) option"

definition returning :: "returning_call \<Rightarrow> handler_call" where
  "returning call = (\<lambda>ctx clientId binOutput. Some (call ctx clientId binOutput))"

datatype ('a, 'r) outcome = Returned 'a | Undefined | Thrown 'r

record 'r registrar_ops =
  op_aquireHandlers :: "uuid \<Rightarrow> nat vec \<Rightarrow> 'r \<Rightarrow> status \<times> nat vec \<times> 'r"
  op_aquireHandler :: "uuid \<Rightarrow> nat \<Rightarrow> 'r \<Rightarrow> status \<times> nat \<times> 'r"
  op_releaseHandler :: "nat \<Rightarrow> 'r \<Rightarrow> 'r option"
  op_handleDataCommon :: "'r \<Rightarrow> nat \<Rightarrow> handler_call option"

record 'r server =
  srv_settings :: csp_party_settings
  srv_dataHandlersRegistrar :: "'r option"
  srv_isInited :: bool

definition server_default :: "bool \<Rightarrow> 'r server" where
  "server_default be = \<lparr>srv_settings = settings_new be, srv_dataHandlersRegistrar = None, srv_isInited = False\<rparr>"

section \<open>Initialisation\<close>

definition server_new :: "env \<Rightarrow> csp_party_settings \<Rightarrow> 'r option \<Rightarrow> 'r server" where
  "server_new E settings dataHandlersRegistrar =
     (let s = server_default (big_endian E)
      in if \<not> settings_isValid settings \<or> dataHandlersRegistrar = None then s
         else
           let (st, ms) = settings_init_copy E False (srv_settings s) settings
           in s\<lparr>srv_dataHandlersRegistrar := dataHandlersRegistrar, srv_settings := ms, srv_isInited := statusSuccess st\<rparr>)"

text \<open>\<open>made\<close> is the result of \<open>makeUniqueNoThrowForOverwrite\<close>.\<close>

definition server_init :: "env \<Rightarrow> 'r server \<Rightarrow> csp_party_settings \<Rightarrow> 'r option \<Rightarrow> status \<times> 'r server" where
  "server_init E s settings made =
     (if srv_isInited s then (ErrorAlreadyInited, s)
      else
        let s = s\<lparr>srv_dataHandlersRegistrar := made\<rparr>
        in if made = None then (ErrorNoMemory, s)
           else if \<not> settings_isValid settings then (ErrorInvalidArgument, s)
           else
             let (st, ms) = settings_init_copy E False (srv_settings s) settings;
                 s = s\<lparr>srv_settings := ms\<rparr>
             in if \<not> statusSuccess st then (st, s) else (NoError, s\<lparr>srv_isInited := True\<rparr>))"

section \<open>Requests\<close>

definition handleGetSettings ::
    "env \<Rightarrow> (nat \<Rightarrow> nat) \<Rightarrow> (nat \<Rightarrow> nat) \<Rightarrow> csp_party_settings \<Rightarrow> byte \<Rightarrow> byte vec \<Rightarrow> status \<times> byte vec" where
  "handleGetSettings E p q settings cspVersion binOutput =
     (let ctxOut = sdata_new E binOutput cspVersion (m_mandatoryCommonFlags settings) df_default True (ucast cspVersion) None;
          (st, ctxOut) = iserializable_serialize E (CspPartySettings_info (big_endian E))
                           (serialize_CspPartySettings E p q settings) ctxOut
      in (st, m_binaryData ctxOut))"

text \<open>The handlers of a multicast struct, one after the other, each from the start of the body.\<close>

fun multicast ::
    "'r registrar_ops \<Rightarrow> size_t \<Rightarrow> client_id \<Rightarrow> nat list \<Rightarrow> status \<Rightarrow> ddata \<Rightarrow> byte vec \<Rightarrow> 'r
     \<Rightarrow> (status \<times> ddata \<times> byte vec \<times> 'r, 'r) outcome" where
  "multicast R bodyPosition clientId [] status ctx binOutput r = Returned (status, ctx, binOutput, r)"
| "multicast R bodyPosition clientId (pHandlerM # ps) status ctx binOutput r =
     (case op_handleDataCommon R r pHandlerM of
        None \<Rightarrow> Undefined
      | Some call \<Rightarrow>
          (case call ctx clientId binOutput of
             None \<Rightarrow> Thrown r
           | Some (newStatus, ctx, binOutput) \<Rightarrow>
               let status = set_new_error newStatus status
               in case op_releaseHandler R pHandlerM r of
                    None \<Rightarrow> Undefined
                  | Some r \<Rightarrow>
                      let ctx = ctx\<lparr>m_binaryData := snd (walker_seek (m_binaryData ctx) bodyPosition)\<rparr>
                      in multicast R bodyPosition clientId ps status ctx binOutput r))"

definition server_handleData ::
    "env \<Rightarrow> 'r registrar_ops \<Rightarrow> byte walker common \<Rightarrow> client_id \<Rightarrow> byte vec \<Rightarrow> 'r
     \<Rightarrow> (status \<times> byte walker \<times> byte vec \<times> 'r, 'r) outcome" where
  "server_handleData E R ctxCommon clientId binOutput r =
     (let ctx = data_of_common ctxCommon df_default True kInterfaceVersionUndefined None None :: ddata;
          (st, ctx, uid) = data_deserializeNoChecks E ctx kNullUuid
      in if \<not> statusSuccess st then Returned (st, m_binaryData ctx, binOutput, r)
         else
           let ctx = (if m_allowUnmanagedPointers ctx then setAddedPointers ctx (Some (empty_vec GenericManager)) else ctx);
               ctx = (if m_checkRecursivePointers ctx then setPointersMap ctx (Some (\<lambda>_. None)) else ctx);
               (st, pHandler, r) = op_aquireHandler R uid 0 r
           in if statusSuccess st
              then (case op_handleDataCommon R r pHandler of
                      None \<Rightarrow> Undefined
                    | Some call \<Rightarrow>
                        (case call ctx clientId binOutput of
                           None \<Rightarrow> Thrown r
                         | Some (st, ctx, binOutput) \<Rightarrow>
                             (case op_releaseHandler R pHandler r of
                                None \<Rightarrow> Undefined
                              | Some r \<Rightarrow> Returned (st, m_binaryData ctx, binOutput, r))))
              else if st = ErrorMoreEntires
              then (let (st, handlers, r) = op_aquireHandlers R uid (empty_vec (StrategicManager DoubleOfDataSize)) r
                    in if \<not> statusSuccess st then Returned (st, m_binaryData ctx, binOutput, r)
                       else case multicast R (walker_tell (m_binaryData ctx)) clientId (vec_objects handlers) NoError ctx binOutput r of
                              Undefined \<Rightarrow> Undefined
                            | Thrown r \<Rightarrow> Thrown r
                            | Returned (st, ctx, binOutput, r) \<Rightarrow> Returned (st, m_binaryData ctx, binOutput, r))
              else Returned (st, m_binaryData ctx, binOutput, r))"

definition handleMessage ::
    "env \<Rightarrow> 'r registrar_ops \<Rightarrow> (nat \<Rightarrow> nat) \<Rightarrow> (nat \<Rightarrow> nat) \<Rightarrow> csp_party_settings \<Rightarrow> byte walker \<Rightarrow> client_id \<Rightarrow> byte vec \<Rightarrow> 'r
     \<Rightarrow> (status \<times> byte walker \<times> byte vec \<times> 'r, 'r) outcome" where
  "handleMessage E R p q settings binInput clientId binOutput r =
     (let binOutput = vec_clear octet binOutput;
          ctx = dcommon_new E binInput (settings_getOldestProtocolVersion settings) Msg_Data (cf_default False (big_endian E));
          (st, ctx) = common_deserialize E ctx;
          handled =
            (if statusSuccess st
             then (case m_messageType ctx of
                     Msg_GetSettings \<Rightarrow>
                       (let (st, binOutput) = handleGetSettings E p q settings (m_protocolVersion ctx) binOutput
                        in Returned (st, m_binaryData ctx, binOutput, r))
                   | Msg_Data \<Rightarrow>
                       (let st = testCommonFlagsCompatibility (getCommonFlags ctx) (m_forbiddenCommonFlags settings)
                                   (m_mandatoryCommonFlags settings)
                        in if statusSuccess st then server_handleData E R ctx clientId binOutput r
                           else Returned (st, m_binaryData ctx, binOutput, r))
                   | _ \<Rightarrow> Returned (ErrorDataCorrupted, m_binaryData ctx, binOutput, r))
             else if st = ErrorNotSupportedProtocolVersion
             then (let (st, binOutput) = serializeErrorNotSupportedProtocolVersion E binOutput
                         (vec_objects (m_protocolVersions settings)) (m_mandatoryCommonFlags settings)
                   in Returned (st, m_binaryData ctx, binOutput, r))
             else Returned (st, m_binaryData ctx, binOutput, r))
      in case handled of
           Undefined \<Rightarrow> Undefined
         | Thrown r \<Rightarrow> Thrown r
         | Returned (st, w, binOutput, r) \<Rightarrow>
             if vec_size binOutput = 0
             then (let (newStatus, binOutput) =
                         serializeFullContext_output E binOutput (m_protocolVersion ctx) (getCommonFlags ctx) st
                   in Returned (set_new_error newStatus st, w, binOutput, r))
             else Returned (st, w, binOutput, r))"

definition server_handleMessage ::
    "env \<Rightarrow> 'r registrar_ops \<Rightarrow> (nat \<Rightarrow> nat) \<Rightarrow> (nat \<Rightarrow> nat) \<Rightarrow> 'r server \<Rightarrow> byte walker \<Rightarrow> client_id \<Rightarrow> byte vec
     \<Rightarrow> (status \<times> byte walker \<times> byte vec \<times> 'r server, 'r server) outcome" where
  "server_handleMessage E R p q s binInput clientId binOutput =
     (if \<not> srv_isInited s then Returned (ErrorNotInited, binInput, binOutput, s)
      else case srv_dataHandlersRegistrar s of
             None \<Rightarrow> Undefined
           | Some r \<Rightarrow>
               map_outcome (\<lambda>(st, w, binOutput, r). (st, w, binOutput, s\<lparr>srv_dataHandlersRegistrar := Some r\<rparr>))
                 (\<lambda>r. s\<lparr>srv_dataHandlersRegistrar := Some r\<rparr>)
                 (handleMessage E R p q (srv_settings s) binInput clientId binOutput r))"

end
