(* ===== verification/Client.thy ===== *)
theory Client
  imports ServerHandler
begin

text \<open>
  \<open>csp_messaging/Client.h\<close>: the client's side of every request. The communicator is a
  parameter, \<open>process\<close>: from the request and the contents of the output vector it gives a
  status, the output vector and the new state of whatever is behind it.
\<close>

section \<open>State\<close>

record client =
  cl_settings :: csp_party_settings
  cl_isValid :: bool

type_synonym 'n communicator = "byte vec \<Rightarrow> byte vec \<Rightarrow> 'n \<Rightarrow> status \<times> byte vec \<times> 'n"

definition client_default :: "bool \<Rightarrow> client" where
  "client_default be = \<lparr>cl_settings = settings_new be, cl_isValid = False\<rparr>"

text \<open>A local \<open>BinVectorT\<close>.\<close>

definition bin_new :: "byte vec" where
  "bin_new = empty_vec (StrategicManager DoubleOfDataSize)"

section \<open>Initialisation\<close>

definition client_init :: "env \<Rightarrow> client \<Rightarrow> csp_party_settings \<Rightarrow> status \<times> client" where
  "client_init E c settings =
     (if cl_isValid c then (ErrorAlreadyInited, c)
      else if \<not> settings_isValid settings then (ErrorInvalidArgument, c)
      else
        let (st, ms) = settings_init_copy E False (settings_clear (big_endian E) (cl_settings c)) settings;
            c = c\<lparr>cl_settings := ms\<rparr>
        in if \<not> statusSuccess st then (st, c)
           else
             let c = c\<lparr>cl_isValid := settings_isValid ms\<rparr>
             in (if cl_isValid c then NoError else ErrorNotInited, c))"

definition client_new :: "env \<Rightarrow> csp_party_settings \<Rightarrow> client" where
  "client_new E settings = snd (client_init E (client_default (big_endian E)) settings)"

section \<open>Questions to the server\<close>

definition getServerProtocolVersions ::
    "env \<Rightarrow> 'n communicator \<Rightarrow> byte vec \<Rightarrow> 'n \<Rightarrow> status \<times> byte vec \<times> 'n" where
  "getServerProtocolVersions E process outp n =
     (let ctxIn = scommon_new E bin_new kProtocolVersionUndefined Msg_Data (cf_default False (big_endian E));
          (st, ctxIn) = common_serializeNoChecks E ctxIn
      in if \<not> statusSuccess st then (st, outp, n)
         else
           let (st, binOutput, n) = process (m_binaryData ctxIn) bin_new n
           in if \<not> statusSuccess st then (st, outp, n)
              else
                let ctxOut = dcommon_new E \<lparr>m_vector = binOutput, m_offset = 0\<rparr> getLatestProtocolVersion Msg_Data
                               (cf_default False (big_endian E));
                    (st, ctxOut) = common_deserializeNoChecks E ctxOut
                in if \<not> statusSuccess st then (st, outp, n)
                   else if m_messageType ctxOut \<noteq> Msg_Status then (ErrorDataCorrupted, outp, n)
                   else
                     let (st, ctxOut, statusOut) = status_deserialize E ctxOut NoError
                     in if \<not> statusSuccess st then (st, outp, n)
                        else if statusOut \<noteq> ErrorNotSupportedProtocolVersion then (ErrorDataCorrupted, outp, n)
                        else
                          let (st, _, outp) = body_deserializeErrorNotSupportedProtocolVersion E ctxOut outp
                          in (st, outp, n))"

definition getServerSettings ::
    "env \<Rightarrow> (nat \<Rightarrow> nat) \<Rightarrow> (nat \<Rightarrow> nat) \<Rightarrow> 'n communicator \<Rightarrow> byte \<Rightarrow> csp_party_settings \<Rightarrow> 'n
     \<Rightarrow> status \<times> csp_party_settings \<times> 'n" where
  "getServerSettings E p q process serverCspVersion cspPartySettings n =
     (let ctxIn = scommon_new E bin_new serverCspVersion Msg_GetSettings (cf_default False (big_endian E));
          (st, ctxIn) = common_serialize E ctxIn
      in if \<not> statusSuccess st then (st, cspPartySettings, n)
         else
           let (st, binOutput, n) = process (m_binaryData ctxIn) bin_new n
           in if \<not> statusSuccess st then (st, cspPartySettings, n)
              else
                let (st, _, cspPartySettings) =
                      iserializable_deserialize_from E (CspPartySettings_info (big_endian E))
                        (deserialize_CspPartySettings E p q) \<lparr>m_vector = binOutput, m_offset = 0\<rparr> cspPartySettings
                in (st, cspPartySettings, n))"

text \<open>The first of the server's versions that the client has, both in decreasing order.\<close>

fun has_version :: "byte \<Rightarrow> byte list \<Rightarrow> bool" where
  "has_version serverProtocolVersion [] = False"
| "has_version serverProtocolVersion (clientProtocolVersion # cs) =
     (if clientProtocolVersion < serverProtocolVersion then False
      else if serverProtocolVersion = clientProtocolVersion then True
      else has_version serverProtocolVersion cs)"

fun choose_version :: "byte list \<Rightarrow> byte list \<Rightarrow> byte" where
  "choose_version [] cs = kProtocolVersionUndefined"
| "choose_version (serverProtocolVersion # ss) cs =
     (let temp = (if has_version serverProtocolVersion cs then serverProtocolVersion else kProtocolVersionUndefined)
      in if temp \<noteq> kProtocolVersionUndefined then temp else choose_version ss cs)"

definition client_init_from_server ::
    "env \<Rightarrow> (nat \<Rightarrow> nat) \<Rightarrow> (nat \<Rightarrow> nat) \<Rightarrow> 'n communicator \<Rightarrow> client \<Rightarrow> csp_party_settings \<Rightarrow> csp_party_settings \<Rightarrow> 'n
     \<Rightarrow> status \<times> client \<times> csp_party_settings \<times> 'n" where
  "client_init_from_server E p q process c clientSettings serverSettings n =
     (if cl_isValid c then (ErrorAlreadyInited, c, serverSettings, n)
      else if \<not> settings_isValid clientSettings then (ErrorInvalidArgument, c, serverSettings, n)
      else
        let c = c\<lparr>cl_settings := settings_clear (big_endian E) (cl_settings c)\<rparr>;
            (st, serverCspVersions, n) = getServerProtocolVersions E process bin_new n
        in if \<not> statusSuccess st then (st, c, serverSettings, n)
           else
             let temp = choose_version (vec_objects serverCspVersions) (vec_objects (m_protocolVersions clientSettings))
             in if temp = kProtocolVersionUndefined
                then (let (st, serverSettings) = settings_init_parts E serverSettings serverCspVersions
                            (cf_default False (big_endian E)) (cf_default False (big_endian E))
                            (empty_vec (StrategicManager DoubleOfDataSize))
                      in (if \<not> statusSuccess st then st else ErrorNotSupportedProtocolVersion, c, serverSettings, n))
                else
                  let (st, serverSettings, n) = getServerSettings E p q process temp serverSettings n
                  in if \<not> statusSuccess st then (st, c, serverSettings, n)
                     else
                       let (st, ms) = getCompatibleSettings E (cl_settings c) clientSettings serverSettings;
                           c = c\<lparr>cl_settings := ms\<rparr>
                       in if \<not> statusSuccess st then (st, c, serverSettings, n)
                          else
                            let c = c\<lparr>cl_isValid := settings_isValid ms\<rparr>
                            in (if cl_isValid c then NoError else ErrorNotInited, c, serverSettings, n))"

definition getInterfaceVersion :: "client \<Rightarrow> uuid \<Rightarrow> u32" where
  "getInterfaceVersion c uid =
     (case find (\<lambda>i. uuid_eq uid (iv_id i)) (vec_objects (m_interfaces (cl_settings c))) of
        Some i \<Rightarrow> iv_version i
      | None \<Rightarrow> kInterfaceVersionUndefined)"

text \<open>The request is the header of a data message with an undefined interface version and no body.\<close>

definition getServerHandlerSettings ::
    "env \<Rightarrow> 'n communicator \<Rightarrow> client \<Rightarrow> struct_info \<Rightarrow> u32 \<Rightarrow> uuid \<Rightarrow> 'n \<Rightarrow> status \<times> u32 \<times> uuid \<times> 'n" where
  "getServerHandlerSettings E process c inputType minimumInterfaceVersion outputTypeId n =
     (if \<not> cl_isValid c then (ErrorNotInited, minimumInterfaceVersion, outputTypeId, n)
      else if getInterfaceVersion c (i_id (getInterface inputType)) = kInterfaceVersionUndefined
      then (ErrorNotSupportedInterface, minimumInterfaceVersion, outputTypeId, n)
      else
        let ctxIn = sdata_new E bin_new (settings_getLatestProtocolVersion (cl_settings c))
                      (m_mandatoryCommonFlags (cl_settings c)) df_default True kInterfaceVersionUndefined None;
            (st, ctxIn) = run (common_serialize E ctxIn) (data_serializeNoChecks E inputType)
        in if \<not> statusSuccess st then (st, minimumInterfaceVersion, outputTypeId, n)
           else
             let (st, binOutput, n) = process (m_binaryData ctxIn) bin_new n
             in if \<not> statusSuccess st then (st, minimumInterfaceVersion, outputTypeId, n)
                else
                  let ctxOut = dcommon_new E \<lparr>m_vector = binOutput, m_offset = 0\<rparr> getLatestProtocolVersion Msg_Data
                                 (cf_default False (big_endian E));
                      (st, ctxOut) = common_deserialize E ctxOut
                  in if \<not> statusSuccess st then (st, minimumInterfaceVersion, outputTypeId, n)
                     else if m_messageType ctxOut \<noteq> Msg_Status then (ErrorDataCorrupted, minimumInterfaceVersion, outputTypeId, n)
                     else
                       let (st, ctxOut, statusOut) = status_deserialize E ctxOut NoError
                       in if \<not> statusSuccess st then (st, minimumInterfaceVersion, outputTypeId, n)
                          else if statusSuccess statusOut then (ErrorDataCorrupted, minimumInterfaceVersion, outputTypeId, n)
                          else if statusOut \<noteq> ErrorNotSupportedInterfaceVersion
                          then (statusOut, minimumInterfaceVersion, outputTypeId, n)
                          else
                            let (st, _, minimumInterfaceVersion, outputTypeId) =
                                  body_deserializeErrorNotSupportedInterfaceVersion E ctxOut minimumInterfaceVersion outputTypeId
                            in (st, minimumInterfaceVersion, outputTypeId, n))"

section \<open>Requests with data\<close>

text \<open>The traits of the client's handler of a struct, with the serialization of its two structs.\<close>

record ('i, 'o) client_handler =
  ch_InputType :: struct_info
  ch_OutputType :: struct_info
  ch_kForTempUseHeap :: bool
  ch_serialize :: "'i \<Rightarrow> sdata \<Rightarrow> status \<times> sdata"
  ch_deserialize :: "ddata \<Rightarrow> 'o \<Rightarrow> status \<times> ddata \<times> 'o"

text \<open>What is checked before anything is sent, and the context of the request.\<close>

definition client_checks ::
    "client \<Rightarrow> ('i, 'o) client_handler \<Rightarrow> common_flags \<Rightarrow> status" where
  "client_checks c H additionalCommonFlags =
     (let targetInterfaceVersion = getInterfaceVersion c (i_id (getInterface (ch_InputType H)))
      in if \<not> cl_isValid c then ErrorNotInited
         else if targetInterfaceVersion = kInterfaceVersionUndefined then ErrorNotSupportedInterface
         else if getOriginPrivateVersion (ch_InputType H) > targetInterfaceVersion
                 \<or> getOriginPrivateVersion (ch_OutputType H) > targetInterfaceVersion
         then ErrorNotSupportedInterfaceVersion
         else if cf_bool (cf_and additionalCommonFlags (m_forbiddenCommonFlags (cl_settings c)))
         then ErrorNotCompatibleCommonFlagsSettings
         else NoError)"

definition client_request ::
    "env \<Rightarrow> client \<Rightarrow> ('i, 'o) client_handler \<Rightarrow> common_flags \<Rightarrow> data_flags \<Rightarrow> sdata" where
  "client_request E c H additionalCommonFlags additionalDataFlags =
     sdata_new E bin_new (settings_getLatestProtocolVersion (cl_settings c))
       (cf_or (m_mandatoryCommonFlags (cl_settings c)) additionalCommonFlags)
       (df_or (getEffectiveMandatoryDataFlags (ch_InputType H)) additionalDataFlags) (ch_kForTempUseHeap H)
       (getInterfaceVersion c (i_id (getInterface (ch_InputType H)))) None"

text \<open>
  \<open>handleData\<close>. The map of pointers lives only while the input is serialized, but \<open>ctxIn\<close> keeps
  its address and \<open>ctxIn.clear()\<close> clears the map: undefined behaviour, \<open>None\<close>, when the map was used.
\<close>

definition client_reply ::
    "env \<Rightarrow> client \<Rightarrow> ('i, 'o) client_handler \<Rightarrow> sdata \<Rightarrow> byte vec \<Rightarrow> 'o \<Rightarrow> nat pointer_keeper vec option
     \<Rightarrow> (status \<times> 'o \<times> nat pointer_keeper vec option) option" where
  "client_reply E c H ctxIn binOutput outp pUnmanagedPointers =
     (let ctxOutCommon = dcommon_new E \<lparr>m_vector = binOutput, m_offset = 0\<rparr> getLatestProtocolVersion Msg_Data
                           (cf_default False (big_endian E));
          (st, ctxOutCommon) = common_deserialize E ctxOutCommon
      in if \<not> statusSuccess st then Some (st, outp, pUnmanagedPointers)
         else if \<not> cf_eq (getCommonFlags ctxIn) (getCommonFlags ctxOutCommon)
         then Some (ErrorNotCompatibleCommonFlagsSettings, outp, pUnmanagedPointers)
         else case m_messageType ctxOutCommon of
           Msg_Data \<Rightarrow>
             (let ctxOut = data_of_common ctxOutCommon df_default True kInterfaceVersionUndefined None None :: ddata;
                  (st, ctxOut, outId) = data_deserializeNoChecks E ctxOut kNullUuid
              in if \<not> statusSuccess st then Some (st, outp, pUnmanagedPointers)
                 else if \<not> df_eq (m_dataFlags ctxIn) (m_dataFlags ctxOut)
                 then Some (ErrorNotCompatibleDataFlagsSettings, outp, pUnmanagedPointers)
                 else if m_checkRecursivePointers ctxIn then None
                 else
                   let ctxOut = setAddedPointers ctxOut pUnmanagedPointers;
                       st = data_deserializePostprocessId (ch_OutputType H) outId
                   in if \<not> statusSuccess st then Some (st, outp, pUnmanagedPointers)
                      else
                        let (st, ctxOut) = data_deserializePostprocessRest (ch_OutputType H) ctxOut
                              (getOriginPrivateVersion (ch_OutputType H))
                        in if \<not> statusSuccess st then Some (st, outp, pUnmanagedPointers)
                           else if m_interfaceVersion ctxOut \<noteq> getInterfaceVersion c (i_id (getInterface (ch_InputType H)))
                           then Some (ErrorMismatchOfInterfaceVersions, outp, pUnmanagedPointers)
                           else
                             let ctxOut = setHeapUseForTemp ctxOut (ch_kForTempUseHeap H);
                                 ctxOut = (if m_checkRecursivePointers ctxOut then setPointersMap ctxOut (Some (\<lambda>_. None))
                                           else ctxOut);
                                 (st, ctxOut, outp) = ch_deserialize H ctxOut outp
                             in Some (st, outp, m_pAddedPointers ctxOut))
         | Msg_Status \<Rightarrow>
             (let (st, _, statusOut) = status_deserialize E ctxOutCommon NoError
              in Some (if \<not> statusSuccess st then st else statusOut, outp, pUnmanagedPointers))
         | _ \<Rightarrow> Some (ErrorDataCorrupted, outp, pUnmanagedPointers))"

definition client_handleData ::
    "env \<Rightarrow> 'n communicator \<Rightarrow> client \<Rightarrow> ('i, 'o) client_handler \<Rightarrow> 'i \<Rightarrow> 'o \<Rightarrow> common_flags \<Rightarrow> data_flags
     \<Rightarrow> nat pointer_keeper vec option \<Rightarrow> 'n \<Rightarrow> (status \<times> 'o \<times> nat pointer_keeper vec option \<times> 'n) option" where
  "client_handleData E process c H input outp additionalCommonFlags additionalDataFlags pUnmanagedPointers n =
     (let st = client_checks c H additionalCommonFlags
      in if \<not> statusSuccess st then Some (st, outp, pUnmanagedPointers, n)
         else
           let (st, ctxIn) = run (common_serialize E (client_request E c H additionalCommonFlags additionalDataFlags))
                               (data_serialize E (ch_InputType H))
           in if \<not> statusSuccess st then Some (st, outp, pUnmanagedPointers, n)
              else if m_allowUnmanagedPointers ctxIn \<and> pUnmanagedPointers = None
              then Some (ErrorInvalidArgument, outp, pUnmanagedPointers, n)
              else
                let (st, ctxIn) = ch_serialize H input
                      (if m_checkRecursivePointers ctxIn then setPointersMap ctxIn (Some (\<lambda>_. None)) else ctxIn)
                in if \<not> statusSuccess st then Some (st, outp, pUnmanagedPointers, n)
                   else
                     let (st, binOutput, n) = process (m_binaryData ctxIn) bin_new n
                     in if \<not> statusSuccess st then Some (st, outp, pUnmanagedPointers, n)
                        else map_option (\<lambda>(st, outp, ap). (st, outp, ap, n))
                               (client_reply E c H ctxIn binOutput outp pUnmanagedPointers))"

text \<open>The overloads without additional flags.\<close>

definition client_handleData_default ::
    "env \<Rightarrow> 'n communicator \<Rightarrow> client \<Rightarrow> ('i, 'o) client_handler \<Rightarrow> 'i \<Rightarrow> 'o
     \<Rightarrow> nat pointer_keeper vec option \<Rightarrow> 'n \<Rightarrow> (status \<times> 'o \<times> nat pointer_keeper vec option \<times> 'n) option" where
  "client_handleData_default E process c H input outp pUnmanagedPointers n =
     client_handleData E process c H input outp (cf_default False (big_endian E)) df_default pUnmanagedPointers n"

definition client_handleData_dataFlags ::
    "env \<Rightarrow> 'n communicator \<Rightarrow> client \<Rightarrow> ('i, 'o) client_handler \<Rightarrow> 'i \<Rightarrow> 'o \<Rightarrow> data_flags
     \<Rightarrow> nat pointer_keeper vec option \<Rightarrow> 'n \<Rightarrow> (status \<times> 'o \<times> nat pointer_keeper vec option \<times> 'n) option" where
  "client_handleData_dataFlags E process c H input outp additionalDataFlags pUnmanagedPointers n =
     client_handleData E process c H input outp (cf_default False (big_endian E)) additionalDataFlags pUnmanagedPointers n"

end
