(* ===== verification/ServerSpec.thy ===== *)
theory ServerSpec
  imports Server
begin

text \<open>
  What the server does with the registrar's handlers, over the interface it uses, and the
  interface on the model of the registrar; what a request gets as its reply.
\<close>

section \<open>The interface of the registrar\<close>

text \<open>
  A request ends with the registrar \<open>r\<close> as it was, or with an exception and a registrar of
  which \<open>T\<close> holds.
\<close>

definition leaves :: "'r \<Rightarrow> ('r \<Rightarrow> bool) \<Rightarrow> ('a \<times> 'b \<times> 'c \<times> 'r, 'r) outcome \<Rightarrow> bool" where
  "leaves r T x \<longleftrightarrow> (case x of Returned (a, b, c, r') \<Rightarrow> r' = r | Undefined \<Rightarrow> False | Thrown r' \<Rightarrow> T r')"

lemma leaves_simps [simp]:
  "leaves r T (Returned (a, b, c, r')) \<longleftrightarrow> r' = r" "\<not> leaves r T Undefined" "leaves r T (Thrown r') \<longleftrightarrow> T r'"
  by (simp_all add: leaves_def)

lemma leaves_if: "leaves r T (if P then x else y) \<longleftrightarrow> (if P then leaves r T x else leaves r T y)"
  by simp

lemma leaves_case:
  assumes "leaves r T x" "\<And>a b c. leaves r T (f a b c r)"
  shows "leaves r T (case x of Undefined \<Rightarrow> Undefined | Thrown r \<Rightarrow> Thrown r | Returned (a, b, c, r) \<Rightarrow> f a b c r)"
  using assms by (cases x) (auto simp: leaves_def)

text \<open>The call of the handle \<open>p\<close> throws, on some input.\<close>

definition throws :: "'r registrar_ops \<Rightarrow> client_id \<Rightarrow> 'r \<Rightarrow> nat \<Rightarrow> bool" where
  "throws R cid r p \<longleftrightarrow> (\<exists>call ctx b. op_handleDataCommon R r p = Some call \<and> call ctx cid b = None)"

text \<open>
  \<open>held ps r\<close> is the registrar \<open>r\<close> with the handles \<open>ps\<close> acquired, which can be called and released,
  the first one first, when they are \<open>usable\<close>.
\<close>

locale handler_registrar =
  fixes R :: "'r registrar_ops"
    and good :: "'r \<Rightarrow> bool"
    and held :: "nat list \<Rightarrow> 'r \<Rightarrow> 'r"
    and usable :: "'r \<Rightarrow> nat list \<Rightarrow> bool"
  assumes aquire_one: "good r \<Longrightarrow> op_aquireHandler R uid p r = (st, q, r') \<Longrightarrow>
      if statusSuccess st then usable r [q] \<and> r' = held [q] r else r' = r"
    and aquire_all: "good r \<Longrightarrow> vec_rep v [] \<Longrightarrow> op_aquireHandlers R uid v r = (st, v', r') \<Longrightarrow>
      if statusSuccess st then usable r (vec_objects v') \<and> r' = held (vec_objects v') r else r' = r"
    and held_none: "held [] r = r"
    and held_call: "usable r (p # ps) \<Longrightarrow> op_handleDataCommon R (held (p # ps) r) p \<noteq> None"
    and held_release: "usable r (p # ps) \<Longrightarrow> op_releaseHandler R p (held (p # ps) r) = Some (held ps r) \<and> usable r ps"
begin

definition escaped :: "client_id \<Rightarrow> 'r \<Rightarrow> 'r \<Rightarrow> bool" where
  "escaped cid r r' \<longleftrightarrow> (\<exists>p ps. usable r (p # ps) \<and> r' = held (p # ps) r \<and> throws R cid r' p)"

lemma escapedI:
  "usable r (p # ps) \<Longrightarrow> op_handleDataCommon R (held (p # ps) r) p = Some call \<Longrightarrow> call ctx cid b = None
    \<Longrightarrow> escaped cid r (held (p # ps) r)"
  unfolding escaped_def throws_def by blast

lemma multicast_leaves:
  "usable r ps \<Longrightarrow> leaves r (escaped cid r) (multicast R pos cid ps st0 ctx b (held ps r))"
proof (induction ps arbitrary: st0 ctx b)
  case (Cons p ps)
  obtain call where call: "op_handleDataCommon R (held (p # ps) r) p = Some call"
    using held_call [OF Cons.prems] by blast
  show ?case
  proof (cases "call ctx cid b")
    case None
    then show ?thesis using call escapedI [OF Cons.prems call None] by simp
  next
    case (Some y)
    then show ?thesis using call held_release [OF Cons.prems] Cons.IH
      by (cases y) (simp add: Let_def)
  qed
qed (simp add: held_none)

lemma handleData_leaves:
  assumes "good r"
  shows "leaves r (escaped cid r) (server_handleData E R ctxCommon cid b r)"
proof -
  let ?d = "data_of_common ctxCommon df_default True kInterfaceVersionUndefined None None :: ddata"
  obtain st ctx uid where d: "data_deserializeNoChecks E ?d kNullUuid = (st, ctx, uid)" by (metis prod_cases3)
  obtain st1 q r1 where a: "op_aquireHandler R uid 0 r = (st1, q, r1)" by (metis prod_cases3)
  obtain st2 v r2 where l: "op_aquireHandlers R uid (empty_vec (StrategicManager DoubleOfDataSize)) r = (st2, v, r2)"
    by (metis prod_cases3)
  have one: "if statusSuccess st1 then usable r [q] \<and> r1 = held [q] r else r1 = r" by (rule aquire_one [OF assms a])
  have all: "if statusSuccess st2 then usable r (vec_objects v) \<and> r2 = held (vec_objects v) r else r2 = r"
    by (rule aquire_all [OF assms vec_rep_empty l])
  show ?thesis
  proof (cases "statusSuccess st1")
    case True
    then have u: "usable r [q]" "r1 = held [q] r" using one by simp_all
    then obtain call where call: "op_handleDataCommon R r1 q = Some call" using held_call [of r q "[]"] by auto
    have rel: "op_releaseHandler R q r1 = Some r" using held_release [of r q "[]"] u held_none by simp
    have esc: "escaped cid r r1" if "call c cid b = None" for c
      unfolding u(2) by (rule escapedI [OF u(1) call [unfolded u(2)], where ctx = c and b = b]) (rule that)
    show ?thesis using True rel esc by (auto simp: server_handleData_def Let_def d a call split: option.split)
  next
    case False
    then have "r1 = r" using one by simp
    with False all show ?thesis
      by (auto simp: server_handleData_def Let_def d a l intro!: leaves_case multicast_leaves)
  qed
qed

lemma handleMessage_leaves: "good r \<Longrightarrow> leaves r (escaped cid r) (handleMessage E R p q settings input cid b r)"
  by (auto simp: handleMessage_def Let_def split: prod.split
      intro!: leaves_case handleData_leaves split: message.split)

end

section \<open>The registrar behind the interface\<close>

text \<open>
  \<open>calls x\<close> is \<open>handleDataCommon\<close> of the handler object with address \<open>x\<close>; \<open>generic_ops\<close> is for
  handlers that throw no exceptions.
\<close>

definition registrar_interface :: "env \<Rightarrow> (nat \<Rightarrow> handler_call) \<Rightarrow> registrar registrar_ops" where
  "registrar_interface E calls = \<lparr>op_aquireHandlers = aquireHandlers E, op_aquireHandler = aquireHandler,
     op_releaseHandler = releaseHandler,
     op_handleDataCommon = (\<lambda>r p. map_option (\<lambda>h. calls (h_handler h)) (node r p))\<rparr>"

definition generic_ops :: "env \<Rightarrow> (nat \<Rightarrow> returning_call) \<Rightarrow> registrar registrar_ops" where
  "generic_ops E calls = registrar_interface E (\<lambda>x. returning (calls x))"

definition registrar_good :: "registrar \<Rightarrow> bool" where
  "registrar_good r \<longleftrightarrow> map_inv r \<and> length (m_handlerMap r) < 2 ^ 32"

definition active_at :: "registrar \<Rightarrow> nat \<Rightarrow> bool" where
  "active_at r p \<longleftrightarrow> (\<exists>h \<in> set (m_handlerMap r). h_node h = p \<and> h_state h = Active)"

lemma fetch_keeps: "keeps (\<lambda>h. h\<lparr>h_inUseCounter := f h\<rparr>)"
  by (simp add: keeps_def)

lemma fetch_good [simp]:
  "map_inv (fetch_add p r) = map_inv r" "map_inv (fetch_sub p r) = map_inv r"
  "active_at (fetch_add q r) p = active_at r p" "active_at (fetch_sub q r) p = active_at r p"
  by (simp_all add: fetch_defs fetch_keeps active_at_def keeps_if if_distrib [of h_state] cong: if_cong)

lemma release_active:
  assumes "map_inv r" "active_at r p"
  shows "releaseHandler p r = Some (fetch_sub p r)" "node r p \<noteq> None"
proof -
  obtain h where h: "h \<in> set (m_handlerMap r)" "h_node h = p" "h_state h = Active"
    using assms(2) by (auto simp: active_at_def)
  then have "node r p = Some h" using node_Some [OF assms(1)] by blast
  then show "releaseHandler p r = Some (fetch_sub p r)" "node r p \<noteq> None"
    using h by (simp_all add: releaseHandler_def release_counters_def Let_def)
qed

lemma active_nodes_active: "p \<in> set (active_nodes (equal_range r uid)) \<Longrightarrow> active_at r p"
  using active_nodes_at by (force simp: active_at_def)

lemma foldr_fetch_good [simp]:
  "map_inv (foldr fetch_add ps r) = map_inv r" "active_at (foldr fetch_add ps r) p = active_at r p"
  by (induction ps) simp_all

lemma fetch_add_commute: "fetch_add p (fetch_add q r) = fetch_add q (fetch_add p r)"
  by (simp add: fetch_defs at_node_def)

lemma fold_fetch_foldr: "fold fetch_add ps r = foldr fetch_add ps r"
proof -
  have move: "fetch_add p (foldr fetch_add ps r) = foldr fetch_add ps (fetch_add p r)" for p ps r
    by (induction ps) (simp_all add: fetch_add_commute)
  show ?thesis by (induction ps arbitrary: r) (simp_all add: move)
qed

definition active_handles :: "registrar \<Rightarrow> nat list \<Rightarrow> bool" where
  "active_handles r ps \<longleftrightarrow> map_inv r \<and> (\<forall>p \<in> set ps. active_at r p)"

interpretation generic: handler_registrar "registrar_interface E calls" registrar_good "foldr fetch_add" active_handles
  for E calls
proof
  fix r uid p st q r'
  assume g: "registrar_good r" and a: "op_aquireHandler (registrar_interface E calls) uid p r = (st, q, r')"
  from a have "aquireHandler uid p r = (st, q, r')" by (simp add: registrar_interface_def)
  then show "if statusSuccess st then active_handles r [q] \<and> r' = foldr fetch_add [q] r else r' = r"
  proof (cases rule: aquireHandler_cases)
    case (ok h)
    then have "h \<in> set (equal_range r uid)" by simp
    then have "active_at r (h_node h)" using ok(2) by (auto simp: active_at_def equal_range_def)
    then show ?thesis using g ok by (simp add: registrar_good_def active_handles_def)
  qed auto
next
  fix r v uid st v' r'
  assume g: "registrar_good r" and v: "vec_rep v []"
    and a: "op_aquireHandlers (registrar_interface E calls) uid v r = (st, v', r')"
  have a: "aquireHandlers E uid v r = (st, v', r')" using a by (simp add: registrar_interface_def)
  have "length (equal_range r uid) < 2 ^ 32"
    using g le_less_trans [OF length_filter_le] by (force simp: registrar_good_def equal_range_def)
  from v this show "if statusSuccess st then active_handles r (vec_objects v') \<and> r' = foldr fetch_add (vec_objects v') r else r' = r"
  proof (cases rule: aquireHandlers_cases [where E = E])
    case (ok w)
    then show ?thesis
      using g a vec_rep_objects [OF ok(1)] active_nodes_active
      by (auto simp: active_handles_def registrar_good_def fold_fetch_foldr split: if_splits)
  qed (use a in auto)
next
  fix r p ps
  assume u: "active_handles r (p # ps)"
  then show "op_handleDataCommon (registrar_interface E calls) (foldr fetch_add (p # ps) r) p \<noteq> None"
    using release_active(2) [of "foldr fetch_add (p # ps) r" p] by (simp add: registrar_interface_def active_handles_def)
  show "op_releaseHandler (registrar_interface E calls) p (foldr fetch_add (p # ps) r) = Some (foldr fetch_add ps r) \<and> active_handles r ps"
    using u release_active(1) [of "foldr fetch_add (p # ps) r" p]
    by (simp add: registrar_interface_def active_handles_def fetch_add_sub)
qed simp

lemma generic_escaped:
  "generic.escaped E calls cid r r' \<Longrightarrow> \<exists>x xs h ctx b. r' = foldr fetch_add (x # xs) r
     \<and> node r' x = Some h \<and> calls (h_handler h) ctx cid b = None"
  unfolding generic.escaped_def throws_def by (auto simp: registrar_interface_def simp del: foldr.simps)

section \<open>Claims\<close>


definition sample_registrar :: registrar where
  "sample_registrar = snd (registerHandler kNullUuid True 7 100 (snd (registerHandler kNullUuid True 8 101 empty_registrar)))"

definition sample_server :: "registrar server" where
  "sample_server = \<lparr>srv_settings = sample_settings [1] [], srv_dataHandlersRegistrar = Some sample_registrar, srv_isInited = True\<rparr>"

lemma sample_server_simps [simp]:
  "srv_settings sample_server = sample_settings [1] []" "srv_dataHandlersRegistrar sample_server = Some sample_registrar"
  "srv_isInited sample_server" "registrar_good sample_registrar"
  by (simp_all add: sample_server_def sample_registrar_def registrar_good_def map_inv_def registerHandler_def
      empty_registrar_def)


end
