(* ===== verification/Exchange.thy ===== *)
theory Exchange
  imports Client ServerSpec
begin

text \<open>
  Client and server together: the communicator hands the client's octets to a server and its
  reply back, as in \<open>unit_tests/ComplexTests.cpp\<close>. Asking for the server's settings and protocol
  versions, and the initialisation of a client from them.
\<close>

section \<open>The communicator\<close>

text \<open>
  The request is copied into a walker. That \<open>handleMessage\<close> does not return happens over the
  registrar only when a handler throws (\<open>ServerSpec\<close>); the answer given in that case is
  arbitrary, no statement rests on it.
\<close>

definition server_peer ::
    "env \<Rightarrow> 'r registrar_ops \<Rightarrow> (nat \<Rightarrow> nat) \<Rightarrow> (nat \<Rightarrow> nat) \<Rightarrow> client_id \<Rightarrow> 'r server communicator" where
  "server_peer E R p q clientId input output s =
     (let (_, inputW) = walker_init_vector E octet False (empty_walker (StrategicManager DoubleOfDataSize)) input
      in case server_handleMessage E R p q s inputW clientId output of
           Returned (st, _, output, s) \<Rightarrow> (st, output, s)
         | Thrown s \<Rightarrow> (ErrorInternal, output, s)
         | Undefined \<Rightarrow> (ErrorInternal, output, s))"

lemma request_walker:
  assumes "vec_rep input bs" "\<not> memory_out E" "length bs < 2 ^ 63"
  shows "\<exists>st w. walker_init_vector E octet False (empty_walker m) input = (st, w) \<and> walker_rep w bs 0"
proof -
  have "\<exists>v. vec_init_copy E (raw_elem (Suc 0)) False (empty_vec m) input = (NoError, v) \<and> vec_rep v bs"
    using raw.init_copy_ok [OF vec_rep_empty assms(1), of 0 E] assms(2,3) by (auto simp: memory_out_def)
  then obtain v where "vec_init_copy E (raw_elem (Suc 0)) False (empty_vec m) input = (NoError, v)" "vec_rep v bs" by blast
  then show ?thesis
    by (simp add: walker_init_vector_def empty_walker_def octet_eq run_as_def walker_rep_def)
qed

section \<open>Messages over contexts made for them\<close>

lemma scommon_new_rep: "vec_rep out bs \<Longrightarrow> vec_rep (m_binaryData (scommon_new E out pv mt cf)) bs"
  using reserve256 [of out bs E] by (simp add: scommon_new_def common_new_def setCommonFlags_def)

lemma header_sent:
  assumes "\<not> memory_out E" "vec_rep out bs" "length bs < 2 ^ 62" "cf_valid cf"
  shows "\<exists>b. common_serializeNoChecks E (scommon_new E out pv mt cf) = (NoError, (scommon_new E out pv mt cf)\<lparr>m_binaryData := b\<rparr>)
     \<and> vec_rep b (bs @ common_header pv mt cf)"
  using emits_total [OF emits_common_serializeNoChecks assms(1) scommon_new_rep [OF assms(2)], of E pv mt cf] assms(3,4)
  by (simp add: scommon_new_fields)

lemma checked_header_sent:
  assumes "\<not> memory_out E" "vec_rep out bs" "length bs < 2 ^ 62" "cf_valid cf" "isProtocolVersionSupported pv"
    and "cf_bigEndianFormat cf = big_endian E \<or> cf_endiannessDifference cf"
  shows "\<exists>b. common_serialize E (scommon_new E out pv mt cf) = (NoError, (scommon_new E out pv mt cf)\<lparr>m_binaryData := b\<rparr>)
     \<and> vec_rep b (bs @ common_header pv mt cf)"
  using header_sent [OF assms(1-4), of pv mt] assms(5,6)
    common_serialize_eq [of "scommon_new E out pv mt cf" E "m_binaryData (scommon_new E out pv mt cf)"]
  by (auto simp: scommon_new_fields)

lemma cf_default_simps [simp]:
  "cf_bigEndianFormat (cf_default False be) = be" "\<not> cf_endiannessDifference (cf_default False be)"
  by (simp_all add: cf_default_def cf_bigEndianFormat_def cf_endiannessDifference_def kBigEndianFormat_def kEndiannessDifference_def)

lemma getCommonFlags_bin [simp]: "getCommonFlags (c\<lparr>m_binaryData := b\<rparr>) = getCommonFlags c"
  by (simp add: getCommonFlags_def)

text \<open>The part of a context that a message of another party decides.\<close>

lemma common_deserialize_new:
  assumes "walker_rep w bs 0" "length bs < 2 ^ 63" "take 8 bs = common_header pv mt cf" "cf_valid cf"
    and "message_of_word (message_word mt) = mt" "minv \<le> pv" "isProtocolVersionSupported pv"
    and "cf_bigEndianFormat cf = big_endian E \<or> cf_endiannessDifference cf"
  shows "\<exists>ctx. common_deserialize E (dcommon_new E w minv mt0 cf0) = (NoError, ctx)
     \<and> m_protocolVersion ctx = pv \<and> m_messageType ctx = mt \<and> getCommonFlags ctx = cf
     \<and> common_inv (big_endian E) ctx \<and> m_bigEndianFormat ctx = cf_bigEndianFormat cf \<and> walker_rep (m_binaryData ctx) bs 8"
proof -
  let ?d = "dcommon_new E w minv mt0 cf0"
  have d: "m_binaryData ?d = w" "m_protocolVersion ?d = minv"
    by (simp_all add: dcommon_new_def common_new_def setCommonFlags_def)
  obtain w' where w': "common_deserialize E ?d = (NoError, setCommonFlags (big_endian E)
       (setMessageType (setProtocolVersion (?d\<lparr>m_binaryData := w'\<rparr>) pv) mt) cf)" "walker_rep w' bs 8"
    using common_deserialize_ok [of ?d bs 0 pv mt cf E] assms d by (auto simp: isProtocolVersionSupported_iff)
  then show ?thesis
    using assms(4) by (simp add: ctx_simps getCommonFlags_set)
      (simp add: setCommonFlags_def setMessageType_def setProtocolVersion_def)
qed

lemma sdata_new_fields:
  "m_protocolVersion (sdata_new E out pv cf df h iv pm) = pv" "m_messageType (sdata_new E out pv cf df h iv pm) = Msg_Data"
  "m_interfaceVersion (sdata_new E out pv cf df h iv pm) = iv" "m_dataFlags (sdata_new E out pv cf df h iv pm) = df"
  "m_endiannessDifference (sdata_new E out pv cf df h iv pm) = cf_endiannessDifference cf"
  "m_endiannessNotMatch (sdata_new E out pv cf df h iv pm) = (cf_bigEndianFormat cf \<noteq> big_endian E)"
  "m_checkRecursivePointers (sdata_new E out pv cf df h iv pm) = df_checkRecursivePointers df"
  "m_binaryData (sdata_new E out pv cf df h iv pm) = m_binaryData (scommon_new E out pv Msg_Data cf)"
  "getCommonFlags (sdata_new E out pv cf df h iv pm) = getCommonFlags (scommon_new E out pv Msg_Data cf)"
  by (simp_all add: sdata_new_def data_of_common_def setDataFlags_def getCommonFlags_def common.defs)
    (simp_all add: scommon_new_def common_new_def setCommonFlags_def)

text \<open>Messages of the service interface, in its only version and without data flags.\<close>

lemma service_sendable:
  assumes "cf_valid cf" "cf_bigEndianFormat cf = big_endian E \<or> cf_endiannessDifference cf" "isProtocolVersionSupported pv"
    and T: "T = service_info (big_endian E) i" and c: "c = sdata_new E out pv cf df_default h 1 None"
  shows "sendable E T c" and "latest_form T (mode_of c)"
proof -
  have f: "testDataFlagsCompatibility (Some T) df_default = NoError"
    by (simp add: T testDataFlagsCompatibility_def getEffectiveMandatoryDataFlags_def getEffectiveForbiddenDataFlags_def service_info_def
       service_properties_def getInterface_def df_default_def df_and_def df_or_word_def df_bool_def df_eq_def df_or_def df_of_def)
  have b: "body_ctx E c"
    using assms(1-3) sdata_new_inv [of E out pv cf df_default h 1 None]
    by (auto simp: body_ctx_def c sdata_new_fields df_default_def df_checkRecursivePointers_def)
  show "sendable E T c"
    using b f assms(3) by (simp add: sendable_def data_ok_def c sdata_new_fields T service_info_def service_properties_def
      kInterfaceVersionUndefined_def df_default_def df_valid_def df_checkRecursivePointers_def
      isInterfaceVersionSupported_def getOriginPrivateVersion_def getPrivateVersionsCount_def getInterface_def
      getLatestInterfaceVersion_def)
  show "latest_form T (mode_of c)"
    using f by (simp add: latest_form_def mode_of_def c sdata_new_fields T service_info_def getBestCompatInterfaceVersion_def
      getPrivateVersionsCount_def getLatestPrivateVersion_def)
qed

context codec
begin

lemma message_sent:
  assumes "sendable E T c" "rep x m" "ok (mode_of c) m" "\<not> memory_out E" "vec_rep (m_binaryData c) bs"
    and "length bs + 32 + length (enc (mode_of c) m) < 2 ^ 62"
  shows "\<exists>b. iserializable_serialize E T (ser x) c = (NoError, c\<lparr>m_binaryData := b\<rparr>)
     \<and> vec_rep b (bs @ data_message (big_endian E) T c (enc (mode_of c) m))"
proof -
  have "body_ctx E c" using assms(1) by (simp add: sendable_def)
  then show ?thesis
    using emits_total [OF emits_iserializable [OF assms(1) ser_emits [OF _ assms(2,3)]] assms(4,5)] assms(6)
    by (simp add: data_message_def)
qed

text \<open>\<open>ISerializable::deserialize\<close> from a container that holds nothing but the message.\<close>

lemma message_read:
  assumes s: "sendable E T c" and r: "rep x m" and o: "ok (mode_of c) m" and i: "init old" and mem: "\<not> memory_out E"
    and l: "32 + length (enc (mode_of c) m) < 2 ^ 62"
    and w: "walker_rep w (data_message (big_endian E) T c (enc (mode_of c) m)) 0"
    and v: "m_protocolVersion c = getLatestProtocolVersion" "getOriginPrivateVersion T \<le> m_interfaceVersion c"
      "\<not> df_allowUnmanagedPointers (m_dataFlags c)" "getOriginPrivateVersion T \<noteq> kInterfaceVersionUndefined"
  shows "\<exists>w' y. iserializable_deserialize_from E T des w old = (NoError, w', y) \<and> rep y m"
proof -
  let ?d = "ddata_new E w getLatestProtocolVersion (cf_default False (big_endian E)) df_default True (getOriginPrivateVersion T) None None"
  have d: "m_protocolVersion ?d = getLatestProtocolVersion" "m_interfaceVersion ?d = getOriginPrivateVersion T" "m_binaryData ?d = w"
    by (simp_all add: ddata_new_def data_of_common_def setDataFlags_def common.defs dcommon_new_def common_new_def setCommonFlags_def)
  let ?c = "c\<lparr>m_binaryData := empty_vec GenericManager\<rparr>"
  have "sendable E T ?c" using s by (simp add: sendable_def)
  moreover have "data_message (big_endian E) T ?c xs = data_message (big_endian E) T c xs" for xs
    by (simp add: data_message_def)
  moreover have "accepts T ?c ?d" using v d by (simp add: accepts_def)
  ultimately obtain w' y where "iserializable_deserialize E T des ?d old = (NoError, (received E ?c ?d)\<lparr>m_binaryData := w'\<rparr>, y)" "rep y m"
    using message_roundtrip [of T ?c ?d x m old "[]"] r o i mem l w d by (auto simp: vec_rep_empty)
  then show ?thesis by (simp add: iserializable_deserialize_from_def)
qed

end

section \<open>Asking for the settings\<close>

text \<open>
  Settings a server can send: its mandatory flags name a byte order it can use, and interfaces
  only go without the flag for differing byte orders (\<open>interfaces_lost\<close> in \<open>StructCodec\<close>).
\<close>

definition sendable_settings :: "bool \<Rightarrow> settings_value \<Rightarrow> bool" where
  "sendable_settings be m \<longleftrightarrow> length (sv_protocolVersions m) < 256 \<and> length (sv_interfaces m) < 2 ^ 32
     \<and> cf_valid (sv_mandatory m) \<and> cf_valid (sv_forbidden m)
     \<and> (cf_bigEndianFormat (sv_mandatory m) = be \<or> cf_endiannessDifference (sv_mandatory m))
     \<and> (sv_interfaces m \<noteq> [] \<longrightarrow> \<not> cf_endiannessDifference (sv_mandatory m))"

abbreviation settings_reply_ctx :: "env \<Rightarrow> byte vec \<Rightarrow> settings_value \<Rightarrow> sdata" where
  "settings_reply_ctx E out m \<equiv> sdata_new E out 1 (sv_mandatory m) df_default True 1 None"

definition settings_reply :: "env \<Rightarrow> settings_value \<Rightarrow> byte list" where
  "settings_reply E m = (let c = settings_reply_ctx E bin_new m in
     data_message (big_endian E) (CspPartySettings_info (big_endian E)) c (enc_settings (big_endian E) (mode_of c) m))"

lemma mode_of_sdata_new: "mode_of (sdata_new E out pv cf df h iv pm) = mode_of (sdata_new E out' pv cf df h iv pm)"
  by (simp add: mode_of_def sdata_new_def data_of_common_def setDataFlags_def scommon_new_def common_new_def setCommonFlags_def common.defs)

lemma settings_reply_eq:
  assumes "cf_valid (sv_mandatory m)"
  shows "data_message (big_endian E) (CspPartySettings_info (big_endian E)) (settings_reply_ctx E out m)
     (enc_settings (big_endian E) (mode_of (settings_reply_ctx E out m)) m) = settings_reply E m"
  using assms mode_of_sdata_new [of E out 1 "sv_mandatory m" df_default True 1 None bin_new]
  by (simp add: settings_reply_def data_message_def sdata_new_fields mode_simps scommon_new_fields Let_def)

lemma settings_reply_form:
  assumes "sendable_settings (big_endian E) m" and c: "c = settings_reply_ctx E out m"
  shows "sendable E (CspPartySettings_info (big_endian E)) c" "ok_settings (big_endian E) (mode_of c) m"
proof -
  have s: "sendable E (CspPartySettings_info (big_endian E)) c" "latest_form (CspPartySettings_info (big_endian E)) (mode_of c)"
    using assms service_sendable [of "sv_mandatory m" E 1 "CspPartySettings_info (big_endian E)" _ c out True]
    by (auto simp: sendable_settings_def CspPartySettings_info_def isProtocolVersionSupported_iff)
  then show "sendable E (CspPartySettings_info (big_endian E)) c" by simp
  have "copies_mode (InterfaceVersion_type (big_endian E)) (mode_of c)" if "\<not> cf_endiannessDifference (sv_mandatory m)"
    using that
    by (simp add: copies_mode_def c mode_of_def sdata_new_fields InterfaceVersion_type_def type_latestInterfaceVersion_def
        InterfaceVersion_info_def service_info_def getLatestInterfaceVersion_def getInterface_def service_properties_def df_default_def
        df_simplyAssignableTagsOptimizationsAreTurnedOff_def df_sizeOfIntegersMayBeNotEqual_def)
  then show "ok_settings (big_endian E) (mode_of c) m"
    using s(2) assms by (auto simp: ok_settings_def sendable_settings_def fits_def iv_elem_def raw_elem_def ok_size_def
        unat_of_nat take_bit_nat_eq_self)
qed

lemma settings_reply_length: "sendable_settings (big_endian E) m \<Longrightarrow> 32 \<le> length (settings_reply E m) \<and> length (settings_reply E m) < 2 ^ 40"
  using length_enc_settings [of "big_endian E" "mode_of (settings_reply_ctx E bin_new m)" m]
  by (simp add: settings_reply_def data_message_def sendable_settings_def Let_def)

lemma handleGetSettings_ok:
  assumes "malloc_ok E = (\<lambda>_. True)" "sendable_settings (big_endian E) m" "rep_settings settings m" "vec_rep out []"
  shows "\<exists>b. handleGetSettings E p q settings 1 out = (NoError, b) \<and> vec_rep b (settings_reply E m)"
proof -
  have E: "E\<lparr>malloc_ok := \<lambda>_. True\<rparr> = E" using assms(1) by simp
  let ?c = "settings_reply_ctx E out m"
  have mem: "\<not> memory_out E" using assms(1) by (simp add: memory_out_def)
  have v: "cf_valid (sv_mandatory m)" using assms(2) by (simp add: sendable_settings_def)
  have l: "length ([] :: byte list) + 32 + length (enc_settings (big_endian E) (mode_of ?c) m) < 2 ^ 62"
    using length_enc_settings [of "big_endian E" "mode_of ?c" m] assms(2) by (simp add: sendable_settings_def)
  have r: "vec_rep (m_binaryData ?c) []"
    using scommon_new_rep [OF assms(4)] by (simp add: sdata_new_fields)
  obtain b where "iserializable_serialize E (CspPartySettings_info (big_endian E)) (serialize_CspPartySettings E p q settings) ?c
      = (NoError, ?c\<lparr>m_binaryData := b\<rparr>)" "vec_rep b (settings_reply E m)"
    using settings.message_sent [where E = E, unfolded E, OF settings_reply_form(1) [OF assms(2) refl, of out] assms(3)
        settings_reply_form(2) [OF assms(2) refl, of out] mem r l]
      settings_reply_eq [OF v, of E out] by auto
  moreover have "m_mandatoryCommonFlags settings = sv_mandatory m" using assms(3) by (simp add: rep_settings_def)
  ultimately show ?thesis by (auto simp: handleGetSettings_def)
qed

lemma oldest_version:
  assumes "rep_settings s m" "sv_protocolVersions m \<noteq> []"
  shows "settings_getOldestProtocolVersion s = last (sv_protocolVersions m)"
proof -
  have v: "vec_rep (m_protocolVersions s) (sv_protocolVersions m)" using assms(1) by (simp add: rep_settings_def)
  then have u: "unat (vec_size (m_protocolVersions s)) = length (sv_protocolVersions m)"
    by (simp add: vec_rep_def vec_size_def)
  then have "vec_size (m_protocolVersions s) \<noteq> 0" using assms(2) by auto
  moreover from this have "unat (vec_size (m_protocolVersions s) - 1) = length (sv_protocolVersions m) - 1"
    using u by (simp add: unat_minus_one)
  ultimately show ?thesis
    using v assms(2) by (simp add: settings_getOldestProtocolVersion_def vec_rep_objects last_conv_nth)
qed

lemma vec_size_zero: "vec_rep v xs \<Longrightarrow> vec_size v = 0 \<longleftrightarrow> xs = []"
  by (auto simp: vec_rep_def vec_size_def unat_eq_0)

lemma handleMessage_GetSettings:
  assumes E: "malloc_ok E = (\<lambda>_. True)" "sendable_settings (big_endian E) m" "rep_settings settings m" "vec_rep out xs"
    and v: "sv_protocolVersions m \<noteq> []" "last (sv_protocolVersions m) \<le> 1"
    and w: "walker_rep w (common_header 1 Msg_GetSettings cf) 0" "cf_valid cf"
      "cf_bigEndianFormat cf = big_endian E \<or> cf_endiannessDifference cf"
  shows "\<exists>w' b. handleMessage E R p q settings w cid out r = Returned (NoError, w', b, r) \<and> vec_rep b (settings_reply E m)"
proof -
  obtain ctx where c: "common_deserialize E (dcommon_new E w (settings_getOldestProtocolVersion settings) Msg_Data
      (cf_default False (big_endian E))) = (NoError, ctx)" "m_protocolVersion ctx = 1" "m_messageType ctx = Msg_GetSettings"
    using common_deserialize_new [OF w(1) _ _ w(2) _ _ _ w(3), where pv = 1 and minv = "settings_getOldestProtocolVersion settings"
        and mt = Msg_GetSettings and ?mt0.0 = Msg_Data and ?cf0.0 = "cf_default False (big_endian E)"] v oldest_version [OF E(3) v(1)]
    by (auto simp: isProtocolVersionSupported_iff message_of_word_def)
  obtain b where b: "handleGetSettings E p q settings 1 (vec_clear octet out) = (NoError, b)" "vec_rep b (settings_reply E m)"
    using handleGetSettings_ok [OF E(1-3), of "vec_clear octet out" p q] raw.clear_ok(1) [OF E(4), of 0] by (auto simp: octet_eq)
  have "vec_size b \<noteq> 0" using vec_size_zero [OF b(2)] settings_reply_length [OF E(2)] by auto
  then show ?thesis using c b by (simp add: handleMessage_def Let_def)
qed

lemma server_settings_read:
  assumes "malloc_ok E = (\<lambda>_. True)" "sendable_settings (big_endian E) m" "rep_settings x m" "init_settings old"
    and "vec_rep b (settings_reply E m)"
  shows "\<exists>w y. iserializable_deserialize_from E (CspPartySettings_info (big_endian E)) (deserialize_CspPartySettings E p q)
      \<lparr>m_vector = b, m_offset = 0\<rparr> old = (NoError, w, y) \<and> rep_settings y m"
proof -
  have E: "E\<lparr>malloc_ok := \<lambda>_. True\<rparr> = E" using assms(1) by simp
  let ?c = "settings_reply_ctx E bin_new m"
  have mem: "\<not> memory_out E" using assms(1) by (simp add: memory_out_def)
  have l: "32 + length (enc_settings (big_endian E) (mode_of ?c) m) < 2 ^ 62"
    using length_enc_settings [of "big_endian E" "mode_of ?c" m] assms(2) by (simp add: sendable_settings_def)
  have w: "walker_rep \<lparr>m_vector = b, m_offset = 0\<rparr> (data_message (big_endian E) (CspPartySettings_info (big_endian E)) ?c
      (enc_settings (big_endian E) (mode_of ?c) m)) 0"
    using assms(5) by (simp add: walker_rep_def settings_reply_def Let_def)
  show ?thesis
    by (rule settings.message_read [where E = E, unfolded E, OF settings_reply_form(1) [OF assms(2) refl, of bin_new] assms(3)
        settings_reply_form(2) [OF assms(2) refl, of bin_new] assms(4) mem l w])
      (simp_all add: sdata_new_fields df_default_def df_allowUnmanagedPointers_def getOriginPrivateVersion_def CspPartySettings_info_def
        service_info_def kInterfaceVersionUndefined_def getPrivateVersionsCount_def)
qed

text \<open>A server with these settings that a client can talk to in the current protocol version.\<close>

definition serves :: "env \<Rightarrow> 'r server \<Rightarrow> settings_value \<Rightarrow> bool" where
  "serves E s m \<longleftrightarrow> srv_isInited s \<and> srv_dataHandlersRegistrar s \<noteq> None \<and> rep_settings (srv_settings s) m
     \<and> sendable_settings (big_endian E) m \<and> sv_protocolVersions m \<noteq> [] \<and> last (sv_protocolVersions m) \<le> 1"

lemma server_peer_eq:
  assumes "\<not> memory_out E" "srv_isInited s" "srv_dataHandlersRegistrar s = Some r" "vec_rep input bs" "length bs < 2 ^ 63"
    and "\<And>w. walker_rep w bs 0 \<Longrightarrow> \<exists>w' b. handleMessage E R p q (srv_settings s) w cid out r = Returned (st, w', b, r) \<and> P b"
  shows "\<exists>b. server_peer E R p q cid input out s = (st, b, s) \<and> P b"
proof -
  obtain st0 w where w: "walker_init_vector E octet False (empty_walker (StrategicManager DoubleOfDataSize)) input = (st0, w)"
    "walker_rep w bs 0" using request_walker [OF assms(4,1,5)] by blast
  obtain w' b where "handleMessage E R p q (srv_settings s) w cid out r = Returned (st, w', b, r)" "P b"
    using assms(6) [OF w(2)] by blast
  moreover from assms(3) have "s\<lparr>srv_dataHandlersRegistrar := Some r\<rparr> = s" by (cases s) simp
  ultimately show ?thesis using w(1) assms(2,3) by (simp add: server_peer_def server_handleMessage_def)
qed

lemma bin_new_rep [simp]: "vec_rep bin_new []"
  by (simp add: bin_new_def vec_rep_empty)

lemma getServerSettings_ok:
  assumes "malloc_ok E = (\<lambda>_. True)" "serves E s m" "init_settings old"
  shows "\<exists>y. getServerSettings E p q (server_peer E R p' q' cid) 1 old s = (NoError, y, s) \<and> rep_settings y m"
proof -
  have mem: "\<not> memory_out E" using assms(1) by (simp add: memory_out_def)
  obtain r where s: "srv_isInited s" "srv_dataHandlersRegistrar s = Some r" "rep_settings (srv_settings s) m"
    "sendable_settings (big_endian E) m" "sv_protocolVersions m \<noteq> []" "last (sv_protocolVersions m) \<le> 1"
    using assms(2) by (auto simp: serves_def)
  let ?cf = "cf_default False (big_endian E)"
  let ?c = "scommon_new E bin_new 1 Msg_GetSettings ?cf"
  obtain b where b: "common_serialize E ?c = (NoError, ?c\<lparr>m_binaryData := b\<rparr>)" "vec_rep b (common_header 1 Msg_GetSettings ?cf)"
    using checked_header_sent [OF mem bin_new_rep, of ?cf 1 Msg_GetSettings] by (auto simp: isProtocolVersionSupported_iff cf_valid_ops)
  have "\<exists>w' b'. handleMessage E R p' q' (srv_settings s) w cid bin_new r = Returned (NoError, w', b', r) \<and> vec_rep b' (settings_reply E m)"
    if "walker_rep w (common_header 1 Msg_GetSettings ?cf) 0" for w
    by (rule handleMessage_GetSettings [OF assms(1) s(4,3) bin_new_rep s(5,6) that]) (simp_all add: cf_valid_ops)
  then obtain b' where b': "server_peer E R p' q' cid b bin_new s = (NoError, b', s)" "vec_rep b' (settings_reply E m)"
    using server_peer_eq [OF mem s(1,2) b(2), of R p' q' cid bin_new NoError "\<lambda>b. vec_rep b (settings_reply E m)"] by auto
  obtain w y where "iserializable_deserialize_from E (CspPartySettings_info (big_endian E)) (deserialize_CspPartySettings E p q)
      \<lparr>m_vector = b', m_offset = 0\<rparr> old = (NoError, w, y)" "rep_settings y m"
    using server_settings_read [OF assms(1) s(4,3) assms(3) b'(2)] by blast
  then show ?thesis using b b' by (simp add: getServerSettings_def)
qed

section \<open>Asking for the protocol versions\<close>

lemma protocol_versions_read:
  assumes i: "common_inv (big_endian E) c" and w: "walker_rep (m_binaryData c) bs k" and l: "length bs < 2 ^ 62"
    and d: "drop k bs = of_nat (length vs) # vs" and v: "vs \<noteq> []" "length vs < 256"
    and mem: "\<not> memory_out E" and out: "vec_rep value xs"
  shows "\<exists>c' out'. body_deserializeErrorNotSupportedProtocolVersion E c value = (NoError, c', out') \<and> vec_rep out' vs"
proof -
  let ?n = "length vs"
  have lb: "length bs < 2 ^ 63" using l by simp
  have k: "k + 1 + ?n = length bs" using arg_cong [OF d, of length] by simp
  then have k1: "1 \<le> length bs - k" by simp
  have t: "take 1 (drop k bs) = obj_bytes (m_bigEndianFormat c) (of_nat ?n :: byte)" using d by simp
  obtain w1 where r1: "readPrimitive E (c\<lparr>m_binaryData := m_binaryData c\<rparr>) (0 :: byte)
      = (NoError, c\<lparr>m_binaryData := w1\<rparr>, of_nat ?n)" "walker_rep w1 bs (k + 1)"
    using parsesD [OF parses_readPrimitive [of E c "0 :: byte" "of_nat ?n"] w lb] i t k1 by auto
  have un: "unat (of_nat ?n :: byte) = ?n" "unat (ucast (of_nat ?n :: byte) :: size_t) = ?n"
    using v(2) by (simp_all add: unat_of_nat take_bit_nat_eq_self unat_ucast_up)
  let ?m = "ucast (of_nat ?n :: byte) :: size_t"
  have c0: "vec_rep (vec_clear octet value) []" using raw.clear_ok(1) [OF out, of 0] by (simp add: octet_eq)
  have "\<exists>v1. vec_reserveInternal E octet (vec_clear octet value) ?m True = (NoError, v1) \<and> vec_rep v1 [] \<and> ?m \<le> m_allocatedSize v1"
    using raw.reserveInternal_ok [OF c0, of 0 ?m E True] un(2) v(2) mem
    by (auto simp: octet_eq memory_out_def)
  then obtain v1 where v1: "vec_reserve E octet (vec_clear octet value) ?m = (NoError, v1)" "vec_rep v1 []" "?m \<le> m_allocatedSize v1"
    by (auto simp: vec_reserve_def)
  have al: "?n \<le> unat (m_allocatedSize v1)" using v1(3) un(2) by (simp add: word_le_nat_alt)
  then obtain ds where ds: "m_p v1 = Cells ds" "length ds = unat (m_allocatedSize v1)"
    using v(1) by (cases rule: vec_rep_storage [OF v1(2)]) auto
  obtain w2 where r2: "readRawData E 1 (c\<lparr>m_binaryData := w1\<rparr>) ?m (Cells ds)
      = (NoError, c\<lparr>m_binaryData := w2\<rparr>, Cells (map Obj vs @ drop ?n ds))"
    using readRawData_ok(1) [of "c\<lparr>m_binaryData := w1\<rparr>" bs "k + 1" ?n 1 ?m ds E] r1(2) lb un(2) v(2) k al ds(2)
      arg_cong [OF d, of tl] by (auto simp: tl_drop drop_Suc)
  let ?v2 = "v1\<lparr>m_p := Cells (map Obj vs @ drop ?n ds)\<rparr>"
  have s: "vec_setSize E octet ?v2 ?m = (NoError, ?v2\<lparr>m_dataSize := ?m\<rparr>)"
    using leD [OF v1(3)] by (simp add: vec_setSize_def vec_reserveInternal_def run_simps)
  have "vec_rep (?v2\<lparr>m_dataSize := ?m\<rparr>) vs"
    using al ds(2) un(2) by (simp add: vec_rep_def vec_cells_def)
  then show ?thesis
    using r1(1) v1(1) r2 s ds(1)
    by (simp add: body_deserializeErrorNotSupportedProtocolVersion_def run_simps vec_data_def Let_def)
qed

definition versions_reply :: "byte list \<Rightarrow> common_flags \<Rightarrow> byte list" where
  "versions_reply vs cf = common_header kProtocolVersionUndefined Msg_Status cf
     @ obj_bytes (cf_bigEndianFormat cf) (status_word ErrorNotSupportedProtocolVersion) @ of_nat (length vs) # vs"

lemma versions_reply_sent:
  assumes "\<not> memory_out E" "vec_rep out []" "length vs < 256" "cf_valid cf"
  shows "\<exists>b. serializeErrorNotSupportedProtocolVersion E out vs cf = (NoError, b) \<and> vec_rep b (versions_reply vs cf)"
proof -
  let ?c = "scommon_new E out kProtocolVersionUndefined Msg_Status cf"
  have "emits E (\<lambda>c. run (serializeFullContext E c ErrorNotSupportedProtocolVersion True)
      (\<lambda>c. body_serializeErrorNotSupportedProtocolVersion E c vs))
      (status_message ?c ErrorNotSupportedProtocolVersion @ of_nat (length vs) # vs) ?c"
    using assms(3) by (intro emits_run emits_serializeFullContext emits_body_NotSupportedProtocolVersion) (simp_all add: scommon_new_fields)
  from emits_total [OF this assms(1) scommon_new_rep [OF assms(2)]] assms(3,4)
  show ?thesis
    by (fastforce simp: serializeErrorNotSupportedProtocolVersion_def status_message_def versions_reply_def scommon_new_fields)
qed

lemma handleMessage_unknown_version:
  assumes "\<not> memory_out E" "rep_settings settings m" "length (sv_protocolVersions m) < 256" "cf_valid (sv_mandatory m)"
    and out: "vec_rep out xs" and w: "walker_rep w bs 0" "take 2 bs = obj_bytes False (ucast pv :: u16)" "length bs < 2 ^ 63"
    and pv: "getLatestProtocolVersion < pv"
  shows "\<exists>w' b. handleMessage E R p q settings w cid out r = Returned (NoError, w', b, r)
     \<and> vec_rep b (versions_reply (sv_protocolVersions m) (sv_mandatory m))"
proof -
  let ?d = "dcommon_new E w (settings_getOldestProtocolVersion settings) Msg_Data (cf_default False (big_endian E))"
  have "walker_rep (m_binaryData ?d) bs 0" using w(1) by (simp add: dcommon_new_def common_new_def setCommonFlags_def)
  moreover have "2 \<le> length bs" using arg_cong [OF w(2), of length] by simp
  moreover have "pv = ucast (obj_value False (take 2 bs) :: u16)" by (simp add: w(2) byte_of_u16 obj_value_bytes)
  ultimately have "fst (common_deserialize E ?d) = ErrorNotSupportedProtocolVersion"
    using common_deserialize_refuses(2) [of ?d bs 0 pv E] w(3) pv by simp
  then obtain ctx where c: "common_deserialize E ?d = (ErrorNotSupportedProtocolVersion, ctx)" by (metis prod.collapse)
  obtain b where b: "serializeErrorNotSupportedProtocolVersion E (vec_clear octet out) (sv_protocolVersions m) (sv_mandatory m)
      = (NoError, b)" "vec_rep b (versions_reply (sv_protocolVersions m) (sv_mandatory m))"
    using versions_reply_sent [OF assms(1) _ assms(3,4), of "vec_clear octet out"] raw.clear_ok(1) [OF out, of 0] by (auto simp: octet_eq)
  have "vec_size b \<noteq> 0" using vec_size_zero [OF b(2)] by (simp add: versions_reply_def)
  moreover have "m_mandatoryCommonFlags settings = sv_mandatory m" "vec_objects (m_protocolVersions settings) = sv_protocolVersions m"
    using assms(2) by (simp_all add: rep_settings_def vec_rep_objects)
  ultimately show ?thesis using b c by (simp add: handleMessage_def Let_def)
qed

lemma status_of_version_error: "status_of_word (status_word ErrorNotSupportedProtocolVersion) = ErrorNotSupportedProtocolVersion"
  by code_simp

lemma getServerProtocolVersions_ok:
  assumes "\<not> memory_out E" "serves E s m" "vec_rep outp xs"
  shows "\<exists>v. getServerProtocolVersions E (server_peer E R p q cid) outp s = (NoError, v, s) \<and> vec_rep v (sv_protocolVersions m)"
proof -
  obtain r where s: "srv_isInited s" "srv_dataHandlersRegistrar s = Some r" "rep_settings (srv_settings s) m"
    "length (sv_protocolVersions m) < 256" "cf_valid (sv_mandatory m)" "sv_protocolVersions m \<noteq> []"
    using assms(2) by (auto simp: serves_def sendable_settings_def)
  let ?cf = "cf_default False (big_endian E)"
  let ?c = "scommon_new E bin_new kProtocolVersionUndefined Msg_Data ?cf"
  let ?h = "common_header kProtocolVersionUndefined Msg_Data ?cf"
  let ?vs = "sv_protocolVersions m"
  let ?ms = "versions_reply ?vs (sv_mandatory m)"
  obtain b where b: "common_serializeNoChecks E ?c = (NoError, ?c\<lparr>m_binaryData := b\<rparr>)" "vec_rep b ?h"
    using header_sent [OF assms(1) bin_new_rep, of ?cf kProtocolVersionUndefined Msg_Data] by (auto simp: cf_valid_ops)
  have t: "take 2 ?h = obj_bytes False (ucast kProtocolVersionUndefined :: u16)"
    by (simp add: common_header_def obj_bytes_def unat_ucast_up)
  have "\<exists>w' b'. handleMessage E R p q (srv_settings s) w cid bin_new r = Returned (NoError, w', b', r) \<and> vec_rep b' ?ms"
    if "walker_rep w ?h 0" for w
    by (rule handleMessage_unknown_version [OF assms(1) s(3-5) bin_new_rep that t])
       (simp_all add: kProtocolVersionUndefined_def)
  then obtain b' where b': "server_peer E R p q cid b bin_new s = (NoError, b', s)" "vec_rep b' ?ms"
    using server_peer_eq [OF assms(1) s(1,2) b(2), of R p q cid bin_new NoError "\<lambda>b. vec_rep b ?ms"] by auto
  let ?d = "dcommon_new E \<lparr>m_vector = b', m_offset = 0\<rparr> getLatestProtocolVersion Msg_Data ?cf"
  have len: "length ?ms < 2 ^ 62" using s(4) by (simp add: versions_reply_def)
  have w0: "walker_rep (m_binaryData ?d) ?ms 0"
    using b'(2) by (simp add: dcommon_new_def common_new_def setCommonFlags_def walker_rep_def)
  obtain ctx where c: "common_deserializeNoChecks E ?d = (NoError, ctx)" "m_messageType ctx = Msg_Status"
    "m_bigEndianFormat ctx = cf_bigEndianFormat (sv_mandatory m)" "common_inv (big_endian E) ctx" "walker_rep (m_binaryData ctx) ?ms 8"
    using common_deserializeNoChecks_ok [OF w0, of kProtocolVersionUndefined Msg_Status "sv_mandatory m" E] s(5) len
    by (auto simp: versions_reply_def message_of_word_def setCommonFlags_def setMessageType_def common_inv_def)
  obtain ctx' where c': "status_deserialize E ctx NoError = (NoError, ctx', ErrorNotSupportedProtocolVersion)"
    "m_bigEndianFormat ctx' = cf_bigEndianFormat (sv_mandatory m)" "common_inv (big_endian E) ctx'" "walker_rep (m_binaryData ctx') ?ms 12"
    using parsesD [OF parses_status_deserialize [OF c(4), of NoError ErrorNotSupportedProtocolVersion] c(5)] len c(3,4)
    by (force simp: versions_reply_def status_of_version_error ctx_simps)
  have d: "drop 12 ?ms = of_nat (length ?vs) # ?vs" by (simp add: versions_reply_def)
  obtain c2 v where v: "body_deserializeErrorNotSupportedProtocolVersion E ctx' outp = (NoError, c2, v)" "vec_rep v ?vs"
    using protocol_versions_read [OF c'(3,4) len d s(6,4) assms(1,3)] by blast
  show ?thesis using b b' c c' v by (simp add: getServerProtocolVersions_def)
qed

section \<open>Initialisation of a client from a server\<close>

lemma has_version_sorted: "sorted_wrt (>) cs \<Longrightarrow> has_version v cs \<longleftrightarrow> v \<in> set cs"
  by (induction cs) (auto dest: order.strict_trans)

lemma choose_version_found:
  "sorted_wrt (>) cs \<Longrightarrow> kProtocolVersionUndefined \<notin> set ss \<Longrightarrow>
   choose_version ss cs = (case find (\<lambda>v. v \<in> set cs) ss of None \<Rightarrow> kProtocolVersionUndefined | Some v \<Rightarrow> v)"
  by (induction ss) (auto simp: has_version_sorted Let_def)

lemma find_first_greatest:
  fixes ss :: "byte list"
  assumes "sorted_wrt (>) ss"
  shows "find P ss = (if \<exists>v \<in> set ss. P v then Some (Max {v \<in> set ss. P v}) else None)"
  using assms
proof (induction ss)
  case (Cons s ss)
  show ?case
  proof (cases "P s")
    case True
    have "Max {v \<in> set (s # ss). P v} = s"
      using Cons.prems True by (intro Max_eqI) (auto simp: less_imp_le)
    then show ?thesis using True by auto
  next
    case False
    then have "{v \<in> set (s # ss). P v} = {v \<in> set ss. P v}" by auto
    then show ?thesis using Cons False by simp
  qed
qed simp

lemma choose_version_max:
  assumes "sorted_wrt (>) ss" "sorted_wrt (>) cs" "kProtocolVersionUndefined \<notin> set ss"
  shows "choose_version ss cs
    = (if set ss \<inter> set cs = {} then kProtocolVersionUndefined else Max (set ss \<inter> set cs))"
proof -
  have "{v \<in> set ss. v \<in> set cs} = set ss \<inter> set cs" by auto
  then show ?thesis
    by (auto simp: choose_version_found [OF assms(2,3)] find_first_greatest [OF assms(1)])
qed

lemma settings_clear_rep:
  assumes "init_settings s"
  shows "vec_rep (m_protocolVersions (settings_clear be s)) []" "vec_rep (m_interfaces (settings_clear be s)) []"
proof -
  obtain m where "rep_settings s m" using assms by (auto simp: init_settings_def)
  then have m: "vec_rep (m_protocolVersions s) (sv_protocolVersions m)" "vec_rep (m_interfaces s) (sv_interfaces m)"
    by (simp_all add: rep_settings_def)
  show "vec_rep (m_protocolVersions (settings_clear be s)) []" "vec_rep (m_interfaces (settings_clear be s)) []"
    using raw.clear_ok(1) [OF m(1), of 0] raw.clear_ok(1) [OF m(2), of 19]
    by (simp_all add: settings_clear_def octet_eq iv_elem_def)
qed

lemma rep_settings_valid:
  assumes "rep_settings s m"
  shows "settings_isValid s \<longleftrightarrow> sv_protocolVersions m \<noteq> [] \<and> sv_interfaces m \<noteq> []
     \<and> \<not> cf_bool (cf_and (sv_mandatory m) (sv_forbidden m))"
proof -
  have "vec_rep (m_protocolVersions s) (sv_protocolVersions m)" "vec_rep (m_interfaces s) (sv_interfaces m)"
    using assms by (simp_all add: rep_settings_def)
  then have "vec_size (m_protocolVersions s) = 0 \<longleftrightarrow> sv_protocolVersions m = []" "vec_size (m_interfaces s) = 0 \<longleftrightarrow> sv_interfaces m = []"
    by (simp_all add: vec_size_zero)
  then show ?thesis using assms by (auto simp: settings_isValid_def rep_settings_def word_gt_0)
qed

lemma init_from_server_ok:
  assumes E: "malloc_ok E = (\<lambda>_. True)" and s: "serves E s ms" and c: "\<not> cl_isValid c" "init_settings (cl_settings c)"
    and cs: "rep_settings clientSettings mc" "settings_isValid clientSettings" "length (sv_protocolVersions mc) < 2 ^ 57"
      "length (sv_interfaces mc) < 2 ^ 57"
    and srt: "sorted_wrt (>) (sv_protocolVersions ms)" "sorted_wrt (>) (sv_protocolVersions mc)"
    and v: "Max (set (sv_protocolVersions ms) \<inter> set (sv_protocolVersions mc)) = 1"
      "set (sv_protocolVersions ms) \<inter> set (sv_protocolVersions mc) \<noteq> {}" "kProtocolVersionUndefined \<notin> set (sv_protocolVersions ms)"
    and old: "init_settings old"
    and m: "m = \<lparr>sv_protocolVersions = filter (\<lambda>v. v \<in> set (sv_protocolVersions ms)) (sv_protocolVersions mc),
        sv_mandatory = cf_or (sv_mandatory mc) (sv_mandatory ms), sv_forbidden = cf_or (sv_forbidden mc) (sv_forbidden ms),
        sv_interfaces = common_interfaces (sv_interfaces mc) (sv_interfaces ms)\<rparr>"
  shows "\<exists>st c' y. client_init_from_server E p q (server_peer E R p' q' cid) c clientSettings old s = (st, c', y, s)
     \<and> rep_settings y ms
     \<and> st = (if cf_bool (cf_and (sv_mandatory m) (sv_forbidden m)) then ErrorNotCompatibleCommonFlagsSettings
             else if sv_interfaces m = [] then ErrorNoSupportedInterfaces else NoError)
     \<and> (cl_isValid c' \<longleftrightarrow> st = NoError) \<and> (st = NoError \<longrightarrow> rep_settings (cl_settings c') m)"
proof -
  have mem: "\<not> memory_out E" using E by (simp add: memory_out_def)
  obtain vv where vv: "getServerProtocolVersions E (server_peer E R p' q' cid) bin_new s = (NoError, vv, s)"
    "vec_rep vv (sv_protocolVersions ms)" using getServerProtocolVersions_ok [OF mem s bin_new_rep] by blast
  have ch: "choose_version (vec_objects vv) (vec_objects (m_protocolVersions clientSettings)) = 1"
    using choose_version_max [OF srt v(3)] v(1,2) vec_rep_objects [OF vv(2)]
      vec_rep_objects [of "m_protocolVersions clientSettings" "sv_protocolVersions mc"] cs(1) by (simp add: rep_settings_def)
  obtain y where y: "getServerSettings E p q (server_peer E R p' q' cid) 1 old s = (NoError, y, s)" "rep_settings y ms"
    using getServerSettings_ok [OF E s old] by blast
  let ?s = "settings_clear (big_endian E) (cl_settings c)"
  have "\<exists>st' s'. getCompatibleSettings E ?s clientSettings y = (st', s')
    \<and> st' = (if sv_protocolVersions m = [] then ErrorNotSupportedProtocolVersion
       else if cf_bool (cf_and (sv_mandatory m) (sv_forbidden m)) then ErrorNotCompatibleCommonFlagsSettings
       else if sv_interfaces m = [] then ErrorNoSupportedInterfaces else NoError)
    \<and> (st' = NoError \<longrightarrow> rep_settings s' m)"
    using getCompatibleSettings_ok [OF settings_clear_rep [OF c(2)] cs(1) y(2) mem cs(3,4) refl refl refl refl]
    unfolding m settings_value.simps .
  then obtain st' s' where g: "getCompatibleSettings E ?s clientSettings y = (st', s')"
    "st' = (if sv_protocolVersions m = [] then ErrorNotSupportedProtocolVersion
       else if cf_bool (cf_and (sv_mandatory m) (sv_forbidden m)) then ErrorNotCompatibleCommonFlagsSettings
       else if sv_interfaces m = [] then ErrorNoSupportedInterfaces else NoError)"
    "st' = NoError \<longrightarrow> rep_settings s' m" by blast
  have ne: "sv_protocolVersions m \<noteq> []" using v(2) by (auto simp: m filter_empty_conv)
  have "settings_isValid s'" if "st' = NoError"
    using that g(2,3) ne rep_settings_valid [of s' m] by (auto split: if_splits)
  then show ?thesis
    using vv ch y g ne c(1) cs(2)
    by (auto simp: client_init_from_server_def kProtocolVersionUndefined_def Let_def)
qed

section \<open>Claims\<close>

text \<open>
  C2: a client that is not yet valid initialises itself from a server. It asks for the protocol
  versions with a request no server can accept, takes the greatest common version, asks for
  the settings in it and keeps what both accept: the common versions, the union of the
  mandatory and of the forbidden flags, the common interfaces in the smaller version. It is
  valid afterwards exactly when the result is usable, and reports a flag conflict or the lack
  of a common interface otherwise; either way the caller gets the server's own settings. For a
  \<open>malloc\<close> that never fails, parties that list their versions in decreasing order and whose
  greatest common version is the current one, and a server that sends its settings whole
  (\<open>serves\<close>): fewer than 256 versions and no endianness difference among its mandatory flags if it
  has interfaces, which would lose them (C32).
\<close>
theorem client_initialises_from_server:
  assumes "malloc_ok E = (\<lambda>_. True)" "serves E s ms" "\<not> cl_isValid c" "init_settings (cl_settings c)"
    and "rep_settings clientSettings mc" "settings_isValid clientSettings" "length (sv_protocolVersions mc) < 2 ^ 57"
      "length (sv_interfaces mc) < 2 ^ 57"
    and "sorted_wrt (>) (sv_protocolVersions ms)" "sorted_wrt (>) (sv_protocolVersions mc)"
    and "Max (set (sv_protocolVersions ms) \<inter> set (sv_protocolVersions mc)) = 1"
      "set (sv_protocolVersions ms) \<inter> set (sv_protocolVersions mc) \<noteq> {}" "kProtocolVersionUndefined \<notin> set (sv_protocolVersions ms)"
    and "init_settings old"
    and "m = \<lparr>sv_protocolVersions = filter (\<lambda>v. v \<in> set (sv_protocolVersions ms)) (sv_protocolVersions mc),
        sv_mandatory = cf_or (sv_mandatory mc) (sv_mandatory ms), sv_forbidden = cf_or (sv_forbidden mc) (sv_forbidden ms),
        sv_interfaces = common_interfaces (sv_interfaces mc) (sv_interfaces ms)\<rparr>"
  shows "\<exists>st c' y. client_init_from_server E p q (server_peer E R p' q' cid) c clientSettings old s = (st, c', y, s)
     \<and> rep_settings y ms
     \<and> st = (if cf_bool (cf_and (sv_mandatory m) (sv_forbidden m)) then ErrorNotCompatibleCommonFlagsSettings
             else if sv_interfaces m = [] then ErrorNoSupportedInterfaces else NoError)
     \<and> (cl_isValid c' \<longleftrightarrow> st = NoError) \<and> (st = NoError \<longrightarrow> rep_settings (cl_settings c') m)"
  using assms by (rule init_from_server_ok)

definition exchange_server :: "registrar server" where
  "exchange_server = sample_server\<lparr>srv_settings := sample_settings [1] [InterfaceVersion kNullUuid 2]\<rparr>"

lemma exchange_server_serves:
  "serves sample_env exchange_server \<lparr>sv_protocolVersions = [1], sv_mandatory = cf_of 0, sv_forbidden = cf_of 2,
     sv_interfaces = [InterfaceVersion kNullUuid 2]\<rparr>"
  using sample_settings_rep [of "[1]" "[InterfaceVersion kNullUuid 2]"]
  by (simp add: serves_def exchange_server_def sendable_settings_def)
    (simp add: cf_bigEndianFormat_def cf_endiannessDifference_def cf_of_def kEndiannessDifference_def cf_kValidFlagsMask_def)

theorem client_initialises_from_server_witness:
  "\<forall>R p q. \<exists>c' y. client_init_from_server sample_env id id (server_peer sample_env R p q gpk_new) (client_default False)
      (sample_settings [1] [InterfaceVersion kNullUuid 3]) (settings_new False) exchange_server = (NoError, c', y, exchange_server)
     \<and> cl_isValid c' \<and> vec_rep (m_interfaces (cl_settings c')) [InterfaceVersion kNullUuid 2]"
proof -
  let ?c = "sample_settings [1] [InterfaceVersion kNullUuid 3]"
  have i: "init_settings (settings_new False)"
    by (auto simp: init_settings_def rep_settings_def settings_new_def vec_rep_empty
        intro!: exI [of _ "\<lparr>sv_protocolVersions = [], sv_mandatory = cf_default False False, sv_forbidden = cf_default False False, sv_interfaces = []\<rparr>"])
  have f: "\<not> cf_bool (cf_and (cf_of 0) (cf_of 2))" "\<not> cf_bool (cf_and (cf_or (cf_of 0) (cf_of 0)) (cf_or (cf_of 2) (cf_of 2)))"
    by (simp_all add: cf_bool_def cf_and_def cf_or_def cf_of_def)
  have r: "rep_settings ?c \<lparr>sv_protocolVersions = [1], sv_mandatory = cf_of 0, sv_forbidden = cf_of 2, sv_interfaces = [InterfaceVersion kNullUuid 3]\<rparr>"
    using sample_settings_rep [of "[1]" "[InterfaceVersion kNullUuid 3]"] by simp
  have v: "settings_isValid ?c" using rep_settings_valid [OF r] f(1) by simp
  have cd: "\<not> cl_isValid (client_default False)" "init_settings (cl_settings (client_default False))"
    using i by (simp_all add: client_default_def)
  show ?thesis
    using client_initialises_from_server [OF _ exchange_server_serves cd r v _ _ _ _ _ _ _ i refl, of id id] f(2)
    by (fastforce simp: kProtocolVersionUndefined_def common_interfaces_def map_filter_simps rep_settings_def)
qed

text \<open>
  The version a client takes is the greatest one both sides have. Over the lists of both
  parties in decreasing order the nested search, which stops early on either list, finds the
  maximum of the common versions, and the undefined version exactly when there is none.
\<close>
lemma choose_version_greatest:
  assumes "sorted_wrt (>) ss" "sorted_wrt (>) cs" "kProtocolVersionUndefined \<notin> set ss"
  shows "choose_version ss cs
    = (if set ss \<inter> set cs = {} then kProtocolVersionUndefined else Max (set ss \<inter> set cs))"
  using assms by (rule choose_version_max)

lemma choose_version_greatest_witness: "choose_version [9, 5, 3, 1] [8, 5, 4, 3] = 5"
proof -
  have "set [9, 5, 3, 1] \<inter> set [8, 5, 4, 3] = {5, 3 :: byte}" by auto
  moreover have "Max {5, 3 :: byte} = 5" by (simp add: max_def)
  ultimately show ?thesis
    using choose_version_greatest [of "[9, 5, 3, 1]" "[8, 5, 4, 3]"] by (simp add: kProtocolVersionUndefined_def)
qed

text \<open>
  C18: a request in a protocol version newer than any the server knows, whatever is behind the
  version, is answered with the list of the versions the server supports, which a client of
  any byte order reads back whole; no handler is looked up and the status is \<open>NoError\<close>.
\<close>
theorem unknown_version_answered:
  assumes "\<not> memory_out E" "rep_settings settings m" "length (sv_protocolVersions m) < 256" "sv_protocolVersions m \<noteq> []"
    and "cf_valid (sv_mandatory m)" "vec_rep out xs" "walker_rep w bs 0" "take 2 bs = obj_bytes False (ucast pv :: u16)"
      "length bs < 2 ^ 63" "getLatestProtocolVersion < pv"
    and "vec_rep value ys" "common_inv (big_endian E) d" "m_bigEndianFormat d = cf_bigEndianFormat (sv_mandatory m)"
    and "walker_rep (m_binaryData d) (versions_reply (sv_protocolVersions m) (sv_mandatory m)) 12"
  shows "\<exists>w' b d' v. handleMessage E R p q settings w cid out r = Returned (NoError, w', b, r)
     \<and> vec_rep b (versions_reply (sv_protocolVersions m) (sv_mandatory m))
     \<and> body_deserializeErrorNotSupportedProtocolVersion E d value = (NoError, d', v) \<and> vec_rep v (sv_protocolVersions m)"
proof -
  have "length (versions_reply (sv_protocolVersions m) (sv_mandatory m)) < 2 ^ 62" using assms(3) by (simp add: versions_reply_def)
  from protocol_versions_read [OF assms(12,14) this _ assms(4,3,1,11)]
  obtain d' v where "body_deserializeErrorNotSupportedProtocolVersion E d value = (NoError, d', v)" "vec_rep v (sv_protocolVersions m)"
    by (auto simp: versions_reply_def)
  moreover obtain w' b where "handleMessage E R p q settings w cid out r = Returned (NoError, w', b, r)"
    "vec_rep b (versions_reply (sv_protocolVersions m) (sv_mandatory m))"
    using handleMessage_unknown_version [OF assms(1-3,5-10), of R p q cid r] by blast
  ultimately show ?thesis by blast
qed

theorem unknown_version_answered_witness:
  "\<forall>R. \<exists>w b d v. handleMessage sample_env (R :: unit registrar_ops) id id (sample_settings [1] []) (m_binaryData (sample_dcommon [7, 0, 0] False))
        gpk_new (empty_vec GenericManager) () = Returned (NoError, w, b, ())
     \<and> vec_rep b (versions_reply [1] (cf_of 0))
     \<and> fst (body_deserializeErrorNotSupportedProtocolVersion sample_env (d :: byte walker common) (empty_vec GenericManager)) = NoError \<and> vec_rep v [1 :: byte]"
proof
  fix R :: "unit registrar_ops"
  let ?m = "\<lparr>sv_protocolVersions = [1], sv_mandatory = cf_of 0, sv_forbidden = cf_of 2, sv_interfaces = []\<rparr>"
  let ?bs = "versions_reply [1] (cf_of 0)"
  let ?d = "(sample_dcommon ?bs False)\<lparr>m_binaryData := (m_binaryData (sample_dcommon ?bs False))\<lparr>m_offset := 12\<rparr>\<rparr>"
  have r: "rep_settings (sample_settings [1] []) ?m" using sample_settings_rep [of "[1]" "[]"] by simp
  have "length ?bs = 14" by (simp add: versions_reply_def)
  then have w: "walker_rep (m_binaryData ?d) (versions_reply (sv_protocolVersions ?m) (sv_mandatory ?m)) 12"
    using sample_dcommon_rep [of ?bs False] by (simp add: walker_rep_def)
  have i: "common_inv (big_endian sample_env) ?d" "m_bigEndianFormat ?d = cf_bigEndianFormat (sv_mandatory ?m)"
    by (simp_all add: common_inv_def sample_dcommon_def cf_bigEndianFormat_def cf_of_def)
  have t: "take 2 [7, 0, 0] = obj_bytes False (ucast (7 :: byte) :: u16)" by code_simp
  show "\<exists>w b d v. handleMessage sample_env R id id (sample_settings [1] []) (m_binaryData (sample_dcommon [7, 0, 0] False))
        gpk_new (empty_vec GenericManager) () = Returned (NoError, w, b, ()) \<and> vec_rep b (versions_reply [1] (cf_of 0))
     \<and> fst (body_deserializeErrorNotSupportedProtocolVersion sample_env (d :: byte walker common) (empty_vec GenericManager)) = NoError \<and> vec_rep v [1 :: byte]"
    using unknown_version_answered [OF sample_env_ok(1) r _ _ _ vec_rep_empty sample_dcommon_rep t _ _ vec_rep_empty i w,
        where R = R and p = id and q = id and cid = gpk_new and r = "()"]
    by simp (metis fst_conv)
qed

end
