(* ===== verification/Rpc.thy ===== *)
theory Rpc
  imports Exchange
begin

text \<open>
  A whole call: the client serializes the input, the server finds the handler, which reads the
  input, computes and serializes the output, and the client reads it. The input and the output
  type are any two with the \<open>codec\<close> contract.
\<close>

section \<open>Opening a data message\<close>

definition opened :: "env \<Rightarrow> sdata \<Rightarrow> byte list \<Rightarrow> ddata \<Rightarrow> bool" where
  "opened E c bs d \<longleftrightarrow> body_ctx E d \<and> mode_of d = mode_of c \<and> getCommonFlags d = getCommonFlags c
     \<and> m_protocolVersion d = m_protocolVersion c \<and> m_pAddedPointers d = None \<and> walker_rep (m_binaryData d) bs 32"

lemma opened_mode:
  assumes "opened E c bs d"
  shows "m_interfaceVersion d = m_interfaceVersion c" "m_dataFlags d = m_dataFlags c"
  using assms by (simp_all add: opened_def mode_of_def)

lemma message_opened:
  assumes s: "body_ctx E c" "isProtocolVersionSupported (m_protocolVersion c)" "df_valid (m_dataFlags c)" and c: "m_messageType c = Msg_Data"
    and w: "walker_rep w (data_message (big_endian E) T c xs) 0" and l: "length xs < 2 ^ 61" and v: "minv \<le> m_protocolVersion c"
  shows "\<exists>cc d. common_deserialize E (dcommon_new E w minv Msg_Data cf0) = (NoError, cc)
     \<and> m_messageType cc = Msg_Data \<and> getCommonFlags cc = getCommonFlags c \<and> m_protocolVersion cc = m_protocolVersion c
     \<and> data_deserializeNoChecks E (data_of_common cc df_default True kInterfaceVersionUndefined None None :: ddata) kNullUuid
         = (NoError, d, getId T)
     \<and> opened E c (data_message (big_endian E) T c xs) d"
proof -
  let ?ms = "data_message (big_endian E) T c xs"
  have len: "length ?ms < 2 ^ 63" using l by (simp add: data_message_def)
  have t1: "take 8 ?ms = common_header (m_protocolVersion c) Msg_Data (getCommonFlags c)"
    using c by (simp add: data_message_def)
  have fl: "cf_bigEndianFormat (getCommonFlags c) = big_endian E \<or> cf_endiannessDifference (getCommonFlags c)"
    using s by (auto simp: getCommonFlags_tests body_ctx_def common_inv_def)
  obtain cc where cc: "common_deserialize E (dcommon_new E w minv Msg_Data cf0) = (NoError, cc)"
    "m_protocolVersion cc = m_protocolVersion c" "m_messageType cc = Msg_Data" "getCommonFlags cc = getCommonFlags c"
    "common_inv (big_endian E) cc" "m_bigEndianFormat cc = m_bigEndianFormat c" "walker_rep (m_binaryData cc) ?ms 8"
    using common_deserialize_new [OF w len t1 getCommonFlags_tests(4) _ v _ fl, of Msg_Data cf0] s
    by (auto simp: message_of_word_def getCommonFlags_tests)
  have f: "m_endiannessDifference cc = m_endiannessDifference c" "m_bitness32 cc = m_bitness32 c"
    "m_bigEndianFormat cc = m_bigEndianFormat c"
    using arg_cong [OF cc(4), of cf_endiannessDifference] arg_cong [OF cc(4), of cf_bitness32] cc(6)
    by (simp_all add: getCommonFlags_tests)
  let ?d = "data_of_common cc df_default True kInterfaceVersionUndefined None None :: ddata"
  have d: "common_inv (big_endian E) ?d" "m_bigEndianFormat ?d = m_bigEndianFormat c" "m_binaryData ?d = m_binaryData cc"
    using cc(5,6) by (simp_all add: data_of_common_def setDataFlags_def common.defs common_inv_def)
  have t2: "take 24 (drop 8 ?ms) = data_header (big_endian E) (m_bigEndianFormat ?d) (getId T) (m_interfaceVersion c) (m_dataFlags c)"
    by (simp add: data_message_def d(2))
  have dv: "df_valid (m_dataFlags c)" by (rule s(3))
  obtain w' where w': "data_deserializeNoChecks E ?d kNullUuid
      = (NoError, setDataFlags (setInterfaceVersion (?d\<lparr>m_binaryData := w'\<rparr>) (m_interfaceVersion c)) (m_dataFlags c), getId T)"
    "walker_rep w' ?ms 32"
    using data_deserializeNoChecks_ok [OF d(1) _ len t2 dv, of kNullUuid] cc(7) d(3) by auto
  have "opened E c ?ms (setDataFlags (setInterfaceVersion (?d\<lparr>m_binaryData := w'\<rparr>) (m_interfaceVersion c)) (m_dataFlags c))"
    using s cc(2,5) w'(2) f
    by (auto simp: opened_def body_ctx_def mode_of_def data_of_common_def setDataFlags_def setInterfaceVersion_def
        common.defs common_inv_def data_inv_def getCommonFlags_def)
  then show ?thesis using cc w'(1) by auto
qed

lemma data_message_opened:
  assumes "sendable E T c" "m_messageType c = Msg_Data" "walker_rep w (data_message (big_endian E) T c xs) 0" "length xs < 2 ^ 61"
    "minv \<le> m_protocolVersion c"
  shows "\<exists>cc d. common_deserialize E (dcommon_new E w minv Msg_Data cf0) = (NoError, cc)
     \<and> m_messageType cc = Msg_Data \<and> getCommonFlags cc = getCommonFlags c \<and> m_protocolVersion cc = m_protocolVersion c
     \<and> data_deserializeNoChecks E (data_of_common cc df_default True kInterfaceVersionUndefined None None :: ddata) kNullUuid
         = (NoError, d, getId T)
     \<and> opened E c (data_message (big_endian E) T c xs) d"
  by (rule message_opened [OF _ _ _ assms(2-5)]) (use assms(1) in \<open>simp_all add: sendable_def\<close>)

section \<open>The handler\<close>

text \<open>A struct type that both parties have in the version in which it goes.\<close>

definition current :: "struct_info \<Rightarrow> u32 \<Rightarrow> data_flags \<Rightarrow> bool" where
  "current T iv df \<longleftrightarrow> data_ok T iv df \<and> getLatestInterfaceVersion T \<le> iv"

lemma sendable_current:
  "sendable E T c \<longleftrightarrow> body_ctx E c \<and> isProtocolVersionSupported (m_protocolVersion c)
     \<and> m_interfaceVersion c \<noteq> kInterfaceVersionUndefined \<and> df_valid (m_dataFlags c)
     \<and> current T (m_interfaceVersion c) (m_dataFlags c)"
  by (auto simp: sendable_def current_def)

lemma opened_accepted:
  assumes "opened E c bs d" "current T (m_interfaceVersion c) (m_dataFlags c)" "minv \<le> m_interfaceVersion c"
    and "\<not> df_allowUnmanagedPointers (m_dataFlags c)"
  shows "data_deserializePostprocessRest T d minv = (NoError, d)"
  using assms opened_mode [OF assms(1)]
  by (intro data_deserializePostprocessRest_ok)
    (auto simp: opened_def current_def data_ok_def isInterfaceVersionSupported_def body_ctx_def data_inv_def)

lemma setHeapUseForTemp_simps [simp]:
  "body_ctx E (setHeapUseForTemp d b) = body_ctx E d" "mode_of (setHeapUseForTemp d b) = mode_of d"
  "m_binaryData (setHeapUseForTemp d b) = m_binaryData d" "m_pAddedPointers (setHeapUseForTemp d b) = m_pAddedPointers d"
  by (simp_all add: setHeapUseForTemp_def body_ctx_def mode_of_def common_inv_def data_inv_def)

lemma opened_heap [simp]: "opened E c bs (setHeapUseForTemp d b) = opened E c bs d"
  by (simp add: opened_def setHeapUseForTemp_def body_ctx_def mode_of_def common_inv_def data_inv_def getCommonFlags_def)

definition heap_size_ok :: "'o elem \<Rightarrow> bool" where
  "heap_size_ok ty \<longleftrightarrow> 0 < e_sizeof ty \<and> e_sizeof ty < 2 ^ 64"

lemma heap_new_ok: "\<not> memory_out E \<Longrightarrow> heap_size_ok ty \<Longrightarrow> heap_new E ty x = Some x"
  by (simp add: heap_new_def memory_out_def heap_size_ok_def allocateAndConstruct_def generic_allocate_def
      noexcept_allocate_def heap_allocate_def constructN_def write_cells_def unat_of_nat take_bit_nat_eq_self)

text \<open>The context of the reply.\<close>

abbreviation reply_ctx :: "env \<Rightarrow> ('i, 'o) data_handler \<Rightarrow> sdata \<Rightarrow> byte vec \<Rightarrow> sdata" where
  "reply_ctx E H c out \<equiv> sdata_new E out (m_protocolVersion c) (getCommonFlags c) (m_dataFlags c)
     (dh_kForTempUseHeap H) (m_interfaceVersion c) None"

lemma reply_ctx_fields:
  "getCommonFlags (reply_ctx E H c out) = getCommonFlags c" "m_bigEndianFormat (reply_ctx E H c out) = m_bigEndianFormat c"
  "m_bitness32 (reply_ctx E H c out) = m_bitness32 c"
  by (simp_all add: sdata_new_fields scommon_new_fields getCommonFlags_tests)
    (simp_all add: sdata_new_def data_of_common_def setDataFlags_def common.defs scommon_new_def common_new_def setCommonFlags_def
      getCommonFlags_tests)

lemma reply_sendable:
  assumes "sendable E T c" "current T' (m_interfaceVersion c) (m_dataFlags c)"
  shows "sendable E T' (reply_ctx E H c out)" "mode_of (reply_ctx E H c out) = mode_of c"
proof -
  have "body_ctx E (reply_ctx E H c out)"
    using assms(1) sdata_new_inv [of E out "m_protocolVersion c" "getCommonFlags c" "m_dataFlags c" "dh_kForTempUseHeap H" "m_interfaceVersion c" None]
    by (auto simp: body_ctx_def sendable_def sdata_new_fields data_inv_def common_inv_def getCommonFlags_tests)
  then show "sendable E T' (reply_ctx E H c out)"
    using assms by (simp add: sendable_current sdata_new_fields)
  show "mode_of (reply_ctx E H c out) = mode_of c"
    by (simp add: mode_of_def reply_ctx_fields) (simp add: sdata_new_fields getCommonFlags_tests)
qed

definition reply_message :: "env \<Rightarrow> ('i, 'o) data_handler \<Rightarrow> sdata \<Rightarrow> byte list \<Rightarrow> byte list" where
  "reply_message E H c xs = data_message (big_endian E) (dh_OutputType H) (reply_ctx E H c bin_new) xs"

lemma reply_message_eq: "data_message (big_endian E) (dh_OutputType H) (reply_ctx E H c out) xs = reply_message E H c xs"
  by (simp add: reply_message_def data_message_def reply_ctx_fields) (simp add: sdata_new_fields)

lemma reply_message_length: "length (reply_message E H c xs) = 32 + length xs"
  by (simp add: reply_message_def data_message_def)

text \<open>A handler of a call: its types, its functions, and that it computes the output of the input.\<close>

definition handles ::
    "('i, 'o) data_handler \<Rightarrow> ('i \<Rightarrow> bool) \<Rightarrow> ('o \<Rightarrow> bool) \<Rightarrow> client_id \<Rightarrow> bool" where
  "handles H P Q clientId \<longleftrightarrow> \<not> dh_outputIsDummy H
     \<and> (dh_kForTempUseHeap H \<longrightarrow> heap_size_ok (dh_inputElem H) \<and> heap_size_ok (dh_outputElem H))
     \<and> (\<forall>d. dh_checkPoliciesCompliance H d clientId = NoError)
     \<and> (\<forall>x. P x \<longrightarrow> (\<exists>st ap y. dh_handleData H x None clientId (dh_newOutput H) = (st, ap, y) \<and> statusSuccess st \<and> Q y))"

locale remote_call =
  req: codec E rep init ok enc ser des + rpl: codec E rep' init' ok' enc' ser' des'
  for E :: env
    and rep :: "'a \<Rightarrow> 'm \<Rightarrow> bool" and init :: "'a \<Rightarrow> bool" and ok :: "mode \<Rightarrow> 'm \<Rightarrow> bool" and enc :: "mode \<Rightarrow> 'm \<Rightarrow> byte list"
    and ser :: "'a \<Rightarrow> sdata \<Rightarrow> status \<times> sdata" and des :: "ddata \<Rightarrow> 'a \<Rightarrow> status \<times> ddata \<times> 'a"
    and rep' :: "'b \<Rightarrow> 'n \<Rightarrow> bool" and init' :: "'b \<Rightarrow> bool" and ok' :: "mode \<Rightarrow> 'n \<Rightarrow> bool" and enc' :: "mode \<Rightarrow> 'n \<Rightarrow> byte list"
    and ser' :: "'b \<Rightarrow> sdata \<Rightarrow> status \<times> sdata" and des' :: "ddata \<Rightarrow> 'b \<Rightarrow> status \<times> ddata \<times> 'b"
begin

lemma handleDataMain_ok:
  assumes mem: "\<not> memory_out E" and s: "sendable E T c"
    and o: "opened E c (data_message (big_endian E) T c (enc (mode_of c) m)) d"
    and m: "ok (mode_of c) m" "length (enc (mode_of c) m) < 2 ^ 60" and m': "ok' (mode_of c) m'" "length (enc' (mode_of c) m') < 2 ^ 60"
    and H: "dh_deserialize H = des" "dh_serialize H = ser'" "handles H (\<lambda>x. rep x m) (\<lambda>y. rep' y m') cid" "init x0"
    and cur: "current (dh_OutputType H) (m_interfaceVersion c) (m_dataFlags c)" and out: "vec_rep out xs"
  shows "\<exists>d' b. handleDataMain E H x0 d cid (dh_newOutput H) out = (NoError, d', b)
     \<and> vec_rep b (reply_message E H c (enc' (mode_of c) m'))"
proof -
  let ?ms = "data_message (big_endian E) T c (enc (mode_of c) m)"
  have len: "length ?ms = 32 + length (enc (mode_of c) m)" "drop 32 ?ms = enc (mode_of c) m" by (simp_all add: data_message_def)
  have d: "body_ctx E d" "mode_of d = mode_of c" "walker_rep (m_binaryData d) ?ms 32" using o by (simp_all add: opened_def)
  have rd: "reads E (\<lambda>d. des d x0) (enc (mode_of c) m) d (\<lambda>x. rep x m)"
    using req.des_reads [OF d(1) H(4), of m] m(1) d(2) by simp
  obtain w x where x: "des (d\<lparr>m_binaryData := m_binaryData d\<rparr>) x0 = (NoError, d\<lparr>m_binaryData := w\<rparr>, x)" "rep x m"
    using rd d(3) by (rule readsE) (use len m(2) mem in auto)
  obtain st ap y where y: "dh_handleData H x None cid (dh_newOutput H) = (st, ap, y)" "statusSuccess st" "rep' y m'"
    using H(3) x(2) by (auto simp: handles_def)
  let ?c = "reply_ctx E H c (vec_clear octet out)"
  note rs = reply_sendable [OF s cur, where H = H and out = "vec_clear octet out"]
  have "vec_rep (vec_clear octet out) []" using raw.clear_ok(1) [OF out, of 0] by (simp add: octet_eq)
  then have vr: "vec_rep (m_binaryData ?c) []" by (simp add: sdata_new_fields scommon_new_rep)
  obtain b where b: "iserializable_serialize E (dh_OutputType H) (ser' y) ?c = (NoError, ?c\<lparr>m_binaryData := b\<rparr>)"
    "vec_rep b (reply_message E H c (enc' (mode_of c) m'))"
    using rpl.message_sent [OF rs(1) y(3) _ mem vr] m' rs(2) reply_message_eq [where E = E and H = H and c = c and out = "vec_clear octet out"] by auto
  have nc: "\<not> m_checkRecursivePointers ?c" using rs(1) by (simp add: sendable_def body_ctx_def)
  have f: "m_protocolVersion d = m_protocolVersion c" "getCommonFlags d = getCommonFlags c" "m_pAddedPointers d = None"
    using o by (simp_all add: opened_def)
  have "handleDataMain E H x0 d cid (dh_newOutput H) out = (NoError, setAddedPointers (d\<lparr>m_binaryData := w\<rparr>) ap, b)"
    using x(1) y b(1) nc H(1,2) H(3) opened_mode [OF o] f
    by (simp add: handleDataMain_def handles_def setAddedPointers_def getCommonFlags_def Let_def)
  then show ?thesis using b(2) by blast
qed

lemma handleDataCommon_ok:
  assumes mem: "\<not> memory_out E" and s: "sendable E T c" and T: "dh_InputType H = T"
    and o: "opened E c (data_message (big_endian E) T c (enc (mode_of c) m)) d"
    and m: "ok (mode_of c) m" "length (enc (mode_of c) m) < 2 ^ 60" and m': "ok' (mode_of c) m'" "length (enc' (mode_of c) m') < 2 ^ 60"
    and H: "dh_deserialize H = des" "dh_serialize H = ser'" "handles H (\<lambda>x. rep x m) (\<lambda>y. rep' y m') cid" "init (dh_newInput H)"
    and v: "dh_kMinimumInterfaceVersion H \<le> m_interfaceVersion c" "\<not> df_allowUnmanagedPointers (m_dataFlags c)"
    and cur: "current (dh_OutputType H) (m_interfaceVersion c) (m_dataFlags c)" and out: "vec_rep out xs"
  shows "\<exists>d' b. handleDataCommon E H d cid out = (NoError, d', b) \<and> vec_rep b (reply_message E H c (enc' (mode_of c) m'))"
proof -
  have p: "data_deserializePostprocessRest (dh_InputType H) d (dh_kMinimumInterfaceVersion H) = (NoError, d)"
    using s T v by (intro opened_accepted [OF o]) (simp_all add: sendable_current)
  have "handleDataCommon E H d cid out = handleDataMain E H (dh_newInput H) (setHeapUseForTemp d (dh_kForTempUseHeap H)) cid (dh_newOutput H) out"
    using H(3) p
    by (auto simp: heap_new_ok [OF mem] handleDataCommon_def handles_def getMinimumInterfaceVersion_def handleDataOnHeap_def handleDataOnStack_def Let_def)
  then show ?thesis
    using handleDataMain_ok [OF mem s _ m m' H cur out, of "setHeapUseForTemp d (dh_kForTempUseHeap H)"] o by simp
qed

end

section \<open>The server\<close>

text \<open>The handler object that the registrar has for a struct, alone and available.\<close>

definition serves_struct :: "registrar \<Rightarrow> (nat \<Rightarrow> returning_call) \<Rightarrow> uuid \<Rightarrow> returning_call \<Rightarrow> bool" where
  "serves_struct r calls uid call \<longleftrightarrow> registrar_good r
     \<and> (\<exists>h. equal_range r uid = [h] \<and> h_state h = Active \<and> calls (h_handler h) = call)"

lemma acquired_node:
  assumes "registrar_good r" "equal_range r uid = [h]"
  shows "\<exists>h'. node (fetch_add (h_node h) r) (h_node h) = Some h' \<and> h_handler h' = h_handler h"
proof -
  have "h \<in> set (m_handlerMap r)" using arg_cong [OF assms(2), of set] by (auto simp: equal_range_def)
  then have "\<exists>h' \<in> set (m_handlerMap (fetch_add (h_node h) r)). h_node h' = h_node h \<and> h_handler h' = h_handler h"
    by (auto simp: fetch_add_def)
  then show ?thesis using node_Some [of "fetch_add (h_node h) r"] assms(1) by (auto simp: registrar_good_def)
qed

lemma serves_struct_aquire:
  assumes "serves_struct r calls uid call"
  shows "\<exists>q r'. op_aquireHandler (generic_ops E calls) uid p r = (NoError, q, r')
     \<and> op_handleDataCommon (generic_ops E calls) r' q = Some (returning call) \<and> op_releaseHandler (generic_ops E calls) q r' = Some r"
proof -
  obtain h where h: "registrar_good r" "equal_range r uid = [h]" "h_state h = Active" "calls (h_handler h) = call"
    using assms by (auto simp: serves_struct_def)
  let ?q = "h_node h" and ?r = "fetch_add (h_node h) r"
  have i: "map_inv ?r" using h(1) by (simp add: registrar_good_def)
  have mem: "h \<in> set (m_handlerMap r)" using arg_cong [OF h(2), of set] by (auto simp: equal_range_def)
  then have "active_at r ?q" using h(3) by (auto simp: active_at_def)
  then have a: "active_at ?r ?q" by simp
  obtain h' where "node ?r ?q = Some h'" "h_handler h' = h_handler h" using acquired_node [OF h(1,2)] by blast
  then show ?thesis
    using h release_active(1) [OF i a] fetch_add_sub [of "h_node h" r] by (simp add: generic_ops_def registrar_interface_def aquireHandler_def)
qed

context remote_call
begin

lemma handleMessage_ok:
  assumes mem: "\<not> memory_out E" and s: "sendable E T c" "m_messageType c = Msg_Data" and T: "dh_InputType H = T"
    and m: "ok (mode_of c) m" "length (enc (mode_of c) m) < 2 ^ 60" and m': "ok' (mode_of c) m'" "length (enc' (mode_of c) m') < 2 ^ 60"
    and H: "dh_deserialize H = des" "dh_serialize H = ser'" "handles H (\<lambda>x. rep x m) (\<lambda>y. rep' y m') cid" "init (dh_newInput H)"
    and v: "dh_kMinimumInterfaceVersion H \<le> m_interfaceVersion c" "\<not> df_allowUnmanagedPointers (m_dataFlags c)"
    and cur: "current (dh_OutputType H) (m_interfaceVersion c) (m_dataFlags c)" and out: "vec_rep out xs"
    and w: "walker_rep w (data_message (big_endian E) T c (enc (mode_of c) m)) 0"
    and set: "settings_getOldestProtocolVersion settings \<le> m_protocolVersion c"
      "testCommonFlagsCompatibility (getCommonFlags c) (m_forbiddenCommonFlags settings) (m_mandatoryCommonFlags settings) = NoError"
    and r: "serves_struct r calls (getId T) (handleDataCommon E H)"
  shows "\<exists>w' b. handleMessage E (generic_ops E calls) p q settings w cid out r = Returned (NoError, w', b, r)
     \<and> vec_rep b (reply_message E H c (enc' (mode_of c) m'))"
proof -
  let ?ms = "data_message (big_endian E) T c (enc (mode_of c) m)"
  have "length (enc (mode_of c) m) < 2 ^ 61" using m(2) by simp
  from data_message_opened [OF s w this set(1), of "cf_default False (big_endian E)"] obtain cc d where
    cc: "common_deserialize E (dcommon_new E w (settings_getOldestProtocolVersion settings) Msg_Data (cf_default False (big_endian E))) = (NoError, cc)"
      "m_messageType cc = Msg_Data" "getCommonFlags cc = getCommonFlags c"
    and d: "data_deserializeNoChecks E (data_of_common cc df_default True kInterfaceVersionUndefined None None :: ddata) kNullUuid
         = (NoError, d, getId T)" "opened E c ?ms d" by blast
  have fl: "\<not> m_allowUnmanagedPointers d" "\<not> m_checkRecursivePointers d"
    using d(2) v(2) opened_mode [OF d(2)] by (auto simp: opened_def body_ctx_def data_inv_def)
  have cl: "vec_rep (vec_clear octet out) []" using raw.clear_ok(1) [OF out, of 0] by (simp add: octet_eq)
  obtain d' b where b: "handleDataCommon E H d cid (vec_clear octet out) = (NoError, d', b)"
    "vec_rep b (reply_message E H c (enc' (mode_of c) m'))"
    using handleDataCommon_ok [OF mem s(1) T d(2) m m' H v cur cl] by blast
  obtain pH r' where a: "op_aquireHandler (generic_ops E calls) (getId T) 0 r = (NoError, pH, r')"
    "op_handleDataCommon (generic_ops E calls) r' pH = Some (returning (handleDataCommon E H))"
    "op_releaseHandler (generic_ops E calls) pH r' = Some r" using serves_struct_aquire [OF r] by blast
  have "server_handleData E (generic_ops E calls) cc cid (vec_clear octet out) r = Returned (NoError, m_binaryData d', b, r)"
    using d(1) fl a b(1) by (simp add: server_handleData_def returning_def Let_def)
  moreover have "vec_size b \<noteq> 0" using vec_size_zero [OF b(2)] reply_message_length [of E H c "enc' (mode_of c) m'"] by auto
  ultimately show ?thesis using cc set(2) b(2) by (simp add: handleMessage_def Let_def)
qed

end

section \<open>The client\<close>

definition client_ready :: "env \<Rightarrow> client \<Rightarrow> ('i, 'o) client_handler \<Rightarrow> sdata \<Rightarrow> common_flags \<Rightarrow> data_flags \<Rightarrow> bool" where
  "client_ready E cl CH c cf df \<longleftrightarrow> client_checks cl CH cf = NoError \<and> c = client_request E cl CH cf df
     \<and> sendable E (ch_InputType CH) c \<and> current (ch_OutputType CH) (m_interfaceVersion c) (m_dataFlags c)
     \<and> \<not> df_allowUnmanagedPointers (m_dataFlags c)"

lemma client_request_fields:
  "m_messageType (client_request E cl CH cf df) = Msg_Data"
  "m_interfaceVersion (client_request E cl CH cf df) = getInterfaceVersion cl (i_id (getInterface (ch_InputType CH)))"
  "vec_rep (m_binaryData (client_request E cl CH cf df)) []"
  by (simp_all add: client_request_def sdata_new_fields scommon_new_rep)

lemma client_readyD:
  assumes "client_ready E cl CH c cf df"
  shows "sendable E (ch_InputType CH) c" "body_ctx E c" "\<not> df_allowUnmanagedPointers (m_dataFlags c)"
    "current (ch_OutputType CH) (m_interfaceVersion c) (m_dataFlags c)" "m_messageType c = Msg_Data"
    "m_interfaceVersion c = getInterfaceVersion cl (i_id (getInterface (ch_InputType CH)))" "vec_rep (m_binaryData c) []"
    "client_checks cl CH cf = NoError" "client_request E cl CH cf df = c"
proof -
  have c: "client_request E cl CH cf df = c" "sendable E (ch_InputType CH) c" using assms unfolding client_ready_def by blast+
  then show "client_request E cl CH cf df = c" "sendable E (ch_InputType CH) c" "body_ctx E c" by (simp_all add: sendable_def)
  show "\<not> df_allowUnmanagedPointers (m_dataFlags c)" "current (ch_OutputType CH) (m_interfaceVersion c) (m_dataFlags c)"
    "client_checks cl CH cf = NoError" using assms unfolding client_ready_def by blast+
  show "m_messageType c = Msg_Data" "m_interfaceVersion c = getInterfaceVersion cl (i_id (getInterface (ch_InputType CH)))"
    "vec_rep (m_binaryData c) []" using client_request_fields [of E cl CH cf df] c(1) by simp_all
qed

context remote_call
begin

text \<open>What the client sends.\<close>

lemma request_sent:
  assumes c: "client_ready E cl CH c cf df" and mem: "\<not> memory_out E" and x: "rep x m" "ok (mode_of c) m" "length (enc (mode_of c) m) < 2 ^ 60"
  shows "\<exists>c1 b. run (common_serialize E c) (data_serialize E (ch_InputType CH)) = (NoError, c1)
     \<and> \<not> m_allowUnmanagedPointers c1 \<and> \<not> m_checkRecursivePointers c1
     \<and> ser x c1 = (NoError, c\<lparr>m_binaryData := b\<rparr>)
     \<and> vec_rep b (data_message (big_endian E) (ch_InputType CH) c (enc (mode_of c) m))"
proof -
  let ?T = "ch_InputType CH"
  note s = client_readyD [OF c]
  have cs: "emits E (\<lambda>c. run (common_serialize E c) (data_serialize E ?T)) (common_header (m_protocolVersion c) (m_messageType c) (getCommonFlags c)
     @ data_header (big_endian E) (m_bigEndianFormat c) (getId ?T) (m_interfaceVersion c) (m_dataFlags c)) c"
    using s(1,2)
    by (intro emits_run emits_common_serialize emits_data_serialize) (auto simp: sendable_def body_ctx_def)
  obtain b1 where b1: "run (common_serialize E c) (data_serialize E ?T) = (NoError, c\<lparr>m_binaryData := b1\<rparr>)"
    "vec_rep b1 (common_header (m_protocolVersion c) (m_messageType c) (getCommonFlags c)
     @ data_header (big_endian E) (m_bigEndianFormat c) (getId ?T) (m_interfaceVersion c) (m_dataFlags c))"
    using emits_total [OF cs mem s(7)] by auto
  have se: "emits E (ser x) (enc (mode_of c) m) (c\<lparr>m_binaryData := b1\<rparr>)"
    using req.ser_emits [of "c\<lparr>m_binaryData := b1\<rparr>" x m] s(2) x by simp
  obtain b where "ser x (c\<lparr>m_binaryData := b1\<rparr>) = (NoError, c\<lparr>m_binaryData := b\<rparr>)"
    "vec_rep b (data_message (big_endian E) ?T c (enc (mode_of c) m))"
    using emits_total [OF se mem, of "common_header (m_protocolVersion c) (m_messageType c) (getCommonFlags c)
     @ data_header (big_endian E) (m_bigEndianFormat c) (getId ?T) (m_interfaceVersion c) (m_dataFlags c)"] b1(2) x(3)
    by (auto simp: data_message_def)
  then show ?thesis
    using b1(1) s(2,3) by (auto simp: body_ctx_def data_inv_def)
qed

text \<open>What the client makes of the reply.\<close>

lemma reply_read:
  assumes c: "client_ready E cl CH c cf df" and mem: "\<not> memory_out E" and m': "ok' (mode_of c) m'" "length (enc' (mode_of c) m') < 2 ^ 60"
    and CH: "ch_deserialize CH = des'" "init' out" and H: "dh_OutputType H = ch_OutputType CH"
    and pv: "m_protocolVersion c = getLatestProtocolVersion"
    and b: "vec_rep b (reply_message E H c (enc' (mode_of c) m'))"
  shows "\<exists>y. client_reply E cl CH (c\<lparr>m_binaryData := b0\<rparr>) b out None = Some (NoError, y, None) \<and> rep' y m'"
proof -
  let ?T = "ch_OutputType CH"
  let ?c = "reply_ctx E H c bin_new"
  let ?ms = "reply_message E H c (enc' (mode_of c) m')"
  note cd = client_readyD [OF c]
  note s = cd(1,4,3)
  note rs = reply_sendable [OF s(1,2), where H = H and out = bin_new]
  have w: "walker_rep \<lparr>m_vector = b, m_offset = 0\<rparr> (data_message (big_endian E) ?T ?c (enc' (mode_of c) m')) 0"
    using b H by (simp add: walker_rep_def reply_message_def)
  have len: "length (enc' (mode_of c) m') < 2 ^ 61" using m'(2) by simp
  have ms: "data_message (big_endian E) ?T ?c (enc' (mode_of c) m') = ?ms" by (simp add: reply_message_def H)
  have f: "m_messageType ?c = Msg_Data" "getLatestProtocolVersion \<le> m_protocolVersion ?c" "getCommonFlags ?c = getCommonFlags c"
    using pv by (simp_all add: sdata_new_fields scommon_new_fields getCommonFlags_tests)
  obtain cc d where cc: "common_deserialize E (dcommon_new E \<lparr>m_vector = b, m_offset = 0\<rparr> getLatestProtocolVersion Msg_Data (cf_default False (big_endian E)))
      = (NoError, cc)" "m_messageType cc = Msg_Data" "getCommonFlags cc = getCommonFlags c"
    and d: "data_deserializeNoChecks E (data_of_common cc df_default True kInterfaceVersionUndefined None None :: ddata) kNullUuid
         = (NoError, d, getId ?T)" "opened E ?c ?ms d"
    using data_message_opened [OF rs(1) f(1) w len f(2), of "cf_default False (big_endian E)"] unfolding ms f(3) by blast
  have om: "m_interfaceVersion d = m_interfaceVersion c" "m_dataFlags d = m_dataFlags c" "mode_of d = mode_of c" "body_ctx E d"
    "m_pAddedPointers d = None" "walker_rep (m_binaryData d) ?ms 32"
    using d(2) opened_mode [OF d(2)] rs(2) by (simp_all add: opened_def sdata_new_fields)
  have p: "data_deserializePostprocessRest ?T d (getOriginPrivateVersion ?T) = (NoError, d)"
    using s(2,3) by (intro opened_accepted [OF d(2)])
      (simp_all add: sdata_new_fields current_def data_ok_def isInterfaceVersionSupported_def)
  let ?d = "setHeapUseForTemp (setAddedPointers d None) (ch_kForTempUseHeap CH)"
  have ad: "setAddedPointers d None = d" using om(5) by (simp add: setAddedPointers_def)
  have bd: "body_ctx E ?d" "mode_of ?d = mode_of c" "m_binaryData ?d = m_binaryData d" "m_pAddedPointers ?d = None"
    using om ad by simp_all
  have rd: "reads E (\<lambda>d. des' d out) (enc' (mode_of c) m') ?d (\<lambda>y. rep' y m')"
    using rpl.des_reads [OF bd(1) CH(2), of m'] m'(1) bd(2) by simp
  have dr: "drop 32 ?ms = enc' (mode_of c) m'" "length ?ms = 32 + length (enc' (mode_of c) m')"
    by (simp_all add: reply_message_def data_message_def)
  obtain w y where y: "des' (?d\<lparr>m_binaryData := m_binaryData d\<rparr>) out = (NoError, ?d\<lparr>m_binaryData := w\<rparr>, y)" "rep' y m'"
    using rd om(6) by (rule readsE) (use dr m'(2) mem in auto)
  have y1: "des' ?d out = (NoError, ?d\<lparr>m_binaryData := w\<rparr>, y)" using y(1) bd(3) by (metis common.surjective common.update_convs(1))
  have nc: "\<not> m_checkRecursivePointers c" "\<not> m_checkRecursivePointers ?d"
    using s(1) bd(1) by (simp_all add: sendable_def body_ctx_def)
  show ?thesis
    using cc d(1) p om(1,2) y1 y(2) nc ad cd(6) bd(4) CH(1)
    by (simp add: client_reply_def cf_eq_def df_eq_def data_deserializePostprocessId_def uuid_eq_iff Let_def)
qed

end

section \<open>The call\<close>

context remote_call
begin

lemma handleData_ok:
  assumes mem: "\<not> memory_out E"
    and c: "client_ready E cl CH c cf df" "ch_serialize CH = ser" "ch_deserialize CH = des'" "m_protocolVersion c = getLatestProtocolVersion"
    and x: "rep x m" "ok (mode_of c) m" "length (enc (mode_of c) m) < 2 ^ 60"
    and y: "init' old" "ok' (mode_of c) m'" "length (enc' (mode_of c) m') < 2 ^ 60"
    and H: "dh_InputType H = ch_InputType CH" "dh_OutputType H = ch_OutputType CH" "dh_deserialize H = des" "dh_serialize H = ser'"
      "handles H (\<lambda>x. rep x m) (\<lambda>y. rep' y m') cid" "init (dh_newInput H)" "dh_kMinimumInterfaceVersion H \<le> m_interfaceVersion c"
    and s: "srv_isInited s" "srv_dataHandlersRegistrar s = Some r" "settings_getOldestProtocolVersion (srv_settings s) \<le> m_protocolVersion c"
      "testCommonFlagsCompatibility (getCommonFlags c) (m_forbiddenCommonFlags (srv_settings s)) (m_mandatoryCommonFlags (srv_settings s)) = NoError"
      "serves_struct r calls (getId (ch_InputType CH)) (handleDataCommon E H)"
  shows "\<exists>y. client_handleData E (server_peer E (generic_ops E calls) p q cid) cl CH x old cf df None s = Some (NoError, y, None, s)
     \<and> rep' y m'"
proof -
  note cd = client_readyD [OF c(1)]
  obtain c1 b where b: "run (common_serialize E c) (data_serialize E (ch_InputType CH)) = (NoError, c1)"
    "\<not> m_allowUnmanagedPointers c1" "\<not> m_checkRecursivePointers c1" "ser x c1 = (NoError, c\<lparr>m_binaryData := b\<rparr>)"
    "vec_rep b (data_message (big_endian E) (ch_InputType CH) c (enc (mode_of c) m))"
    using request_sent [OF c(1) mem x] by blast
  let ?ms = "data_message (big_endian E) (ch_InputType CH) c (enc (mode_of c) m)"
  have len: "length ?ms < 2 ^ 63" using x(3) by (simp add: data_message_def)
  have cur: "current (dh_OutputType H) (m_interfaceVersion c) (m_dataFlags c)" using cd(4) H(2) by simp
  have "\<exists>w' b'. handleMessage E (generic_ops E calls) p q (srv_settings s) w cid bin_new r = Returned (NoError, w', b', r)
     \<and> vec_rep b' (reply_message E H c (enc' (mode_of c) m'))" if "walker_rep w ?ms 0" for w
    by (rule handleMessage_ok [OF mem cd(1,5) H(1) x(2,3) y(2,3) H(3-7) cd(3) cur bin_new_rep that s(3-5)])
  then obtain b' where b': "server_peer E (generic_ops E calls) p q cid b bin_new s = (NoError, b', s)"
    "vec_rep b' (reply_message E H c (enc' (mode_of c) m'))"
    using server_peer_eq [OF mem s(1,2) b(5) len, of "generic_ops E calls" p q cid bin_new NoError
        "\<lambda>b. vec_rep b (reply_message E H c (enc' (mode_of c) m'))"] by blast
  obtain z where z: "client_reply E cl CH (c\<lparr>m_binaryData := b\<rparr>) b' old None = Some (NoError, z, None)" "rep' z m'"
    using reply_read [OF c(1) mem y(2,3) c(3) y(1) H(2) c(4) b'(2)] by blast
  show ?thesis
    using b b'(1) z cd(8,9) c(2) by (simp add: client_handleData_def Let_def)
qed

end

interpretation interface_call: remote_call E "(=)" "\<lambda>_. True" "\<lambda>md _. latest_form (GetInterface_info (big_endian E)) md"
    "enc_GetInterface (big_endian E)" "serialize_GetInterface E" "deserialize_GetInterface E"
    "(=)" "\<lambda>_. True" "\<lambda>md m. latest_form (OutGetInterface_info (big_endian E)) md \<and> interface_valid (ogi_properties m)"
    "enc_OutGetInterface (big_endian E)" "serialize_OutGetInterface E" "deserialize_OutGetInterface E" for E
  by (intro remote_call.intro GetInterface_codec OutGetInterface_codec)

section \<open>Claims\<close>

text \<open>A server that gives the requests of a client with context \<open>c\<close> for a struct to a handler.\<close>

definition answers :: "registrar server \<Rightarrow> (nat \<Rightarrow> returning_call) \<Rightarrow> sdata \<Rightarrow> uuid \<Rightarrow> returning_call \<Rightarrow> bool" where
  "answers s calls c uid call \<longleftrightarrow> srv_isInited s
     \<and> (\<exists>r. srv_dataHandlersRegistrar s = Some r \<and> serves_struct r calls uid call)
     \<and> settings_getOldestProtocolVersion (srv_settings s) \<le> m_protocolVersion c
     \<and> testCommonFlagsCompatibility (getCommonFlags c) (m_forbiddenCommonFlags (srv_settings s)) (m_mandatoryCommonFlags (srv_settings s)) = NoError"

text \<open>
  C1: a remote call returns what the handler computes. For any input and output type with the
  \<open>codec\<close> contract: the client's \<open>handleData\<close> writes the request, the server reads the headers,
  acquires the one handler of the struct, deserializes the input, calls the handler, serializes
  its output, releases the handler, and the client, whatever object it reads into, ends with
  \<open>NoError\<close> and an output with the value the handler gave; the server is left as it was. On the
  stack or the heap, in either format, with struct types in their latest version.
\<close>
theorem call_returns_output:
  assumes "codec E rep init ok enc ser des" "codec E rep' init' ok' enc' ser' des'" "\<not> memory_out E"
    and "client_ready E cl CH c cf df" "ch_serialize CH = ser" "ch_deserialize CH = des'" "m_protocolVersion c = getLatestProtocolVersion"
    and "rep x m" "ok (mode_of c) m" "length (enc (mode_of c) m) < 2 ^ 60"
    and "init' old" "ok' (mode_of c) m'" "length (enc' (mode_of c) m') < 2 ^ 60"
    and "dh_InputType H = ch_InputType CH" "dh_OutputType H = ch_OutputType CH" "dh_deserialize H = des" "dh_serialize H = ser'"
    and "handles H (\<lambda>x. rep x m) (\<lambda>y. rep' y m') cid" "init (dh_newInput H)" "dh_kMinimumInterfaceVersion H \<le> m_interfaceVersion c"
    and "answers s calls c (getId (ch_InputType CH)) (handleDataCommon E H)"
  shows "\<exists>y. client_handleData E (server_peer E (generic_ops E calls) p q cid) cl CH x old cf df None s = Some (NoError, y, None, s)
     \<and> rep' y m'"
proof -
  obtain r where r: "srv_isInited s" "srv_dataHandlersRegistrar s = Some r"
    "settings_getOldestProtocolVersion (srv_settings s) \<le> m_protocolVersion c"
    "testCommonFlagsCompatibility (getCommonFlags c) (m_forbiddenCommonFlags (srv_settings s)) (m_mandatoryCommonFlags (srv_settings s)) = NoError"
    "serves_struct r calls (getId (ch_InputType CH)) (handleDataCommon E H)"
    using assms(21) unfolding answers_def by blast
  show ?thesis by (rule remote_call.handleData_ok [OF remote_call.intro [OF assms(1,2)] assms(3-20) r])
qed

definition sample_client :: client where
  "sample_client = \<lparr>cl_settings = sample_settings [1] [InterfaceVersion (i_id (service_properties False)) 1], cl_isValid = True\<rparr>"

definition sample_client_handler :: "(get_interface, out_get_interface) client_handler" where
  "sample_client_handler = \<lparr>ch_InputType = GetInterface_info False, ch_OutputType = OutGetInterface_info False, ch_kForTempUseHeap = False,
     ch_serialize = serialize_GetInterface sample_env, ch_deserialize = deserialize_OutGetInterface sample_env\<rparr>"

definition sample_answer :: "get_interface \<Rightarrow> out_get_interface" where
  "sample_answer g = OutGetInterface (Interface (gi_id g) 7 df_default df_default)"

definition sample_handler :: "(get_interface, out_get_interface) data_handler" where
  "sample_handler = \<lparr>dh_InputType = GetInterface_info False, dh_OutputType = OutGetInterface_info False, dh_outputIsDummy = False,
     dh_kForTempUseHeap = False, dh_kMulticast = False, dh_kMinimumInterfaceVersion = 1, dh_inputElem = raw_elem 16,
     dh_outputElem = raw_elem 28, dh_newInput = GetInterface kNullUuid, dh_newOutput = OutGetInterface kUndefinedInterface,
     dh_deserialize = deserialize_GetInterface sample_env, dh_serialize = serialize_OutGetInterface sample_env,
     dh_checkPoliciesCompliance = default_checkPoliciesCompliance,
     dh_handleData = (\<lambda>x ap cid out. (NoError, ap, sample_answer x))\<rparr>"

definition calling_server :: "registrar server" where
  "calling_server = sample_server\<lparr>srv_dataHandlersRegistrar := Some (snd (sdh_registerHandler sample_handler 100 7 empty_registrar))\<rparr>"

lemma sample_client_ready:
  assumes "c = client_request sample_env sample_client sample_client_handler (cf_default False False) df_default"
  shows "client_ready sample_env sample_client sample_client_handler c (cf_default False False) df_default"
    "m_protocolVersion c = 1" "m_interfaceVersion c = 1" "latest_form (GetInterface_info False) (mode_of c)"
    "latest_form (OutGetInterface_info False) (mode_of c)" "getCommonFlags c = cf_of 0"
proof -
  have r: "vec_rep (m_protocolVersions (cl_settings sample_client)) [1]"
    "vec_rep (m_interfaces (cl_settings sample_client)) [InterfaceVersion (i_id (service_properties False)) 1]"
    using sample_settings_rep [of "[1]" "[InterfaceVersion (i_id (service_properties False)) 1]"]
    by (simp_all add: sample_client_def rep_settings_def)
  have v: "settings_getLatestProtocolVersion (cl_settings sample_client) = 1"
    using vec_rep_objects [OF r(1)]
    by (simp add: settings_getLatestProtocolVersion_def) (simp add: sample_client_def sample_settings_def vec_size_def)
  have i: "getInterfaceVersion sample_client (i_id (service_properties False)) = 1"
    using vec_rep_objects [OF r(2)] by (simp add: getInterfaceVersion_def uuid_eq_iff)
  have fl: "cf_or (m_mandatoryCommonFlags (cl_settings sample_client)) (cf_default False False) = cf_of 0"
    "df_or (getEffectiveMandatoryDataFlags (GetInterface_info False)) df_default = df_default"
    "\<not> cf_bool (cf_and (cf_default False False) (m_forbiddenCommonFlags (cl_settings sample_client)))"
    by (simp_all add: sample_client_def sample_settings_def cf_or_def cf_and_def cf_default_def cf_of_def cf_bool_def
        df_or_def df_of_def df_default_def GetInterface_info_def service_info_def getEffectiveMandatoryDataFlags_def
        getInterface_def service_properties_def)
  have c: "c = sdata_new sample_env bin_new 1 (cf_of 0) df_default False 1 None"
    using v i fl by (simp add: assms client_request_def sample_client_handler_def GetInterface_info_def service_info_def getInterface_def)
  have e: "cf_bigEndianFormat (cf_of 0) = big_endian sample_env"
    by (simp add: cf_bigEndianFormat_def cf_of_def)
  note ok = service_sendable [OF cf_valid_of disjI1 [OF e] _ _ c]
  show "m_protocolVersion c = 1" "m_interfaceVersion c = 1" "getCommonFlags c = cf_of 0"
    by (simp_all add: c sdata_new_fields scommon_new_fields)
  show "latest_form (GetInterface_info False) (mode_of c)" "latest_form (OutGetInterface_info False) (mode_of c)"
    using ok(2) by (auto simp: GetInterface_info_def OutGetInterface_info_def isProtocolVersionSupported_iff)
  have s: "sendable sample_env (GetInterface_info False) c" "sendable sample_env (OutGetInterface_info False) c"
    using ok(1) by (auto simp: GetInterface_info_def OutGetInterface_info_def isProtocolVersionSupported_iff)
  have "client_checks sample_client sample_client_handler (cf_default False False) = NoError"
    using i fl(3)
    by (simp add: client_checks_def sample_client_handler_def GetInterface_info_def OutGetInterface_info_def service_info_def getInterface_def
        getOriginPrivateVersion_def kInterfaceVersionUndefined_def getPrivateVersionsCount_def) (simp add: sample_client_def)
  moreover have "\<not> df_allowUnmanagedPointers (m_dataFlags c)"
    by (simp add: c sdata_new_fields df_default_def df_allowUnmanagedPointers_def)
  moreover have "current (OutGetInterface_info False) (m_interfaceVersion c) (m_dataFlags c)"
    using s(2) by (simp add: sendable_current)
  moreover have "ch_InputType sample_client_handler = GetInterface_info False" "ch_OutputType sample_client_handler = OutGetInterface_info False"
    by (simp_all add: sample_client_handler_def)
  ultimately show "client_ready sample_env sample_client sample_client_handler c (cf_default False False) df_default"
    unfolding client_ready_def using s(1) assms by metis
qed

lemma sample_answers:
  assumes "m_protocolVersion c = 1" "getCommonFlags c = cf_of 0"
  shows "answers calling_server (\<lambda>_. handleDataCommon sample_env sample_handler) c (getId (GetInterface_info False))
     (handleDataCommon sample_env sample_handler)"
proof -
  have sv: "settings_getOldestProtocolVersion (srv_settings calling_server) = 1"
    using oldest_version [OF sample_settings_rep [of "[1]" "[]"]] by (simp add: calling_server_def sample_server_def)
  have fl: "testCommonFlagsCompatibility (cf_of 0) (m_forbiddenCommonFlags (srv_settings calling_server))
      (m_mandatoryCommonFlags (srv_settings calling_server)) = NoError"
    by (simp add: calling_server_def sample_server_def sample_settings_def testCommonFlagsCompatibility_def cf_or_word_def cf_or_def
        cf_and_def cf_of_def cf_bool_def cf_eq_def)
  show ?thesis
    using fl sv assms
    by (simp add: answers_def) (simp add: calling_server_def sample_server_def serves_struct_def sdh_registerHandler_def
      registerHandler_def empty_registrar_def equal_range_def registrar_good_def map_inv_def sample_handler_def uuid_eq_iff)
qed

theorem call_returns_output_witness:
  "\<exists>y. client_handleData sample_env
       (server_peer sample_env (generic_ops sample_env (\<lambda>_. handleDataCommon sample_env sample_handler)) id id gpk_new)
       sample_client sample_client_handler (GetInterface (uuid_of_halves False 1 2)) (OutGetInterface kUndefinedInterface)
       (cf_default False False) df_default None calling_server = Some (NoError, y, None, calling_server)
     \<and> y = OutGetInterface (Interface (uuid_of_halves False 1 2) 7 df_default df_default)"
proof -
  let ?E = "sample_env"
  let ?x = "GetInterface (uuid_of_halves False 1 2)"
  let ?calls = "\<lambda>_ :: nat. handleDataCommon sample_env sample_handler"
  define c where "c = client_request ?E sample_client sample_client_handler (cf_default False False) df_default"
  note rd = sample_client_ready [OF c_def]
  have cd: "codec ?E (=) (\<lambda>_. True) (\<lambda>md _. latest_form (GetInterface_info False) md)
      (enc_GetInterface False) (serialize_GetInterface ?E) (deserialize_GetInterface ?E)"
    "codec ?E (=) (\<lambda>_. True) (\<lambda>md m. latest_form (OutGetInterface_info False) md \<and> interface_valid (ogi_properties m))
      (enc_OutGetInterface False) (serialize_OutGetInterface ?E) (deserialize_OutGetInterface ?E)"
    using GetInterface_codec [of ?E] OutGetInterface_codec [of ?E] by simp_all
  have mem: "\<not> memory_out ?E" by (simp add: memory_out_def)
  have l: "length (enc_GetInterface False (mode_of c) ?x) < 2 ^ 60"
    "length (enc_OutGetInterface False (mode_of c) (sample_answer ?x)) < 2 ^ 60"
    by (simp_all add: enc_GetInterface_def enc_id_def enc_scalar_def enc_OutGetInterface_def enc_interface_def
        interface_octets_def enc_data_flags_def)
  have ok: "interface_valid (ogi_properties (sample_answer ?x))"
    by (simp add: sample_answer_def interface_valid_def df_valid_def df_default_def)
  have h: "handles sample_handler (\<lambda>x. x = ?x) (\<lambda>y. y = sample_answer ?x) (gpk_new :: client_id)"
    by (simp add: handles_def sample_handler_def default_checkPoliciesCompliance_def)
  have an: "answers calling_server ?calls c (getId (GetInterface_info False)) (handleDataCommon ?E sample_handler)"
    by (rule sample_answers) (simp_all add: rd(2,6))
  have f: "ch_serialize sample_client_handler = serialize_GetInterface ?E" "ch_deserialize sample_client_handler = deserialize_OutGetInterface ?E"
    "dh_InputType sample_handler = ch_InputType sample_client_handler" "dh_OutputType sample_handler = ch_OutputType sample_client_handler"
    "dh_deserialize sample_handler = deserialize_GetInterface ?E" "dh_serialize sample_handler = serialize_OutGetInterface ?E"
    "dh_kMinimumInterfaceVersion sample_handler \<le> m_interfaceVersion c"
    "getId (ch_InputType sample_client_handler) = getId (GetInterface_info False)"
    using rd(3) by (simp_all add: sample_handler_def sample_client_handler_def)
  show ?thesis
    using call_returns_output [OF cd mem rd(1) f(1,2) _ refl rd(4) l(1) TrueI conjI [OF rd(5) ok] l(2) f(3-6) h TrueI f(7), where calls = ?calls and p = id and q = id
        and old = "OutGetInterface kUndefinedInterface" and s = calling_server] rd(2) an f(8)
    by (simp add: sample_answer_def)
qed

end
