(* ===== verification/ErrorReplies.thy ===== *)
theory ErrorReplies
  imports Rpc
begin

text \<open>
  Requests that are answered by a status: no handler is there, it refuses or fails, or it has
  no output. The server writes a status message, from which the client has the status.
\<close>

section \<open>Status messages\<close>

definition status_reply :: "sdata \<Rightarrow> status \<Rightarrow> byte list" where
  "status_reply c st =
     common_header (m_protocolVersion c) Msg_Status (getCommonFlags c) @ obj_bytes (m_bigEndianFormat c) (status_word st)"

lemma status_reply_sent:
  assumes mem: "\<not> memory_out E" and s: "sendable E T c" and out: "vec_rep out []"
  shows "\<exists>b. serializeFullContext_output E out (m_protocolVersion c) (getCommonFlags c) st = (NoError, b)
     \<and> vec_rep b (status_reply c st)"
proof -
  let ?c = "scommon_new E out (m_protocolVersion c) Msg_Status (getCommonFlags c)"
  have ib: "common_inv (big_endian E) c" and sup: "isProtocolVersionSupported (m_protocolVersion c)"
    and df: "m_endiannessNotMatch c \<longrightarrow> m_endiannessDifference c"
    using s by (auto simp: sendable_def body_ctx_def)
  have f: "m_protocolVersion ?c = m_protocolVersion c" "m_messageType ?c = Msg_Status" "getCommonFlags ?c = getCommonFlags c"
    "m_bigEndianFormat ?c = m_bigEndianFormat c" "common_inv (big_endian E) ?c"
    "m_endiannessNotMatch ?c \<longrightarrow> m_endiannessDifference ?c"
    using ib df
    by (simp_all add: scommon_new_fields getCommonFlags_tests)
      (auto simp: scommon_new_def common_new_def setCommonFlags_def common_inv_def getCommonFlags_tests)
  have m: "status_message ?c st = status_reply c st" by (simp add: status_message_def status_reply_def f)
  have "emits E (\<lambda>c. serializeFullContext E c st False) (status_reply c st) ?c"
    using emits_serializeFullContext [OF f(5), of False st] f sup m by simp
  from emits_total [OF this mem scommon_new_rep [OF out]] show ?thesis
    by (auto simp: serializeFullContext_output_def status_reply_def common_header_def)
qed

lemma client_reads_status:
  assumes mem: "\<not> memory_out E" and s: "sendable E T c" and pv: "m_protocolVersion c = getLatestProtocolVersion"
    and b: "vec_rep b (status_reply c st)" and st: "status_of_word (status_word st) = st"
  shows "client_reply E cl CH (c\<lparr>m_binaryData := b0\<rparr>) b out ap = Some (st, out, ap)"
proof -
  let ?ms = "status_reply c st"
  let ?cf = "getCommonFlags c"
  have w: "walker_rep \<lparr>m_vector = b, m_offset = 0\<rparr> ?ms 0" using b by (simp add: walker_rep_def)
  have len: "length ?ms = 12" by (simp add: status_reply_def)
  have fl: "cf_bigEndianFormat ?cf = big_endian E \<or> cf_endiannessDifference ?cf"
    using s by (auto simp: getCommonFlags_tests sendable_def body_ctx_def common_inv_def)
  have t: "take 8 ?ms = common_header getLatestProtocolVersion Msg_Status ?cf" by (simp add: status_reply_def pv)
  obtain cc where cc: "common_deserialize E (dcommon_new E \<lparr>m_vector = b, m_offset = 0\<rparr> getLatestProtocolVersion Msg_Data
      (cf_default False (big_endian E))) = (NoError, cc)" "m_messageType cc = Msg_Status" "getCommonFlags cc = ?cf"
    "common_inv (big_endian E) cc" "m_bigEndianFormat cc = m_bigEndianFormat c" "walker_rep (m_binaryData cc) ?ms 8"
    using common_deserialize_new [OF w _ t getCommonFlags_tests(4) _ _ _ fl, of getLatestProtocolVersion Msg_Data "cf_default False (big_endian E)"]
      len s pv by (auto simp: message_of_word_def getCommonFlags_tests sendable_def)
  have d: "drop 8 ?ms = obj_bytes (m_bigEndianFormat cc) (status_word st)" by (simp add: status_reply_def cc(5))
  obtain cc' where "status_deserialize E cc NoError = (NoError, cc', st)"
    using parsesD [OF parses_status_deserialize [OF cc(4), of NoError st] cc(6)] len d st by (force simp: ctx_simps)
  then show ?thesis using cc(1-3) by (simp add: client_reply_def cf_eq_def Let_def)
qed

section \<open>The server\<close>

text \<open>A handler that answers a request by a status alone: it leaves the output empty.\<close>

definition declines :: "env \<Rightarrow> sdata \<Rightarrow> byte list \<Rightarrow> returning_call \<Rightarrow> client_id \<Rightarrow> status \<Rightarrow> bool" where
  "declines E c bs call cid st \<longleftrightarrow>
     (\<forall>d out. opened E c bs d \<and> vec_rep out [] \<longrightarrow> (\<exists>d'. call d cid out = (st, d', out)))"

text \<open>Why a request for a struct has only a status for an answer.\<close>

definition refuses ::
    "env \<Rightarrow> registrar \<Rightarrow> (nat \<Rightarrow> returning_call) \<Rightarrow> sdata \<Rightarrow> uuid \<Rightarrow> byte list \<Rightarrow> client_id \<Rightarrow> status \<Rightarrow> bool" where
  "refuses E r calls c uid bs cid st \<longleftrightarrow>
     equal_range r uid = [] \<and> st = ErrorNoSuchHandler
     \<or> (\<exists>h. equal_range r uid = [h] \<and> h_state h \<noteq> Active) \<and> st = ErrorNotAvailible
     \<or> (\<exists>call. serves_struct r calls uid call \<and> declines E c bs call cid st)"

lemma refuses_handleData:
  assumes r: "refuses E r calls c (getId T) bs cid st" and o: "opened E c bs d" and out: "vec_rep out []"
    and d: "data_deserializeNoChecks E (data_of_common cc df_default True kInterfaceVersionUndefined None None :: ddata) kNullUuid
         = (NoError, d, getId T)"
    and fl: "\<not> m_allowUnmanagedPointers d" "\<not> m_checkRecursivePointers d"
  shows "\<exists>w. server_handleData E (generic_ops E calls) cc cid out r = Returned (st, w, out, r)"
  using r unfolding refuses_def
proof (elim disjE)
  assume "\<exists>call. serves_struct r calls (getId T) call \<and> declines E c bs call cid st"
  then obtain call where call: "serves_struct r calls (getId T) call" "declines E c bs call cid st" by blast
  obtain d' where d': "call d cid out = (st, d', out)" using call(2) o out by (auto simp: declines_def)
  obtain p r' where "op_aquireHandler (generic_ops E calls) (getId T) 0 r = (NoError, p, r')"
    "op_handleDataCommon (generic_ops E calls) r' p = Some (returning call)" "op_releaseHandler (generic_ops E calls) p r' = Some r"
    using serves_struct_aquire [OF call(1)] by blast
  then show ?thesis using d fl d' by (simp add: server_handleData_def returning_def Let_def)
qed (use d fl in \<open>auto simp: server_handleData_def generic_ops_def registrar_interface_def aquireHandler_def Let_def\<close>)

lemma handleMessage_refused:
  assumes mem: "\<not> memory_out E" and s: "sendable E T c" "m_messageType c = Msg_Data" "\<not> df_allowUnmanagedPointers (m_dataFlags c)"
    and w: "walker_rep w (data_message (big_endian E) T c xs) 0" "length xs < 2 ^ 61" and out: "vec_rep out ys"
    and set: "settings_getOldestProtocolVersion settings \<le> m_protocolVersion c"
      "testCommonFlagsCompatibility (getCommonFlags c) (m_forbiddenCommonFlags settings) (m_mandatoryCommonFlags settings) = NoError"
    and r: "refuses E r calls c (getId T) (data_message (big_endian E) T c xs) cid st"
  shows "\<exists>w' b. handleMessage E (generic_ops E calls) p q settings w cid out r = Returned (st, w', b, r)
     \<and> vec_rep b (status_reply c st)"
proof -
  let ?ms = "data_message (big_endian E) T c xs"
  from data_message_opened [OF s(1,2) w set(1), of "cf_default False (big_endian E)"] obtain cc d where
    cc: "common_deserialize E (dcommon_new E w (settings_getOldestProtocolVersion settings) Msg_Data (cf_default False (big_endian E))) = (NoError, cc)"
      "m_messageType cc = Msg_Data" "getCommonFlags cc = getCommonFlags c" "m_protocolVersion cc = m_protocolVersion c"
    and d: "data_deserializeNoChecks E (data_of_common cc df_default True kInterfaceVersionUndefined None None :: ddata) kNullUuid
         = (NoError, d, getId T)" "opened E c ?ms d" by blast
  have fl: "\<not> m_allowUnmanagedPointers d" "\<not> m_checkRecursivePointers d"
    using d(2) s(3) opened_mode [OF d(2)] by (auto simp: opened_def body_ctx_def data_inv_def)
  have cl: "vec_rep (vec_clear octet out) []" using raw.clear_ok(1) [OF out, of 0] by (simp add: octet_eq)
  obtain w' where sh: "server_handleData E (generic_ops E calls) cc cid (vec_clear octet out) r = Returned (st, w', vec_clear octet out, r)"
    using refuses_handleData [OF r d(2) cl d(1) fl] by blast
  obtain b where b: "serializeFullContext_output E (vec_clear octet out) (m_protocolVersion c) (getCommonFlags c) st = (NoError, b)"
    "vec_rep b (status_reply c st)" using status_reply_sent [OF mem s(1) cl] by blast
  have z: "vec_size (vec_clear octet out) = 0" using cl by (simp add: vec_size_zero)
  then show ?thesis using cc set(2) sh b by (simp add: handleMessage_def set_new_error_def Let_def)
qed

text \<open>
  An exception that leaves the handler leaves the server too, and the use of the handler stays
  counted in the registrar.
\<close>

lemma handleMessage_thrown:
  assumes s: "sendable E T c" "m_messageType c = Msg_Data"
    and w: "walker_rep w (data_message (big_endian E) T c xs) 0" "length xs < 2 ^ 61"
    and set: "settings_getOldestProtocolVersion settings \<le> m_protocolVersion c"
      "testCommonFlagsCompatibility (getCommonFlags c) (m_forbiddenCommonFlags settings) (m_mandatoryCommonFlags settings) = NoError"
    and h: "registrar_good r" "equal_range r (getId T) = [h]" "h_state h = Active"
    and throws: "\<And>d out. calls (h_handler h) d cid out = None"
  shows "handleMessage E (registrar_interface E calls) p q settings w cid out r = Thrown (fetch_add (h_node h) r)"
proof -
  from data_message_opened [OF s w set(1), of "cf_default False (big_endian E)"] obtain cc d where
    cc: "common_deserialize E (dcommon_new E w (settings_getOldestProtocolVersion settings) Msg_Data (cf_default False (big_endian E))) = (NoError, cc)"
      "m_messageType cc = Msg_Data" "getCommonFlags cc = getCommonFlags c" "m_protocolVersion cc = m_protocolVersion c"
    and d: "data_deserializeNoChecks E (data_of_common cc df_default True kInterfaceVersionUndefined None None :: ddata) kNullUuid
         = (NoError, d, getId T)" by blast
  have "op_handleDataCommon (registrar_interface E calls) (fetch_add (h_node h) r) (h_node h) = Some (calls (h_handler h))"
    using acquired_node [OF h(1,2)] by (auto simp: registrar_interface_def)
  moreover have "op_aquireHandler (registrar_interface E calls) (getId T) 0 r = (NoError, h_node h, fetch_add (h_node h) r)"
    using h by (simp add: registrar_interface_def aquireHandler_def)
  ultimately have "server_handleData E (registrar_interface E calls) cc cid b r = Thrown (fetch_add (h_node h) r)" for b
    using d throws by (simp add: server_handleData_def Let_def)
  then show ?thesis using cc set(2) by (simp add: handleMessage_def Let_def)
qed

section \<open>Handlers\<close>

text \<open>A handler that refuses by its policies, fails, or succeeds and has no output.\<close>

definition answers_status :: "('i, 'o) data_handler \<Rightarrow> ('i \<Rightarrow> bool) \<Rightarrow> client_id \<Rightarrow> status \<Rightarrow> bool" where
  "answers_status H P cid st \<longleftrightarrow>
     \<not> statusSuccess st \<and> (\<forall>d. dh_checkPoliciesCompliance H d cid = st)
     \<or> (dh_kForTempUseHeap H \<longrightarrow> heap_size_ok (dh_inputElem H) \<and> heap_size_ok (dh_outputElem H))
       \<and> (\<forall>d. dh_checkPoliciesCompliance H d cid = NoError)
       \<and> (\<forall>x. P x \<longrightarrow> (\<exists>st' ap y. dh_handleData H x None cid (dh_newOutput H) = (st', ap, y)
            \<and> (if statusSuccess st' then dh_outputIsDummy H \<and> st = NoError else st = st')))"

lemma handleDataMain_status:
  assumes c: "codec E rep init ok enc ser (dh_deserialize H)" and mem: "\<not> memory_out E"
    and o: "opened E c (data_message (big_endian E) T c (enc (mode_of c) m)) d"
    and m: "ok (mode_of c) m" "length (enc (mode_of c) m) < 2 ^ 60" and i: "init x0"
    and H: "\<And>x. rep x m \<Longrightarrow> \<exists>st' ap y. dh_handleData H x None cid (dh_newOutput H) = (st', ap, y)
            \<and> (if statusSuccess st' then dh_outputIsDummy H \<and> st = NoError else st = st')"
  shows "\<exists>d'. handleDataMain E H x0 d cid (dh_newOutput H) out = (st, d', out)"
proof -
  let ?ms = "data_message (big_endian E) T c (enc (mode_of c) m)"
  have len: "length ?ms = 32 + length (enc (mode_of c) m)" "drop 32 ?ms = enc (mode_of c) m" by (simp_all add: data_message_def)
  have d: "body_ctx E d" "mode_of d = mode_of c" "walker_rep (m_binaryData d) ?ms 32" "m_pAddedPointers d = None"
    using o by (simp_all add: opened_def)
  have rd: "reads E (\<lambda>d. dh_deserialize H d x0) (enc (mode_of c) m) d (\<lambda>x. rep x m)"
    using codec.des_reads [OF c d(1) i, of m] m(1) d(2) by simp
  obtain w x where x: "dh_deserialize H (d\<lparr>m_binaryData := m_binaryData d\<rparr>) x0 = (NoError, d\<lparr>m_binaryData := w\<rparr>, x)" "rep x m"
    using rd d(3) by (rule readsE) (use len m(2) mem in auto)
  obtain st' ap y where "dh_handleData H x None cid (dh_newOutput H) = (st', ap, y)"
    "if statusSuccess st' then dh_outputIsDummy H \<and> st = NoError else st = st'" using H [OF x(2)] by blast
  then show ?thesis using x(1) d(4) by (auto simp: handleDataMain_def split: if_splits)
qed

lemma handler_declines:
  assumes c: "codec E rep init ok enc ser (dh_deserialize H)" and mem: "\<not> memory_out E"
    and s: "current (dh_InputType H) (m_interfaceVersion c) (m_dataFlags c)" "\<not> df_allowUnmanagedPointers (m_dataFlags c)"
    and m: "ok (mode_of c) m" "length (enc (mode_of c) m) < 2 ^ 60" and i: "init (dh_newInput H)"
    and v: "dh_kMinimumInterfaceVersion H \<le> m_interfaceVersion c"
    and H: "answers_status H (\<lambda>x. rep x m) cid st"
  shows "declines E c (data_message (big_endian E) T c (enc (mode_of c) m)) (handleDataCommon E H) cid st"
  unfolding declines_def
proof (intro allI impI, elim conjE)
  fix d out
  assume o: "opened E c (data_message (big_endian E) T c (enc (mode_of c) m)) d"
  have p: "data_deserializePostprocessRest (dh_InputType H) d (dh_kMinimumInterfaceVersion H) = (NoError, d)"
    using s v by (intro opened_accepted [OF o]) simp_all
  from H show "\<exists>d'. handleDataCommon E H d cid out = (st, d', out)"
    unfolding answers_status_def
  proof (elim disjE conjE)
    assume h: "dh_kForTempUseHeap H \<longrightarrow> heap_size_ok (dh_inputElem H) \<and> heap_size_ok (dh_outputElem H)"
      "\<forall>d. dh_checkPoliciesCompliance H d cid = NoError"
      "\<forall>x. rep x m \<longrightarrow> (\<exists>st' ap y. dh_handleData H x None cid (dh_newOutput H) = (st', ap, y)
            \<and> (if statusSuccess st' then dh_outputIsDummy H \<and> st = NoError else st = st'))"
    have "handleDataCommon E H d cid out
        = handleDataMain E H (dh_newInput H) (setHeapUseForTemp d (dh_kForTempUseHeap H)) cid (dh_newOutput H) out"
      using h(1,2) p
      by (auto simp: heap_new_ok [OF mem] handleDataCommon_def getMinimumInterfaceVersion_def handleDataOnHeap_def
          handleDataOnStack_def Let_def)
    moreover have "opened E c (data_message (big_endian E) T c (enc (mode_of c) m)) (setHeapUseForTemp d (dh_kForTempUseHeap H))"
      using o by simp
    ultimately show ?thesis using handleDataMain_status [OF c mem _ m i] h(3) by metis
  qed (auto simp: handleDataCommon_def)
qed

section \<open>Client and server\<close>

text \<open>
  A communicator between the client and a server: it brings the octets there and back, and
  tells the client either that it did or what the server's function returned.
\<close>

definition carries :: "'n communicator \<Rightarrow> 'n communicator \<Rightarrow> bool" where
  "carries process peer \<longleftrightarrow>
     (\<forall>i out n. \<exists>st. process i out n = (st, snd (peer i out n)) \<and> (st = NoError \<or> st = fst (peer i out n)))"

lemma refused_status_returned:
  assumes "codec E rep init ok enc ser des" "\<not> memory_out E"
    and "client_ready E cl CH c cf df" "ch_serialize CH = ser" "m_protocolVersion c = getLatestProtocolVersion"
    and "rep x m" "ok (mode_of c) m" "length (enc (mode_of c) m) < 2 ^ 60"
    and "srv_isInited s" "srv_dataHandlersRegistrar s = Some r"
    and "settings_getOldestProtocolVersion (srv_settings s) \<le> m_protocolVersion c"
    and "testCommonFlagsCompatibility (getCommonFlags c) (m_forbiddenCommonFlags (srv_settings s)) (m_mandatoryCommonFlags (srv_settings s)) = NoError"
    and "refuses E r calls c (getId (ch_InputType CH)) (data_message (big_endian E) (ch_InputType CH) c (enc (mode_of c) m)) cid st"
    and "carries process (server_peer E (generic_ops E calls) p q cid)" "status_of_word (status_word st) = st"
  shows "client_handleData E process cl CH x old cf df None s = Some (st, old, None, s)"
proof -
  let ?T = "ch_InputType CH"
  let ?ms = "data_message (big_endian E) ?T c (enc (mode_of c) m)"
  note cd = client_readyD [OF assms(3)]
  obtain c1 b where b: "run (common_serialize E c) (data_serialize E ?T) = (NoError, c1)"
    "\<not> m_allowUnmanagedPointers c1" "\<not> m_checkRecursivePointers c1" "ser x c1 = (NoError, c\<lparr>m_binaryData := b\<rparr>)" "vec_rep b ?ms"
    using remote_call.request_sent [OF remote_call.intro [OF assms(1,1)] assms(3,2,6-8)] by blast
  have len: "length ?ms < 2 ^ 63" "length (enc (mode_of c) m) < 2 ^ 61" using assms(8) by (simp_all add: data_message_def)
  have "\<exists>w' b'. handleMessage E (generic_ops E calls) p q (srv_settings s) w cid bin_new r = Returned (st, w', b', r)
     \<and> vec_rep b' (status_reply c st)" if "walker_rep w ?ms 0" for w
    by (rule handleMessage_refused [OF assms(2) cd(1,5,3) that len(2) bin_new_rep assms(11-13)])
  then obtain b' where b': "server_peer E (generic_ops E calls) p q cid b bin_new s = (st, b', s)" "vec_rep b' (status_reply c st)"
    using server_peer_eq [OF assms(2,9,10) b(5) len(1), of "generic_ops E calls" p q cid bin_new st
        "\<lambda>b. vec_rep b (status_reply c st)"] by blast
  obtain st' where st': "process b bin_new s = (st', b', s)" "st' = NoError \<or> st' = st"
    using assms(14) b'(1) unfolding carries_def by (metis fst_conv snd_conv)
  have "client_reply E cl CH (c\<lparr>m_binaryData := b\<rparr>) b' old None = Some (st, old, None)"
    by (rule client_reads_status [OF assms(2) cd(1) assms(5) b'(2) assms(15)])
  then show ?thesis
    using b(1-4) st' cd(8,9) assms(4) by (auto simp: client_handleData_def Let_def)
qed

section \<open>Claims\<close>

text \<open>
  C4: the status of a request that has no output reaches the client. When the server's
  registrar has no handler for the struct (\<open>ErrorNoSuchHandler\<close>), or one that is being removed
  (\<open>ErrorNotAvailible\<close>), or when the handler's \<open>handleDataCommon\<close> is called and the handler refuses by
  its policies, or fails in \<open>handleData\<close>, or succeeds there and has no output (\<open>answers_status\<close>), the
  client's \<open>handleData\<close> returns exactly that status, whether the communicator passes the status of
  the server on or brings only octets; the output object and the server are left as they were. For
  memory that does not run out, inputs with the \<open>codec\<close> contract and statuses that are listed.
\<close>
theorem status_reaches_client:
  assumes "codec E rep init ok enc ser des" "\<not> memory_out E"
    and "client_ready E cl CH c cf df" "ch_serialize CH = ser" "m_protocolVersion c = getLatestProtocolVersion"
    and "rep x m" "ok (mode_of c) m" "length (enc (mode_of c) m) < 2 ^ 60"
    and "srv_isInited s" "srv_dataHandlersRegistrar s = Some r"
    and "settings_getOldestProtocolVersion (srv_settings s) \<le> m_protocolVersion c"
    and "testCommonFlagsCompatibility (getCommonFlags c) (m_forbiddenCommonFlags (srv_settings s)) (m_mandatoryCommonFlags (srv_settings s)) = NoError"
    and "uid = getId (ch_InputType CH)"
    and "equal_range r uid = [] \<and> st = ErrorNoSuchHandler
      \<or> (\<exists>h. equal_range r uid = [h] \<and> h_state h \<noteq> Active) \<and> st = ErrorNotAvailible
      \<or> serves_struct r calls uid (handleDataCommon E H) \<and> dh_InputType H = ch_InputType CH \<and> dh_deserialize H = des
        \<and> init (dh_newInput H) \<and> dh_kMinimumInterfaceVersion H \<le> m_interfaceVersion c \<and> answers_status H (\<lambda>x. rep x m) cid st"
    and "carries process (server_peer E (generic_ops E calls) p q cid)" "status_of_word (status_word st) = st"
  shows "client_handleData E process cl CH x old cf df None s = Some (st, old, None, s)"
proof -
  note cd = client_readyD [OF assms(3)]
  have "declines E c (data_message (big_endian E) (ch_InputType CH) c (enc (mode_of c) m)) (handleDataCommon E H) cid st"
    if h: "dh_InputType H = ch_InputType CH" "dh_deserialize H = des" "init (dh_newInput H)"
      "dh_kMinimumInterfaceVersion H \<le> m_interfaceVersion c" "answers_status H (\<lambda>x. rep x m) cid st"
  proof (rule handler_declines [where rep = rep and init = init and ok = ok and enc = enc and ser = ser])
    show "codec E rep init ok enc ser (dh_deserialize H)" using assms(1) h(2) by simp
    show "current (dh_InputType H) (m_interfaceVersion c) (m_dataFlags c)" using cd(1) h(1) by (simp add: sendable_current)
  qed (use assms(2,7,8) cd(3) h(3-5) in simp_all)
  then have "refuses E r calls c (getId (ch_InputType CH)) (data_message (big_endian E) (ch_InputType CH) c (enc (mode_of c) m)) cid st"
    using assms(14) unfolding refuses_def assms(13) by blast
  then show ?thesis
    using refused_status_returned [OF assms(1-12) _ assms(15,16)] by blast
qed

text \<open>
  A server whose registrar is empty, and a network that says nothing of the server's status, before
  a server whose handlers are \<open>H\<close>.
\<close>

definition idle_server :: "registrar server" where
  "idle_server = sample_server\<lparr>srv_dataHandlersRegistrar := Some empty_registrar\<rparr>"

definition network :: "(get_interface, out_get_interface) data_handler \<Rightarrow> registrar server communicator" where
  "network H i out s =
     (NoError, snd (server_peer sample_env (generic_ops sample_env (\<lambda>_. handleDataCommon sample_env H)) id id gpk_new i out s))"

definition refusing_handler :: "(get_interface, out_get_interface) data_handler" where
  "refusing_handler = sample_handler\<lparr>dh_checkPoliciesCompliance := \<lambda>ctx cid. ErrorInvalidHash\<rparr>"

definition failing_handler :: "(get_interface, out_get_interface) data_handler" where
  "failing_handler = sample_handler\<lparr>dh_handleData := \<lambda>x ap cid out. (ErrorInvalidArgument, ap, out)\<rparr>"

definition silent_handler :: "(get_interface, out_get_interface) data_handler" where
  "silent_handler = sample_handler\<lparr>dh_outputIsDummy := True\<rparr>"

lemma sample_serves:
  "srv_dataHandlersRegistrar calling_server = Some (snd (sdh_registerHandler sample_handler 100 7 empty_registrar))"
  "serves_struct (snd (sdh_registerHandler sample_handler 100 7 empty_registrar)) (\<lambda>_. call) (getId (GetInterface_info False)) call"
  by (simp_all add: calling_server_def serves_struct_def sdh_registerHandler_def registerHandler_def empty_registrar_def
      equal_range_def registrar_good_def map_inv_def sample_handler_def uuid_eq_iff)

definition sample_call ::
    "(get_interface, out_get_interface) data_handler \<Rightarrow> registrar server
     \<Rightarrow> (status \<times> out_get_interface \<times> nat pointer_keeper vec option \<times> registrar server) option" where
  "sample_call H s = client_handleData sample_env (network H) sample_client sample_client_handler
     (GetInterface (uuid_of_halves False 1 2)) (OutGetInterface kUndefinedInterface) (cf_default False False) df_default None s"

theorem status_reaches_client_witness:
  "sample_call sample_handler idle_server = Some (ErrorNoSuchHandler, OutGetInterface kUndefinedInterface, None, idle_server)
   \<and> sample_call refusing_handler calling_server = Some (ErrorInvalidHash, OutGetInterface kUndefinedInterface, None, calling_server)
   \<and> sample_call failing_handler calling_server = Some (ErrorInvalidArgument, OutGetInterface kUndefinedInterface, None, calling_server)
   \<and> sample_call silent_handler calling_server = Some (NoError, OutGetInterface kUndefinedInterface, None, calling_server)"
proof -
  let ?E = "sample_env"
  let ?x = "GetInterface (uuid_of_halves False 1 2)"
  define c where "c = client_request ?E sample_client sample_client_handler (cf_default False False) df_default"
  note rd = sample_client_ready [OF c_def]
  have cd: "codec ?E (=) (\<lambda>_. True) (\<lambda>md _. latest_form (GetInterface_info False) md)
      (enc_GetInterface False) (serialize_GetInterface ?E) (deserialize_GetInterface ?E)"
    using GetInterface_codec [of ?E] by simp
  have mem: "\<not> memory_out ?E" by (simp add: memory_out_def)
  have l: "length (enc_GetInterface False (mode_of c) ?x) < 2 ^ 60"
    by (simp add: enc_GetInterface_def enc_id_def enc_scalar_def)
  have sv: "settings_getOldestProtocolVersion (sample_settings [1] []) \<le> m_protocolVersion c"
    using oldest_version [OF sample_settings_rep [of "[1]" "[]"]] rd(2) by simp
  have fl: "testCommonFlagsCompatibility (getCommonFlags c) (m_forbiddenCommonFlags (sample_settings [1] []))
      (m_mandatoryCommonFlags (sample_settings [1] [])) = NoError"
    by (simp add: rd(6) sample_settings_def testCommonFlagsCompatibility_def cf_or_word_def cf_or_def
        cf_and_def cf_of_def cf_bool_def cf_eq_def)
  have srv: "srv_isInited idle_server" "srv_dataHandlersRegistrar idle_server = Some empty_registrar" "srv_isInited calling_server"
    "srv_settings idle_server = sample_settings [1] []" "srv_settings calling_server = sample_settings [1] []"
    by (simp_all add: idle_server_def calling_server_def sample_server_def)
  have ser: "ch_serialize sample_client_handler = serialize_GetInterface ?E" by (simp add: sample_client_handler_def)
  have cr: "carries (network H) (server_peer ?E (generic_ops ?E (\<lambda>_. handleDataCommon ?E H)) id id gpk_new)" for H
    by (simp add: carries_def network_def)
  have st: "status_of_word (status_word ErrorNoSuchHandler) = ErrorNoSuchHandler" "status_of_word (status_word ErrorInvalidHash) = ErrorInvalidHash"
    "status_of_word (status_word ErrorInvalidArgument) = ErrorInvalidArgument" "status_of_word (status_word NoError) = NoError"
    by code_simp+
  have T: "ch_InputType sample_client_handler = GetInterface_info False" by (simp add: sample_client_handler_def)
  let ?uid = "getId (GetInterface_info False)"
  have go: "client_handleData ?E (network H) sample_client sample_client_handler ?x (OutGetInterface kUndefinedInterface)
       (cf_default False False) df_default None s = Some (st, OutGetInterface kUndefinedInterface, None, s)"
    if s: "srv_isInited s" "srv_dataHandlersRegistrar s = Some r" "srv_settings s = sample_settings [1] []"
      and st: "status_of_word (status_word st) = st"
      and c: "equal_range r ?uid = [] \<and> st = ErrorNoSuchHandler
        \<or> serves_struct r (\<lambda>_. handleDataCommon ?E H) ?uid (handleDataCommon ?E H)
          \<and> dh_InputType H = GetInterface_info False \<and> dh_deserialize H = deserialize_GetInterface ?E
          \<and> dh_kMinimumInterfaceVersion H = 1 \<and> answers_status H (\<lambda>x. x = ?x) gpk_new st"
    for H s r st
  proof (rule status_reaches_client [OF cd mem rd(1) ser _ refl rd(4) l s(1,2) _ _ refl _ cr st, where H = H])
    show "m_protocolVersion c = getLatestProtocolVersion" using rd(2) by simp
    show "settings_getOldestProtocolVersion (srv_settings s) \<le> m_protocolVersion c" using sv s(3) by simp
    show "testCommonFlagsCompatibility (getCommonFlags c) (m_forbiddenCommonFlags (srv_settings s))
        (m_mandatoryCommonFlags (srv_settings s)) = NoError" using fl s(3) by simp
    show "equal_range r (getId (ch_InputType sample_client_handler)) = [] \<and> st = ErrorNoSuchHandler
      \<or> (\<exists>h. equal_range r (getId (ch_InputType sample_client_handler)) = [h] \<and> h_state h \<noteq> Active) \<and> st = ErrorNotAvailible
      \<or> serves_struct r (\<lambda>_. handleDataCommon ?E H) (getId (ch_InputType sample_client_handler)) (handleDataCommon ?E H)
        \<and> dh_InputType H = ch_InputType sample_client_handler \<and> dh_deserialize H = deserialize_GetInterface ?E
        \<and> True \<and> dh_kMinimumInterfaceVersion H \<le> m_interfaceVersion c \<and> answers_status H (\<lambda>x. x = ?x) gpk_new st"
      using c rd(3) unfolding T by auto
  qed
  have a: "answers_status refusing_handler P gpk_new ErrorInvalidHash" "answers_status failing_handler P gpk_new ErrorInvalidArgument"
    "answers_status silent_handler P gpk_new NoError" for P
    by (simp_all add: answers_status_def refusing_handler_def failing_handler_def silent_handler_def sample_handler_def
        default_checkPoliciesCompliance_def statusSuccess_def)
  have h: "dh_InputType H = GetInterface_info False \<and> dh_deserialize H = deserialize_GetInterface ?E \<and> dh_kMinimumInterfaceVersion H = 1"
    if "H = refusing_handler \<or> H = failing_handler \<or> H = silent_handler" for H
    using that by (auto simp: refusing_handler_def failing_handler_def silent_handler_def sample_handler_def)
  have "equal_range empty_registrar ?uid = []" by (simp add: equal_range_def empty_registrar_def)
  then have 1: "client_handleData ?E (network sample_handler) sample_client sample_client_handler ?x (OutGetInterface kUndefinedInterface)
       (cf_default False False) df_default None idle_server = Some (ErrorNoSuchHandler, OutGetInterface kUndefinedInterface, None, idle_server)"
    by (intro go [OF srv(1,2,4) st(1)]) simp
  have 2: "client_handleData ?E (network H) sample_client sample_client_handler ?x (OutGetInterface kUndefinedInterface)
       (cf_default False False) df_default None calling_server = Some (s, OutGetInterface kUndefinedInterface, None, calling_server)"
    if "H = refusing_handler \<or> H = failing_handler \<or> H = silent_handler" "status_of_word (status_word s) = s"
      "answers_status H (\<lambda>x. x = ?x) gpk_new s" for H s
    using h [OF that(1)] that(3) sample_serves(2) by (intro go [OF srv(3) sample_serves(1) srv(5) that(2)]) simp
  show ?thesis using 1 2 [OF _ st(2) a(1)] 2 [OF _ st(3) a(2)] 2 [OF _ st(4) a(3)] by (simp add: sample_call_def)
qed

section \<open>What a handler supports\<close>

text \<open>
  \<open>getServerHandlerSettings\<close> asks with the headers of a data message of undefined interface
  version, which the handler refuses by the message that names its settings.
\<close>

definition settings_request :: "env \<Rightarrow> client \<Rightarrow> sdata" where
  "settings_request E cl = sdata_new E bin_new (settings_getLatestProtocolVersion (cl_settings cl))
     (m_mandatoryCommonFlags (cl_settings cl)) df_default True kInterfaceVersionUndefined None"

lemma emits_data_serializeNoChecks:
  assumes i: "common_inv (big_endian E) c" and latest: "getLatestInterfaceVersion T \<le> m_interfaceVersion c"
  shows "emits E (data_serializeNoChecks E T)
     (data_header (big_endian E) (m_bigEndianFormat c) (getId T) (m_interfaceVersion c) (m_dataFlags c)) c"
proof -
  have tail: "emits E (\<lambda>ctx. let ctx = (if m_interfaceVersion ctx < getLatestInterfaceVersion T
                       then setInterfaceVersionsNotMatch ctx True else ctx)
            in run (writePrimitive E (df_word (m_dataFlags ctx)) ctx) (\<lambda>ctx. (NoError, ctx)))
      (obj_bytes (m_bigEndianFormat c) (df_word (m_dataFlags c))) c"
    by (subst emits_cong [where g = "\<lambda>ctx. run (writePrimitive E (df_word (m_dataFlags c)) ctx) (\<lambda>ctx. (NoError, ctx))"])
       (use latest i in \<open>auto simp: not_less intro!: emits_run_done emits_writePrimitive\<close>)
  have "emits E (\<lambda>ctx. run (writePrimitive E (m_interfaceVersion ctx) ctx) g)
      (obj_bytes (m_bigEndianFormat c) (m_interfaceVersion c) @ ys) c"
    if "emits E g ys c" for g ys
    by (subst emits_cong [where g = "\<lambda>ctx. run (writePrimitive E (m_interfaceVersion c) ctx) g"])
       (use that i in \<open>auto intro!: emits_run emits_writePrimitive\<close>)
  note step = this [OF tail]
  show ?thesis
    unfolding data_serializeNoChecks_def data_header_def by (rule emits_run, rule emits_uuid, rule step)
qed

lemma settings_request_ok:
  assumes "c = settings_request E cl" "settings_getLatestProtocolVersion (cl_settings cl) = getLatestProtocolVersion"
    and "cf = m_mandatoryCommonFlags (cl_settings cl)" "cf_valid cf" "cf_bigEndianFormat cf = big_endian E \<or> cf_endiannessDifference cf"
  shows "body_ctx E c" "m_protocolVersion c = getLatestProtocolVersion" "m_messageType c = Msg_Data" "getCommonFlags c = cf"
    "m_interfaceVersion c = kInterfaceVersionUndefined" "m_dataFlags c = df_default" "vec_rep (m_binaryData c) []"
    "df_valid (m_dataFlags c)" "isProtocolVersionSupported (m_protocolVersion c)" "\<not> m_allowUnmanagedPointers c"
    "m_bigEndianFormat c = cf_bigEndianFormat cf"
proof -
  show f: "m_protocolVersion c = getLatestProtocolVersion" "m_messageType c = Msg_Data" "getCommonFlags c = cf"
    "m_interfaceVersion c = kInterfaceVersionUndefined" "m_dataFlags c = df_default" "vec_rep (m_binaryData c) []"
    using assms(2-4) by (simp_all add: assms(1) settings_request_def sdata_new_fields scommon_new_rep scommon_new_fields)
  have inv: "common_inv (big_endian E) c" "data_inv c"
    using sdata_new_inv [of E bin_new "settings_getLatestProtocolVersion (cl_settings cl)" "m_mandatoryCommonFlags (cl_settings cl)"
        df_default True kInterfaceVersionUndefined None] by (simp_all add: assms(1) settings_request_def)
  then show "\<not> m_allowUnmanagedPointers c" using f(5) by (simp add: data_inv_def df_default_def df_allowUnmanagedPointers_def)
  show "m_bigEndianFormat c = cf_bigEndianFormat cf" using f(3) getCommonFlags_tests by metis
  show "body_ctx E c"
    using inv assms(3,5) f(5)
    by (auto simp: body_ctx_def data_inv_def assms(1) settings_request_def sdata_new_fields df_default_def df_checkRecursivePointers_def)
  show "df_valid (m_dataFlags c)" by (simp add: f(5) df_valid_def df_default_def)
  show "isProtocolVersionSupported (m_protocolVersion c)" by (simp add: f(1) isProtocolVersionSupported_iff getLatestProtocolVersion_eq)
qed

lemma handler_names_settings:
  assumes mem: "\<not> memory_out E" and o: "opened E c bs d" and out: "vec_rep out []"
    and c: "body_ctx E c" "m_protocolVersion c = getLatestProtocolVersion" "m_interfaceVersion c = kInterfaceVersionUndefined"
    and H: "\<And>d. dh_checkPoliciesCompliance H d cid = NoError" "i_version (getInterface (dh_InputType H)) < kInterfaceVersionUndefined"
  shows "\<exists>d' b. handleDataCommon E H d cid out = (ErrorNotSupportedInterfaceVersion, d', b)
     \<and> vec_rep b (interface_version_error (big_endian E) getLatestProtocolVersion (getCommonFlags c) (dh_kMinimumInterfaceVersion H) (getId (dh_OutputType H)))"
proof -
  have d: "m_interfaceVersion d = kInterfaceVersionUndefined" "getCommonFlags d = getCommonFlags c" "m_protocolVersion d = getLatestProtocolVersion"
    using o c(2,3) opened_mode [OF o] by (simp_all add: opened_def)
  have p: "data_deserializePostprocessRest (dh_InputType H) d (dh_kMinimumInterfaceVersion H) = (ErrorNotSupportedInterfaceVersion, d)"
    using H(2) by (simp add: data_deserializePostprocessRest_def isInterfaceVersionSupported_def d(1) not_le)
  have fl: "cf_bigEndianFormat (getCommonFlags c) \<noteq> big_endian E \<longrightarrow> cf_endiannessDifference (getCommonFlags c)"
    using c(1) by (auto simp: getCommonFlags_tests body_ctx_def common_inv_def)
  obtain b where "serializeErrorNotSupportedInterfaceVersion E getLatestProtocolVersion (getCommonFlags c) (dh_kMinimumInterfaceVersion H)
      (getId (dh_OutputType H)) out = (NoError, b)"
    "vec_rep b (interface_version_error (big_endian E) getLatestProtocolVersion (getCommonFlags c) (dh_kMinimumInterfaceVersion H) (getId (dh_OutputType H)))"
    using serialize_interface_version_error [OF getLatestProtocolVersion_eq getCommonFlags_tests(4) fl mem out] by auto
  then show ?thesis by (simp add: handleDataCommon_def H(1) p getMinimumInterfaceVersion_def d)
qed

lemma handleMessage_called:
  assumes s: "body_ctx E c" "isProtocolVersionSupported (m_protocolVersion c)" "df_valid (m_dataFlags c)" "m_messageType c = Msg_Data"
      "\<not> m_allowUnmanagedPointers c"
    and w: "walker_rep w (data_message (big_endian E) T c xs) 0" "length xs < 2 ^ 61" and out: "vec_rep out ys"
    and set: "settings_getOldestProtocolVersion settings \<le> m_protocolVersion c"
      "testCommonFlagsCompatibility (getCommonFlags c) (m_forbiddenCommonFlags settings) (m_mandatoryCommonFlags settings) = NoError"
    and r: "serves_struct r calls (getId T) call"
    and call: "\<And>d out. opened E c (data_message (big_endian E) T c xs) d \<Longrightarrow> vec_rep out [] \<Longrightarrow>
      \<exists>d' b. call d cid out = (st, d', b) \<and> vec_rep b zs" and zs: "zs \<noteq> []"
  shows "\<exists>w' b. handleMessage E (generic_ops E calls) p q settings w cid out r = Returned (st, w', b, r) \<and> vec_rep b zs"
proof -
  let ?ms = "data_message (big_endian E) T c xs"
  from message_opened [OF s(1-4) w set(1), of "cf_default False (big_endian E)"] obtain cc d where
    cc: "common_deserialize E (dcommon_new E w (settings_getOldestProtocolVersion settings) Msg_Data (cf_default False (big_endian E))) = (NoError, cc)"
      "m_messageType cc = Msg_Data" "getCommonFlags cc = getCommonFlags c"
    and d: "data_deserializeNoChecks E (data_of_common cc df_default True kInterfaceVersionUndefined None None :: ddata) kNullUuid
         = (NoError, d, getId T)" "opened E c ?ms d" by blast
  have fl: "\<not> m_allowUnmanagedPointers d" "\<not> m_checkRecursivePointers d"
    using d(2) s(1,5) opened_mode [OF d(2)] by (auto simp: opened_def body_ctx_def data_inv_def)
  have cl: "vec_rep (vec_clear octet out) []" using raw.clear_ok(1) [OF out, of 0] by (simp add: octet_eq)
  obtain d' b where b: "call d cid (vec_clear octet out) = (st, d', b)" "vec_rep b zs" using call [OF d(2) cl] by blast
  obtain pH r' where "op_aquireHandler (generic_ops E calls) (getId T) 0 r = (NoError, pH, r')"
    "op_handleDataCommon (generic_ops E calls) r' pH = Some (returning call)"
    "op_releaseHandler (generic_ops E calls) pH r' = Some r" using serves_struct_aquire [OF r] by blast
  then have "server_handleData E (generic_ops E calls) cc cid (vec_clear octet out) r = Returned (st, m_binaryData d', b, r)"
    using d(1) fl b(1) by (simp add: server_handleData_def returning_def Let_def)
  moreover have "vec_size b \<noteq> 0" using vec_size_zero [OF b(2)] zs by simp
  ultimately show ?thesis using cc set(2) b(2) by (simp add: handleMessage_def Let_def)
qed

text \<open>
  C19: a client learns what a handler supports. \<open>getServerHandlerSettings\<close> for a struct whose
  handler is registered gives the handler's minimum interface version and the id of its
  output, when the communicator reports its own success; over a communicator that passes the
  status of \<open>handleMessage\<close> on, as those of the tests do, the same reply arrives but the client
  returns \<open>ErrorNotSupportedInterfaceVersion\<close>, the status by which the server marks it, without
  reading it.
\<close>
theorem handler_settings_reported:
  assumes "\<not> memory_out E" "c = settings_request E cl" "cl_isValid cl"
    and "getInterfaceVersion cl (i_id (getInterface T)) \<noteq> kInterfaceVersionUndefined"
    and "settings_getLatestProtocolVersion (cl_settings cl) = getLatestProtocolVersion"
    and "cf = m_mandatoryCommonFlags (cl_settings cl)" "cf_valid cf" "cf_bigEndianFormat cf = big_endian E \<or> cf_endiannessDifference cf"
    and "dh_InputType H = T" "i_version (getInterface T) < kInterfaceVersionUndefined"
    and "\<And>d. dh_checkPoliciesCompliance H d cid = NoError"
    and "answers s calls c (getId T) (handleDataCommon E H)"
  shows "getServerHandlerSettings E (\<lambda>i out s. (NoError, snd (server_peer E (generic_ops E calls) p q cid i out s))) cl T v0 id0 s
       = (NoError, dh_kMinimumInterfaceVersion H, getId (dh_OutputType H), s)
     \<and> getServerHandlerSettings E (server_peer E (generic_ops E calls) p q cid) cl T v0 id0 s
       = (ErrorNotSupportedInterfaceVersion, v0, id0, s)"
proof -
  let ?ms = "data_message (big_endian E) T c []"
  let ?rep = "interface_version_error (big_endian E) getLatestProtocolVersion cf (dh_kMinimumInterfaceVersion H) (getId (dh_OutputType H))"
  note c = settings_request_ok [OF assms(2,5-8)]
  obtain r where r: "srv_isInited s" "srv_dataHandlersRegistrar s = Some r"
    "settings_getOldestProtocolVersion (srv_settings s) \<le> m_protocolVersion c"
    "testCommonFlagsCompatibility (getCommonFlags c) (m_forbiddenCommonFlags (srv_settings s)) (m_mandatoryCommonFlags (srv_settings s)) = NoError"
    "serves_struct r calls (getId T) (handleDataCommon E H)"
    using assms(12) unfolding answers_def by blast
  have cs: "emits E (\<lambda>c. run (common_serialize E c) (data_serializeNoChecks E T)) ?ms c"
    using c(1,5,9) unfolding data_message_def append_Nil2
    by (intro emits_run emits_common_serialize emits_data_serializeNoChecks) (simp_all add: body_ctx_def undefined_is_greatest)
  obtain c1 b where b: "run (common_serialize E c) (data_serializeNoChecks E T) = (NoError, c1)" "m_binaryData c1 = b" "vec_rep b ?ms"
    using emits_total [OF cs assms(1) c(7)] by (auto simp: data_message_def)
  have H: "i_version (getInterface (dh_InputType H)) < kInterfaceVersionUndefined" using assms(9,10) by simp
  have hd: "\<exists>d' b. handleDataCommon E H d cid out = (ErrorNotSupportedInterfaceVersion, d', b) \<and> vec_rep b ?rep"
    if "opened E c ?ms d" "vec_rep out []" for d out
    using handler_names_settings [OF assms(1) that c(1,2,5) assms(11) H] unfolding c(4) .
  have "length ?rep = 32" by (simp add: interface_version_error_def)
  then have z: "?rep \<noteq> []" by auto
  have "\<exists>w' b'. handleMessage E (generic_ops E calls) p q (srv_settings s) w cid bin_new r = Returned (ErrorNotSupportedInterfaceVersion, w', b', r)
     \<and> vec_rep b' ?rep" if "walker_rep w ?ms 0" for w
    by (rule handleMessage_called [OF c(1,9,8,3,10) that _ bin_new_rep r(3,4,5) hd z]) simp_all
  then obtain b' where b': "server_peer E (generic_ops E calls) p q cid b bin_new s = (ErrorNotSupportedInterfaceVersion, b', s)" "vec_rep b' ?rep"
    using server_peer_eq [OF assms(1) r(1,2) b(3), of "generic_ops E calls" p q cid bin_new ErrorNotSupportedInterfaceVersion
        "\<lambda>b. vec_rep b ?rep"] by (auto simp: data_message_def)
  have w: "walker_rep \<lparr>m_vector = b', m_offset = 0\<rparr> ?rep 0" using b'(2) by (simp add: walker_rep_def)
  have t: "take 8 ?rep = common_header getLatestProtocolVersion Msg_Status cf" by (simp add: interface_version_error_def)
  obtain cc where cc: "common_deserialize E (dcommon_new E \<lparr>m_vector = b', m_offset = 0\<rparr> getLatestProtocolVersion Msg_Data
      (cf_default False (big_endian E))) = (NoError, cc)" "m_messageType cc = Msg_Status"
    "common_inv (big_endian E) cc" "m_bigEndianFormat cc = cf_bigEndianFormat cf" "walker_rep (m_binaryData cc) ?rep 8"
    using common_deserialize_new [OF w _ t assms(7) _ _ _ assms(8), of getLatestProtocolVersion Msg_Data "cf_default False (big_endian E)"]
    by (auto simp: message_of_word_def interface_version_error_def isProtocolVersionSupported_iff getLatestProtocolVersion_eq)
  have d: "drop 8 ?rep = obj_bytes (m_bigEndianFormat cc) (status_word ErrorNotSupportedInterfaceVersion)
      @ obj_bytes (m_bigEndianFormat cc) (dh_kMinimumInterfaceVersion H) @ uuid_bytes (big_endian E) (getId (dh_OutputType H))"
    by (simp add: interface_version_error_def cc(4))
  obtain d1 d2 where dd: "status_deserialize E cc NoError = (NoError, d1, ErrorNotSupportedInterfaceVersion)"
    "body_deserializeErrorNotSupportedInterfaceVersion E d1 v0 id0 = (NoError, d2, dh_kMinimumInterfaceVersion H, getId (dh_OutputType H))"
    using deserialize_interface_version_error [OF cc(3,5) _ refl d, of NoError v0 id0] by (auto simp: interface_version_error_def)
  have ns: "\<not> statusSuccess ErrorNotSupportedInterfaceVersion" by simp
  have "getServerHandlerSettings E process cl T v0 id0 s =
      (let (st, binOutput, n) = process b bin_new s
       in if \<not> statusSuccess st then (st, v0, id0, n) else
          let ctxOut = dcommon_new E \<lparr>m_vector = binOutput, m_offset = 0\<rparr> getLatestProtocolVersion Msg_Data
                                 (cf_default False (big_endian E));
                      (st, ctxOut) = common_deserialize E ctxOut
                  in if \<not> statusSuccess st then (st, v0, id0, n)
                     else if m_messageType ctxOut \<noteq> Msg_Status then (ErrorDataCorrupted, v0, id0, n)
                     else
                       let (st, ctxOut, statusOut) = status_deserialize E ctxOut NoError
                       in if \<not> statusSuccess st then (st, v0, id0, n)
                          else if statusSuccess statusOut then (ErrorDataCorrupted, v0, id0, n)
                          else if statusOut \<noteq> ErrorNotSupportedInterfaceVersion then (statusOut, v0, id0, n)
                          else
                            let (st, _, v, i) = body_deserializeErrorNotSupportedInterfaceVersion E ctxOut v0 id0
                            in (st, v, i, n))" for process :: "registrar server communicator"
    using assms(2-4) b(1,2) by (simp add: getServerHandlerSettings_def settings_request_def Let_def)
  then show ?thesis using b'(1) cc(1,2) dd ns by (simp add: Let_def)
qed

theorem handler_settings_reported_witness:
  "getServerHandlerSettings sample_env
     (\<lambda>i out s. (NoError, snd (server_peer sample_env (generic_ops sample_env (\<lambda>_. handleDataCommon sample_env sample_handler)) id id gpk_new i out s)))
     sample_client (GetInterface_info False) 0 kNullUuid calling_server
   = (NoError, 1, getId (OutGetInterface_info False), calling_server)"
proof -
  let ?E = "sample_env"
  let ?calls = "\<lambda>_ :: nat. handleDataCommon sample_env sample_handler"
  have mem: "\<not> memory_out ?E" by (simp add: memory_out_def)
  define c where "c = client_request ?E sample_client sample_client_handler (cf_default False False) df_default"
  note rd = sample_client_ready [OF c_def] and cd = client_readyD [OF sample_client_ready(1) [OF c_def]]
  have cl: "cl_isValid sample_client" by (simp add: sample_client_def)
  have cf: "m_mandatoryCommonFlags (cl_settings sample_client) = cf_of 0" by (simp add: sample_client_def sample_settings_def)
  have i: "getInterfaceVersion sample_client (i_id (getInterface (GetInterface_info False))) \<noteq> kInterfaceVersionUndefined"
    using cd(6) rd(3) by (simp add: sample_client_handler_def kInterfaceVersionUndefined_def)
  have pv: "settings_getLatestProtocolVersion (cl_settings sample_client) = getLatestProtocolVersion"
    using rd(2) unfolding c_def by (simp add: client_request_def sdata_new_fields getLatestProtocolVersion_eq)
  have e: "cf_bigEndianFormat (cf_of 0) = big_endian ?E \<or> cf_endiannessDifference (cf_of 0)"
    by (simp add: cf_bigEndianFormat_def cf_of_def)
  note sr = settings_request_ok [OF refl pv cf [symmetric] cf_valid_of e]
  have an: "answers calling_server ?calls (settings_request ?E sample_client) (getId (GetInterface_info False)) (handleDataCommon ?E sample_handler)"
    by (rule sample_answers) (simp_all add: sr getLatestProtocolVersion_eq)
  have H: "dh_InputType sample_handler = GetInterface_info False" "dh_kMinimumInterfaceVersion sample_handler = 1"
    "dh_OutputType sample_handler = OutGetInterface_info False" "\<And>d. dh_checkPoliciesCompliance sample_handler d gpk_new = NoError"
    by (simp_all add: sample_handler_def default_checkPoliciesCompliance_def)
  have v: "i_version (getInterface (GetInterface_info False)) < kInterfaceVersionUndefined"
    by (simp add: GetInterface_info_def service_info_def getInterface_def service_properties_def kInterfaceVersionUndefined_def)
  show ?thesis
    using handler_settings_reported [OF mem refl cl i pv cf [symmetric] cf_valid_of e H(1) v H(4) an, of id id 0 kNullUuid] H(2,3) by simp
qed

end
