(* ===== verification/StdContainers.thy ===== *)
theory StdContainers
  imports VectorCodec
begin

text \<open>
  \<open>csp_std_structs_processing/csp_processing_data/TemplateProcessorStd.h\<close>: strings, vectors,
  pairs, maps and tuples of the standard library in the body of a data message. The
  containers are their documented values: a vector is a list, a map a list of pairs in the
  order of its comparison, a string its characters and the terminator behind them. Where the
  library allocates it may throw: \<open>room n\<close> tells whether a container can get \<open>n\<close> elements, and
  the result of \<open>deserialize\<close> is \<open>None\<close> when an exception leaves it.
\<close>

section \<open>Exceptions\<close>

text \<open>\<open>AGS_CS_RUN\<close> around a call that may throw.\<close>

definition run_try ::
    "(status \<times> 'c \<times> 'v) option \<Rightarrow> ('v \<Rightarrow> 'w) \<Rightarrow> ('c \<Rightarrow> 'v \<Rightarrow> (status \<times> 'c \<times> 'w) option)
     \<Rightarrow> (status \<times> 'c \<times> 'w) option" where
  "run_try r e k =
     (case r of
        None \<Rightarrow> None
      | Some (st, ctx, v) \<Rightarrow> if \<not> statusSuccess st then Some (st, ctx, e v) else k ctx v)"

lemma run_try_simps [run_simps]:
  "run_try None e k = None"
  "run_try (Some (st, ctx, v)) e k = (if \<not> statusSuccess st then Some (st, ctx, e v) else k ctx v)"
  by (simp_all add: run_try_def)

section \<open>std::basic_string\<close>

record 'a basic_string =
  s_chars :: "'a list"
  s_terminator :: 'a

definition c_str :: "'a basic_string \<Rightarrow> 'a list" where
  "c_str s = s_chars s @ [s_terminator s]"

definition string_resize :: "(nat \<Rightarrow> bool) \<Rightarrow> 'a \<Rightarrow> u64 \<Rightarrow> 'a basic_string option" where
  "string_resize room null n =
     (if room (unat n) then Some \<lparr>s_chars = replicate (unat n) null, s_terminator = null\<rparr> else None)"

text \<open>What the string is after its buffer was written, the place of the terminator included.\<close>

definition string_of_block :: "'a \<Rightarrow> 'a storage \<Rightarrow> 'a basic_string" where
  "string_of_block null p =
     (case block_objects p of
        [] \<Rightarrow> \<lparr>s_chars = [], s_terminator = null\<rparr>
      | xs \<Rightarrow> \<lparr>s_chars = butlast xs, s_terminator = last xs\<rparr>)"

definition serialize_basic_string ::
    "env \<Rightarrow> 'a ctype \<Rightarrow> ('a \<Rightarrow> sdata \<Rightarrow> status \<times> sdata) \<Rightarrow> (nat \<Rightarrow> nat) \<Rightarrow> 'a basic_string \<Rightarrow> sdata
     \<Rightarrow> status \<times> sdata" where
  "serialize_basic_string E T ser addr value ctx =
     run (serializeSizeT E (of_nat (length (s_chars value))) ctx) (\<lambda>ctx.
     run (serialize_array E T ser addr (c_str value) ctx) (\<lambda>ctx.
     (NoError, ctx)))"

definition deserialize_basic_string ::
    "env \<Rightarrow> (nat \<Rightarrow> bool) \<Rightarrow> 'a ctype \<Rightarrow> (ddata \<Rightarrow> 'a \<Rightarrow> status \<times> ddata \<times> 'a)
     \<Rightarrow> (nat \<Rightarrow> ddata \<Rightarrow> 'a \<Rightarrow> status \<times> ddata \<times> 'a) \<Rightarrow> (nat \<Rightarrow> nat) \<Rightarrow> ddata \<Rightarrow> 'a basic_string
     \<Rightarrow> (status \<times> ddata \<times> 'a basic_string) option" where
  "deserialize_basic_string E room T des des_sized addr ctx value =
     (let value = \<lparr>s_chars = [], s_terminator = t_default T\<rparr>
      in run_try (Some (deserializeSizeT E ctx 0)) (\<lambda>_. value) (\<lambda>ctx size.
           case string_resize room (t_default T) size of
             None \<Rightarrow> None
           | Some value \<Rightarrow>
               run_try (Some (deserialize_array E T des des_sized addr ctx (size + 1) (Cells (map Obj (c_str value)))))
                 (string_of_block (t_default T)) (\<lambda>ctx p.
               Some (NoError, ctx, string_of_block (t_default T) p))))"

section \<open>std::vector\<close>

definition vector_resize :: "(nat \<Rightarrow> bool) \<Rightarrow> 'a \<Rightarrow> u64 \<Rightarrow> 'a list option" where
  "vector_resize room dflt n = (if room (unat n) then Some (replicate (unat n) dflt) else None)"

definition serialize_std_vector ::
    "env \<Rightarrow> 'a ctype \<Rightarrow> ('a \<Rightarrow> sdata \<Rightarrow> status \<times> sdata) \<Rightarrow> (nat \<Rightarrow> nat) \<Rightarrow> 'a list \<Rightarrow> sdata \<Rightarrow> status \<times> sdata" where
  "serialize_std_vector E T ser addr value ctx =
     run (serializeSizeT E (of_nat (length value)) ctx) (\<lambda>ctx.
     run (serialize_array E T ser addr value ctx) (\<lambda>ctx.
     (NoError, ctx)))"

text \<open>\<open>des_array\<close> is \<open>BodyProcessor::deserialize(ctx, n, p)\<close> for the elements, which may throw.\<close>

definition deserialize_std_vector ::
    "env \<Rightarrow> (nat \<Rightarrow> bool) \<Rightarrow> 'a \<Rightarrow> (ddata \<Rightarrow> u64 \<Rightarrow> 'a storage \<Rightarrow> (status \<times> ddata \<times> 'a storage) option)
     \<Rightarrow> ddata \<Rightarrow> 'a list \<Rightarrow> (status \<times> ddata \<times> 'a list) option" where
  "deserialize_std_vector E room dflt des_array ctx value =
     run_try (Some (deserializeSizeT E ctx 0)) (\<lambda>_. []) (\<lambda>ctx size.
       case vector_resize room dflt size of
         None \<Rightarrow> None
       | Some value \<Rightarrow>
           run_try (des_array ctx size (Cells (map Obj value))) block_objects (\<lambda>ctx p.
           Some (NoError, ctx, block_objects p)))"

section \<open>std::pair\<close>

definition serialize_pair ::
    "('a \<Rightarrow> sdata \<Rightarrow> status \<times> sdata) \<Rightarrow> ('b \<Rightarrow> sdata \<Rightarrow> status \<times> sdata) \<Rightarrow> 'a \<times> 'b \<Rightarrow> sdata \<Rightarrow> status \<times> sdata" where
  "serialize_pair ser1 ser2 value ctx =
     run (ser1 (fst value) ctx) (\<lambda>ctx.
     run (ser2 (snd value) ctx) (\<lambda>ctx.
     (NoError, ctx)))"

definition deserialize_pair ::
    "(ddata \<Rightarrow> 'a \<Rightarrow> (status \<times> ddata \<times> 'a) option) \<Rightarrow> (ddata \<Rightarrow> 'b \<Rightarrow> (status \<times> ddata \<times> 'b) option)
     \<Rightarrow> ddata \<Rightarrow> 'a \<times> 'b \<Rightarrow> (status \<times> ddata \<times> 'a \<times> 'b) option" where
  "deserialize_pair des1 des2 ctx value =
     run_try (des1 ctx (fst value)) (\<lambda>x. (x, snd value)) (\<lambda>ctx x.
     run_try (des2 ctx (snd value)) (\<lambda>y. (x, y)) (\<lambda>ctx y.
     Some (NoError, ctx, (x, y))))"

section \<open>std::map\<close>

text \<open>\<open>insert\<close> leaves a map alone that has an element with an equivalent key.\<close>

fun map_insert :: "('k \<Rightarrow> 'k \<Rightarrow> bool) \<Rightarrow> 'k \<times> 'v \<Rightarrow> ('k \<times> 'v) list \<Rightarrow> ('k \<times> 'v) list" where
  "map_insert lt kv [] = [kv]"
| "map_insert lt kv (kv' # m) =
     (if lt (fst kv) (fst kv') then kv # kv' # m
      else if lt (fst kv') (fst kv) then kv' # map_insert lt kv m
      else kv' # m)"

fun serialize_pairs :: "('k \<times> 'v \<Rightarrow> sdata \<Rightarrow> status \<times> sdata) \<Rightarrow> ('k \<times> 'v) list \<Rightarrow> sdata \<Rightarrow> status \<times> sdata" where
  "serialize_pairs ser [] ctx = (NoError, ctx)"
| "serialize_pairs ser (kv # m) ctx = run (ser kv ctx) (\<lambda>ctx. serialize_pairs ser m ctx)"

definition serialize_std_map ::
    "env \<Rightarrow> ('k \<times> 'v \<Rightarrow> sdata \<Rightarrow> status \<times> sdata) \<Rightarrow> ('k \<times> 'v) list \<Rightarrow> sdata \<Rightarrow> status \<times> sdata" where
  "serialize_std_map E ser value ctx =
     run (serializeSizeT E (of_nat (length value)) ctx) (\<lambda>ctx. serialize_pairs ser value ctx)"

fun deserialize_pairs ::
    "(nat \<Rightarrow> bool) \<Rightarrow> ('k \<Rightarrow> 'k \<Rightarrow> bool) \<Rightarrow> 'k \<times> 'v
     \<Rightarrow> (ddata \<Rightarrow> 'k \<times> 'v \<Rightarrow> (status \<times> ddata \<times> 'k \<times> 'v) option) \<Rightarrow> nat \<Rightarrow> ddata \<Rightarrow> ('k \<times> 'v) list
     \<Rightarrow> (status \<times> ddata \<times> ('k \<times> 'v) list) option" where
  "deserialize_pairs room lt dflt des 0 ctx value = Some (NoError, ctx, value)"
| "deserialize_pairs room lt dflt des (Suc n) ctx value =
     run_try (des ctx dflt) (\<lambda>_. value) (\<lambda>ctx element.
       if \<not> room (Suc (length value)) then None
       else deserialize_pairs room lt dflt des n ctx (map_insert lt element value))"

definition deserialize_std_map ::
    "env \<Rightarrow> (nat \<Rightarrow> bool) \<Rightarrow> ('k \<Rightarrow> 'k \<Rightarrow> bool) \<Rightarrow> 'k \<times> 'v
     \<Rightarrow> (ddata \<Rightarrow> 'k \<times> 'v \<Rightarrow> (status \<times> ddata \<times> 'k \<times> 'v) option) \<Rightarrow> ddata \<Rightarrow> ('k \<times> 'v) list
     \<Rightarrow> (status \<times> ddata \<times> ('k \<times> 'v) list) option" where
  "deserialize_std_map E room lt dflt des ctx value =
     run_try (Some (deserializeSizeT E ctx 0)) (\<lambda>_. []) (\<lambda>ctx size.
       deserialize_pairs room lt dflt des (unat size) ctx [])"

section \<open>std::tuple\<close>

text \<open>
  A call for each component, in order, while they succeed: for writing a function of the
  context, for reading one that puts the component into the tuple. The last status is returned.
\<close>

fun serializeTupleHelper :: "(sdata \<Rightarrow> status \<times> sdata) list \<Rightarrow> status \<Rightarrow> sdata \<Rightarrow> status \<times> sdata" where
  "serializeTupleHelper [] status ctx = (status, ctx)"
| "serializeTupleHelper (f # fs) status ctx =
     (let (status, ctx) = f ctx
      in if statusSuccess status then serializeTupleHelper fs status ctx else (status, ctx))"

definition serialize_tuple :: "('t \<Rightarrow> sdata \<Rightarrow> status \<times> sdata) list \<Rightarrow> 't \<Rightarrow> sdata \<Rightarrow> status \<times> sdata" where
  "serialize_tuple fs value ctx = serializeTupleHelper (map (\<lambda>f. f value) fs) NoError ctx"

fun deserializeTupleHelper ::
    "(ddata \<Rightarrow> 't \<Rightarrow> (status \<times> ddata \<times> 't) option) list \<Rightarrow> status \<Rightarrow> ddata \<Rightarrow> 't
     \<Rightarrow> (status \<times> ddata \<times> 't) option" where
  "deserializeTupleHelper [] status ctx value = Some (status, ctx, value)"
| "deserializeTupleHelper (f # fs) status ctx value =
     (case f ctx value of
        None \<Rightarrow> None
      | Some (status, ctx, value) \<Rightarrow>
          if statusSuccess status then deserializeTupleHelper fs status ctx value else Some (status, ctx, value))"

definition deserialize_tuple ::
    "(ddata \<Rightarrow> 't \<Rightarrow> (status \<times> ddata \<times> 't) option) list \<Rightarrow> ddata \<Rightarrow> 't \<Rightarrow> (status \<times> ddata \<times> 't) option" where
  "deserialize_tuple fs ctx value = deserializeTupleHelper fs NoError ctx value"

section \<open>The contract with exceptions\<close>

text \<open>\<open>reads_try\<close> is \<open>reads\<close> for a call that may throw and does not.\<close>

definition reads_try ::
    "env \<Rightarrow> ((byte walker, 'x) ctx \<Rightarrow> (status \<times> (byte walker, 'x) ctx \<times> 'v) option) \<Rightarrow> byte list
     \<Rightarrow> (byte walker, 'x) ctx \<Rightarrow> ('v \<Rightarrow> bool) \<Rightarrow> bool" where
  "reads_try E f xs c R \<longleftrightarrow>
     (\<exists>g. reads E g xs c R \<and>
        (\<forall>w bs k. walker_rep w bs k \<and> length bs < 2 ^ 62 \<and> length xs \<le> length bs - k
           \<and> take (length xs) (drop k bs) = xs \<longrightarrow> f (c\<lparr>m_binaryData := w\<rparr>) = Some (g (c\<lparr>m_binaryData := w\<rparr>))))"

lemma reads_tryE:
  assumes "reads_try E f xs c R" "walker_rep w bs k" "length bs < 2 ^ 62" "length xs \<le> length bs - k"
    "take (length xs) (drop k bs) = xs"
  obtains (ok) w' v where "f (c\<lparr>m_binaryData := w\<rparr>) = Some (NoError, c\<lparr>m_binaryData := w'\<rparr>, v)"
      "walker_rep w' bs (k + length xs)" "R v"
    | (no_memory) w' v where "f (c\<lparr>m_binaryData := w\<rparr>) = Some (ErrorNoMemory, c\<lparr>m_binaryData := w'\<rparr>, v)"
      "memory_out E"
proof -
  obtain g where g: "reads E g xs c R" "f (c\<lparr>m_binaryData := w\<rparr>) = Some (g (c\<lparr>m_binaryData := w\<rparr>))"
    using assms unfolding reads_try_def by blast
  from g(1) assms(2-5) show thesis
    by (cases rule: readsE) (use g(2) ok no_memory in auto)
qed

lemma reads_tryI:
  assumes "\<And>w bs k. \<lbrakk>walker_rep w bs k; length bs < 2 ^ 62; length xs \<le> length bs - k;
      take (length xs) (drop k bs) = xs\<rbrakk> \<Longrightarrow>
      \<exists>st w' v. f (c\<lparr>m_binaryData := w\<rparr>) = Some (st, c\<lparr>m_binaryData := w'\<rparr>, v) \<and>
           (st = NoError \<and> walker_rep w' bs (k + length xs) \<and> R v \<or> st = ErrorNoMemory \<and> memory_out E)"
  shows "reads_try E f xs c R"
  unfolding reads_try_def
proof (intro exI conjI allI impI)
  show "reads E (\<lambda>c. the (f c)) xs c R"
  proof (rule readsI)
    fix w bs k
    assume "walker_rep w bs k" "length bs < 2 ^ 62" "length xs \<le> length bs - k" "take (length xs) (drop k bs) = xs"
    from assms [OF this] show "\<exists>st w' v. the (f (c\<lparr>m_binaryData := w\<rparr>)) = (st, c\<lparr>m_binaryData := w'\<rparr>, v) \<and>
        (st = NoError \<and> walker_rep w' bs (k + length xs) \<and> R v \<or> st = ErrorNoMemory \<and> memory_out E)"
      by (metis option.sel)
  qed
  fix w bs k
  assume "walker_rep w bs k \<and> length bs < 2 ^ 62 \<and> length xs \<le> length bs - k \<and> take (length xs) (drop k bs) = xs"
  then show "f (c\<lparr>m_binaryData := w\<rparr>) = Some (the (f (c\<lparr>m_binaryData := w\<rparr>)))"
    using assms [of w bs k] by auto
qed

lemma reads_try_Some: "reads E f xs c R \<Longrightarrow> reads_try E (\<lambda>c. Some (f c)) xs c R"
  unfolding reads_try_def by blast

lemma reads_try_return: "Q v \<Longrightarrow> reads_try E (\<lambda>c. Some (NoError, c, v)) [] c Q"
  by (rule reads_try_Some) (rule reads_return)

lemma reads_try_run:
  assumes "reads_try E f xs c R" "\<And>v. R v \<Longrightarrow> reads_try E (\<lambda>c. k c v) ys c Q"
  shows "reads_try E (\<lambda>c. run_try (f c) e k) (xs @ ys) c Q"
proof (rule reads_tryI)
  fix w bs n
  assume w: "walker_rep w bs n" and l: "length bs < 2 ^ 62" and m: "length (xs @ ys) \<le> length bs - n"
    and t: "take (length (xs @ ys)) (drop n bs) = xs @ ys"
  note t1 = take_drop_append(1) [OF t] and t2 = take_drop_append(2) [OF t]
  have m1: "length xs \<le> length bs - n" "length ys \<le> length bs - (n + length xs)" using m by simp_all
  show "\<exists>st w' v. run_try (f (c\<lparr>m_binaryData := w\<rparr>)) e k = Some (st, c\<lparr>m_binaryData := w'\<rparr>, v) \<and>
           (st = NoError \<and> walker_rep w' bs (n + length (xs @ ys)) \<and> Q v \<or> st = ErrorNoMemory \<and> memory_out E)"
    using assms(1) w l m1(1) t1
  proof (cases rule: reads_tryE)
    case (ok w1 v)
    show ?thesis
      using assms(2) [OF ok(3)] ok(2) l m1(2) t2
      by (cases rule: reads_tryE) (use ok(1) in \<open>auto simp: run_simps add.assoc intro!: exI\<close>)
  next
    case (no_memory w1 v)
    then show ?thesis by (auto simp: run_simps intro!: exI)
  qed
qed

lemma reads_try_run_done:
  assumes "reads_try E f xs c R" "\<And>v. R v \<Longrightarrow> Q (g v)"
  shows "reads_try E (\<lambda>c. run_try (f c) e (\<lambda>c v. Some (NoError, c, g v))) xs c Q"
  using reads_try_run [OF assms(1), where k = "\<lambda>c v. Some (NoError, c, g v)" and ys = "[]" and Q = Q]
  by (simp add: assms(2) reads_try_return)

locale std_codec =
  fixes E :: env
    and rep :: "'a \<Rightarrow> 'm \<Rightarrow> bool"
    and init :: "'a \<Rightarrow> bool"
    and ok :: "mode \<Rightarrow> 'm \<Rightarrow> bool"
    and enc :: "mode \<Rightarrow> 'm \<Rightarrow> byte list"
    and ser :: "'a \<Rightarrow> sdata \<Rightarrow> status \<times> sdata"
    and des :: "ddata \<Rightarrow> 'a \<Rightarrow> (status \<times> ddata \<times> 'a) option"
  assumes ser_emits: "\<lbrakk>body_ctx E c; rep x m; ok (mode_of c) m\<rbrakk> \<Longrightarrow> emits E (ser x) (enc (mode_of c) m) c"
    and des_reads: "\<lbrakk>body_ctx E d; init old; ok (mode_of d) m\<rbrakk> \<Longrightarrow>
      reads_try E (\<lambda>d. des d old) (enc (mode_of d) m) d (\<lambda>x. rep x m)"

text \<open>What never throws keeps the contract with exceptions.\<close>

lemma codec_never_throws: "codec E rep init ok enc ser des \<Longrightarrow> std_codec E rep init ok enc ser (\<lambda>d x. Some (des d x))"
  unfolding codec_def std_codec_def by (simp add: reads_try_Some)

section \<open>Pairs\<close>

lemma pair_codec:
  assumes a: "std_codec E rep1 init1 ok1 enc1 ser1 des1" and b: "std_codec E rep2 init2 ok2 enc2 ser2 des2"
  shows "std_codec E (rel_prod rep1 rep2) (pred_prod init1 init2) (\<lambda>md m. ok1 md (fst m) \<and> ok2 md (snd m))
     (\<lambda>md m. enc1 md (fst m) @ enc2 md (snd m)) (serialize_pair ser1 ser2) (deserialize_pair des1 des2)"
proof
  fix c :: sdata and x m
  assume c: "body_ctx E c" "rel_prod rep1 rep2 x m" "ok1 (mode_of c) (fst m) \<and> ok2 (mode_of c) (snd m)"
  then have "rep1 (fst x) (fst m)" "rep2 (snd x) (snd m)" by (simp_all add: rel_prod_sel)
  with c show "emits E (serialize_pair ser1 ser2 x) (enc1 (mode_of c) (fst m) @ enc2 (mode_of c) (snd m)) c"
    unfolding serialize_pair_def
    by (intro emits_run emits_run_done std_codec.ser_emits [OF a] std_codec.ser_emits [OF b]) simp_all
next
  fix d :: ddata and old m
  assume d: "body_ctx E d" "pred_prod init1 init2 old" "ok1 (mode_of d) (fst m) \<and> ok2 (mode_of d) (snd m)"
  then have old: "init1 (fst old)" "init2 (snd old)" by (auto simp: pred_prod_beta)
  show "reads_try E (\<lambda>d. deserialize_pair des1 des2 d old) (enc1 (mode_of d) (fst m) @ enc2 (mode_of d) (snd m)) d
      (\<lambda>x. rel_prod rep1 rep2 x m)"
    unfolding deserialize_pair_def using d old
    by (intro reads_try_run [OF std_codec.des_reads [OF a]] reads_try_run_done [OF std_codec.des_reads [OF b]])
       (simp_all add: rel_prod_sel)
qed

section \<open>Maps\<close>

text \<open>An element that is greater than all there are goes to the end.\<close>

lemma map_insert_last:
  "\<lbrakk>\<And>kv'. kv' \<in> set m \<Longrightarrow> lt (fst kv') (fst kv) \<and> \<not> lt (fst kv) (fst kv')\<rbrakk> \<Longrightarrow> map_insert lt kv m = m @ [kv]"
  by (induction m) simp_all

text \<open>\<open>before\<close> is the order of the values that the keys' order \<open>lt\<close> stands for.\<close>

locale map_codec = std_codec E rep init ok enc ser des
  for E :: env
    and rep :: "'k \<times> 'v \<Rightarrow> 'm \<Rightarrow> bool"
    and init :: "'k \<times> 'v \<Rightarrow> bool"
    and ok :: "mode \<Rightarrow> 'm \<Rightarrow> bool"
    and enc :: "mode \<Rightarrow> 'm \<Rightarrow> byte list"
    and ser :: "'k \<times> 'v \<Rightarrow> sdata \<Rightarrow> status \<times> sdata"
    and des :: "ddata \<Rightarrow> 'k \<times> 'v \<Rightarrow> (status \<times> ddata \<times> 'k \<times> 'v) option" +
  fixes room :: "nat \<Rightarrow> bool"
    and lt :: "'k \<Rightarrow> 'k \<Rightarrow> bool"
    and before :: "'m \<Rightarrow> 'm \<Rightarrow> bool"
    and dflt :: "'k \<times> 'v"
  assumes dflt: "init dflt"
    and order: "rep x m \<Longrightarrow> rep x' m' \<Longrightarrow> lt (fst x) (fst x') \<longleftrightarrow> before m m'"
    and asym: "before m m' \<Longrightarrow> \<not> before m' m"
begin

definition ok_map :: "mode \<Rightarrow> 'm list \<Rightarrow> bool" where
  "ok_map md ms \<longleftrightarrow> (\<forall>m \<in> set ms. ok md m) \<and> sorted_wrt before ms \<and> (\<forall>n \<le> length ms. room n)
     \<and> length ms < 2 ^ 64 \<and> ok_size md (of_nat (length ms))"

definition enc_map :: "mode \<Rightarrow> 'm list \<Rightarrow> byte list" where
  "enc_map md ms = enc_size md (of_nat (length ms)) @ concat (map (enc md) ms)"

lemma emits_pairs:
  assumes c: "body_ctx E c"
  shows "list_all2 rep xs ms \<Longrightarrow> \<forall>m \<in> set ms. ok (mode_of c) m \<Longrightarrow>
    emits E (serialize_pairs ser xs) (concat (map (enc (mode_of c)) ms)) c"
proof (induction rule: list_all2_induct)
  case Nil
  then show ?case by (simp add: emits_Nil)
next
  case (Cons x xs m ms)
  have "emits E (\<lambda>c. run (ser x c) (\<lambda>c. serialize_pairs ser xs c))
      (enc (mode_of c) m @ concat (map (enc (mode_of c)) ms)) c"
    using Cons c by (intro emits_run ser_emits) auto
  then show ?case by (subst emits_cong [where g = "\<lambda>c. run (ser x c) (\<lambda>c. serialize_pairs ser xs c)"]) simp_all
qed

lemma insert_last:
  assumes "list_all2 rep xs ms" "rep x m" "\<forall>m' \<in> set ms. before m' m"
  shows "map_insert lt x xs = xs @ [x]"
proof (rule map_insert_last)
  fix x' assume "x' \<in> set xs"
  then obtain i where i: "i < length xs" "x' = xs ! i" by (auto simp: in_set_conv_nth)
  then have r: "rep x' (ms ! i)" using assms(1) by (simp add: list_all2_conv_all_nth)
  have b: "before (ms ! i) m" using assms(1,3) i by (simp add: list_all2_lengthD [OF assms(1)])
  show "lt (fst x') (fst x) \<and> \<not> lt (fst x) (fst x')"
    using b asym [OF b] order [OF r assms(2)] order [OF assms(2) r] by simp
qed

lemma reads_pairs:
  assumes d: "body_ctx E d"
  shows "\<lbrakk>list_all2 rep xs ms; \<forall>m \<in> set ms'. ok (mode_of d) m; sorted_wrt before (ms @ ms');
      \<forall>n \<le> length (ms @ ms'). room n\<rbrakk> \<Longrightarrow>
    reads_try E (\<lambda>d. deserialize_pairs room lt dflt des (length ms') d xs) (concat (map (enc (mode_of d)) ms')) d
      (\<lambda>xs. list_all2 rep xs (ms @ ms'))"
proof (induction ms' arbitrary: xs ms)
  case Nil
  then show ?case by (auto intro!: reads_try_return)
next
  case (Cons m ms')
  have room: "room (Suc (length xs))" using Cons.prems(4) list_all2_lengthD [OF Cons.prems(1)] by simp
  have rest: "reads_try E (\<lambda>d. if \<not> room (Suc (length xs)) then None
      else deserialize_pairs room lt dflt des (length ms') d (map_insert lt x xs)) (concat (map (enc (mode_of d)) ms')) d
      (\<lambda>xs. list_all2 rep xs (ms @ m # ms'))" if x: "rep x m" for x
  proof -
    have i: "map_insert lt x xs = xs @ [x]"
      using Cons.prems(1,3) x by (intro insert_last [of xs ms x m]) (auto simp: sorted_wrt_append)
    have "list_all2 rep (xs @ [x]) (ms @ [m])" using Cons.prems(1) x by (intro list_all2_appendI) simp_all
    from Cons.IH [OF this] Cons.prems(2-4) show ?thesis using room by (simp add: i)
  qed
  from reads_try_run [OF des_reads [OF d dflt] rest] Cons.prems(2) show ?case by simp
qed

lemma codec_map:
  "std_codec E (list_all2 rep) (\<lambda>_. True) ok_map enc_map (serialize_std_map E ser) (deserialize_std_map E room lt dflt des)"
proof
  fix c :: sdata and x m
  assume c: "body_ctx E c" "list_all2 rep x m" "ok_map (mode_of c) m"
  have "length x = length m" using c(2) by (rule list_all2_lengthD)
  with c show "emits E (serialize_std_map E ser x) (enc_map (mode_of c) m) c"
    unfolding serialize_std_map_def enc_map_def
    by (intro emits_run size.ser_emits emits_pairs) (simp_all add: ok_map_def)
next
  fix d :: ddata and old m
  assume d: "body_ctx E d" and o: "ok_map (mode_of d) m"
  let ?n = "of_nat (length m) :: u64"
  have n: "unat ?n = length m" using o by (intro unat_of_nat_small) (simp add: ok_map_def)
  have sz: "reads_try E (\<lambda>d. Some (deserializeSizeT E d 0)) (enc_size (mode_of d) ?n) d (\<lambda>x. x = ?n)"
    using size.des_reads [OF d] o by (intro reads_try_Some) (simp add: ok_map_def)
  have ps: "reads_try E (\<lambda>d. deserialize_pairs room lt dflt des (unat ?n) d []) (concat (map (enc (mode_of d)) m)) d
      (\<lambda>xs. list_all2 rep xs m)"
    using reads_pairs [OF d, of "[]" "[]" m] o n by (simp add: ok_map_def)
  show "reads_try E (\<lambda>d. deserialize_std_map E room lt dflt des d old) (enc_map (mode_of d) m) d
      (\<lambda>x. list_all2 rep x m)"
    unfolding deserialize_std_map_def enc_map_def by (rule reads_try_run [OF sz]) (use ps in simp)
qed

end

section \<open>Vectors and strings\<close>

lemma c_str_block: "block_objects p \<noteq> [] \<Longrightarrow> c_str (string_of_block null p) = block_objects p"
  by (auto simp: string_of_block_def c_str_def split: list.split)

context array_codec
begin

text \<open>The size, and then an array, possibly longer than the size tells.\<close>

lemma emits_sized:
  assumes c: "body_ctx E c" and r: "list_all2 rep xs ms" and o: "\<forall>m \<in> set ms. ok (mode_of c) m"
    and f: "t_sizeof T * length ms < 2 ^ 64" and n: "ok_size (mode_of c) n"
  shows "emits E (\<lambda>ctx. run (serializeSizeT E n ctx) (\<lambda>ctx. run (serialize_array E T ser addr xs ctx) (\<lambda>ctx. (NoError, ctx))))
     (enc_size (mode_of c) n @ enc_array (mode_of c) ms) c"
  by (intro emits_run emits_run_done emits_array size.ser_emits) (use assms in auto)

lemma reads_sized_array:
  assumes d: "body_ctx E d" and o: "\<forall>m \<in> set ms. ok (mode_of d) m" and n: "unat n = length ms" "length cs = length ms"
    and g: "\<And>p. list_all2 rep (block_objects p) ms \<Longrightarrow> Q (g p)"
  shows "reads_try E (\<lambda>d. run_try (Some (deserialize_array E T des des_sized addr d n (Cells cs))) e (\<lambda>d p.
      Some (NoError, d, g p))) (enc_array (mode_of d) ms) d Q"
proof (rule reads_try_run_done [OF reads_try_Some])
  show "reads E (\<lambda>d. deserialize_array E T des des_sized addr d n (Cells cs)) (enc_array (mode_of d) ms) d
      (\<lambda>p. block_holds p (length ms) ms)"
    using reads_array [OF d o n(1), of "Cells cs" cs] n(2) by simp
qed (use g block_objects_rep in blast)

lemma reads_size:
  assumes "body_ctx E d" "ok_size (mode_of d) n"
  shows "reads_try E (\<lambda>d. Some (deserializeSizeT E d 0)) (enc_size (mode_of d) n) d (\<lambda>x. x = n)"
  using size.des_reads [OF assms(1)] assms(2) by (intro reads_try_Some) simp

definition ok_std_vector :: "(nat \<Rightarrow> bool) \<Rightarrow> mode \<Rightarrow> 'm list \<Rightarrow> bool" where
  "ok_std_vector room md ms \<longleftrightarrow> (\<forall>m \<in> set ms. ok md m) \<and> room (length ms) \<and> t_sizeof T * length ms < 2 ^ 64
     \<and> ok_size md (of_nat (length ms))"

lemma few_elements: "t_sizeof T * n < 2 ^ 64 \<Longrightarrow> unat (of_nat n :: u64) = n"
  using sizeof_pos by (intro unat_of_nat_small) (auto elim!: le_less_trans [rotated])

lemma std_vector_codec:
  "std_codec E (list_all2 rep) (\<lambda>_. True) (ok_std_vector room) enc_vec (serialize_std_vector E T ser addr)
     (deserialize_std_vector E room (t_default T) (\<lambda>d n p. Some (deserialize_array E T des des_sized addr' d n p)))"
proof
  fix c :: sdata and x m
  assume c: "body_ctx E c" "list_all2 rep x m" "ok_std_vector room (mode_of c) m"
  then show "emits E (serialize_std_vector E T ser addr x) (enc_vec (mode_of c) m) c"
    unfolding serialize_std_vector_def enc_vec_def list_all2_lengthD [OF c(2)]
    by (intro emits_sized) (auto simp: ok_std_vector_def)
next
  fix d :: ddata and old m
  assume d: "body_ctx E d" and o: "ok_std_vector room (mode_of d) m"
  have n: "unat (of_nat (length m) :: u64) = length m" using o by (intro few_elements) (simp add: ok_std_vector_def)
  show "reads_try E (\<lambda>d. deserialize_std_vector E room (t_default T)
      (\<lambda>d n p. Some (deserialize_array E T des des_sized addr' d n p)) d old) (enc_vec (mode_of d) m) d
      (\<lambda>x. list_all2 rep x m)"
    unfolding deserialize_std_vector_def enc_vec_def
  proof (rule reads_try_run [OF reads_size [OF d]])
    fix k assume "k = (of_nat (length m) :: u64)"
    with o n reads_sized_array [OF d, of m k "map Obj (replicate (length m) (t_default T))"]
    show "reads_try E (\<lambda>d. case vector_resize room (t_default T) k of None \<Rightarrow> None
        | Some value \<Rightarrow> run_try (Some (deserialize_array E T des des_sized addr' d k (Cells (map Obj value))))
            block_objects (\<lambda>d p. Some (NoError, d, block_objects p))) (enc_array (mode_of d) m) d (\<lambda>x. list_all2 rep x m)"
      by (simp add: vector_resize_def ok_std_vector_def)
  qed (use o in \<open>simp add: ok_std_vector_def\<close>)
qed

text \<open>A string stands for its characters and its terminator, which need not be null.\<close>

definition rep_string :: "'a basic_string \<Rightarrow> 'm list \<times> 'm \<Rightarrow> bool" where
  "rep_string s m \<longleftrightarrow> list_all2 rep (c_str s) (fst m @ [snd m])"

definition ok_string :: "(nat \<Rightarrow> bool) \<Rightarrow> mode \<Rightarrow> 'm list \<times> 'm \<Rightarrow> bool" where
  "ok_string room md m \<longleftrightarrow> (\<forall>x \<in> set (fst m @ [snd m]). ok md x) \<and> room (length (fst m))
     \<and> t_sizeof T * Suc (length (fst m)) < 2 ^ 64 \<and> ok_size md (of_nat (length (fst m)))"

definition enc_string :: "mode \<Rightarrow> 'm list \<times> 'm \<Rightarrow> byte list" where
  "enc_string md m = enc_size md (of_nat (length (fst m))) @ enc_array md (fst m @ [snd m])"

lemma string_codec:
  "std_codec E rep_string (\<lambda>_. True) (ok_string room) enc_string (serialize_basic_string E T ser addr)
     (deserialize_basic_string E room T des des_sized addr')"
proof
  fix c :: sdata and x m
  assume c: "body_ctx E c" "rep_string x m" "ok_string room (mode_of c) m"
  have l: "length (s_chars x) = length (fst m)"
    using c(2) by (auto simp: rep_string_def c_str_def dest!: list_all2_lengthD)
  from c show "emits E (serialize_basic_string E T ser addr x) (enc_string (mode_of c) m) c"
    unfolding serialize_basic_string_def enc_string_def l
    by (intro emits_sized) (auto simp: ok_string_def rep_string_def)
next
  fix d :: ddata and old m
  assume d: "body_ctx E d" and o: "ok_string room (mode_of d) m"
  let ?n = "of_nat (length (fst m)) :: u64"
  have s: "unat (of_nat (Suc (length (fst m))) :: u64) = Suc (length (fst m))"
    using o by (intro few_elements) (simp add: ok_string_def)
  then have n: "unat (?n + 1) = Suc (length (fst m))" by (simp add: add.commute)
  have "unat ?n = length (fst m)" using o by (intro few_elements) (simp add: ok_string_def)
  then have r: "string_resize room (t_default T) ?n
      = Some \<lparr>s_chars = replicate (length (fst m)) (t_default T), s_terminator = t_default T\<rparr>"
    using o by (simp add: string_resize_def ok_string_def)
  have g: "rep_string (string_of_block (t_default T) p) m" if "list_all2 rep (block_objects p) (fst m @ [snd m])" for p
  proof -
    have "block_objects p \<noteq> []" using that by auto
    then show ?thesis using that by (simp add: rep_string_def c_str_block)
  qed
  show "reads_try E (\<lambda>d. deserialize_basic_string E room T des des_sized addr' d old) (enc_string (mode_of d) m) d
      (\<lambda>x. rep_string x m)"
    unfolding deserialize_basic_string_def enc_string_def Let_def
  proof (rule reads_try_run [OF reads_size [OF d]])
    fix k assume "k = ?n"
    with o r n reads_sized_array [OF d, of "fst m @ [snd m]" "k + 1"
        "map Obj (c_str \<lparr>s_chars = replicate (length (fst m)) (t_default T), s_terminator = t_default T\<rparr>)"
        "\<lambda>x. rep_string x m" "string_of_block (t_default T)"] g
    show "reads_try E (\<lambda>d. case string_resize room (t_default T) k of None \<Rightarrow> None
        | Some value \<Rightarrow> run_try (Some (deserialize_array E T des des_sized addr' d (k + 1) (Cells (map Obj (c_str value)))))
            (string_of_block (t_default T)) (\<lambda>d p. Some (NoError, d, string_of_block (t_default T) p)))
        (enc_array (mode_of d) (fst m @ [snd m])) d (\<lambda>x. rep_string x m)"
      by (simp add: ok_string_def c_str_def)
  qed (use o in \<open>simp add: ok_string_def\<close>)
qed

end

section \<open>Tuples\<close>

lemma emits_tuple:
  "list_all2 (\<lambda>f xs. emits E f xs c) fs xss \<Longrightarrow> emits E (serializeTupleHelper fs NoError) (concat xss) c"
proof (induction rule: list_all2_induct)
  case Nil
  then show ?case by (simp add: emits_Nil)
next
  case (Cons f fs xs xss)
  have r: "emits E (\<lambda>c. run (f c) (serializeTupleHelper fs NoError)) (xs @ concat xss) c"
    by (rule emits_run) (rule Cons)+
  show ?case
    unfolding concat.simps
  proof (rule emitsI)
    fix b :: "byte vec" and bs
    assume b: "vec_rep b bs" "length bs + length (xs @ concat xss) < 2 ^ 63"
    then have "length bs + length xs < 2 ^ 63" by simp
    with Cons.hyps(1) b(1)
    have eq: "serializeTupleHelper (f # fs) NoError (c\<lparr>m_binaryData := b\<rparr>)
        = run (f (c\<lparr>m_binaryData := b\<rparr>)) (serializeTupleHelper fs NoError)"
      by (cases rule: emitsE) (simp_all add: run_simps)
    show "\<exists>st b'. serializeTupleHelper (f # fs) NoError (c\<lparr>m_binaryData := b\<rparr>) = (st, c\<lparr>m_binaryData := b'\<rparr>) \<and>
        (st = NoError \<and> vec_rep b' (bs @ xs @ concat xss)
         \<or> st = ErrorNoMemory \<and> memory_out E \<and> (\<exists>i. vec_rep b' (bs @ take i (xs @ concat xss))))"
      unfolding eq using r b unfolding emits_def by blast
  qed
qed

text \<open>\<open>R i\<close> is what holds of the tuple when \<open>i\<close> components have been read.\<close>

lemma reads_tuple:
  "\<lbrakk>\<And>j v. j < length fs \<Longrightarrow> R (i + j) v \<Longrightarrow> reads_try E (\<lambda>c. (fs ! j) c v) (xss ! j) c (R (Suc (i + j)));
    length xss = length fs; R i v\<rbrakk> \<Longrightarrow>
   reads_try E (\<lambda>c. deserializeTupleHelper fs NoError c v) (concat xss) c (R (i + length fs))"
proof (induction fs arbitrary: i xss v)
  case Nil
  then show ?case by (simp add: reads_try_return)
next
  case (Cons f fs)
  obtain xs xss' where x: "xss = xs # xss'" "length xss' = length fs" using Cons.prems(2) by (cases xss) auto
  have first: "reads_try E (\<lambda>c. f c v) xs c (R (Suc i))" using Cons.prems(1) [of 0 v] Cons.prems(3) x by simp
  have rest: "reads_try E (\<lambda>c. deserializeTupleHelper fs NoError c v) (concat xss') c (R (i + length (f # fs)))"
    if "R (Suc i) v" for v
    using Cons.IH [of "Suc i" xss' v] Cons.prems(1) [of "Suc j" for j] that x by simp
  show ?case
    unfolding x(1) concat.simps
  proof (rule reads_tryI)
    fix w bs k
    assume a: "walker_rep w bs k" "length bs < 2 ^ 62" "length (xs @ concat xss') \<le> length bs - k"
      "take (length (xs @ concat xss')) (drop k bs) = xs @ concat xss'"
    note t = take_drop_append [OF a(4)]
    have l: "length xs \<le> length bs - k" "length (concat xss') \<le> length bs - (k + length xs)" using a(3) by simp_all
    from first a(1,2) l(1) t(1)
    show "\<exists>st w' v'. deserializeTupleHelper (f # fs) NoError (c\<lparr>m_binaryData := w\<rparr>) v = Some (st, c\<lparr>m_binaryData := w'\<rparr>, v') \<and>
        (st = NoError \<and> walker_rep w' bs (k + length (xs @ concat xss')) \<and> R (i + length (f # fs)) v'
         \<or> st = ErrorNoMemory \<and> memory_out E)"
    proof (cases rule: reads_tryE)
      case (ok w1 v1)
      from rest [OF ok(3)] ok(2) a(2) l(2) t(2) show ?thesis
        by (cases rule: reads_tryE) (use ok(1) in \<open>auto simp: add.assoc\<close>)
    qed auto
  qed
qed

text \<open>A tuple of two components is processed as a pair is.\<close>

lemma tuple_of_two:
  assumes a: "std_codec E rep1 init1 ok1 enc1 ser1 des1" and b: "std_codec E rep2 init2 ok2 enc2 ser2 des2"
  shows "std_codec E (rel_prod rep1 rep2) (pred_prod init1 init2) (\<lambda>md m. ok1 md (fst m) \<and> ok2 md (snd m))
     (\<lambda>md m. enc1 md (fst m) @ enc2 md (snd m)) (serialize_tuple [ser1 \<circ> fst, ser2 \<circ> snd])
     (deserialize_tuple [\<lambda>d v. map_option (map_prod id (map_prod id (\<lambda>x. (x, snd v)))) (des1 d (fst v)),
        \<lambda>d v. map_option (map_prod id (map_prod id (\<lambda>y. (fst v, y)))) (des2 d (snd v))])"
proof
  fix c :: sdata and x m
  assume c: "body_ctx E c" "rel_prod rep1 rep2 x m" "ok1 (mode_of c) (fst m) \<and> ok2 (mode_of c) (snd m)"
  then have "rep1 (fst x) (fst m)" "rep2 (snd x) (snd m)" by (simp_all add: rel_prod_sel)
  with c have "list_all2 (\<lambda>f xs. emits E f xs c) [ser1 (fst x), ser2 (snd x)] [enc1 (mode_of c) (fst m), enc2 (mode_of c) (snd m)]"
    by (simp add: std_codec.ser_emits [OF a] std_codec.ser_emits [OF b])
  from emits_tuple [OF this] show "emits E (serialize_tuple [ser1 \<circ> fst, ser2 \<circ> snd] x)
      (enc1 (mode_of c) (fst m) @ enc2 (mode_of c) (snd m)) c"
    by (simp add: emits_def serialize_tuple_def)
next
  fix d :: ddata and old m
  assume d: "body_ctx E d" "pred_prod init1 init2 old" "ok1 (mode_of d) (fst m) \<and> ok2 (mode_of d) (snd m)"
  let ?f = "\<lambda>d v. map_option (map_prod id (map_prod id (\<lambda>x. (x, snd v)))) (des1 d (fst v))"
  let ?g = "\<lambda>d v. map_option (map_prod id (map_prod id (\<lambda>y. (fst v, y)))) (des2 d (snd v))"
  define R where "R i = [\<lambda>v. init1 (fst v) \<and> init2 (snd v), \<lambda>v. rep1 (fst v) (fst m) \<and> init2 (snd v),
      \<lambda>v. rep1 (fst v) (fst m) \<and> rep2 (snd v) (snd m)] ! i" for i
  have map: "reads_try E (\<lambda>c. map_option (map_prod id (map_prod id h)) (f c)) xs d Q"
    if r: "reads_try E f xs d P" and "\<And>x. P x \<Longrightarrow> Q (h x)" for f and h :: "_ \<Rightarrow> 'a \<times> 'c" and xs P Q
  proof (rule reads_tryI)
    fix w bs k
    assume "walker_rep w bs k" "length bs < 2 ^ 62" "length xs \<le> length bs - k" "take (length xs) (drop k bs) = xs"
    from r this show "\<exists>st w' v. map_option (map_prod id (map_prod id h)) (f (d\<lparr>m_binaryData := w\<rparr>))
        = Some (st, d\<lparr>m_binaryData := w'\<rparr>, v) \<and>
        (st = NoError \<and> walker_rep w' bs (k + length xs) \<and> Q v \<or> st = ErrorNoMemory \<and> memory_out E)"
      by (cases rule: reads_tryE) (use that(2) in auto)
  qed
  have "reads_try E (\<lambda>c. ([?f, ?g] ! j) c v) ([enc1 (mode_of d) (fst m), enc2 (mode_of d) (snd m)] ! j) d (R (Suc (0 + j)))"
    if j: "j < length [?f, ?g]" and v: "R (0 + j) v" for j v
  proof (cases j)
    case 0
    have "init1 (fst v)" "init2 (snd v)" using v 0 by (simp_all add: R_def)
    then show ?thesis
      using 0 d by (auto simp: R_def intro!: map [OF std_codec.des_reads [OF a]])
  next
    case (Suc k)
    then have "j = 1" using j by simp
    then have "rep1 (fst v) (fst m)" "init2 (snd v)" using v by (simp_all add: R_def)
    then show ?thesis
      using \<open>j = 1\<close> d by (auto simp: R_def intro!: map [OF std_codec.des_reads [OF b]])
  qed
  from reads_tuple [where fs = "[?f, ?g]" and R = R and i = 0 and v = old, OF this] d
  show "reads_try E (\<lambda>d. deserialize_tuple [?f, ?g] d old) (enc1 (mode_of d) (fst m) @ enc2 (mode_of d) (snd m)) d
      (\<lambda>x. rel_prod rep1 rep2 x m)"
    by (auto simp: R_def deserialize_tuple_def rel_prod_sel pred_prod_beta numeral_2_eq_2)
qed

section \<open>Maps of strings\<close>

interpretation number_strings: map_codec E "rel_prod (=) u8s.rep_string" "pred_prod (\<lambda>_. True) (\<lambda>_. True)"
    "\<lambda>md m. True \<and> u8s.ok_string sg room md (snd m)" "\<lambda>md m. enc_scalar False False md (fst m :: u32) @ u8s.enc_string sg E md (snd m)"
    "serialize_pair (serialize_scalar E False False)
       (serialize_basic_string E (integer_type sg) (serialize_scalar E False False) addr)"
    "deserialize_pair (\<lambda>d x. Some (deserialize_scalar E False False sg' d x))
       (deserialize_basic_string E room (integer_type sg) (deserialize_scalar E False False sg) ds addr')"
    room "(<)" "\<lambda>m m'. fst m < fst m'" "(0, \<lparr>s_chars = [], s_terminator = 0\<rparr>)"
  for E room sg sg' ds addr addr'
  by (intro map_codec.intro map_codec_axioms.intro pair_codec codec_never_throws scalar_codec u8s.string_codec)
     (auto simp: rel_prod_sel)

lemma rep_string_bytes: "u8s.rep_string s m \<longleftrightarrow> s_chars s = fst m \<and> s_terminator s = snd m"
  by (simp add: u8s.rep_string_def c_str_def list.rel_eq)

lemma bytes_array: "u8s.enc_array sg E md cs = (if int_sized md then [1] else []) @ cs"
proof -
  have "concat (map (obj_bytes (big_endian E)) cs) = cs" by (induction cs) simp_all
  then show ?thesis
    by (simp add: u8s.enc_array_def copies_mode_def EndiannessTolerant_def sized_array_def)
qed

lemma enc_string_bytes:
  "u8s.enc_string sg E md m = enc_size md (of_nat (length (fst m))) @ (if int_sized md then [1] else []) @ fst m @ [snd m]"
  by (simp add: u8s.enc_string_def bytes_array)

definition enc_number_string :: "mode \<Rightarrow> u32 \<times> byte list \<times> byte \<Rightarrow> byte list" where
  "enc_number_string md m =
     enc_scalar False False md (fst m) @ enc_size md (of_nat (length (fst (snd m))))
     @ (if int_sized md then [1] else []) @ fst (snd m) @ [snd (snd m)]"

definition enc_number_strings :: "mode \<Rightarrow> (u32 \<times> byte list \<times> byte) list \<Rightarrow> byte list" where
  "enc_number_strings md ms = enc_size md (of_nat (length ms)) @ concat (map (enc_number_string md) ms)"

lemma number_strings_enc: "number_strings.enc_map sg E = enc_number_strings"
  unfolding fun_eq_iff number_strings.enc_map_def
  by (simp only: enc_string_bytes enc_number_strings_def enc_number_string_def [abs_def] simp_thms)

lemma length_enc_number_strings:
  "length (enc_number_strings md ms) \<le> 8 + sum_list (map (\<lambda>m. 24 + length (fst (snd m))) ms)"
proof -
  have one: "length (enc_number_string md m) \<le> 24 + length (fst (snd m))" for m
    using length_enc_size(1) [of md "of_nat (length (fst (snd m)))"] by (simp add: enc_number_string_def enc_scalar_def)
  have "length (concat (map (enc_number_string md) ms)) \<le> sum_list (map (\<lambda>m. 24 + length (fst (snd m))) ms)"
  proof (induction ms)
    case (Cons m ms)
    then show ?case using one [of m] by simp
  qed simp
  then show ?thesis
    using length_enc_size(1) [of md "of_nat (length ms)"] by (simp add: enc_number_strings_def)
qed

lemma sum_list_bound: "x \<in> set xs \<Longrightarrow> f x \<le> sum_list (map f xs)" for f :: "'a \<Rightarrow> nat"
  by (simp add: member_le_sum_list)

definition sample_map :: "byte list \<Rightarrow> (status \<times> ddata \<times> (byte \<times> byte) list) option" where
  "sample_map bs = deserialize_std_map sample_env (\<lambda>_. True) (<) (0, 0)
     (deserialize_pair (\<lambda>d x. Some (deserialize_scalar sample_env False False False d x))
       (\<lambda>d x. Some (deserialize_scalar sample_env False False False d x))) (sample_ddata bs False) []"

section \<open>Claims\<close>

text \<open>
  C9: maps of the standard library cross platforms. A \<open>std::map\<close> from 32-bit numbers to
  strings, written by one platform, is read back by another of any byte order as the same
  map, in the same order and with every character of its strings, the terminators and
  null characters inside included, with the position right behind it; nothing is thrown as
  long as the containers get their room.
\<close>
theorem std_map_crosses_platforms:
  fixes xs old :: "(u32 \<times> byte basic_string) list"
  assumes "body_ctx E c" "\<not> memory_out E" "\<not> memory_out E'"
    and "sorted_wrt (\<lambda>x y. fst x < fst y) xs" "sum_list (map (\<lambda>x. 24 + length (s_chars (snd x))) xs) < 2 ^ 32"
    and "\<And>n. n < 2 ^ 32 \<Longrightarrow> room n"
    and "vec_rep (m_binaryData c) bs" "length bs < 2 ^ 61"
  shows "\<exists>b out. serialize_std_map E (serialize_pair (serialize_scalar E False False)
         (serialize_basic_string E (integer_type sg) (serialize_scalar E False False) addr)) xs c
       = (NoError, c\<lparr>m_binaryData := b\<rparr>) \<and> vec_rep b (bs @ out)
     \<and> (\<forall>d rest. body_ctx E' d \<and> mode_of d = mode_of c \<and> walker_rep (m_binaryData d) (bs @ out @ rest) (length bs)
          \<and> length (bs @ out @ rest) < 2 ^ 62 \<longrightarrow>
          (\<exists>w. deserialize_std_map E' room (<) (0, \<lparr>s_chars = [], s_terminator = 0\<rparr>)
               (deserialize_pair (\<lambda>d x. Some (deserialize_scalar E' False False sg' d x))
                 (deserialize_basic_string E' room (integer_type sg) (deserialize_scalar E' False False sg) ds addr')) d old
             = Some (NoError, d\<lparr>m_binaryData := w\<rparr>, xs) \<and> walker_rep w (bs @ out @ rest) (length bs + length out)))"
proof -
  let ?ms = "map (\<lambda>x. (fst x, (s_chars (snd x), s_terminator (snd x)))) xs"
  let ?md = "mode_of c"
  let ?out = "enc_number_strings ?md ?ms"
  have rep: "list_all2 (rel_prod (=) u8s.rep_string) ys ?ms \<longleftrightarrow> ys = xs" for ys
  proof
    assume r: "list_all2 (rel_prod (=) u8s.rep_string) ys ?ms"
    have "y = x" if "rel_prod (=) u8s.rep_string y (fst x, (s_chars (snd x), s_terminator (snd x)))" for x y
      using that by (cases x, cases y) (auto simp: rep_string_bytes)
    with r have "list_all2 (=) ys xs" by (auto simp: list_all2_map2 elim: list_all2_mono)
    then show "ys = xs" by (simp add: list.rel_eq)
  qed (auto simp: list_all2_map2 rel_prod_sel rep_string_bytes intro: list.rel_refl)
  have few: "length xs \<le> sum_list (map (\<lambda>x. 24 + length (s_chars (snd x))) xs)" by (induction xs) auto
  have str: "length (s_chars (snd x)) < 2 ^ 32" "length (s_chars (snd x)) < 18446744073709551615" if "x \<in> set xs" for x
    using sum_list_bound [OF that, of "\<lambda>x. 24 + length (s_chars (snd x))"] assms(5) by simp_all
  have sz: "ok_size ?md (of_nat n)" if "n < 2 ^ 32" for n
    using that by (simp add: ok_size_def unat_of_nat_small)
  have ok: "number_strings.ok_map sg room ?md ?ms"
    unfolding number_strings.ok_map_def unfolding u8s.ok_string_def
    using assms(4,5) few str sz assms(6) by (auto simp: sorted_wrt_map dest: order.strict_trans1 [OF few])
  have lo: "length bs + length ?out < 2 ^ 62"
    using length_enc_number_strings [of ?md ?ms] assms(5,8) by (simp add: comp_def)
  let ?ser = "serialize_std_map E (serialize_pair (serialize_scalar E False False)
      (serialize_basic_string E (integer_type sg) (serialize_scalar E False False) addr)) xs"
  have "emits E ?ser ?out c"
    using std_codec.ser_emits [OF number_strings.codec_map assms(1) _ ok, of xs addr] by (simp only: rep number_strings_enc)
  from emits_total [OF this assms(2,7)] lo obtain b where b: "?ser c = (NoError, c\<lparr>m_binaryData := b\<rparr>)" "vec_rep b (bs @ ?out)"
    by auto
  show ?thesis
  proof (intro exI [of _ b] exI [of _ ?out] conjI allI impI)
    fix d :: ddata and rest
    assume d: "body_ctx E' d \<and> mode_of d = ?md \<and> walker_rep (m_binaryData d) (bs @ ?out @ rest) (length bs)
        \<and> length (bs @ ?out @ rest) < 2 ^ 62"
    let ?des = "\<lambda>d. deserialize_std_map E' room (<) (0, \<lparr>s_chars = [], s_terminator = 0\<rparr>)
        (deserialize_pair (\<lambda>d x. Some (deserialize_scalar E' False False sg' d x))
          (deserialize_basic_string E' room (integer_type sg) (deserialize_scalar E' False False sg) ds addr')) d old"
    from d have w: "walker_rep (m_binaryData d) (bs @ ?out @ rest) (length bs)" "length (bs @ ?out @ rest) < 2 ^ 62"
      "length ?out \<le> length (bs @ ?out @ rest) - length bs" "take (length ?out) (drop (length bs) (bs @ ?out @ rest)) = ?out"
      by simp_all
    have "reads_try E' ?des ?out d (\<lambda>ys. ys = xs)"
      using std_codec.des_reads [OF number_strings.codec_map _ TrueI, of E' d sg room ?ms] d ok
      by (simp only: rep number_strings_enc)
    from this w show "\<exists>w. ?des d = Some (NoError, d\<lparr>m_binaryData := w\<rparr>, xs)
        \<and> walker_rep w (bs @ ?out @ rest) (length bs + length ?out)"
      by (cases rule: reads_tryE) (use assms(3) in auto)
  qed (rule b)+
qed

theorem std_map_crosses_platforms_witness:
  "\<exists>b out. serialize_std_map sample_env (serialize_pair (serialize_scalar sample_env False False)
       (serialize_basic_string sample_env (integer_type False) (serialize_scalar sample_env False False) id))
       [(1 :: u32, \<lparr>s_chars = [104, 105 :: byte], s_terminator = 0\<rparr>), (7, \<lparr>s_chars = [], s_terminator = 0\<rparr>)] (sample_sdata True)
     = (NoError, (sample_sdata True)\<lparr>m_binaryData := b\<rparr>) \<and> vec_rep b out"
proof -
  have "\<not> memory_out sample_env" "body_ctx sample_env (sample_sdata True)"
    by (simp_all add: memory_out_def sample_sdata_ok)
  from std_map_crosses_platforms [OF this(2,1,1) _ _ TrueI sample_sdata_ok(2), where sg = False and addr = id
      and xs = "[(1 :: u32, \<lparr>s_chars = [104, 105 :: byte], s_terminator = 0\<rparr>), (7, \<lparr>s_chars = [], s_terminator = 0\<rparr>)]" and old = "[]"
      and ds = "\<lambda>_ d x. (NoError, d, x)" and addr' = id and sg' = False]
  show ?thesis by auto
qed

lemma map_insert_sorted:
  assumes "transp lt" "sorted_wrt (\<lambda>x y. lt (fst x) (fst y)) m"
  shows "sorted_wrt (\<lambda>x y. lt (fst x) (fst y)) (map_insert lt kv m) \<and> set (map_insert lt kv m) \<subseteq> insert kv (set m)"
  using assms(2)
proof (induction m)
  case (Cons kv' m)
  then have IH: "sorted_wrt (\<lambda>x y. lt (fst x) (fst y)) (map_insert lt kv m)" "set (map_insert lt kv m) \<subseteq> insert kv (set m)"
    by simp_all
  from Cons.prems IH show ?case
    by (auto dest: transpD [OF assms(1)])
qed simp

lemma deserialize_pairs_sorted:
  "\<lbrakk>transp lt; sorted_wrt (\<lambda>x y. lt (fst x) (fst y)) value;
    deserialize_pairs room lt dflt des n ctx value = Some (st, ctx', m)\<rbrakk> \<Longrightarrow>
   sorted_wrt (\<lambda>x y. lt (fst x) (fst y)) m \<and> length m \<le> length value + n"
proof (induction n arbitrary: ctx "value")
  case (Suc n)
  have l: "length (map_insert lt kv value) \<le> Suc (length value)" for kv by (induction "value") auto
  show ?case
  proof (cases "des ctx dflt")
    case None
    then show ?thesis using Suc.prems(3) by (simp add: run_simps)
  next
    case (Some r)
    obtain st1 ctx1 kv where r: "r = (st1, ctx1, kv)" by (cases r) auto
    show ?thesis
    proof (cases "statusSuccess st1 \<and> room (Suc (length value))")
      case True
      then have "deserialize_pairs room lt dflt des n ctx1 (map_insert lt kv value) = Some (st, ctx', m)"
        using Suc.prems(3) Some r by (simp add: run_simps)
      from Suc.IH [OF Suc.prems(1) conjunct1 [OF map_insert_sorted [OF Suc.prems(1,2)]] this] l [of kv]
      show ?thesis by simp
    next
      case False
      then show ?thesis using Suc.prems(2,3) Some r by (auto simp: run_simps split: if_splits)
    qed
  qed
qed simp

text \<open>Whatever the octets are and however the reading ends, the order is that of the comparison.\<close>

lemma std_map_stays_ordered:
  assumes "transp lt" "deserialize_std_map E room lt dflt des ctx old = Some (st, ctx', m)"
  shows "sorted_wrt (\<lambda>x y. lt (fst x) (fst y)) m"
proof -
  obtain st1 ctx1 n where d: "deserializeSizeT E ctx 0 = (st1, ctx1, n)" by (cases "deserializeSizeT E ctx 0") auto
  show ?thesis
  proof (cases "statusSuccess st1")
    case True
    then have "deserialize_pairs room lt dflt des (unat n) ctx1 [] = Some (st, ctx', m)"
      using assms(2) d by (simp add: deserialize_std_map_def run_simps)
    from deserialize_pairs_sorted [OF assms(1) _ this] show ?thesis by simp
  qed (use assms(2) d in \<open>simp add: deserialize_std_map_def run_simps\<close>)
qed

text \<open>\<open>same_key\<close> is the equivalence of keys that the comparison of a map stands for.\<close>

definition same_key :: "('k \<Rightarrow> 'k \<Rightarrow> bool) \<Rightarrow> 'k \<times> 'v \<Rightarrow> 'k \<times> 'v \<Rightarrow> bool" where
  "same_key lt x y \<longleftrightarrow> \<not> lt (fst x) (fst y) \<and> \<not> lt (fst y) (fst x)"

lemma same_key_trans:
  assumes "\<forall>x y z. \<not> lt x y \<longrightarrow> \<not> lt y z \<longrightarrow> \<not> lt x z" "same_key lt a b" "same_key lt b c"
  shows "same_key lt a c"
proof -
  have "\<not> lt (fst a) (fst b)" "\<not> lt (fst b) (fst c)" "\<not> lt (fst c) (fst b)" "\<not> lt (fst b) (fst a)"
    using assms(2,3) by (simp_all add: same_key_def)
  then have "\<not> lt (fst a) (fst c)" "\<not> lt (fst c) (fst a)" using assms(1) by blast+
  then show ?thesis by (simp add: same_key_def)
qed

lemma map_insert_set:
  assumes "transp lt" "sorted_wrt (\<lambda>x y. lt (fst x) (fst y)) m"
  shows "set (map_insert lt kv m) = (if \<exists>x \<in> set m. same_key lt x kv then set m else insert kv (set m))"
  using assms(2)
proof (induction m)
  case (Cons kv' m)
  then have IH: "set (map_insert lt kv m) = (if \<exists>x \<in> set m. same_key lt x kv then set m else insert kv (set m))" by simp
  consider (before) "lt (fst kv) (fst kv')" | (after) "\<not> lt (fst kv) (fst kv')" "lt (fst kv') (fst kv)"
    | (same) "same_key lt kv' kv" by (auto simp: same_key_def)
  then show ?case
  proof cases
    case before
    then have "lt (fst kv) (fst x)" if "x \<in> set (kv' # m)" for x
      using that Cons.prems by (auto dest: transpD [OF assms(1)])
    then show ?thesis using before by (auto simp: same_key_def)
  next
    case after
    then show ?thesis using IH by (auto simp: same_key_def)
  next
    case same
    then show ?thesis by (auto simp: same_key_def)
  qed
qed simp

text \<open>Inserting elements one by one keeps the first one of every key.\<close>

definition first_of_key :: "('k \<Rightarrow> 'k \<Rightarrow> bool) \<Rightarrow> ('k \<times> 'v) list \<Rightarrow> 'k \<times> 'v \<Rightarrow> bool" where
  "first_of_key lt kvs kv \<longleftrightarrow> (\<exists>us vs. kvs = us @ kv # vs \<and> (\<forall>u \<in> set us. lt (fst u) (fst kv) \<or> lt (fst kv) (fst u)))"

lemma first_of_key_Nil: "\<not> first_of_key lt [] kv"
  by (simp add: first_of_key_def)

lemma first_of_key_snoc:
  "first_of_key lt (kvs @ [x]) kv \<longleftrightarrow> first_of_key lt kvs kv \<or> kv = x \<and> (\<forall>u \<in> set kvs. \<not> same_key lt u x)"
proof
  assume "first_of_key lt (kvs @ [x]) kv"
  then obtain us vs where u: "kvs @ [x] = us @ kv # vs" "\<forall>u \<in> set us. lt (fst u) (fst kv) \<or> lt (fst kv) (fst u)"
    by (auto simp: first_of_key_def)
  show "first_of_key lt kvs kv \<or> kv = x \<and> (\<forall>u \<in> set kvs. \<not> same_key lt u x)"
  proof (cases vs rule: rev_cases)
    case Nil
    then show ?thesis using u by (auto simp: same_key_def)
  next
    case (snoc ws w)
    then have "kvs = us @ kv # ws" using u(1) by simp
    then show ?thesis using u(2) by (auto simp: first_of_key_def)
  qed
next
  assume "first_of_key lt kvs kv \<or> kv = x \<and> (\<forall>u \<in> set kvs. \<not> same_key lt u x)"
  then show "first_of_key lt (kvs @ [x]) kv"
  proof
    assume "first_of_key lt kvs kv"
    then obtain us vs where "kvs = us @ kv # vs" "\<forall>u \<in> set us. lt (fst u) (fst kv) \<or> lt (fst kv) (fst u)"
      unfolding first_of_key_def by blast
    then show ?thesis unfolding first_of_key_def by (intro exI [of _ us] exI [of _ "vs @ [x]"]) simp
  next
    assume "kv = x \<and> (\<forall>u \<in> set kvs. \<not> same_key lt u x)"
    then show ?thesis unfolding first_of_key_def same_key_def by (intro exI [of _ kvs] exI [of _ "[]"]) auto
  qed
qed

lemma insert_all:
  assumes t: "transp lt" and irr: "\<forall>x. \<not> lt x x" and weak: "\<forall>x y z. \<not> lt x y \<longrightarrow> \<not> lt y z \<longrightarrow> \<not> lt x z"
  shows "sorted_wrt (\<lambda>x y. lt (fst x) (fst y)) (fold (map_insert lt) kvs [])
     \<and> (\<forall>kv. kv \<in> set (fold (map_insert lt) kvs []) \<longleftrightarrow> first_of_key lt kvs kv)
     \<and> (\<forall>u \<in> set kvs. \<exists>kv \<in> set (fold (map_insert lt) kvs []). same_key lt kv u)"
proof (induction kvs rule: rev_induct)
  case (snoc x kvs)
  let ?m = "fold (map_insert lt) kvs []"
  have s: "sorted_wrt (\<lambda>x y. lt (fst x) (fst y)) ?m" using snoc by simp
  have st: "set (map_insert lt x ?m) = (if \<exists>y \<in> set ?m. same_key lt y x then set ?m else insert x (set ?m))"
    by (rule map_insert_set [OF t s])
  have eq: "(\<exists>y \<in> set ?m. same_key lt y x) \<longleftrightarrow> (\<exists>u \<in> set kvs. same_key lt u x)"
  proof
    assume "\<exists>y \<in> set ?m. same_key lt y x"
    then obtain y where y: "y \<in> set ?m" "same_key lt y x" by blast
    then have "first_of_key lt kvs y" using snoc by blast
    then have "y \<in> set kvs" by (auto simp: first_of_key_def)
    then show "\<exists>u \<in> set kvs. same_key lt u x" using y(2) by blast
  next
    assume "\<exists>u \<in> set kvs. same_key lt u x"
    then obtain u y where u: "u \<in> set kvs" "same_key lt u x" "y \<in> set ?m" "same_key lt y u" using snoc by blast
    then have "same_key lt y x" using same_key_trans [OF weak] by blast
    then show "\<exists>y \<in> set ?m. same_key lt y x" using u(3) by blast
  qed
  have "same_key lt x x" using irr by (simp add: same_key_def)
  then have "\<exists>kv \<in> set (map_insert lt x ?m). same_key lt kv x" using st by (metis insertI1)
  moreover have "\<exists>kv \<in> set (map_insert lt x ?m). same_key lt kv u" if "u \<in> set kvs" for u
    using snoc that st by (metis insertI2)
  ultimately have "\<forall>u \<in> set (kvs @ [x]). \<exists>kv \<in> set (map_insert lt x ?m). same_key lt kv u" by simp
  moreover have "kv \<in> set (map_insert lt x ?m) \<longleftrightarrow> first_of_key lt (kvs @ [x]) kv" for kv
  proof -
    have "kv \<in> set ?m \<longleftrightarrow> first_of_key lt kvs kv" using snoc by blast
    then show ?thesis unfolding st first_of_key_snoc eq by auto
  qed
  ultimately show ?case using map_insert_sorted [OF t s] by simp
qed (simp add: first_of_key_Nil)

lemma reads_pairs_unordered:
  assumes c: "std_codec E (=) init ok enc ser des" and d: "body_ctx E d" "init dflt"
  shows "\<lbrakk>\<forall>kv \<in> set kvs. ok (mode_of d) kv; \<forall>n \<le> length m + length kvs. room n\<rbrakk> \<Longrightarrow>
    reads_try E (\<lambda>d. deserialize_pairs room lt dflt des (length kvs) d m) (concat (map (enc (mode_of d)) kvs)) d
      (\<lambda>m'. m' = fold (map_insert lt) kvs m)"
proof (induction kvs arbitrary: m)
  case Nil
  then show ?case by (auto intro!: reads_try_return)
next
  case (Cons kv kvs)
  have l: "length (map_insert lt kv m) \<le> Suc (length m)" by (induction m) auto
  have "reads_try E (\<lambda>d. if \<not> room (Suc (length m)) then None
      else deserialize_pairs room lt dflt des (length kvs) d (map_insert lt x m)) (concat (map (enc (mode_of d)) kvs)) d
      (\<lambda>m'. m' = fold (map_insert lt) (kv # kvs) m)" if "x = kv" for x
    using Cons.IH [of "map_insert lt kv m"] Cons.prems l that by simp
  from reads_try_run [OF std_codec.des_reads [OF c d] this] Cons.prems(1) show ?case by simp
qed

text \<open>
  C25: what a \<open>std::map\<close> read from a message holds. For elements with the \<open>codec\<close> contract and a
  comparison of keys that is a strict weak order, the octets of any elements in any order, with keys
  repeated or not, give \<open>NoError\<close> and a map that is strictly ordered by the comparison and
  holds exactly the first element of every key: keys that come out of order are put in place, a
  later element with an equivalent key is dropped. The position is behind the last element. The
  map has room for as many elements as there are, memory does not run out.
\<close>
theorem std_map_read_keeps_first:
  assumes "std_codec E (=) init ok enc ser des" "init dflt" "body_ctx E d" "\<not> memory_out E"
    and "transp lt" "\<forall>x. \<not> lt x x" "\<forall>x y z. \<not> lt x y \<longrightarrow> \<not> lt y z \<longrightarrow> \<not> lt x z"
    and "\<forall>kv \<in> set kvs. ok (mode_of d) kv" "\<forall>n \<le> length kvs. room n" "ok_size (mode_of d) (of_nat (length kvs))"
    and "out = enc_size (mode_of d) (of_nat (length kvs)) @ concat (map (enc (mode_of d)) kvs)"
    and "walker_rep (m_binaryData d) (bs @ out @ rest) (length bs)" "length (bs @ out @ rest) < 2 ^ 62" "length kvs < 2 ^ 64"
  shows "\<exists>w m. deserialize_std_map E room lt dflt des d old = Some (NoError, d\<lparr>m_binaryData := w\<rparr>, m)
     \<and> walker_rep w (bs @ out @ rest) (length bs + length out)
     \<and> sorted_wrt (\<lambda>x y. lt (fst x) (fst y)) m
     \<and> (\<forall>kv. kv \<in> set m \<longleftrightarrow>
          (\<exists>us vs. kvs = us @ kv # vs \<and> (\<forall>u \<in> set us. lt (fst u) (fst kv) \<or> lt (fst kv) (fst u))))"
proof -
  let ?n = "of_nat (length kvs) :: u64"
  have n: "unat ?n = length kvs" using assms(14) by (intro unat_of_nat_small) simp
  have sz: "reads_try E (\<lambda>d. Some (deserializeSizeT E d 0)) (enc_size (mode_of d) ?n) d (\<lambda>x. x = ?n)"
    using size.des_reads [OF assms(3)] assms(10) by (intro reads_try_Some) simp
  have "reads_try E (\<lambda>d. deserialize_pairs room lt dflt des (unat ?n) d []) (concat (map (enc (mode_of d)) kvs)) d
      (\<lambda>m. m = fold (map_insert lt) kvs [])"
    using reads_pairs_unordered [OF assms(1,3,2,8), of "[]" room lt] assms(9) n by simp
  then have r: "reads_try E (\<lambda>d. deserialize_std_map E room lt dflt des d old) out d (\<lambda>m. m = fold (map_insert lt) kvs [])"
    unfolding deserialize_std_map_def assms(11) by (intro reads_try_run [OF sz]) simp
  have l: "length out \<le> length (bs @ out @ rest) - length bs" "take (length out) (drop (length bs) (bs @ out @ rest)) = out"
    by simp_all
  from r assms(12,13) l obtain w where
    "deserialize_std_map E room lt dflt des d old = Some (NoError, d\<lparr>m_binaryData := w\<rparr>, fold (map_insert lt) kvs [])"
    "walker_rep w (bs @ out @ rest) (length bs + length out)"
    by (cases rule: reads_tryE) (use assms(4) in auto)
  then show ?thesis using insert_all [OF assms(5-7), of kvs] unfolding first_of_key_def by blast
qed

lemma byte_pair_codec:
  "std_codec sample_env (=) (\<lambda>_. True) (\<lambda>_ _. True) (\<lambda>md m. enc_scalar False False md (fst m :: byte) @ enc_scalar False False md (snd m :: byte))
     (serialize_pair (serialize_scalar sample_env False False) (serialize_scalar sample_env False False))
     (deserialize_pair (\<lambda>d x. Some (deserialize_scalar sample_env False False False d x))
       (\<lambda>d x. Some (deserialize_scalar sample_env False False False d x)))"
proof -
  note c = codec_never_throws [OF scalar_codec [of sample_env False False False, where 'a = 8]]
  have "pred_prod (\<lambda>_. True) (\<lambda>_. True) = (\<lambda>_ :: byte \<times> byte. True)" by (simp add: fun_eq_iff pred_prod_beta)
  then show ?thesis using pair_codec [OF c c] by (simp add: prod.rel_eq)
qed

theorem std_map_read_keeps_first_witness:
  "\<exists>d m. sample_map [3, 0, 0, 0, 0, 0, 0, 0, 5, 1, 3, 2, 5, 9] = Some (NoError, d, m)
     \<and> sorted_wrt (\<lambda>x y. fst x < fst y) m \<and> (5, 1) \<in> set m \<and> (3, 2) \<in> set m \<and> (5, 9) \<notin> set m"
proof -
  let ?bs = "[3, 0, 0, 0, 0, 0, 0, 0, 5, 1, 3, 2, 5, 9] :: byte list"
  let ?kvs = "[(5, 1), (3, 2), (5, 9)] :: (byte \<times> byte) list"
  let ?d = "sample_ddata ?bs False"
  have md: "\<not> md_bitness32 (mode_of ?d)" "\<not> md_bigEndianFormat (mode_of ?d)" "\<not> int_sized (mode_of ?d)"
    by (simp_all add: mode_of_def sample_ddata_def sample_dcommon_def common.defs df_default_def df_sizeOfIntegersMayBeNotEqual_def int_sized_def)
  have "obj_bytes False (3 :: u64) = [3, 0, 0, 0, 0, 0, 0, 0]" by code_simp
  then have out: "?bs = enc_size (mode_of ?d) (of_nat (length ?kvs))
      @ concat (map (\<lambda>m. enc_scalar False False (mode_of ?d) (fst m) @ enc_scalar False False (mode_of ?d) (snd m)) ?kvs)"
    using md by (simp add: enc_size_def enc_scalar_def)
  have w: "walker_rep (m_binaryData ?d) ([] @ ?bs @ []) (length ([] :: byte list))" using sample_ddata_rep [of ?bs False] by simp
  have mem: "\<not> memory_out sample_env" by (simp add: memory_out_def)
  have t: "transp ((<) :: byte \<Rightarrow> byte \<Rightarrow> bool)" by (rule transp_on_less)
  have k: "ok_size (mode_of ?d) (of_nat (length ?kvs))" using md by (simp add: ok_size_def)
  have nt: "\<forall>x y z :: byte. \<not> x < y \<longrightarrow> \<not> y < z \<longrightarrow> \<not> x < z" by (meson le_less_trans not_less)
  have "\<exists>w m. sample_map ?bs = Some (NoError, ?d\<lparr>m_binaryData := w\<rparr>, m) \<and> walker_rep w ([] @ ?bs @ []) (length ([] :: byte list) + length ?bs)
      \<and> sorted_wrt (\<lambda>x y. fst x < fst y) m
      \<and> (\<forall>kv. kv \<in> set m \<longleftrightarrow> (\<exists>us vs. ?kvs = us @ kv # vs \<and> (\<forall>u \<in> set us. fst u < fst kv \<or> fst kv < fst u)))"
    unfolding sample_map_def
    by (rule std_map_read_keeps_first [OF byte_pair_codec TrueI sample_ddata_ok mem t _ nt _ _ k out w]) simp_all
  then obtain d m where m: "sample_map ?bs = Some (NoError, d, m)" "sorted_wrt (\<lambda>x y. fst x < fst y) m"
    "\<forall>kv. kv \<in> set m \<longleftrightarrow> (\<exists>us vs. ?kvs = us @ kv # vs \<and> (\<forall>u \<in> set us. fst u < fst kv \<or> fst kv < fst u))" by blast
  have "(\<exists>us vs. ?kvs = us @ (5, 1) # vs \<and> (\<forall>u \<in> set us. fst u < fst (5, 1) \<or> fst (5, 1) < fst u))"
    by (rule exI [of _ "[]"]) simp
  moreover have "(\<exists>us vs. ?kvs = us @ (3, 2) # vs \<and> (\<forall>u \<in> set us. fst u < fst (3, 2) \<or> fst (3, 2) < fst u))"
    by (rule exI [of _ "[(5, 1)]"]) simp
  moreover have "\<not> (\<exists>us vs. ?kvs = us @ (5, 9) # vs \<and> (\<forall>u \<in> set us. fst u < fst (5, 9) \<or> fst (5, 9) < fst u))"
    by (auto simp: Cons_eq_append_conv)
  ultimately show ?thesis using m by blast
qed

text \<open>
  C31: the size on the wire is given to the container before anything is checked against the
  octets that are there. When the container has no room for it, the deserialization of a
  string or a vector of the standard library does not return a status: the exception leaves
  it, however few octets follow.
\<close>
theorem size_from_wire_throws:
  fixes d :: ddata
  assumes "body_ctx E d" "ok_size (mode_of d) n" "\<not> memory_out E" "\<not> room (unat n)"
    and "walker_rep (m_binaryData d) (bs @ enc_size (mode_of d) n @ rest) (length bs)"
    and "length (bs @ enc_size (mode_of d) n @ rest) < 2 ^ 62"
  shows "deserialize_basic_string E room T des des_sized addr d s = None
     \<and> deserialize_std_vector E room dflt des_array d v = None"
proof -
  let ?xs = "enc_size (mode_of d) n"
  have l: "length ?xs \<le> length (bs @ ?xs @ rest) - length bs" "take (length ?xs) (drop (length bs) (bs @ ?xs @ rest)) = ?xs"
    by simp_all
  have "reads E (\<lambda>d. deserializeSizeT E d 0) ?xs d (\<lambda>x. x = n)" using size.des_reads [OF assms(1) TrueI assms(2)] .
  from this assms(5,6) l obtain w where "deserializeSizeT E d 0 = (NoError, d\<lparr>m_binaryData := w\<rparr>, n)"
    by (cases rule: readsE) (use assms(3) in auto)
  then show ?thesis
    using assms(4)
    by (simp add: deserialize_basic_string_def deserialize_std_vector_def run_try_def string_resize_def vector_resize_def)
qed

theorem size_from_wire_throws_witness:
  "deserialize_basic_string sample_env (\<lambda>n. n < 100) (integer_type False) (\<lambda>d x :: byte. (NoError, d, x))
     (\<lambda>_ d x. (NoError, d, x)) id (sample_ddata (obj_bytes False (1000 :: u64)) False) \<lparr>s_chars = [], s_terminator = 0\<rparr> = None
   \<and> deserialize_std_vector sample_env (\<lambda>n. n < 100) (0 :: byte) (\<lambda>d n p. Some (NoError, d, p))
     (sample_ddata (obj_bytes False (1000 :: u64)) False) [] = None"
proof -
  let ?d = "sample_ddata (obj_bytes False (1000 :: u64)) False"
  have md: "\<not> md_bitness32 (mode_of ?d)" "\<not> md_bigEndianFormat (mode_of ?d)"
    by (simp_all add: mode_of_def sample_ddata_def sample_dcommon_def common.defs)
  then have e: "enc_size (mode_of ?d) 1000 = obj_bytes False (1000 :: u64)" by (simp add: enc_size_def)
  have "walker_rep (m_binaryData ?d) (obj_bytes False (1000 :: u64)) 0"
    using sample_ddata_rep [of "obj_bytes False (1000 :: u64)" False] by simp
  then show ?thesis
    using md by (intro size_from_wire_throws [where n = 1000 and bs = "[]" and rest = "[]"])
      (simp_all add: sample_ddata_ok e ok_size_def memory_out_def)
qed

end
