(* ===== verification/IntegerWidths.thy ===== *)
theory IntegerWidths
  imports CodecInstances
begin

text \<open>
  The size-tolerant mode of \<open>BodyProcessor\<close>: integers between platforms on which a type
  has different widths.
\<close>

section \<open>Integers of another width\<close>

text \<open>What reading an integer gives whose value may not fit: status and value.\<close>

definition fitted :: "bool \<Rightarrow> 'a::len word \<Rightarrow> 'b::len word \<Rightarrow> status \<times> 'b word" where
  "fitted sg v old =
     (if \<exists>y :: 'b word. int_of sg y = int_of sg v then (NoError, word_of_int (int_of sg v))
      else (ErrorValueOverflow, old))"

definition ends_in ::
    "((byte walker, 'x) ctx \<Rightarrow> status \<times> (byte walker, 'x) ctx \<times> 'v) \<Rightarrow> byte list
     \<Rightarrow> (byte walker, 'x) ctx \<Rightarrow> status \<times> 'v \<Rightarrow> bool" where
  "ends_in f xs c r \<longleftrightarrow>
     (\<forall>w bs k. walker_rep w bs k \<and> length bs < 2 ^ 63 \<and> length xs \<le> length bs - k
          \<and> take (length xs) (drop k bs) = xs \<longrightarrow>
        (\<exists>w'. f (c\<lparr>m_binaryData := w\<rparr>) = (fst r, c\<lparr>m_binaryData := w'\<rparr>, snd r)
           \<and> walker_rep w' bs (k + length xs)))"

lemma ends_in_parses: "ends_in f xs c (NoError, v) = parses f xs c v"
  by (simp add: ends_in_def parses_def)

lemma ends_in_after:
  assumes "parses f xs c u" "\<And>d. g (f d) = h d" "\<And>d. g (NoError, d, u) = (fst r, d, snd r)"
  shows "ends_in h xs c r"
  using assms(1,3) assms(2) [symmetric] unfolding parses_def ends_in_def by metis

lemma int_of_same_width:
  fixes w :: "'o::len word"
  assumes "LENGTH('b::len) = LENGTH('o)"
  shows "int_of sg (ucast w :: 'b word) = int_of sg w"
proof -
  have u: "uint (ucast w :: 'b word) = uint w" using assms by (metis nat_less_le order.refl uint_up_ucast is_up)
  show ?thesis
  proof (cases sg)
    case True
    have "sint (ucast w :: 'b word) = sint w"
      using assms u sint_uint [of "ucast w :: 'b word"] sint_uint [of w] by simp
    then show ?thesis using True by (simp add: int_of_def)
  qed (simp add: int_of_def u)
qed

lemma obj_bytes_same_width:
  fixes w :: "'o::len word"
  assumes "LENGTH('b::len) = LENGTH('o)"
  shows "obj_bytes be (ucast w :: 'b word) = obj_bytes be w"
proof -
  have "uint (ucast w :: 'b word) = uint w" using int_of_same_width [OF assms, of False w] by (simp only: int_of_def if_False)
  then have "unat (ucast w :: 'b word) = unat w" by (simp only: nat_uint_eq [symmetric])
  then show ?thesis using assms by (simp only: obj_bytes_def)
qed

lemma int_of_bigger:
  fixes w :: "'o::len word"
  assumes "LENGTH('o) \<le> LENGTH('b::len)"
  shows "int_of sg (word_of_int (int_of sg w) :: 'b word) = int_of sg w"
proof -
  have p: "(2::int) ^ (LENGTH('o) - 1) \<le> 2 ^ (LENGTH('b) - 1)" "(2::int) ^ LENGTH('o) \<le> 2 ^ LENGTH('b)"
    using assms by (simp_all add: power_increasing)
  show ?thesis
    using int_of_range [of sg w] p
    by (intro int_of_word_of_int; cases sg; simp only: if_True if_False; linarith)
qed

lemma fitted_bigger:
  fixes w :: "'o::len word" and old :: "'b::len word"
  assumes "LENGTH('o) \<le> LENGTH('b)"
  shows "fitted sg w old = (NoError, word_of_int (int_of sg w))"
  using int_of_bigger [OF assms, of sg w] by (auto simp: fitted_def)

lemma ends_in_fromAnotherSizeInternal:
  fixes w z :: "'o::len word" and old :: "'b::len word"
  assumes L: "LENGTH('o) \<in> {8, 16, 32, 64}" "LENGTH('b) \<in> {8, 16, 32, 64}" and c: "body_ctx E c"
  shows "ends_in (\<lambda>c. deserializeFromAnotherSizeInternal E sg z c old) (obj_bytes (md_bigEndianFormat (mode_of c)) w)
     c (fitted sg w old)"
proof (cases "LENGTH('b) = LENGTH('o)")
  case True
  have "fitted sg w old = (NoError, ucast w)"
    using fitted_bigger [of sg w old] int_of_same_width [OF True, of sg w] True word_of_int_int_of [of sg "ucast w :: 'b word"]
    by simp
  moreover have "parses (\<lambda>c. readPrimitive E c old) (obj_bytes (md_bigEndianFormat (mode_of c)) w) c (ucast w)"
    using parses_prim [OF L(2) body_ctx_value [OF c], where v = "ucast w" and old = old] obj_bytes_same_width [OF True, of _ w] by simp
  ultimately show ?thesis using True by (simp add: ends_in_parses deserializeFromAnotherSizeInternal_def)
next
  case False
  let ?g = "\<lambda>(st, ctx, x). if \<not> statusSuccess st then (if st = ErrorOverflow then ErrorDataCorrupted else st, ctx, old)
      else if LENGTH('b) < LENGTH('o) then (let (st, value') = castToSmallerType sg (x :: 'o word) old in (st, ctx, value'))
      else (NoError, ctx, castToBiggerType sg x)"
  show ?thesis
  proof (rule ends_in_after [where g = ?g, OF parses_prim [OF L(1) body_ctx_value [OF c], where v = w and old = z]])
    show "?g (NoError, d, w) = (fst (fitted sg w old), d, snd (fitted sg w old))" for d :: ddata
    proof (cases "LENGTH('b) < LENGTH('o)")
      case True
      then show ?thesis
        by (simp add: castToSmallerType_spec [OF L(2)] fitted_def)
    next
      case 2: False
      then show ?thesis
        using fitted_bigger [of sg w old] by (simp add: castToBiggerType_def)
    qed
  qed (simp add: deserializeFromAnotherSizeInternal_def False)
qed

lemma ends_in_fromAnotherSize_as:
  fixes w :: "'a::len word" and old :: "'b::len word" and z :: "'o::len word"
  assumes L: "LENGTH('a) \<in> {8, 16, 32, 64}" "LENGTH('b) \<in> {8, 16, 32, 64}" and c: "body_ctx E c"
    and o: "LENGTH('o) = LENGTH('a)"
  shows "ends_in (\<lambda>c. deserializeFromAnotherSizeInternal E sg z c old)
     (obj_bytes (md_bigEndianFormat (mode_of c)) w) c (fitted sg w old)"
proof -
  have "fitted sg (ucast w :: 'o word) old = fitted sg w old" using int_of_same_width [OF o, of sg w] by (simp add: fitted_def)
  then show ?thesis
    using ends_in_fromAnotherSizeInternal [OF _ L(2) c, of sg z old "ucast w :: 'o word"] L(1) o
      obj_bytes_same_width [OF o, of _ w] by simp
qed

lemma ends_in_fromAnotherSize:
  fixes w :: "'a::len word" and old :: "'b::len word"
  assumes L: "LENGTH('a) \<in> {8, 16, 32, 64}" "LENGTH('b) \<in> {8, 16, 32, 64}" and c: "body_ctx E c"
  shows "ends_in (\<lambda>c. deserializeFromAnotherSize E sg (LENGTH('a) div 8) c old)
     (obj_bytes (md_bigEndianFormat (mode_of c)) w) c (fitted sg w old)"
  using L(1)
proof (elim insertE emptyE)
  assume "LENGTH('a) = 8"
  then show ?thesis using ends_in_fromAnotherSize_as [OF L c, where z = "0 :: byte" and w = w and old = old and sg = sg] by (simp add: deserializeFromAnotherSize_def)
next
  assume "LENGTH('a) = 16"
  then show ?thesis using ends_in_fromAnotherSize_as [OF L c, where z = "0 :: u16" and w = w and old = old and sg = sg] by (simp add: deserializeFromAnotherSize_def)
next
  assume "LENGTH('a) = 32"
  then show ?thesis using ends_in_fromAnotherSize_as [OF L c, where z = "0 :: u32" and w = w and old = old and sg = sg] by (simp add: deserializeFromAnotherSize_def)
next
  assume "LENGTH('a) = 64"
  then show ?thesis using ends_in_fromAnotherSize_as [OF L c, where z = "0 :: u64" and w = w and old = old and sg = sg] by (simp add: deserializeFromAnotherSize_def)
qed

lemma ends_in_deserialize_scalar:
  fixes w :: "'a::len word" and old :: "'b::len word"
  assumes L: "LENGTH('a) \<in> {8, 16, 32, 64}" "LENGTH('b) \<in> {8, 16, 32, 64}" and c: "body_ctx E c"
    and i: "int_sized (mode_of c)"
  shows "ends_in (\<lambda>c. deserialize_scalar E False False sg c old) (enc_scalar False False (mode_of c) w) c (fitted sg w old)"
  unfolding ends_in_def
proof (intro allI impI, elim conjE)
  fix x bs k
  let ?n = "of_nat (LENGTH('a) div 8) :: byte" and ?be = "md_bigEndianFormat (mode_of c)"
  have n: "unat ?n = LENGTH('a) div 8" using L by (auto simp: unat_of_nat_small)
  have e: "enc_scalar False False (mode_of c) w = [?n] @ obj_bytes ?be w" using i by (simp add: enc_scalar_def)
  assume x: "walker_rep x bs k" "length bs < 2 ^ 63" "length (enc_scalar False False (mode_of c) w) \<le> length bs - k"
    and t: "take (length (enc_scalar False False (mode_of c) w)) (drop k bs) = enc_scalar False False (mode_of c) w"
  note t12 = take_drop_append [OF t [unfolded e]]
  obtain x1 where x1: "readPrimitive E (c\<lparr>m_binaryData := x\<rparr>) (0 :: byte) = (NoError, c\<lparr>m_binaryData := x1\<rparr>, ?n)"
    "walker_rep x1 bs (Suc k)"
    using parsesD [OF parses_prim [OF _ body_ctx_value [OF c], where v = ?n and old = 0] x(1,2)] x(3) t12(1) unfolding e by auto
  obtain x2 where "deserializeFromAnotherSize E sg (LENGTH('a) div 8) (c\<lparr>m_binaryData := x1\<rparr>) old
      = (fst (fitted sg w old), c\<lparr>m_binaryData := x2\<rparr>, snd (fitted sg w old))" "walker_rep x2 bs (Suc k + LENGTH('a) div 8)"
    using ends_in_fromAnotherSize [OF L c, where sg = sg and w = w and old = old] x1(2) x(2,3) t12(2) unfolding e ends_in_def by fastforce
  then show "\<exists>w'. deserialize_scalar E False False sg (c\<lparr>m_binaryData := x\<rparr>) old
      = (fst (fitted sg w old), c\<lparr>m_binaryData := w'\<rparr>, snd (fitted sg w old))
      \<and> walker_rep w' bs (k + length (enc_scalar False False (mode_of c) w))"
    using mode_simps(1) [OF c] i x1(1) by (auto simp: deserialize_scalar_def e n run_simps)
qed

text \<open>
  C22: integers cross between platforms on which their type has different widths. In the
  size-tolerant mode what one side serializes as a word of its width, any other side reads
  into a word of its own width, signed or unsigned, in either byte order: it gets the same
  number when its type can hold it, and \<open>ErrorValueOverflow\<close> with the old value kept when it
  cannot; in both cases its position is right behind the value.
\<close>
theorem integer_crosses_widths:
  fixes v :: "'a::len word" and old :: "'b::len word"
  assumes "LENGTH('a) \<in> {8, 16, 32, 64}" "LENGTH('b) \<in> {8, 16, 32, 64}" "body_ctx E c" "\<not> memory_out E"
    and "m_sizeOfPrimitivesMayBeNotEqual c" "vec_rep (m_binaryData c) bs" "length bs + 9 < 2 ^ 62"
  shows "\<exists>b out. serialize_scalar E False False v c = (NoError, c\<lparr>m_binaryData := b\<rparr>) \<and> vec_rep b (bs @ out)
     \<and> (\<forall>d rest. body_ctx E' d \<and> mode_of d = mode_of c \<and> walker_rep (m_binaryData d) (bs @ out @ rest) (length bs)
          \<and> length (bs @ out @ rest) < 2 ^ 62 \<longrightarrow>
          (\<exists>w. deserialize_scalar E' False False sg d old =
             (if \<exists>y :: 'b word. int_of sg y = int_of sg v
              then (NoError, d\<lparr>m_binaryData := w\<rparr>, word_of_int (int_of sg v))
              else (ErrorValueOverflow, d\<lparr>m_binaryData := w\<rparr>, old))
             \<and> walker_rep w (bs @ out @ rest) (length bs + length out)))"
proof -
  let ?out = "enc_scalar False False (mode_of c) v"
  have i: "int_sized (mode_of c)" using assms(3,5) by (simp add: mode_simps)
  have l: "length bs + length ?out < 2 ^ 63" using assms(1,7) by (auto simp: enc_scalar_def)
  obtain b where b: "serialize_scalar E False False v c = (NoError, c\<lparr>m_binaryData := b\<rparr>)" "vec_rep b (bs @ ?out)"
    using emits_total [OF emits_serialize_scalar [OF assms(1) body_ctx_value [OF assms(3)]] assms(4,6) l] by blast
  have "\<exists>w. deserialize_scalar E' False False sg d old =
        (if \<exists>y :: 'b word. int_of sg y = int_of sg v
         then (NoError, d\<lparr>m_binaryData := w\<rparr>, word_of_int (int_of sg v))
         else (ErrorValueOverflow, d\<lparr>m_binaryData := w\<rparr>, old))
      \<and> walker_rep w (bs @ ?out @ rest) (length bs + length ?out)"
    if d: "body_ctx E' d" "mode_of d = mode_of c" "walker_rep (m_binaryData d) (bs @ ?out @ rest) (length bs)"
      "length (bs @ ?out @ rest) < 2 ^ 62" for d rest
  proof -
    have "ends_in (\<lambda>d. deserialize_scalar E' False False sg d old) ?out d (fitted sg v old)"
      using ends_in_deserialize_scalar [OF assms(1,2) d(1), where sg = sg and w = v and old = old] i d(2) by simp
    with d(3,4) obtain w where w: "deserialize_scalar E' False False sg d old =
        (fst (fitted sg v old), d\<lparr>m_binaryData := w\<rparr>, snd (fitted sg v old))"
        "walker_rep w (bs @ ?out @ rest) (length bs + length ?out)"
      unfolding ends_in_def by (auto dest!: spec [of _ "m_binaryData d"] spec [of _ "bs @ ?out @ rest"] spec [of _ "length bs"])
    then show ?thesis by (intro exI [of _ w]) (simp add: fitted_def)
  qed
  with b show ?thesis by blast
qed

definition sample_sized :: sdata where
  "sample_sized = (sample_sdata True)\<lparr>m_dataFlags := DataFlags kSizeOfIntegersMayBeNotEqual,
     m_sizeOfPrimitivesMayBeNotEqual := True\<rparr>"

lemma sample_sized_ok:
  "body_ctx sample_env sample_sized" "vec_rep (m_binaryData sample_sized) []" "m_sizeOfPrimitivesMayBeNotEqual sample_sized"
  using sample_sdata_ok(2)
  by (simp_all add: sample_sized_def body_ctx_def common_inv_def data_inv_def sample_sdata_def sample_scommon_def common.defs
      df_alignmentMayBeNotEqual_def df_sizeOfIntegersMayBeNotEqual_def df_allowUnmanagedPointers_def
      df_checkRecursivePointers_def df_simplyAssignableTagsOptimizationsAreTurnedOff_def flag_masks)

theorem integer_crosses_widths_witness:
  "\<exists>b out. serialize_scalar sample_env False False (0x10000 :: u32) sample_sized
     = (NoError, sample_sized\<lparr>m_binaryData := b\<rparr>) \<and> vec_rep b out"
proof -
  have "\<not> memory_out sample_env" by (simp add: memory_out_def)
  from integer_crosses_widths [OF _ _ sample_sized_ok(1) this sample_sized_ok(3,2), where 'a = 32 and 'b = 16
      and v = "0x10000" and old = 0 and E' = sample_env and sg = False]
  show ?thesis by auto
qed

end
