(* ===== verification/PointerGraphs.thy ===== *)
theory PointerGraphs
  imports VectorCodec
begin

text \<open>
  Objects that point to each other, as the structs \<open>RecursiveTestSpecial1\<close> and
  \<open>RecursiveTestSpecial2\<close> of the tests: their bodies, written and read with the pointers
  map of the context, and that a graph of such objects, cycles and sharing included, arrives as
  the same graph.
\<close>

section \<open>Objects in a store\<close>

text \<open>
  The objects a pointer of these structs leads to, with pointers of type \<open>'p\<close>, and the static
  type of the pointee; a store maps addresses to objects, the null pointer is \<open>0\<close>.
\<close>

datatype 'p pointed =
    IntObject u32
  | RecursiveTestSpecial1 (one_pAny: 'p)
  | RecursiveTestSpecial2 (two_pI: 'p) (two_pNext: 'p) (two_pAny: 'p)

datatype pointee = P_int | P_Special1 | P_Special2

type_synonym object_store = "nat \<Rightarrow> nat pointed option"

fun pointed_type :: "'p pointed \<Rightarrow> pointee" where
  "pointed_type (IntObject _) = P_int"
| "pointed_type (RecursiveTestSpecial1 _) = P_Special1"
| "pointed_type (RecursiveTestSpecial2 _ _ _) = P_Special2"

fun pointed_default :: "pointee \<Rightarrow> nat pointed" where
  "pointed_default P_int = IntObject 0"
| "pointed_default P_Special1 = RecursiveTestSpecial1 0"
| "pointed_default P_Special2 = RecursiveTestSpecial2 0 0 0"

fun pointed_sizeof :: "pointee \<Rightarrow> nat" where
  "pointed_sizeof P_int = 4"
| "pointed_sizeof P_Special1 = 8"
| "pointed_sizeof P_Special2 = 24"

text \<open>The pointers of an object with the type of what they lead to.\<close>

fun pointed_pointers :: "'p pointed \<Rightarrow> (pointee \<times> 'p) list" where
  "pointed_pointers (IntObject _) = []"
| "pointed_pointers (RecursiveTestSpecial1 pAny) = [(P_Special2, pAny)]"
| "pointed_pointers (RecursiveTestSpecial2 pI pNext pAny) = [(P_int, pI), (P_Special2, pNext), (P_Special1, pAny)]"

section \<open>Serialization\<close>

text \<open>The bodies of the structs; \<open>ser1\<close>, \<open>ser2\<close>, \<open>ser_int\<close> serialize the object at an address.\<close>

definition serialize_RecursiveTestSpecial1 ::
    "env \<Rightarrow> (nat \<Rightarrow> sdata \<Rightarrow> status \<times> sdata) \<Rightarrow> nat \<Rightarrow> sdata \<Rightarrow> status \<times> sdata" where
  "serialize_RecursiveTestSpecial1 E ser2 m_pAny ctx =
     run (serialize_pointer E ser2 m_pAny ctx) (\<lambda>ctx. (NoError, ctx))"

definition serialize_RecursiveTestSpecial2 ::
    "env \<Rightarrow> (nat \<Rightarrow> sdata \<Rightarrow> status \<times> sdata) \<Rightarrow> (nat \<Rightarrow> sdata \<Rightarrow> status \<times> sdata) \<Rightarrow> (nat \<Rightarrow> sdata \<Rightarrow> status \<times> sdata)
     \<Rightarrow> nat \<Rightarrow> nat \<Rightarrow> nat \<Rightarrow> sdata \<Rightarrow> status \<times> sdata" where
  "serialize_RecursiveTestSpecial2 E ser_int ser2 ser1 m_pI m_pNext m_pAny ctx =
     run (serialize_pointer E ser_int m_pI ctx) (\<lambda>ctx.
     run (serialize_pointer E ser2 m_pNext ctx) (\<lambda>ctx.
     run (serialize_pointer E ser1 m_pAny ctx) (\<lambda>ctx. (NoError, ctx))))"

text \<open>
  \<open>serialize(*value, ctx)\<close> for the object at \<open>a\<close>. The calls nest as deep as the pointers lead:
  with \<open>0\<close> for the depth, or without an object of the type at \<open>a\<close>, the result is
  \<open>ErrorInternal\<close>, which the code does not give here.
\<close>

fun serialize_object :: "env \<Rightarrow> object_store \<Rightarrow> nat \<Rightarrow> pointee \<Rightarrow> nat \<Rightarrow> sdata \<Rightarrow> status \<times> sdata" where
  "serialize_object E h 0 T a ctx = (ErrorInternal, ctx)"
| "serialize_object E h (Suc n) T a ctx =
     (case (T, h a) of
        (P_int, Some (IntObject v)) \<Rightarrow> serialize_scalar E False False v ctx
      | (P_Special1, Some (RecursiveTestSpecial1 pAny)) \<Rightarrow>
          serialize_RecursiveTestSpecial1 E (serialize_object E h n P_Special2) pAny ctx
      | (P_Special2, Some (RecursiveTestSpecial2 pI pNext pAny)) \<Rightarrow>
          serialize_RecursiveTestSpecial2 E (serialize_object E h n P_int) (serialize_object E h n P_Special2)
            (serialize_object E h n P_Special1) pI pNext pAny ctx
      | _ \<Rightarrow> (ErrorInternal, ctx))"

definition serialize_object_pointer ::
    "env \<Rightarrow> object_store \<Rightarrow> nat \<Rightarrow> pointee \<Rightarrow> nat \<Rightarrow> sdata \<Rightarrow> status \<times> sdata" where
  "serialize_object_pointer E h n T = serialize_pointer E (serialize_object E h n T)"

section \<open>Deserialization\<close>

text \<open>
  \<open>allocs T h\<close> is what the allocation manager of the type \<open>T\<close> gives in the store \<open>h\<close>; the
  keepers of the three types have different destroying functions.
\<close>

fun pointed_helper :: "pointee \<Rightarrow> nat" where
  "pointed_helper P_int = 1"
| "pointed_helper P_Special1 = 2"
| "pointed_helper P_Special2 = 3"

definition pointed_max_size :: "pointee \<Rightarrow> size_t" where
  "pointed_max_size T = noexcept_max_size (raw_elem (pointed_sizeof T) :: nat elem)"

definition deserialize_to ::
    "env \<Rightarrow> (pointee \<Rightarrow> object_store \<Rightarrow> size_t \<Rightarrow> nat \<times> size_t) \<Rightarrow> pointee
     \<Rightarrow> (nat \<Rightarrow> ddata \<Rightarrow> object_store \<Rightarrow> status \<times> ddata \<times> object_store)
     \<Rightarrow> ddata \<Rightarrow> nat \<Rightarrow> object_store \<Rightarrow> status \<times> ddata \<times> nat \<times> object_store" where
  "deserialize_to E allocs T =
     deserialize_pointer E (pointed_max_size T) (allocs T) (\<lambda>p h. h(p \<mapsto> pointed_default T)) (pointed_helper T)"

definition deserialize_RecursiveTestSpecial1 ::
    "env \<Rightarrow> (pointee \<Rightarrow> object_store \<Rightarrow> size_t \<Rightarrow> nat \<times> size_t)
     \<Rightarrow> (nat \<Rightarrow> ddata \<Rightarrow> object_store \<Rightarrow> status \<times> ddata \<times> object_store)
     \<Rightarrow> ddata \<Rightarrow> nat \<Rightarrow> object_store \<Rightarrow> status \<times> ddata \<times> nat \<times> object_store" where
  "deserialize_RecursiveTestSpecial1 E allocs des2 ctx m_pAny h = deserialize_to E allocs P_Special2 des2 ctx m_pAny h"

definition deserialize_RecursiveTestSpecial2 ::
    "env \<Rightarrow> (pointee \<Rightarrow> object_store \<Rightarrow> size_t \<Rightarrow> nat \<times> size_t)
     \<Rightarrow> (nat \<Rightarrow> ddata \<Rightarrow> object_store \<Rightarrow> status \<times> ddata \<times> object_store)
     \<Rightarrow> (nat \<Rightarrow> ddata \<Rightarrow> object_store \<Rightarrow> status \<times> ddata \<times> object_store)
     \<Rightarrow> (nat \<Rightarrow> ddata \<Rightarrow> object_store \<Rightarrow> status \<times> ddata \<times> object_store)
     \<Rightarrow> ddata \<Rightarrow> nat \<Rightarrow> nat \<Rightarrow> nat \<Rightarrow> object_store \<Rightarrow> status \<times> ddata \<times> nat \<times> nat \<times> nat \<times> object_store" where
  "deserialize_RecursiveTestSpecial2 E allocs des_int des2 des1 ctx m_pI m_pNext m_pAny h =
     (let (st, ctx, m_pI, h) = deserialize_to E allocs P_int des_int ctx m_pI h
      in if \<not> statusSuccess st then (st, ctx, m_pI, m_pNext, m_pAny, h)
         else
           let (st, ctx, m_pNext, h) = deserialize_to E allocs P_Special2 des2 ctx m_pNext h
           in if \<not> statusSuccess st then (st, ctx, m_pI, m_pNext, m_pAny, h)
              else
                let (st, ctx, m_pAny, h) = deserialize_to E allocs P_Special1 des1 ctx m_pAny h
                in (st, ctx, m_pI, m_pNext, m_pAny, h))"

fun deserialize_object ::
    "env \<Rightarrow> (pointee \<Rightarrow> object_store \<Rightarrow> size_t \<Rightarrow> nat \<times> size_t) \<Rightarrow> nat \<Rightarrow> pointee \<Rightarrow> nat \<Rightarrow> ddata
     \<Rightarrow> object_store \<Rightarrow> status \<times> ddata \<times> object_store" where
  "deserialize_object E allocs 0 T a ctx h = (ErrorInternal, ctx, h)"
| "deserialize_object E allocs (Suc n) T a ctx h =
     (case (T, h a) of
        (P_int, Some (IntObject v)) \<Rightarrow>
          (let (st, ctx, v) = deserialize_scalar E False False True ctx v in (st, ctx, h(a \<mapsto> IntObject v)))
      | (P_Special1, Some (RecursiveTestSpecial1 pAny)) \<Rightarrow>
          (let (st, ctx, pAny, h) = deserialize_RecursiveTestSpecial1 E allocs
                 (deserialize_object E allocs n P_Special2) ctx pAny h
           in (st, ctx, h(a \<mapsto> RecursiveTestSpecial1 pAny)))
      | (P_Special2, Some (RecursiveTestSpecial2 pI pNext pAny)) \<Rightarrow>
          (let (st, ctx, pI, pNext, pAny, h) = deserialize_RecursiveTestSpecial2 E allocs
                 (deserialize_object E allocs n P_int) (deserialize_object E allocs n P_Special2)
                 (deserialize_object E allocs n P_Special1) ctx pI pNext pAny h
           in (st, ctx, h(a \<mapsto> RecursiveTestSpecial2 pI pNext pAny)))
      | _ \<Rightarrow> (ErrorInternal, ctx, h))"

definition deserialize_object_pointer ::
    "env \<Rightarrow> (pointee \<Rightarrow> object_store \<Rightarrow> size_t \<Rightarrow> nat \<times> size_t) \<Rightarrow> nat \<Rightarrow> pointee
     \<Rightarrow> ddata \<Rightarrow> nat \<Rightarrow> object_store \<Rightarrow> status \<times> ddata \<times> nat \<times> object_store" where
  "deserialize_object_pointer E allocs n T = deserialize_to E allocs T (deserialize_object E allocs n T)"

section \<open>What is written\<close>

text \<open>
  The octets of an object and the pointers map behind them, at the position \<open>pos\<close> of the
  message: a null pointer is \<open>0\<close>, a pointer to an object that was met before is its position, and
  a pointer to another object is \<open>1\<close> followed by the object.
\<close>

definition pointer_octets ::
    "mode \<Rightarrow> (nat \<Rightarrow> nat \<Rightarrow> (nat \<Rightarrow> u64 option) \<Rightarrow> byte list \<times> (nat \<Rightarrow> u64 option))
     \<Rightarrow> nat \<Rightarrow> nat \<Rightarrow> (nat \<Rightarrow> u64 option) \<Rightarrow> byte list \<times> (nat \<Rightarrow> u64 option)" where
  "pointer_octets md obj p pos M =
     (if p = 0 then (enc_size md 0, M)
      else case M p of
        Some off \<Rightarrow> (enc_size md off, M)
      | None \<Rightarrow>
          let pos = pos + length (enc_size md 1);
              (xs, M) = obj p pos (M(p \<mapsto> of_nat pos))
          in (enc_size md 1 @ xs, M))"

fun pointers_octets ::
    "mode \<Rightarrow> (nat \<Rightarrow> nat \<Rightarrow> (nat \<Rightarrow> u64 option) \<Rightarrow> byte list \<times> (nat \<Rightarrow> u64 option))
     \<Rightarrow> nat list \<Rightarrow> nat \<Rightarrow> (nat \<Rightarrow> u64 option) \<Rightarrow> byte list \<times> (nat \<Rightarrow> u64 option)" where
  "pointers_octets md obj [] pos M = ([], M)"
| "pointers_octets md obj (p # ps) pos M =
     (let (xs, M) = pointer_octets md obj p pos M;
          (ys, M) = pointers_octets md obj ps (pos + length xs) M
      in (xs @ ys, M))"

fun object_octets ::
    "mode \<Rightarrow> object_store \<Rightarrow> nat \<Rightarrow> nat \<Rightarrow> nat \<Rightarrow> (nat \<Rightarrow> u64 option) \<Rightarrow> byte list \<times> (nat \<Rightarrow> u64 option)" where
  "object_octets md h 0 a pos M = ([], M)"
| "object_octets md h (Suc n) a pos M =
     (case h a of
        None \<Rightarrow> ([], M)
      | Some (IntObject v) \<Rightarrow> (enc_scalar False False md v, M)
      | Some x \<Rightarrow> pointers_octets md (object_octets md h n) (map snd (pointed_pointers x)) pos M)"

text \<open>A store whose pointers lead to objects of the right type, or nowhere.\<close>

definition well_typed :: "object_store \<Rightarrow> bool" where
  "well_typed h \<longleftrightarrow> finite (dom h) \<and> h 0 = None
     \<and> (\<forall>a x T p. h a = Some x \<longrightarrow> (T, p) \<in> set (pointed_pointers x) \<longrightarrow> p \<noteq> 0 \<longrightarrow>
          (\<exists>y. h p = Some y \<and> pointed_type y = T))"

lemma well_typedD:
  "well_typed h \<Longrightarrow> h a = Some x \<Longrightarrow> (T, p) \<in> set (pointed_pointers x) \<Longrightarrow> p \<noteq> 0 \<Longrightarrow>
   \<exists>y. h p = Some y \<and> pointed_type y = T"
  unfolding well_typed_def by blast

text \<open>
  The objects not met yet bound both the depth of the calls and the length of what is written:
  an object takes at most 24 octets beside the objects met inside it.
\<close>

definition unmet :: "object_store \<Rightarrow> (nat \<Rightarrow> u64 option) \<Rightarrow> nat" where
  "unmet h M = card (dom h - dom M)"

definition grows :: "object_store \<Rightarrow> nat \<Rightarrow> (nat \<Rightarrow> u64 option) \<Rightarrow> byte list \<times> (nat \<Rightarrow> u64 option) \<Rightarrow> bool" where
  "grows h k M r \<longleftrightarrow> M \<subseteq>\<^sub>m snd r \<and> dom (snd r) \<subseteq> dom h \<and> length (fst r) + 24 * unmet h (snd r) \<le> k + 24 * unmet h M"

lemma length_enc_size_same: "length (enc_size md v) = length (enc_size md v')"
  by (simp add: enc_size_def)

lemma unmet_mono: "finite (dom h) \<Longrightarrow> M \<subseteq>\<^sub>m M' \<Longrightarrow> unmet h M' \<le> unmet h M"
  unfolding unmet_def by (intro card_mono) (auto dest: map_le_implies_dom_le)

lemma unmet_visit:
  assumes "finite (dom h)" "h p \<noteq> None" "M p = None"
  shows "Suc (unmet h (M(p \<mapsto> off))) = unmet h M"
proof -
  let ?A = "dom h - dom (M(p \<mapsto> off))"
  have 1: "dom h - dom M = insert p ?A" using assms by auto
  have "card (insert p ?A) = Suc (card ?A)" using assms(1) by (intro card_insert_disjoint) auto
  then show ?thesis unfolding unmet_def 1 by (rule sym)
qed

lemma map_le_visit: "M p = None \<Longrightarrow> M \<subseteq>\<^sub>m M(p \<mapsto> off)"
  by (auto simp: map_le_def)

lemma pointer_octets_grows:
  assumes h: "finite (dom h)" and M: "dom M \<subseteq> dom h" and p: "p \<noteq> 0 \<Longrightarrow> h p \<noteq> None"
    and obj: "\<And>M pos. \<lbrakk>p \<noteq> 0; dom M \<subseteq> dom h; M p \<noteq> None; unmet h M < n\<rbrakk> \<Longrightarrow> grows h 24 M (obj p pos M)"
    and n: "unmet h M \<le> n"
  shows "grows h 8 M (pointer_octets md obj p pos M)"
proof (cases "p = 0 \<or> M p \<noteq> None")
  case True
  then show ?thesis using M length_enc_size(1) [of md] by (auto simp: pointer_octets_def grows_def split: option.splits)
next
  case False
  let ?pos = "pos + length (enc_size md 1)"
  let ?M = "M(p \<mapsto> of_nat ?pos)"
  have u: "Suc (unmet h ?M) = unmet h M" using unmet_visit [OF h, of p M] p False by simp
  obtain xs M' where r: "obj p ?pos ?M = (xs, M')" by fastforce
  have "grows h 24 ?M (obj p ?pos ?M)" using False M p u n by (intro obj) auto
  then have g: "?M \<subseteq>\<^sub>m M'" "dom M' \<subseteq> dom h" "length xs + 24 * unmet h M' \<le> 24 + 24 * unmet h ?M"
    unfolding r by (simp_all add: grows_def)
  have "M \<subseteq>\<^sub>m M'" using map_le_visit [of M p] False g(1) by (meson map_le_trans)
  moreover have "pointer_octets md obj p pos M = (enc_size md 1 @ xs, M')"
    using False r by (simp add: pointer_octets_def)
  ultimately show ?thesis using g(2,3) u length_enc_size(1) [of md 1] by (simp add: grows_def)
qed

lemma pointers_octets_grows:
  assumes h: "finite (dom h)" and obj: "\<And>M p pos. \<lbrakk>p \<noteq> 0; dom M \<subseteq> dom h; M p \<noteq> None; unmet h M < n\<rbrakk> \<Longrightarrow> grows h 24 M (obj p pos M)"
  shows "\<lbrakk>dom M \<subseteq> dom h; \<forall>p \<in> set ps. p \<noteq> 0 \<longrightarrow> h p \<noteq> None; unmet h M \<le> n\<rbrakk> \<Longrightarrow>
    grows h (8 * length ps) M (pointers_octets md obj ps pos M)"
proof (induction ps arbitrary: pos M)
  case Nil
  then show ?case by (simp add: grows_def)
next
  case (Cons p ps)
  obtain xs M1 where 1: "pointer_octets md obj p pos M = (xs, M1)" by fastforce
  have "grows h 8 M (pointer_octets md obj p pos M)"
  proof (rule pointer_octets_grows [OF h Cons.prems(1) _ _ Cons.prems(3)])
    show "h p \<noteq> None" if "p \<noteq> 0" using Cons.prems(2) that by simp
  qed (rule obj)
  then have g1: "grows h 8 M (xs, M1)" unfolding 1 .
  then have M1: "M \<subseteq>\<^sub>m M1" "dom M1 \<subseteq> dom h" by (simp_all add: grows_def)
  obtain ys M2 where 2: "pointers_octets md obj ps (pos + length xs) M1 = (ys, M2)" by fastforce
  have "unmet h M1 \<le> n" using unmet_mono [OF h M1(1)] Cons.prems(3) by (rule le_trans)
  moreover have "\<forall>p \<in> set ps. p \<noteq> 0 \<longrightarrow> h p \<noteq> None" using Cons.prems(2) by simp
  ultimately have g2: "grows h (8 * length ps) M1 (ys, M2)"
    using Cons.IH [OF M1(2), of "pos + length xs"] unfolding 2 by blast
  have "M \<subseteq>\<^sub>m M2" using M1(1) g2 by (auto simp: grows_def intro: map_le_trans)
  moreover have "pointers_octets md obj (p # ps) pos M = (xs @ ys, M2)" using 1 2 by simp
  ultimately show ?case using g1 g2 by (simp add: grows_def)
qed

lemma object_octets_grows:
  "\<lbrakk>well_typed h; dom M \<subseteq> dom h; M a \<noteq> None; unmet h M < n\<rbrakk> \<Longrightarrow> grows h 24 M (object_octets md h n a pos M)"
proof (induction n arbitrary: a M pos)
  case 0
  then show ?case by simp
next
  case (Suc n)
  obtain x where x: "h a = Some x" using Suc.prems(2,3) by auto
  have f: "finite (dom h)" using Suc.prems(1) by (simp add: well_typed_def)
  have ps: "\<forall>p \<in> set (map snd (pointed_pointers x)). p \<noteq> 0 \<longrightarrow> h p \<noteq> None"
    using well_typedD [OF Suc.prems(1) x] by fastforce
  have g: "grows h (8 * length (map snd (pointed_pointers x))) M
      (pointers_octets md (object_octets md h n) (map snd (pointed_pointers x)) pos M)"
    using Suc.prems by (intro pointers_octets_grows [OF f Suc.IH [OF Suc.prems(1)] _ ps]) auto
  show ?case
  proof (cases x)
    case (IntObject v)
    then show ?thesis using x Suc.prems(2) by (auto simp: grows_def enc_scalar_def)
  qed (use g x in \<open>auto simp: grows_def\<close>)
qed

section \<open>The writer\<close>

text \<open>A context that tracks recursive pointers, with its container and its pointers map.\<close>

definition graph_ctx :: "env \<Rightarrow> ('b, 'k, 'v) data \<Rightarrow> bool" where
  "graph_ctx E c \<longleftrightarrow> value_ctx E c \<and> m_checkRecursivePointers c \<and> m_allowUnmanagedPointers c"

definition writer :: "sdata \<Rightarrow> byte vec \<Rightarrow> (nat \<Rightarrow> u64 option) \<Rightarrow> sdata" where
  "writer c b M = (c\<lparr>m_pPointersMap := Some M\<rparr>)\<lparr>m_binaryData := b\<rparr>"

lemma value_ctx_map [simp]:
  "value_ctx E (c\<lparr>m_pPointersMap := N\<rparr>) = value_ctx E c" "value_ctx E (c\<lparr>m_pAddedPointers := v\<rparr>) = value_ctx E c"
  "mode_of (c\<lparr>m_pPointersMap := N\<rparr>) = mode_of c" "mode_of (c\<lparr>m_pAddedPointers := v\<rparr>) = mode_of c"
  by (simp_all add: value_ctx_def mode_of_def common_inv_def data_inv_def)

lemma writer_simps [simp]:
  "m_binaryData (writer c b M) = b" "m_pPointersMap (writer c b M) = Some M"
  "m_checkRecursivePointers (writer c b M) = m_checkRecursivePointers c"
  "m_allowUnmanagedPointers (writer c b M) = m_allowUnmanagedPointers c"
  "put_pointer (writer c b M) p off = writer c b (M(p \<mapsto> off))"
  by (simp_all add: writer_def put_pointer_def)

text \<open>Positions of a message that a map may hold: behind a marker, up to \<open>k\<close>, each for one address.\<close>

definition map_ok :: "(nat \<Rightarrow> u64 option) \<Rightarrow> nat \<Rightarrow> bool" where
  "map_ok M k \<longleftrightarrow> (\<forall>p off. M p = Some off \<longrightarrow> p \<noteq> 0 \<and> 2 \<le> unat off \<and> unat off \<le> k) \<and> inj_on M (dom M)"

lemma map_ok_mono: "map_ok M k \<Longrightarrow> k \<le> k' \<Longrightarrow> map_ok M k'"
  unfolding map_ok_def by (blast intro: le_trans)

lemma map_okD: "map_ok M k \<Longrightarrow> M p = Some off \<Longrightarrow> p \<noteq> 0 \<and> 2 \<le> unat off \<and> unat off \<le> k"
  unfolding map_ok_def by blast

lemma map_ok_visit:
  assumes "map_ok M k" "k + 2 \<le> k'" "k' < 2 ^ 32" "p \<noteq> 0"
  shows "map_ok (M(p \<mapsto> of_nat k')) k'"
proof -
  have u: "unat (of_nat k' :: u64) = k'" using assms(3) by (simp add: unat_of_nat_small)
  have new: "M q \<noteq> Some (of_nat k')" for q using map_okD [OF assms(1), of q "of_nat k'"] u assms(2) by auto
  have "inj_on (M(p \<mapsto> of_nat k')) (dom (M(p \<mapsto> of_nat k')))"
    using assms(1) new unfolding map_ok_def inj_on_def by (auto simp: eq_commute)
  then show ?thesis
    using assms(1,2,4) u unfolding map_ok_def by (auto intro: le_trans [of _ k])
qed

text \<open>
  \<open>writes c P f obj\<close>: from a map in \<open>P\<close>, \<open>f\<close> appends the octets that \<open>obj\<close> gives and leaves the
  map that \<open>obj\<close> gives.
\<close>

definition writes ::
    "sdata \<Rightarrow> ((nat \<Rightarrow> u64 option) \<Rightarrow> bool) \<Rightarrow> (sdata \<Rightarrow> status \<times> sdata)
     \<Rightarrow> (nat \<Rightarrow> (nat \<Rightarrow> u64 option) \<Rightarrow> byte list \<times> (nat \<Rightarrow> u64 option)) \<Rightarrow> bool" where
  "writes c P f obj \<longleftrightarrow>
     (\<forall>b bs M xs M'. vec_rep b bs \<and> map_ok M (length bs) \<and> P M \<and> obj (length bs) M = (xs, M')
          \<and> length bs + length xs < 2 ^ 32 \<longrightarrow>
        (\<exists>b'. f (writer c b M) = (NoError, writer c b' M') \<and> vec_rep b' (bs @ xs) \<and> map_ok M' (length bs + length xs)))"

lemma writesI:
  assumes "\<And>b bs M xs M'. \<lbrakk>vec_rep b bs; map_ok M (length bs); P M; obj (length bs) M = (xs, M');
      length bs + length xs < 2 ^ 32\<rbrakk> \<Longrightarrow>
      \<exists>b'. f (writer c b M) = (NoError, writer c b' M') \<and> vec_rep b' (bs @ xs) \<and> map_ok M' (length bs + length xs)"
  shows "writes c P f obj"
  using assms unfolding writes_def by blast

lemma writesE:
  assumes "writes c P f obj" "vec_rep b bs" "map_ok M (length bs)" "P M" "obj (length bs) M = (xs, M')"
    "length bs + length xs < 2 ^ 32"
  obtains b' where "f (writer c b M) = (NoError, writer c b' M')" "vec_rep b' (bs @ xs)" "map_ok M' (length bs + length xs)"
  using assms unfolding writes_def by blast

lemma writer_emits:
  assumes "\<And>c. value_ctx E c \<Longrightarrow> mode_of c = md \<Longrightarrow> emits E f xs c" "\<not> memory_out E" "value_ctx E c" "mode_of c = md"
    and "vec_rep b bs" "length bs + length xs < 2 ^ 32"
  shows "\<exists>b'. f (writer c b M) = (NoError, writer c b' M) \<and> vec_rep b' (bs @ xs)"
proof -
  have "emits E f xs (c\<lparr>m_pPointersMap := Some M\<rparr>)" using assms(1,3,4) by simp
  moreover have "length bs + length xs < 2 ^ 63" using assms(6) by simp
  ultimately show ?thesis using assms(2,5) unfolding writer_def by (auto elim: emitsE)
qed

lemma write_size:
  assumes "\<not> memory_out E" "value_ctx E c" "unat v < 2 ^ 32" "vec_rep b bs"
    "length bs + length (enc_size (mode_of c) v) < 2 ^ 32"
  shows "\<exists>b'. serializeSizeT E v (writer c b M) = (NoError, writer c b' M) \<and> vec_rep b' (bs @ enc_size (mode_of c) v)"
proof (rule writer_emits [OF _ assms(1,2) refl assms(4,5)])
  fix c' :: sdata
  assume "value_ctx E c'" "mode_of c' = mode_of c"
  then show "emits E (serializeSizeT E v) (enc_size (mode_of c) v) c'"
    using emits_size [of E c' v] assms(3) by (simp add: ok_size_def)
qed

lemma write_int:
  assumes "\<not> memory_out E" "value_ctx E c" "vec_rep b bs"
    "length bs + length (enc_scalar False False (mode_of c) (v :: u32)) < 2 ^ 32"
  shows "\<exists>b'. serialize_scalar E False False v (writer c b M) = (NoError, writer c b' M)
     \<and> vec_rep b' (bs @ enc_scalar False False (mode_of c) v)"
proof (rule writer_emits [OF _ assms(1,2) refl assms(3,4)])
  fix c' :: sdata
  assume "value_ctx E c'" "mode_of c' = mode_of c"
  then show "emits E (serialize_scalar E False False v) (enc_scalar False False (mode_of c) v) c'"
    using emits_serialize_scalar [of E c' False False v] by simp
qed

lemma writes_pointer:
  assumes c: "graph_ctx E c" "\<not> memory_out E"
    and P: "\<And>M off. \<lbrakk>P M; M p = None; p \<noteq> 0\<rbrakk> \<Longrightarrow> Q (M(p \<mapsto> off))" and ser: "p \<noteq> 0 \<Longrightarrow> writes c Q (ser p) (obj p)"
  shows "writes c P (serialize_pointer E ser p) (pointer_octets (mode_of c) obj p)"
proof (rule writesI)
  fix b :: "byte vec" and bs M and xs :: "byte list" and M'
  assume b: "vec_rep b bs" and M: "map_ok M (length bs)" "P M" and o: "pointer_octets (mode_of c) obj p (length bs) M = (xs, M')"
    and l: "length bs + length xs < 2 ^ 32"
  have v: "value_ctx E c" and fl: "m_checkRecursivePointers c" "m_allowUnmanagedPointers c"
    using c(1) by (simp_all add: graph_ctx_def)
  consider (null) "p = 0" | (known) off where "p \<noteq> 0" "M p = Some off" | (new) "p \<noteq> 0" "M p = None" by fastforce
  then show "\<exists>b'. serialize_pointer E ser p (writer c b M) = (NoError, writer c b' M') \<and> vec_rep b' (bs @ xs)
      \<and> map_ok M' (length bs + length xs)"
  proof cases
    case null
    then have x: "xs = enc_size (mode_of c) 0" "M' = M" using o by (simp_all add: pointer_octets_def)
    obtain b' where "serializeSizeT E 0 (writer c b M) = (NoError, writer c b' M)" "vec_rep b' (bs @ xs)"
      using write_size [OF c(2) v _ b, of 0 M] l x by auto
    then show ?thesis using null x(2) fl map_ok_mono [OF M(1)] by (intro exI [of _ b']) (simp add: serialize_pointer_def addPointerToMap_def)
  next
    case known
    then have x: "xs = enc_size (mode_of c) off" "M' = M" using o by (simp_all add: pointer_octets_def)
    have "unat off < 2 ^ 32" using map_okD [OF M(1) known(2)] l by simp
    then obtain b' where "serializeSizeT E off (writer c b M) = (NoError, writer c b' M)" "vec_rep b' (bs @ xs)"
      using write_size [OF c(2) v _ b, of off M] l x by auto
    then show ?thesis using known x(2) fl map_ok_mono [OF M(1)] by (intro exI [of _ b']) (simp add: serialize_pointer_def addPointerToMap_def)
  next
    case new
    let ?m = "enc_size (mode_of c) 1" let ?pos = "length bs + length ?m"
    let ?M = "M(p \<mapsto> of_nat ?pos)"
    obtain ys where ys: "obj p ?pos ?M = (ys, M')" "xs = ?m @ ys"
      using o new by (auto simp: pointer_octets_def Let_def split: prod.splits)
    have l1: "?pos < 2 ^ 32" using l ys(2) by simp
    obtain b1 where b1: "serializeSizeT E 1 (writer c b M) = (NoError, writer c b1 M)" "vec_rep b1 (bs @ ?m)"
      using write_size [OF c(2) v _ b, of 1 M] l1 by auto
    have sz: "vec_size b1 = of_nat ?pos" using vec_rep_size [OF b1(2)] by simp
    have "map_ok ?M ?pos" using length_enc_size(2) [of "mode_of c" 1] l1 new(1) by (intro map_ok_visit [OF M(1)]) simp_all
    then obtain b' where "ser p (writer c b1 ?M) = (NoError, writer c b' M')" "vec_rep b' ((bs @ ?m) @ ys)"
        "map_ok M' (length (bs @ ?m) + length ys)"
      using writesE [OF ser [OF new(1)] b1(2), of ?M ys M'] P [OF M(2) new(2,1)] ys l by auto
    then show ?thesis
      using new fl b1(1) sz ys(2) by (intro exI [of _ b']) (simp add: serialize_pointer_def addPointerToMap_def add.assoc)
  qed
qed

lemma writes_Nil: "writes c P (\<lambda>ctx. (NoError, ctx)) (pointers_octets md obj [])"
  by (auto simp: writes_def)

lemma writes_Cons:
  assumes "writes c P f (pointer_octets md obj p)" "writes c P g (pointers_octets md obj ps)"
    and "\<And>M pos xs M'. \<lbrakk>P M; pointer_octets md obj p pos M = (xs, M')\<rbrakk> \<Longrightarrow> P M'"
  shows "writes c P (\<lambda>ctx. run (f ctx) g) (pointers_octets md obj (p # ps))"
proof (rule writesI)
  fix b :: "byte vec" and bs M and xs :: "byte list" and M'
  assume b: "vec_rep b bs" and M: "map_ok M (length bs)" "P M"
    and o: "pointers_octets md obj (p # ps) (length bs) M = (xs, M')" and l: "length bs + length xs < 2 ^ 32"
  obtain ys M1 zs where ys: "pointer_octets md obj p (length bs) M = (ys, M1)"
    "pointers_octets md obj ps (length bs + length ys) M1 = (zs, M')" "xs = ys @ zs"
    using o by (auto split: prod.splits)
  have l1: "length bs + length ys < 2 ^ 32" using l ys(3) by simp
  obtain b1 where b1: "f (writer c b M) = (NoError, writer c b1 M1)" "vec_rep b1 (bs @ ys)" "map_ok M1 (length bs + length ys)"
    using writesE [OF assms(1) b M ys(1) l1] by blast
  have P1: "P M1" by (rule assms(3) [OF M(2) ys(1)])
  obtain b2 where "g (writer c b1 M1) = (NoError, writer c b2 M')" "vec_rep b2 ((bs @ ys) @ zs)"
      "map_ok M' (length (bs @ ys) + length zs)"
    using writesE [OF assms(2) b1(2) _ P1, of zs M'] b1(3) ys(2,3) l by auto
  then show "\<exists>b'. run (f (writer c b M)) g = (NoError, writer c b' M') \<and> vec_rep b' (bs @ xs) \<and> map_ok M' (length bs + length xs)"
    using b1(1) ys(3) by (intro exI [of _ b2]) (simp add: run_simps add.assoc)
qed

text \<open>The maps from which an object, or a pointer, may be written with calls nested \<open>n\<close> deep.\<close>

definition depth_ok :: "object_store \<Rightarrow> nat \<Rightarrow> (nat \<Rightarrow> u64 option) \<Rightarrow> bool" where
  "depth_ok h n M \<longleftrightarrow> dom M \<subseteq> dom h \<and> unmet h M \<le> n"

lemma grows_depth: "finite (dom h) \<Longrightarrow> depth_ok h n M \<Longrightarrow> grows h k M (xs, M') \<Longrightarrow> depth_ok h n M'"
  using unmet_mono [of h M M'] by (auto simp: depth_ok_def grows_def)

lemma visit_depth:
  "\<lbrakk>finite (dom h); depth_ok h n M; M p = None; h p \<noteq> None\<rbrakk> \<Longrightarrow>
   dom (M(p \<mapsto> off)) \<subseteq> dom h \<and> (M(p \<mapsto> off)) p \<noteq> None \<and> unmet h (M(p \<mapsto> off)) < n"
  using unmet_visit [of h p M off] by (auto simp: depth_ok_def)

lemma pointer_grows:
  assumes h: "well_typed h" and p: "p \<noteq> 0 \<Longrightarrow> h p \<noteq> None" and M: "depth_ok h n M"
  shows "grows h 8 M (pointer_octets md (object_octets md h n) p pos M)"
proof (rule pointer_octets_grows [where n = n])
  show "finite (dom h)" using h by (simp add: well_typed_def)
  show "h p \<noteq> None" if "p \<noteq> 0" by (rule p [OF that])
  show "dom M \<subseteq> dom h" "unmet h M \<le> n" using M by (simp_all add: depth_ok_def)
  show "grows h 24 M (object_octets md h n p pos M)" if "dom M \<subseteq> dom h" "M p \<noteq> None" "unmet h M < n" for M pos
    using that by (intro object_octets_grows [OF h])
qed

lemma pointer_depth:
  assumes h: "well_typed h" and p: "p \<noteq> 0 \<Longrightarrow> h p \<noteq> None" and M: "depth_ok h n M"
    and o: "pointer_octets md (object_octets md h n) p pos M = (xs, M')"
  shows "depth_ok h n M'"
  using grows_depth [OF _ M] pointer_grows [OF h p M, of md pos] h unfolding o well_typed_def by blast

lemma writes_object:
  assumes c: "graph_ctx E c" "\<not> memory_out E" and h: "well_typed h"
  shows "\<lbrakk>h a = Some x; pointed_type x = T\<rbrakk> \<Longrightarrow>
    writes c (\<lambda>M. dom M \<subseteq> dom h \<and> M a \<noteq> None \<and> unmet h M < n) (serialize_object E h n T a)
      (object_octets (mode_of c) h n a)"
proof (induction n arbitrary: a x T)
  case 0
  then show ?case by (simp add: writes_def)
next
  case (Suc n)
  let ?md = "mode_of c" and ?D = "depth_ok h n"
  have v: "value_ctx E c" using c(1) by (simp add: graph_ctx_def)
  have f: "finite (dom h)" using h by (simp add: well_typed_def)
  have D: "depth_ok h n M" if "dom M \<subseteq> dom h" "unmet h M < Suc n" for M using that by (simp add: depth_ok_def)
  have W: "writes c ?D (serialize_pointer E (serialize_object E h n U) p) (pointer_octets ?md (object_octets ?md h n) p)"
    if U: "(U, p) \<in> set (pointed_pointers x)" for U p
  proof (rule writes_pointer [where Q = "\<lambda>M. dom M \<subseteq> dom h \<and> M p \<noteq> None \<and> unmet h M < n", OF c])
    assume "p \<noteq> 0"
    then obtain y where y: "h p = Some y" "pointed_type y = U" using well_typedD [OF h Suc.prems(1) U] by blast
    then show "writes c (\<lambda>M. dom M \<subseteq> dom h \<and> M p \<noteq> None \<and> unmet h M < n) (serialize_object E h n U p)
        (object_octets ?md h n p)" by (rule Suc.IH)
  next
    fix M off
    assume M: "depth_ok h n M" "M p = None" and p: "p \<noteq> 0"
    have "h p \<noteq> None" using well_typedD [OF h Suc.prems(1) U p] by auto
    then show "dom (M(p \<mapsto> off)) \<subseteq> dom h \<and> (M(p \<mapsto> off)) p \<noteq> None \<and> unmet h (M(p \<mapsto> off)) < n"
      by (rule visit_depth [OF f M])
  qed
  have C: "writes c ?D (\<lambda>ctx. run (serialize_pointer E (serialize_object E h n U) p ctx) g)
      (pointers_octets ?md (object_octets ?md h n) (p # ps))"
    if U: "(U, p) \<in> set (pointed_pointers x)" and g: "writes c ?D g (pointers_octets ?md (object_octets ?md h n) ps)" for U p g ps
  proof (rule writes_Cons [OF W [OF U] g])
    have p: "h p \<noteq> None" if "p \<noteq> 0" using well_typedD [OF h Suc.prems(1) U that] by auto
    show "?D M'" if M: "?D M" and o: "pointer_octets ?md (object_octets ?md h n) p pos M = (xs, M')" for M pos xs M'
      by (rule pointer_depth [OF h p M o])
  qed
  have R: "writes c (\<lambda>M. dom M \<subseteq> dom h \<and> M a \<noteq> None \<and> unmet h M < Suc n) g o'" if "writes c ?D g o'" for g o'
    using that D unfolding writes_def by blast
  show ?case
  proof (cases x)
    case (IntObject v)
    show ?thesis
    proof (rule writesI)
      fix b :: "byte vec" and bs M and xs :: "byte list" and M'
      assume b: "vec_rep b bs" "map_ok M (length bs)" and o: "object_octets ?md h (Suc n) a (length bs) M = (xs, M')"
        and l: "length bs + length xs < 2 ^ 32"
      have x: "xs = enc_scalar False False ?md v" "M' = M" using o Suc.prems(1) IntObject by simp_all
      obtain b' where "serialize_scalar E False False v (writer c b M) = (NoError, writer c b' M)" "vec_rep b' (bs @ xs)"
        using write_int [OF c(2) \<open>value_ctx E c\<close> b(1), of v M] l unfolding x by blast
      moreover have "serialize_object E h (Suc n) T a (writer c b M) = serialize_scalar E False False v (writer c b M)"
        using Suc.prems unfolding IntObject by (cases T) auto
      moreover have "map_ok M (length bs + length xs)" by (rule map_ok_mono [OF b(2)]) simp
      ultimately show "\<exists>b'. serialize_object E h (Suc n) T a (writer c b M) = (NoError, writer c b' M') \<and> vec_rep b' (bs @ xs)
          \<and> map_ok M' (length bs + length xs)"
        unfolding x(2) by metis
    qed
  next
    case (RecursiveTestSpecial1 pAny)
    have "writes c ?D (serialize_RecursiveTestSpecial1 E (serialize_object E h n P_Special2) pAny)
        (pointers_octets ?md (object_octets ?md h n) [pAny])"
      unfolding serialize_RecursiveTestSpecial1_def
      by (intro C writes_Nil) (simp_all add: RecursiveTestSpecial1)
    from R [OF this] show ?thesis using Suc.prems RecursiveTestSpecial1 by (auto simp: writes_def)
  next
    case (RecursiveTestSpecial2 pI pNext pAny)
    have "writes c ?D (serialize_RecursiveTestSpecial2 E (serialize_object E h n P_int) (serialize_object E h n P_Special2)
        (serialize_object E h n P_Special1) pI pNext pAny) (pointers_octets ?md (object_octets ?md h n) [pI, pNext, pAny])"
      unfolding serialize_RecursiveTestSpecial2_def
      by (intro C writes_Nil) (simp_all add: RecursiveTestSpecial2)
    from R [OF this] show ?thesis using Suc.prems RecursiveTestSpecial2 by (auto simp: writes_def)
  qed
qed

section \<open>The reader\<close>

definition reader :: "ddata \<Rightarrow> byte walker \<Rightarrow> (u64 \<Rightarrow> nat option) \<Rightarrow> nat pointer_keeper vec \<Rightarrow> ddata" where
  "reader d w N v = (d\<lparr>m_pPointersMap := Some N\<rparr>\<lparr>m_pAddedPointers := Some v\<rparr>)\<lparr>m_binaryData := w\<rparr>"

lemma reader_simps [simp]:
  "m_binaryData (reader d w N v) = w" "m_pPointersMap (reader d w N v) = Some N" "m_pAddedPointers (reader d w N v) = Some v"
  "m_checkRecursivePointers (reader d w N v) = m_checkRecursivePointers d"
  "m_allowUnmanagedPointers (reader d w N v) = m_allowUnmanagedPointers d"
  "put_pointer (reader d w N v) off b = reader d w (N(off \<mapsto> b)) v"
  "(reader d w N v)\<lparr>m_pAddedPointers := Some v'\<rparr> = reader d w N v'"
  by (simp_all add: reader_def put_pointer_def)

interpretation keepers: movable_type keeper_elem
  by unfold_locales (auto simp: keeper_elem_def gpk_move_new_def)

text \<open>
  What the code relies on in the allocators: with memory they give an object of its own. The
  theorems ask this of the parameter \<open>allocs\<close>.
\<close>

definition fresh_allocs :: "(pointee \<Rightarrow> object_store \<Rightarrow> size_t \<Rightarrow> nat \<times> size_t) \<Rightarrow> bool" where
  "fresh_allocs allocs \<longleftrightarrow> (\<forall>T H. finite (dom H) \<longrightarrow> fst (allocs T H 1) \<noteq> 0 \<and> H (fst (allocs T H 1)) = None)"

lemma allocate_pointed:
  assumes "\<not> memory_out E" "vec_rep v ks" "length ks < 2 ^ 32" "fst (allocs T H 1) \<noteq> 0"
  shows "\<exists>v' k log. allocateAndDefaultConstruct E (pointed_max_size T) (allocs T H) (pointed_helper T) (reader d w N v)
      = (fst (allocs T H 1), reader d w N v', log)
    \<and> vec_rep v' (ks @ [k]) \<and> g_p k = fst (allocs T H 1) \<and> g_destroyAndDeallocate k = Some (pointed_helper T)"
proof -
  obtain b n where b: "allocs T H 1 = (b, n)" "b \<noteq> 0" using assms(4) by (cases "allocs T H 1") auto
  let ?k = "\<lparr>g_p = b, g_size = n, g_destroyAndDeallocate = Some (pointed_helper T)\<rparr>"
  have m: "\<not> 1 > pointed_max_size T"
    by (cases T) (simp_all add: pointed_max_size_def noexcept_max_size_def raw_elem_def)
  have a: "gpk_allocateAndConstructOne (pointed_max_size T) (allocs T H) (pointed_helper T) gpk_new [] = (b, ?k, [])"
    using b m by (simp add: gpk_allocateAndConstructOne_def gpk_allocateAndConstruct_def gpk_new_def Let_def)
  have "fits keeper_elem (Suc (length ks))" using assms(3) by (simp add: fits_def keeper_elem_def)
  then obtain v' src where p: "vec_pushBack_move E keeper_elem v (Obj ?k) = (NoError, v', src)" "vec_rep v' (ks @ [?k])"
    using keepers.pushBack_move_ok [OF assms(2), of E ?k] assms(1) by (auto simp: memory_out_def)
  then show ?thesis
    using a b by (intro exI [of _ v'] exI [of _ ?k]) (simp add: allocateAndDefaultConstruct_def Let_def)
qed

section \<open>The copy of a graph\<close>

text \<open>
  The object that stands for the one at \<open>a\<close>, by way of its position in the message, and the
  relation of the reader's store \<open>H\<close> to the writer's \<open>h\<close>: the objects met have an object of
  the same type each, those that are read completely (not in \<open>S\<close>) have their contents, the
  store as it was before, \<open>H0\<close>, is untouched, and every new object has a keeper behind those
  that were there, \<open>ks0\<close>.
\<close>

definition image_of :: "(nat \<Rightarrow> u64 option) \<Rightarrow> (u64 \<Rightarrow> nat option) \<Rightarrow> nat \<Rightarrow> nat" where
  "image_of M N a = (if a = 0 then 0 else the (N (the (M a))))"

definition keeps :: "object_store \<Rightarrow> nat pointer_keeper list \<Rightarrow> nat set \<Rightarrow> bool" where
  "keeps H new A \<longleftrightarrow> length new = card A \<and> g_p ` set new = A
     \<and> (\<forall>k \<in> set new. \<exists>y. H (g_p k) = Some y \<and> g_destroyAndDeallocate k = Some (pointed_helper (pointed_type y)))"

definition graph_copy ::
    "object_store \<Rightarrow> object_store \<Rightarrow> nat set \<Rightarrow> (nat \<Rightarrow> u64 option) \<Rightarrow> (u64 \<Rightarrow> nat option) \<Rightarrow> object_store \<Rightarrow> bool" where
  "graph_copy h H0 S M N H \<longleftrightarrow>
     (\<forall>a off. M a = Some off \<longrightarrow> (\<exists>b x y. N off = Some b \<and> b \<noteq> 0 \<and> H0 b = None \<and> h a = Some x \<and> H b = Some y
          \<and> pointed_type y = pointed_type x))
     \<and> inj_on N (ran M)
     \<and> (\<forall>a x. M a \<noteq> None \<longrightarrow> a \<notin> S \<longrightarrow> h a = Some x \<longrightarrow>
          H (image_of M N a) = Some (map_pointed (image_of M N) x) \<and> set_pointed x \<subseteq> insert 0 (dom M))
     \<and> finite (dom H) \<and> (\<forall>b \<in> dom H0. H b = H0 b) \<and> S \<subseteq> dom M"

definition copy_state ::
    "object_store \<Rightarrow> object_store \<Rightarrow> nat pointer_keeper list \<Rightarrow> byte list \<Rightarrow> nat \<Rightarrow> nat set \<Rightarrow> (nat \<Rightarrow> u64 option)
     \<Rightarrow> byte walker \<Rightarrow> (u64 \<Rightarrow> nat option) \<Rightarrow> nat pointer_keeper vec \<Rightarrow> object_store \<Rightarrow> bool" where
  "copy_state h H0 ks0 bs pos S M w N v H \<longleftrightarrow>
     walker_rep w bs pos \<and> map_ok M pos \<and> graph_copy h H0 S M N H
     \<and> (\<exists>new. vec_rep v (ks0 @ new) \<and> keeps H new (image_of M N ` dom M))"

text \<open>Going on, nothing of the maps is lost and no object but those in \<open>B\<close> is changed.\<close>

definition extends ::
    "nat set \<Rightarrow> (nat \<Rightarrow> u64 option) \<Rightarrow> (u64 \<Rightarrow> nat option) \<Rightarrow> object_store
     \<Rightarrow> (nat \<Rightarrow> u64 option) \<Rightarrow> (u64 \<Rightarrow> nat option) \<Rightarrow> object_store \<Rightarrow> bool" where
  "extends B M N H M' N' H' \<longleftrightarrow>
     M \<subseteq>\<^sub>m M' \<and> (\<forall>off \<in> ran M. N' off = N off) \<and> (\<forall>b \<in> dom H - B. H' b = H b)"

lemma extends_refl: "extends B M N H M N H"
  by (simp add: extends_def)

lemma extends_trans:
  assumes "extends B M N H M' N' H'" "extends B' M' N' H' M'' N'' H''"
  shows "extends (B \<union> B') M N H M'' N'' H''"
proof -
  have le: "M' a = Some off" if "M a = Some off" for a off
    using assms(1) that by (auto simp: extends_def map_le_def dom_def)
  have 1: "M \<subseteq>\<^sub>m M''" using assms by (auto simp: extends_def intro: map_le_trans)
  have 2: "N'' off = N off" if "off \<in> ran M" for off
  proof -
    have "off \<in> ran M'" using that le by (auto simp: ran_def)
    then show ?thesis using assms that by (simp add: extends_def)
  qed
  have 3: "H'' b = H b" if "b \<in> dom H - (B \<union> B')" for b
  proof -
    have "H' b = H b" using assms(1) that by (simp add: extends_def)
    moreover have "H'' b = H' b" using assms(2) that calculation by (auto simp: extends_def dom_def)
    ultimately show ?thesis by simp
  qed
  show ?thesis unfolding extends_def using 1 2 3 by blast
qed

lemma extends_image:
  assumes "extends B M N H M' N' H'" "a = 0 \<or> M a \<noteq> None"
  shows "image_of M' N' a = image_of M N a"
proof (cases "a = 0")
  case False
  then obtain off where "M a = Some off" using assms(2) by auto
  then have "M' a = Some off" "N' off = N off"
    using assms(1) by (auto simp: extends_def map_le_def dom_def ran_def)
  then show ?thesis using \<open>M a = Some off\<close> False by (simp add: image_of_def)
qed (simp add: image_of_def)

lemma graph_copyD:
  assumes "graph_copy h H0 S M N H" "M a = Some off"
  obtains b x y where "N off = Some b" "b \<noteq> 0" "H0 b = None" "h a = Some x" "H b = Some y" "pointed_type y = pointed_type x"
  using assms unfolding graph_copy_def by blast

lemma image_of_met:
  assumes "graph_copy h H0 S M N H" "map_ok M k" "M a \<noteq> None"
  obtains x y where "image_of M N a \<noteq> 0" "H0 (image_of M N a) = None" "h a = Some x" "H (image_of M N a) = Some y"
    "pointed_type y = pointed_type x" "N (the (M a)) = Some (image_of M N a)"
proof -
  obtain off where off: "M a = Some off" using assms(3) by auto
  have "a \<noteq> 0" using map_okD [OF assms(2) off] by simp
  with off have "image_of M N a = the (N off)" by (simp add: image_of_def)
  then show ?thesis using graph_copyD [OF assms(1) off] off that by (metis option.sel)
qed

lemma image_of_inj:
  assumes "graph_copy h H0 S M N H" "map_ok M k"
  shows "inj_on (image_of M N) (insert 0 (dom M))"
proof (rule inj_onI)
  fix a a'
  assume a: "a \<in> insert 0 (dom M)" "a' \<in> insert 0 (dom M)" and e: "image_of M N a = image_of M N a'"
  have z: "a = 0 \<longleftrightarrow> image_of M N a = 0" if "a \<in> insert 0 (dom M)" for a
  proof (cases "a = 0")
    case False
    then have "M a \<noteq> None" using that by auto
    then show ?thesis using False image_of_met [OF assms, of a] by blast
  qed (simp add: image_of_def)
  show "a = a'"
  proof (cases "a = 0")
    case False
    then have m: "M a \<noteq> None" "M a' \<noteq> None" using a z [OF a(1)] z [OF a(2)] e by auto
    have "N (the (M a)) = N (the (M a'))" using image_of_met [OF assms m(1)] image_of_met [OF assms m(2)] e by metis
    moreover have "the (M a) \<in> ran M" "the (M a') \<in> ran M" using m by (auto intro: ranI)
    moreover have "inj_on N (ran M)" using assms(1) by (simp add: graph_copy_def)
    ultimately have "the (M a) = the (M a')" by (meson inj_onD)
    then have "M a = M a'" using m by auto
    then show ?thesis using assms(2) m unfolding map_ok_def inj_on_def by blast
  qed (use z [OF a(1)] z [OF a(2)] e in simp)
qed

lemma keeps_add:
  assumes "keeps H new A" "finite A" "b \<notin> A" "H b = None" "g_p k = b" "g_destroyAndDeallocate k = Some (pointed_helper (pointed_type y))"
  shows "keeps (H(b \<mapsto> y)) (new @ [k]) (insert b A)"
  using assms unfolding keeps_def by (auto simp: card_insert_disjoint)

lemma keeps_update:
  assumes "keeps H new A" "H b = Some y" "pointed_type y' = pointed_type y"
  shows "keeps (H(b \<mapsto> y')) new A"
  using assms(1,2,3) unfolding keeps_def by (intro conjI ballI) (metis fun_upd_other fun_upd_same option.sel)+

text \<open>A new object is made for one that is met the first time.\<close>

lemma graph_copy_visit:
  assumes G: "graph_copy h H0 S M N H" and M: "map_ok M pos" "map_ok (M(p \<mapsto> off)) k" and p: "p \<noteq> 0" "M p = None"
    and x: "h p = Some x" "pointed_type y = pointed_type x" and b: "b \<noteq> 0" "H b = None"
  shows "graph_copy h H0 (insert p S) (M(p \<mapsto> off)) (N(off \<mapsto> b)) (H(b \<mapsto> y))"
    and "extends {} M N H (M(p \<mapsto> off)) (N(off \<mapsto> b)) (H(b \<mapsto> y))"
    and "image_of (M(p \<mapsto> off)) (N(off \<mapsto> b)) ` dom (M(p \<mapsto> off)) = insert b (image_of M N ` dom M)"
    and "b \<notin> image_of M N ` dom M"
proof -
  let ?M = "M(p \<mapsto> off)" and ?N = "N(off \<mapsto> b)" and ?H = "H(b \<mapsto> y)"
  have off: "M a \<noteq> Some off" for a
  proof
    assume a: "M a = Some off"
    then have "a \<noteq> p" using p(2) by auto
    then have e: "?M a = ?M p" and d: "a \<in> dom ?M" "p \<in> dom ?M" using a by auto
    have "inj_on ?M (dom ?M)" using M(2) by (simp add: map_ok_def)
    then have "a = p" using e d by (rule inj_onD)
    then show False using \<open>a \<noteq> p\<close> by simp
  qed
  show e: "extends {} M N H ?M ?N ?H"
    using off p(2) b(2) by (auto simp: extends_def map_le_def ran_def dom_def)
  have im: "image_of ?M ?N a = image_of M N a" if "a = 0 \<or> M a \<noteq> None" for a by (rule extends_image [OF e that])
  have imp: "image_of ?M ?N p = b" using p(1) by (simp add: image_of_def)
  have H0: "H0 b = None" using G b(2) unfolding graph_copy_def by (metis domIff)
  show nb: "b \<notin> image_of M N ` dom M"
  proof
    assume "b \<in> image_of M N ` dom M"
    then obtain a where "M a \<noteq> None" "b = image_of M N a" by auto
    then show False using image_of_met [OF G M(1), of a] b(2) by (metis option.distinct(1))
  qed
  have "image_of ?M ?N ` dom M = image_of M N ` dom M" using im by (intro image_cong) auto
  then show "image_of ?M ?N ` dom ?M = insert b (image_of M N ` dom M)" using imp by simp
  have 1: "\<exists>b' x' y'. ?N off' = Some b' \<and> b' \<noteq> 0 \<and> H0 b' = None \<and> h a = Some x' \<and> ?H b' = Some y' \<and> pointed_type y' = pointed_type x'"
    if a: "?M a = Some off'" for a off'
  proof (cases "a = p")
    case True
    then show ?thesis using a b x H0 by auto
  next
    case False
    then have "M a = Some off'" "off' \<noteq> off" using a off by auto
    then obtain b' x' y' where "N off' = Some b'" "b' \<noteq> 0" "H0 b' = None" "h a = Some x'" "H b' = Some y'" "pointed_type y' = pointed_type x'"
      using graph_copyD [OF G] by metis
    then show ?thesis using \<open>off' \<noteq> off\<close> b(2) by (metis fun_upd_other option.distinct(1))
  qed
  have val: "\<exists>b'. N off' = Some b' \<and> H b' \<noteq> None" if "off' \<in> ran M" for off'
  proof -
    from that obtain a where a: "M a = Some off'" by (auto simp: ran_def)
    show ?thesis by (rule graph_copyD [OF G a]) simp
  qed
  have r: "ran ?M = insert off (ran M)" using p(2) by (simp add: ran_map_upd)
  have "off \<notin> ran M" using off by (auto simp: ran_def)
  moreover have "inj_on N (ran M)" using G by (simp add: graph_copy_def)
  ultimately have "inj_on ?N (ran M)" by (auto simp: inj_on_def)
  moreover have "?N off \<notin> ?N ` (ran M - {off})"
  proof
    assume "?N off \<in> ?N ` (ran M - {off})"
    then obtain x where x: "?N off = ?N x" "x \<in> ran M - {off}" by (rule imageE)
    then have "N x = Some b" by auto
    then show False using val [of x] x(2) b(2) by auto
  qed
  ultimately have 2: "inj_on ?N (ran ?M)" unfolding r inj_on_insert by blast
  have 3: "?H (image_of ?M ?N a) = Some (map_pointed (image_of ?M ?N) x') \<and> set_pointed x' \<subseteq> insert 0 (dom ?M)"
    if a: "?M a \<noteq> None" "a \<notin> insert p S" "h a = Some x'" for a x'
  proof -
    have m: "M a \<noteq> None" "a \<notin> S" using a(1,2) by auto
    then have o: "H (image_of M N a) = Some (map_pointed (image_of M N) x')" "set_pointed x' \<subseteq> insert 0 (dom M)"
      using G a(3) unfolding graph_copy_def by blast+
    have "map_pointed (image_of ?M ?N) x' = map_pointed (image_of M N) x'"
      using o(2) im by (intro pointed.map_cong0) auto
    moreover have "image_of M N a \<noteq> b" using o(1) b(2) by auto
    ultimately show ?thesis using o m(1) im by auto
  qed
  have "finite (dom ?H)" "\<forall>b' \<in> dom H0. ?H b' = H0 b'" "insert p S \<subseteq> dom ?M"
    using G H0 unfolding graph_copy_def by auto
  with 1 2 3 show "graph_copy h H0 (insert p S) ?M ?N ?H" unfolding graph_copy_def by blast
qed

text \<open>An object is read completely.\<close>

lemma graph_copy_finish:
  assumes G: "graph_copy h H0 S M N H" and M: "map_ok M pos" and a: "M a \<noteq> None" "h a = Some x"
    and x: "set_pointed x \<subseteq> insert 0 (dom M)"
  shows "graph_copy h H0 (S - {a}) M N (H(image_of M N a \<mapsto> map_pointed (image_of M N) x))"
    and "keeps H new A \<Longrightarrow> keeps (H(image_of M N a \<mapsto> map_pointed (image_of M N) x)) new A"
proof -
  let ?y = "map_pointed (image_of M N) x"
  have ty: "pointed_type ?y = pointed_type x" by (cases x) simp_all
  obtain y where y: "H0 (image_of M N a) = None" "H (image_of M N a) = Some y" "pointed_type y = pointed_type x"
    using image_of_met [OF G M a(1)] a(2) by (metis option.sel)
  show "keeps (H(image_of M N a \<mapsto> ?y)) new A" if "keeps H new A"
    using keeps_update [OF that y(2)] ty y(3) by simp
  have 1: "\<exists>b x' y'. N off = Some b \<and> b \<noteq> 0 \<and> H0 b = None \<and> h a' = Some x' \<and> (H(image_of M N a \<mapsto> ?y)) b = Some y'
      \<and> pointed_type y' = pointed_type x'" if a': "M a' = Some off" for a' off
  proof -
    obtain b x' y' where b: "N off = Some b" "b \<noteq> 0" "H0 b = None" "h a' = Some x'" "H b = Some y'" "pointed_type y' = pointed_type x'"
      using graph_copyD [OF G a'] by blast
    show ?thesis using b y ty by (cases "b = image_of M N a") auto
  qed
  have 3: "(H(image_of M N a \<mapsto> ?y)) (image_of M N a') = Some (map_pointed (image_of M N) x') \<and> set_pointed x' \<subseteq> insert 0 (dom M)"
    if a': "M a' \<noteq> None" "a' \<notin> S - {a}" "h a' = Some x'" for a' x'
  proof (cases "a' = a")
    case False
    then have "image_of M N a' \<noteq> image_of M N a"
      using image_of_inj [OF G M] a'(1) a(1) unfolding inj_on_def by blast
    then show ?thesis using G a' False unfolding graph_copy_def by auto
  qed (use a'(3) a(2) x in auto)
  have "finite (dom (H(image_of M N a \<mapsto> ?y)))" "\<forall>b \<in> dom H0. (H(image_of M N a \<mapsto> ?y)) b = H0 b" "S - {a} \<subseteq> dom M" "inj_on N (ran M)"
    using G y(1) unfolding graph_copy_def by auto
  with 1 3 show "graph_copy h H0 (S - {a}) M N (H(image_of M N a \<mapsto> ?y))" unfolding graph_copy_def by blast
qed

section \<open>Reading a graph\<close>

definition next_octets :: "byte list \<Rightarrow> nat \<Rightarrow> byte list \<Rightarrow> bool" where
  "next_octets bs pos xs \<longleftrightarrow> pos + length xs \<le> length bs \<and> take (length xs) (drop pos bs) = xs"

lemma next_octets_append:
  "next_octets bs pos (xs @ ys) \<longleftrightarrow> next_octets bs pos xs \<and> next_octets bs (pos + length xs) ys"
proof
  assume "next_octets bs pos (xs @ ys)"
  then show "next_octets bs pos xs \<and> next_octets bs (pos + length xs) ys"
    using take_drop_append [of xs ys pos bs] by (simp add: next_octets_def)
next
  assume a: "next_octets bs pos xs \<and> next_octets bs (pos + length xs) ys"
  have "take (length xs + length ys) (drop pos bs) = take (length xs) (drop pos bs) @ take (length ys) (drop (pos + length xs) bs)"
    by (simp add: take_add add.commute)
  then show "next_octets bs pos (xs @ ys)" using a by (simp add: next_octets_def)
qed

lemma reader_parses:
  assumes "\<And>d. value_ctx E d \<Longrightarrow> mode_of d = md \<Longrightarrow> parses f xs d x" "value_ctx E d" "mode_of d = md"
    and "walker_rep w bs pos" "length bs < 2 ^ 32" "next_octets bs pos xs"
  shows "\<exists>w'. f (reader d w N v) = (NoError, reader d w' N v, x) \<and> walker_rep w' bs (pos + length xs)"
proof -
  have "parses f xs (d\<lparr>m_pPointersMap := Some N, m_pAddedPointers := Some v\<rparr>) x" using assms(1-3) by simp
  moreover have "length bs < 2 ^ 63" "length xs \<le> length bs - pos" "take (length xs) (drop pos bs) = xs"
    using assms(5,6) by (auto simp: next_octets_def)
  ultimately show ?thesis unfolding reader_def by (intro parsesD assms(4))
qed

lemma read_size:
  assumes "value_ctx E d" "unat x < 2 ^ 32" "walker_rep w bs pos" "length bs < 2 ^ 32" "next_octets bs pos (enc_size (mode_of d) x)"
  shows "\<exists>w'. deserializeSizeT E (reader d w N v) old = (NoError, reader d w' N v, x)
     \<and> walker_rep w' bs (pos + length (enc_size (mode_of d) x))"
proof (rule reader_parses [OF _ assms(1) refl assms(3-5)])
  fix d' :: ddata
  assume "value_ctx E d'" "mode_of d' = mode_of d"
  then show "parses (\<lambda>d. deserializeSizeT E d old) (enc_size (mode_of d) x) d' x"
    using parses_size [of E d' x old] assms(2) by (simp add: ok_size_def)
qed

lemma read_int:
  assumes "value_ctx E d" "walker_rep w bs pos" "length bs < 2 ^ 32" "next_octets bs pos (enc_scalar False False (mode_of d) (x :: u32))"
  shows "\<exists>w'. deserialize_scalar E False False True (reader d w N v) old = (NoError, reader d w' N v, x)
     \<and> walker_rep w' bs (pos + length (enc_scalar False False (mode_of d) x))"
proof (rule reader_parses [OF _ assms(1) refl assms(2-4)])
  fix d' :: ddata
  assume "value_ctx E d'" "mode_of d' = mode_of d"
  then show "parses (\<lambda>d. deserialize_scalar E False False True d old) (enc_scalar False False (mode_of d) x) d' x"
    using parses_deserialize_scalar [of E d' False False True old x] by simp
qed

text \<open>The position in front of a pointer: null, a new object, or one that is in the map.\<close>

lemma getPointerFromMap_reads:
  assumes c: "value_ctx E d" and w: "walker_rep w bs pos" and l: "length bs < 2 ^ 32"
    and n: "next_octets bs pos (enc_size (mode_of d) off)" and off: "off = 0 \<or> off = 1 \<or> (\<exists>q. N off = Some q) \<and> unat off \<le> pos"
  shows "\<exists>w'. getPointerFromMap E (reader d w N v) old =
        (if off = 0 then (NoError, reader d w' N v, 0, False) else if off = 1 then (NoError, reader d w' N v, old, True)
         else (NoError, reader d w' N v, the (N off), False)) \<and> walker_rep w' bs (pos + length (enc_size (mode_of d) off))"
proof -
  have "pos \<le> length bs" using w by (simp add: walker_rep_def)
  then have "unat off < 2 ^ 32" using off l by auto
  then obtain w' where w': "deserializeSizeT E (reader d w N v) 0 = (NoError, reader d w' N v, off)"
      "walker_rep w' bs (pos + length (enc_size (mode_of d) off))" using read_size [OF c _ w l n] by blast
  then have "unat (walker_tell w') = pos + length (enc_size (mode_of d) off)" by (simp add: walker_rep_def walker_tell_def)
  then have "unat off \<le> pos \<Longrightarrow> \<not> off \<ge> walker_tell w'" using length_enc_size(2) [of "mode_of d" off] by (simp add: word_le_nat_alt)
  then show ?thesis using w' off by (intro exI [of _ w']) (auto simp: getPointerFromMap_def)
qed

text \<open>A marker makes an object, with a keeper, and enters its position into the map.\<close>

lemma deserialize_to_new:
  assumes d: "graph_ctx E d" "\<not> memory_out E" and w: "walker_rep w bs pos" "length bs < 2 ^ 32" and n: "next_octets bs pos (enc_size (mode_of d) 1)"
    and v: "vec_rep v ks" "length ks < 2 ^ 32" and b: "fst (allocs T H 1) \<noteq> 0" and pos: "pos' = pos + length (enc_size (mode_of d) 1)"
  shows "\<exists>w1 v1 k. walker_rep w1 bs pos' \<and> vec_rep v1 (ks @ [k]) \<and> g_p k = fst (allocs T H 1)
      \<and> g_destroyAndDeallocate k = Some (pointed_helper T)
      \<and> deserialize_to E allocs T des (reader d w N v) old H =
          (let (st, ctx, h) = des (fst (allocs T H 1)) (reader d w1 (N(of_nat pos' \<mapsto> fst (allocs T H 1))) v1)
                 (H(fst (allocs T H 1) \<mapsto> pointed_default T)) in (st, ctx, fst (allocs T H 1), h))"
proof -
  have c: "value_ctx E d" and fl: "m_checkRecursivePointers d" "m_allowUnmanagedPointers d" using d(1) by (simp_all add: graph_ctx_def)
  obtain w1 where w1: "getPointerFromMap E (reader d w N v) old = (NoError, reader d w1 N v, old, True)" "walker_rep w1 bs pos'"
    using getPointerFromMap_reads [OF c w n, of N v old] pos by auto
  have tell: "walker_tell w1 = of_nat pos'"
    using w1(2) unfolding walker_rep_def walker_tell_def by (metis of_nat_unat ucast_id)
  obtain v1 k log where v1: "allocateAndDefaultConstruct E (pointed_max_size T) (allocs T H) (pointed_helper T) (reader d w1 N v)
        = (fst (allocs T H 1), reader d w1 N v1, log)"
    "vec_rep v1 (ks @ [k])" "g_p k = fst (allocs T H 1)" "g_destroyAndDeallocate k = Some (pointed_helper T)"
    using allocate_pointed [where allocs = allocs and T = T and H = H and d = d and w = w1 and N = N, OF d(2) v b] by blast
  have "deserialize_to E allocs T des (reader d w N v) old H =
      (let (st, ctx, h) = des (fst (allocs T H 1)) (reader d w1 (N(of_nat pos' \<mapsto> fst (allocs T H 1))) v1)
             (H(fst (allocs T H 1) \<mapsto> pointed_default T)) in (st, ctx, fst (allocs T H 1), h))"
    using fl w1(1) v1(1) b tell by (simp add: deserialize_to_def deserialize_pointer_def Let_def)
  then show ?thesis using w1(2) v1(2-4) by blast
qed

text \<open>
  \<open>copies_to\<close>: reading a pointer gives the address of the object's copy; \<open>copies_object\<close>: reading
  into the object that stands for \<open>a\<close> completes it.
\<close>

definition copies_to ::
    "ddata \<Rightarrow> object_store \<Rightarrow> object_store \<Rightarrow> nat pointer_keeper list \<Rightarrow> ((nat \<Rightarrow> u64 option) \<Rightarrow> bool)
     \<Rightarrow> (ddata \<Rightarrow> nat \<Rightarrow> object_store \<Rightarrow> status \<times> ddata \<times> nat \<times> object_store)
     \<Rightarrow> (nat \<Rightarrow> (nat \<Rightarrow> u64 option) \<Rightarrow> byte list \<times> (nat \<Rightarrow> u64 option)) \<Rightarrow> nat \<Rightarrow> bool" where
  "copies_to d h H0 ks0 P f obj p \<longleftrightarrow>
     (\<forall>M pos xs M' bs w N v H S old. P M \<and> obj pos M = (xs, M') \<and> length bs < 2 ^ 32 \<and> next_octets bs pos xs
          \<and> copy_state h H0 ks0 bs pos S M w N v H \<longrightarrow>
        (\<exists>w' N' v' H'. f (reader d w N v) old H = (NoError, reader d w' N' v', image_of M' N' p, H')
           \<and> copy_state h H0 ks0 bs (pos + length xs) S M' w' N' v' H' \<and> extends {} M N H M' N' H' \<and> (p = 0 \<or> M' p \<noteq> None)))"

definition copies_object ::
    "ddata \<Rightarrow> object_store \<Rightarrow> object_store \<Rightarrow> nat pointer_keeper list \<Rightarrow> ((nat \<Rightarrow> u64 option) \<Rightarrow> bool)
     \<Rightarrow> (nat \<Rightarrow> ddata \<Rightarrow> object_store \<Rightarrow> status \<times> ddata \<times> object_store)
     \<Rightarrow> (nat \<Rightarrow> (nat \<Rightarrow> u64 option) \<Rightarrow> byte list \<times> (nat \<Rightarrow> u64 option)) \<Rightarrow> nat \<Rightarrow> bool" where
  "copies_object d h H0 ks0 P f obj a \<longleftrightarrow>
     (\<forall>M pos xs M' bs w N v H S. P M \<and> obj pos M = (xs, M') \<and> length bs < 2 ^ 32 \<and> next_octets bs pos xs
          \<and> copy_state h H0 ks0 bs pos S M w N v H \<and> M a \<noteq> None \<longrightarrow>
        (\<exists>w' N' v' H'. f (image_of M N a) (reader d w N v) H = (NoError, reader d w' N' v', H')
           \<and> copy_state h H0 ks0 bs (pos + length xs) (S - {a}) M' w' N' v' H' \<and> extends {image_of M N a} M N H M' N' H'))"

lemma copy_stateD:
  assumes "copy_state h H0 ks0 bs pos S M w N v H"
  obtains new where "walker_rep w bs pos" "map_ok M pos" "graph_copy h H0 S M N H" "vec_rep v (ks0 @ new)"
    "keeps H new (image_of M N ` dom M)"
  using assms unfolding copy_state_def by blast

lemma copy_state_seen:
  "\<lbrakk>copy_state h H0 ks0 bs pos S M w N v H; walker_rep w' bs pos'; pos \<le> pos'\<rbrakk> \<Longrightarrow> copy_state h H0 ks0 bs pos' S M w' N v H"
  unfolding copy_state_def by (blast intro: map_ok_mono)

lemma extends_met: "extends B M N H M' N' H' \<Longrightarrow> M a = Some off \<Longrightarrow> M' a = Some off"
  by (auto simp: extends_def map_le_def dom_def)

lemma copies_pointer:
  assumes d: "graph_ctx E d" "\<not> memory_out E" and al: "fresh_allocs allocs" and h: "finite (dom h)" "length ks0 + card (dom h) < 2 ^ 32"
    and p: "p \<noteq> 0 \<Longrightarrow> \<exists>x. h p = Some x \<and> pointed_type x = T"
    and P: "\<And>M. P M \<Longrightarrow> dom M \<subseteq> dom h" "\<And>M off. \<lbrakk>P M; M p = None; p \<noteq> 0\<rbrakk> \<Longrightarrow> Q (M(p \<mapsto> off))"
    and des: "p \<noteq> 0 \<Longrightarrow> copies_object d h H0 ks0 Q des (obj p) p"
    and grow: "\<And>M pos xs M'. \<lbrakk>P M; pointer_octets (mode_of d) obj p pos M = (xs, M')\<rbrakk> \<Longrightarrow> M \<subseteq>\<^sub>m M'"
  shows "copies_to d h H0 ks0 P (deserialize_to E allocs T des) (pointer_octets (mode_of d) obj p) p"
  unfolding copies_to_def
proof (intro allI impI, elim conjE)
  fix M pos xs M' bs w N v H S old
  assume M: "P M" and o: "pointer_octets (mode_of d) obj p pos M = (xs, M')" and l: "length (bs :: byte list) < 2 ^ 32"
    and x: "next_octets bs pos xs" and s: "copy_state h H0 ks0 bs pos S M w N v H"
  have c: "value_ctx E d" and fl: "m_checkRecursivePointers d" "m_allowUnmanagedPointers d"
    using d(1) by (simp_all add: graph_ctx_def)
  obtain new where w: "walker_rep w bs pos" "map_ok M pos" and G: "graph_copy h H0 S M N H" and v: "vec_rep v (ks0 @ new)"
    and k: "keeps H new (image_of M N ` dom M)" using s by (rule copy_stateD)
  let ?f = "deserialize_to E allocs T des (reader d w N v) old H"
  note step = getPointerFromMap_reads [OF c w(1) l, where N = N and v = v and old = old]
  consider (null) "p = 0" | (known) off where "p \<noteq> 0" "M p = Some off" | (new) "p \<noteq> 0" "M p = None" by fastforce
  then show "\<exists>w' N' v' H'. ?f = (NoError, reader d w' N' v', image_of M' N' p, H')
      \<and> copy_state h H0 ks0 bs (pos + length xs) S M' w' N' v' H' \<and> extends {} M N H M' N' H' \<and> (p = 0 \<or> M' p \<noteq> None)"
  proof cases
    case null
    then have e: "xs = enc_size (mode_of d) 0" "M' = M" using o by (simp_all add: pointer_octets_def)
    obtain w' where w': "getPointerFromMap E (reader d w N v) old = (NoError, reader d w' N v, 0, False)"
        "walker_rep w' bs (pos + length xs)" using step [of 0] x e(1) by auto
    then have "?f = (NoError, reader d w' N v, image_of M N p, H)"
      using fl null by (simp add: deserialize_to_def deserialize_pointer_def image_of_def)
    then show ?thesis using copy_state_seen [OF s w'(2)] null e(2) extends_refl [of "{}" M N H] by auto
  next
    case known
    then have e: "xs = enc_size (mode_of d) off" "M' = M" using o by (simp_all add: pointer_octets_def)
    have off: "2 \<le> unat off" "unat off \<le> pos" using map_okD [OF w(2) known(2)] by simp_all
    obtain q where q: "N off = Some q" using graph_copyD [OF G known(2)] by blast
    have n01: "off \<noteq> 0" "off \<noteq> 1" using off(1) by auto
    obtain w' where w': "getPointerFromMap E (reader d w N v) old = (NoError, reader d w' N v, q, False)"
        "walker_rep w' bs (pos + length xs)" using step [of off] x e(1) q off(2) n01 by auto
    then have "?f = (NoError, reader d w' N v, image_of M N p, H)"
      using fl known q by (simp add: deserialize_to_def deserialize_pointer_def image_of_def)
    then show ?thesis using copy_state_seen [OF s w'(2)] known e(2) extends_refl [of "{}" M N H] by auto
  next
    case new
    let ?m = "enc_size (mode_of d) 1" let ?pos = "pos + length ?m"
    let ?b = "fst (allocs T H 1)" and ?M = "M(p \<mapsto> of_nat ?pos)"
    obtain ys where ys: "obj p ?pos ?M = (ys, M')" "xs = ?m @ ys"
      using o new by (auto simp: pointer_octets_def Let_def split: prod.splits)
    have xx: "next_octets bs pos ?m" "next_octets bs ?pos ys" using x ys(2) by (simp_all add: next_octets_append)
    have l1: "?pos < 2 ^ 32" using xx(1) l by (simp add: next_octets_def)
    obtain y where y: "h p = Some y" "pointed_type y = T" using p [OF new(1)] by blast
    have b: "?b \<noteq> 0" "H ?b = None" using al G unfolding fresh_allocs_def graph_copy_def by blast+
    have "length new \<le> card (dom h)"
    proof -
      have "finite (dom M)" using P(1) [OF M] h(1) by (rule finite_subset)
      then have "card (image_of M N ` dom M) \<le> card (dom M)" by (rule card_image_le)
      also have "\<dots> \<le> card (dom h)" using P(1) [OF M] h(1) by (intro card_mono)
      finally show ?thesis using k by (simp add: keeps_def)
    qed
    then have "length (ks0 @ new) < 2 ^ 32" using h(2) by simp
    from deserialize_to_new [where des = des and N = N and old = old and allocs = allocs and T = T and H = H, OF d w(1) l xx(1) v this b(1) refl]
    obtain w1 v1 kp where w1: "walker_rep w1 bs ?pos" and v1: "vec_rep v1 ((ks0 @ new) @ [kp])" "g_p kp = ?b"
      "g_destroyAndDeallocate kp = Some (pointed_helper T)"
      and f: "?f = (let (st, ctx, h) = des ?b (reader d w1 (N(of_nat ?pos \<mapsto> ?b)) v1) (H(?b \<mapsto> pointed_default T)) in (st, ctx, ?b, h))"
      by blast
    let ?N = "N(of_nat ?pos \<mapsto> ?b)" and ?H = "H(?b \<mapsto> pointed_default T)"
    have ty: "pointed_type (pointed_default T) = T" by (cases T) simp_all
    have M1: "map_ok ?M ?pos" using length_enc_size(2) [of "mode_of d" 1] l1 new(1) by (intro map_ok_visit [OF w(2)]) simp_all
    note V = graph_copy_visit [where y = "pointed_default T", OF G w(2) M1 new y(1) _ b, unfolded ty y(2), OF refl]
    have fin: "finite (image_of M N ` dom M)" using k by (metis keeps_def List.finite_set finite_imageI)
    have "keeps ?H (new @ [kp]) (insert ?b (image_of M N ` dom M))"
      by (rule keeps_add [OF k fin V(4) b(2) v1(2)]) (simp add: v1(3) ty)
    then have s1: "copy_state h H0 ks0 bs ?pos (insert p S) ?M w1 ?N v1 ?H"
      unfolding copy_state_def V(3) using w1 M1 V(1) v1(1) by auto
    have im: "image_of ?M ?N p = ?b" using new(1) by (simp add: image_of_def)
    have "copies_object d h H0 ks0 Q des (obj p) p" by (rule des [OF new(1)])
    moreover have "Q ?M" by (rule P(2) [OF M new(2,1)])
    moreover have "?M p \<noteq> None" by simp
    ultimately obtain w2 N2 v2 H2 where r: "des ?b (reader d w1 ?N v1) ?H = (NoError, reader d w2 N2 v2, H2)"
      "copy_state h H0 ks0 bs (?pos + length ys) (insert p S - {p}) M' w2 N2 v2 H2" "extends {?b} ?M ?N ?H M' N2 H2"
      using ys(1) l xx(2) s1 im unfolding copies_object_def by metis
    have "p \<notin> S" using G new(2) unfolding graph_copy_def by auto
    then have S: "insert p S - {p} = S" by auto
    have e: "extends {?b} M N H M' N2 H2" using extends_trans [OF V(2) r(3)] by simp
    then have e0: "extends {} M N H M' N2 H2" using b(2) by (auto simp: extends_def)
    have im2: "image_of M' N2 p = ?b" using extends_image [OF r(3), of p] im by simp
    have "?f = (NoError, reader d w2 N2 v2, ?b, H2)"
      unfolding f r(1) by simp
    moreover have "M' p = Some (of_nat ?pos)" by (rule extends_met [OF r(3)]) simp
    ultimately show ?thesis using r(2) S e0 im2 ys(2) by (auto simp: add.assoc)
  qed
qed

lemma copy_state_finish:
  assumes s: "copy_state h H0 ks0 bs pos S M w N v H" and a: "M a \<noteq> None" "h a = Some x" and x: "set_pointed x \<subseteq> insert 0 (dom M)"
  shows "copy_state h H0 ks0 bs pos (S - {a}) M w N v (H(image_of M N a \<mapsto> map_pointed (image_of M N) x))"
proof -
  obtain new where n: "walker_rep w bs pos" "map_ok M pos" "graph_copy h H0 S M N H" "vec_rep v (ks0 @ new)"
    "keeps H new (image_of M N ` dom M)" using s by (rule copy_stateD)
  show ?thesis
    unfolding copy_state_def using n(1,2,4) graph_copy_finish [OF n(3,2) a x] n(5) by blast
qed

lemma extends_finish: "extends {} M N H M' N' H' \<Longrightarrow> extends {b} M N H M' N' (H'(b \<mapsto> y))"
  by (auto simp: extends_def)

lemma copies_toE:
  assumes "copies_to d h H0 ks0 P f obj p" "P M" "obj pos M = (xs, M')" "length bs < 2 ^ 32" "next_octets bs pos xs"
    "copy_state h H0 ks0 bs pos S M w N v H"
  obtains w' N' v' H' where "f (reader d w N v) old H = (NoError, reader d w' N' v', image_of M' N' p, H')"
    "copy_state h H0 ks0 bs (pos + length xs) S M' w' N' v' H'" "extends {} M N H M' N' H'" "p = 0 \<or> M' p \<noteq> None"
  using assms unfolding copies_to_def by metis

text \<open>What is common to the reading of the structs: their pointers one after the other.\<close>

lemma copies_nested_pointer:
  assumes d: "graph_ctx E d" "\<not> memory_out E" and al: "fresh_allocs allocs" and h: "well_typed h" "length ks0 + card (dom h) < 2 ^ 32"
    and x: "h a = Some x" "(U, p) \<in> set (pointed_pointers x)"
    and IH: "\<And>y. h p = Some y \<Longrightarrow> pointed_type y = U \<Longrightarrow>
      copies_object d h H0 ks0 (\<lambda>M. dom M \<subseteq> dom h \<and> M p \<noteq> None \<and> unmet h M < n) (deserialize_object E allocs n U)
        (object_octets (mode_of d) h n p) p"
  shows "copies_to d h H0 ks0 (depth_ok h n) (deserialize_to E allocs U (deserialize_object E allocs n U))
      (pointer_octets (mode_of d) (object_octets (mode_of d) h n) p) p"
    and "\<lbrakk>depth_ok h n M; pointer_octets (mode_of d) (object_octets (mode_of d) h n) p pos M = (xs, M')\<rbrakk> \<Longrightarrow> depth_ok h n M'"
proof -
  have f: "finite (dom h)" using h(1) by (simp add: well_typed_def)
  have p: "\<exists>y. h p = Some y \<and> pointed_type y = U" if "p \<noteq> 0" by (rule well_typedD [OF h(1) x that])
  then have hp: "h p \<noteq> None" if "p \<noteq> 0" using that by auto
  show "depth_ok h n M'" if M: "depth_ok h n M"
    and o: "pointer_octets (mode_of d) (object_octets (mode_of d) h n) p pos M = (xs, M')" for M pos xs M'
    by (rule pointer_depth [OF h(1) hp M o])
  show "copies_to d h H0 ks0 (depth_ok h n) (deserialize_to E allocs U (deserialize_object E allocs n U))
      (pointer_octets (mode_of d) (object_octets (mode_of d) h n) p) p"
  proof (rule copies_pointer [where Q = "\<lambda>M. dom M \<subseteq> dom h \<and> M p \<noteq> None \<and> unmet h M < n", OF d al f h(2) p])
    show "copies_object d h H0 ks0 (\<lambda>M. dom M \<subseteq> dom h \<and> M p \<noteq> None \<and> unmet h M < n) (deserialize_object E allocs n U)
        (object_octets (mode_of d) h n p) p" if "p \<noteq> 0" using p [OF that] IH by blast
    show "dom M \<subseteq> dom h" if "depth_ok h n M" for M using that by (simp add: depth_ok_def)
    show "dom (M(p \<mapsto> off)) \<subseteq> dom h \<and> (M(p \<mapsto> off)) p \<noteq> None \<and> unmet h (M(p \<mapsto> off)) < n"
      if "depth_ok h n M" "M p = None" "p \<noteq> 0" for M off by (rule visit_depth [OF f that(1,2) hp [OF that(3)]])
    show "M \<subseteq>\<^sub>m M'" if "depth_ok h n M" "pointer_octets (mode_of d) (object_octets (mode_of d) h n) p pos M = (xs, M')"
      for M pos xs M' using pointer_grows [OF h(1) hp that(1), of "mode_of d" pos] that(2) by (simp add: grows_def)
  qed
qed

lemma copies_object_at:
  assumes d: "graph_ctx E d" "\<not> memory_out E" and al: "fresh_allocs allocs" and h: "well_typed h" "length ks0 + card (dom h) < 2 ^ 32"
  shows "\<lbrakk>h a = Some x; pointed_type x = T\<rbrakk> \<Longrightarrow>
    copies_object d h H0 ks0 (\<lambda>M. dom M \<subseteq> dom h \<and> M a \<noteq> None \<and> unmet h M < n) (deserialize_object E allocs n T)
      (object_octets (mode_of d) h n a) a"
proof (induction n arbitrary: a x T)
  case 0
  then show ?case by (simp add: copies_object_def)
next
  case (Suc n)
  let ?md = "mode_of d"
  have c: "value_ctx E d" using d(1) by (simp add: graph_ctx_def)
  have nested: "copies_to d h H0 ks0 (depth_ok h n) (deserialize_to E allocs U (deserialize_object E allocs n U))
      (pointer_octets ?md (object_octets ?md h n) p) p" if "(U, p) \<in> set (pointed_pointers x)" for U p
    by (rule copies_nested_pointer(1) [OF d al h Suc.prems(1) that]) (rule Suc.IH)
  have deeper: "depth_ok h n M'" if "(U, p) \<in> set (pointed_pointers x)" "depth_ok h n M"
      "pointer_octets ?md (object_octets ?md h n) p pos M = (xs, M')" for U p M pos xs M'
    by (rule copies_nested_pointer(2) [OF d al h Suc.prems(1) that(1) _ that(2,3)]) (rule Suc.IH)
  show ?case unfolding copies_object_def
  proof (intro allI impI, elim conjE)
    fix M pos xs M' bs w N v H S
    assume M: "dom M \<subseteq> dom h" "unmet h M < Suc n" and o: "object_octets ?md h (Suc n) a pos M = (xs, M')"
      and l: "length (bs :: byte list) < 2 ^ 32" and nx: "next_octets bs pos xs"
      and s: "copy_state h H0 ks0 bs pos S M w N v H" and a: "M a \<noteq> None"
    have D: "depth_ok h n M" using M by (simp add: depth_ok_def)
    let ?b = "image_of M N a"
    obtain y where y: "H ?b = Some y" "pointed_type y = T"
      using s image_of_met [of h H0 S M N H pos a] a Suc.prems unfolding copy_state_def by (metis option.sel)
    show "\<exists>w' N' v' H'. deserialize_object E allocs (Suc n) T ?b (reader d w N v) H = (NoError, reader d w' N' v', H')
       \<and> copy_state h H0 ks0 bs (pos + length xs) (S - {a}) M' w' N' v' H' \<and> extends {?b} M N H M' N' H'"
    proof (cases x)
      case (IntObject i)
      have e: "xs = enc_scalar False False ?md i" "M' = M" using o Suc.prems(1) IntObject by simp_all
      obtain old where old: "y = IntObject old" "T = P_int" using y(2) Suc.prems(2) IntObject by (cases y) auto
      have "walker_rep w bs pos" using s by (simp add: copy_state_def)
      then obtain w' where w': "deserialize_scalar E False False True (reader d w N v) old = (NoError, reader d w' N v, i)"
          "walker_rep w' bs (pos + length xs)" using read_int [OF c _ l, of w pos i N v old] nx e(1) by blast
      have "copy_state h H0 ks0 bs (pos + length xs) (S - {a}) M w' N v (H(?b \<mapsto> IntObject i))"
        using copy_state_finish [OF copy_state_seen [OF s w'(2)] a Suc.prems(1)] IntObject by simp
      then show ?thesis
        using y(1) old w'(1) e(2) extends_finish [OF extends_refl] by (intro exI conjI) (simp_all, blast+)
    next
      case (RecursiveTestSpecial1 pAny)
      obtain old where old: "y = RecursiveTestSpecial1 old" "T = P_Special1"
        using y(2) Suc.prems(2) RecursiveTestSpecial1 by (cases y) auto
      have mem: "(P_Special2, pAny) \<in> set (pointed_pointers x)" using RecursiveTestSpecial1 by simp
      have o1: "pointer_octets ?md (object_octets ?md h n) pAny pos M = (xs, M')"
        using o Suc.prems(1) RecursiveTestSpecial1 by (auto split: prod.splits)
      obtain w' N' v' H' where r: "deserialize_to E allocs P_Special2 (deserialize_object E allocs n P_Special2) (reader d w N v) old H
          = (NoError, reader d w' N' v', image_of M' N' pAny, H')"
        "copy_state h H0 ks0 bs (pos + length xs) S M' w' N' v' H'" "extends {} M N H M' N' H'" "pAny = 0 \<or> M' pAny \<noteq> None"
        using copies_toE [OF nested [OF mem] D o1 l nx s] by blast
      have im: "image_of M' N' a = ?b" using extends_image [OF r(3)] a by simp
      have "copy_state h H0 ks0 bs (pos + length xs) (S - {a}) M' w' N' v' (H'(?b \<mapsto> RecursiveTestSpecial1 (image_of M' N' pAny)))"
        using copy_state_finish [OF r(2) _ Suc.prems(1)] extends_met [OF r(3)] a r(4) im RecursiveTestSpecial1 by auto
      then show ?thesis
        using y(1) old r(1) extends_finish [OF r(3)]
        by (intro exI conjI) (simp add: deserialize_RecursiveTestSpecial1_def, blast+)
    next
      case (RecursiveTestSpecial2 pI pNext pAny)
      obtain oI oN oA where old: "y = RecursiveTestSpecial2 oI oN oA" "T = P_Special2"
        using y(2) Suc.prems(2) RecursiveTestSpecial2 by (cases y) auto
      have mem: "(P_int, pI) \<in> set (pointed_pointers x)" "(P_Special2, pNext) \<in> set (pointed_pointers x)"
        "(P_Special1, pAny) \<in> set (pointed_pointers x)" using RecursiveTestSpecial2 by simp_all
      obtain x1 M1 x2 M2 x3 where o1: "pointer_octets ?md (object_octets ?md h n) pI pos M = (x1, M1)"
        and o2: "pointer_octets ?md (object_octets ?md h n) pNext (pos + length x1) M1 = (x2, M2)"
        and o3: "pointer_octets ?md (object_octets ?md h n) pAny (pos + length x1 + length x2) M2 = (x3, M')" and xs: "xs = x1 @ x2 @ x3"
        using o Suc.prems(1) RecursiveTestSpecial2 by (auto split: prod.splits)
      have nx: "next_octets bs pos x1" "next_octets bs (pos + length x1) x2" "next_octets bs (pos + length x1 + length x2) x3"
        using nx unfolding xs by (simp_all add: next_octets_append)
      have D1: "depth_ok h n M1" by (rule deeper [OF mem(1) D o1])
      have D2: "depth_ok h n M2" by (rule deeper [OF mem(2) D1 o2])
      obtain w1 N1 v1 H1 where r1: "deserialize_to E allocs P_int (deserialize_object E allocs n P_int) (reader d w N v) oI H
          = (NoError, reader d w1 N1 v1, image_of M1 N1 pI, H1)"
        "copy_state h H0 ks0 bs (pos + length x1) S M1 w1 N1 v1 H1" "extends {} M N H M1 N1 H1" "pI = 0 \<or> M1 pI \<noteq> None"
        using copies_toE [OF nested [OF mem(1)] D o1 l nx(1) s] by blast
      obtain w2 N2 v2 H2 where r2: "deserialize_to E allocs P_Special2 (deserialize_object E allocs n P_Special2) (reader d w1 N1 v1) oN H1
          = (NoError, reader d w2 N2 v2, image_of M2 N2 pNext, H2)"
        "copy_state h H0 ks0 bs (pos + length x1 + length x2) S M2 w2 N2 v2 H2" "extends {} M1 N1 H1 M2 N2 H2" "pNext = 0 \<or> M2 pNext \<noteq> None"
        using copies_toE [OF nested [OF mem(2)] D1 o2 l nx(2) r1(2)] by blast
      obtain w3 N3 v3 H3 where r3: "deserialize_to E allocs P_Special1 (deserialize_object E allocs n P_Special1) (reader d w2 N2 v2) oA H2
          = (NoError, reader d w3 N3 v3, image_of M' N3 pAny, H3)"
        "copy_state h H0 ks0 bs (pos + length x1 + length x2 + length x3) S M' w3 N3 v3 H3" "extends {} M2 N2 H2 M' N3 H3"
        "pAny = 0 \<or> M' pAny \<noteq> None"
        using copies_toE [OF nested [OF mem(3)] D2 o3 l nx(3) r2(2)] by blast
      have e2: "extends {} M1 N1 H1 M' N3 H3" using extends_trans [OF r2(3) r3(3)] by simp
      have e: "extends {} M N H M' N3 H3" using extends_trans [OF r1(3) e2] by simp
      have im: "image_of M1 N1 pI = image_of M' N3 pI" "image_of M2 N2 pNext = image_of M' N3 pNext" "image_of M' N3 a = ?b"
        using extends_image [OF e2 r1(4)] extends_image [OF r3(3) r2(4)] extends_image [OF e] a by simp_all
      have met: "set_pointed x \<subseteq> insert 0 (dom M')"
        using r1(4) r2(4) r3(4) extends_met [OF e2] extends_met [OF r3(3)] RecursiveTestSpecial2 by auto
      have "M' a \<noteq> None" using a extends_met [OF e] by auto
      from copy_state_finish [OF r3(2) this Suc.prems(1) met]
      have "copy_state h H0 ks0 bs (pos + length xs) (S - {a}) M' w3 N3 v3
          (H3(?b \<mapsto> RecursiveTestSpecial2 (image_of M' N3 pI) (image_of M' N3 pNext) (image_of M' N3 pAny)))"
        using im(3) RecursiveTestSpecial2 xs by (simp add: add.assoc)
      then show ?thesis
        using y(1) old r1(1) r2(1) r3(1) im(1,2) extends_finish [OF e]
        by (intro exI conjI) (simp add: deserialize_RecursiveTestSpecial2_def, blast+)
    qed
  qed
qed

section \<open>Claims\<close>

text \<open>
  What a reader has of the graph behind \<open>root\<close>: a set \<open>V\<close> of objects that is closed under their
  pointers, an injective map \<open>\<phi>\<close> of their addresses that keeps null, and at every image the
  object with its pointers mapped; all images are new and have a keeper each among the added
  pointers, behind those that were there, and nothing else changed.
\<close>

definition graph_received ::
    "object_store \<Rightarrow> nat \<Rightarrow> object_store \<Rightarrow> nat pointer_keeper list \<Rightarrow> ddata \<Rightarrow> nat \<Rightarrow> object_store \<Rightarrow> bool" where
  "graph_received h root H0 ks0 d r H \<longleftrightarrow>
     (\<exists>\<phi> V v new. r = \<phi> root \<and> root \<in> insert 0 V \<and> \<phi> 0 = 0 \<and> inj_on \<phi> (insert 0 V)
        \<and> (\<forall>a \<in> V. \<exists>x. h a = Some x \<and> set_pointed x \<subseteq> insert 0 V \<and> H (\<phi> a) = Some (map_pointed \<phi> x))
        \<and> \<phi> ` V \<inter> dom H0 = {} \<and> (\<forall>b \<in> dom H0. H b = H0 b)
        \<and> m_pAddedPointers d = Some v \<and> vec_rep v (ks0 @ new) \<and> keeps H new (\<phi> ` V))"

lemma graph_written:
  assumes c: "graph_ctx E c" "\<not> memory_out E" and h: "well_typed h" "root = 0 \<or> (\<exists>x. h root = Some x \<and> pointed_type x = T)"
    and n: "card (dom h) \<le> n" and m: "m_pPointersMap c = Some Map.empty" "vec_rep (m_binaryData c) bs"
    and l: "length bs + 8 + 24 * card (dom h) < 2 ^ 32"
    and o: "pointer_octets (mode_of c) (object_octets (mode_of c) h n) root (length bs) Map.empty = (xs, M')"
  shows "\<exists>b'. serialize_object_pointer E h n T root c = (NoError, writer c b' M') \<and> vec_rep b' (bs @ xs)"
    and "length bs + length xs < 2 ^ 32"
proof -
  let ?M = "Map.empty :: nat \<Rightarrow> u64 option" and ?Q = "\<lambda>M. dom M \<subseteq> dom h \<and> M root \<noteq> None \<and> unmet h M < n"
  have f: "finite (dom h)" using h(1) by (simp add: well_typed_def)
  have D: "depth_ok h n ?M" using n by (simp add: depth_ok_def unmet_def)
  have hr: "\<exists>x. h root = Some x \<and> pointed_type x = T" if "root \<noteq> 0" using h(2) that by blast
  then have hp: "h root \<noteq> None" if "root \<noteq> 0" using that by auto
  have W: "writes c (depth_ok h n) (serialize_pointer E (serialize_object E h n T) root)
      (pointer_octets (mode_of c) (object_octets (mode_of c) h n) root)"
  proof (rule writes_pointer [where Q = ?Q, OF c])
    show "?Q (M(root \<mapsto> off))" if "depth_ok h n M" "M root = None" "root \<noteq> 0" for M off
      by (rule visit_depth [OF f that(1,2) hp [OF that(3)]])
    show "writes c ?Q (serialize_object E h n T root) (object_octets (mode_of c) h n root)" if "root \<noteq> 0"
      using hr [OF that] writes_object [OF c h(1)] by blast
  qed
  show len: "length bs + length xs < 2 ^ 32"
    using pointer_grows [OF h(1) hp D, of "mode_of c" "length bs"] l o by (simp add: grows_def unmet_def)
  have "c = writer c (m_binaryData c) ?M" using m(1) by (simp add: writer_def)
  moreover have "map_ok ?M (length bs)" by (simp add: map_ok_def)
  ultimately show "\<exists>b'. serialize_object_pointer E h n T root c = (NoError, writer c b' M') \<and> vec_rep b' (bs @ xs)"
    using writesE [OF W m(2) _ D o len] unfolding serialize_object_pointer_def by metis
qed

lemma copy_state_received:
  assumes s: "copy_state h H0 ks0 bs pos {} M w N v H" and root: "root = 0 \<or> M root \<noteq> None"
  shows "graph_received h root H0 ks0 (reader d w N v) (image_of M N root) H"
proof -
  obtain new where S: "map_ok M pos" "graph_copy h H0 {} M N H" "vec_rep v (ks0 @ new)" "keeps H new (image_of M N ` dom M)"
    using s by (rule copy_stateD)
  have obj: "\<exists>x. h a = Some x \<and> set_pointed x \<subseteq> insert 0 (dom M) \<and> H (image_of M N a) = Some (map_pointed (image_of M N) x)"
    "H0 (image_of M N a) = None" if "a \<in> dom M" for a
  proof -
    have a: "M a \<noteq> None" using that by auto
    then obtain x where x: "h a = Some x" "H0 (image_of M N a) = None" using image_of_met [OF S(2,1)] by metis
    then show "H0 (image_of M N a) = None" by simp
    show "\<exists>x. h a = Some x \<and> set_pointed x \<subseteq> insert 0 (dom M) \<and> H (image_of M N a) = Some (map_pointed (image_of M N) x)"
      using S(2) a x(1) unfolding graph_copy_def by blast
  qed
  have "image_of M N ` dom M \<inter> dom H0 = {}" using obj(2) by fastforce
  moreover have "\<forall>b \<in> dom H0. H b = H0 b" using S(2) by (simp add: graph_copy_def)
  moreover have "root \<in> insert 0 (dom M)" "image_of M N 0 = 0" using root by (auto simp: image_of_def)
  ultimately show ?thesis
    unfolding graph_received_def using obj(1) image_of_inj [OF S(2,1)] S(3,4)
    by (intro exI [of _ "image_of M N"] exI [of _ "dom M"] exI [of _ v] exI [of _ new] conjI ballI) simp_all
qed

lemma graph_read:
  assumes d: "graph_ctx E d" "\<not> memory_out E" and al: "fresh_allocs allocs"
    and h: "well_typed h" "root = 0 \<or> (\<exists>x. h root = Some x \<and> pointed_type x = T)" and n: "card (dom h) \<le> n"
    and H0: "finite (dom H0)" "length ks0 + card (dom h) < 2 ^ 32"
    and m: "m_pPointersMap d = Some Map.empty" "m_pAddedPointers d = Some v" "vec_rep v ks0"
    and o: "pointer_octets (mode_of d) (object_octets (mode_of d) h n) root pos Map.empty = (xs, M')"
    and w: "walker_rep (m_binaryData d) bs pos" "length bs < 2 ^ 32" "next_octets bs pos xs"
  shows "\<exists>d' r H. deserialize_object_pointer E allocs n T d old H0 = (NoError, d', r, H)
     \<and> walker_rep (m_binaryData d') bs (pos + length xs) \<and> graph_received h root H0 ks0 d' r H"
proof -
  let ?M = "Map.empty :: nat \<Rightarrow> u64 option" and ?Q = "\<lambda>M. dom M \<subseteq> dom h \<and> M root \<noteq> None \<and> unmet h M < n"
  let ?N = "Map.empty :: u64 \<Rightarrow> nat option"
  have f: "finite (dom h)" using h(1) by (simp add: well_typed_def)
  have D: "depth_ok h n ?M" using n by (simp add: depth_ok_def unmet_def)
  have hr: "\<exists>x. h root = Some x \<and> pointed_type x = T" if "root \<noteq> 0" using h(2) that by blast
  then have hp: "h root \<noteq> None" if "root \<noteq> 0" using that by auto
  have C: "copies_to d h H0 ks0 (depth_ok h n) (deserialize_to E allocs T (deserialize_object E allocs n T))
      (pointer_octets (mode_of d) (object_octets (mode_of d) h n) root) root"
  proof (rule copies_pointer [where Q = ?Q, OF d al f H0(2) hr])
    show "?Q (M(root \<mapsto> off))" if "depth_ok h n M" "M root = None" "root \<noteq> 0" for M off
      by (rule visit_depth [OF f that(1,2) hp [OF that(3)]])
    show "copies_object d h H0 ks0 ?Q (deserialize_object E allocs n T) (object_octets (mode_of d) h n root) root" if "root \<noteq> 0"
      using hr [OF that] copies_object_at [OF d al h(1) H0(2)] by blast
    show "M \<subseteq>\<^sub>m M'" if "depth_ok h n M" "pointer_octets (mode_of d) (object_octets (mode_of d) h n) root pos M = (xs, M')" for M pos xs M'
      using pointer_grows [OF h(1) hp that(1), of "mode_of d" pos] that(2) by (simp add: grows_def)
  qed (simp_all add: depth_ok_def)
  have e: "d = reader d (m_binaryData d) ?N v" using m(1,2) by (simp add: reader_def)
  have s: "copy_state h H0 ks0 bs pos {} ?M (m_binaryData d) ?N v H0"
    unfolding copy_state_def using w(1) H0(1) m(3)
    by (auto simp: graph_copy_def keeps_def map_ok_def intro!: exI [of _ "[]"])
  obtain w' N' v' H where "deserialize_to E allocs T (deserialize_object E allocs n T) d old H0
      = (NoError, reader d w' N' v', image_of M' N' root, H)"
    and s': "copy_state h H0 ks0 bs (pos + length xs) {} M' w' N' v' H" and root: "root = 0 \<or> M' root \<noteq> None"
    using copies_toE [OF C D o w(2,3) s] e by metis
  moreover have "walker_rep w' bs (pos + length xs)" using s' by (simp add: copy_state_def)
  ultimately show ?thesis
    using copy_state_received [OF s' root, of d] unfolding deserialize_object_pointer_def by auto
qed

text \<open>
  C5: graphs of objects arrive. With recursive pointers checked, a pointer into any store of
  \<open>int\<close>s, \<open>RecursiveTestSpecial1\<close>s and \<open>RecursiveTestSpecial2\<close>s, cycles and shared objects
  included, is serialized with calls nested no deeper than there are objects; and whatever
  stands behind its octets, a reader on any platform gets a copy of the graph: the same sharing
  and no other, every object once, every copy owned by one keeper of the added pointers, and
  the reader's own objects untouched.
\<close>
theorem pointer_graph_roundtrip:
  assumes "graph_ctx E c" "graph_ctx E' d" "mode_of c = mode_of d" "\<not> memory_out E" "\<not> memory_out E'"
    and "well_typed h" "root = 0 \<or> (\<exists>x. h root = Some x \<and> pointed_type x = T)" "card (dom h) \<le> n"
    and "fresh_allocs allocs" "finite (dom H0)" "length ks0 + card (dom h) < 2 ^ 32"
    and "m_pPointersMap c = Some Map.empty" "vec_rep (m_binaryData c) bs" "length bs + 8 + 24 * card (dom h) < 2 ^ 32"
    and "m_pPointersMap d = Some Map.empty" "m_pAddedPointers d = Some v" "vec_rep v ks0"
  shows "\<exists>c' xs. serialize_object_pointer E h n T root c = (NoError, c') \<and> vec_rep (m_binaryData c') (bs @ xs)
     \<and> (\<forall>w rest. walker_rep w (bs @ xs @ rest) (length bs) \<and> length (bs @ xs @ rest) < 2 ^ 32 \<longrightarrow>
          (\<exists>d' r H. deserialize_object_pointer E' allocs n T (d\<lparr>m_binaryData := w\<rparr>) old H0 = (NoError, d', r, H)
             \<and> walker_rep (m_binaryData d') (bs @ xs @ rest) (length bs + length xs) \<and> graph_received h root H0 ks0 d' r H))"
proof -
  let ?md = "mode_of c"
  obtain xs M' where o: "pointer_octets ?md (object_octets ?md h n) root (length bs) Map.empty = (xs, M')" by fastforce
  obtain b' where b': "serialize_object_pointer E h n T root c = (NoError, writer c b' M')" "vec_rep b' (bs @ xs)"
    using graph_written(1) [OF assms(1,4,6,7,8,12,13,14) o] by blast
  have "\<exists>d' r H. deserialize_object_pointer E' allocs n T (d\<lparr>m_binaryData := w\<rparr>) old H0 = (NoError, d', r, H)
       \<and> walker_rep (m_binaryData d') (bs @ xs @ rest) (length bs + length xs) \<and> graph_received h root H0 ks0 d' r H"
    if w: "walker_rep w (bs @ xs @ rest) (length bs)" "length (bs @ xs @ rest) < 2 ^ 32" for w rest
  proof (rule graph_read [OF _ assms(5,9,6,7,8,10,11) _ _ assms(17)])
    show "pointer_octets (mode_of (d\<lparr>m_binaryData := w\<rparr>)) (object_octets (mode_of (d\<lparr>m_binaryData := w\<rparr>)) h n) root
        (length bs) Map.empty = (xs, M')" using o assms(3) by simp
    show "next_octets (bs @ xs @ rest) (length bs) xs" by (simp add: next_octets_def)
  qed (use assms(2,15,16) w in \<open>simp_all add: graph_ctx_def\<close>)
  then show ?thesis using b' by (intro exI [of _ "writer c b' M'"] exI [of _ xs]) simp
qed

definition sample_graph :: object_store where
  "sample_graph = [1 \<mapsto> RecursiveTestSpecial2 3 1 2, 2 \<mapsto> RecursiveTestSpecial1 1, 3 \<mapsto> IntObject 7]"

definition sample_graph_writer :: sdata where
  "sample_graph_writer = (setDataFlags (sample_sdata False) (df_of 12))\<lparr>m_pPointersMap := Some Map.empty\<rparr>"

definition sample_graph_reader :: ddata where
  "sample_graph_reader = setDataFlags (common.extend (sample_dcommon [] False)
     \<lparr>m_pPointersMap = Some Map.empty, m_pAddedPointers = Some (empty_vec GenericManager), m_interfaceVersion = 0,
      m_dataFlags = df_default, m_interfaceVersionsNotMatch = False, m_forTempUseHeap = True, m_alignmentMayBeNotEqual = False,
      m_sizeOfPrimitivesMayBeNotEqual = False, m_allowUnmanagedPointers = False, m_checkRecursivePointers = False,
      m_simplyAssignableTagsOptimizationsAreTurnedOff = False\<rparr>) (df_of 12)"

definition sample_allocs :: "pointee \<Rightarrow> object_store \<Rightarrow> size_t \<Rightarrow> nat \<times> size_t" where
  "sample_allocs T H n = (Suc (Max (insert 0 (dom H))), n)"

lemma sample_allocs_fresh: "fresh_allocs sample_allocs"
proof -
  have "H (Suc (Max (insert 0 (dom H)))) = None" if "finite (dom H)" for H :: object_store
  proof (rule ccontr)
    assume "H (Suc (Max (insert 0 (dom H)))) \<noteq> None"
    then have "Suc (Max (insert 0 (dom H))) \<le> Max (insert 0 (dom H))" using that by (intro Max_ge) auto
    then show False by simp
  qed
  then show ?thesis by (simp add: fresh_allocs_def sample_allocs_def)
qed

lemma sample_graph_ctxs:
  "graph_ctx sample_env sample_graph_writer" "graph_ctx sample_env sample_graph_reader"
  "mode_of sample_graph_writer = mode_of sample_graph_reader"
  "vec_rep (m_binaryData sample_graph_writer) []" "m_pPointersMap sample_graph_writer = Some Map.empty"
  "m_pPointersMap sample_graph_reader = Some Map.empty" "m_pAddedPointers sample_graph_reader = Some (empty_vec GenericManager)"
proof -
  have f: "df_checkRecursivePointers (df_of 12)" "df_allowUnmanagedPointers (df_of 12)"
    by (simp_all add: df_checkRecursivePointers_def df_allowUnmanagedPointers_def df_of_def kCheckRecursivePointers_def
        kAllowUnmanagedPointers_def df_kValidFlagsMask_def)
  show "graph_ctx sample_env sample_graph_writer" "graph_ctx sample_env sample_graph_reader"
    by (simp_all add: graph_ctx_def value_ctx_def common_inv_def data_inv_def sample_graph_writer_def sample_graph_reader_def
        setDataFlags_def sample_sdata_def sample_scommon_def sample_dcommon_def common.defs f)
  show "mode_of sample_graph_writer = mode_of sample_graph_reader"
    by (simp add: mode_of_def sample_graph_writer_def sample_graph_reader_def setDataFlags_def sample_sdata_def sample_scommon_def
        sample_dcommon_def common.defs)
  show "vec_rep (m_binaryData sample_graph_writer) []" "m_pPointersMap sample_graph_writer = Some Map.empty"
    using sample_sdata_ok(2) [of False] by (simp_all add: sample_graph_writer_def setDataFlags_def)
  show "m_pPointersMap sample_graph_reader = Some Map.empty" "m_pAddedPointers sample_graph_reader = Some (empty_vec GenericManager)"
    by (simp_all add: sample_graph_reader_def setDataFlags_def common.defs)
qed

lemma sample_graph_typed: "well_typed sample_graph" "sample_graph 1 = Some (RecursiveTestSpecial2 3 1 2)" "card (dom sample_graph) = 3"
proof -
  have d: "dom sample_graph = {1, 2, 3}" by (auto simp: sample_graph_def split: if_splits)
  show "card (dom sample_graph) = 3" unfolding d by simp
  show "sample_graph 1 = Some (RecursiveTestSpecial2 3 1 2)" by (simp add: sample_graph_def)
  show "well_typed sample_graph" unfolding well_typed_def d by (auto simp: sample_graph_def split: if_splits)
qed

theorem pointer_graph_roundtrip_witness:
  "\<exists>c' xs. serialize_object_pointer sample_env sample_graph 3 P_Special2 1 sample_graph_writer = (NoError, c')
     \<and> vec_rep (m_binaryData c') xs
     \<and> (\<forall>w rest. walker_rep w (xs @ rest) 0 \<and> length (xs @ rest) < 2 ^ 32 \<longrightarrow>
          (\<exists>d' r H. deserialize_object_pointer sample_env sample_allocs 3 P_Special2 (sample_graph_reader\<lparr>m_binaryData := w\<rparr>) 0 Map.empty
              = (NoError, d', r, H) \<and> graph_received sample_graph 1 Map.empty [] d' r H))"
proof -
  have mem: "\<not> memory_out sample_env" by (simp add: memory_out_def)
  have root: "(1 :: nat) = 0 \<or> (\<exists>x. sample_graph 1 = Some x \<and> pointed_type x = P_Special2)"
    using sample_graph_typed(2) by simp
  show ?thesis
    using pointer_graph_roundtrip [OF sample_graph_ctxs(1-3) mem mem sample_graph_typed(1) root, of 3 sample_allocs Map.empty "[]" "[]"
        "empty_vec GenericManager" 0] sample_graph_ctxs(4-7) sample_graph_typed(3) sample_allocs_fresh vec_rep_empty [of GenericManager]
    by fastforce
qed

text \<open>
  C35: an offset is trusted whatever it leads to. The reader looks the position of a pointer up
  in one map for the objects of all types: octets in which the \<open>m_pNext\<close> of a
  \<open>RecursiveTestSpecial2\<close> has the position of the \<open>int\<close> in front of it are accepted with
  \<open>NoError\<close>, and \<open>m_pNext\<close>, a pointer to a struct of three pointers, has the address of that
  \<open>int\<close>, whose value the message chose.
\<close>
theorem pointer_to_another_type:
  assumes "graph_ctx E d" "\<not> memory_out E" "fresh_allocs allocs"
    and "H0 a = Some (RecursiveTestSpecial2 oI oN oA)" "finite (dom H0)"
    and "m_pPointersMap d = Some N" "m_pAddedPointers d = Some v" "vec_rep v ks" "length ks < 2 ^ 32"
    and "walker_rep (m_binaryData d) bs pos" "length bs < 2 ^ 32"
    and "next_octets bs pos (enc_size (mode_of d) 1 @ enc_scalar False False (mode_of d) i
           @ enc_size (mode_of d) (of_nat (pos + length (enc_size (mode_of d) 1))) @ enc_size (mode_of d) 0)"
  shows "\<exists>d' b H. deserialize_object E allocs (Suc (Suc n)) P_Special2 a d H0 = (NoError, d', H)
     \<and> H a = Some (RecursiveTestSpecial2 b b 0) \<and> b \<noteq> 0 \<and> H b = Some (IntObject i)"
proof -
  let ?m = "enc_size (mode_of d) 1" and ?i = "enc_scalar False False (mode_of d) i"
  let ?pos = "pos + length ?m" and ?b = "fst (allocs P_int H0 1)"
  let ?off = "of_nat ?pos :: u64" and ?z = "enc_size (mode_of d) 0" and ?w = "m_binaryData d"
  let ?o = "enc_size (mode_of d) ?off"
  have c: "value_ctx E d" and fl: "m_checkRecursivePointers d" "m_allowUnmanagedPointers d" using assms(1) by (simp_all add: graph_ctx_def)
  have n: "next_octets bs pos ?m" "next_octets bs ?pos ?i" "next_octets bs (?pos + length ?i) ?o"
    "next_octets bs (?pos + length ?i + length ?o) ?z" using assms(12) by (simp_all add: next_octets_append add.assoc)
  have b: "?b \<noteq> 0" "H0 ?b = None" using assms(3,5) unfolding fresh_allocs_def by blast+
  have d: "d = reader d ?w N v" using assms(6,7) by (simp add: reader_def)
  let ?des = "deserialize_object E allocs (Suc n)"
  obtain w1 v1 where w1: "walker_rep w1 bs ?pos" and r1: "deserialize_to E allocs P_int (?des P_int) d oI H0
      = (let (st, ctx, h) = ?des P_int ?b (reader d w1 (N(?off \<mapsto> ?b)) v1) (H0(?b \<mapsto> IntObject 0)) in (st, ctx, ?b, h))"
    using deserialize_to_new [where des = "?des P_int" and N = N and old = oI and allocs = allocs and T = P_int and H = H0,
        OF assms(1,2,10,11) n(1) assms(8,9) b(1) refl] d by auto
  let ?N = "N(?off \<mapsto> ?b)" and ?H = "H0(?b \<mapsto> IntObject i)"
  obtain w2 where "deserialize_scalar E False False True (reader d w1 ?N v1) 0 = (NoError, reader d w2 ?N v1, i)"
    and w2: "walker_rep w2 bs (?pos + length ?i)" using read_int [OF c w1 assms(11) n(2)] by blast
  then have R1: "deserialize_to E allocs P_int (?des P_int) d oI H0 = (NoError, reader d w2 ?N v1, ?b, ?H)"
    unfolding r1 by simp
  have u: "unat ?off = ?pos"
    using n(1) assms(11) by (intro unat_of_nat_small) (auto simp: next_octets_def)
  have n01: "?off \<noteq> 0" "?off \<noteq> 1" using u length_enc_size(2) [of "mode_of d" 1] by (auto simp del: of_nat_add)
  obtain w3 where w3: "getPointerFromMap E (reader d w2 ?N v1) oN = (NoError, reader d w3 ?N v1, ?b, False)"
    "walker_rep w3 bs (?pos + length ?i + length ?o)"
    using getPointerFromMap_reads [OF c w2 assms(11) n(3), of ?N v1 oN] u n01 by (auto simp del: of_nat_add)
  obtain w4 where w4: "getPointerFromMap E (reader d w3 ?N v1) oA = (NoError, reader d w4 ?N v1, 0, False)"
    using getPointerFromMap_reads [OF c w3(2) assms(11) n(4), of ?N v1 oA] by auto
  have "deserialize_to E allocs P_Special2 (?des P_Special2) (reader d w2 ?N v1) oN ?H = (NoError, reader d w3 ?N v1, ?b, ?H)"
    "deserialize_to E allocs P_Special1 (?des P_Special1) (reader d w3 ?N v1) oA ?H = (NoError, reader d w4 ?N v1, 0, ?H)"
    using fl w3(1) w4 by (simp_all add: deserialize_to_def deserialize_pointer_def)
  then have "deserialize_object E allocs (Suc (Suc n)) P_Special2 a d H0
      = (NoError, reader d w4 ?N v1, ?H(a \<mapsto> RecursiveTestSpecial2 ?b ?b 0))"
    using R1 assms(4) by (simp add: deserialize_RecursiveTestSpecial2_def)
  moreover have "a \<noteq> ?b" using assms(4) b(2) by auto
  ultimately show ?thesis using b(1) by (intro exI conjI) (assumption | simp)+
qed

text \<open>
  C28: without recursive pointers checked a cycle never ends. For an object whose \<open>m_pNext\<close> is
  the object itself, in a context that allows unmanaged pointers and does not check recursive ones,
  every call writes the two marks \<open>0\<close> (no \<open>m_pI\<close>) and \<open>1\<close> (an object follows) and calls itself
  again: for every \<open>n\<close>, \<open>n\<close> nested calls are all entered, leave \<open>n\<close> pairs of these marks in the
  message and one more call to make (\<open>ErrorInternal\<close> is the marker of \<open>serialize_object\<close> for a depth
  that was not enough). Nothing in the code ends that but the stack or, here excluded, the memory.
\<close>
theorem cycle_without_map_never_ends:
  assumes "value_ctx E c" "\<not> m_checkRecursivePointers c" "m_allowUnmanagedPointers c" "\<not> memory_out E"
    and "h a = Some (RecursiveTestSpecial2 0 a pAny)" "a \<noteq> 0" "vec_rep (m_binaryData c) bs" "length bs + 2 * n < 2 ^ 63"
  shows "\<exists>b. serialize_object E h n P_Special2 a c = (ErrorInternal, c\<lparr>m_binaryData := b\<rparr>)
     \<and> vec_rep b (bs @ concat (replicate n [0, 1]))"
  using assms(1-3,7,8)
proof (induction n arbitrary: c bs)
  case 0
  have "c = c\<lparr>m_binaryData := m_binaryData c\<rparr>" by simp
  then show ?case using 0 by (intro exI [of _ "m_binaryData c"]) simp
next
  case (Suc n)
  have w: "\<exists>b'. writePrimitive E (x :: byte) (c\<lparr>m_binaryData := b\<rparr>) = (NoError, c\<lparr>m_binaryData := b'\<rparr>)
      \<and> vec_rep b' (bs @ obj_bytes (md_bigEndianFormat (mode_of c)) x)" if "vec_rep b bs" "length bs + 1 < 2 ^ 63" for b bs x
    using emitsE [OF emits_prim [OF _ Suc.prems(1), of x] that(1)] that(2) assms(4) by auto
  have l: "length bs + 1 < 2 ^ 63" "length bs + 1 + 1 < 2 ^ 63" using Suc.prems(5) by simp_all
  obtain b1 where b1: "writePrimitive E (0 :: byte) c = (NoError, c\<lparr>m_binaryData := b1\<rparr>)"
    "vec_rep b1 (bs @ obj_bytes (md_bigEndianFormat (mode_of c)) (0 :: byte))" using w [OF Suc.prems(4) l(1), of 0] by auto
  obtain b2 where b2: "writePrimitive E (1 :: byte) (c\<lparr>m_binaryData := b1\<rparr>) = (NoError, c\<lparr>m_binaryData := b2\<rparr>)"
    "vec_rep b2 ((bs @ obj_bytes (md_bigEndianFormat (mode_of c)) (0 :: byte)) @ obj_bytes (md_bigEndianFormat (mode_of c)) (1 :: byte))"
    using w [OF b1(2), of 1] l(2) by auto
  have "\<exists>b. serialize_object E h n P_Special2 a (c\<lparr>m_binaryData := b2\<rparr>) = (ErrorInternal, (c\<lparr>m_binaryData := b2\<rparr>)\<lparr>m_binaryData := b\<rparr>)
      \<and> vec_rep b ((bs @ [0, 1]) @ concat (replicate n [0, 1]))"
    using b2(2) Suc.prems by (intro Suc.IH) simp_all
  then obtain b where b: "serialize_object E h n P_Special2 a (c\<lparr>m_binaryData := b2\<rparr>) = (ErrorInternal, c\<lparr>m_binaryData := b\<rparr>)"
    "vec_rep b (bs @ concat (replicate (Suc n) [0, 1]))" by auto
  have "serialize_pointer E (serialize_object E h n P_int) 0 c = (NoError, c\<lparr>m_binaryData := b1\<rparr>)"
    "serialize_pointer E (serialize_object E h n P_Special2) a (c\<lparr>m_binaryData := b1\<rparr>) = (ErrorInternal, c\<lparr>m_binaryData := b\<rparr>)"
    using Suc.prems(2,3) b1(1) b2(1) b(1) assms(6) by (simp_all add: serialize_pointer_def run_simps)
  then show ?case
    using assms(5) b(2) by (intro exI [of _ b]) (simp add: serialize_RecursiveTestSpecial2_def run_simps)
qed

lemma le_bytes_numeral: "le_bytes (numeral k) x = of_nat (x mod 256) # le_bytes (pred_numeral k) (x div 256)"
  by (subst numeral_eq_Suc) (rule le_bytes.simps)

lemma sample_octets:
  "obj_bytes False (1 :: u64) = [1, 0, 0, 0, 0, 0, 0, 0]" "obj_bytes False (8 :: u64) = [8, 0, 0, 0, 0, 0, 0, 0]"
  "obj_bytes False (0 :: u64) = [0, 0, 0, 0, 0, 0, 0, 0]" "obj_bytes False (0x44434241 :: u32) = [65, 66, 67, 68]"
  by (simp_all add: obj_bytes_def le_bytes_numeral)

theorem pointer_to_another_type_witness:
  "\<exists>d' b H. deserialize_object sample_env sample_allocs 2 P_Special2 1 (sample_graph_reader\<lparr>m_binaryData :=
        m_binaryData (sample_dcommon ([1, 0, 0, 0, 0, 0, 0, 0] @ [65, 66, 67, 68] @ [8, 0, 0, 0, 0, 0, 0, 0] @ [0, 0, 0, 0, 0, 0, 0, 0]) False)\<rparr>)
      [1 \<mapsto> RecursiveTestSpecial2 0 0 0] = (NoError, d', H)
    \<and> H 1 = Some (RecursiveTestSpecial2 b b 0) \<and> b \<noteq> 0 \<and> H b = Some (IntObject 0x44434241)"
proof -
  let ?bs = "[1, 0, 0, 0, 0, 0, 0, 0] @ [65, 66, 67, 68] @ [8, 0, 0, 0, 0, 0, 0, 0] @ [0, 0, 0, 0, 0, 0, 0, 0] :: byte list"
  let ?d = "sample_graph_reader\<lparr>m_binaryData := m_binaryData (sample_dcommon ?bs False)\<rparr>"
  have m: "\<not> md_bigEndianFormat (mode_of sample_graph_reader)" "\<not> md_bitness32 (mode_of sample_graph_reader)"
    "\<not> int_sized (mode_of sample_graph_reader)"
    by (simp_all add: mode_of_def sample_graph_reader_def setDataFlags_def sample_dcommon_def common.defs int_sized_def
        df_sizeOfIntegersMayBeNotEqual_def df_of_def kSizeOfIntegersMayBeNotEqual_def df_kValidFlagsMask_def)
  have e: "enc_size (mode_of sample_graph_reader) 1 = [1, 0, 0, 0, 0, 0, 0, 0]" "enc_size (mode_of sample_graph_reader) 8 = [8, 0, 0, 0, 0, 0, 0, 0]"
    "enc_size (mode_of sample_graph_reader) 0 = [0, 0, 0, 0, 0, 0, 0, 0]" "enc_scalar False False (mode_of sample_graph_reader) (0x44434241 :: u32) = [65, 66, 67, 68]"
    using m by (simp_all add: enc_size_def enc_scalar_def sample_octets)
  have g: "graph_ctx sample_env ?d" using sample_graph_ctxs(2) by (simp add: graph_ctx_def)
  have mem: "\<not> memory_out sample_env" by (simp add: memory_out_def)
  have x: "[1 \<mapsto> RecursiveTestSpecial2 0 0 0] 1 = Some (RecursiveTestSpecial2 0 0 (0 :: nat))" by simp
  have nx: "next_octets ?bs 0 (enc_size (mode_of ?d) 1 @ enc_scalar False False (mode_of ?d) (0x44434241 :: u32)
      @ enc_size (mode_of ?d) (of_nat (0 + length (enc_size (mode_of ?d) 1))) @ enc_size (mode_of ?d) 0)"
    by (simp only: mode_of_bin e(1,3,4)) (simp add: e(2) next_octets_def)
  have w: "walker_rep (m_binaryData ?d) ?bs 0" using sample_dcommon_rep [of ?bs False] by simp
  have m: "m_pPointersMap ?d = Some Map.empty" "m_pAddedPointers ?d = Some (empty_vec GenericManager)"
    using sample_graph_ctxs(6,7) by simp_all
  have l: "finite (dom [1 \<mapsto> RecursiveTestSpecial2 0 0 (0 :: nat)])" "length ([] :: nat pointer_keeper list) < 2 ^ 32" "length ?bs < 2 ^ 32"
    by simp_all
  show ?thesis
    using pointer_to_another_type [OF g mem sample_allocs_fresh x l(1) m vec_rep_empty l(2) w l(3) nx, of 0]
    unfolding numeral_2_eq_2 .
qed

theorem cycle_without_map_never_ends_witness:
  "\<exists>b. serialize_object sample_env [1 \<mapsto> RecursiveTestSpecial2 0 1 0] 100 P_Special2 1 (setDataFlags (sample_sdata False) (df_of 4))
       = (ErrorInternal, (setDataFlags (sample_sdata False) (df_of 4))\<lparr>m_binaryData := b\<rparr>)
     \<and> vec_rep b (concat (replicate 100 [0, 1]))"
proof -
  let ?c = "setDataFlags (sample_sdata False) (df_of 4)"
  have f: "\<not> df_checkRecursivePointers (df_of 4)" "df_allowUnmanagedPointers (df_of 4)"
    by (simp_all add: df_checkRecursivePointers_def df_allowUnmanagedPointers_def df_of_def kCheckRecursivePointers_def
        kAllowUnmanagedPointers_def df_kValidFlagsMask_def)
  have "value_ctx sample_env ?c"
    by (simp add: value_ctx_def common_inv_def data_inv_def setDataFlags_def sample_sdata_def sample_scommon_def common.defs)
  moreover have "\<not> m_checkRecursivePointers ?c" "m_allowUnmanagedPointers ?c" "vec_rep (m_binaryData ?c) []"
    using f sample_sdata_ok(2) [of False] by (simp_all add: setDataFlags_def)
  moreover have "\<not> memory_out sample_env" by (simp add: memory_out_def)
  ultimately show ?thesis
    using cycle_without_map_never_ends [of sample_env ?c "[1 \<mapsto> RecursiveTestSpecial2 0 1 0]" 1 0 "[]" 100] by simp
qed

end
