(* ===== verification/VersionedStructs.thy ===== *)
theory VersionedStructs
  imports ServiceStructs
begin

text \<open>
  Structs with old versions, as the tests declare them in \<open>tests_csp_interface\<close>: their private
  versions (\<open>structs.h\<close>, \<open>structs_legacy.h\<close>), the initialisations of one version from another,
  their bodies (\<open>BodyProcessor.cpp\<close>, \<open>BodyProcessorLegacy.cpp\<close>) and the chains of conversions
  (\<open>VersionConverter.cpp\<close>).
\<close>

section \<open>The interface of the tests\<close>

definition tests_properties :: "bool \<Rightarrow> interface" where
  "tests_properties be =
     Interface (uuid_of_parts be 0xa1cfd12a 0x22b2 0x49d3 0x8575 0x02342a630145) 3 df_default df_default"

definition tests_info :: "bool \<Rightarrow> uuid \<Rightarrow> u32 \<Rightarrow> u32 list \<Rightarrow> struct_info" where
  "tests_info be kId kInterfaceVersion kPrivateVersions =
     \<lparr>s_kId = kId, s_interface = tests_properties be, s_kInterfaceVersion = kInterfaceVersion,
      s_kPrivateVersions = kPrivateVersions, s_kAddtionalMandatoryDataFlags = df_default,
      s_kAddtionalForbiddenDataFlags = df_default\<rparr>"

text \<open>A struct of the tests that has no tag, with its size; the tags are set where it has one.\<close>

definition struct_type :: "nat \<Rightarrow> struct_info option \<Rightarrow> 'a \<Rightarrow> (bool \<Rightarrow> 'a \<Rightarrow> byte list) \<Rightarrow> (bool \<Rightarrow> byte list \<Rightarrow> 'a) \<Rightarrow> 'a ctype" where
  "struct_type sz info dflt octets of_octets = \<lparr>t_sizeof = sz, t_integralOrEnum = False, t_floating = False,
     t_fixSized = False, t_signed = False, t_empty = False, tag_simplyAssignable = False, tag_alignedToOne = False,
     tag_fixedSize = False, tag_always = False, tag_endiannessTolerant = False,
     t_info = info, t_default = dflt, t_octets = octets, t_of_octets = of_octets\<rparr>"

text \<open>
  The specializations of \<open>VersionConverter\<close>: \<open>convert\<close> over the old versions \<open>Vs\<close>, then
  \<open>NoFurtherProcessingRequired\<close>. \<open>inject\<close> makes the current struct one of the objects of the
  chain, \<open>to_init\<close> is its own \<open>init\<close>.
\<close>

definition convert_to_old ::
    "env \<Rightarrow> 'o version_class list \<Rightarrow> ('a \<Rightarrow> 'o) \<Rightarrow> 'a \<Rightarrow> u32 \<Rightarrow> sdata \<Rightarrow> status \<times> sdata" where
  "convert_to_old E Vs inject value targetVersion ctx =
     run (toVersion_convert E Vs targetVersion (inject value) ctx) (\<lambda>ctx. (NoFurtherProcessingRequired, ctx))"

definition convert_from_old ::
    "env \<Rightarrow> ('o version_class \<Rightarrow> bool) \<Rightarrow> ('o \<Rightarrow> 'o \<Rightarrow> status \<times> 'o) \<Rightarrow> 'o version_class list \<Rightarrow> ('a \<Rightarrow> 'o)
     \<Rightarrow> ('o \<Rightarrow> 'a) \<Rightarrow> ddata \<Rightarrow> u32 \<Rightarrow> 'a \<Rightarrow> status \<times> ddata \<times> 'a" where
  "convert_from_old E initable to_init Vs inject project ctx targetVersion value =
     run_out (fromVersion_convert E initable to_init targetVersion Vs ctx (inject value)) project
       (\<lambda>ctx x. (NoFurtherProcessingRequired, ctx, project x))"

text \<open>
  The objects of the chain of a struct with one old version: the current struct or the old
  one. The old version keeps its private version, its size, \<open>init\<close> from the current struct and
  its body.
\<close>

definition old_version ::
    "u32 \<Rightarrow> nat \<Rightarrow> 'o \<Rightarrow> ('o \<Rightarrow> 'n \<Rightarrow> status \<times> 'o) \<Rightarrow> ('o \<Rightarrow> sdata \<Rightarrow> status \<times> sdata)
     \<Rightarrow> (ddata \<Rightarrow> 'o \<Rightarrow> status \<times> ddata \<times> 'o) \<Rightarrow> ('n + 'o) version_class" where
  "old_version privateVersion sz dflt init ser des =
     \<lparr>vc_privateVersion = privateVersion, vc_elem = ctor_elem sz id, vc_default = Inr dflt,
      vc_init = (\<lambda>old from. case (old, from) of
          (Inr old, Inl rhs) \<Rightarrow> map_prod id Inr (init old rhs)
        | _ \<Rightarrow> (ErrorInternal, old)),
      vc_serialize = (\<lambda>x ctx. case x of Inr v \<Rightarrow> ser v ctx | Inl _ \<Rightarrow> (ErrorInternal, ctx)),
      vc_deserialize = (\<lambda>ctx x. case x of
          Inr v \<Rightarrow> (let (st, ctx, v) = des ctx v in (st, ctx, Inr v))
        | Inl _ \<Rightarrow> (ErrorInternal, ctx, x))\<rparr>"

definition current_init :: "('n \<Rightarrow> 'o \<Rightarrow> status \<times> 'n) \<Rightarrow> 'n + 'o \<Rightarrow> 'n + 'o \<Rightarrow> status \<times> ('n + 'o)" where
  "current_init init to from =
     (case (to, from) of (Inl old, Inr rhs) \<Rightarrow> map_prod id Inl (init old rhs) | _ \<Rightarrow> (ErrorInternal, to))"

section \<open>AlwaysSimplyAssignable\<close>

datatype always_simply_assignable = AlwaysSimplyAssignable (as_x: byte) (as_y: byte)

datatype always_simply_assignable0 = AlwaysSimplyAssignable_Version0 (as_xx: u16) (as_yy: u16)

definition AlwaysSimplyAssignable_id :: "bool \<Rightarrow> uuid" where
  "AlwaysSimplyAssignable_id be = uuid_of_parts be 0x06c2c5ec 0x28b1 0x4b14 0xa487 0xc9f6d98fabfd"

definition AlwaysSimplyAssignable_info :: "bool \<Rightarrow> struct_info" where
  "AlwaysSimplyAssignable_info be = tests_info be (AlwaysSimplyAssignable_id be) 2 [2, 0]"

definition AlwaysSimplyAssignable_Version0_info :: "bool \<Rightarrow> struct_info" where
  "AlwaysSimplyAssignable_Version0_info be = tests_info be (AlwaysSimplyAssignable_id be) 0 [0]"

text \<open>The octets of an object: its members one behind the other, without padding. Both structs are packed.\<close>

definition always_octets :: "always_simply_assignable \<Rightarrow> byte list" where
  "always_octets v = [as_x v, as_y v]"

definition always_of_octets :: "byte list \<Rightarrow> always_simply_assignable" where
  "always_of_octets bs = AlwaysSimplyAssignable (bs ! 0) (bs ! 1)"

definition always0_octets :: "bool \<Rightarrow> always_simply_assignable0 \<Rightarrow> byte list" where
  "always0_octets be v = obj_bytes be (as_xx v) @ obj_bytes be (as_yy v)"

definition always0_of_octets :: "bool \<Rightarrow> byte list \<Rightarrow> always_simply_assignable0" where
  "always0_of_octets be bs = AlwaysSimplyAssignable_Version0 (obj_value be (take 2 bs)) (obj_value be (drop 2 bs))"

definition AlwaysSimplyAssignable_type :: "bool \<Rightarrow> always_simply_assignable ctype" where
  "AlwaysSimplyAssignable_type be =
     (struct_type 2 (Some (AlwaysSimplyAssignable_info be)) (AlwaysSimplyAssignable 0 0)
        (\<lambda>_. always_octets) (\<lambda>_. always_of_octets))\<lparr>tag_always := True\<rparr>"

definition AlwaysSimplyAssignable_Version0_type :: "bool \<Rightarrow> always_simply_assignable0 ctype" where
  "AlwaysSimplyAssignable_Version0_type be =
     (struct_type 4 (Some (AlwaysSimplyAssignable_Version0_info be)) (AlwaysSimplyAssignable_Version0 0 0)
        always0_octets always0_of_octets)\<lparr>tag_always := True\<rparr>"

definition AlwaysSimplyAssignable_Version0_init ::
    "always_simply_assignable0 \<Rightarrow> always_simply_assignable \<Rightarrow> status \<times> always_simply_assignable0" where
  "AlwaysSimplyAssignable_Version0_init _ rhs =
     (NoError, AlwaysSimplyAssignable_Version0 (ucast (as_x rhs) + 1) (ucast (as_y rhs) + 2))"

definition AlwaysSimplyAssignable_init ::
    "always_simply_assignable \<Rightarrow> always_simply_assignable0 \<Rightarrow> status \<times> always_simply_assignable" where
  "AlwaysSimplyAssignable_init _ rhs = (NoError, AlwaysSimplyAssignable (ucast (as_xx rhs - 1)) (ucast (as_yy rhs - 2)))"

definition serialize_AlwaysSimplyAssignable_Version0 ::
    "env \<Rightarrow> always_simply_assignable0 \<Rightarrow> sdata \<Rightarrow> status \<times> sdata" where
  "serialize_AlwaysSimplyAssignable_Version0 E value =
     csp_serialize_common E (AlwaysSimplyAssignable_Version0_type (big_endian E)) toOldStruct value (\<lambda>ctx.
       run (serialize_scalar E False False (as_xx value) ctx) (\<lambda>ctx.
       run (serialize_scalar E False False (as_yy value) ctx) (\<lambda>ctx. (NoError, ctx))))"

definition deserialize_AlwaysSimplyAssignable_Version0 ::
    "env \<Rightarrow> ddata \<Rightarrow> always_simply_assignable0 \<Rightarrow> status \<times> ddata \<times> always_simply_assignable0" where
  "deserialize_AlwaysSimplyAssignable_Version0 E =
     csp_deserialize_common E (AlwaysSimplyAssignable_Version0_type (big_endian E)) fromOldStruct (\<lambda>ctx value.
       run_out (deserialize_scalar E False False False ctx (as_xx value)) (\<lambda>x. AlwaysSimplyAssignable_Version0 x (as_yy value)) (\<lambda>ctx x.
       run_out (deserialize_scalar E False False False ctx (as_yy value)) (AlwaysSimplyAssignable_Version0 x) (\<lambda>ctx y.
         (NoError, ctx, AlwaysSimplyAssignable_Version0 x y))))"

definition AlwaysSimplyAssignable_chain ::
    "env \<Rightarrow> (always_simply_assignable + always_simply_assignable0) version_class list" where
  "AlwaysSimplyAssignable_chain E =
     [old_version (getLatestPrivateVersion (AlwaysSimplyAssignable_Version0_info (big_endian E))) 4
        (AlwaysSimplyAssignable_Version0 0 0) AlwaysSimplyAssignable_Version0_init
        (serialize_AlwaysSimplyAssignable_Version0 E) (deserialize_AlwaysSimplyAssignable_Version0 E)]"

definition toOldStruct_AlwaysSimplyAssignable ::
    "env \<Rightarrow> always_simply_assignable \<Rightarrow> u32 \<Rightarrow> sdata \<Rightarrow> status \<times> sdata" where
  "toOldStruct_AlwaysSimplyAssignable E = convert_to_old E (AlwaysSimplyAssignable_chain E) Inl"

definition fromOldStruct_AlwaysSimplyAssignable ::
    "env \<Rightarrow> ddata \<Rightarrow> u32 \<Rightarrow> always_simply_assignable \<Rightarrow> status \<times> ddata \<times> always_simply_assignable" where
  "fromOldStruct_AlwaysSimplyAssignable E =
     convert_from_old E (\<lambda>_. True) (current_init AlwaysSimplyAssignable_init) (AlwaysSimplyAssignable_chain E) Inl projl"

definition serialize_AlwaysSimplyAssignable :: "env \<Rightarrow> always_simply_assignable \<Rightarrow> sdata \<Rightarrow> status \<times> sdata" where
  "serialize_AlwaysSimplyAssignable E value =
     csp_serialize_common E (AlwaysSimplyAssignable_type (big_endian E)) (toOldStruct_AlwaysSimplyAssignable E) value (\<lambda>ctx.
       run (serialize_scalar E False False (as_x value) ctx) (\<lambda>ctx.
       run (serialize_scalar E False False (as_y value) ctx) (\<lambda>ctx. (NoError, ctx))))"

definition deserialize_AlwaysSimplyAssignable ::
    "env \<Rightarrow> ddata \<Rightarrow> always_simply_assignable \<Rightarrow> status \<times> ddata \<times> always_simply_assignable" where
  "deserialize_AlwaysSimplyAssignable E =
     csp_deserialize_common E (AlwaysSimplyAssignable_type (big_endian E)) (fromOldStruct_AlwaysSimplyAssignable E) (\<lambda>ctx value.
       run_out (deserialize_scalar E False False False ctx (as_x value)) (\<lambda>x. AlwaysSimplyAssignable x (as_y value)) (\<lambda>ctx x.
       run_out (deserialize_scalar E False False False ctx (as_y value)) (AlwaysSimplyAssignable x) (\<lambda>ctx y.
         (NoError, ctx, AlwaysSimplyAssignable x y))))"

section \<open>SimplyAssignableFixedSize\<close>

text \<open>The arrays have three elements.\<close>

datatype simply_assignable_fixed_size =
  SimplyAssignableFixedSize (fs_x: byte) (fs_asa: always_simply_assignable) (fs_arrAsa: "always_simply_assignable list")

datatype simply_assignable_fixed_size1 =
  SimplyAssignableFixedSize_Version1 (fs_xx: u16) (fs1_asa: always_simply_assignable0)
    (fs1_arrAsa: "always_simply_assignable0 list")

definition SimplyAssignableFixedSize_id :: "bool \<Rightarrow> uuid" where
  "SimplyAssignableFixedSize_id be = uuid_of_parts be 0x33347d40 0x89c5 0x4eb1 0xbde2 0xf398118ebc2f"

definition SimplyAssignableFixedSize_info :: "bool \<Rightarrow> struct_info" where
  "SimplyAssignableFixedSize_info be = tests_info be (SimplyAssignableFixedSize_id be) 2 [2, 1]"

definition SimplyAssignableFixedSize_Version1_info :: "bool \<Rightarrow> struct_info" where
  "SimplyAssignableFixedSize_Version1_info be = tests_info be (SimplyAssignableFixedSize_id be) 1 [1]"

definition SimplyAssignableFixedSize_new :: simply_assignable_fixed_size where
  "SimplyAssignableFixedSize_new =
     SimplyAssignableFixedSize 0 (AlwaysSimplyAssignable 0 0) (replicate 3 (AlwaysSimplyAssignable 0 0))"

definition SimplyAssignableFixedSize_Version1_new :: simply_assignable_fixed_size1 where
  "SimplyAssignableFixedSize_Version1_new = SimplyAssignableFixedSize_Version1 0
     (AlwaysSimplyAssignable_Version0 0 0) (replicate 3 (AlwaysSimplyAssignable_Version0 0 0))"

definition SimplyAssignableFixedSize_type :: "bool \<Rightarrow> simply_assignable_fixed_size ctype" where
  "SimplyAssignableFixedSize_type be =
     (struct_type 9 (Some (SimplyAssignableFixedSize_info be)) SimplyAssignableFixedSize_new
        (\<lambda>_ v. fs_x v # always_octets (fs_asa v) @ concat (map always_octets (fs_arrAsa v)))
        (\<lambda>_ bs. SimplyAssignableFixedSize (bs ! 0) (always_of_octets (take 2 (drop 1 bs)))
           (map (\<lambda>i. always_of_octets (take 2 (drop (3 + 2 * i) bs))) [0, 1, 2])))\<lparr>tag_fixedSize := True\<rparr>"

definition SimplyAssignableFixedSize_Version1_type :: "bool \<Rightarrow> simply_assignable_fixed_size1 ctype" where
  "SimplyAssignableFixedSize_Version1_type be =
     (struct_type 18 (Some (SimplyAssignableFixedSize_Version1_info be)) SimplyAssignableFixedSize_Version1_new
        (\<lambda>be v. obj_bytes be (fs_xx v) @ always0_octets be (fs1_asa v) @ concat (map (always0_octets be) (fs1_arrAsa v)))
        (\<lambda>be bs. SimplyAssignableFixedSize_Version1 (obj_value be (take 2 bs)) (always0_of_octets be (take 4 (drop 2 bs)))
           (map (\<lambda>i. always0_of_octets be (take 4 (drop (6 + 4 * i) bs))) [0, 1, 2])))\<lparr>tag_fixedSize := True\<rparr>"

definition SimplyAssignableFixedSize_Version1_init ::
    "simply_assignable_fixed_size1 \<Rightarrow> simply_assignable_fixed_size \<Rightarrow> status \<times> simply_assignable_fixed_size1" where
  "SimplyAssignableFixedSize_Version1_init old rhs =
     (NoError, SimplyAssignableFixedSize_Version1 (ucast (fs_x rhs) + 1)
        (snd (AlwaysSimplyAssignable_Version0_init (fs1_asa old) (fs_asa rhs)))
        (map2 (\<lambda>o' r. snd (AlwaysSimplyAssignable_Version0_init o' r)) (fs1_arrAsa old) (fs_arrAsa rhs)))"

definition SimplyAssignableFixedSize_init ::
    "simply_assignable_fixed_size \<Rightarrow> simply_assignable_fixed_size1 \<Rightarrow> status \<times> simply_assignable_fixed_size" where
  "SimplyAssignableFixedSize_init old rhs =
     (NoError, SimplyAssignableFixedSize (ucast (fs_xx rhs - 1))
        (snd (AlwaysSimplyAssignable_init (fs_asa old) (fs1_asa rhs)))
        (map2 (\<lambda>o' r. snd (AlwaysSimplyAssignable_init o' r)) (fs_arrAsa old) (fs1_arrAsa rhs)))"

text \<open>\<open>addr\<close> gives the addresses of the elements of the array.\<close>

definition serialize_SimplyAssignableFixedSize_Version1 ::
    "env \<Rightarrow> (nat \<Rightarrow> nat) \<Rightarrow> simply_assignable_fixed_size1 \<Rightarrow> sdata \<Rightarrow> status \<times> sdata" where
  "serialize_SimplyAssignableFixedSize_Version1 E addr value =
     csp_serialize_common E (SimplyAssignableFixedSize_Version1_type (big_endian E)) toOldStruct value (\<lambda>ctx.
       run (serialize_scalar E False False (fs_xx value) ctx) (\<lambda>ctx.
       run (serialize_AlwaysSimplyAssignable_Version0 E (fs1_asa value) ctx) (\<lambda>ctx.
       run (serialize_array E (AlwaysSimplyAssignable_Version0_type (big_endian E))
              (serialize_AlwaysSimplyAssignable_Version0 E) addr (fs1_arrAsa value) ctx) (\<lambda>ctx. (NoError, ctx)))))"

definition deserialize_SimplyAssignableFixedSize_Version1 ::
    "env \<Rightarrow> (nat \<Rightarrow> nat) \<Rightarrow> ddata \<Rightarrow> simply_assignable_fixed_size1 \<Rightarrow> status \<times> ddata \<times> simply_assignable_fixed_size1" where
  "deserialize_SimplyAssignableFixedSize_Version1 E addr =
     csp_deserialize_common E (SimplyAssignableFixedSize_Version1_type (big_endian E)) fromOldStruct (\<lambda>ctx value.
       run_out (deserialize_scalar E False False False ctx (fs_xx value))
         (\<lambda>x. SimplyAssignableFixedSize_Version1 x (fs1_asa value) (fs1_arrAsa value)) (\<lambda>ctx x.
       run_out (deserialize_AlwaysSimplyAssignable_Version0 E ctx (fs1_asa value))
         (\<lambda>a. SimplyAssignableFixedSize_Version1 x a (fs1_arrAsa value)) (\<lambda>ctx a.
       run_out (deserialize_array E (AlwaysSimplyAssignable_Version0_type (big_endian E))
              (deserialize_AlwaysSimplyAssignable_Version0 E) (\<lambda>_ ctx x. (ErrorInternal, ctx, x)) addr ctx 3
              (Cells (map Obj (fs1_arrAsa value))))
         (\<lambda>p. SimplyAssignableFixedSize_Version1 x a (block_objects p)) (\<lambda>ctx p.
         (NoError, ctx, SimplyAssignableFixedSize_Version1 x a (block_objects p))))))"

definition SimplyAssignableFixedSize_chain ::
    "env \<Rightarrow> (nat \<Rightarrow> nat) \<Rightarrow> (simply_assignable_fixed_size + simply_assignable_fixed_size1) version_class list" where
  "SimplyAssignableFixedSize_chain E addr =
     [old_version (getLatestPrivateVersion (SimplyAssignableFixedSize_Version1_info (big_endian E))) 18
        SimplyAssignableFixedSize_Version1_new SimplyAssignableFixedSize_Version1_init
        (serialize_SimplyAssignableFixedSize_Version1 E addr) (deserialize_SimplyAssignableFixedSize_Version1 E addr)]"

text \<open>A temporary of the old version has addresses of its own, \<open>tmp\<close>.\<close>

definition toOldStruct_SimplyAssignableFixedSize ::
    "env \<Rightarrow> (nat \<Rightarrow> nat) \<Rightarrow> simply_assignable_fixed_size \<Rightarrow> u32 \<Rightarrow> sdata \<Rightarrow> status \<times> sdata" where
  "toOldStruct_SimplyAssignableFixedSize E tmp = convert_to_old E (SimplyAssignableFixedSize_chain E tmp) Inl"

definition fromOldStruct_SimplyAssignableFixedSize ::
    "env \<Rightarrow> (nat \<Rightarrow> nat) \<Rightarrow> ddata \<Rightarrow> u32 \<Rightarrow> simply_assignable_fixed_size \<Rightarrow> status \<times> ddata \<times> simply_assignable_fixed_size" where
  "fromOldStruct_SimplyAssignableFixedSize E tmp =
     convert_from_old E (\<lambda>_. True) (current_init SimplyAssignableFixedSize_init)
       (SimplyAssignableFixedSize_chain E tmp) Inl projl"

definition serialize_SimplyAssignableFixedSize ::
    "env \<Rightarrow> (nat \<Rightarrow> nat) \<Rightarrow> (nat \<Rightarrow> nat) \<Rightarrow> simply_assignable_fixed_size \<Rightarrow> sdata \<Rightarrow> status \<times> sdata" where
  "serialize_SimplyAssignableFixedSize E addr tmp value =
     csp_serialize_common E (SimplyAssignableFixedSize_type (big_endian E))
       (toOldStruct_SimplyAssignableFixedSize E tmp) value (\<lambda>ctx.
       run (serialize_scalar E False False (fs_x value) ctx) (\<lambda>ctx.
       run (serialize_AlwaysSimplyAssignable E (fs_asa value) ctx) (\<lambda>ctx.
       run (serialize_array E (AlwaysSimplyAssignable_type (big_endian E)) (serialize_AlwaysSimplyAssignable E)
              addr (fs_arrAsa value) ctx) (\<lambda>ctx. (NoError, ctx)))))"

definition deserialize_SimplyAssignableFixedSize ::
    "env \<Rightarrow> (nat \<Rightarrow> nat) \<Rightarrow> (nat \<Rightarrow> nat) \<Rightarrow> ddata \<Rightarrow> simply_assignable_fixed_size
     \<Rightarrow> status \<times> ddata \<times> simply_assignable_fixed_size" where
  "deserialize_SimplyAssignableFixedSize E addr tmp =
     csp_deserialize_common E (SimplyAssignableFixedSize_type (big_endian E))
       (fromOldStruct_SimplyAssignableFixedSize E tmp) (\<lambda>ctx value.
       run_out (deserialize_scalar E False False False ctx (fs_x value))
         (\<lambda>x. SimplyAssignableFixedSize x (fs_asa value) (fs_arrAsa value)) (\<lambda>ctx x.
       run_out (deserialize_AlwaysSimplyAssignable E ctx (fs_asa value))
         (\<lambda>a. SimplyAssignableFixedSize x a (fs_arrAsa value)) (\<lambda>ctx a.
       run_out (deserialize_array E (AlwaysSimplyAssignable_type (big_endian E)) (deserialize_AlwaysSimplyAssignable E)
              (\<lambda>_ ctx x. (ErrorInternal, ctx, x)) addr ctx 3 (Cells (map Obj (fs_arrAsa value))))
         (\<lambda>p. SimplyAssignableFixedSize x a (block_objects p)) (\<lambda>ctx p.
         (NoError, ctx, SimplyAssignableFixedSize x a (block_objects p))))))"

section \<open>SimplyAssignableAlignedToOne\<close>

text \<open>
  Only the current struct is packed. The old ones have the tag, but an alignment of two, so that the
  tag does not count; a \<open>TwoInts\<close> has an octet of padding, whose value is \<open>pad\<close>.
\<close>

datatype two_ints = TwoInts (ti_x: byte) (ti_y: u16)

datatype simply_assignable_aligned_to_one = SimplyAssignableAlignedToOne (ao_x: byte) (ao_y: byte)

datatype simply_assignable_aligned_to_one1 = SimplyAssignableAlignedToOne_Version1 (ao1_x: byte) (ao1_y: u16)

datatype simply_assignable_aligned_to_one0 = SimplyAssignableAlignedToOne_Version0 (ao0_ti: two_ints)

definition SimplyAssignableAlignedToOne_id :: "bool \<Rightarrow> uuid" where
  "SimplyAssignableAlignedToOne_id be = uuid_of_parts be 0xf2d69dcd 0x4e24 0x4c65 0x9f76 0xd517be1daccd"

definition SimplyAssignableAlignedToOne_info :: "bool \<Rightarrow> struct_info" where
  "SimplyAssignableAlignedToOne_info be = tests_info be (SimplyAssignableAlignedToOne_id be) 3 [3, 1, 0]"

definition SimplyAssignableAlignedToOne_Version1_info :: "bool \<Rightarrow> struct_info" where
  "SimplyAssignableAlignedToOne_Version1_info be = tests_info be (SimplyAssignableAlignedToOne_id be) 1 [1, 0]"

definition SimplyAssignableAlignedToOne_Version0_info :: "bool \<Rightarrow> struct_info" where
  "SimplyAssignableAlignedToOne_Version0_info be = tests_info be (SimplyAssignableAlignedToOne_id be) 0 [0]"

definition TwoInts_type :: "byte \<Rightarrow> two_ints ctype" where
  "TwoInts_type pad =
     (struct_type 4 None (TwoInts 0 0) (\<lambda>be v. [ti_x v, pad] @ obj_bytes be (ti_y v))
        (\<lambda>be bs. TwoInts (bs ! 0) (obj_value be (drop 2 bs))))\<lparr>tag_simplyAssignable := True\<rparr>"

definition SimplyAssignableAlignedToOne_type :: "bool \<Rightarrow> simply_assignable_aligned_to_one ctype" where
  "SimplyAssignableAlignedToOne_type be =
     (struct_type 2 (Some (SimplyAssignableAlignedToOne_info be)) (SimplyAssignableAlignedToOne 0 0)
        (\<lambda>_ v. [ao_x v, ao_y v]) (\<lambda>_ bs. SimplyAssignableAlignedToOne (bs ! 0) (bs ! 1)))\<lparr>tag_alignedToOne := True\<rparr>"

text \<open>Nothing asks for the octets of these two.\<close>

definition SimplyAssignableAlignedToOne_Version1_type :: "bool \<Rightarrow> simply_assignable_aligned_to_one1 ctype" where
  "SimplyAssignableAlignedToOne_Version1_type be =
     struct_type 4 (Some (SimplyAssignableAlignedToOne_Version1_info be)) (SimplyAssignableAlignedToOne_Version1 0 0)
       (\<lambda>_ _. []) (\<lambda>_ _. SimplyAssignableAlignedToOne_Version1 0 0)"

definition SimplyAssignableAlignedToOne_Version0_type :: "bool \<Rightarrow> simply_assignable_aligned_to_one0 ctype" where
  "SimplyAssignableAlignedToOne_Version0_type be =
     struct_type 4 (Some (SimplyAssignableAlignedToOne_Version0_info be)) (SimplyAssignableAlignedToOne_Version0 (TwoInts 0 0))
       (\<lambda>_ _. []) (\<lambda>_ _. SimplyAssignableAlignedToOne_Version0 (TwoInts 0 0))"

definition SimplyAssignableAlignedToOne_Version1_initFrom0 ::
    "simply_assignable_aligned_to_one1 \<Rightarrow> simply_assignable_aligned_to_one0 \<Rightarrow> status \<times> simply_assignable_aligned_to_one1" where
  "SimplyAssignableAlignedToOne_Version1_initFrom0 _ rhs =
     (NoError, SimplyAssignableAlignedToOne_Version1 (ti_x (ao0_ti rhs)) (ti_y (ao0_ti rhs)))"

definition SimplyAssignableAlignedToOne_Version1_init ::
    "simply_assignable_aligned_to_one1 \<Rightarrow> simply_assignable_aligned_to_one \<Rightarrow> status \<times> simply_assignable_aligned_to_one1" where
  "SimplyAssignableAlignedToOne_Version1_init _ rhs =
     (NoError, SimplyAssignableAlignedToOne_Version1 (ao_x rhs) (ucast (ao_y rhs)))"

definition SimplyAssignableAlignedToOne_Version0_init ::
    "simply_assignable_aligned_to_one0 \<Rightarrow> simply_assignable_aligned_to_one1 \<Rightarrow> status \<times> simply_assignable_aligned_to_one0" where
  "SimplyAssignableAlignedToOne_Version0_init _ rhs =
     (NoError, SimplyAssignableAlignedToOne_Version0 (TwoInts (ao1_x rhs) (ao1_y rhs)))"

definition SimplyAssignableAlignedToOne_init ::
    "simply_assignable_aligned_to_one \<Rightarrow> simply_assignable_aligned_to_one1 \<Rightarrow> status \<times> simply_assignable_aligned_to_one" where
  "SimplyAssignableAlignedToOne_init _ rhs =
     (NoError, SimplyAssignableAlignedToOne (ao1_x rhs) (ucast (ao1_y rhs)))"

definition serialize_TwoInts :: "env \<Rightarrow> byte \<Rightarrow> two_ints \<Rightarrow> sdata \<Rightarrow> status \<times> sdata" where
  "serialize_TwoInts E pad value =
     serialize_any_simply_assignable E (TwoInts_type pad) value (\<lambda>ctx.
       run (serialize_scalar E False False (ti_x value) ctx) (\<lambda>ctx.
       run (serialize_scalar E False False (ti_y value) ctx) (\<lambda>ctx. (NoError, ctx))))"

definition deserialize_TwoInts :: "env \<Rightarrow> byte \<Rightarrow> ddata \<Rightarrow> two_ints \<Rightarrow> status \<times> ddata \<times> two_ints" where
  "deserialize_TwoInts E pad =
     deserialize_any_simply_assignable E (TwoInts_type pad) (\<lambda>ctx value.
       run_out (deserialize_scalar E False False False ctx (ti_x value)) (\<lambda>x. TwoInts x (ti_y value)) (\<lambda>ctx x.
       run_out (deserialize_scalar E False False False ctx (ti_y value)) (TwoInts x) (\<lambda>ctx y.
         (NoError, ctx, TwoInts x y))))"

definition serialize_SimplyAssignableAlignedToOne_Version0 ::
    "env \<Rightarrow> byte \<Rightarrow> simply_assignable_aligned_to_one0 \<Rightarrow> sdata \<Rightarrow> status \<times> sdata" where
  "serialize_SimplyAssignableAlignedToOne_Version0 E pad value =
     csp_serialize_common E (SimplyAssignableAlignedToOne_Version0_type (big_endian E)) toOldStruct value (\<lambda>ctx.
       run (serialize_TwoInts E pad (ao0_ti value) ctx) (\<lambda>ctx. (NoError, ctx)))"

definition deserialize_SimplyAssignableAlignedToOne_Version0 ::
    "env \<Rightarrow> byte \<Rightarrow> ddata \<Rightarrow> simply_assignable_aligned_to_one0 \<Rightarrow> status \<times> ddata \<times> simply_assignable_aligned_to_one0" where
  "deserialize_SimplyAssignableAlignedToOne_Version0 E pad =
     csp_deserialize_common E (SimplyAssignableAlignedToOne_Version0_type (big_endian E)) fromOldStruct (\<lambda>ctx value.
       run_out (deserialize_TwoInts E pad ctx (ao0_ti value)) SimplyAssignableAlignedToOne_Version0 (\<lambda>ctx t.
         (NoError, ctx, SimplyAssignableAlignedToOne_Version0 t)))"

text \<open>\<open>SimplyAssignableAlignedToOne_Version1\<close> declares version 0 but has no conversion to it.\<close>

definition serialize_SimplyAssignableAlignedToOne_Version1 ::
    "env \<Rightarrow> simply_assignable_aligned_to_one1 \<Rightarrow> sdata \<Rightarrow> status \<times> sdata" where
  "serialize_SimplyAssignableAlignedToOne_Version1 E value =
     csp_serialize_common E (SimplyAssignableAlignedToOne_Version1_type (big_endian E)) toOldStruct value (\<lambda>ctx.
       run (serialize_scalar E False False (ao1_x value) ctx) (\<lambda>ctx.
       run (serialize_scalar E False False (ao1_y value) ctx) (\<lambda>ctx. (NoError, ctx))))"

definition deserialize_SimplyAssignableAlignedToOne_Version1 ::
    "env \<Rightarrow> ddata \<Rightarrow> simply_assignable_aligned_to_one1 \<Rightarrow> status \<times> ddata \<times> simply_assignable_aligned_to_one1" where
  "deserialize_SimplyAssignableAlignedToOne_Version1 E =
     csp_deserialize_common E (SimplyAssignableAlignedToOne_Version1_type (big_endian E)) fromOldStruct (\<lambda>ctx value.
       run_out (deserialize_scalar E False False False ctx (ao1_x value)) (\<lambda>x. SimplyAssignableAlignedToOne_Version1 x (ao1_y value)) (\<lambda>ctx x.
       run_out (deserialize_scalar E False False False ctx (ao1_y value)) (SimplyAssignableAlignedToOne_Version1 x) (\<lambda>ctx y.
         (NoError, ctx, SimplyAssignableAlignedToOne_Version1 x y))))"

datatype aligned_to_one_object =
  AlignedToOne simply_assignable_aligned_to_one | AlignedToOne1 simply_assignable_aligned_to_one1
| AlignedToOne0 simply_assignable_aligned_to_one0

definition SimplyAssignableAlignedToOne_class1 :: "env \<Rightarrow> aligned_to_one_object version_class" where
  "SimplyAssignableAlignedToOne_class1 E =
     \<lparr>vc_privateVersion = getLatestPrivateVersion (SimplyAssignableAlignedToOne_Version1_info (big_endian E)),
      vc_elem = ctor_elem 4 id, vc_default = AlignedToOne1 (SimplyAssignableAlignedToOne_Version1 0 0),
      vc_init = (\<lambda>old from. case (old, from) of
          (AlignedToOne1 old, AlignedToOne rhs) \<Rightarrow> map_prod id AlignedToOne1 (SimplyAssignableAlignedToOne_Version1_init old rhs)
        | (AlignedToOne1 old, AlignedToOne0 rhs) \<Rightarrow> map_prod id AlignedToOne1 (SimplyAssignableAlignedToOne_Version1_initFrom0 old rhs)
        | _ \<Rightarrow> (ErrorInternal, old)),
      vc_serialize = (\<lambda>x ctx. case x of
          AlignedToOne1 v \<Rightarrow> serialize_SimplyAssignableAlignedToOne_Version1 E v ctx | _ \<Rightarrow> (ErrorInternal, ctx)),
      vc_deserialize = (\<lambda>ctx x. case x of
          AlignedToOne1 v \<Rightarrow> (let (st, ctx, v) = deserialize_SimplyAssignableAlignedToOne_Version1 E ctx v in (st, ctx, AlignedToOne1 v))
        | _ \<Rightarrow> (ErrorInternal, ctx, x))\<rparr>"

definition SimplyAssignableAlignedToOne_class0 :: "env \<Rightarrow> byte \<Rightarrow> aligned_to_one_object version_class" where
  "SimplyAssignableAlignedToOne_class0 E pad =
     \<lparr>vc_privateVersion = getLatestPrivateVersion (SimplyAssignableAlignedToOne_Version0_info (big_endian E)),
      vc_elem = ctor_elem 4 id, vc_default = AlignedToOne0 (SimplyAssignableAlignedToOne_Version0 (TwoInts 0 0)),
      vc_init = (\<lambda>old from. case (old, from) of
          (AlignedToOne0 old, AlignedToOne1 rhs) \<Rightarrow> map_prod id AlignedToOne0 (SimplyAssignableAlignedToOne_Version0_init old rhs)
        | _ \<Rightarrow> (ErrorInternal, old)),
      vc_serialize = (\<lambda>x ctx. case x of
          AlignedToOne0 v \<Rightarrow> serialize_SimplyAssignableAlignedToOne_Version0 E pad v ctx | _ \<Rightarrow> (ErrorInternal, ctx)),
      vc_deserialize = (\<lambda>ctx x. case x of
          AlignedToOne0 v \<Rightarrow> (let (st, ctx, v) = deserialize_SimplyAssignableAlignedToOne_Version0 E pad ctx v in (st, ctx, AlignedToOne0 v))
        | _ \<Rightarrow> (ErrorInternal, ctx, x))\<rparr>"

definition SimplyAssignableAlignedToOne_to_init ::
    "aligned_to_one_object \<Rightarrow> aligned_to_one_object \<Rightarrow> status \<times> aligned_to_one_object" where
  "SimplyAssignableAlignedToOne_to_init to from =
     (case (to, from) of
        (AlignedToOne old, AlignedToOne1 rhs) \<Rightarrow> map_prod id AlignedToOne (SimplyAssignableAlignedToOne_init old rhs)
      | _ \<Rightarrow> (ErrorInternal, to))"

definition toOldStruct_SimplyAssignableAlignedToOne ::
    "env \<Rightarrow> byte \<Rightarrow> simply_assignable_aligned_to_one \<Rightarrow> u32 \<Rightarrow> sdata \<Rightarrow> status \<times> sdata" where
  "toOldStruct_SimplyAssignableAlignedToOne E pad =
     convert_to_old E [SimplyAssignableAlignedToOne_class1 E, SimplyAssignableAlignedToOne_class0 E pad] AlignedToOne"

definition aligned_to_one_current :: "aligned_to_one_object \<Rightarrow> simply_assignable_aligned_to_one" where
  "aligned_to_one_current x = (case x of AlignedToOne v \<Rightarrow> v | _ \<Rightarrow> SimplyAssignableAlignedToOne 0 0)"

text \<open>The current struct has an \<open>init\<close> from version 1 only.\<close>

definition fromOldStruct_SimplyAssignableAlignedToOne ::
    "env \<Rightarrow> byte \<Rightarrow> ddata \<Rightarrow> u32 \<Rightarrow> simply_assignable_aligned_to_one \<Rightarrow> status \<times> ddata \<times> simply_assignable_aligned_to_one" where
  "fromOldStruct_SimplyAssignableAlignedToOne E pad =
     convert_from_old E (\<lambda>V. vc_privateVersion V = vc_privateVersion (SimplyAssignableAlignedToOne_class1 E))
       SimplyAssignableAlignedToOne_to_init
       [SimplyAssignableAlignedToOne_class0 E pad, SimplyAssignableAlignedToOne_class1 E] AlignedToOne aligned_to_one_current"

definition serialize_SimplyAssignableAlignedToOne ::
    "env \<Rightarrow> byte \<Rightarrow> simply_assignable_aligned_to_one \<Rightarrow> sdata \<Rightarrow> status \<times> sdata" where
  "serialize_SimplyAssignableAlignedToOne E pad value =
     csp_serialize_common E (SimplyAssignableAlignedToOne_type (big_endian E))
       (toOldStruct_SimplyAssignableAlignedToOne E pad) value (\<lambda>ctx.
       run (serialize_scalar E False False (ao_x value) ctx) (\<lambda>ctx.
       run (serialize_scalar E False False (ao_y value) ctx) (\<lambda>ctx. (NoError, ctx))))"

definition deserialize_SimplyAssignableAlignedToOne ::
    "env \<Rightarrow> byte \<Rightarrow> ddata \<Rightarrow> simply_assignable_aligned_to_one \<Rightarrow> status \<times> ddata \<times> simply_assignable_aligned_to_one" where
  "deserialize_SimplyAssignableAlignedToOne E pad =
     csp_deserialize_common E (SimplyAssignableAlignedToOne_type (big_endian E))
       (fromOldStruct_SimplyAssignableAlignedToOne E pad) (\<lambda>ctx value.
       run_out (deserialize_scalar E False False False ctx (ao_x value)) (\<lambda>x. SimplyAssignableAlignedToOne x (ao_y value)) (\<lambda>ctx x.
       run_out (deserialize_scalar E False False False ctx (ao_y value)) (SimplyAssignableAlignedToOne x) (\<lambda>ctx y.
         (NoError, ctx, SimplyAssignableAlignedToOne x y))))"

section \<open>The values of the tests\<close>

text \<open>\<open>fill\<close> of the structs: what the tests send, and what they expect of the old versions.\<close>

definition AlwaysSimplyAssignable_fill :: always_simply_assignable where
  "AlwaysSimplyAssignable_fill = AlwaysSimplyAssignable 210 115"

definition AlwaysSimplyAssignable_Version0_fill :: always_simply_assignable0 where
  "AlwaysSimplyAssignable_Version0_fill = AlwaysSimplyAssignable_Version0 211 117"

definition SimplyAssignableFixedSize_fill :: simply_assignable_fixed_size where
  "SimplyAssignableFixedSize_fill = SimplyAssignableFixedSize 178 AlwaysSimplyAssignable_fill
     [AlwaysSimplyAssignable 30 132, AlwaysSimplyAssignable 88 53, AlwaysSimplyAssignable 159 227]"

definition SimplyAssignableFixedSize_Version1_fill :: simply_assignable_fixed_size1 where
  "SimplyAssignableFixedSize_Version1_fill = SimplyAssignableFixedSize_Version1 179 AlwaysSimplyAssignable_Version0_fill
     [AlwaysSimplyAssignable_Version0 31 134, AlwaysSimplyAssignable_Version0 89 55, AlwaysSimplyAssignable_Version0 160 229]"

definition TwoInts_fill :: two_ints where
  "TwoInts_fill = TwoInts 3 4"

definition SimplyAssignableAlignedToOne_fill :: simply_assignable_aligned_to_one where
  "SimplyAssignableAlignedToOne_fill = SimplyAssignableAlignedToOne 3 4"

definition SimplyAssignableAlignedToOne_Version0_fill :: simply_assignable_aligned_to_one0 where
  "SimplyAssignableAlignedToOne_Version0_fill = SimplyAssignableAlignedToOne_Version0 TwoInts_fill"

end
