(* ===== verification/VersionCodec.thy ===== *)
theory VersionCodec
  imports Messages VersionedStructs
begin

text \<open>
  That structs with old versions reach older and newer parties: the conversions keep the contract
  of writing and reading at every version of the interface, for bodies and for whole messages.
\<close>

section \<open>Conversion chains\<close>

text \<open>The temporary objects that a conversion puts on the heap.\<close>

definition chain_ok :: "env \<Rightarrow> 'o version_class \<Rightarrow> bool" where
  "chain_ok E V \<longleftrightarrow> heap_object E V = Some (vc_default V) \<or> heap_object E V = None \<and> memory_out E"

lemma chain_okI:
  assumes "vc_elem V = ctor_elem (Suc k) id" "Suc k < 2 ^ 32"
  shows "chain_ok E V"
proof -
  have "(2 :: nat) ^ 32 < 2 ^ 64" by simp
  then have "Suc k mod 2 ^ 64 = Suc k" using assms(2) by (intro mod_less) linarith
  then have "unat (1 * of_nat (Suc k) :: size_t) = Suc k" by (simp add: unat_of_nat del: of_nat_Suc)
  then show ?thesis
    using assms
    by (auto simp: chain_ok_def heap_object_def ctor_elem_def allocateAndConstruct_def generic_allocate_def memory_out_def
      noexcept_allocate_def heap_allocate_def constructN_def write_cells_def)
qed

lemma emits_no_memory:
  assumes "memory_out E" "\<And>b. f (c\<lparr>m_binaryData := b\<rparr>) = (ErrorNoMemory, c\<lparr>m_binaryData := b\<rparr>)"
  shows "emits E f xs c"
  unfolding emits_def
proof (intro allI impI)
  fix b :: "byte vec" and bs
  assume "vec_rep b bs \<and> length bs + length xs < 2 ^ 63"
  then have "vec_rep b (bs @ take 0 xs)" by simp
  with assms show "\<exists>st b'. f (c\<lparr>m_binaryData := b\<rparr>) = (st, c\<lparr>m_binaryData := b'\<rparr>) \<and>
      (st = NoError \<and> vec_rep b' (bs @ xs) \<or> st = ErrorNoMemory \<and> memory_out E \<and> (\<exists>i. vec_rep b' (bs @ take i xs)))" by blast
qed

lemma reads_no_memory:
  "\<lbrakk>memory_out E; \<And>w. f (d\<lparr>m_binaryData := w\<rparr>) = (ErrorNoMemory, d\<lparr>m_binaryData := w\<rparr>, v)\<rbrakk> \<Longrightarrow> reads E f xs d R"
  by (rule readsI) blast

lemma emits_toVersion:
  assumes V: "chain_ok E V" "vc_init V (vc_default V) from = (NoError, x)"
    and s: "vc_privateVersion V \<le> target \<Longrightarrow> emits E (vc_serialize V x) xs c"
    and n: "target < vc_privateVersion V \<Longrightarrow> emits E (toVersion_convert E Vs target x) xs c"
  shows "emits E (toVersion_convert E (V # Vs) target from) xs c"
proof -
  let ?g = "\<lambda>c. if heap_object E V = None \<and> m_forTempUseHeap c then (ErrorNoMemory, c)
      else if target < vc_privateVersion V then toVersion_convert E Vs target x c else vc_serialize V x c"
  have "toVersion_convert E (V # Vs) target from d = ?g d" for d
    using V by (auto simp: chain_ok_def toVersion_convert_def)
  moreover have "emits E ?g xs c"
  proof (cases "heap_object E V = None \<and> m_forTempUseHeap c")
    case True
    then have "memory_out E" using V(1) by (auto simp: chain_ok_def)
    then show ?thesis by (rule emits_no_memory) (simp add: True)
  next
    case False
    then show ?thesis
      using s n
      by (subst emits_cong [where g = "if target < vc_privateVersion V then toVersion_convert E Vs target x else vc_serialize V x"])
         (auto simp: not_less)
  qed
  ultimately show ?thesis by (subst emits_cong [where g = ?g]) simp_all
qed

lemma upper_heap:
  assumes "\<forall>B \<in> set Bs. chain_ok E B"
  shows "convertToUpperVersionOnHeap E initable to_init V Bs from to = convertToUpperVersionOnStack initable to_init V Bs from to
     \<or> memory_out E \<and> convertToUpperVersionOnHeap E initable to_init V Bs from to = (ErrorNoMemory, to)"
  using assms
proof (induction Bs arbitrary: V "from")
  case (Cons B Bs)
  then have B: "chain_ok E B" and IH: "\<And>V from. convertToUpperVersionOnHeap E initable to_init V Bs from to
      = convertToUpperVersionOnStack initable to_init V Bs from to
     \<or> memory_out E \<and> convertToUpperVersionOnHeap E initable to_init V Bs from to = (ErrorNoMemory, to)" by simp_all
  show ?case
  proof (cases "heap_object E B")
    case None
    then show ?thesis using B by (auto simp: chain_ok_def)
  next
    case (Some y)
    then have y: "y = vc_default B" using B by (simp add: chain_ok_def)
    show ?thesis using IH by (cases "vc_init B (vc_default B) from") (simp add: Some y)
  qed
qed simp

lemma reads_fromVersion_skip:
  assumes "base_privateVersion Vs \<le> target"
    and "reads E (\<lambda>d. fromVersion_convert E initable to_init target Vs d to) xs d R"
  shows "reads E (\<lambda>d. fromVersion_convert E initable to_init target (V # Vs) d to) xs d R"
  using assms by simp

lemma reads_fromVersion:
  assumes V: "\<forall>B \<in> set (V # Vs). chain_ok E B" and b: "\<not> base_privateVersion Vs \<le> target"
    and d: "reads E (\<lambda>d. vc_deserialize V d (vc_default V)) xs d Q"
    and u: "\<And>x. Q x \<Longrightarrow> \<exists>y. convertToUpperVersionOnStack initable to_init V Vs x to = (NoError, y) \<and> R y"
  shows "reads E (\<lambda>d. fromVersion_convert E initable to_init target (V # Vs) d to) xs d R"
proof -
  let ?up = "\<lambda>heap x. if heap then convertToUpperVersionOnHeap E initable to_init V Vs x to
      else convertToUpperVersionOnStack initable to_init V Vs x to"
  let ?g = "\<lambda>d. if heap_object E V = None \<and> m_forTempUseHeap d then (ErrorNoMemory, d, to)
      else run_out (vc_deserialize V d (vc_default V)) (\<lambda>_. to) (\<lambda>d' x. let (st, to) = ?up (m_forTempUseHeap d) x in (st, d', to))"
  have e: "fromVersion_convert E initable to_init target (V # Vs) d to = ?g d" for d
    using V b by (auto simp: chain_ok_def)
  show ?thesis
  proof (cases "heap_object E V = None \<and> m_forTempUseHeap d")
    case True
    then have "memory_out E" using V by (auto simp: chain_ok_def)
    then show ?thesis unfolding e by (rule reads_no_memory) (simp add: True)
  next
    case False
    have "reads E (\<lambda>d'. let (st, to) = ?up (m_forTempUseHeap d) x in (st, d', to)) [] d R" if "Q x" for x
    proof -
      have "\<forall>B \<in> set Vs. chain_ok E B" using V by simp
      from upper_heap [OF this, of initable to_init V x to] u [OF that] show ?thesis
        by (intro readsI) auto
    qed
    then have "reads E (\<lambda>d'. run_out (vc_deserialize V d' (vc_default V)) (\<lambda>_. to)
        (\<lambda>d' x. let (st, to) = ?up (m_forTempUseHeap d) x in (st, d', to))) (xs @ []) d R"
      by (rule reads_run_out [OF d])
    with False show ?thesis
      unfolding e by (subst reads_cong [where g = "\<lambda>d'. run_out (vc_deserialize V d' (vc_default V)) (\<lambda>_. to)
          (\<lambda>d' x. let (st, to) = ?up (m_forTempUseHeap d) x in (st, d', to))"]) auto
  qed
qed

section \<open>Structs in an old form\<close>

text \<open>A mode in which a struct goes as its version \<open>pv\<close>, not the latest one.\<close>

definition old_form :: "struct_info \<Rightarrow> mode \<Rightarrow> u32 \<Rightarrow> bool" where
  "old_form T md pv \<longleftrightarrow> getBestCompatInterfaceVersion T (md_interfaceVersion md) = pv
     \<and> pv \<noteq> getLatestPrivateVersion T \<and> pv \<noteq> kInterfaceVersionUndefined"

lemma emits_old_struct:
  assumes "t_info T = Some i" "m_interfaceVersionsNotMatch c" "old_form i (mode_of c) pv"
    and "emits E (toVersion_convert E Vs pv (inject v)) xs c"
  shows "emits E (csp_serialize_common E T (convert_to_old E Vs inject) v rest) xs c"
proof -
  have "csp_serialize_common E T (convert_to_old E Vs inject) v rest (c\<lparr>m_binaryData := b\<rparr>)
      = (let (st, ctx) = run (toVersion_convert E Vs pv (inject v) (c\<lparr>m_binaryData := b\<rparr>)) (\<lambda>ctx. (NoFurtherProcessingRequired, ctx))
         in if st = NoFurtherProcessingRequired then (NoError, ctx)
            else if \<not> statusSuccess st then (st, ctx)
            else run (testDataFlagsCompatibility (t_info T) (m_dataFlags ctx), ctx) (serialize_any_simply_assignable E T v rest))" for b
    using assms(1-3) by (simp add: csp_serialize_common_def toOldStructIfNeed_def old_form_def mode_of_def convert_to_old_def)
  note e = this
  show ?thesis
  proof (rule emitsI)
    fix b :: "byte vec" and bs
    assume "vec_rep b bs" "length bs + length xs < 2 ^ 63"
    from assms(4) this show "\<exists>st b'. csp_serialize_common E T (convert_to_old E Vs inject) v rest (c\<lparr>m_binaryData := b\<rparr>)
        = (st, c\<lparr>m_binaryData := b'\<rparr>) \<and>
        (st = NoError \<and> vec_rep b' (bs @ xs) \<or> st = ErrorNoMemory \<and> memory_out E \<and> (\<exists>i. vec_rep b' (bs @ take i xs)))"
    proof (cases rule: emitsE)
      case (no_memory b' i)
      then show ?thesis by (intro exI [of _ ErrorNoMemory] exI [of _ b']) (auto simp: e run_simps)
    qed (auto simp: e run_simps)
  qed
qed

lemma reads_old_struct:
  assumes "t_info T = Some i" "m_interfaceVersionsNotMatch d" "old_form i (mode_of d) pv"
    and "reads E (\<lambda>d. fromVersion_convert E initable to_init pv Vs d (inject old)) xs d (\<lambda>x. R (project x))"
  shows "reads E (\<lambda>d. csp_deserialize_common E T (convert_from_old E initable to_init Vs inject project) rest d old) xs d R"
proof -
  have e: "csp_deserialize_common E T (convert_from_old E initable to_init Vs inject project) rest (d\<lparr>m_binaryData := w\<rparr>) old
      = (let (st, ctx, v) = run_out (fromVersion_convert E initable to_init pv Vs (d\<lparr>m_binaryData := w\<rparr>) (inject old)) project
             (\<lambda>ctx x. (NoFurtherProcessingRequired, ctx, project x))
         in if st = NoFurtherProcessingRequired then (NoError, ctx, v)
            else if \<not> statusSuccess st then (st, ctx, v)
            else run_out (testDataFlagsCompatibility (t_info T) (m_dataFlags ctx), ctx, v) id (deserialize_any_simply_assignable E T rest))" for w
    using assms(1-3) by (simp add: csp_deserialize_common_def fromOldStructIfNeed_def old_form_def mode_of_def convert_from_old_def)
  show ?thesis
  proof (rule readsI)
    fix w bs k
    assume w: "walker_rep w bs k" "length bs < 2 ^ 62" "length xs \<le> length bs - k" "take (length xs) (drop k bs) = xs"
    from assms(4) w show "\<exists>st w' v. csp_deserialize_common E T (convert_from_old E initable to_init Vs inject project) rest
         (d\<lparr>m_binaryData := w\<rparr>) old = (st, d\<lparr>m_binaryData := w'\<rparr>, v) \<and>
        (st = NoError \<and> walker_rep w' bs (k + length xs) \<and> R v \<or> st = ErrorNoMemory \<and> memory_out E)"
      by (cases rule: readsE) (auto simp: e run_simps)
  qed
qed

section \<open>Pairs of integers\<close>

lemma emits_two_scalars:
  assumes "LENGTH('a::len) \<in> {8, 16, 32, 64}" "LENGTH('b::len) \<in> {8, 16, 32, 64}" "body_ctx E c"
  shows "emits E (\<lambda>ctx. run (serialize_scalar E False False (a :: 'a word) ctx) (\<lambda>ctx.
       run (serialize_scalar E False False (b :: 'b word) ctx) (\<lambda>ctx. (NoError, ctx))))
     (enc_scalar False False (mode_of c) a @ enc_scalar False False (mode_of c) b) c"
  using assms by (intro emits_run emits_run_done emits_scalar refl)

lemma reads_two_scalars:
  assumes "LENGTH('a::len) \<in> {8, 16, 32, 64}" "LENGTH('b::len) \<in> {8, 16, 32, 64}" "body_ctx E d"
  shows "reads E (\<lambda>ctx. run_out (deserialize_scalar E False False False ctx (x :: 'a word)) f (\<lambda>ctx x.
       run_out (deserialize_scalar E False False False ctx (y :: 'b word)) (g x) (\<lambda>ctx y. (NoError, ctx, h x y))))
     (enc_scalar False False (mode_of d) a @ enc_scalar False False (mode_of d) b) d (\<lambda>v. v = h a b)"
  by (intro reads_run_out [OF reads_scalar [OF assms(1,3)]] reads_run_out_done [OF reads_scalar [OF assms(2,3)]]) simp_all

section \<open>The contract of the structs\<close>

text \<open>
  A struct in its latest form: the copy of its octets where its tag allows it, else its members,
  \<open>enc\<close>; \<open>good\<close> holds of its well-formed objects.
\<close>

definition enc_struct :: "bool \<Rightarrow> 'a ctype \<Rightarrow> (mode \<Rightarrow> 'a \<Rightarrow> byte list) \<Rightarrow> mode \<Rightarrow> 'a \<Rightarrow> byte list" where
  "enc_struct be T enc md v = (if copies_mode T md then t_octets T be v else enc md v)"

lemma struct_codecI:
  assumes T: "t_info T = Some i" "\<not> t_integralOrEnum T" "\<not> t_floating T" "0 < t_sizeof T" "t_sizeof T < 2 ^ 64"
    and o: "\<And>md v. \<lbrakk>copies_mode T md; good v\<rbrakk> \<Longrightarrow> length (t_octets T (big_endian E) v) = t_sizeof T
      \<and> t_of_octets T (big_endian E) (t_octets T (big_endian E) v) = v"
    and w: "\<And>c v. \<lbrakk>body_ctx E c; latest_form i (mode_of c); good v\<rbrakk> \<Longrightarrow> emits E (restw v) (enc (mode_of c) v) c"
    and r: "\<And>d old v. \<lbrakk>body_ctx E d; latest_form i (mode_of d); good old; good v\<rbrakk> \<Longrightarrow>
      reads E (\<lambda>d. restr d old) (enc (mode_of d) v) d (\<lambda>x. x = v)"
  shows "codec E (=) good (\<lambda>md v. latest_form i md \<and> good v) (enc_struct (big_endian E) T enc)
     (\<lambda>v. csp_serialize_common E T toOld v (restw v)) (csp_deserialize_common E T fromOld restr)"
proof
  fix c :: sdata and x m
  assume c: "body_ctx E c" "x = m" "latest_form i (mode_of c) \<and> good m"
  then show "emits E (csp_serialize_common E T toOld x (restw x)) (enc_struct (big_endian E) T enc (mode_of c) m) c"
    using emits_struct [where rest = "restw m" and xs = "enc_struct (big_endian E) T enc (mode_of c) m" and v = m and toOld = toOld,
        OF c(1) T(1) _ T(2,3) _ T(4,5)] o [of "mode_of c" m] w [of c m]
    by (auto simp: enc_struct_def)
next
  fix d :: ddata and old m
  assume d: "body_ctx E d" "good old" "latest_form i (mode_of d) \<and> good m"
  have n: "copies_mode T (mode_of d) \<Longrightarrow> t_octets T (big_endian E) m \<noteq> []"
    using o [of "mode_of d" m] d(3) T(4) by fastforce
  show "reads E (\<lambda>d. csp_deserialize_common E T fromOld restr d old) (enc_struct (big_endian E) T enc (mode_of d) m) d (\<lambda>x. x = m)"
    using o [of "mode_of d" m] o [OF _ d(2), of "mode_of d"] r [OF d(1) _ d(2), of m] d(3) n
    by (intro reads_struct [OF d(1) T(1) _ T(2,3)]) (auto simp: enc_struct_def)
qed

text \<open>Arrays of such a struct.\<close>

lemma struct_array_codecI:
  assumes c: "codec E (=) good (\<lambda>md v. latest_form i md \<and> good v) (enc_struct (big_endian E) T enc) ser des"
    and T: "\<not> t_integralOrEnum T" "\<not> t_empty T" "good (t_default T)" "t_sizeof T = Suc k"
    and o: "\<And>be v. length (t_octets T be v) = t_sizeof T" "\<And>v. t_of_octets T (big_endian E) (t_octets T (big_endian E) v) = v"
  shows "array_codec E (=) good (\<lambda>md v. latest_form i md \<and> good v) (enc_struct (big_endian E) T enc) ser des T
     (ctor_elem (Suc k) id) (t_octets T (big_endian E))"
proof (intro array_codec.intro array_codec_axioms.intro)
  show "codec E (=) good (\<lambda>md m. (latest_form i md \<and> good m) \<and> \<not> copies_mode T md) (enc_struct (big_endian E) T enc) ser des"
    using c by (rule codec_restrict)
  show "movable_type (ctor_elem (Suc k) id :: 'a elem)" by (rule cls.movable_type_axioms)
qed (use T o in \<open>auto simp: ctor_elem_def\<close>)

lemma struct_type_simps [simp]:
  "t_sizeof (struct_type sz info dflt octets of_octets) = sz" "\<not> t_integralOrEnum (struct_type sz info dflt octets of_octets)"
  "\<not> t_floating (struct_type sz info dflt octets of_octets)" "\<not> t_empty (struct_type sz info dflt octets of_octets)"
  "t_info (struct_type sz info dflt octets of_octets) = info" "t_default (struct_type sz info dflt octets of_octets) = dflt"
  "t_octets (struct_type sz info dflt octets of_octets) = octets" "t_of_octets (struct_type sz info dflt octets of_octets) = of_octets"
  by (simp_all add: struct_type_def)

lemma struct_type_copies [simp]: "\<not> copies_mode (struct_type sz info dflt octets of_octets) md"
  by (simp add: struct_type_def copies_mode_def)

lemma always_octets_simps [simp]:
  "length (always_octets v) = 2" "always_of_octets (always_octets v) = v"
  "length (always0_octets be w) = 4" "always0_of_octets be (always0_octets be w) = w"
  by (cases v; cases w; simp add: always_octets_def always_of_octets_def always0_octets_def always0_of_octets_def obj_value_bytes)+

definition enc_always :: "mode \<Rightarrow> always_simply_assignable \<Rightarrow> byte list" where
  "enc_always md v = enc_scalar False False md (as_x v) @ enc_scalar False False md (as_y v)"

definition enc_always0 :: "mode \<Rightarrow> always_simply_assignable0 \<Rightarrow> byte list" where
  "enc_always0 md v = enc_scalar False False md (as_xx v) @ enc_scalar False False md (as_yy v)"

lemma AlwaysSimplyAssignable_codec:
  "codec E (=) (\<lambda>_. True) (\<lambda>md v. latest_form (AlwaysSimplyAssignable_info (big_endian E)) md \<and> True)
     (enc_struct (big_endian E) (AlwaysSimplyAssignable_type (big_endian E)) enc_always)
     (serialize_AlwaysSimplyAssignable E) (deserialize_AlwaysSimplyAssignable E)"
  unfolding serialize_AlwaysSimplyAssignable_def deserialize_AlwaysSimplyAssignable_def enc_always_def
  by (rule struct_codecI [where good = "\<lambda>_. True"]) (auto simp: AlwaysSimplyAssignable_type_def intro!: emits_two_scalars reads_weaken [OF reads_two_scalars])

lemma AlwaysSimplyAssignable_Version0_codec:
  "codec E (=) (\<lambda>_. True) (\<lambda>md v. latest_form (AlwaysSimplyAssignable_Version0_info (big_endian E)) md \<and> True)
     (enc_struct (big_endian E) (AlwaysSimplyAssignable_Version0_type (big_endian E)) enc_always0)
     (serialize_AlwaysSimplyAssignable_Version0 E) (deserialize_AlwaysSimplyAssignable_Version0 E)"
  unfolding serialize_AlwaysSimplyAssignable_Version0_def deserialize_AlwaysSimplyAssignable_Version0_def enc_always0_def
  by (rule struct_codecI [where good = "\<lambda>_. True"])
     (auto simp: AlwaysSimplyAssignable_Version0_type_def intro!: emits_two_scalars reads_weaken [OF reads_two_scalars])

interpretation always: codec E "(=)" "\<lambda>_. True" "\<lambda>md _. latest_form (AlwaysSimplyAssignable_info (big_endian E)) md \<and> True"
    "enc_struct (big_endian E) (AlwaysSimplyAssignable_type (big_endian E)) enc_always"
    "serialize_AlwaysSimplyAssignable E" "deserialize_AlwaysSimplyAssignable E" for E
  by (rule AlwaysSimplyAssignable_codec)

interpretation always0: codec E "(=)" "\<lambda>_. True" "\<lambda>md _. latest_form (AlwaysSimplyAssignable_Version0_info (big_endian E)) md \<and> True"
    "enc_struct (big_endian E) (AlwaysSimplyAssignable_Version0_type (big_endian E)) enc_always0"
    "serialize_AlwaysSimplyAssignable_Version0 E" "deserialize_AlwaysSimplyAssignable_Version0 E" for E
  by (rule AlwaysSimplyAssignable_Version0_codec)

interpretation always_array: array_codec E "(=)" "\<lambda>_. True"
    "\<lambda>md _. latest_form (AlwaysSimplyAssignable_info (big_endian E)) md \<and> True"
    "enc_struct (big_endian E) (AlwaysSimplyAssignable_type (big_endian E)) enc_always"
    "serialize_AlwaysSimplyAssignable E" "deserialize_AlwaysSimplyAssignable E" "AlwaysSimplyAssignable_type (big_endian E)"
    "ctor_elem (Suc 1) id" "t_octets (AlwaysSimplyAssignable_type (big_endian E)) (big_endian E)" ds for E ds
  by (rule struct_array_codecI [OF AlwaysSimplyAssignable_codec]) (simp_all add: AlwaysSimplyAssignable_type_def)

interpretation always0_array: array_codec E "(=)" "\<lambda>_. True"
    "\<lambda>md _. latest_form (AlwaysSimplyAssignable_Version0_info (big_endian E)) md \<and> True"
    "enc_struct (big_endian E) (AlwaysSimplyAssignable_Version0_type (big_endian E)) enc_always0"
    "serialize_AlwaysSimplyAssignable_Version0 E" "deserialize_AlwaysSimplyAssignable_Version0 E"
    "AlwaysSimplyAssignable_Version0_type (big_endian E)"
    "ctor_elem (Suc 3) id" "t_octets (AlwaysSimplyAssignable_Version0_type (big_endian E)) (big_endian E)" ds for E ds
  by (rule struct_array_codecI [OF AlwaysSimplyAssignable_Version0_codec]) (simp_all add: AlwaysSimplyAssignable_Version0_type_def)

lemma tests_best:
  "length pvs < 2 ^ 32 \<Longrightarrow> getBestCompatInterfaceVersion (tests_info be kId iv pvs) n =
     (case find (\<lambda>v. v \<le> n) pvs of Some v \<Rightarrow> v | None \<Rightarrow> kInterfaceVersionUndefined)"
  by (simp add: getBestCompatInterfaceVersion_def getPrivateVersionsCount_def tests_info_def unat_of_nat_small)

lemma tests_info_simps [simp]:
  "getLatestPrivateVersion (tests_info be kId iv (pv # pvs)) = pv" "getLatestInterfaceVersion (tests_info be kId iv pvs) = iv"
  "getId (tests_info be kId iv pvs) = kId" "getInterface (tests_info be kId iv pvs) = tests_properties be"
  by (simp_all add: getLatestPrivateVersion_def getLatestInterfaceVersion_def getId_def getInterface_def tests_info_def)

lemma tests_flags:
  "testDataFlagsCompatibility (Some (tests_info be kId iv pvs)) = testDataFlagsCompatibility (Some (tests_info be' kId' iv' pvs'))"
  by (auto simp: fun_eq_iff testDataFlagsCompatibility_def getEffectiveMandatoryDataFlags_def getEffectiveForbiddenDataFlags_def
      tests_info_def tests_properties_def getInterface_def)

lemma tests_latest:
  "latest_form (tests_info be kId iv [pv]) md \<longleftrightarrow>
     (pv \<le> md_interfaceVersion md \<or> pv = kInterfaceVersionUndefined)
     \<and> testDataFlagsCompatibility (Some (tests_info be kId iv [pv])) (md_dataFlags md) = NoError"
  "pv' < pv \<Longrightarrow> latest_form (tests_info be kId iv [pv, pv']) md \<longleftrightarrow>
     (pv \<le> md_interfaceVersion md \<or> pv = kInterfaceVersionUndefined \<and> \<not> pv' \<le> md_interfaceVersion md)
     \<and> testDataFlagsCompatibility (Some (tests_info be kId iv [pv, pv'])) (md_dataFlags md) = NoError"
  by (auto simp: latest_form_def tests_best)

lemma member_latest:
  "latest_form (SimplyAssignableFixedSize_info be) md \<Longrightarrow> latest_form (AlwaysSimplyAssignable_info be') md"
  "latest_form (SimplyAssignableFixedSize_Version1_info be) md \<Longrightarrow> latest_form (AlwaysSimplyAssignable_Version0_info be') md"
  using tests_flags [of be "SimplyAssignableFixedSize_id be" 2 "[2, 1]" be' "AlwaysSimplyAssignable_id be'" 2 "[2, 0]"]
    tests_flags [of be "SimplyAssignableFixedSize_id be" 1 "[1]" be' "AlwaysSimplyAssignable_id be'" 0 "[0]"]
  by (simp_all add: SimplyAssignableFixedSize_info_def AlwaysSimplyAssignable_info_def tests_latest kInterfaceVersionUndefined_def
      SimplyAssignableFixedSize_Version1_info_def AlwaysSimplyAssignable_Version0_info_def)

definition good_fixed :: "simply_assignable_fixed_size \<Rightarrow> bool" where
  "good_fixed v \<longleftrightarrow> length (fs_arrAsa v) = 3"

definition good_fixed1 :: "simply_assignable_fixed_size1 \<Rightarrow> bool" where
  "good_fixed1 v \<longleftrightarrow> length (fs1_arrAsa v) = 3"

definition enc_fixed :: "env \<Rightarrow> mode \<Rightarrow> simply_assignable_fixed_size \<Rightarrow> byte list" where
  "enc_fixed E md v = enc_scalar False False md (fs_x v)
     @ enc_struct (big_endian E) (AlwaysSimplyAssignable_type (big_endian E)) enc_always md (fs_asa v)
     @ always_array.enc_array E md (fs_arrAsa v)"

definition enc_fixed1 :: "env \<Rightarrow> mode \<Rightarrow> simply_assignable_fixed_size1 \<Rightarrow> byte list" where
  "enc_fixed1 E md v = enc_scalar False False md (fs_xx v)
     @ enc_struct (big_endian E) (AlwaysSimplyAssignable_Version0_type (big_endian E)) enc_always0 md (fs1_asa v)
     @ always0_array.enc_array E md (fs1_arrAsa v)"

text \<open>An array of three in a struct.\<close>

lemma three: "length xs = 3 \<longleftrightarrow> (\<exists>a b c. xs = [a, b, c])"
  by (auto simp: numeral_3_eq_3 length_Suc_conv)

context array_codec
begin

lemma emits_member_array:
  assumes "body_ctx E c" "list_all2 rep xs ms" "\<forall>m \<in> set ms. ok (mode_of c) m" "length ms = 3" "t_sizeof T < 2 ^ 32"
  shows "emits E (\<lambda>ctx. run (serialize_array E T ser addr xs ctx) (\<lambda>ctx. (NoError, ctx))) (enc_array (mode_of c) ms) c"
  using assms by (intro emits_run_done emits_array) auto

lemma reads_member_array:
  assumes d: "body_ctx E d" "\<forall>m \<in> set ms. ok (mode_of d) m" and l: "length ms = 3" "length old = 3"
    and Q: "\<And>xs. list_all2 rep xs ms \<Longrightarrow> Q (g xs)"
  shows "reads E (\<lambda>d. run_out (deserialize_array E T des des_sized addr d 3 (Cells (map Obj old))) e (\<lambda>d p.
     (NoError, d, g (block_objects p)))) (enc_array (mode_of d) ms) d Q"
proof (rule reads_run_out_done)
  show "reads E (\<lambda>d. deserialize_array E T des des_sized addr d 3 (Cells (map Obj old))) (enc_array (mode_of d) ms) d
      (\<lambda>p. block_holds p (length ms) ms)"
    using reads_array [OF d, of 3 "Cells (map Obj old)" "map Obj old"] l by simp
qed (use Q block_objects_rep in blast)

end

lemma SimplyAssignableFixedSize_codec:
  "codec E (=) good_fixed (\<lambda>md v. latest_form (SimplyAssignableFixedSize_info (big_endian E)) md \<and> good_fixed v)
     (enc_struct (big_endian E) (SimplyAssignableFixedSize_type (big_endian E)) (enc_fixed E))
     (serialize_SimplyAssignableFixedSize E addr tmp) (deserialize_SimplyAssignableFixedSize E addr tmp)"
  unfolding serialize_SimplyAssignableFixedSize_def deserialize_SimplyAssignableFixedSize_def
proof (rule struct_codecI)
  let ?T = "SimplyAssignableFixedSize_type (big_endian E)"
  show "length (t_octets ?T (big_endian E) v) = t_sizeof ?T
      \<and> t_of_octets ?T (big_endian E) (t_octets ?T (big_endian E) v) = v" if "good_fixed v" for v
    using that by (cases v) (auto simp: SimplyAssignableFixedSize_type_def good_fixed_def three)
next
  fix c :: sdata and v
  assume c: "body_ctx E c" "latest_form (SimplyAssignableFixedSize_info (big_endian E)) (mode_of c)" "good_fixed v"
  then show "emits E (\<lambda>ctx. run (serialize_scalar E False False (fs_x v) ctx) (\<lambda>ctx.
       run (serialize_AlwaysSimplyAssignable E (fs_asa v) ctx) (\<lambda>ctx.
       run (serialize_array E (AlwaysSimplyAssignable_type (big_endian E)) (serialize_AlwaysSimplyAssignable E)
              addr (fs_arrAsa v) ctx) (\<lambda>ctx. (NoError, ctx))))) (enc_fixed E (mode_of c) v) c"
    using member_latest(1) [OF c(2)] unfolding enc_fixed_def good_fixed_def
    by (intro emits_run emits_scalar always.ser_emits always_array.emits_member_array) (simp_all add: list.rel_eq AlwaysSimplyAssignable_type_def)
next
  fix d :: ddata and old v
  assume d: "body_ctx E d" "latest_form (SimplyAssignableFixedSize_info (big_endian E)) (mode_of d)" "good_fixed old" "good_fixed v"
  then show "reads E (\<lambda>d. run_out (deserialize_scalar E False False False d (fs_x old))
         (\<lambda>x. SimplyAssignableFixedSize x (fs_asa old) (fs_arrAsa old)) (\<lambda>ctx x.
       run_out (deserialize_AlwaysSimplyAssignable E ctx (fs_asa old))
         (\<lambda>a. SimplyAssignableFixedSize x a (fs_arrAsa old)) (\<lambda>ctx a.
       run_out (deserialize_array E (AlwaysSimplyAssignable_type (big_endian E)) (deserialize_AlwaysSimplyAssignable E)
              (\<lambda>_ ctx x. (ErrorInternal, ctx, x)) addr ctx 3 (Cells (map Obj (fs_arrAsa old))))
         (\<lambda>p. SimplyAssignableFixedSize x a (block_objects p)) (\<lambda>ctx p.
         (NoError, ctx, SimplyAssignableFixedSize x a (block_objects p)))))) (enc_fixed E (mode_of d) v) d (\<lambda>x. x = v)"
    using member_latest(1) [OF d(2)] unfolding enc_fixed_def good_fixed_def
    by (intro reads_run_out [OF reads_scalar] reads_run_out [OF always.des_reads] always_array.reads_member_array)
      (simp_all add: list.rel_eq)
qed (simp_all add: SimplyAssignableFixedSize_type_def)

lemma SimplyAssignableFixedSize_Version1_codec:
  "codec E (=) good_fixed1 (\<lambda>md v. latest_form (SimplyAssignableFixedSize_Version1_info (big_endian E)) md \<and> good_fixed1 v)
     (enc_struct (big_endian E) (SimplyAssignableFixedSize_Version1_type (big_endian E)) (enc_fixed1 E))
     (serialize_SimplyAssignableFixedSize_Version1 E addr) (deserialize_SimplyAssignableFixedSize_Version1 E addr)"
  unfolding serialize_SimplyAssignableFixedSize_Version1_def deserialize_SimplyAssignableFixedSize_Version1_def
proof (rule struct_codecI)
  let ?T = "SimplyAssignableFixedSize_Version1_type (big_endian E)"
  show "length (t_octets ?T (big_endian E) v) = t_sizeof ?T
      \<and> t_of_octets ?T (big_endian E) (t_octets ?T (big_endian E) v) = v" if "good_fixed1 v" for v
    using that by (cases v) (auto simp: SimplyAssignableFixedSize_Version1_type_def good_fixed1_def three obj_value_bytes)
next
  fix c :: sdata and v
  assume c: "body_ctx E c" "latest_form (SimplyAssignableFixedSize_Version1_info (big_endian E)) (mode_of c)" "good_fixed1 v"
  then show "emits E (\<lambda>ctx. run (serialize_scalar E False False (fs_xx v) ctx) (\<lambda>ctx.
       run (serialize_AlwaysSimplyAssignable_Version0 E (fs1_asa v) ctx) (\<lambda>ctx.
       run (serialize_array E (AlwaysSimplyAssignable_Version0_type (big_endian E)) (serialize_AlwaysSimplyAssignable_Version0 E)
              addr (fs1_arrAsa v) ctx) (\<lambda>ctx. (NoError, ctx))))) (enc_fixed1 E (mode_of c) v) c"
    using member_latest(2) [OF c(2)] unfolding enc_fixed1_def good_fixed1_def
    by (intro emits_run emits_scalar always0.ser_emits always0_array.emits_member_array)
      (simp_all add: list.rel_eq AlwaysSimplyAssignable_Version0_type_def)
next
  fix d :: ddata and old v
  assume d: "body_ctx E d" "latest_form (SimplyAssignableFixedSize_Version1_info (big_endian E)) (mode_of d)"
    "good_fixed1 old" "good_fixed1 v"
  then show "reads E (\<lambda>d. run_out (deserialize_scalar E False False False d (fs_xx old))
         (\<lambda>x. SimplyAssignableFixedSize_Version1 x (fs1_asa old) (fs1_arrAsa old)) (\<lambda>ctx x.
       run_out (deserialize_AlwaysSimplyAssignable_Version0 E ctx (fs1_asa old))
         (\<lambda>a. SimplyAssignableFixedSize_Version1 x a (fs1_arrAsa old)) (\<lambda>ctx a.
       run_out (deserialize_array E (AlwaysSimplyAssignable_Version0_type (big_endian E)) (deserialize_AlwaysSimplyAssignable_Version0 E)
              (\<lambda>_ ctx x. (ErrorInternal, ctx, x)) addr ctx 3 (Cells (map Obj (fs1_arrAsa old))))
         (\<lambda>p. SimplyAssignableFixedSize_Version1 x a (block_objects p)) (\<lambda>ctx p.
         (NoError, ctx, SimplyAssignableFixedSize_Version1 x a (block_objects p)))))) (enc_fixed1 E (mode_of d) v) d (\<lambda>x. x = v)"
    using member_latest(2) [OF d(2)] unfolding enc_fixed1_def good_fixed1_def
    by (intro reads_run_out [OF reads_scalar] reads_run_out [OF always0.des_reads] always0_array.reads_member_array)
      (simp_all add: list.rel_eq)
qed (simp_all add: SimplyAssignableFixedSize_Version1_type_def)

section \<open>One old version\<close>

lemma reads_map:
  assumes "reads E f xs d (\<lambda>v. v = a)"
  shows "reads E (\<lambda>d. let (st, d, v) = f d in (st, d, g v)) xs d (\<lambda>y. y = g a)"
proof (rule readsI)
  fix w bs k
  assume "walker_rep w bs k" "length bs < 2 ^ 62" "length xs \<le> length bs - k" "take (length xs) (drop k bs) = xs"
  with assms show "\<exists>st w' v. (let (st, d, v) = f (d\<lparr>m_binaryData := w\<rparr>) in (st, d, g v)) = (st, d\<lparr>m_binaryData := w'\<rparr>, v)
      \<and> (st = NoError \<and> walker_rep w' bs (k + length xs) \<and> v = g a \<or> st = ErrorNoMemory \<and> memory_out E)"
    by (cases rule: readsE) auto
qed

lemma old_version_chain: "Suc k < 2 ^ 32 \<Longrightarrow> chain_ok E (old_version pv (Suc k) dflt ini ser des)"
  by (rule chain_okI) (simp_all add: old_version_def)

lemma emits_old_version:
  assumes "Suc k < 2 ^ 32" "ini dflt v = (NoError, w)" "emits E (ser w) xs c"
  shows "emits E (toVersion_convert E [old_version pv (Suc k) dflt ini ser des] pv (Inl v)) xs c"
  using assms(2,3)
  by (intro emits_toVersion [where x = "Inr w", OF old_version_chain [OF assms(1)]]) (simp_all add: old_version_def)

lemma reads_old_version:
  assumes "Suc k < 2 ^ 32" "reads E (\<lambda>d. des d dflt) xs d (\<lambda>x. x = w)" "cur old w = (NoError, y)" "R y"
    and "pv \<noteq> kInterfaceVersionUndefined"
  shows "reads E (\<lambda>d. fromVersion_convert E (\<lambda>_. True) (current_init cur) pv [old_version pv (Suc k) dflt ini ser des] d (Inl old))
     xs d (\<lambda>x. R (projl x))"
proof (rule reads_fromVersion)
  let ?V = "old_version pv (Suc k) dflt ini ser des"
  show "\<forall>B \<in> set [?V]. chain_ok E B" using old_version_chain [OF assms(1)] by simp
  show "\<not> base_privateVersion [] \<le> pv" using assms(5) undefined_is_greatest [of pv] by (auto simp: base_privateVersion_def)
  show "reads E (\<lambda>d. vc_deserialize ?V d (vc_default ?V)) xs d (\<lambda>x. x = Inr w)"
    using reads_map [OF assms(2), of Inr] by (simp add: old_version_def)
  show "\<exists>y. convertToUpperVersionOnStack (\<lambda>_. True) (current_init cur) ?V [] x (Inl old) = (NoError, y) \<and> R (projl y)"
    if "x = Inr w" for x
    using that assms(3,4) by (simp add: current_init_def)
qed

section \<open>Messages in any version\<close>

text \<open>
  What a party gets that declares the struct as \<open>T\<close> and reads it by \<open>body\<close>: from any context
  that accepts the versions and flags of \<open>c\<close> it reads the message \<open>out\<close> behind \<open>bs\<close> to its end and
  its object is in \<open>R\<close>.
\<close>

definition receives ::
    "env \<Rightarrow> struct_info \<Rightarrow> (ddata \<Rightarrow> 'a \<Rightarrow> status \<times> ddata \<times> 'a) \<Rightarrow> ('a \<Rightarrow> bool) \<Rightarrow> 'a \<Rightarrow> sdata
     \<Rightarrow> byte list \<Rightarrow> byte list \<Rightarrow> bool" where
  "receives E T body R old c bs out \<longleftrightarrow>
     (\<forall>d. accepts T c d \<and> walker_rep (m_binaryData d) (bs @ out) (length bs) \<longrightarrow>
        (\<exists>d' y. iserializable_deserialize E T body d old = (NoError, d', y) \<and> R y
           \<and> walker_rep (m_binaryData d') (bs @ out) (length (bs @ out))))"

lemma receives_at:
  assumes s: "sendable_at E T' c" "getId T' = getId T" and m: "\<not> memory_out E"
    and l: "length bs + 32 + length xs < 2 ^ 62"
    and r: "\<And>d. \<lbrakk>body_ctx E d; mode_of d = mode_of c;
        m_interfaceVersion c < getLatestInterfaceVersion T' \<Longrightarrow> m_interfaceVersionsNotMatch d\<rbrakk> \<Longrightarrow>
      reads E (\<lambda>d. body d old) xs d R"
  shows "receives E T' body R old c bs (data_message (big_endian E) T c xs)"
  unfolding receives_def
proof (intro allI impI)
  let ?ms = "data_message (big_endian E) T c xs"
  fix d
  assume d: "accepts T' c d \<and> walker_rep (m_binaryData d) (bs @ ?ms) (length bs)"
  have lm: "length ?ms = 32 + length xs" "length (bs @ ?ms) < 2 ^ 62" using l by (simp_all add: data_message_def)
  have ms: "data_message (big_endian E) T' c xs = ?ms" using s(2) by (simp add: data_message_def)
  let ?d = "versions_noted T' (received E c d)"
  obtain w where w: "iserializable_deserialize E T' body d old = body (?d\<lparr>m_binaryData := w\<rparr>) old"
    "walker_rep w (bs @ ?ms) (length bs + 32)"
    using iserializable_headers_at [OF s(1) conjunct1 [OF d] conjunct2 [OF d] lm(2), of xs body old] unfolding ms by auto
  have iv: "m_interfaceVersion (received E c d) = m_interfaceVersion c"
    by (simp add: received_def setDataFlags_def setInterfaceVersion_def)
  have md: "mode_of ?d = mode_of c" "body_ctx E ?d"
    using received_mode [OF s(1), of d] by (auto simp: versions_noted_def setInterfaceVersionsNotMatch_def mode_of_def body_ctx_def
        common_inv_def data_inv_def)
  have "reads E (\<lambda>d. body d old) xs ?d R"
    using r [OF md(2,1)] iv by (simp add: versions_noted_def setInterfaceVersionsNotMatch_def)
  moreover have "drop (length bs + 32) (bs @ ?ms) = xs" by (simp add: data_message_def)
  then have "length xs \<le> length (bs @ ?ms) - (length bs + 32)" "take (length xs) (drop (length bs + 32) (bs @ ?ms)) = xs"
    using lm(1) by simp_all
  ultimately show "\<exists>d' y. iserializable_deserialize E T' body d old = (NoError, d', y) \<and> R y
      \<and> walker_rep (m_binaryData d') (bs @ ?ms) (length (bs @ ?ms))"
    using w lm by (elim readsE) (use m in \<open>auto simp: add.assoc\<close>)
qed

section \<open>SimplyAssignableFixedSize in its versions\<close>

text \<open>What the old version holds of a value.\<close>

definition old_always :: "always_simply_assignable \<Rightarrow> always_simply_assignable0" where
  "old_always v = AlwaysSimplyAssignable_Version0 (ucast (as_x v) + 1) (ucast (as_y v) + 2)"

definition old_fixed :: "simply_assignable_fixed_size \<Rightarrow> simply_assignable_fixed_size1" where
  "old_fixed v = SimplyAssignableFixedSize_Version1 (ucast (fs_x v) + 1) (old_always (fs_asa v)) (map old_always (fs_arrAsa v))"

lemma byte_widened: "ucast (ucast x :: u16) = (x :: byte)"
  by (rule bit_word_eqI) (auto simp: bit_simps)

lemma always_init_old:
  "snd (AlwaysSimplyAssignable_Version0_init old v) = old_always v" "snd (AlwaysSimplyAssignable_init old' (old_always v)) = v"
  by (simp_all only: AlwaysSimplyAssignable_Version0_init_def AlwaysSimplyAssignable_init_def old_always_def snd_conv
      always_simply_assignable0.sel add_diff_cancel_right' byte_widened always_simply_assignable.collapse)

lemma fixed_init_old:
  assumes "good_fixed v"
  shows "SimplyAssignableFixedSize_Version1_init SimplyAssignableFixedSize_Version1_new v = (NoError, old_fixed v)"
    and "good_fixed old \<Longrightarrow> SimplyAssignableFixedSize_init old (old_fixed v) = (NoError, v)"
    and "good_fixed1 (old_fixed v)" "good_fixed1 SimplyAssignableFixedSize_Version1_new"
proof -
  have z: "map2 (\<lambda>_. f) xs ys = map f ys" if "length xs = length ys" for f and xs :: "'x list" and ys :: "'y list"
    using that by (induction xs ys rule: list_induct2) simp_all
  have z': "map2 (\<lambda>o' r. snd (AlwaysSimplyAssignable_init o' r)) xs (map old_always ys) = ys" if "length xs = length ys" for xs ys
    using that by (induction xs ys rule: list_induct2) (simp_all add: always_init_old)
  show "SimplyAssignableFixedSize_Version1_init SimplyAssignableFixedSize_Version1_new v = (NoError, old_fixed v)"
    using assms by (simp add: SimplyAssignableFixedSize_Version1_init_def old_fixed_def good_fixed_def
        SimplyAssignableFixedSize_Version1_new_def always_init_old z)
  show "SimplyAssignableFixedSize_init old (old_fixed v) = (NoError, v)" if "good_fixed old"
    using assms that by (cases v) (simp add: SimplyAssignableFixedSize_init_def old_fixed_def good_fixed_def
        always_init_old z' byte_widened)
qed (use assms in \<open>simp_all add: good_fixed_def good_fixed1_def old_fixed_def SimplyAssignableFixedSize_Version1_new_def\<close>)

lemma word_less_2: "\<not> 2 \<le> (x :: u32) \<Longrightarrow> 1 \<le> x \<Longrightarrow> x = 1"
proof -
  assume "\<not> 2 \<le> x" "1 \<le> x"
  then have "unat x = unat (1 :: u32)" by (simp add: word_le_nat_alt)
  then show ?thesis by (simp only: word_unat_eq_iff)
qed

lemma tests_origin: "length pvs < 2 ^ 32 \<Longrightarrow> pvs \<noteq> [] \<Longrightarrow> getOriginPrivateVersion (tests_info be kId iv pvs) = last pvs"
  by (simp add: getOriginPrivateVersion_def getPrivateVersionsCount_def tests_info_def last_conv_nth unat_of_nat_small)

lemma fixed_forms:
  assumes "sendable_at E (SimplyAssignableFixedSize_info be) c"
  shows "2 \<le> m_interfaceVersion c \<Longrightarrow> latest_form (SimplyAssignableFixedSize_info be) (mode_of c)"
    and "\<not> 2 \<le> m_interfaceVersion c \<Longrightarrow> m_interfaceVersion c = 1"
    and "\<not> 2 \<le> m_interfaceVersion c \<Longrightarrow> old_form (SimplyAssignableFixedSize_info be) (mode_of c) 1"
    and "latest_form (SimplyAssignableFixedSize_Version1_info be) (mode_of c)"
    and "sendable_at E (SimplyAssignableFixedSize_Version1_info be) c"
proof -
  let ?id = "SimplyAssignableFixedSize_id be"
  have iv: "1 \<le> m_interfaceVersion c"
    and f: "testDataFlagsCompatibility (Some (tests_info be ?id 2 [2, 1])) (m_dataFlags c) = NoError"
    using assms by (simp_all add: sendable_at_def data_ok_def SimplyAssignableFixedSize_info_def isInterfaceVersionSupported_def tests_origin)
  show "m_interfaceVersion c = 1" if "\<not> 2 \<le> m_interfaceVersion c" by (rule word_less_2 [OF that iv])
  have f1: "testDataFlagsCompatibility (Some (tests_info be ?id 1 [1])) (m_dataFlags c) = NoError"
    using f tests_flags [of be ?id 1 "[1]" be ?id 2 "[2, 1]"] by simp
  show "2 \<le> m_interfaceVersion c \<Longrightarrow> latest_form (SimplyAssignableFixedSize_info be) (mode_of c)"
    using f by (simp add: SimplyAssignableFixedSize_info_def tests_latest mode_of_def)
  show "\<not> 2 \<le> m_interfaceVersion c \<Longrightarrow> old_form (SimplyAssignableFixedSize_info be) (mode_of c) 1"
    using iv by (simp add: old_form_def SimplyAssignableFixedSize_info_def tests_best mode_of_def kInterfaceVersionUndefined_def)
  show "latest_form (SimplyAssignableFixedSize_Version1_info be) (mode_of c)"
    using iv f1 by (simp add: SimplyAssignableFixedSize_Version1_info_def tests_latest mode_of_def)
  show "sendable_at E (SimplyAssignableFixedSize_Version1_info be) c"
    using assms f1 by (simp add: sendable_at_def data_ok_def SimplyAssignableFixedSize_info_def SimplyAssignableFixedSize_Version1_info_def
        isInterfaceVersionSupported_def tests_origin)
qed

definition enc_fixed_at :: "env \<Rightarrow> mode \<Rightarrow> simply_assignable_fixed_size \<Rightarrow> byte list" where
  "enc_fixed_at E md v =
     (if 2 \<le> md_interfaceVersion md
      then enc_struct (big_endian E) (SimplyAssignableFixedSize_type (big_endian E)) (enc_fixed E) md v
      else enc_struct (big_endian E) (SimplyAssignableFixedSize_Version1_type (big_endian E)) (enc_fixed1 E) md (old_fixed v))"

lemma noted_ctx:
  assumes "sendable_at E T c"
  shows "body_ctx E (versions_noted T' c)" "mode_of (versions_noted T' c) = mode_of c"
  using assms
  by (auto simp: sendable_at_def body_ctx_def mode_of_def versions_noted_def setInterfaceVersionsNotMatch_def common_inv_def data_inv_def)

lemma emits_fixed_at:
  assumes s: "sendable_at E (SimplyAssignableFixedSize_info (big_endian E)) c" and v: "good_fixed v"
  shows "emits E (serialize_SimplyAssignableFixedSize E addr tmp v) (enc_fixed_at E (mode_of c) v)
     (versions_noted (SimplyAssignableFixedSize_info (big_endian E)) c)"
proof -
  let ?T = "SimplyAssignableFixedSize_info (big_endian E)" and ?c = "versions_noted (SimplyAssignableFixedSize_info (big_endian E)) c"
  note f = fixed_forms [OF s] and c = noted_ctx [OF s, of ?T]
  have iv: "md_interfaceVersion (mode_of c) = m_interfaceVersion c" by (simp add: mode_of_def)
  show ?thesis
  proof (cases "2 \<le> m_interfaceVersion c")
    case True
    then have ok: "latest_form ?T (mode_of ?c) \<and> good_fixed v" using f(1) v c(2) by simp
    show ?thesis
      using codec.ser_emits [OF SimplyAssignableFixedSize_codec c(1) refl ok] True iv c(2) by (simp add: enc_fixed_at_def)
  next
    case False
    then have n: "m_interfaceVersionsNotMatch ?c"
      by (simp add: versions_noted_def SimplyAssignableFixedSize_info_def setInterfaceVersionsNotMatch_def not_le)
    have o: "old_form ?T (mode_of ?c) 1" using f(3) False c(2) by simp
    have ok: "latest_form (SimplyAssignableFixedSize_Version1_info (big_endian E)) (mode_of ?c) \<and> good_fixed1 (old_fixed v)"
      using f(4) fixed_init_old(3) [OF v] c(2) by simp
    have "emits E (toVersion_convert E (SimplyAssignableFixedSize_chain E tmp) 1 (Inl v)) (enc_fixed_at E (mode_of c) v) ?c"
      using emits_old_version [where k = 17 and ini = SimplyAssignableFixedSize_Version1_init
          and ser = "serialize_SimplyAssignableFixedSize_Version1 E tmp", OF _ fixed_init_old(1) [OF v] codec.ser_emits [OF SimplyAssignableFixedSize_Version1_codec c(1) refl ok]]
        False iv c(2)
      by (simp add: SimplyAssignableFixedSize_chain_def enc_fixed_at_def SimplyAssignableFixedSize_Version1_info_def)
    then show ?thesis
      unfolding serialize_SimplyAssignableFixedSize_def toOldStruct_SimplyAssignableFixedSize_def
      by (intro emits_old_struct [OF _ n o]) (simp_all add: SimplyAssignableFixedSize_type_def)
  qed
qed

lemma reads_fixed_at:
  assumes s: "sendable_at E (SimplyAssignableFixedSize_info (big_endian E)) c" and v: "good_fixed v" "good_fixed old"
    and d: "body_ctx E d" "mode_of d = mode_of c" and n: "m_interfaceVersion c < 2 \<Longrightarrow> m_interfaceVersionsNotMatch d"
  shows "reads E (\<lambda>d. deserialize_SimplyAssignableFixedSize E addr tmp d old) (enc_fixed_at E (mode_of c) v) d (\<lambda>x. x = v)"
proof -
  let ?T = "SimplyAssignableFixedSize_info (big_endian E)"
  note f = fixed_forms [OF s]
  have iv: "md_interfaceVersion (mode_of c) = m_interfaceVersion c" by (simp add: mode_of_def)
  show ?thesis
  proof (cases "2 \<le> m_interfaceVersion c")
    case True
    then have ok: "latest_form ?T (mode_of d) \<and> good_fixed v" using f(1) v d(2) by simp
    show ?thesis
      using codec.des_reads [OF SimplyAssignableFixedSize_codec d(1) v(2) ok] True iv d(2) by (simp add: enc_fixed_at_def)
  next
    case False
    then have nn: "m_interfaceVersionsNotMatch d" using n by (simp add: not_le)
    have o: "old_form ?T (mode_of d) 1" using f(3) False d(2) by simp
    have ok: "latest_form (SimplyAssignableFixedSize_Version1_info (big_endian E)) (mode_of d) \<and> good_fixed1 (old_fixed v)"
      using f(4) fixed_init_old(3) [OF v(1)] d(2) by simp
    have "reads E (\<lambda>d. fromVersion_convert E (\<lambda>_. True) (current_init SimplyAssignableFixedSize_init) 1
        (SimplyAssignableFixedSize_chain E tmp) d (Inl old)) (enc_fixed_at E (mode_of c) v) d (\<lambda>x. projl x = v)"
      using reads_old_version [where k = 17 and pv = 1 and cur = SimplyAssignableFixedSize_init and R = "\<lambda>x. x = v"
          and des = "deserialize_SimplyAssignableFixedSize_Version1 E tmp", OF _ codec.des_reads [OF SimplyAssignableFixedSize_Version1_codec d(1) fixed_init_old(4) [OF v(1)] ok]
          fixed_init_old(2) [OF v] refl] False iv d(2)
      by (simp add: SimplyAssignableFixedSize_chain_def enc_fixed_at_def SimplyAssignableFixedSize_Version1_info_def kInterfaceVersionUndefined_def)
    then show ?thesis
      unfolding deserialize_SimplyAssignableFixedSize_def fromOldStruct_SimplyAssignableFixedSize_def
      by (intro reads_old_struct [OF _ nn o]) (simp_all add: SimplyAssignableFixedSize_type_def)
  qed
qed

lemma length_enc_scalar: "length (enc_scalar False False md (x :: byte)) \<le> 2" "length (enc_scalar False False md (y :: u16)) \<le> 3"
  by (simp_all add: enc_scalar_def)

lemma always_type_simps:
  "t_octets (AlwaysSimplyAssignable_type be) = (\<lambda>_. always_octets)" "\<not> sized_array (AlwaysSimplyAssignable_type be) md"
  "t_octets (AlwaysSimplyAssignable_Version0_type be) = always0_octets" "\<not> sized_array (AlwaysSimplyAssignable_Version0_type be) md"
  by (simp_all add: AlwaysSimplyAssignable_type_def AlwaysSimplyAssignable_Version0_type_def sized_array_def)

lemma length_enc_always:
  "length (enc_struct be (AlwaysSimplyAssignable_type be) enc_always md v) \<le> 4"
  "length (enc_struct be (AlwaysSimplyAssignable_Version0_type be) enc_always0 md w) \<le> 6"
  using length_enc_scalar(1) [of md "as_x v"] length_enc_scalar(1) [of md "as_y v"] length_enc_scalar(2) [of md "as_xx w"]
    length_enc_scalar(2) [of md "as_yy w"]
  by (auto simp: enc_struct_def enc_always_def enc_always0_def always_type_simps)

lemma length_enc_fixed:
  assumes "good_fixed v"
  shows "length (enc_fixed_at E md v) \<le> 60"
proof -
  obtain a b c where a: "fs_arrAsa v = [a, b, c]" using assms by (auto simp: good_fixed_def three)
  have "length (always_array.enc_array E md [a, b, c]) \<le> 12" "length (always0_array.enc_array E md (map old_always [a, b, c])) \<le> 18"
    using length_enc_always(1) [of "big_endian E" md a] length_enc_always(1) [of "big_endian E" md b]
      length_enc_always(1) [of "big_endian E" md c] length_enc_always(2) [of "big_endian E" md "old_always a"]
      length_enc_always(2) [of "big_endian E" md "old_always b"] length_enc_always(2) [of "big_endian E" md "old_always c"]
    unfolding always_array.enc_array_def always0_array.enc_array_def by (auto simp: always_type_simps)
  then have "length (enc_fixed E md v) \<le> 18" "length (enc_fixed1 E md (old_fixed v)) \<le> 27"
    using length_enc_scalar(1) [of md "fs_x v"] length_enc_scalar(2) [of md "fs_xx (old_fixed v)"] a
      length_enc_always(1) [of "big_endian E" md "fs_asa v"] length_enc_always(2) [of "big_endian E" md "old_always (fs_asa v)"]
    by (simp_all add: enc_fixed_def enc_fixed1_def old_fixed_def)
  then show ?thesis
    using a by (simp add: enc_fixed_at_def enc_struct_def SimplyAssignableFixedSize_type_def SimplyAssignableFixedSize_Version1_type_def
        old_fixed_def)
qed

section \<open>SimplyAssignableAlignedToOne in its versions\<close>

definition enc_two_ints :: "mode \<Rightarrow> two_ints \<Rightarrow> byte list" where
  "enc_two_ints md v = enc_scalar False False md (ti_x v) @ enc_scalar False False md (ti_y v)"

lemma TwoInts_type_simps:
  "t_sizeof (TwoInts_type pad) = 4" "\<not> t_integralOrEnum (TwoInts_type pad)" "\<not> t_floating (TwoInts_type pad)"
  "t_octets (TwoInts_type pad) be v = ti_x v # pad # obj_bytes be (ti_y v)"
  "t_of_octets (TwoInts_type pad) be (x # pad' # obj_bytes be y) = TwoInts x y"
  "copies_mode (TwoInts_type pad) md = copies_mode (TwoInts_type pad') md"
  by (simp_all add: TwoInts_type_def obj_value_bytes) (simp add: copies_mode_def EndiannessTolerant_def struct_type_def)

lemma TwoInts_codec:
  "codec E (=) (\<lambda>_. True) (\<lambda>_ _. True) (enc_struct (big_endian E) (TwoInts_type pad) enc_two_ints)
     (serialize_TwoInts E pad) (deserialize_TwoInts E pad')"
proof
  fix c :: sdata and x m :: two_ints
  assume "body_ctx E c" "x = m"
  then show "emits E (serialize_TwoInts E pad x) (enc_struct (big_endian E) (TwoInts_type pad) enc_two_ints (mode_of c) m) c"
    unfolding serialize_TwoInts_def
    by (intro emits_any_simply_assignable)
       (auto simp: enc_struct_def enc_two_ints_def TwoInts_type_def intro!: emits_two_scalars)
next
  fix d :: ddata and old m :: two_ints
  assume "body_ctx E d"
  moreover have "reads E (\<lambda>d. run_out (deserialize_scalar E False False False d (ti_x old)) (\<lambda>x. TwoInts x (ti_y old)) (\<lambda>ctx x.
       run_out (deserialize_scalar E False False False ctx (ti_y old)) (TwoInts x) (\<lambda>ctx y. (NoError, ctx, TwoInts x y))))
     (enc_two_ints (mode_of d) m) d (\<lambda>v. v = m)"
    unfolding enc_two_ints_def by (rule reads_weaken [OF reads_two_scalars]) (use calculation in auto)
  ultimately show "reads E (\<lambda>d. deserialize_TwoInts E pad' d old) (enc_struct (big_endian E) (TwoInts_type pad) enc_two_ints (mode_of d) m) d (\<lambda>x. x = m)"
    unfolding deserialize_TwoInts_def
    by (intro reads_any_simply_assignable)
       (auto simp: enc_struct_def TwoInts_type_simps(1-5) TwoInts_type_simps(6) [of pad _ pad'])
qed

interpretation two_ints: codec E "(=)" "\<lambda>_. True" "\<lambda>_ _. True" "enc_struct (big_endian E) (TwoInts_type pad) enc_two_ints"
    "serialize_TwoInts E pad" "deserialize_TwoInts E pad'" for E pad pad'
  by (rule TwoInts_codec)

definition enc_aligned0 :: "env \<Rightarrow> byte \<Rightarrow> mode \<Rightarrow> simply_assignable_aligned_to_one0 \<Rightarrow> byte list" where
  "enc_aligned0 E pad md v = enc_struct (big_endian E) (TwoInts_type pad) enc_two_ints md (ao0_ti v)"

definition enc_aligned1 :: "mode \<Rightarrow> simply_assignable_aligned_to_one1 \<Rightarrow> byte list" where
  "enc_aligned1 md v = enc_scalar False False md (ao1_x v) @ enc_scalar False False md (ao1_y v)"

definition enc_aligned :: "mode \<Rightarrow> simply_assignable_aligned_to_one \<Rightarrow> byte list" where
  "enc_aligned md v = enc_scalar False False md (ao_x v) @ enc_scalar False False md (ao_y v)"

lemma aligned0_codec:
  "codec E (=) (\<lambda>_. True) (\<lambda>md v. latest_form (SimplyAssignableAlignedToOne_Version0_info (big_endian E)) md \<and> True)
     (enc_struct (big_endian E) (SimplyAssignableAlignedToOne_Version0_type (big_endian E)) (enc_aligned0 E pad))
     (serialize_SimplyAssignableAlignedToOne_Version0 E pad) (deserialize_SimplyAssignableAlignedToOne_Version0 E pad')"
  unfolding serialize_SimplyAssignableAlignedToOne_Version0_def deserialize_SimplyAssignableAlignedToOne_Version0_def enc_aligned0_def
  by (rule struct_codecI [where good = "\<lambda>_. True"])
     (auto simp: SimplyAssignableAlignedToOne_Version0_type_def intro!: emits_run_done two_ints.ser_emits reads_run_out_done [OF two_ints.des_reads])

lemma aligned1_codec:
  "codec E (=) (\<lambda>_. True) (\<lambda>md v. latest_form (SimplyAssignableAlignedToOne_Version1_info (big_endian E)) md \<and> True)
     (enc_struct (big_endian E) (SimplyAssignableAlignedToOne_Version1_type (big_endian E)) enc_aligned1)
     (serialize_SimplyAssignableAlignedToOne_Version1 E) (deserialize_SimplyAssignableAlignedToOne_Version1 E)"
  unfolding serialize_SimplyAssignableAlignedToOne_Version1_def deserialize_SimplyAssignableAlignedToOne_Version1_def enc_aligned1_def
  by (rule struct_codecI [where good = "\<lambda>_. True"])
     (auto simp: SimplyAssignableAlignedToOne_Version1_type_def intro!: emits_two_scalars reads_weaken [OF reads_two_scalars])

lemma aligned_codec:
  "codec E (=) (\<lambda>_. True) (\<lambda>md v. latest_form (SimplyAssignableAlignedToOne_info (big_endian E)) md \<and> True)
     (enc_struct (big_endian E) (SimplyAssignableAlignedToOne_type (big_endian E)) enc_aligned)
     (serialize_SimplyAssignableAlignedToOne E pad) (deserialize_SimplyAssignableAlignedToOne E pad')"
  unfolding serialize_SimplyAssignableAlignedToOne_def deserialize_SimplyAssignableAlignedToOne_def enc_aligned_def
  by (rule struct_codecI [where good = "\<lambda>_. True"])
     (auto simp: SimplyAssignableAlignedToOne_type_def intro!: emits_two_scalars reads_weaken [OF reads_two_scalars])

text \<open>What the old versions hold of a value.\<close>

definition old_aligned1 :: "simply_assignable_aligned_to_one \<Rightarrow> simply_assignable_aligned_to_one1" where
  "old_aligned1 v = SimplyAssignableAlignedToOne_Version1 (ao_x v) (ucast (ao_y v))"

definition old_aligned0 :: "simply_assignable_aligned_to_one \<Rightarrow> simply_assignable_aligned_to_one0" where
  "old_aligned0 v = SimplyAssignableAlignedToOne_Version0 (TwoInts (ao_x v) (ucast (ao_y v)))"

definition enc_aligned_at :: "env \<Rightarrow> byte \<Rightarrow> mode \<Rightarrow> simply_assignable_aligned_to_one \<Rightarrow> byte list" where
  "enc_aligned_at E pad md v =
     (if 3 \<le> md_interfaceVersion md
      then enc_struct (big_endian E) (SimplyAssignableAlignedToOne_type (big_endian E)) enc_aligned md v
      else if 1 \<le> md_interfaceVersion md
      then enc_struct (big_endian E) (SimplyAssignableAlignedToOne_Version1_type (big_endian E)) enc_aligned1 md (old_aligned1 v)
      else enc_struct (big_endian E) (SimplyAssignableAlignedToOne_Version0_type (big_endian E)) (enc_aligned0 E pad) md (old_aligned0 v))"

lemma word_less_1: "\<not> 1 \<le> (x :: u32) \<Longrightarrow> x = 0"
  proof -
  assume "\<not> 1 \<le> x"
  then have "unat x = 0" by (simp add: word_le_nat_alt)
  then show ?thesis by (simp add: unat_eq_0)
qed

lemma aligned_forms:
  assumes "sendable_at E (SimplyAssignableAlignedToOne_info be) c"
  shows "3 \<le> m_interfaceVersion c \<Longrightarrow> latest_form (SimplyAssignableAlignedToOne_info be) (mode_of c)"
    and "\<not> 3 \<le> m_interfaceVersion c \<Longrightarrow> 1 \<le> m_interfaceVersion c \<Longrightarrow> old_form (SimplyAssignableAlignedToOne_info be) (mode_of c) 1"
    and "\<not> 1 \<le> m_interfaceVersion c \<Longrightarrow> old_form (SimplyAssignableAlignedToOne_info be) (mode_of c) 0"
    and "1 \<le> m_interfaceVersion c \<Longrightarrow> latest_form (SimplyAssignableAlignedToOne_Version1_info be) (mode_of c)"
    and "latest_form (SimplyAssignableAlignedToOne_Version0_info be) (mode_of c)"
    and "sendable_at E (SimplyAssignableAlignedToOne_Version1_info be) c" "sendable_at E (SimplyAssignableAlignedToOne_Version0_info be) c"
proof -
  let ?id = "SimplyAssignableAlignedToOne_id be" and ?iv = "m_interfaceVersion c"
  note T = SimplyAssignableAlignedToOne_info_def SimplyAssignableAlignedToOne_Version1_info_def SimplyAssignableAlignedToOne_Version0_info_def
  have f: "testDataFlagsCompatibility (Some (tests_info be ?id 3 [3, 1, 0])) (m_dataFlags c) = NoError"
    using assms by (simp add: sendable_at_def data_ok_def T)
  then have f01: "testDataFlagsCompatibility (Some (tests_info be ?id 1 [1, 0])) (m_dataFlags c) = NoError"
    "testDataFlagsCompatibility (Some (tests_info be ?id 0 [0])) (m_dataFlags c) = NoError"
    using tests_flags [of be ?id 1 "[1, 0]" be ?id 3 "[3, 1, 0]"] tests_flags [of be ?id 0 "[0]" be ?id 3 "[3, 1, 0]"] by simp_all
  show "3 \<le> ?iv \<Longrightarrow> latest_form (SimplyAssignableAlignedToOne_info be) (mode_of c)"
    using f by (simp add: T latest_form_def tests_best mode_of_def)
  show "\<not> 3 \<le> ?iv \<Longrightarrow> 1 \<le> ?iv \<Longrightarrow> old_form (SimplyAssignableAlignedToOne_info be) (mode_of c) 1"
    by (simp add: old_form_def T tests_best mode_of_def kInterfaceVersionUndefined_def)
  show "\<not> 1 \<le> ?iv \<Longrightarrow> old_form (SimplyAssignableAlignedToOne_info be) (mode_of c) 0"
    by (drule word_less_1) (simp add: old_form_def T tests_best mode_of_def kInterfaceVersionUndefined_def word_le_nat_alt)
  show "1 \<le> ?iv \<Longrightarrow> latest_form (SimplyAssignableAlignedToOne_Version1_info be) (mode_of c)"
    using f01(1) by (simp add: T latest_form_def tests_best mode_of_def)
  show "latest_form (SimplyAssignableAlignedToOne_Version0_info be) (mode_of c)"
    using f01(2) by (simp add: T latest_form_def tests_best mode_of_def)
  show "sendable_at E (SimplyAssignableAlignedToOne_Version1_info be) c" "sendable_at E (SimplyAssignableAlignedToOne_Version0_info be) c"
    using assms f01 by (simp_all add: sendable_at_def data_ok_def T isInterfaceVersionSupported_def tests_origin)
qed

lemma emits_aligned_chain:
  assumes "body_ctx E c" "latest_form (SimplyAssignableAlignedToOne_Version0_info (big_endian E)) (mode_of c)"
    and "1 \<le> m_interfaceVersion c \<Longrightarrow> latest_form (SimplyAssignableAlignedToOne_Version1_info (big_endian E)) (mode_of c)"
    and "\<not> 3 \<le> m_interfaceVersion c" "pv = (if 1 \<le> m_interfaceVersion c then 1 else 0)"
  shows "emits E (toVersion_convert E [SimplyAssignableAlignedToOne_class1 E, SimplyAssignableAlignedToOne_class0 E pad] pv (AlignedToOne v))
     (enc_aligned_at E pad (mode_of c) v) c"
proof -
  let ?V1 = "SimplyAssignableAlignedToOne_class1 E" and ?V0 = "SimplyAssignableAlignedToOne_class0 E pad"
  have ch: "chain_ok E ?V1" "chain_ok E ?V0"
    by (rule chain_okI [where k = 3]; simp add: SimplyAssignableAlignedToOne_class1_def SimplyAssignableAlignedToOne_class0_def)+
  have iv: "md_interfaceVersion (mode_of c) = m_interfaceVersion c" by (simp add: mode_of_def)
  have pv: "vc_privateVersion ?V1 = 1" "vc_privateVersion ?V0 = 0"
    by (simp_all add: SimplyAssignableAlignedToOne_class1_def SimplyAssignableAlignedToOne_class0_def
        SimplyAssignableAlignedToOne_Version1_info_def SimplyAssignableAlignedToOne_Version0_info_def)
  have i: "vc_init ?V1 (vc_default ?V1) (AlignedToOne v) = (NoError, AlignedToOne1 (old_aligned1 v))"
    "vc_init ?V0 (vc_default ?V0) (AlignedToOne1 (old_aligned1 v)) = (NoError, AlignedToOne0 (old_aligned0 v))"
    by (simp_all add: SimplyAssignableAlignedToOne_class1_def SimplyAssignableAlignedToOne_class0_def old_aligned1_def old_aligned0_def
        SimplyAssignableAlignedToOne_Version1_init_def SimplyAssignableAlignedToOne_Version0_init_def)
  have s1: "emits E (vc_serialize ?V1 (AlignedToOne1 (old_aligned1 v))) (enc_aligned_at E pad (mode_of c) v) c" if "1 \<le> m_interfaceVersion c"
    using codec.ser_emits [OF aligned1_codec assms(1) refl, where m = "old_aligned1 v"] assms(3,4) that iv
    by (simp add: enc_aligned_at_def SimplyAssignableAlignedToOne_class1_def)
  have s0: "emits E (vc_serialize ?V0 (AlignedToOne0 (old_aligned0 v))) (enc_aligned_at E pad (mode_of c) v) c" if "\<not> 1 \<le> m_interfaceVersion c"
    using codec.ser_emits [OF aligned0_codec assms(1) refl, where m = "old_aligned0 v"] assms(2,4) that iv
    by (simp add: enc_aligned_at_def SimplyAssignableAlignedToOne_class0_def)
  show ?thesis
    using s1 s0 pv assms(5) by (intro emits_toVersion [OF ch(1) i(1)] emits_toVersion [OF ch(2) i(2)]) (auto split: if_splits)
qed

lemma reads_aligned_chain:
  assumes "body_ctx E d" "latest_form (SimplyAssignableAlignedToOne_Version0_info (big_endian E)) (mode_of d)"
    and "1 \<le> m_interfaceVersion d \<Longrightarrow> latest_form (SimplyAssignableAlignedToOne_Version1_info (big_endian E)) (mode_of d)"
    and "\<not> 3 \<le> m_interfaceVersion d" "pv = (if 1 \<le> m_interfaceVersion d then 1 else 0)"
  shows "reads E (\<lambda>d. fromVersion_convert E (\<lambda>V. vc_privateVersion V = vc_privateVersion (SimplyAssignableAlignedToOne_class1 E))
       SimplyAssignableAlignedToOne_to_init pv [SimplyAssignableAlignedToOne_class0 E pad, SimplyAssignableAlignedToOne_class1 E] d
       (AlignedToOne old)) (enc_aligned_at E pad' (mode_of d) v) d (\<lambda>x. aligned_to_one_current x = v)"
proof -
  let ?V1 = "SimplyAssignableAlignedToOne_class1 E" and ?V0 = "SimplyAssignableAlignedToOne_class0 E pad"
  let ?xs = "enc_aligned_at E pad' (mode_of d) v"
  note classes = SimplyAssignableAlignedToOne_class1_def SimplyAssignableAlignedToOne_class0_def
  have ch: "chain_ok E ?V1" "chain_ok E ?V0" by (rule chain_okI [where k = 3]; simp add: classes)+
  have iv: "md_interfaceVersion (mode_of d) = m_interfaceVersion d" by (simp add: mode_of_def)
  have pv: "vc_privateVersion ?V1 = 1" "vc_privateVersion ?V0 = 0"
    by (simp_all add: classes SimplyAssignableAlignedToOne_Version1_info_def SimplyAssignableAlignedToOne_Version0_info_def)
  have up1: "SimplyAssignableAlignedToOne_to_init (AlignedToOne old) (AlignedToOne1 (old_aligned1 v)) = (NoError, AlignedToOne v)"
    by (simp add: SimplyAssignableAlignedToOne_to_init_def SimplyAssignableAlignedToOne_init_def old_aligned1_def byte_widened)
  have up0: "vc_init ?V1 (vc_default ?V1) (AlignedToOne0 (old_aligned0 v)) = (NoError, AlignedToOne1 (old_aligned1 v))"
    by (simp add: classes SimplyAssignableAlignedToOne_Version1_initFrom0_def old_aligned1_def old_aligned0_def)
  show ?thesis
  proof (cases "1 \<le> m_interfaceVersion d")
    case True
    then have "reads E (\<lambda>d. deserialize_SimplyAssignableAlignedToOne_Version1 E d (SimplyAssignableAlignedToOne_Version1 0 0)) ?xs d
        (\<lambda>x. x = old_aligned1 v)"
      using codec.des_reads [OF aligned1_codec assms(1) TrueI, where m = "old_aligned1 v"] assms(3,4) iv by (simp add: enc_aligned_at_def)
    from reads_map [OF this, of AlignedToOne1]
    have "reads E (\<lambda>d. vc_deserialize ?V1 d (vc_default ?V1)) ?xs d (\<lambda>x. x = AlignedToOne1 (old_aligned1 v))" by (simp add: classes)
    then show ?thesis
      using ch(1) pv up1 True assms(5)
      by (intro reads_fromVersion_skip [OF _ reads_fromVersion [where Q = "\<lambda>x. x = AlignedToOne1 (old_aligned1 v)"]])
         (auto simp: base_privateVersion_def kInterfaceVersionUndefined_def aligned_to_one_current_def word_le_nat_alt)
  next
    case False
    then have "reads E (\<lambda>d. deserialize_SimplyAssignableAlignedToOne_Version0 E pad d (SimplyAssignableAlignedToOne_Version0 (TwoInts 0 0)))
        ?xs d (\<lambda>x. x = old_aligned0 v)"
      using codec.des_reads [OF aligned0_codec assms(1) TrueI, where m = "old_aligned0 v"] assms(2,4) iv by (simp add: enc_aligned_at_def)
    from reads_map [OF this, of AlignedToOne0]
    have "reads E (\<lambda>d. vc_deserialize ?V0 d (vc_default ?V0)) ?xs d (\<lambda>x. x = AlignedToOne0 (old_aligned0 v))" by (simp add: classes)
    then show ?thesis
      using ch pv up1 up0 False assms(5)
      by (intro reads_fromVersion [where Q = "\<lambda>x. x = AlignedToOne0 (old_aligned0 v)"])
         (auto simp: base_privateVersion_def kInterfaceVersionUndefined_def aligned_to_one_current_def word_le_nat_alt)
  qed
qed

lemma emits_aligned_at:
  assumes s: "sendable_at E (SimplyAssignableAlignedToOne_info (big_endian E)) c"
  shows "emits E (serialize_SimplyAssignableAlignedToOne E pad v) (enc_aligned_at E pad (mode_of c) v)
     (versions_noted (SimplyAssignableAlignedToOne_info (big_endian E)) c)"
proof -
  let ?T = "SimplyAssignableAlignedToOne_info (big_endian E)"
  let ?c = "versions_noted ?T c"
  note f = aligned_forms [OF s] and c = noted_ctx [OF s, of ?T]
  have iv: "md_interfaceVersion (mode_of c) = m_interfaceVersion c" by (simp add: mode_of_def)
  show ?thesis
  proof (cases "3 \<le> m_interfaceVersion c")
    case True
    then have ok: "latest_form ?T (mode_of ?c) \<and> True" using f(1) c(2) by simp
    show ?thesis
      using codec.ser_emits [OF aligned_codec c(1) refl ok] True iv c(2) by (simp add: enc_aligned_at_def)
  next
    case False
    let ?pv = "if 1 \<le> m_interfaceVersion c then 1 else 0 :: u32"
    have n: "m_interfaceVersionsNotMatch ?c"
      using False by (simp add: versions_noted_def SimplyAssignableAlignedToOne_info_def setInterfaceVersionsNotMatch_def not_le)
    have o: "old_form ?T (mode_of ?c) ?pv" using f(2,3) False c(2) by simp
    show ?thesis
      unfolding serialize_SimplyAssignableAlignedToOne_def toOldStruct_SimplyAssignableAlignedToOne_def
      using emits_aligned_chain [OF c(1), of ?pv pad v] f(4,5) False c(2)
      by (intro emits_old_struct [OF _ n o]) (simp_all add: SimplyAssignableAlignedToOne_type_def)
  qed
qed

lemma reads_aligned_at:
  assumes s: "sendable_at E (SimplyAssignableAlignedToOne_info (big_endian E)) c"
    and d: "body_ctx E d" "mode_of d = mode_of c" and n: "m_interfaceVersion c < 3 \<Longrightarrow> m_interfaceVersionsNotMatch d"
  shows "reads E (\<lambda>d. deserialize_SimplyAssignableAlignedToOne E pad d old) (enc_aligned_at E pad' (mode_of c) v) d (\<lambda>x. x = v)"
proof -
  let ?T = "SimplyAssignableAlignedToOne_info (big_endian E)"
  note f = aligned_forms [OF s]
  have iv: "md_interfaceVersion (mode_of c) = m_interfaceVersion c" "m_interfaceVersion d = m_interfaceVersion c"
    using d(2) by (simp_all add: mode_of_def)
  show ?thesis
  proof (cases "3 \<le> m_interfaceVersion c")
    case True
    then have ok: "latest_form ?T (mode_of d) \<and> True" using f(1) d(2) by simp
    show ?thesis
      using codec.des_reads [OF aligned_codec d(1) TrueI ok] True iv d(2) by (simp add: enc_aligned_at_def)
  next
    case False
    let ?pv = "if 1 \<le> m_interfaceVersion d then 1 else 0 :: u32"
    have nn: "m_interfaceVersionsNotMatch d" using n False by (simp add: not_le)
    have o: "old_form ?T (mode_of d) ?pv" using f(2,3) False d(2) iv by simp
    show ?thesis
      unfolding deserialize_SimplyAssignableAlignedToOne_def fromOldStruct_SimplyAssignableAlignedToOne_def
      using reads_aligned_chain [OF d(1), of ?pv pad old pad' v] f(4,5) False d(2) iv
      by (intro reads_old_struct [OF _ nn o]) (simp_all add: SimplyAssignableAlignedToOne_type_def)
  qed
qed

lemma length_enc_aligned: "length (enc_aligned_at E pad md v) \<le> 20"
proof -
  have "length (enc_aligned md v) \<le> 10" "length (enc_aligned1 md (old_aligned1 v)) \<le> 10"
    "length (enc_two_ints md w) \<le> 10" for w
    using length_enc_scalar(1) [of md "ao_x v"] length_enc_scalar(1) [of md "ao_y v"]
      length_enc_scalar(1) [of md "ao1_x (old_aligned1 v)"] length_enc_scalar(2) [of md "ao1_y (old_aligned1 v)"]
      length_enc_scalar(1) [of md "ti_x w"] length_enc_scalar(2) [of md "ti_y w"]
    by (simp_all add: enc_aligned_def enc_aligned1_def enc_two_ints_def)
  note this(1,2) this(3) [of "ao0_ti (old_aligned0 v)"]
  then show ?thesis
    by (simp add: enc_aligned_at_def enc_struct_def enc_aligned0_def TwoInts_type_simps(4) SimplyAssignableAlignedToOne_type_def
        SimplyAssignableAlignedToOne_Version1_type_def SimplyAssignableAlignedToOne_Version0_type_def)
qed

section \<open>Copies and members\<close>

text \<open>The octets of a value, member by member.\<close>

definition plain_fixed :: "bool \<Rightarrow> u32 \<Rightarrow> simply_assignable_fixed_size \<Rightarrow> byte list" where
  "plain_fixed be iv v =
     (if 2 \<le> iv then fs_x v # always_octets (fs_asa v) @ concat (map always_octets (fs_arrAsa v))
      else obj_bytes be (fs_xx (old_fixed v)) @ always0_octets be (fs1_asa (old_fixed v))
        @ concat (map (always0_octets be) (fs1_arrAsa (old_fixed v))))"

lemma copied_order:
  assumes "body_ctx E c" "copies_mode T (mode_of c)" "\<not> EndiannessTolerant T"
  shows "m_bigEndianFormat c = big_endian E"
  using assms by (auto simp: copies_mode_def body_ctx_def common_inv_def mode_of_def)

lemma enc_plain:
  assumes c: "body_ctx E c" and n: "\<not> int_sized (mode_of c)"
  shows "enc_struct (big_endian E) (AlwaysSimplyAssignable_type (big_endian E)) enc_always (mode_of c) v = always_octets v"
    and "enc_struct (big_endian E) (AlwaysSimplyAssignable_Version0_type (big_endian E)) enc_always0 (mode_of c) w
      = always0_octets (m_bigEndianFormat c) w"
    and "enc_fixed_at E (mode_of c) x = plain_fixed (m_bigEndianFormat c) (m_interfaceVersion c) x"
proof -
  have f: "md_bigEndianFormat (mode_of c) = m_bigEndianFormat c" "md_interfaceVersion (mode_of c) = m_interfaceVersion c"
    by (simp_all add: mode_of_def)
  have o: "m_bigEndianFormat c = big_endian E" if "copies_mode (AlwaysSimplyAssignable_Version0_type (big_endian E)) (mode_of c)"
    using copied_order [OF c that] by (simp add: EndiannessTolerant_def AlwaysSimplyAssignable_Version0_type_def struct_type_def)
  have o1: "m_bigEndianFormat c = big_endian E" if "copies_mode (SimplyAssignableFixedSize_Version1_type (big_endian E)) (mode_of c)"
    using copied_order [OF c that] by (simp add: EndiannessTolerant_def SimplyAssignableFixedSize_Version1_type_def struct_type_def)
  show a: "enc_struct (big_endian E) (AlwaysSimplyAssignable_type (big_endian E)) enc_always (mode_of c) v = always_octets v" for v
    using n by (simp add: enc_struct_def always_type_simps enc_always_def enc_scalar_def always_octets_def)
  show a0: "enc_struct (big_endian E) (AlwaysSimplyAssignable_Version0_type (big_endian E)) enc_always0 (mode_of c) w
      = always0_octets (m_bigEndianFormat c) w" for w
    using n o by (auto simp: enc_struct_def always_type_simps enc_always0_def enc_scalar_def always0_octets_def f)
  have e: "enc_struct (big_endian E) (AlwaysSimplyAssignable_type (big_endian E)) enc_always (mode_of c) = always_octets"
    "enc_struct (big_endian E) (AlwaysSimplyAssignable_Version0_type (big_endian E)) enc_always0 (mode_of c)
      = always0_octets (m_bigEndianFormat c)" by (rule ext, rule a, rule ext, rule a0)
  have "always_array.enc_array E (mode_of c) vs = concat (map always_octets vs)"
    "always0_array.enc_array E (mode_of c) ws = concat (map (always0_octets (m_bigEndianFormat c)) ws)" for vs ws
    unfolding always_array.enc_array_def always0_array.enc_array_def using o e by (auto simp: always_type_simps)
  moreover have "t_octets (SimplyAssignableFixedSize_type be) be' y = fs_x y # always_octets (fs_asa y) @ concat (map always_octets (fs_arrAsa y))"
    "t_octets (SimplyAssignableFixedSize_Version1_type be) be' z
      = obj_bytes be' (fs_xx z) @ always0_octets be' (fs1_asa z) @ concat (map (always0_octets be') (fs1_arrAsa z))" for be be' y z
    by (simp_all add: SimplyAssignableFixedSize_type_def SimplyAssignableFixedSize_Version1_type_def)
  ultimately show "enc_fixed_at E (mode_of c) x = plain_fixed (m_bigEndianFormat c) (m_interfaceVersion c) x"
    using n o1
    by (auto simp: enc_fixed_at_def plain_fixed_def f enc_struct_def [of _ "SimplyAssignableFixedSize_type _"]
        enc_struct_def [of _ "SimplyAssignableFixedSize_Version1_type _"] enc_fixed_def enc_fixed1_def a a0 enc_scalar_def)
qed

section \<open>Claims\<close>

text \<open>
  C7: a struct reaches parties of both its versions. For whatever interface version its two
  versions serve, \<open>ISerializable::serialize\<close> writes a \<open>SimplyAssignableFixedSize\<close> so that a party with
  the same declarations reads the same value, converted down and up again where the version is
  old; and in interface version 1 a party that only has \<open>SimplyAssignableFixedSize_Version1\<close> reads the
  old version of the value, nested structs and arrays included.
\<close>
theorem fixed_size_crosses_versions:
  assumes "sendable_at E (SimplyAssignableFixedSize_info (big_endian E)) c" "good_fixed v" "good_fixed old" "good_fixed1 old1"
    and "\<not> memory_out E" "vec_rep (m_binaryData c) bs" "length bs + 100 < 2 ^ 62"
  shows "\<exists>c' out. iserializable_serialize E (SimplyAssignableFixedSize_info (big_endian E))
       (serialize_SimplyAssignableFixedSize E addr tmp v) c = (NoError, c') \<and> vec_rep (m_binaryData c') (bs @ out)
     \<and> receives E (SimplyAssignableFixedSize_info (big_endian E)) (deserialize_SimplyAssignableFixedSize E addr' tmp')
         (\<lambda>y. y = v) old c bs out
     \<and> (m_interfaceVersion c = 1 \<longrightarrow>
          receives E (SimplyAssignableFixedSize_Version1_info (big_endian E)) (deserialize_SimplyAssignableFixedSize_Version1 E addr')
            (\<lambda>y. y = old_fixed v) old1 c bs out)"
proof -
  let ?T = "SimplyAssignableFixedSize_info (big_endian E)" and ?T1 = "SimplyAssignableFixedSize_Version1_info (big_endian E)"
  let ?xs = "enc_fixed_at E (mode_of c) v"
  let ?out = "data_message (big_endian E) ?T c ?xs"
  have l: "length bs + 32 + length ?xs < 2 ^ 63" "length bs + 32 + length ?xs < 2 ^ 62"
    using length_enc_fixed [OF assms(2), of E "mode_of c"] assms(7) by simp_all
  obtain b where b: "iserializable_serialize E ?T (serialize_SimplyAssignableFixedSize E addr tmp v) c
      = (NoError, (versions_noted ?T c)\<lparr>m_binaryData := b\<rparr>)" "vec_rep b (bs @ ?out)"
    using message_written [OF assms(1) emits_fixed_at [OF assms(1,2)] assms(5,6) l(1)] by blast
  moreover have "receives E ?T (deserialize_SimplyAssignableFixedSize E addr' tmp') (\<lambda>y. y = v) old c bs ?out"
    using reads_fixed_at [OF assms(1-3)]
    by (intro receives_at [OF assms(1) refl assms(5) l(2)]) (simp add: SimplyAssignableFixedSize_info_def)
  moreover have "receives E ?T1 (deserialize_SimplyAssignableFixedSize_Version1 E addr') (\<lambda>y. y = old_fixed v) old1 c bs ?out"
    if iv: "m_interfaceVersion c = 1"
  proof (rule receives_at [OF fixed_forms(5) [OF assms(1)] _ assms(5) l(2)])
    have e: "?xs = enc_struct (big_endian E) (SimplyAssignableFixedSize_Version1_type (big_endian E)) (enc_fixed1 E) (mode_of c) (old_fixed v)"
      using iv by (simp add: enc_fixed_at_def mode_of_def word_le_nat_alt)
    fix d :: ddata
    assume d: "body_ctx E d" "mode_of d = mode_of c"
    have "latest_form ?T1 (mode_of d) \<and> good_fixed1 (old_fixed v)" using fixed_forms(4) [OF assms(1)] fixed_init_old(3) [OF assms(2)] d by simp
    from codec.des_reads [OF SimplyAssignableFixedSize_Version1_codec d(1) assms(4) this]
    show "reads E (\<lambda>d. deserialize_SimplyAssignableFixedSize_Version1 E addr' d old1) ?xs d (\<lambda>y. y = old_fixed v)"
      using e d(2) by simp
  qed (simp add: SimplyAssignableFixedSize_info_def SimplyAssignableFixedSize_Version1_info_def)
  ultimately show ?thesis by (intro exI [of _ "(versions_noted ?T c)\<lparr>m_binaryData := b\<rparr>"] exI [of _ ?out]) simp
qed

text \<open>
  C8: a struct reaches parties of its three versions. In every interface version from 0 on,
  \<open>ISerializable::serialize\<close> writes a \<open>SimplyAssignableAlignedToOne\<close> so that a party with the same
  declarations reads the same value, converted over one or two old versions and back; in
  interface versions 1 and 2 a party that has only \<open>SimplyAssignableAlignedToOne_Version1\<close> reads that
  version of it, and in 0 a party of \<open>SimplyAssignableAlignedToOne_Version0\<close> that one, whatever is in
  the padding of \<open>TwoInts\<close>.
\<close>
theorem aligned_to_one_crosses_versions:
  assumes "sendable_at E (SimplyAssignableAlignedToOne_info (big_endian E)) c"
    and "\<not> memory_out E" "vec_rep (m_binaryData c) bs" "length bs + 100 < 2 ^ 62"
  shows "\<exists>c' out. iserializable_serialize E (SimplyAssignableAlignedToOne_info (big_endian E))
       (serialize_SimplyAssignableAlignedToOne E pad v) c = (NoError, c') \<and> vec_rep (m_binaryData c') (bs @ out)
     \<and> receives E (SimplyAssignableAlignedToOne_info (big_endian E)) (deserialize_SimplyAssignableAlignedToOne E pad')
         (\<lambda>y. y = v) old c bs out
     \<and> (m_interfaceVersion c \<in> {1, 2} \<longrightarrow>
          receives E (SimplyAssignableAlignedToOne_Version1_info (big_endian E)) (deserialize_SimplyAssignableAlignedToOne_Version1 E)
            (\<lambda>y. y = SimplyAssignableAlignedToOne_Version1 (ao_x v) (ucast (ao_y v))) old1 c bs out)
     \<and> (m_interfaceVersion c = 0 \<longrightarrow>
          receives E (SimplyAssignableAlignedToOne_Version0_info (big_endian E)) (deserialize_SimplyAssignableAlignedToOne_Version0 E pad')
            (\<lambda>y. y = SimplyAssignableAlignedToOne_Version0 (TwoInts (ao_x v) (ucast (ao_y v)))) old0 c bs out)"
proof -
  let ?T = "SimplyAssignableAlignedToOne_info (big_endian E)" and ?V = "SimplyAssignableAlignedToOne_Version1_info (big_endian E)"
    and ?U = "SimplyAssignableAlignedToOne_Version0_info (big_endian E)"
  let ?xs = "enc_aligned_at E pad (mode_of c) v"
  let ?out = "data_message (big_endian E) ?T c ?xs"
  note f = aligned_forms [OF assms(1)]
  have l: "length bs + 32 + length ?xs < 2 ^ 63" "length bs + 32 + length ?xs < 2 ^ 62"
    using length_enc_aligned [of E pad "mode_of c" v] assms(4) by simp_all
  have ids: "getId ?V = getId ?T" "getId ?U = getId ?T"
    by (simp_all add: SimplyAssignableAlignedToOne_info_def SimplyAssignableAlignedToOne_Version1_info_def SimplyAssignableAlignedToOne_Version0_info_def)
  have md: "md_interfaceVersion (mode_of c) = m_interfaceVersion c" by (simp add: mode_of_def)
  obtain b where b: "iserializable_serialize E ?T (serialize_SimplyAssignableAlignedToOne E pad v) c
      = (NoError, (versions_noted ?T c)\<lparr>m_binaryData := b\<rparr>)" "vec_rep b (bs @ ?out)"
    using message_written [OF assms(1) emits_aligned_at [OF assms(1)] assms(2,3) l(1)] by blast
  moreover have "receives E ?T (deserialize_SimplyAssignableAlignedToOne E pad') (\<lambda>y. y = v) old c bs ?out"
    using reads_aligned_at [OF assms(1)]
    by (intro receives_at [OF assms(1) refl assms(2) l(2)]) (simp add: SimplyAssignableAlignedToOne_info_def)
  moreover have "receives E ?V (deserialize_SimplyAssignableAlignedToOne_Version1 E) (\<lambda>y. y = old_aligned1 v) old1 c bs ?out"
    if iv: "m_interfaceVersion c \<in> {1, 2}"
  proof (rule receives_at [OF f(6) ids(1) assms(2) l(2)])
    fix d :: ddata
    assume d: "body_ctx E d" "mode_of d = mode_of c"
    have i: "1 \<le> m_interfaceVersion c" "\<not> 3 \<le> m_interfaceVersion c" using iv by (auto simp: word_le_nat_alt)
    have "latest_form ?V (mode_of d) \<and> True" using f(4) d i by simp
    from codec.des_reads [OF aligned1_codec d(1) TrueI this, where m = "old_aligned1 v"]
    show "reads E (\<lambda>d. deserialize_SimplyAssignableAlignedToOne_Version1 E d old1) ?xs d (\<lambda>y. y = old_aligned1 v)"
      using i d(2) md by (simp add: enc_aligned_at_def)
  qed
  moreover have "receives E ?U (deserialize_SimplyAssignableAlignedToOne_Version0 E pad') (\<lambda>y. y = old_aligned0 v) old0 c bs ?out"
    if iv: "m_interfaceVersion c = 0"
  proof (rule receives_at [OF f(7) ids(2) assms(2) l(2)])
    fix d :: ddata
    assume d: "body_ctx E d" "mode_of d = mode_of c"
    have i: "\<not> 1 \<le> m_interfaceVersion c" "\<not> 3 \<le> m_interfaceVersion c" using iv by (simp_all add: word_le_nat_alt)
    have "latest_form ?U (mode_of d) \<and> True" using f(5) d by simp
    from codec.des_reads [OF aligned0_codec d(1) TrueI this, where m = "old_aligned0 v"]
    show "reads E (\<lambda>d. deserialize_SimplyAssignableAlignedToOne_Version0 E pad' d old0) ?xs d (\<lambda>y. y = old_aligned0 v)"
      using i d(2) md by (simp add: enc_aligned_at_def)
  qed
  ultimately show ?thesis
    by (intro exI [of _ "(versions_noted ?T c)\<lparr>m_binaryData := b\<rparr>"] exI [of _ ?out]) (simp add: old_aligned1_def old_aligned0_def)
qed

lemma sample_tests_flags: "testDataFlagsCompatibility (Some (tests_info be kId iv pvs)) (DataFlags 0) = NoError"
  by (simp add: tests_info_def tests_properties_def testDataFlagsCompatibility_def getEffectiveMandatoryDataFlags_def
     getEffectiveForbiddenDataFlags_def getInterface_def df_default_def df_and_def df_or_word_def df_bool_def df_eq_def df_or_def df_of_def)

lemma sample_sendable_at:
  assumes "length pvs < 2 ^ 32" "pvs \<noteq> []" "last pvs \<le> 1"
  shows "sendable_at sample_env (tests_info be kId iv pvs) sample_sender"
proof -
  have "body_ctx sample_env sample_sender"
    using sample_sdata_ok(1) [of sample_env False] by (auto simp: body_ctx_def common_inv_def data_inv_def)
  then show ?thesis
    using sample_tests_flags assms by (simp add: sendable_at_def data_ok_def tests_origin tests_properties_def sample_sdata_def
      sample_scommon_def common.defs isProtocolVersionSupported_iff kInterfaceVersionUndefined_def df_default_def df_valid_def
      isInterfaceVersionSupported_def df_checkRecursivePointers_def)
qed

theorem fixed_size_crosses_versions_witness:
  "\<exists>c' out. iserializable_serialize sample_env (SimplyAssignableFixedSize_info False)
       (serialize_SimplyAssignableFixedSize sample_env id id SimplyAssignableFixedSize_fill) sample_sender = (NoError, c')
     \<and> vec_rep (m_binaryData c') ([] @ out)
     \<and> receives sample_env (SimplyAssignableFixedSize_Version1_info False) (deserialize_SimplyAssignableFixedSize_Version1 sample_env id)
          (\<lambda>y. y = SimplyAssignableFixedSize_Version1_fill) SimplyAssignableFixedSize_Version1_new sample_sender [] out"
proof -
  note fill = SimplyAssignableFixedSize_fill_def AlwaysSimplyAssignable_fill_def SimplyAssignableFixedSize_Version1_fill_def
    AlwaysSimplyAssignable_Version0_fill_def
  have "sendable_at sample_env (SimplyAssignableFixedSize_info (big_endian sample_env)) sample_sender"
    by (simp add: SimplyAssignableFixedSize_info_def sample_sendable_at)
  moreover have "good_fixed SimplyAssignableFixedSize_fill" "good_fixed SimplyAssignableFixedSize_new"
    "good_fixed1 SimplyAssignableFixedSize_Version1_new"
    by (simp_all add: good_fixed_def good_fixed1_def SimplyAssignableFixedSize_new_def SimplyAssignableFixedSize_Version1_new_def fill)
  moreover have "old_fixed SimplyAssignableFixedSize_fill = SimplyAssignableFixedSize_Version1_fill"
    by (simp add: old_fixed_def old_always_def fill)
  moreover have "m_interfaceVersion sample_sender = 1" by simp
  ultimately show ?thesis
    using fixed_size_crosses_versions [of sample_env sample_sender SimplyAssignableFixedSize_fill SimplyAssignableFixedSize_new
        SimplyAssignableFixedSize_Version1_new "[]" id id id id] sample_env_ok sample_sender_rep by auto
qed

theorem aligned_to_one_crosses_versions_witness:
  "\<exists>c' out. iserializable_serialize sample_env (SimplyAssignableAlignedToOne_info False)
       (serialize_SimplyAssignableAlignedToOne sample_env 0 SimplyAssignableAlignedToOne_fill) (sample_sdata False) = (NoError, c')
     \<and> receives sample_env (SimplyAssignableAlignedToOne_Version0_info False) (deserialize_SimplyAssignableAlignedToOne_Version0 sample_env 7)
          (\<lambda>y. y = SimplyAssignableAlignedToOne_Version0_fill) (SimplyAssignableAlignedToOne_Version0 (TwoInts 0 0)) (sample_sdata False) [] out"
proof -
  have "sendable_at sample_env (SimplyAssignableAlignedToOne_info (big_endian sample_env)) (sample_sdata False)"
    using sample_sdata_ok(1) [of sample_env False] sample_tests_flags
    by (simp add: SimplyAssignableAlignedToOne_info_def sendable_at_def data_ok_def tests_origin tests_properties_def sample_sdata_def
      sample_scommon_def common.defs isProtocolVersionSupported_iff kInterfaceVersionUndefined_def df_default_def df_valid_def
      isInterfaceVersionSupported_def df_checkRecursivePointers_def)
  moreover have "m_interfaceVersion (sample_sdata False) = 0" by (simp add: sample_sdata_def common.defs)
  ultimately show ?thesis
    using aligned_to_one_crosses_versions [of sample_env "sample_sdata False" "[]" 0 SimplyAssignableAlignedToOne_fill 7
        "SimplyAssignableAlignedToOne 0 0" "SimplyAssignableAlignedToOne_Version1 0 0" "SimplyAssignableAlignedToOne_Version0 (TwoInts 0 0)"]
      sample_env_ok sample_sdata_ok(2) [of False]
    by (auto simp: SimplyAssignableAlignedToOne_fill_def SimplyAssignableAlignedToOne_Version0_fill_def TwoInts_fill_def)
qed

text \<open>
  C13: copying objects changes no octet. Where sizes of integers are the same, the octets of a
  \<open>SimplyAssignableFixedSize\<close>, its nested structs and arrays included, depend on the byte order and
  the interface version of the context only: a context that allows the copy of whole objects and
  one that has alignment differences, a difference of byte orders declared, or the
  optimisations by tags turned off, where every member is written by itself, write the same.
\<close>
theorem copies_write_what_members_write:
  assumes "sendable_at E (SimplyAssignableFixedSize_info (big_endian E)) c" "sendable_at E (SimplyAssignableFixedSize_info (big_endian E)) c'"
    and "m_bigEndianFormat c' = m_bigEndianFormat c" "m_interfaceVersion c' = m_interfaceVersion c"
    and "\<not> m_sizeOfPrimitivesMayBeNotEqual c" "\<not> m_sizeOfPrimitivesMayBeNotEqual c'"
    and "good_fixed v" "\<not> memory_out E" "vec_rep (m_binaryData c) bs" "vec_rep (m_binaryData c') bs'"
    and "length bs + 100 < 2 ^ 62" "length bs' + 100 < 2 ^ 62"
  shows "\<exists>xs d b d' b'.
     serialize_SimplyAssignableFixedSize E addr tmp v (versions_noted (SimplyAssignableFixedSize_info (big_endian E)) c) = (NoError, d)
     \<and> m_binaryData d = b \<and> vec_rep b (bs @ xs)
     \<and> serialize_SimplyAssignableFixedSize E addr tmp v (versions_noted (SimplyAssignableFixedSize_info (big_endian E)) c') = (NoError, d')
     \<and> m_binaryData d' = b' \<and> vec_rep b' (bs' @ xs)"
proof -
  let ?T = "SimplyAssignableFixedSize_info (big_endian E)"
  let ?xs = "plain_fixed (m_bigEndianFormat c) (m_interfaceVersion c) v"
  have b: "body_ctx E c" "body_ctx E c'" using assms(1,2) by (simp_all add: sendable_at_def)
  have n: "\<not> int_sized (mode_of c)" "\<not> int_sized (mode_of c')"
    using assms(5,6) mode_simps(1) [OF b(1)] mode_simps(1) [OF b(2)] by simp_all
  have e: "enc_fixed_at E (mode_of c) v = ?xs" "enc_fixed_at E (mode_of c') v = ?xs"
    using enc_plain(3) [OF b(1) n(1), of v] enc_plain(3) [OF b(2) n(2), of v] assms(3,4) by simp_all
  have l: "length bs + length ?xs < 2 ^ 63" "length bs' + length ?xs < 2 ^ 63"
    using length_enc_fixed [OF assms(7), of E "mode_of c"] e(1) assms(11,12) by simp_all
  show ?thesis
    using emits_total [OF emits_fixed_at [OF assms(1,7), of addr tmp] assms(8), of bs] l(1)
      emits_total [OF emits_fixed_at [OF assms(2,7), of addr tmp] assms(8), of bs'] l(2) assms(9,10) e
    by (auto intro!: exI [of _ ?xs])
qed

theorem copies_write_what_members_write_witness:
  "\<exists>xs d b d' b'.
     serialize_SimplyAssignableFixedSize sample_env id id SimplyAssignableFixedSize_fill
       (versions_noted (SimplyAssignableFixedSize_info False) sample_sender) = (NoError, d)
     \<and> m_binaryData d = b \<and> vec_rep b ([] @ xs)
     \<and> serialize_SimplyAssignableFixedSize sample_env id id SimplyAssignableFixedSize_fill
         (versions_noted (SimplyAssignableFixedSize_info False)
           (setDataFlags sample_sender (df_of kSimplyAssignableTagsOptimizationsAreTurnedOff))) = (NoError, d')
     \<and> m_binaryData d' = b' \<and> vec_rep b' ([] @ xs)"
proof -
  let ?f = "df_of kSimplyAssignableTagsOptimizationsAreTurnedOff"
  have i: "SimplyAssignableFixedSize_info (big_endian sample_env) = tests_info False (SimplyAssignableFixedSize_id False) 2 [2, 1]"
    by (simp add: SimplyAssignableFixedSize_info_def)
  have s: "sendable_at sample_env (SimplyAssignableFixedSize_info (big_endian sample_env)) sample_sender"
    unfolding i by (rule sample_sendable_at) simp_all
  have f: "testDataFlagsCompatibility (Some (tests_info False (SimplyAssignableFixedSize_id False) 2 [2, 1])) ?f = NoError"
    by (simp add: tests_info_def tests_properties_def testDataFlagsCompatibility_def getEffectiveMandatoryDataFlags_def
       getEffectiveForbiddenDataFlags_def getInterface_def df_default_def df_and_def df_or_word_def df_bool_def df_eq_def df_or_def df_of_def
       kSimplyAssignableTagsOptimizationsAreTurnedOff_def df_kForbiddenFlagsMask_def df_kValidFlagsMask_def)
  have "sendable_at sample_env (SimplyAssignableFixedSize_info (big_endian sample_env)) (setDataFlags sample_sender ?f)"
    using s f unfolding i
    by (auto simp: sendable_at_def data_ok_def setDataFlags_def body_ctx_def data_inv_def common_inv_def df_of_def df_valid_def
       df_checkRecursivePointers_def kSimplyAssignableTagsOptimizationsAreTurnedOff_def kCheckRecursivePointers_def df_kValidFlagsMask_def)
  moreover have "\<not> m_sizeOfPrimitivesMayBeNotEqual sample_sender" "\<not> m_sizeOfPrimitivesMayBeNotEqual (setDataFlags sample_sender ?f)"
    "vec_rep (m_binaryData (setDataFlags sample_sender ?f)) []"
    using sample_sender_rep
    by (simp_all add: sample_sdata_def common.defs setDataFlags_def df_sizeOfIntegersMayBeNotEqual_def df_of_def
        kSimplyAssignableTagsOptimizationsAreTurnedOff_def kSizeOfIntegersMayBeNotEqual_def df_kValidFlagsMask_def)
  moreover have "good_fixed SimplyAssignableFixedSize_fill" by (simp add: good_fixed_def SimplyAssignableFixedSize_fill_def)
  ultimately show ?thesis
    using copies_write_what_members_write [OF s, of "setDataFlags sample_sender ?f" SimplyAssignableFixedSize_fill "[]" "[]" id id]
      sample_env_ok sample_sender_rep by (simp add: setDataFlags_def)
qed

end
