(* ===== verification/AnyOctets.thy ===== *)
theory AnyOctets
  imports VersionCodec
begin

text \<open>
  Reading octets of any origin: whatever a message holds, reading it leaves the walker on the
  same octets, not before where it stood and not behind their end, and leaves objects well-formed.
  The contract \<open>stays\<close> of one reading call, its rules for the templates of \<open>BodyProcessor.h\<close> and
  the headers, and the structs of \<open>VersionedStructs\<close> under it.
\<close>

section \<open>The contract\<close>

definition stands :: "env \<Rightarrow> (byte walker, 'x) ctx \<Rightarrow> byte list \<Rightarrow> nat \<Rightarrow> bool" where
  "stands E d bs k \<longleftrightarrow> common_inv (big_endian E) d \<and> walker_rep (m_binaryData d) bs k \<and> length bs < 2 ^ 62"

definition stays ::
    "env \<Rightarrow> ((byte walker, 'x) ctx \<Rightarrow> status \<times> (byte walker, 'x) ctx \<times> 'v) \<Rightarrow> ('v \<Rightarrow> bool) \<Rightarrow> bool" where
  "stays E f P \<longleftrightarrow>
     (\<forall>d bs k st d' v. stands E d bs k \<longrightarrow> f d = (st, d', v) \<longrightarrow> (\<exists>k' \<ge> k. stands E d' bs k') \<and> P v)"

lemma staysI [intro?]:
  "(\<And>d bs k st d' v. \<lbrakk>stands E d bs k; f d = (st, d', v)\<rbrakk> \<Longrightarrow> (\<exists>k' \<ge> k. stands E d' bs k') \<and> P v) \<Longrightarrow> stays E f P"
  by (auto simp: stays_def)

lemma staysE:
  assumes "stays E f P" "stands E d bs k" "f d = (st, d', v)"
  obtains k' where "k \<le> k'" "stands E d' bs k'" "P v"
  using assms unfolding stays_def by blast

lemma stays_weaken: "stays E f P \<Longrightarrow> (\<And>v. P v \<Longrightarrow> Q v) \<Longrightarrow> stays E f Q"
  unfolding stays_def by blast

lemma stays_return [simp, intro!]: "P v \<Longrightarrow> stays E (\<lambda>d. (st, d, v)) P"
  by (auto simp: stays_def)

lemma stays_if: "\<lbrakk>stays E f P; stays E g P\<rbrakk> \<Longrightarrow> stays E (\<lambda>d. if b d then f d else g d) P"
  by (auto simp: stays_def)

lemma stays_run_out:
  assumes f: "stays E f Q" and e: "\<And>v. Q v \<Longrightarrow> P (e v)" and g: "\<And>v. Q v \<Longrightarrow> stays E (\<lambda>d. g d v) P"
  shows "stays E (\<lambda>d. run_out (f d) e g) P"
proof
  fix d bs k st d' v
  assume d: "stands E d bs k" and r: "run_out (f d) e g = (st, d', v)"
  obtain s1 d1 v1 where f1: "f d = (s1, d1, v1)" by (metis prod.exhaust)
  obtain k1 where k1: "k \<le> k1" "stands E d1 bs k1" "Q v1" by (rule staysE [OF f d f1])
  show "(\<exists>k' \<ge> k. stands E d' bs k') \<and> P v"
  proof (cases "statusSuccess s1")
    case True
    then have "g d1 v1 = (st, d', v)" using r f1 by (simp add: run_out_def)
    then obtain k' where "k1 \<le> k'" "stands E d' bs k'" "P v" by (rule staysE [OF g [OF k1(3)] k1(2)])
    then show ?thesis using k1(1) by (meson le_trans)
  qed (use r f1 k1 e in \<open>auto simp: run_out_def\<close>)
qed

text \<open>A change of the context that its container does not notice.\<close>

lemma stays_before:
  assumes "stays E f P" "\<And>d. m_binaryData (h d) = m_binaryData d" "\<And>d. common_inv (big_endian E) d \<Longrightarrow> common_inv (big_endian E) (h d)"
  shows "stays E (\<lambda>d. f (h d)) P"
  using assms unfolding stays_def stands_def by metis

section \<open>Primitives and objects\<close>

lemma stays_readPrimitive:
  assumes "LENGTH('a::len) \<in> {8, 16, 32, 64}"
  shows "stays E (\<lambda>d. readPrimitive E d (old :: 'a word)) (\<lambda>_. True)"
proof
  fix d :: "(byte walker, 'x) ctx" and bs k st d' and v :: "'a word"
  assume d: "stands E d bs k" and r: "readPrimitive E d old = (st, d', v)"
  have i: "common_inv (big_endian E) d" and w: "walker_rep (m_binaryData d) bs k" and l: "length bs < 2 ^ 63"
    using d by (simp_all add: stands_def)
  note ok = readPrimitive_ok [OF assms i w l, of old]
  show "(\<exists>k' \<ge> k. stands E d' bs k') \<and> True"
  proof (cases "k + LENGTH('a) div 8 \<le> length bs")
    case True
    from ok(1) [OF this] r d show ?thesis
      by (auto simp: stands_def ctx_simps intro!: exI [of _ "k + LENGTH('a) div 8"])
  next
    case False
    then show ?thesis using ok(2) r d by auto
  qed
qed

lemma stays_readRawData:
  assumes n: "m = sz * unat n" "m < 2 ^ 63" "0 < sz" and p: "m \<le> length ds"
    and P: "\<And>xs. length xs \<le> m \<Longrightarrow> P (Cells (map Obj xs @ drop (length xs) ds))"
  shows "stays E (\<lambda>d. readRawData E sz d n (Cells ds)) P"
proof
  fix d :: "(byte walker, 'x) ctx" and bs k st d' v
  assume d: "stands E d bs k" and r: "readRawData E sz d n (Cells ds) = (st, d', v)"
  have i: "common_inv (big_endian E) d" and w: "walker_rep (m_binaryData d) bs k" and l: "length bs < 2 ^ 63"
    using d by (simp_all add: stands_def)
  have k: "k \<le> length bs" using w by (simp add: walker_rep_def)
  note ok = readRawData_ok [OF w l n p, of E]
  show "(\<exists>k' \<ge> k. stands E d' bs k') \<and> P v"
  proof (cases "k + m \<le> length bs")
    case True
    then have "length (take m (drop k bs)) = m" by simp
    from ok(1) [OF True] P [of "take m (drop k bs)"] this r d show ?thesis
      by (auto simp: stands_def ctx_simps intro!: exI [of _ "k + m"])
  next
    case False
    then have "length (drop k bs) \<le> m" by simp
    from ok(2) P [OF this] False r d k show ?thesis
      by (auto simp: stands_def ctx_simps intro!: exI [of _ "length bs"])
  qed
qed

lemma stays_readRawObject:
  assumes "old \<noteq> []" "length old < 2 ^ 63"
  shows "stays E (\<lambda>d. readRawObject E d old) (\<lambda>bs. length bs = length old)"
proof
  fix d :: "(byte walker, 'x) ctx" and bs k st d' v
  assume d: "stands E d bs k" and r: "readRawObject E d old = (st, d', v)"
  obtain p where p: "readRawData E (length old) d 1 (Cells (map Obj old)) = (st, d', p)" "v = storage_octets old p"
    using r by (auto simp: readRawObject_def split: prod.splits)
  have "stays E (\<lambda>d :: (byte walker, 'x) ctx. readRawData E (length old) d 1 (Cells (map Obj old)))
      (\<lambda>p. length (storage_octets old p) = length old)"
  proof (rule stays_readRawData)
    fix xs :: "byte list"
    assume "length xs \<le> length old"
    then show "length (storage_octets old (Cells (map Obj xs @ drop (length xs) (map Obj old)))) = length old"
      by (simp add: storage_octets_def drop_map flip: map_append)
  qed (use assms in simp_all)
  from staysE [OF this d p(1)] p(2) show "(\<exists>k' \<ge> k. stands E d' bs k') \<and> length v = length old" by blast
qed

text \<open>A call that does to the context what \<open>f\<close> does.\<close>

lemma stays_as:
  assumes "stays E f Q" "\<And>d st d' v. f d = (st, d', v) \<Longrightarrow> Q v \<Longrightarrow> \<exists>st' v'. g d = (st', d', v') \<and> P v'"
  shows "stays E g P"
proof
  fix d bs k st d' v
  assume d: "stands E d bs k" and g: "g d = (st, d', v)"
  obtain s1 d1 v1 where f: "f d = (s1, d1, v1)" by (metis prod.exhaust)
  obtain k' where k': "k \<le> k'" "stands E d1 bs k'" "Q v1" by (rule staysE [OF assms(1) d f])
  with assms(2) [OF f k'(3)] g show "(\<exists>k' \<ge> k. stands E d' bs k') \<and> P v" by auto
qed

lemma stays_from_another_size_internal:
  assumes "LENGTH('a::len) \<in> {8, 16, 32, 64}" "LENGTH('o::len) \<in> {8, 16, 32, 64}"
  shows "stays E (\<lambda>d. deserializeFromAnotherSizeInternal E sg (o' :: 'o word) d (v :: 'a word)) (\<lambda>_. True)"
proof (cases "LENGTH('a) = LENGTH('o)")
  case True
  then show ?thesis by (simp add: deserializeFromAnotherSizeInternal_def stays_readPrimitive [OF assms(1)])
next
  case False
  then show ?thesis
    by (intro stays_as [OF stays_readPrimitive [OF assms(2), of E o']])
       (auto simp: deserializeFromAnotherSizeInternal_def split: prod.split)
qed

lemma stays_from_another_size:
  assumes "LENGTH('a::len) \<in> {8, 16, 32, 64}"
  shows "stays E (\<lambda>d. deserializeFromAnotherSize E sg n d (v :: 'a word)) (\<lambda>_. True)"
  unfolding deserializeFromAnotherSize_def
  by (intro stays_if stays_from_another_size_internal assms) simp_all

lemma stays_scalar:
  assumes "LENGTH('a::len) \<in> {8, 16, 32, 64}"
  shows "stays E (\<lambda>d. deserialize_scalar E fixSized floating sg d (v :: 'a word)) (\<lambda>_. True)"
  unfolding deserialize_scalar_def
  by (intro stays_if stays_run_out [OF stays_readPrimitive] stays_readPrimitive stays_from_another_size assms) simp_all

section \<open>Arrays\<close>

text \<open>A block of \<open>n\<close> well-formed objects.\<close>

definition full_block :: "nat \<Rightarrow> ('a \<Rightarrow> bool) \<Rightarrow> 'a storage \<Rightarrow> bool" where
  "full_block n good p \<longleftrightarrow> (\<exists>xs. p = Cells (map Obj xs) \<and> length xs = n \<and> (\<forall>x \<in> set xs. good x))"

lemma full_block_Cells: "full_block n good (Cells (map Obj xs)) \<longleftrightarrow> length xs = n \<and> (\<forall>x \<in> set xs. good x)"
  by (auto simp: full_block_def inj_map_eq_map inj_def)

lemma full_block_write:
  "\<lbrakk>full_block n good p; i < n; good x\<rbrakk> \<Longrightarrow> full_block n good (write_cells p i [Obj x])"
  unfolding full_block_def by (force simp: write_cell map_update [symmetric] dest: set_update_memI subsetD [OF set_update_subset_insert])

lemma full_block_objects:
  assumes "full_block n good p"
  shows "length (block_objects p) = n" "\<forall>x \<in> set (block_objects p). good x"
proof -
  have "List.map_filter (\<lambda>c. case c of Obj x \<Rightarrow> Some x | Raw \<Rightarrow> None) (map Obj xs) = xs" for xs :: "'a list"
    by (induction xs) (simp_all add: List.map_filter_simps)
  with assms show "length (block_objects p) = n" "\<forall>x \<in> set (block_objects p). good x"
    by (auto simp: full_block_def block_objects_def)
qed

lemma put_pointer_simps [simp]:
  "m_binaryData (put_pointer d x y) = m_binaryData d" "common_inv be (put_pointer d x y) = common_inv be d"
  by (simp_all add: put_pointer_def common_inv_def split: option.split)

text \<open>What the functions of a type keep, and what arrays of it ask of its octets.\<close>

locale any_octets =
  fixes E :: env and good :: "'a \<Rightarrow> bool" and des :: "ddata \<Rightarrow> 'a \<Rightarrow> status \<times> ddata \<times> 'a"
  assumes des_stays: "good old \<Longrightarrow> stays E (\<lambda>d. des d old) good"

locale any_octets_array = any_octets E good des
  for E :: env and good :: "'a \<Rightarrow> bool" and des :: "ddata \<Rightarrow> 'a \<Rightarrow> status \<times> ddata \<times> 'a" +
  fixes T :: "'a ctype"
  assumes no_integer: "\<not> t_integralOrEnum T" and default_good: "good (t_default T)"
    and sizeof_ok: "0 < t_sizeof T" and octets_sizeof: "length (t_octets T (big_endian E) x) = t_sizeof T"
    and of_octets_good: "length bs = t_sizeof T \<Longrightarrow> good (t_of_octets T (big_endian E) bs)"
begin

lemma stays_items:
  "\<lbrakk>full_block N good p; i + n \<le> N\<rbrakk> \<Longrightarrow> stays E (\<lambda>d. deserialize_items des (t_default T) addr i n d p) (full_block N good)"
proof (induction n arbitrary: i p)
  case (Suc n)
  let ?h = "\<lambda>d :: ddata. if m_checkRecursivePointers d then put_pointer d (walker_tell (m_binaryData d)) (addr i) else d"
  have w: "full_block N good (write_cells (write_cells p i [Obj (t_default T)]) i [Obj x])" if "good x" for x
    using Suc.prems that default_good by (intro full_block_write) simp_all
  have "stays E (\<lambda>d. run_out (des (?h d) (t_default T)) (\<lambda>x. write_cells (write_cells p i [Obj (t_default T)]) i [Obj x])
      (\<lambda>d x. deserialize_items des (t_default T) addr (Suc i) n d (write_cells (write_cells p i [Obj (t_default T)]) i [Obj x])))
      (full_block N good)"
    using Suc.prems w by (intro stays_run_out [OF stays_before [OF des_stays]] Suc.IH default_good) auto
  then show ?case by (simp add: Let_def)
qed simp

lemma block_octets_objects:
  "block_octets (big_endian E) T (Cells (map Obj xs)) = Cells (map Obj (concat (map (t_octets T (big_endian E)) xs)))"
  by (simp add: block_octets_def map_concat comp_def)

lemma split_cells_objects:
  "length bs = t_sizeof T * n \<Longrightarrow> \<exists>yss. split_cells (t_sizeof T) n (map Obj bs) = map (map Obj) yss
     \<and> length yss = n \<and> (\<forall>ys \<in> set yss. length ys = t_sizeof T)"
proof (induction n arbitrary: bs)
  case (Suc n)
  then have "length (drop (t_sizeof T) bs) = t_sizeof T * n" by simp
  from Suc.IH [OF this] obtain yss where "split_cells (t_sizeof T) n (map Obj (drop (t_sizeof T) bs)) = map (map Obj) yss"
    "length yss = n" "\<forall>ys \<in> set yss. length ys = t_sizeof T" by blast
  then show ?case using Suc.prems by (intro exI [of _ "take (t_sizeof T) bs # yss"]) (simp add: take_map drop_map)
qed simp

lemma full_block_of_octets:
  assumes "length bs = t_sizeof T * n"
  shows "full_block n good (block_of_octets (big_endian E) T n (Cells (map Obj bs)))"
proof -
  obtain yss where "split_cells (t_sizeof T) n (map Obj bs) = map (map Obj) yss"
     "length yss = n" "\<forall>ys \<in> set yss. length ys = t_sizeof T" using split_cells_objects [OF assms] by blast
  then show ?thesis
    unfolding full_block_def
    by (intro exI [of _ "map (t_of_octets T (big_endian E)) yss"]) (auto simp: block_of_octets_def of_octets_good)
qed

lemma stays_raw_block:
  assumes p: "full_block N good p" and n: "unat n \<le> N" "t_sizeof T * N < 2 ^ 63"
  shows "stays E (\<lambda>d. readRawBlock E T d n p) (full_block N good)"
proof -
  let ?sz = "t_sizeof T"
  obtain xs where xs: "p = Cells (map Obj xs)" "length xs = N" using p by (auto simp: full_block_def)
  define os where "os = concat (map (t_octets T (big_endian E)) xs)"
  have os: "length os = ?sz * N"
    unfolding os_def using xs(2) by (subst length_concat_const [where sz = ?sz]) (auto simp: octets_sizeof)
  have m: "?sz * unat n \<le> ?sz * N" using n(1) by simp
  have b: "block_octets (big_endian E) T p = Cells (map Obj os)" by (simp add: xs(1) block_octets_objects os_def)
  have "stays E (\<lambda>d. readRawData E ?sz d n (Cells (map Obj os)))
      (\<lambda>q. full_block N good (block_of_octets (big_endian E) T N q))"
  proof (rule stays_readRawData)
    fix ys :: "byte list"
    assume "length ys \<le> ?sz * unat n"
    then have "length ys \<le> ?sz * N" using m by (rule le_trans)
    then have "length (ys @ drop (length ys) os) = ?sz * N" using os by simp
    from full_block_of_octets [OF this]
    show "full_block N good (block_of_octets (big_endian E) T N (Cells (map Obj ys @ drop (length ys) (map Obj os))))"
      by (simp add: drop_map)
  next
    show "?sz * unat n < 2 ^ 63" using m n(2) by (rule le_less_trans)
  qed (use m os sizeof_ok in simp_all)
  then show ?thesis
    by (rule stays_as) (use xs b in \<open>auto simp: readRawBlock_def storage_cells_def\<close>)
qed

lemma stays_array:
  assumes "full_block N good p" "unat n \<le> N" "t_sizeof T * N < 2 ^ 63"
  shows "stays E (\<lambda>d. deserialize_array E T des des_sized addr d n p) (full_block N good)"
  unfolding deserialize_array_def using assms no_integer
  by (simp add: stays_if stays_return stays_raw_block stays_items)

text \<open>An array that is a member of a struct.\<close>

lemma stays_member_array:
  assumes "length xs = 3" "\<forall>x \<in> set xs. good x" "t_sizeof T * 3 < 2 ^ 63"
    and "\<And>ys. \<lbrakk>length ys = 3; \<forall>x \<in> set ys. good x\<rbrakk> \<Longrightarrow> P (g ys)"
  shows "stays E (\<lambda>d. run_out (deserialize_array E T des des_sized addr d 3 (Cells (map Obj xs))) (\<lambda>p. g (block_objects p))
     (\<lambda>d p. (NoError, d, g (block_objects p)))) P"
proof (rule stays_run_out)
  show "stays E (\<lambda>d. deserialize_array E T des des_sized addr d 3 (Cells (map Obj xs))) (full_block 3 good)"
    using assms(1-3) by (intro stays_array) (simp_all add: full_block_Cells)
qed (intro stays_return assms(4) full_block_objects; assumption)+

end

section \<open>Structs\<close>

lemma stays_cases:
  assumes "stays E f Q" "\<And>st v. Q v \<Longrightarrow> stays E (\<lambda>d. g st d v) P"
  shows "stays E (\<lambda>d. case f d of (st, d, v) \<Rightarrow> g st d v) P"
proof
  fix d bs k st d' v
  assume d: "stands E d bs k" and r: "(case f d of (st, d, v) \<Rightarrow> g st d v) = (st, d', v)"
  obtain s1 d1 v1 where f: "f d = (s1, d1, v1)" by (metis prod.exhaust)
  obtain k1 where k1: "k \<le> k1" "stands E d1 bs k1" "Q v1" by (rule staysE [OF assms(1) d f])
  have "g s1 d1 v1 = (st, d', v)" using r f by simp
  then obtain k' where "k1 \<le> k'" "stands E d' bs k'" "P v" by (rule staysE [OF assms(2) [OF k1(3)] k1(2)])
  then show "(\<exists>k' \<ge> k. stands E d' bs k') \<and> P v" using k1(1) by (meson le_trans)
qed

lemma stays_arg: "(\<And>y. stays E (f y) P) \<Longrightarrow> stays E (\<lambda>d. f (h d) d) P"
  unfolding stays_def by blast

lemma stays_any_simply_assignable:
  assumes T: "0 < t_sizeof T" "t_sizeof T < 2 ^ 63" "length (t_octets T (big_endian E) v) = t_sizeof T"
    and g: "good v" "\<And>bs. length bs = t_sizeof T \<Longrightarrow> good (t_of_octets T (big_endian E) bs)"
    and r: "\<And>v. good v \<Longrightarrow> stays E (\<lambda>d. rest d v) good"
  shows "stays E (\<lambda>d. deserialize_any_simply_assignable E T rest d v) good"
proof -
  have "stays E (\<lambda>d. readRawObject E d (t_octets T (big_endian E) v)) (\<lambda>bs. length bs = t_sizeof T)"
    using stays_readRawObject [of "t_octets T (big_endian E) v" E] T by (cases "t_octets T (big_endian E) v") auto
  then have "stays E (\<lambda>d. deserializeSimplyAssignable E T d v) good"
    unfolding deserializeSimplyAssignable_def using g by (intro stays_if stays_return stays_run_out)
  then show ?thesis
    unfolding deserialize_any_simply_assignable_def Let_def using g r
    by (intro stays_if stays_cases [where Q = good]) (auto split: if_split)
qed

lemma stays_csp_common:
  assumes any: "\<And>v. good v \<Longrightarrow> stays E (\<lambda>d. deserialize_any_simply_assignable E T rest d v) good"
    and old: "\<And>pv v. good v \<Longrightarrow> stays E (\<lambda>d. fromOld d pv v) good" and v: "good v"
  shows "stays E (\<lambda>d. csp_deserialize_common E T fromOld rest d v) good"
proof -
  have "stays E (\<lambda>d. fromOldStructIfNeed (t_info T) fromOld d v) good"
  proof (cases "t_info T")
    case (Some i)
    let ?f = "\<lambda>pv d. if pv = getLatestPrivateVersion i then (NoError, d, v)
        else if pv = kInterfaceVersionUndefined then (ErrorInternal, d, v) else fromOld d pv v"
    have "stays E (?f pv) good" for pv using v old by (intro stays_if stays_return)
    from stays_arg [where h = "\<lambda>d. getBestCompatInterfaceVersion i (m_interfaceVersion d)", OF this]
    show ?thesis by (simp add: fromOldStructIfNeed_def Some Let_def)
  qed (use v in \<open>simp add: fromOldStructIfNeed_def\<close>)
  then have "stays E (\<lambda>d. case fromOldStructIfNeed (t_info T) fromOld d v of (st, d, v) \<Rightarrow>
      if st = NoFurtherProcessingRequired then (NoError, d, v) else if \<not> statusSuccess st then (st, d, v)
      else run_out (testDataFlagsCompatibility (t_info T) (m_dataFlags d), d, v) id (deserialize_any_simply_assignable E T rest)) good"
  proof (rule stays_cases)
    fix st and u assume u: "good u"
    have "stays E (\<lambda>d. run_out (testDataFlagsCompatibility (t_info T) (m_dataFlags d), d, u) id (deserialize_any_simply_assignable E T rest)) good"
      using u any by (intro stays_run_out [where Q = good]) (auto simp: stays_def)
    then show "stays E (\<lambda>d. if st = NoFurtherProcessingRequired then (NoError, d, u) else if \<not> statusSuccess st then (st, d, u)
      else run_out (testDataFlagsCompatibility (t_info T) (m_dataFlags d), d, u) id (deserialize_any_simply_assignable E T rest)) good"
      by (intro stays_if stays_return u)
  qed
  then show ?thesis
    unfolding csp_deserialize_common_def Let_def using any v by (intro stays_if)
qed

text \<open>
  A chain of versions over objects of which \<open>good\<close> holds; \<open>R\<close> is what is to hold of the object
  that the conversion fills.
\<close>

definition version_good :: "env \<Rightarrow> ('o \<Rightarrow> bool) \<Rightarrow> 'o version_class \<Rightarrow> bool" where
  "version_good E good V \<longleftrightarrow> chain_ok E V \<and> good (vc_default V)
     \<and> (\<forall>x. good x \<longrightarrow> stays E (\<lambda>d. vc_deserialize V d x) good)
     \<and> (\<forall>x y. good x \<longrightarrow> good y \<longrightarrow> good (snd (vc_init V x y)))"

lemma convert_stack_good:
  assumes "\<forall>B \<in> set Bs. version_good E good B" "good from" "R to"
    and "\<And>x y. \<lbrakk>R x; good y\<rbrakk> \<Longrightarrow> R (snd (to_init x y))"
  shows "R (snd (convertToUpperVersionOnStack initable to_init V Bs from to))"
  using assms(1,2)
proof (induction Bs arbitrary: V "from")
  case (Cons B Bs)
  then have "good (snd (vc_init B (vc_default B) from))" "\<forall>B \<in> set Bs. version_good E good B" by (simp_all add: version_good_def)
  with Cons.IH assms(3,4) Cons.prems show ?case by (auto split: prod.splits)
qed (use assms(3,4) in simp)

lemma stays_pure: "R (snd r) \<Longrightarrow> stays E (\<lambda>d. let (st, x) = r in (st, d, x)) R"
  by (cases r) auto

lemma stays_fromVersion:
  assumes "\<forall>V \<in> set Vs. version_good E good V" "R to" and i: "\<And>x y. \<lbrakk>R x; good y\<rbrakk> \<Longrightarrow> R (snd (to_init x y))"
  shows "stays E (\<lambda>d. fromVersion_convert E initable to_init pv Vs d to) R"
  using assms(1)
proof (induction Vs)
  case (Cons V Vs)
  then have V: "version_good E good V" and Vs: "\<forall>V \<in> set Vs. version_good E good V" by simp_all
  have ch: "chain_ok E V" "\<forall>B \<in> set Vs. chain_ok E B" using V Vs by (simp_all add: version_good_def)
  have d: "stays E (\<lambda>d. vc_deserialize V d (vc_default V)) good" using V by (simp add: version_good_def)
  have up: "good x \<Longrightarrow> R (snd (convertToUpperVersionOnStack initable to_init V Vs x to))" for x
    by (rule convert_stack_good [OF Vs _ assms(2) i])
  have u: "stays E (\<lambda>d. let (st, to) = convertToUpperVersionOnStack initable to_init V Vs x to in (st, d, to)) R"
    "stays E (\<lambda>d. let (st, to) = convertToUpperVersionOnHeap E initable to_init V Vs x to in (st, d, to)) R" if "good x" for x
    by (rule stays_pure, use up [OF that] upper_heap [OF ch(2), of initable to_init V x to] assms(2) in fastforce)+
  have h: "heap_object E V = None \<or> heap_object E V = Some (vc_default V)" using ch(1) by (auto simp: chain_ok_def)
  show ?case
    unfolding fromVersion_convert.simps
    using h by (intro stays_if Cons.IH Vs) (auto intro!: stays_run_out [OF d] u [unfolded Let_def] assms(2))
qed (use assms(2) in simp)

text \<open>The structs with one old version.\<close>

lemma old_version_good:
  assumes "sz = Suc k" "sz < 2 ^ 32" "good' dflt" "\<And>x. good' x \<Longrightarrow> stays E (\<lambda>d. des d x) good'"
    and "\<And>x y. \<lbrakk>good' x; good y\<rbrakk> \<Longrightarrow> good' (snd (init x y))"
  shows "version_good E (case_sum good good') (old_version pv sz dflt init ser des)"
proof -
  have "chain_ok E (old_version pv sz dflt init ser des)"
    using assms(1,2) by (intro chain_okI [where k = k]) (simp_all add: old_version_def)
  moreover have "stays E (\<lambda>d. vc_deserialize (old_version pv sz dflt init ser des) d x) (case_sum good good')"
    if "case_sum good good' x" for x
    using that by (cases x) (auto simp: old_version_def Let_def intro: stays_cases [OF assms(4)])
  ultimately show ?thesis
    using assms(3,5) by (auto simp: version_good_def old_version_def split: sum.split)
qed

lemma stays_convert_from_old:
  assumes "\<forall>V \<in> set Vs. version_good E (case_sum good good') V" "good v"
    and "\<And>x y. \<lbrakk>good x; good' y\<rbrakk> \<Longrightarrow> good (snd (init x y))"
  shows "stays E (\<lambda>d. convert_from_old E initable (current_init init) Vs Inl projl d pv v) good"
proof -
  have "stays E (\<lambda>d. fromVersion_convert E initable (current_init init) pv Vs d (Inl v)) (\<lambda>x. \<exists>v. x = Inl v \<and> good v)"
    using assms by (intro stays_fromVersion [where good = "case_sum good good'"]) (auto simp: current_init_def split: sum.splits)
  then show ?thesis
    unfolding convert_from_old_def by (rule stays_run_out) auto
qed

section \<open>SimplyAssignableFixedSize\<close>

lemma AlwaysSimplyAssignable_Version0_any:
  "any_octets_array E (\<lambda>_. True) (deserialize_AlwaysSimplyAssignable_Version0 E) (AlwaysSimplyAssignable_Version0_type (big_endian E))"
proof
  fix old
  have "stays E (\<lambda>ctx. run_out (deserialize_scalar E False False False ctx (as_xx v)) (\<lambda>x. AlwaysSimplyAssignable_Version0 x (as_yy v)) (\<lambda>ctx x.
       run_out (deserialize_scalar E False False False ctx (as_yy v)) (AlwaysSimplyAssignable_Version0 x) (\<lambda>ctx y.
         (NoError, ctx, AlwaysSimplyAssignable_Version0 x y)))) (\<lambda>_. True)" for v
    by (intro stays_run_out [OF stays_scalar]) auto
  then show "stays E (\<lambda>d. deserialize_AlwaysSimplyAssignable_Version0 E d old) (\<lambda>_. True)"
    unfolding deserialize_AlwaysSimplyAssignable_Version0_def
    by (intro stays_csp_common stays_any_simply_assignable)
       (simp_all add: AlwaysSimplyAssignable_Version0_type_def fromOldStruct_def)
qed (simp_all add: AlwaysSimplyAssignable_Version0_type_def)

interpretation always0_any: any_octets_array E "\<lambda>_. True" "deserialize_AlwaysSimplyAssignable_Version0 E"
    "AlwaysSimplyAssignable_Version0_type (big_endian E)" for E
  by (rule AlwaysSimplyAssignable_Version0_any)

lemma AlwaysSimplyAssignable_any:
  "any_octets_array E (\<lambda>_. True) (deserialize_AlwaysSimplyAssignable E) (AlwaysSimplyAssignable_type (big_endian E))"
proof
  fix old
  have "stays E (\<lambda>ctx. run_out (deserialize_scalar E False False False ctx (as_x v)) (\<lambda>x. AlwaysSimplyAssignable x (as_y v)) (\<lambda>ctx x.
       run_out (deserialize_scalar E False False False ctx (as_y v)) (AlwaysSimplyAssignable x) (\<lambda>ctx y.
         (NoError, ctx, AlwaysSimplyAssignable x y)))) (\<lambda>_. True)" for v
    by (intro stays_run_out [OF stays_scalar]) auto
  moreover have "stays E (\<lambda>d. fromOldStruct_AlwaysSimplyAssignable E d pv v) (\<lambda>_. True)" for pv v
    unfolding fromOldStruct_AlwaysSimplyAssignable_def AlwaysSimplyAssignable_chain_def
    using old_version_good [of 4 3 "\<lambda>_. True", where good = "\<lambda>_. True", OF _ _ _ always0_any.des_stays]
    by (intro stays_convert_from_old [where good' = "\<lambda>_. True"]) auto
  ultimately show "stays E (\<lambda>d. deserialize_AlwaysSimplyAssignable E d old) (\<lambda>_. True)"
    unfolding deserialize_AlwaysSimplyAssignable_def
    by (intro stays_csp_common stays_any_simply_assignable) (simp_all add: AlwaysSimplyAssignable_type_def)
qed (simp_all add: AlwaysSimplyAssignable_type_def)

interpretation always_any: any_octets_array E "\<lambda>_. True" "deserialize_AlwaysSimplyAssignable E"
    "AlwaysSimplyAssignable_type (big_endian E)" for E
  by (rule AlwaysSimplyAssignable_any)

lemma stays_fixed1:
  assumes "good_fixed1 old"
  shows "stays E (\<lambda>d. deserialize_SimplyAssignableFixedSize_Version1 E addr d old) good_fixed1"
proof -
  have "stays E (\<lambda>ctx. run_out (deserialize_scalar E False False False ctx (fs_xx v))
         (\<lambda>x. SimplyAssignableFixedSize_Version1 x (fs1_asa v) (fs1_arrAsa v)) (\<lambda>ctx x.
       run_out (deserialize_AlwaysSimplyAssignable_Version0 E ctx (fs1_asa v))
         (\<lambda>a. SimplyAssignableFixedSize_Version1 x a (fs1_arrAsa v)) (\<lambda>ctx a.
       run_out (deserialize_array E (AlwaysSimplyAssignable_Version0_type (big_endian E))
              (deserialize_AlwaysSimplyAssignable_Version0 E) (\<lambda>_ ctx x. (ErrorInternal, ctx, x)) addr ctx 3
              (Cells (map Obj (fs1_arrAsa v))))
         (\<lambda>p. SimplyAssignableFixedSize_Version1 x a (block_objects p)) (\<lambda>ctx p.
         (NoError, ctx, SimplyAssignableFixedSize_Version1 x a (block_objects p)))))) good_fixed1" if "good_fixed1 v" for v
    using that
    by (intro stays_run_out [OF stays_scalar] stays_run_out [OF always0_any.des_stays] always0_any.stays_member_array)
       (auto simp: good_fixed1_def AlwaysSimplyAssignable_Version0_type_def)
  then show ?thesis
    unfolding deserialize_SimplyAssignableFixedSize_Version1_def using assms
    by (intro stays_csp_common stays_any_simply_assignable)
       (auto simp: SimplyAssignableFixedSize_Version1_type_def fromOldStruct_def good_fixed1_def three)
qed

lemma stays_fixed:
  assumes "good_fixed old"
  shows "stays E (\<lambda>d. deserialize_SimplyAssignableFixedSize E addr tmp d old) good_fixed"
proof -
  have "stays E (\<lambda>ctx. run_out (deserialize_scalar E False False False ctx (fs_x v))
         (\<lambda>x. SimplyAssignableFixedSize x (fs_asa v) (fs_arrAsa v)) (\<lambda>ctx x.
       run_out (deserialize_AlwaysSimplyAssignable E ctx (fs_asa v))
         (\<lambda>a. SimplyAssignableFixedSize x a (fs_arrAsa v)) (\<lambda>ctx a.
       run_out (deserialize_array E (AlwaysSimplyAssignable_type (big_endian E)) (deserialize_AlwaysSimplyAssignable E)
              (\<lambda>_ ctx x. (ErrorInternal, ctx, x)) addr ctx 3 (Cells (map Obj (fs_arrAsa v))))
         (\<lambda>p. SimplyAssignableFixedSize x a (block_objects p)) (\<lambda>ctx p.
         (NoError, ctx, SimplyAssignableFixedSize x a (block_objects p)))))) good_fixed" if "good_fixed v" for v
    using that
    by (intro stays_run_out [OF stays_scalar] stays_run_out [OF always_any.des_stays] always_any.stays_member_array)
       (auto simp: good_fixed_def AlwaysSimplyAssignable_type_def)
  moreover have "stays E (\<lambda>d. fromOldStruct_SimplyAssignableFixedSize E tmp d pv v) good_fixed" if "good_fixed v" for pv v
    unfolding fromOldStruct_SimplyAssignableFixedSize_def SimplyAssignableFixedSize_chain_def using that
    by (intro stays_convert_from_old [where good' = good_fixed1])
       (auto intro!: old_version_good stays_fixed1 simp: good_fixed_def good_fixed1_def SimplyAssignableFixedSize_init_def
         SimplyAssignableFixedSize_Version1_init_def SimplyAssignableFixedSize_Version1_new_def)
  ultimately show ?thesis
    unfolding deserialize_SimplyAssignableFixedSize_def using assms
    by (intro stays_csp_common stays_any_simply_assignable)
       (auto simp: SimplyAssignableFixedSize_type_def good_fixed_def three)
qed

interpretation fixed_any: any_octets E good_fixed "deserialize_SimplyAssignableFixedSize E addr tmp" for E addr tmp
  by unfold_locales (rule stays_fixed)

section \<open>Whole messages\<close>

lemma stands_ops [simp]:
  "stands E (setProtocolVersion d pv) bs k = stands E d bs k" "stands E (setMessageType d mt) bs k = stands E d bs k"
  by (simp_all add: stands_def ctx_simps) (simp_all add: setProtocolVersion_def setMessageType_def)

lemma stands_data_ops [simp]:
  "stands E (setInterfaceVersion c iv) bs k = stands E c bs k" "stands E (setDataFlags c df) bs k = stands E c bs k"
  "stands E (setPointersMap c pm) bs k = stands E c bs k" "stands E (setInterfaceVersionsNotMatch c x) bs k = stands E c bs k"
  for c :: ddata
  by (simp_all add: stands_def common_inv_def setInterfaceVersion_def setDataFlags_def setPointersMap_def setInterfaceVersionsNotMatch_def)

lemma stands_setCommonFlags: "stands E d bs k \<Longrightarrow> stands E (setCommonFlags (big_endian E) d f) bs k"
  by (simp add: stands_def ctx_simps) (simp add: setCommonFlags_def)

lemma stands_container: "\<lbrakk>stands E d bs k; stands E c bs k'\<rbrakk> \<Longrightarrow> stands E (d\<lparr>m_binaryData := m_binaryData c\<rparr>) bs k'"
  by (simp add: stands_def ctx_simps)

lemma common_deserialize_stands:
  assumes d: "stands E d bs k" and r: "common_deserialize E d = (st, d')"
  shows "\<exists>k' \<ge> k. stands E d' bs k'"
proof -
  define sp where "sp = setCommonFlags_word (big_endian E)
    (dcommon_new E (m_binaryData d) getLatestProtocolVersion Msg_Data (cf_default False (big_endian E))) cf_kNoFlagsMask"
  have s: "stands E sp bs k"
    using d by (simp add: stands_def sp_def) (simp add: setCommonFlags_word_def setCommonFlags_def dcommon_new_def common_new_def)
  have rd: "stays E (\<lambda>d :: byte walker common. readPrimitive E d (old :: u16)) (\<lambda>_. True)"
    "stays E (\<lambda>d :: byte walker common. readPrimitive E d (old' :: u32)) (\<lambda>_. True)" for old old'
    by (rule stays_readPrimitive; simp)+
  obtain s1 sp1 v1 where r1: "readPrimitive E sp (0 :: u16) = (s1, sp1, v1)" by (metis prod.exhaust)
  obtain s2 sp2 v2 where r2: "readPrimitive E sp1 (message_word Msg_Data) = (s2, sp2, v2)" by (metis prod.exhaust)
  obtain s3 sp3 v3 where r3: "readPrimitive E sp2 (0 :: u32) = (s3, sp3, v3)" by (metis prod.exhaust)
  obtain k1 where k1: "k \<le> k1" "stands E sp1 bs k1" by (rule staysE [OF rd(1) s r1])
  obtain k2 where k2: "k1 \<le> k2" "stands E sp2 bs k2" by (rule staysE [OF rd(1) k1(2) r2])
  obtain k3 where k3: "k2 \<le> k3" "stands E sp3 bs k3" by (rule staysE [OF rd(2) k2(2) r3])
  have c: "\<exists>k' \<ge> k. stands E (x\<lparr>m_binaryData := m_binaryData sp1\<rparr>) bs k'" "\<exists>k' \<ge> k. stands E (x\<lparr>m_binaryData := m_binaryData sp2\<rparr>) bs k'"
    "\<exists>k' \<ge> k. stands E (x\<lparr>m_binaryData := m_binaryData sp3\<rparr>) bs k'" if "common_inv (big_endian E) x" for x :: "(byte walker, 'x) ctx"
    using that k1 k2 k3 by (auto simp: stands_def ctx_simps intro: le_trans)
  have i: "common_inv (big_endian E) d" using d by (simp add: stands_def)
  note r' = r [unfolded common_deserialize_def Let_def, folded sp_def [unfolded Let_def], unfolded r1 prod.case r2 r3]
  show ?thesis
    using r' i by (auto simp: ctx_simps split: if_splits intro!: c)
qed

lemma stays_data_deserializeNoChecks: "stays E (\<lambda>d. data_deserializeNoChecks E d uid) (\<lambda>_. True)"
proof -
  have o: "stays E (\<lambda>d :: ddata. readRawObject E d (uuid_bytes (big_endian E) uid)) (\<lambda>_. True)"
    by (rule stays_weaken [OF stays_readRawObject]) (simp_all flip: length_0_conv)
  have f: "stays E (\<lambda>d :: ddata. run_out (readPrimitive E (setInterfaceVersion d iv) (0 :: u32)) (\<lambda>_. u) (\<lambda>d x.
       (NoError, setDataFlags d (df_of x), u))) (\<lambda>_. True)" for iv u
  proof (rule stays_run_out)
    show "stays E (\<lambda>d :: ddata. readPrimitive E (setInterfaceVersion d iv) (0 :: u32)) (\<lambda>_. True)"
      by (rule stays_before [OF stays_readPrimitive]) (simp_all add: setInterfaceVersion_def common_inv_def)
  qed (auto simp: stays_def)
  show ?thesis
    unfolding data_deserializeNoChecks_def Let_def
    by (intro stays_run_out [OF o] stays_run_out [OF stays_readPrimitive] f) simp_all
qed

lemma postprocess_stands:
  "data_deserializePostprocessRest T d minv = (st, d') \<Longrightarrow> stands E d' bs k = stands E d bs k"
  by (auto simp: data_deserializePostprocessRest_def run_def Let_def split: if_splits prod.splits)

lemma stays_with_map:
  fixes body :: "ddata \<Rightarrow> 'a \<Rightarrow> status \<times> ddata \<times> 'a"
  assumes "stays E (\<lambda>d. body d v) P"
  shows "stays E (\<lambda>d. if b d then (let (st, d, x) = body (setPointersMap d (Some (\<lambda>_. None))) v in (st, setPointersMap d None, x)) else body d v) P"
proof -
  have "stays E (\<lambda>d. body (setPointersMap d (Some (\<lambda>_. None))) v) P"
    by (rule stays_before [OF assms]) (simp_all add: setPointersMap_def common_inv_def)
  then have "stays E (\<lambda>d. case body (setPointersMap d (Some (\<lambda>_. None))) v of (st, d, x) \<Rightarrow> (st, setPointersMap d None, x)) P"
    by (rule stays_cases) (auto simp: stays_def)
  with assms show ?thesis unfolding Let_def by (intro stays_if)
qed

text \<open>The body behind the checks of the header, as \<open>ISerializable::deserialize\<close> runs it.\<close>

definition checked_body ::
    "struct_info \<Rightarrow> (ddata \<Rightarrow> 'a \<Rightarrow> status \<times> ddata \<times> 'a) \<Rightarrow> u32 \<Rightarrow> ddata \<Rightarrow> 'a \<Rightarrow> status \<times> ddata \<times> 'a" where
  "checked_body T body minv ctx value =
     (let (st, ctx) = data_deserializePostprocessRest T ctx minv
      in if \<not> statusSuccess st then (st, ctx, value)
         else if m_checkRecursivePointers ctx \<and> m_pPointersMap ctx = None
         then (let (st, ctx, value) = body (setPointersMap ctx (Some (\<lambda>_. None))) value
               in (st, setPointersMap ctx None, value))
         else body ctx value)"

lemma iserializable_deserialize_steps:
  assumes "common_deserialize E d = (st, d')"
    and "minv = (if m_interfaceVersion d' = kInterfaceVersionUndefined then getOriginPrivateVersion T else m_interfaceVersion d')"
  shows "iserializable_deserialize E T body d v = (if \<not> statusSuccess st then (st, d', v)
     else run_out (data_deserializeNoChecks E d' kNullUuid) (\<lambda>_. v) (\<lambda>ctx uid.
       run_out (data_deserializePostprocessId T uid, ctx, v) id (checked_body T body minv)))"
  unfolding iserializable_deserialize_def checked_body_def assms prod.case Let_def by simp

lemma stays_checked_body:
  assumes b: "stays E (\<lambda>d. body d v) P" and v: "P v"
  shows "stays E (\<lambda>d. checked_body T body minv d v) P"
proof
  fix d bs k st d' x
  assume d: "stands E d bs k" and r: "checked_body T body minv d v = (st, d', x)"
  obtain s2 d2 where p: "data_deserializePostprocessRest T d minv = (s2, d2)" by (metis prod.exhaust)
  have d2: "stands E d2 bs k" using postprocess_stands [OF p] d by blast
  show "(\<exists>k' \<ge> k. stands E d' bs k') \<and> P x"
  proof (cases "statusSuccess s2")
    case True
    from staysE [OF stays_with_map [where body = body and v = v, OF b] d2, of "\<lambda>d. m_checkRecursivePointers d \<and> m_pPointersMap d = None" st d' x]
      r p True show ?thesis by (auto simp: checked_body_def)
  qed (use r p d2 v in \<open>auto simp: checked_body_def\<close>)
qed

context any_octets
begin

lemma message_stays:
  assumes v: "good v"
  shows "stays E (\<lambda>d. iserializable_deserialize E T des d v) good"
proof
  fix d bs k st d' x
  assume d: "stands E d bs k" and r: "iserializable_deserialize E T des d v = (st, d', x)"
  obtain s1 d1 where c: "common_deserialize E d = (s1, d1)" by (metis prod.exhaust)
  obtain k1 where k1: "k \<le> k1" "stands E d1 bs k1" using common_deserialize_stands [OF d c] by blast
  have id: "stays E (\<lambda>ctx. run_out (data_deserializePostprocessId T uid, ctx, v) id (checked_body T des minv)) good" for uid minv
    using stays_checked_body [where body = des and v = v, OF des_stays [OF v] v, of T minv] v unfolding run_out_def by (auto simp: stays_def)
  have body: "stays E (\<lambda>d. run_out (data_deserializeNoChecks E d kNullUuid) (\<lambda>_. v) (\<lambda>ctx uid.
      run_out (data_deserializePostprocessId T uid, ctx, v) id (checked_body T des minv))) good" for minv
    by (intro stays_run_out [OF stays_data_deserializeNoChecks] v id)
  note eq = iserializable_deserialize_steps [OF c refl, of T des v]
  show "(\<exists>k' \<ge> k. stands E d' bs k') \<and> good x"
  proof (cases "statusSuccess s1")
    case True
    note r' = trans [OF eq [symmetric] r, simplified True not_True_eq_False if_False]
    obtain k' where "k1 \<le> k'" "stands E d' bs k'" "good x" by (rule staysE [OF body k1(2) r'])
    then show ?thesis using k1(1) by (meson le_trans)
  qed (use eq r k1 v in auto)
qed

end

section \<open>Claims\<close>

text \<open>
  C10: whatever octets arrive as a message, \<open>ISerializable::deserialize\<close> of a
  \<open>SimplyAssignableFixedSize\<close> comes to an end with a status, its walker on the same octets and
  between where it stood and their end, and the struct well-formed, its array of three objects: also
  when the octets end early, name an old version or any widths of integers, or memory runs out.
\<close>
theorem any_message_keeps_object:
  assumes "common_inv (big_endian E) d" "walker_rep (m_binaryData d) bs k" "length bs < 2 ^ 62" "good_fixed v"
  shows "\<exists>st d' v' k'. iserializable_deserialize E (SimplyAssignableFixedSize_info (big_endian E))
       (deserialize_SimplyAssignableFixedSize E addr tmp) d v = (st, d', v')
     \<and> k \<le> k' \<and> walker_rep (m_binaryData d') bs k' \<and> good_fixed v'"
proof -
  have d: "stands E d bs k" using assms(1-3) by (simp add: stands_def)
  obtain st d' v' where r: "iserializable_deserialize E (SimplyAssignableFixedSize_info (big_endian E))
       (deserialize_SimplyAssignableFixedSize E addr tmp) d v = (st, d', v')" by (metis prod.exhaust)
  from staysE [OF fixed_any.message_stays [OF assms(4)] d r] r show ?thesis by (auto simp: stands_def)
qed

theorem any_message_keeps_object_witness:
  "\<exists>st d' v' k'. iserializable_deserialize sample_env (SimplyAssignableFixedSize_info False)
       (deserialize_SimplyAssignableFixedSize sample_env id id) (sample_ddata [1, 0, 0, 0, 255] False) SimplyAssignableFixedSize_fill = (st, d', v')
     \<and> 0 \<le> k' \<and> walker_rep (m_binaryData d') [1, 0, 0, 0, 255] k' \<and> good_fixed v'"
  using any_message_keeps_object [of sample_env "sample_ddata [1, 0, 0, 0, 255] False" "[1, 0, 0, 0, 255]" 0
      SimplyAssignableFixedSize_fill id id] sample_ddata_ok [of "[1, 0, 0, 0, 255]"] sample_ddata_rep [of "[1, 0, 0, 0, 255]" False]
  by (simp add: body_ctx_def good_fixed_def SimplyAssignableFixedSize_fill_def)

end
