(* ===== verification/Spec2Isabelle.thy ===== *)
theory Spec2Isabelle
  imports Prelude Status Helpers Allocators AllocationManagers Vector VectorSpec Walker Flags Keepers
    Concurrency
    Context RW CommonProcessing DataContext Body Codec CodecInstances VectorCodec Serializable
    ServiceStructs StructCodec Messages Registrar RegistrarSpec ServerHandler Server Client
    ServerSpec Exchange Rpc ErrorReplies StdContainers IntegerWidths PointerGraphs
    VersionedStructs VersionCodec AnyOctets
begin

text \<open>
  A model of \<open>common_serialization\<close>: a C++ library that serializes structs into octet
  vectors and exchanges them as requests and replies (CSP, the common serialization
  protocol, described in \<open>docs\<close> and the readme files).

  \<^bold>\<open>The parts and how they interact.\<close> Containers stand at the bottom: an allocator gives
  storage, an allocation manager fills and moves runs of elements in it, \<open>Vector\<close> keeps a
  growing run, \<open>Walker\<close> is a cursor over a vector of octets. On them stand the contexts of a
  message (flags, versions, message type and the vector or walker the octets go to or come
  from), the reading and writing of primitives, the headers of messages, and the bodies of
  structs with their versions. On top are the parties: a client negotiates versions and
  settings with a server, a server dispatches requests to the data handlers that a
  registrar keeps for many threads.

  \<^bold>\<open>Theories.\<close>
  \<^item> \<open>Prelude\<close>, \<open>Status\<close>, \<open>Helpers\<close>: machine types, octets of numbers, the rewrite
    collections; \<open>common/Status.h\<close> with the macro \<open>AGS_CS_RUN\<close> as \<open>run\<close>; octet reversal,
    casts and UUIDs (\<open>common/helpers.h\<close>, \<open>common/Uuid.h\<close>).
  \<^item> \<open>Allocators\<close>, \<open>AllocationManagers\<close>: \<open>allocators\<close> and \<open>allocation_managers\<close>. A block is
    \<open>Null\<close>, its cells, or \<open>Corrupt\<close> after undefined behaviour. The locale \<open>movable_type\<close> is
    what moving runs of elements needs, \<open>element_type\<close> adds the copies; they are interpreted for plain
    and for class elements and for the keepers of pointers.
  \<^item> \<open>Vector\<close>, \<open>VectorSpec\<close>, \<open>Walker\<close>: \<open>containers/Vector.h\<close> and \<open>Walker.h\<close>, operation by
    operation, and their refinement of lists.
  \<^item> \<open>Keepers\<close>: \<open>UniquePtr\<close>, \<open>CompressedPair\<close>, \<open>GenericPointerKeeper\<close> with a log of deletions.
  \<^item> \<open>Concurrency\<close>: the scope guard of \<open>concurrency_interfaces/GuardRW.h\<close> over any lockable.
  \<^item> \<open>Flags\<close>, \<open>Context\<close>, \<open>RW\<close>, \<open>CommonProcessing\<close>, \<open>DataContext\<close>, \<open>Body\<close>, \<open>Serializable\<close>:
    \<open>csp_base\<close>. Template code takes what its element type provides as arguments; a struct's
    static members are a record; special contexts share the container and put it back.
  \<^item> \<open>Codec\<close>, \<open>CodecInstances\<close>, \<open>IntegerWidths\<close>, \<open>VectorCodec\<close>, \<open>StructCodec\<close>, \<open>Messages\<close>: the contract that
    serializing and deserializing a type keep (locale \<open>codec\<close>: what is written is a function of
    the value and the mode, and reading it gives the value back on any platform), closed
    under arrays and vectors (\<open>array_codec\<close>, with a \<open>sublocale\<close>), interpreted for scalars, sizes,
    ids, flags, interfaces and the service structs, and lifted to whole messages.
  \<^item> \<open>PointerGraphs\<close>: pointers to objects in a store, with the pointers map of a message: the bodies of
    \<open>RecursiveTestSpecial1\<close> and \<open>RecursiveTestSpecial2\<close> of the tests' restricted structs.
  \<^item> \<open>VersionedStructs\<close>, \<open>VersionCodec\<close>: structs of \<open>tests_csp_interface\<close> with their old versions (structs,
    initialisations, bodies, converters as the tests have them), and that conversion keeps the
    contract: in every interface version a struct is written so that a party of either version
    reads its own version of it; copies of objects and single members give the same octets.
  \<^item> \<open>AnyOctets\<close>: the contract \<open>stays\<close> of reading octets of any origin (locales \<open>any_octets\<close> and
    \<open>any_octets_array\<close>, interpreted for those structs): the position stays inside the input and
    objects stay well-formed, for bodies and whole messages.
  \<^item> \<open>StdContainers\<close>: \<open>csp_std_structs_processing\<close>, with exceptions as \<open>None\<close>: the contract with
    exceptions (\<open>std_codec\<close>), closed under pairs, tuples, vectors and strings, and under maps
    (\<open>map_codec\<close>, interpreted for maps from numbers to strings), and what a map holds that was
    read from elements in any order, with keys repeated.
  \<^item> \<open>ServiceStructs\<close>: \<open>csp_messaging/service_structs\<close>.
  \<^item> \<open>Registrar\<close>, \<open>RegistrarSpec\<close>: \<open>GenericServerDataHandlerRegistrar.h\<close>, every method cut at the
    points where other threads can run. \<open>registrar_step\<close> lets the methods of any number of threads
    interleave under a discipline of their callers that the code does not check, and carries the
    invariant; \<open>free_step\<close> has no discipline, and shows what can happen then.
  \<^item> \<open>ServerHandler\<close>, \<open>Server\<close>, \<open>Client\<close>: \<open>IServerDataHandler.h\<close>, \<open>Server.h\<close>, \<open>Client.h\<close>.
  \<^item> \<open>ServerSpec\<close>, \<open>Exchange\<close>, \<open>Rpc\<close>, \<open>ErrorReplies\<close>: the locale \<open>handler_registrar\<close>, what the server asks of a
    registrar, interpreted on the registrar's model; client and server joined by a communicator
    as in \<open>unit_tests/ComplexTests.cpp\<close>: negotiation of versions and settings, and whole calls
    (locale \<open>remote_call\<close> over two codecs, interpreted for \<open>GetInterface\<close>), and the calls that a
    handler declines or is asked what it supports.

  \<^bold>\<open>Conventions.\<close> A function that returns \<open>Status\<close> gives the status and the new state; an
  out-parameter is passed with its old value and returned. The environment \<open>env\<close> holds the
  byte order of the platform and which requests \<open>malloc\<close> satisfies. The build is the 64-bit
  user mode release build: assertions do nothing and sizes are 64-bit words that wrap around.
  Undefined behaviour is the block \<open>Corrupt\<close> or the result \<open>None\<close>, and the theorems show
  that it does not occur, or where it does. Exceptions exist where the code meets code that
  throws: an exception that leaves a function of \<open>StdContainers\<close> is \<open>None\<close>; a call of a handler may
  throw, and the functions of the server that make it have an \<open>outcome\<close>, \<open>Returned\<close>, \<open>Undefined\<close> or
  \<open>Thrown\<close> with the registrar that stays behind.

  \<^bold>\<open>What is shown.\<close> Vectors and walkers refine lists under sizes whose doubled octet count does
  not wrap around; a failing copy destroys what it built; owners delete once. What one
  platform writes another reads, for scalars, vectors, service structs and whole messages,
  with the exceptions that the code has (interfaces between platforms of different byte
  order); graphs of objects behind pointers arrive with their sharing and cycles, and structs
  are converted between their versions on the way. Octets of any
  origin never move a walker outside its input. Headers and versions that are not understood are rejected and named in the
  reply. Settings of two parties are reduced to what both support. In every state that
  disciplined callers of the registrar reach the handlers in use are still registered, and a removal
  waits for the last user and is then woken; without the discipline a removal can wait for ever. A
  request that returns leaves the registrar as it was, whatever its octets, and one that ends with an
  exception of a handler leaves that handler acquired; a client
  initialised from a server holds what both accept; a call returns what the handler computes,
  or the status it declined with. Where the code fails, the theorems say so: overlapping copies in
  \<open>Vector::erase\<close>, conversions from old versions, sizes from the wire, pointers to objects of another
  type, cycles that are not checked, and handles used after they are erased.

  \<^bold>\<open>Bounds.\<close> All loops are structural recursions over lists or counters, so every function is
  total. The insertion of a range by iterators has fuel, and twice the
  length of the range is enough; the calls of \<open>serialize_object\<close> and \<open>deserialize_object\<close> nest up to a
  depth, and the number of objects is enough where recursive pointers are checked. In \<open>RegistrarSpec\<close> the
  use counters, 32 bits wide, stay exact while fewer than \<open>2 ^ 32\<close> acquisitions are held.

  \<^bold>\<open>Not modelled.\<close> Kernel mode and Windows variants, the wrappers of \<open>std::shared_mutex\<close> and semaphores (their
  effect is where the methods of the registrar are cut), the memory behind \<open>malloc\<close>;
  \<open>long double\<close>; pointers
  to pointers and into the middle of objects; exceptions of the standard containers that the registrar keeps;
  compile-time checks (concepts); the unit tests.
\<close>

end
